(* ===== verification/Prelude.thy ===== *)
theory Prelude
  imports Main "HOL-Library.Word" "HOL-Library.Monad_Syntax"
begin

text \<open>
  Shared vocabulary of the development: the machine types of the Go code, the reading of
  Go panics as \<open>None\<close>, the simplification collections of the components, and the
  generic lemmas on lists, options and maps they use.

  A Go function that can panic is a function into \<open>'a option\<close>; \<open>None\<close> is the panic
  and the \<open>do\<close> notation of the option monad sequences such calls. A Go \<open>error\<close> result
  is a value: an \<open>error option\<close> beside the state, or \<open>error + 'a\<close> for a pure function.
  A nil-able \<open>*big.Int\<close> is an \<open>int option\<close>; the others are \<open>int\<close>.
\<close>

section \<open>Machine types\<close>

type_synonym byte = "8 word"
type_synonym u8 = "8 word"
type_synonym u32 = "32 word"
type_synonym u64 = "64 word"
type_synonym address = "160 word"
type_synonym hash = "256 word"

text \<open>A call that may panic.\<close>

type_synonym 'a panics = "'a option"

text \<open>Collections: what a lookup returns after an update, what an operation leaves alone,
  and the definitions that only rearrange a state.\<close>

named_theorems lookup_simps
named_theorems frame_simps
named_theorems undo_intros

section \<open>Options as panicking calls\<close>

lemma bind_Some_iff: "(Option.bind m f = Some y) = (\<exists>x. m = Some x \<and> f x = Some y)"
  by (cases m) auto

lemma bind_SomeE:
  assumes "Option.bind m f = Some y"
  obtains x where "m = Some x" and "f x = Some y"
  using assms by (cases m) auto

section \<open>Lists\<close>

text \<open>Go's loop over a slice of values with an early panic.\<close>

fun for_each :: "('x \<Rightarrow> 's \<Rightarrow> 's option) \<Rightarrow> 'x list \<Rightarrow> 's \<Rightarrow> 's option" where
  "for_each f [] s = Some s"
| "for_each f (x # xs) s = Option.bind (f x s) (for_each f xs)"

lemma for_each_append:
  "for_each f (xs @ ys) s = Option.bind (for_each f xs s) (for_each f ys)"
  by (induction xs arbitrary: s) (auto simp: Option.bind_assoc cong: Option.bind_cong)

text \<open>Go's search loop over a slice of pointers that changes the first match and returns, and
  the one that returns the first match with its index.\<close>

fun update_first :: "('e \<Rightarrow> bool) \<Rightarrow> ('e \<Rightarrow> 'e) \<Rightarrow> 'e list \<Rightarrow> 'e list option" where
  "update_first P f [] = None"
| "update_first P f (x # xs) = (if P x then Some (f x # xs) else map_option ((#) x) (update_first P f xs))"

fun find_first :: "('e \<Rightarrow> bool) \<Rightarrow> 'e list \<Rightarrow> (nat \<times> 'e) option" where
  "find_first P [] = None"
| "find_first P (x # xs) = (if P x then Some (0, x) else map_option (\<lambda>(i, y). (Suc i, y)) (find_first P xs))"

lemma update_first_Some:
  "update_first P f l = Some m \<Longrightarrow>
     \<exists>us x vs. l = us @ x # vs \<and> P x \<and> (\<forall>u \<in> set us. \<not> P u) \<and> m = us @ f x # vs"
proof (induction l arbitrary: m)
  case (Cons y l)
  show ?case
  proof (cases "P y")
    case True
    then show ?thesis using Cons.prems by (intro exI [of _ "[]"]) auto
  next
    case False
    then obtain m' where m: "m = y # m'" "update_first P f l = Some m'" using Cons.prems by auto
    from Cons.IH [OF m(2)] obtain us x vs where
      "l = us @ x # vs" "P x" "\<forall>u \<in> set us. \<not> P u" "m' = us @ f x # vs" by blast
    then show ?thesis using m False by (intro exI [of _ "y # us"]) auto
  qed
qed simp

lemma update_first_None: "update_first P f l = None \<longleftrightarrow> (\<forall>x \<in> set l. \<not> P x)"
  by (induction l) auto

lemma find_first_Some:
  "find_first P l = Some (i, x) \<Longrightarrow>
     i < length l \<and> l ! i = x \<and> P x \<and> (\<forall>u \<in> set (take i l). \<not> P u)"
  by (induction l arbitrary: i) (auto split: if_splits)

lemma find_first_None: "find_first P l = None \<longleftrightarrow> (\<forall>x \<in> set l. \<not> P x)"
  by (induction l) auto

text \<open>An invariant that every call keeps is kept by the loop.\<close>

lemma for_each_inv:
  assumes "for_each f xs s = Some t" and "P s"
    and "\<And>x u v. x \<in> set xs \<Longrightarrow> P u \<Longrightarrow> f x u = Some v \<Longrightarrow> P v"
  shows "P t"
  using assms
proof (induction xs arbitrary: s)
  case Nil
  then show ?case by simp
next
  case (Cons x xs)
  from Cons.prems(1) obtain u where u: "f x s = Some u" "for_each f xs u = Some t"
    by (auto elim: bind_SomeE)
  have "P u" using Cons.prems(3) [OF _ Cons.prems(2) u(1)] by simp
  then show ?case by (rule Cons.IH [OF u(2)]) (use Cons.prems(3) in auto)
qed

lemma foldl_horner_append:
  "foldl (\<lambda>acc d. acc * (b::nat) + g d) a (xs @ ys) =
     foldl (\<lambda>acc d. acc * b + g d) a xs * b ^ length ys + foldl (\<lambda>acc d. acc * b + g d) 0 ys"
proof (induction ys rule: rev_induct)
  case Nil
  then show ?case by simp
next
  case (snoc y ys)
  then show ?case by (simp add: algebra_simps flip: append_assoc)
qed

lemma foldl_horner_bound:
  assumes "\<forall>d \<in> set xs. g d < (b::nat)"
  shows "foldl (\<lambda>acc d. acc * b + g d) 0 xs < b ^ length xs"
  using assms
proof (induction xs rule: rev_induct)
  case Nil
  then show ?case by simp
next
  case (snoc x xs)
  let ?v = "foldl (\<lambda>acc d. acc * b + g d) 0 xs"
  have "?v + 1 \<le> b ^ length xs" and "g x < b" using snoc by auto
  then have "(?v + 1) * b \<le> b ^ length xs * b" and "?v * b + g x < (?v + 1) * b"
    by (simp_all only: mult_le_mono1) (simp add: algebra_simps)
  then show ?case by (simp add: mult.commute)
qed

lemma foldl_horner_zeros:
  "\<forall>d \<in> set xs. g d = 0 \<Longrightarrow> foldl (\<lambda>acc d. acc * (b::nat) + g d) a xs = a * b ^ length xs"
  by (induction xs arbitrary: a) auto

end
