(* ===== verification/GoCommon.thy ===== *)
theory GoCommon
  imports Prelude
begin

text \<open>
  Package \<open>common\<close> (types.go, bytes.go, hexutil.go) and what it uses of Go's standard
  library: hexadecimal decoding, \<open>big.Int\<close> parsing and bytes, string search. An address
  is a 160-bit word; its string form is EIP-55 checksummed, so it depends on the Keccak
  digest, a parameter of type \<open>keccak\<close> (the digest package is not part of the sources).
  The lemmas give the value of every string the NFT code builds from an address, whatever
  the digest: reading back a string form returns the address, and cutting digits off the
  end and padding with zeros clears low nibbles.
\<close>

section \<open>Definitions\<close>

subsection \<open>encoding/hex\<close>

definition fromHexChar :: "char \<Rightarrow> nat option" where
  "fromHexChar c = (let n = (of_char c :: nat) in
     if 48 \<le> n \<and> n \<le> 57 then Some (n - 48)
     else if 97 \<le> n \<and> n \<le> 102 then Some (n - 87)
     else if 65 \<le> n \<and> n \<le> 70 then Some (n - 55)
     else None)"

definition isHexCharacter :: "char \<Rightarrow> bool" where
  "isHexCharacter c = (let n = (of_char c :: nat) in
     (48 \<le> n \<and> n \<le> 57) \<or> (97 \<le> n \<and> n \<le> 102) \<or> (65 \<le> n \<and> n \<le> 70))"

text \<open>\<open>hex.DecodeString\<close>: the bytes decoded before the first fault, and whether there was none.\<close>

fun DecodeString :: "string \<Rightarrow> byte list \<times> bool" where
  "DecodeString [] = ([], True)"
| "DecodeString [c] = ([], False)"
| "DecodeString (a # b # cs) =
     (case (fromHexChar a, fromHexChar b) of
        (Some x, Some y) \<Rightarrow> (let (bs, ok) = DecodeString cs in (of_nat (16 * x + y) # bs, ok))
      | _ \<Rightarrow> ([], False))"

definition hexdigit :: "nat \<Rightarrow> char" where
  "hexdigit n = (if n < 10 then char_of (48 + n) else char_of (87 + n))"

definition EncodeToString :: "byte list \<Rightarrow> string" where
  "EncodeToString bs = concat (map (\<lambda>b. [hexdigit (unat b div 16), hexdigit (unat b mod 16)]) bs)"

subsection \<open>common/bytes.go and common/hexutil\<close>

definition has0xPrefix :: "string \<Rightarrow> bool" where
  "has0xPrefix s = (2 \<le> length s \<and> s ! 0 = CHR ''0'' \<and> (s ! 1 = CHR ''x'' \<or> s ! 1 = CHR ''X''))"

definition isHex :: "string \<Rightarrow> bool" where
  "isHex s = (length s mod 2 = 0 \<and> list_all isHexCharacter s)"

definition Hex2Bytes :: "string \<Rightarrow> byte list" where
  "Hex2Bytes s = fst (DecodeString s)"

definition FromHex :: "string \<Rightarrow> byte list" where
  "FromHex s0 =
     (let s1 = (if has0xPrefix s0 then drop 2 s0 else s0);
          s2 = (if length s1 mod 2 = 1 then CHR ''0'' # s1 else s1)
      in Hex2Bytes s2)"

text \<open>\<open>hexutil.Decode\<close> and \<open>hexutil.MustDecode\<close>; the latter panics on every error.\<close>

datatype hexutil_error = ErrEmptyString | ErrMissingPrefix | ErrSyntax

definition hexutil_Decode :: "string \<Rightarrow> hexutil_error + byte list" where
  "hexutil_Decode s =
     (if length s = 0 then Inl ErrEmptyString
      else if \<not> has0xPrefix s then Inl ErrMissingPrefix
      else case DecodeString (drop 2 s) of (bs, ok) \<Rightarrow> if ok then Inr bs else Inl ErrSyntax)"

definition hexutil_MustDecode :: "string \<Rightarrow> byte list panics" where
  "hexutil_MustDecode s = (case hexutil_Decode s of Inl _ \<Rightarrow> None | Inr bs \<Rightarrow> Some bs)"

subsection \<open>common.Address\<close>

type_synonym keccak = "string \<Rightarrow> hash"

definition bytes_value :: "byte list \<Rightarrow> nat" where
  "bytes_value bs = foldl (\<lambda>acc b. acc * 256 + unat b) 0 bs"

definition BytesToAddress :: "byte list \<Rightarrow> address" where
  "BytesToAddress b = of_nat (bytes_value (if length b > 20 then drop (length b - 20) b else b))"

definition Address_Bytes :: "address \<Rightarrow> byte list" where
  "Address_Bytes a = map (\<lambda>i. of_nat (unat a div 256 ^ (19 - i))) [0..<20]"

definition HexToAddress :: "string \<Rightarrow> address" where
  "HexToAddress s = BytesToAddress (FromHex s)"

definition IsHexAddress :: "string \<Rightarrow> bool" where
  "IsHexAddress s0 = (let s = (if has0xPrefix s0 then drop 2 s0 else s0)
     in length s = 40 \<and> isHex s)"

definition Address_hex :: "address \<Rightarrow> string" where
  "Address_hex a = ''0x'' @ EncodeToString (Address_Bytes a)"

definition Hash_byte :: "hash \<Rightarrow> nat \<Rightarrow> nat" where
  "Hash_byte h j = unat h div 256 ^ (31 - j) mod 256"

definition checksumHex :: "keccak \<Rightarrow> address \<Rightarrow> string" where
  "checksumHex k a =
     (let buf = Address_hex a; h = k (drop 2 buf)
      in take 2 buf @ map (\<lambda>i.
           let hashByte0 = Hash_byte h ((i - 2) div 2);
               hashByte = (if i mod 2 = 0 then hashByte0 div 16 else hashByte0 mod 16);
               c = buf ! i
           in if of_char c > (57::nat) \<and> hashByte > 7 then char_of (of_char c - (32::nat)) else c)
         [2..<length buf])"

definition Address_String :: "keccak \<Rightarrow> address \<Rightarrow> string" where
  "Address_String k a = checksumHex k a"

subsection \<open>math/big and strings\<close>

fun big_Bytes :: "nat \<Rightarrow> byte list" where
  "big_Bytes n = (if n = 0 then [] else big_Bytes (n div 256) @ [of_nat (n mod 256)])"

declare big_Bytes.simps [simp del]

definition BigToAddress :: "int \<Rightarrow> address" where
  "BigToAddress b = BytesToAddress (big_Bytes (nat \<bar>b\<bar>))"

text \<open>\<open>big.Int.Div\<close>: Euclidean division, a panic on a zero divisor.\<close>

definition big_Div :: "int \<Rightarrow> int \<Rightarrow> int panics" where
  "big_Div x y = (if y = 0 then None else if y > 0 then Some (x div y) else Some (- (x div - y)))"

text \<open>\<open>addr.Hash().Big()\<close>: the address as a number.\<close>

definition Address_Big :: "address \<Rightarrow> int" where
  "Address_Big a = uint a"

definition hexval :: "string \<Rightarrow> nat" where
  "hexval ds = foldl (\<lambda>acc c. acc * 16 + the (fromHexChar c)) 0 ds"

definition hex_digits :: "string \<Rightarrow> int option" where
  "hex_digits ds = (if ds = [] \<or> \<not> list_all isHexCharacter ds then None else Some (int (hexval ds)))"

text \<open>\<open>new(big.Int).SetString(s, 16)\<close>: an optional sign, then at least one digit and nothing else.\<close>

definition SetString16 :: "string \<Rightarrow> int option" where
  "SetString16 s =
     (case s of [] \<Rightarrow> None
      | c # cs \<Rightarrow> if c = CHR ''-'' then map_option uminus (hex_digits cs)
                 else if c = CHR ''+'' then hex_digits cs
                 else hex_digits s)"

definition HasPrefix :: "string \<Rightarrow> string \<Rightarrow> bool" where
  "HasPrefix s p = (length p \<le> length s \<and> take (length p) s = p)"

text \<open>The guard the transaction handlers put before every numeric field.\<close>

definition is0x :: "string \<Rightarrow> bool" where
  "is0x s = (HasPrefix s ''0x'' \<or> HasPrefix s ''0X'')"

text \<open>\<open>strings.LastIndex(s, "/")\<close>.\<close>

fun LastIndexSlash :: "string \<Rightarrow> int" where
  "LastIndexSlash [] = -1"
| "LastIndexSlash (c # cs) =
     (let r = LastIndexSlash cs in if r \<ge> 0 then r + 1 else if c = CHR ''/'' then 0 else -1)"

text \<open>\<open>strings.TrimSpace\<close> on UTF-8 bytes: the encodings of the white space code points.\<close>

definition utf8_spaces :: "string list" where
  "utf8_spaces =
     [[CHR 0x09], [CHR 0x0A], [CHR 0x0B], [CHR 0x0C], [CHR 0x0D], [CHR 0x20],
      [CHR 0xC2, CHR 0x85], [CHR 0xC2, CHR 0xA0], [CHR 0xE1, CHR 0x9A, CHR 0x80]] @
     map (\<lambda>b. [CHR 0xE2, CHR 0x80, char_of (b::nat)]) [0x80..<0x8B] @
     [[CHR 0xE2, CHR 0x80, CHR 0xA8], [CHR 0xE2, CHR 0x80, CHR 0xA9],
      [CHR 0xE2, CHR 0x80, CHR 0xAF], [CHR 0xE2, CHR 0x81, CHR 0x9F],
      [CHR 0xE3, CHR 0x80, CHR 0x80]]"

fun trim_front :: "nat \<Rightarrow> string list \<Rightarrow> string \<Rightarrow> string" where
  "trim_front 0 sps s = s"
| "trim_front (Suc n) sps s =
     (case filter (HasPrefix s) sps of [] \<Rightarrow> s | sp # _ \<Rightarrow> trim_front n sps (drop (length sp) s))"

definition TrimSpace :: "string \<Rightarrow> string" where
  "TrimSpace s =
     (let l = trim_front (length s) utf8_spaces s
      in rev (trim_front (length l) (map rev utf8_spaces) (rev l)))"

text \<open>Low nibbles of an address cleared: the ancestor at a depth in the NFT tree.\<close>

definition clr :: "nat \<Rightarrow> address \<Rightarrow> address" where
  "clr k a = of_nat (unat a div 16 ^ k * 16 ^ k)"

definition nibble :: "address \<Rightarrow> nat \<Rightarrow> nat" where
  "nibble a k = unat a div 16 ^ k mod 16"

text \<open>The digits of an address from the most significant one, and the value of a digit list.\<close>

definition nibs :: "address \<Rightarrow> nat list" where
  "nibs a = map (\<lambda>i. nibble a (39 - i)) [0..<40]"

definition horner16 :: "nat list \<Rightarrow> nat" where
  "horner16 ns = foldl (\<lambda>acc d. acc * 16 + d) 0 ns"

section \<open>Lemmas\<close>

lemma fromHexChar_hexdigit: "n < 16 \<Longrightarrow> fromHexChar (hexdigit n) = Some n"
  by (auto simp: fromHexChar_def hexdigit_def Let_def)

lemma isHexCharacter_iff: "isHexCharacter c = (fromHexChar c \<noteq> None)"
  by (auto simp: isHexCharacter_def fromHexChar_def Let_def)

lemma fromHexChar_bound: "fromHexChar c = Some n \<Longrightarrow> n < 16"
  by (auto simp: fromHexChar_def Let_def split: if_splits)

lemma fromHexChar_upper:
  "n < 16 \<Longrightarrow> of_char (hexdigit n) > (57::nat) \<Longrightarrow>
   fromHexChar (char_of (of_char (hexdigit n) - (32::nat))) = Some n"
  by (auto simp: fromHexChar_def hexdigit_def Let_def split: if_splits)

lemma nibble_bound: "nibble a k < 16"
  by (simp add: nibble_def)

lemma mod256: "(x::nat) mod 256 div 16 = x div 16 mod 16"
  using mod_mult2_eq [of x 16 16] by simp

lemma byte_nibbles:
  "hexdigit (unat (of_nat (unat (a::address) div 256 ^ m) :: byte) div 16) = hexdigit (nibble a (2 * m + 1))"
  "hexdigit (unat (of_nat (unat (a::address) div 256 ^ m) :: byte) mod 16) = hexdigit (nibble a (2 * m))"
proof -
  have p: "(256::nat) ^ m = 16 ^ (2 * m)" by (simp add: power_mult)
  have "unat a div 16 ^ (2 * m) mod 256 div 16 = unat a div 16 ^ (2 * m) div 16 mod 16"
    using mod256 by simp
  also have "\<dots> = unat a div 16 ^ (2 * m + 1) mod 16"
    by (simp only: power_add power_one_right div_mult2_eq)
  finally show "hexdigit (unat (of_nat (unat a div 256 ^ m) :: byte) div 16) = hexdigit (nibble a (2 * m + 1))"
    by (simp add: unat_of_nat nibble_def p)
  have "unat a div 16 ^ (2 * m) mod 256 mod 16 = unat a div 16 ^ (2 * m) mod 16"
    by (rule mod_mod_cancel) simp
  then show "hexdigit (unat (of_nat (unat a div 256 ^ m) :: byte) mod 16) = hexdigit (nibble a (2 * m))"
    by (simp add: unat_of_nat nibble_def p)
qed

lemma EncodeToString_Address: "EncodeToString (Address_Bytes a) = map hexdigit (nibs a)"
  unfolding EncodeToString_def Address_Bytes_def nibs_def map_map comp_def byte_nibbles
  by (simp add: upt_rec)

lemma length_nibs [simp]: "length (nibs a) = 40"
  by (simp add: nibs_def)

lemma nibs_bound: "n \<in> set (nibs a) \<Longrightarrow> n < 16"
  by (auto simp: nibs_def nibble_bound)

lemma list_all2_hexdigit:
  assumes "\<forall>n \<in> set ns. n < 16"
  shows "list_all2 (\<lambda>c n. fromHexChar c = Some n) (map hexdigit ns) ns"
  using assms by (simp add: list.rel_map(1) list_all2_same fromHexChar_hexdigit)

text \<open>The string form is \<open>0x\<close> and forty digits whose values are the nibbles.\<close>

lemma Address_String_digits:
  obtains ds where "Address_String k a = ''0x'' @ ds" and "length ds = 40"
    and "list_all2 (\<lambda>c n. fromHexChar c = Some n) ds (nibs a)"
proof -
  define buf where "buf = Address_hex a"
  define h where "h = k (drop 2 buf)"
  define f where "f i = (let hashByte0 = Hash_byte h ((i - 2) div 2);
               hashByte = (if i mod 2 = 0 then hashByte0 div 16 else hashByte0 mod 16);
               c = buf ! i
           in if of_char c > (57::nat) \<and> hashByte > 7 then char_of (of_char c - (32::nat)) else c)" for i
  have buf: "buf = ''0x'' @ map hexdigit (nibs a)"
    by (simp add: buf_def Address_hex_def EncodeToString_Address)
  have len: "length buf = 42" by (simp add: buf)
  have "fromHexChar (f i) = Some (nibs a ! (i - 2))" if "2 \<le> i" "i < 42" for i
  proof -
    have "nibs a ! (i - 2) < 16" using that by (intro nibs_bound [of _ a] nth_mem) simp
    moreover have "buf ! i = hexdigit (nibs a ! (i - 2))"
      using that by (simp add: buf nth_append numeral_2_eq_2)
    ultimately show ?thesis
      by (auto simp: f_def Let_def fromHexChar_hexdigit fromHexChar_upper)
  qed
  then have "list_all2 (\<lambda>c n. fromHexChar c = Some n) (map f [2..<42]) (nibs a)"
    by (auto simp: list_all2_conv_all_nth simp del: upt_rec_numeral)
  moreover have "Address_String k a = ''0x'' @ map f [2..<42]"
    unfolding Address_String_def checksumHex_def buf_def [symmetric] Let_def h_def [symmetric]
      f_def len by (simp add: buf del: upt_rec_numeral)
  ultimately show thesis
    by (intro that [of "map f [2..<42]"]) (simp_all del: upt_rec_numeral)
qed

lemma hexval_list_all2:
  "list_all2 (\<lambda>c n. fromHexChar c = Some n) ds ns \<Longrightarrow> hexval ds = horner16 ns"
proof -
  have "list_all2 (\<lambda>c n. fromHexChar c = Some n) ds ns \<Longrightarrow>
     foldl (\<lambda>acc c. acc * 16 + the (fromHexChar c)) a ds = foldl (\<lambda>acc d. acc * 16 + d) a ns" for a
    by (induction ds ns arbitrary: a rule: list_all2_induct) auto
  then show "list_all2 (\<lambda>c n. fromHexChar c = Some n) ds ns \<Longrightarrow> hexval ds = horner16 ns"
    by (simp add: hexval_def horner16_def)
qed

lemma nibs_Suc: "horner16 (map (\<lambda>i. unat (a::address) div 16 ^ (39 - i) mod 16) [0..<n]) = unat a div 16 ^ (40 - n)"
  if "n \<le> 40"
  using that
proof (induction n)
  case 0
  have "unat a < 16 ^ 40" using unsigned_less [of a, where ?'a = nat] by simp
  then show ?case by (simp add: horner16_def)
next
  case (Suc n)
  have "40 - n = Suc (39 - n)" using Suc.prems by simp
  then have "(16::nat) ^ (40 - n) = 16 ^ (39 - n) * 16" by simp
  then have "unat a div 16 ^ (40 - n) = unat a div 16 ^ (39 - n) div 16"
    by (simp add: div_mult2_eq)
  with Suc show ?case by (simp add: horner16_def)
qed

lemma horner16_take_nibs: "n \<le> 40 \<Longrightarrow> horner16 (take n (nibs a)) = unat a div 16 ^ (40 - n)"
  using nibs_Suc [of n a] by (simp add: nibs_def nibble_def take_map)

text \<open>Decoding: the value of the bytes is the value of the digits.\<close>

lemma DecodeString_value:
  assumes "list_all isHexCharacter ds" and "even (length ds)"
  shows "snd (DecodeString ds) \<and> bytes_value (fst (DecodeString ds)) = hexval ds
         \<and> length (fst (DecodeString ds)) = length ds div 2"
  using assms
proof (induction ds rule: DecodeString.induct)
  case 1
  then show ?case by (simp add: bytes_value_def hexval_def)
next
  case (2 c)
  then show ?case by simp
next
  case (3 a b cs)
  from 3 obtain x y where xy: "fromHexChar a = Some x" "fromHexChar b = Some y"
    by (auto simp: isHexCharacter_iff)
  then have b: "x < 16" "y < 16" by (auto dest: fromHexChar_bound)
  obtain bs ok where D: "DecodeString cs = (bs, ok)" by force
  have IH: "ok" "bytes_value bs = hexval cs" "length bs = length cs div 2"
    using 3 xy D by auto
  have "unat (of_nat (16 * x + y) :: byte) = 16 * x + y"
    using b unat_of_nat [of "16 * x + y", where ?'a = 8] by (simp del: of_nat_add of_nat_mult)
  moreover have "foldl (\<lambda>acc b. acc * 256 + unat b) (16 * x + y) bs =
       (16 * x + y) * 256 ^ length bs + bytes_value bs"
    using foldl_horner_append [of 256 unat "0" "[of_nat (16 * x + y) :: byte]" bs] calculation
    by (simp add: bytes_value_def)
  moreover have "foldl (\<lambda>acc c. acc * 16 + the (fromHexChar c)) (x * 16 + y) cs =
       (x * 16 + y) * 16 ^ length cs + hexval cs"
    using foldl_horner_append [of 16 "\<lambda>c. the (fromHexChar c)" "0" "[a, b]" cs] xy
    by (simp add: hexval_def)
  moreover have "(256::nat) ^ (length cs div 2) = 16 ^ length cs"
    using 3(3) by (auto elim!: evenE simp: power_mult)
  ultimately show ?case
    using IH by (simp add: xy D bytes_value_def hexval_def mult.commute)
qed

lemma bytes_value_drop: "bytes_value (take n bs) * 256 ^ length (drop n bs) + bytes_value (drop n bs) = bytes_value bs"
  using foldl_horner_append [of 256 unat 0 "take n bs" "drop n bs"] by (simp add: bytes_value_def)

lemma of_nat_address_mod: "(of_nat n :: address) = of_nat m" if "n mod 256 ^ 20 = m mod 256 ^ 20"
  using that by (simp add: word_of_nat_eq_iff take_bit_eq_mod)

lemma BytesToAddress_value: "BytesToAddress bs = of_nat (bytes_value bs)"
proof (cases "length bs > 20")
  case True
  have "bytes_value bs = bytes_value (take (length bs - 20) bs) * 256 ^ 20 + bytes_value (drop (length bs - 20) bs)"
    using bytes_value_drop [of "length bs - 20" bs] True by simp
  then have "bytes_value bs mod 256 ^ 20 = bytes_value (drop (length bs - 20) bs) mod 256 ^ 20"
    by (simp only: mod_mult_self3)
  then show ?thesis using True
    by (simp only: BytesToAddress_def if_True) (rule of_nat_address_mod [symmetric])
qed (simp add: BytesToAddress_def)

lemma hexval_zero_prefix: "hexval (CHR ''0'' # ds) = hexval ds"
  by (simp add: hexval_def fromHexChar_def)

lemma HexToAddress_value:
  assumes "list_all isHexCharacter ds"
  shows "HexToAddress (''0x'' @ ds) = of_nat (hexval ds)"
proof -
  have "isHexCharacter (CHR ''0'')" by (simp add: isHexCharacter_def)
  moreover have "(length ds mod 2 = Suc 0) = odd (length ds)" by presburger
  ultimately show ?thesis
    using assms DecodeString_value [of ds] DecodeString_value [of "CHR ''0'' # ds"]
    by (auto simp: HexToAddress_def FromHex_def Let_def has0xPrefix_def Hex2Bytes_def
        BytesToAddress_value hexval_zero_prefix)
qed


lemma HexToAddress_digits:
  assumes "list_all isHexCharacter ds"
  shows "HexToAddress ds = of_nat (hexval ds)"
proof -
  have "\<not> has0xPrefix ds"
    using assms by (auto simp: has0xPrefix_def isHexCharacter_def list_all_length numeral_2_eq_2
        dest: spec [of _ "Suc 0"])
  moreover have "has0xPrefix (''0x'' @ ds)" by (simp add: has0xPrefix_def)
  ultimately have "HexToAddress ds = HexToAddress (''0x'' @ ds)"
    by (simp add: HexToAddress_def FromHex_def)
  then show ?thesis using HexToAddress_value [OF assms] by simp
qed

lemma list_all2_hex_chars:
  "list_all2 (\<lambda>c n. fromHexChar c = Some n) ds ns \<Longrightarrow> list_all isHexCharacter ds"
  by (induction rule: list_all2_induct) (auto simp: isHexCharacter_iff)

lemma hexval_append: "hexval (xs @ ys) = hexval xs * 16 ^ length ys + hexval ys"
  using foldl_horner_append [of 16 "\<lambda>c. the (fromHexChar c)" 0 xs ys] by (simp add: hexval_def)

lemma hexval_zeros [simp]: "hexval (replicate n (CHR ''0'')) = 0"
  by (induction n) (simp_all add: hexval_zero_prefix, simp add: hexval_def)

lemma hex_zeros [simp]: "list_all isHexCharacter (replicate n (CHR ''0''))"
  by (induction n) (auto simp: isHexCharacter_def)

text \<open>The digits of a string form, cut to the first \<open>n\<close>, denote the high nibbles.\<close>

lemma Address_String_take:
  assumes "n \<le> 40"
  obtains ds where "Address_String k a = ''0x'' @ ds" "length ds = 40"
    "list_all isHexCharacter ds" "hexval (take n ds) = unat a div 16 ^ (40 - n)"
proof -
  obtain ds where ds: "Address_String k a = ''0x'' @ ds" "length ds = 40"
    "list_all2 (\<lambda>c n. fromHexChar c = Some n) ds (nibs a)"
    by (rule Address_String_digits)
  have "hexval (take n ds) = horner16 (take n (nibs a))"
    using ds(3) by (intro hexval_list_all2 list_all2_takeI)
  then show thesis
    using that ds list_all2_hex_chars horner16_take_nibs [OF assms] by metis
qed

lemma length_Address_String [simp]: "length (Address_String k a) = 42"
  by (rule Address_String_take [of 0 k a]) auto

lemma HasPrefix_Address_String [simp]: "HasPrefix (Address_String k a) ''0x''"
  by (rule Address_String_take [of 0 k a]) (auto simp: HasPrefix_def)

lemma HexToAddress_String [simp]: "HexToAddress (Address_String k a) = a"
proof -
  obtain ds where ds: "Address_String k a = ''0x'' @ ds" "length ds = 40"
    "list_all isHexCharacter ds" "hexval (take 40 ds) = unat a div 16 ^ (40 - 40)"
    by (rule Address_String_take [of 40 k a]) simp
  then show ?thesis using HexToAddress_value [OF ds(3)] by simp
qed

lemma list_all_takeI: "list_all P xs \<Longrightarrow> list_all P (take n xs)"
  by (auto simp: list_all_iff dest: in_set_takeD)

lemma clr_eq_of_nat: "of_nat (unat (a::address) div 16 ^ d) * 16 ^ d = clr d a"
  by (simp add: clr_def)

lemma HexToAddress_cut:
  assumes "d \<le> 40"
  shows "HexToAddress (take (42 - d) (Address_String k a) @ replicate d (CHR ''0'')) = clr d a"
proof -
  obtain ds where ds: "Address_String k a = ''0x'' @ ds" "length ds = 40"
    "list_all isHexCharacter ds" "hexval (take (40 - d) ds) = unat a div 16 ^ (40 - (40 - d))"
    by (rule Address_String_take [of "40 - d" k a]) simp
  have "take (42 - d) (Address_String k a) = ''0x'' @ take (40 - d) ds"
    using assms ds(1) by (simp add: numeral_eq_Suc Suc_diff_le)
  moreover have "40 - (40 - d) = d" using assms by simp
  ultimately show ?thesis
    using ds by (simp add: HexToAddress_value [of "take (40 - d) ds @ replicate d CHR ''0''", simplified]
        list_all_takeI hexval_append clr_eq_of_nat)
qed

lemma unat_clr: "unat (clr d a) = unat a div 16 ^ d * 16 ^ d"
proof -
  have "unat a div 16 ^ d * 16 ^ d \<le> unat a" by (rule div_times_less_eq_dividend)
  also have "unat a < 2 ^ 160" using unsigned_less [of a, where ?'a = nat] by simp
  finally show ?thesis unfolding clr_def by (subst unat_of_nat) simp
qed

lemma clr_0 [simp]: "clr 0 a = a"
  by (simp add: clr_def)

lemma clr_clr [simp]: "clr d (clr e a) = clr (max d e) a"
proof (cases "d \<le> e")
  case True
  then obtain m where e: "e = d + m" using le_Suc_ex by blast
  have "unat a div 16 ^ e * 16 ^ e div 16 ^ d * 16 ^ d = unat a div 16 ^ e * 16 ^ e"
    by (simp add: e power_add mult.assoc mult.commute [of _ "16 ^ m"] flip: mult.assoc)
  then have "clr d (clr e a) = of_nat (unat a div 16 ^ e * 16 ^ e)"
    unfolding clr_def [of d] unat_clr by simp
  then show ?thesis using True by (simp only: max_absorb2 flip: clr_def)
next
  case False
  then obtain m where d: "d = e + m" using le_Suc_ex nat_le_linear by blast
  have "unat a div 16 ^ e * 16 ^ e div 16 ^ d = unat a div 16 ^ d"
    by (simp add: d power_add div_mult2_eq)
  then show ?thesis using False by (simp add: clr_def [of d "clr e a"] unat_clr clr_def [of d a] max_absorb1)
qed

text \<open>The value of a big number's bytes written out in hexadecimal is the number.\<close>

lemma hexval_Encode: "hexval (EncodeToString bs) = bytes_value bs \<and> list_all isHexCharacter (EncodeToString bs)
  \<and> length (EncodeToString bs) = 2 * length bs"
proof (induction bs rule: rev_induct)
  case Nil
  then show ?case by (simp add: EncodeToString_def hexval_def bytes_value_def)
next
  case (snoc b bs)
  have "unat b < 256" using unsigned_less [of b, where ?'a = nat] by simp
  then have h: "fromHexChar (hexdigit (unat b div 16)) = Some (unat b div 16)"
    "fromHexChar (hexdigit (unat b mod 16)) = Some (unat b mod 16)"
    by (auto intro!: fromHexChar_hexdigit)
  have e: "EncodeToString (bs @ [b]) =
    EncodeToString bs @ [hexdigit (unat b div 16), hexdigit (unat b mod 16)]"
    by (simp add: EncodeToString_def)
  have "hexval [hexdigit (unat b div 16), hexdigit (unat b mod 16)] = unat b"
    using h by (simp add: hexval_def)
  moreover have "bytes_value (bs @ [b]) = bytes_value bs * 256 + unat b"
    by (simp add: bytes_value_def)
  ultimately show ?case
    using snoc h by (simp add: e hexval_append isHexCharacter_iff)
qed

lemma bytes_value_big_Bytes: "bytes_value (big_Bytes n) = n"
proof (induction n rule: big_Bytes.induct)
  case (1 n)
  then show ?case
    by (subst big_Bytes.simps) (simp add: bytes_value_def unat_of_nat)
qed

lemma BigToAddress_nat: "BigToAddress (int n) = of_nat n"
  by (simp add: BigToAddress_def BytesToAddress_value bytes_value_big_Bytes)

lemma HexToAddress_padded:
  "HexToAddress (replicate p (CHR ''0'') @ EncodeToString (big_Bytes n) @ replicate l (CHR ''0''))
     = of_nat (n * 16 ^ l)"
  by (subst HexToAddress_digits)
     (simp_all add: hexval_append hexval_Encode bytes_value_big_Bytes)

end
