(* ===== verification/NFTTypes.thy ===== *)
theory NFTTypes
  imports GoCommon
begin

text \<open>
  core/types/nfttypes.go: the pools of the NFT extension and the payload of an NFT
  transaction. \<open>SNFTExchangeList\<close> holds the SNFTs that were exchanged for currency and
  that are minted again, one leaf address at a time (\<open>PopAddress\<close>);
  \<open>InjectedOfficialNFTList\<close> holds the windows of official indices with their metadata.
  The lemmas show which addresses an exchange entry hands out, which window an address is
  found in, what the expiry step drops, and that \<open>MaxIndex\<close> bounds every window.
\<close>

section \<open>Definitions\<close>

subsection \<open>Exchange pool\<close>

record InjectedInfo =
  MetalUrl :: string
  ii_Royalty :: u32
  ii_Creator :: string

record MintDeep =
  UserMint :: int
  OfficialMint :: int

record SNFTExchange =
  Info :: InjectedInfo
  NFTAddress :: address
  sx_MergeLevel :: u8
  CurrentMintAddress :: address
  sx_BlockNumber :: int

definition MinNFTAddress :: "SNFTExchange \<Rightarrow> address" where
  "MinNFTAddress ex = NFTAddress ex"

definition MaxNFTAddress :: "SNFTExchange \<Rightarrow> address" where
  "MaxNFTAddress ex =
     (if sx_MergeLevel ex = 0 then NFTAddress ex
      else BigToAddress (uint (NFTAddress ex) + 256 ^ unat (sx_MergeLevel ex)))"

text \<open>The pool after the call, and the address with its metadata if there is one to mint.\<close>

definition PopAddress ::
  "int \<Rightarrow> SNFTExchange list \<Rightarrow> SNFTExchange list \<times> (address \<times> InjectedInfo) option" where
  "PopAddress blocknumber l =
     (case l of [] \<Rightarrow> (l, None)
      | e # es \<Rightarrow>
          if sx_BlockNumber e \<ge> blocknumber then (l, None)
          else
            (let addr = CurrentMintAddress e
             in if CurrentMintAddress e = MaxNFTAddress e
                then (es, Some (addr, Info e))
                else (e\<lparr>CurrentMintAddress := BigToAddress (uint (CurrentMintAddress e) + 1)\<rparr> # es,
                      Some (addr, Info e))))"

text \<open>Repeated calls with one block number, as the mint loop makes them.\<close>

fun pops :: "nat \<Rightarrow> int \<Rightarrow> SNFTExchange list \<Rightarrow> SNFTExchange list \<times> address list" where
  "pops 0 bn l = (l, [])"
| "pops (Suc n) bn l =
     (case PopAddress bn l of
        (l', None) \<Rightarrow> (l', [])
      | (l', Some (a, _)) \<Rightarrow> (let (l'', as) = pops n bn l' in (l'', a # as)))"

subsection \<open>Pledges and official NFT windows\<close>

record PledgedToken =
  pt_Address :: address
  pt_Amount :: int
  pt_Flag :: bool

record InjectedOfficialNFT =
  Dir :: string
  StartIndex :: int
  Number :: u64
  io_Royalty :: u32
  io_Creator :: string

record NominatedOfficialNFT = InjectedOfficialNFT +
  no_Address :: address

text \<open>The mask of official addresses, \<open>0x80\<close> followed by zeros.\<close>

definition maskB :: int where
  "maskB = 2 ^ 159"

fun GetInjectedInfo_loop :: "int \<Rightarrow> InjectedOfficialNFT list \<Rightarrow> InjectedOfficialNFT option" where
  "GetInjectedInfo_loop addrInt [] = None"
| "GetInjectedInfo_loop addrInt (n # ns) =
     (if StartIndex n = addrInt then Some n
      else if StartIndex n < addrInt \<and> StartIndex n + uint (Number n) \<ge> addrInt then Some n
      else GetInjectedInfo_loop addrInt ns)"

definition GetInjectedInfo :: "InjectedOfficialNFT list \<Rightarrow> address \<Rightarrow> InjectedOfficialNFT option" where
  "GetInjectedInfo l addr = GetInjectedInfo_loop (uint addr - maskB) l"

fun expire_index :: "int \<Rightarrow> InjectedOfficialNFT list \<Rightarrow> nat option" where
  "expire_index num [] = None"
| "expire_index num (n # ns) =
     (if StartIndex n + uint (Number n) + maskB > num then Some 0
      else map_option Suc (expire_index num ns))"

definition DeleteExpireElem :: "int \<Rightarrow> InjectedOfficialNFT list \<Rightarrow> InjectedOfficialNFT list" where
  "DeleteExpireElem num l = drop (case expire_index num l of None \<Rightarrow> 0 | Some k \<Rightarrow> k) l"

definition RemainderNum :: "InjectedOfficialNFT list \<Rightarrow> int \<Rightarrow> u64" where
  "RemainderNum l addrInt = foldl (\<lambda>sum n.
     let sum1 = (if StartIndex n \<ge> addrInt then sum + Number n else sum);
         tempInt = StartIndex n + uint (Number n) + maskB
     in if StartIndex n < addrInt \<and> tempInt \<ge> addrInt
        then sum1 + word_of_int (tempInt - addrInt) else sum1) 0 l"

definition MaxIndex :: "InjectedOfficialNFT list \<Rightarrow> int" where
  "MaxIndex l = foldl (\<lambda>mx n. let index = StartIndex n + uint (Number n)
     in if index > mx then index else mx) 0 l"

subsection \<open>Transaction payload\<close>

record Payload =
  p_Amount :: string
  p_NFTAddress :: string
  p_Exchanger :: string
  p_BlockNumber :: string
  p_Seller :: string
  p_Sig :: string

record MintSellPayload =
  m_Amount :: string
  m_Royalty :: string
  m_MetaURL :: string
  m_ExclusiveFlag :: string
  m_Exchanger :: string
  m_BlockNumber :: string
  m_Sig :: string

record ExchangerPayload =
  e_ExchangerOwner :: string
  e_To :: string
  e_BlockNumber :: string
  e_Sig :: string

record Wormholes =
  w_Type :: u8
  w_NFTAddress :: string
  w_Exchanger :: string
  w_Royalty :: u32
  w_MetaURL :: string
  w_FeeRate :: u32
  w_Name :: string
  w_Url :: string
  w_Dir :: string
  w_StartIndex :: string
  w_Number :: u64
  w_Buyer :: Payload
  w_Seller1 :: Payload
  w_Seller2 :: MintSellPayload
  w_ExchangerAuth :: ExchangerPayload
  w_Creator :: string
  w_Version :: string

text \<open>The shape elections give the official pool: windows follow one another.\<close>

definition window_end :: "InjectedOfficialNFT \<Rightarrow> int" where
  "window_end n = StartIndex n + uint (Number n)"

fun windows_ok :: "InjectedOfficialNFT list \<Rightarrow> bool" where
  "windows_ok [] = True"
| "windows_ok (n # ns) = (0 \<le> StartIndex n \<and> (\<forall>m \<in> set ns. window_end n \<le> StartIndex m) \<and> windows_ok ns)"

section \<open>Lemmas\<close>

subsection \<open>Exchange pool\<close>

lemma BigToAddress_uint_add:
  "BigToAddress (uint (a::address) + int n) = a + of_nat n"
proof -
  have "uint a + int n = int (unat a + n)" by simp
  then show ?thesis by (simp only: BigToAddress_nat) simp
qed

lemma MaxNFTAddress_eq:
  "MaxNFTAddress e = NFTAddress e +
     (if sx_MergeLevel e = 0 then 0 else of_nat (256 ^ unat (sx_MergeLevel e)))"
  using BigToAddress_uint_add [of "NFTAddress e" "256 ^ unat (sx_MergeLevel e)"]
  by (simp add: MaxNFTAddress_def)

lemma MaxNFTAddress_update [simp]:
  "MaxNFTAddress (e\<lparr>CurrentMintAddress := c\<rparr>) = MaxNFTAddress e"
  by (simp add: MaxNFTAddress_def)

lemma PopAddress_last:
  "sx_BlockNumber e < bn \<Longrightarrow> CurrentMintAddress e = MaxNFTAddress e \<Longrightarrow>
     PopAddress bn (e # es) = (es, Some (CurrentMintAddress e, Info e))"
  by (simp add: PopAddress_def)

lemma PopAddress_next:
  "sx_BlockNumber e < bn \<Longrightarrow> CurrentMintAddress e \<noteq> MaxNFTAddress e \<Longrightarrow>
     PopAddress bn (e # es) =
       (e\<lparr>CurrentMintAddress := CurrentMintAddress e + 1\<rparr> # es, Some (CurrentMintAddress e, Info e))"
  using BigToAddress_uint_add [of "CurrentMintAddress e" 1] by (simp add: PopAddress_def)

lemma unat_plus_one: "(a::address) < b \<Longrightarrow> unat (a + 1) = Suc (unat a)"
proof -
  assume "a < b"
  then have "unat a + 1 < 2 ^ 160"
    using unsigned_less [of b, where ?'a = nat] by (simp add: word_less_nat_alt)
  then have "unat (of_nat (unat a + 1) :: address) = unat a + 1"
    by (subst unat_of_nat) simp
  then show ?thesis by (simp add: add.commute)
qed

lemma pops_entry:
  assumes "sx_BlockNumber e < bn"
    and "unat (MaxNFTAddress e) = unat (CurrentMintAddress e) + k"
  shows "pops (Suc k) bn (e # es) = (es, map (\<lambda>i. CurrentMintAddress e + of_nat i) [0..<Suc k])"
  using assms
proof (induction k arbitrary: e)
  case 0
  then have "CurrentMintAddress e = MaxNFTAddress e" by (subst word_unat_eq_iff) simp
  with 0 show ?case by (simp add: PopAddress_last)
next
  case (Suc k)
  let ?e = "e\<lparr>CurrentMintAddress := CurrentMintAddress e + 1\<rparr>"
  have lt: "CurrentMintAddress e < MaxNFTAddress e" using Suc.prems by (simp add: word_less_nat_alt)
  have "unat (MaxNFTAddress ?e) = unat (CurrentMintAddress ?e) + k"
    using Suc.prems unat_plus_one [OF lt] by simp
  then have "pops (Suc k) bn (?e # es) =
      (es, map (\<lambda>i. CurrentMintAddress ?e + of_nat i) [0..<Suc k])"
    using Suc.IH [of ?e] Suc.prems(1) by simp
  moreover have "map (\<lambda>i. CurrentMintAddress e + of_nat i) [0..<Suc (Suc k)] =
      CurrentMintAddress e # map (\<lambda>i. CurrentMintAddress ?e + of_nat i) [0..<Suc k]"
    unfolding map_upt_Suc [of _ "Suc k"] by (simp add: add.assoc)
  ultimately show ?case
    using lt Suc.prems(1) by (subst pops.simps(2)) (simp add: PopAddress_next del: pops.simps upt_Suc)
qed

subsection \<open>Official NFT windows\<close>

lemma GetInjectedInfo_loop_Some:
  "GetInjectedInfo_loop i l = Some n \<Longrightarrow> n \<in> set l \<and> StartIndex n \<le> i \<and> i \<le> window_end n"
  by (induction l) (auto simp: window_end_def split: if_splits)

lemma GetInjectedInfo_loop_None:
  "GetInjectedInfo_loop i l = None \<longleftrightarrow> (\<forall>n \<in> set l. \<not> (StartIndex n \<le> i \<and> i \<le> window_end n))"
  by (induction l) (auto simp: window_end_def)

lemma expire_index_props:
  "expire_index num l = Some k \<Longrightarrow>
     k < length l \<and> window_end (l ! k) + maskB > num \<and> (\<forall>j < k. window_end (l ! j) + maskB \<le> num)"
  "expire_index num l = None \<longleftrightarrow> (\<forall>n \<in> set l. window_end n + maskB \<le> num)"
  by (induction l arbitrary: k) (auto simp: window_end_def less_Suc_eq_0_disj split: if_splits)

lemma fold_max_index:
  "foldl (\<lambda>mx n. let index = StartIndex n + uint (Number n) in if index > mx then index else mx) m l =
     fold max (map window_end l) m"
  by (induction l arbitrary: m) (auto simp: window_end_def Let_def max_def)

lemma MaxIndex_fold: "MaxIndex l = fold max (map window_end l) 0"
  by (simp add: MaxIndex_def fold_max_index)

lemma fold_max_ge: "(m::int) \<le> fold max xs m \<and> (\<forall>x \<in> set xs. x \<le> fold max xs m)"
proof (induction xs arbitrary: m)
  case (Cons x xs)
  show ?case using Cons [of "max x m"] by (auto simp: max_def split: if_splits)
qed simp

lemma fold_max_mem: "fold max xs (m::int) \<in> insert m (set xs)"
proof (induction xs arbitrary: m)
  case (Cons x xs)
  show ?case using Cons [of "max x m"] by (auto simp: max_def split: if_splits)
qed simp

lemma MaxIndex_upper: "n \<in> set l \<Longrightarrow> window_end n \<le> MaxIndex l"
  using fold_max_ge [of 0 "map window_end l"] by (auto simp: MaxIndex_fold)

lemma MaxIndex_nonneg: "0 \<le> MaxIndex l"
  using fold_max_ge [of 0 "map window_end l"] by (auto simp: MaxIndex_fold)

lemma MaxIndex_attained: "MaxIndex l = 0 \<or> (\<exists>n \<in> set l. MaxIndex l = window_end n)"
  using fold_max_mem [of "map window_end l" 0] by (auto simp: MaxIndex_fold)

lemma windows_ok_append:
  "windows_ok (l @ [n]) \<longleftrightarrow> windows_ok l \<and> 0 \<le> StartIndex n \<and> (\<forall>m \<in> set l. window_end m \<le> StartIndex n)"
  by (induction l) auto

lemma windows_ok_drop: "windows_ok l \<Longrightarrow> windows_ok (drop k l)"
  by (induction l arbitrary: k) (auto simp: drop_Cons' )

lemma windows_ok_at_MaxIndex:
  "windows_ok l \<Longrightarrow> StartIndex n = MaxIndex l \<Longrightarrow> windows_ok (l @ [n])"
  by (simp add: windows_ok_append MaxIndex_nonneg MaxIndex_upper)

lemma windows_ok_DeleteExpireElem: "windows_ok l \<Longrightarrow> windows_ok (DeleteExpireElem num l)"
  by (simp add: DeleteExpireElem_def windows_ok_drop)

section \<open>Properties\<close>

text \<open>An exchange entry that is old enough hands out its addresses one by one, from the
  current mint address up to its last one, and then leaves the pool.\<close>

theorem PopAddress_entry_run:
  assumes "sx_BlockNumber e < bn"
    and "unat (MaxNFTAddress e) = unat (CurrentMintAddress e) + k"
  shows "pops (Suc k) bn (e # es) = (es, map (\<lambda>i. CurrentMintAddress e + of_nat i) [0..<Suc k])"
  using assms by (rule pops_entry)

theorem PopAddress_entry_run_witness:
  "pops (Suc 256) 7 [\<lparr>Info = \<lparr>MetalUrl = [], ii_Royalty = 0, ii_Creator = []\<rparr>, NFTAddress = 0x8000,
      sx_MergeLevel = 1, CurrentMintAddress = 0x8000, sx_BlockNumber = 5\<rparr>]
   = ([], map (\<lambda>i. 0x8000 + of_nat i) [0..<Suc 256])"
  using PopAddress_entry_run [of "\<lparr>Info = \<lparr>MetalUrl = [], ii_Royalty = 0, ii_Creator = []\<rparr>, NFTAddress = 0x8000,
      sx_MergeLevel = 1, CurrentMintAddress = 0x8000, sx_BlockNumber = 5\<rparr>" 7 256 "[]"]
  by (simp add: MaxNFTAddress_eq del: pops.simps upt_Suc)

text \<open>The metadata window found for an official address is one of the pool that contains
  the index of the address, both ends included, and none is found only if no window does.\<close>

theorem GetInjectedInfo_spec:
  "case GetInjectedInfo l a of
     Some n \<Rightarrow> n \<in> set l \<and> StartIndex n \<le> uint a - maskB \<and> uint a - maskB \<le> window_end n
   | None \<Rightarrow> \<not> (\<exists>n \<in> set l. StartIndex n \<le> uint a - maskB \<and> uint a - maskB \<le> window_end n)"
proof (cases "GetInjectedInfo l a")
  case None
  then show ?thesis
    using GetInjectedInfo_loop_None [of "uint a - maskB" l] by (auto simp: GetInjectedInfo_def)
next
  case (Some n)
  then show ?thesis
    using GetInjectedInfo_loop_Some [of "uint a - maskB" l n] by (simp add: GetInjectedInfo_def)
qed

text \<open>The upper end of a window is included, so the first NFT of a window that follows
  another directly is given the metadata of the window before it.\<close>

theorem GetInjectedInfo_boundary:
  assumes "StartIndex n = window_end m" and "0 < Number m" and "uint a = maskB + StartIndex n"
  shows "GetInjectedInfo (m # n # ns) a = Some m"
  using assms by (simp add: GetInjectedInfo_def window_end_def word_less_def)

theorem GetInjectedInfo_boundary_witness:
  "GetInjectedInfo [\<lparr>Dir = ''a'', StartIndex = 0, Number = 16, io_Royalty = 0, io_Creator = []\<rparr>,
      \<lparr>Dir = ''b'', StartIndex = 16, Number = 16, io_Royalty = 0, io_Creator = []\<rparr>]
      0x8000000000000000000000000000000000000010
   = Some \<lparr>Dir = ''a'', StartIndex = 0, Number = 16, io_Royalty = 0, io_Creator = []\<rparr>"
  by (rule GetInjectedInfo_boundary) (simp_all add: window_end_def maskB_def)

text \<open>Expiry drops a prefix of the pool whose windows all end at or below the number,
  leaves a pool of consecutive windows consecutive, and keeps every window that is still to come.\<close>

theorem DeleteExpireElem_spec:
  "\<exists>k. DeleteExpireElem num l = drop k l \<and> list_all (\<lambda>n. window_end n + maskB \<le> num) (take k l)
     \<and> {n \<in> set l. window_end n + maskB > num} \<subseteq> set (DeleteExpireElem num l)
     \<and> (windows_ok l \<longrightarrow> windows_ok (DeleteExpireElem num l))"
proof (cases "expire_index num l")
  case None
  then show ?thesis by (intro exI [of _ 0]) (auto simp: DeleteExpireElem_def)
next
  case (Some k)
  note p = expire_index_props(1) [OF Some]
  have take: "list_all (\<lambda>n. window_end n + maskB \<le> num) (take k l)"
    using p by (auto simp: list_all_length)
  moreover have "set l = set (take k l) \<union> set (drop k l)" by (metis append_take_drop_id set_append)
  ultimately have "{n \<in> set l. window_end n + maskB > num} \<subseteq> set (drop k l)"
    by (auto simp: list_all_iff)
  with take show ?thesis
    using windows_ok_drop by (intro exI [of _ k]) (auto simp: DeleteExpireElem_def Some)
qed

theorem DeleteExpireElem_spec_witness:
  "windows_ok [\<lparr>Dir = [], StartIndex = 0, Number = 16, io_Royalty = 0, io_Creator = []\<rparr>]
   \<and> windows_ok (DeleteExpireElem 0 [\<lparr>Dir = [], StartIndex = 0, Number = 16, io_Royalty = 0, io_Creator = []\<rparr>])"
  using DeleteExpireElem_spec [of 0 "[\<lparr>Dir = [], StartIndex = 0, Number = 16, io_Royalty = 0, io_Creator = []\<rparr>]"]
  by auto

end
