(* ===== verification/StakePools.thy ===== *)
theory StakePools
  imports GoCommon "HOL-Library.Multiset"
begin

text \<open>
  core/types/stake_account.go, validator_account.go and active_miner_pool.go: the lists of
  stakers, validators and active miners, and the choice of the \<open>k\<close> validators by weighted
  distance to a random hash. \<open>sort.Sort\<close> is \<open>sort_key\<close>; Go's sort is not stable, which
  makes no difference on lists whose keys differ. A Go map is ranged over in an arbitrary
  order, the parameter \<open>order\<close> of the selection.

  The locale \<open>stake_pool\<close> is the contract of a list of deposits: sorted by address, one
  entry per address, an addition changes one entry by the amount. Under it deposits commute
  and totals add up; stakers and validators are instances.
\<close>

section \<open>Definitions\<close>

subsection \<open>Stakers\<close>

record Staker =
  st_Addr :: address
  st_Balance :: int

definition NewStaker :: "address \<Rightarrow> int \<Rightarrow> Staker" where
  "NewStaker addr balance = \<lparr>st_Addr = addr, st_Balance = balance\<rparr>"

definition StakerList_Sort :: "Staker list \<Rightarrow> Staker list" where
  "StakerList_Sort l = sort_key (\<lambda>s. Address_Big (st_Addr s)) l"

definition AddStaker :: "address \<Rightarrow> int \<Rightarrow> Staker list \<Rightarrow> Staker list" where
  "AddStaker addr balance sl =
     (case update_first (\<lambda>v. st_Addr v = addr) (\<lambda>v. v\<lparr>st_Balance := st_Balance v + balance\<rparr>) sl of
        Some sl' \<Rightarrow> StakerList_Sort sl'
      | None \<Rightarrow> StakerList_Sort (sl @ [NewStaker addr balance]))"

definition RemoveStaker :: "address \<Rightarrow> int \<Rightarrow> Staker list \<Rightarrow> Staker list \<times> bool" where
  "RemoveStaker addr balance sl =
     (case find_first (\<lambda>v. st_Addr v = addr) sl of
        None \<Rightarrow> (sl, False)
      | Some (i, v) \<Rightarrow>
          if st_Balance v > balance
          then (StakerList_Sort (sl[i := v\<lparr>st_Balance := st_Balance v - balance\<rparr>]), True)
          else (StakerList_Sort (take i sl @ drop (Suc i) sl), True))"

definition Staker_TotalStakeBalance :: "Staker list \<Rightarrow> int" where
  "Staker_TotalStakeBalance sl = foldl (\<lambda>total v. total + st_Balance v) 0 sl"

fun Staker_StakeBalance :: "keccak \<Rightarrow> Staker list \<Rightarrow> address \<Rightarrow> int" where
  "Staker_StakeBalance k [] a = 0"
| "Staker_StakeBalance k (st # sl) a =
     (if Address_String k (st_Addr st) \<noteq> Address_String k a then Staker_StakeBalance k sl a
      else st_Balance st)"

subsection \<open>Selection by distance and weight\<close>

definition maxValue :: int where
  "maxValue = Address_Big (HexToAddress (''0x'' @ replicate 40 (CHR ''f'')))"

text \<open>The weight of one candidate; the division panics when nothing is staked.\<close>

definition distance_weight :: "(address \<Rightarrow> int) \<Rightarrow> int \<Rightarrow> int \<Rightarrow> int \<Rightarrow> int panics" where
  "distance_weight stake tot x v =
     (let sub1 = \<bar>v - x\<bar>; sub2 = maxValue - sub1
      in if sub1 < sub2 then big_Div (sub1 * stake (BigToAddress v)) tot
         else big_Div (sub2 * stake (BigToAddress v)) tot)"

fun weight_list :: "(address \<Rightarrow> int) \<Rightarrow> int \<Rightarrow> int \<Rightarrow> int list \<Rightarrow> (int \<times> int) list panics" where
  "weight_list stake tot x [] = Some []"
| "weight_list stake tot x (v # vs) =
     do { w \<leftarrow> distance_weight stake tot x v;
          r \<leftarrow> weight_list stake tot x vs;
          Some ((v, w) # r) }"

definition rankByWordCount ::
  "((int \<times> int) list \<Rightarrow> (int \<times> int) list) \<Rightarrow> (int \<times> int) list \<Rightarrow> (int \<times> int) list" where
  "rankByWordCount order m = sort_key (\<lambda>p. - snd p) (order m)"

definition select_by_weight ::
  "((int \<times> int) list \<Rightarrow> (int \<times> int) list) \<Rightarrow> (address \<Rightarrow> int) \<Rightarrow> int \<Rightarrow>
   int list \<Rightarrow> int \<Rightarrow> hash \<Rightarrow> address list panics" where
  "select_by_weight order stake tot addr k randomHash =
     do { m \<leftarrow> weight_list stake tot (Address_Big (ucast randomHash)) addr;
          Some (map (\<lambda>p. BigToAddress (fst p)) (take (nat k) (rankByWordCount order m))) }"

definition Staker_ValidatorByDistanceAndWeight ::
  "((int \<times> int) list \<Rightarrow> (int \<times> int) list) \<Rightarrow> keccak \<Rightarrow> Staker list \<Rightarrow>
   int list \<Rightarrow> int \<Rightarrow> hash \<Rightarrow> address list panics" where
  "Staker_ValidatorByDistanceAndWeight order kc sl addr k randomHash =
     select_by_weight order (Staker_StakeBalance kc sl) (Staker_TotalStakeBalance sl) addr k randomHash"

definition HashToBigIntSilce :: "address list \<Rightarrow> int list" where
  "HashToBigIntSilce addrs = map Address_Big addrs"

definition SortAddr :: "address list \<Rightarrow> int list" where
  "SortAddr addrs = sort (map Address_Big addrs)"

subsection \<open>Validators\<close>

record Validator =
  v_Addr :: address
  v_Balance :: int

definition NewValidator :: "address \<Rightarrow> int \<Rightarrow> Validator" where
  "NewValidator addr balance = \<lparr>v_Addr = addr, v_Balance = balance\<rparr>"

text \<open>The list starts as a nil pointer and its field is appended to: a panic unless there is
  nothing to append, and then the result is nil (the inner \<open>None\<close>).\<close>

definition NewValidatorList :: "Validator list \<Rightarrow> Validator list option panics" where
  "NewValidatorList validators = (if validators = [] then Some None else None)"

definition ValidatorList_Sort :: "Validator list \<Rightarrow> Validator list" where
  "ValidatorList_Sort l = sort_key (\<lambda>v. Address_Big (v_Addr v)) l"

definition AddValidator :: "address \<Rightarrow> int \<Rightarrow> Validator list \<Rightarrow> Validator list" where
  "AddValidator addr balance sl =
     (case update_first (\<lambda>v. v_Addr v = addr) (\<lambda>v. v\<lparr>v_Balance := v_Balance v + balance\<rparr>) sl of
        Some sl' \<Rightarrow> ValidatorList_Sort sl'
      | None \<Rightarrow> ValidatorList_Sort (sl @ [NewValidator addr balance]))"

definition RemoveValidator :: "address \<Rightarrow> int \<Rightarrow> Validator list \<Rightarrow> Validator list \<times> bool" where
  "RemoveValidator addr balance sl =
     (case find_first (\<lambda>v. v_Addr v = addr) sl of
        None \<Rightarrow> (sl, False)
      | Some (i, v) \<Rightarrow>
          if v_Balance v > balance
          then (ValidatorList_Sort (sl[i := v\<lparr>v_Balance := v_Balance v - balance\<rparr>]), True)
          else (take i sl @ drop (Suc i) sl, True))"

definition Validator_TotalStakeBalance :: "Validator list \<Rightarrow> int" where
  "Validator_TotalStakeBalance sl = foldl (\<lambda>total v. total + v_Balance v) 0 sl"

fun Validator_StakeBalance :: "keccak \<Rightarrow> Validator list \<Rightarrow> address \<Rightarrow> int" where
  "Validator_StakeBalance k [] a = 0"
| "Validator_StakeBalance k (st # sl) a =
     (if Address_String k (v_Addr st) \<noteq> Address_String k a then Validator_StakeBalance k sl a
      else v_Balance st)"

definition Validator_ValidatorByDistanceAndWeight ::
  "((int \<times> int) list \<Rightarrow> (int \<times> int) list) \<Rightarrow> keccak \<Rightarrow> Validator list \<Rightarrow>
   int list \<Rightarrow> int \<Rightarrow> hash \<Rightarrow> address list panics" where
  "Validator_ValidatorByDistanceAndWeight order kc sl addr k randomHash =
     select_by_weight order (Validator_StakeBalance kc sl) (Validator_TotalStakeBalance sl) addr k randomHash"

definition Validator_ConvertToAddress :: "Validator list \<Rightarrow> address list" where
  "Validator_ConvertToAddress sl = map v_Addr sl"

definition Validator_ConvertToBigInt :: "Validator list \<Rightarrow> int list" where
  "Validator_ConvertToBigInt sl = map (\<lambda>v. Address_Big (v_Addr v)) sl"

fun Validator_Exist :: "Validator list \<Rightarrow> address \<Rightarrow> bool" where
  "Validator_Exist [] addr = False"
| "Validator_Exist (v # vs) addr = (if v_Addr v \<noteq> addr then Validator_Exist vs addr else True)"

subsection \<open>Active miners\<close>

record ActiveMiner =
  am_Address :: address
  am_Balance :: int
  am_Height :: u64

definition NewActiveMiner :: "address \<Rightarrow> int \<Rightarrow> u64 \<Rightarrow> ActiveMiner" where
  "NewActiveMiner addr balance height =
     \<lparr>am_Address = addr, am_Balance = balance, am_Height = height\<rparr>"

definition ActiveMinerList_Sort :: "ActiveMiner list \<Rightarrow> ActiveMiner list" where
  "ActiveMinerList_Sort l = sort_key (\<lambda>m. Address_Big (am_Address m)) l"

definition AddAndUpdateActiveAddr :: "address \<Rightarrow> int \<Rightarrow> u64 \<Rightarrow> ActiveMiner list \<Rightarrow> ActiveMiner list" where
  "AddAndUpdateActiveAddr addr balance height l =
     (case update_first (\<lambda>v. am_Address v = addr) (\<lambda>v. v\<lparr>am_Height := height\<rparr>) l of
        Some l' \<Rightarrow> ActiveMinerList_Sort l'
      | None \<Rightarrow> ActiveMinerList_Sort (l @ [NewActiveMiner addr balance height]))"

definition Miner_GetIndex :: "address \<Rightarrow> ActiveMiner list \<Rightarrow> nat option" where
  "Miner_GetIndex addr l = map_option fst (find_first (\<lambda>v. am_Address v = addr) l)"

datatype miner_error = RemoveActiveAddr_NotFound

definition RemoveActiveAddr :: "address \<Rightarrow> ActiveMiner list \<Rightarrow> miner_error + ActiveMiner list" where
  "RemoveActiveAddr addr l =
     (case Miner_GetIndex addr l of
        Some i \<Rightarrow> Inr (take i l @ drop (Suc i) l)
      | None \<Rightarrow> Inl RemoveActiveAddr_NotFound)"

definition Miner_ConvertToBigInt :: "ActiveMiner list \<Rightarrow> int list" where
  "Miner_ConvertToBigInt l = map (\<lambda>m. Address_Big (am_Address m)) l"

definition Miner_TotalStakeBalance :: "ActiveMiner list \<Rightarrow> int" where
  "Miner_TotalStakeBalance l = foldl (\<lambda>total v. total + am_Balance v) 0 l"

fun Miner_StakeBalance :: "keccak \<Rightarrow> ActiveMiner list \<Rightarrow> address \<Rightarrow> int" where
  "Miner_StakeBalance k [] a = 0"
| "Miner_StakeBalance k (v # l) a =
     (if Address_String k (am_Address v) \<noteq> Address_String k a then Miner_StakeBalance k l a
      else am_Balance v)"

definition Miner_ValidatorByDistanceAndWeight ::
  "((int \<times> int) list \<Rightarrow> (int \<times> int) list) \<Rightarrow> keccak \<Rightarrow> ActiveMiner list \<Rightarrow>
   int list \<Rightarrow> int \<Rightarrow> hash \<Rightarrow> address list panics" where
  "Miner_ValidatorByDistanceAndWeight order kc l addr k randomHash =
     select_by_weight order (Miner_StakeBalance kc l) (Miner_TotalStakeBalance l) addr k randomHash"

text \<open>What a list holds for an address, over any kind of entry.\<close>

definition stake_of :: "('e \<Rightarrow> address) \<Rightarrow> ('e \<Rightarrow> int) \<Rightarrow> 'e list \<Rightarrow> address \<Rightarrow> int" where
  "stake_of ad bal l a = sum_list (map bal (filter (\<lambda>e. ad e = a) l))"

section \<open>Deposit lists\<close>

lemma stake_of_mset: "mset l = mset m \<Longrightarrow> stake_of ad bal l = stake_of ad bal m"
  unfolding stake_of_def by (rule ext) (simp flip: sum_mset_sum_list)

lemma stake_of_notin: "a \<notin> ad ` set l \<Longrightarrow> stake_of ad bal l a = 0"
  unfolding stake_of_def by (induction l) auto

lemma stake_of_distinct: "distinct (map ad l) \<Longrightarrow> e \<in> set l \<Longrightarrow> stake_of ad bal l (ad e) = bal e"
proof (induction l)
  case (Cons x l)
  show ?case
  proof (cases "e = x")
    case True
    then have "ad e \<notin> ad ` set l" using Cons.prems(1) by simp
    then show ?thesis using True stake_of_notin [of "ad e" ad l bal] by (simp add: stake_of_def)
  next
    case False
    then have "ad x \<noteq> ad e" using Cons.prems by auto
    then show ?thesis using False Cons by (simp add: stake_of_def)
  qed
qed simp

locale stake_pool =
  fixes ad :: "'e \<Rightarrow> address" and bal :: "'e \<Rightarrow> int"
    and add :: "address \<Rightarrow> int \<Rightarrow> 'e list \<Rightarrow> 'e list"
  assumes entry_ext: "ad x = ad y \<Longrightarrow> bal x = bal y \<Longrightarrow> x = y"
    and add_sorted: "sorted (map (\<lambda>e. Address_Big (ad e)) (add a b l))"
    and add_addrs: "ad ` set (add a b l) = insert a (ad ` set l)"
    and add_distinct: "distinct (map ad l) \<Longrightarrow> distinct (map ad (add a b l))"
    and add_stake: "stake_of ad bal (add a b l) z = stake_of ad bal l z + (if z = a then b else 0)"
    and add_total: "sum_list (map bal (add a b l)) = sum_list (map bal l) + b"
begin

lemma pool_eqI:
  assumes "distinct (map ad l)" and "distinct (map ad m)"
    and "sorted (map (\<lambda>e. Address_Big (ad e)) l)" and "sorted (map (\<lambda>e. Address_Big (ad e)) m)"
    and "ad ` set l = ad ` set m" and "\<And>x. stake_of ad bal l x = stake_of ad bal m x"
  shows "l = m"
proof -
  have inj: "inj Address_Big" by (auto intro!: injI simp: Address_Big_def word_uint_eq_iff)
  have "map Address_Big (map ad l) = map Address_Big (map ad m)"
  proof (rule sorted_distinct_set_unique)
    show "sorted (map Address_Big (map ad l))" "sorted (map Address_Big (map ad m))"
      using assms(3,4) by (simp_all add: comp_def)
    show "distinct (map Address_Big (map ad l))" "distinct (map Address_Big (map ad m))"
      using assms(1,2) inj by (simp_all only: distinct_map [of Address_Big])
        (auto intro: inj_on_subset)
    show "set (map Address_Big (map ad l)) = set (map Address_Big (map ad m))"
      using assms(5) by (simp only: set_map)
  qed
  then have eq: "map ad l = map ad m" using inj by (simp only: inj_map_eq_map)
  show ?thesis
  proof (rule nth_equalityI)
    show len: "length l = length m" using eq by (metis length_map)
    fix i assume i: "i < length l"
    have "ad (l ! i) = ad (m ! i)" using eq i len by (metis nth_map)
    moreover have "bal (l ! i) = bal (m ! i)"
      using assms i len calculation stake_of_distinct [of ad l "l ! i" bal]
        stake_of_distinct [of ad m "m ! i" bal] by simp
    ultimately show "l ! i = m ! i" by (rule entry_ext)
  qed
qed

text \<open>The order of two deposits does not matter.\<close>

lemma add_commute:
  assumes "distinct (map ad l)"
  shows "add a b (add c d l) = add c d (add a b l)"
  using assms by (intro pool_eqI) (auto simp: add_distinct add_sorted add_addrs add_stake)

text \<open>A sequence of deposits: every address holds the sum of its own, the total the sum of all.\<close>

lemma deposits:
  "stake_of ad bal (fold (\<lambda>(a, b). add a b) ds l) x =
     stake_of ad bal l x + sum_list (map snd (filter (\<lambda>d. fst d = x) ds))"
  "sum_list (map bal (fold (\<lambda>(a, b). add a b) ds l)) = sum_list (map bal l) + sum_list (map snd ds)"
  by (induction ds arbitrary: l) (auto simp: add_stake add_total)

lemma deposits_wf:
  "distinct (map ad l) \<Longrightarrow> distinct (map ad (fold (\<lambda>(a, b). add a b) ds l))"
  by (induction ds arbitrary: l) (auto simp: add_distinct)

end

section \<open>Stakers and validators as deposit lists\<close>

lemma sort_key_deposits [simp]:
  "distinct (map ad (sort_key f m)) = distinct (map ad m)"
  "sum_list (map (bal :: _ \<Rightarrow> int) (sort_key f m)) = sum_list (map bal m)"
  "stake_of ad bal (sort_key f m) = stake_of ad bal m"
proof -
  have "mset (map g (sort_key f m)) = mset (map g m)" for g :: "'a \<Rightarrow> 'c" by simp
  then show "distinct (map ad (sort_key f m)) = distinct (map ad m)"
    by (metis mset_eq_imp_distinct_iff mset_map mset_sort)
  show "sum_list (map bal (sort_key f m)) = sum_list (map bal m)"
    by (metis mset_map mset_sort sum_mset_sum_list)
  show "stake_of ad bal (sort_key f m) = stake_of ad bal m"
    by (rule stake_of_mset) simp
qed

text \<open>A list kept by changing the first entry of the address or appending one, then sorting.\<close>

lemma stake_pool_sortI:
  fixes ad :: "'e \<Rightarrow> address" and bal :: "'e \<Rightarrow> int"
  assumes ext: "\<And>x y. ad x = ad y \<Longrightarrow> bal x = bal y \<Longrightarrow> x = y"
    and mk: "\<And>a b. ad (mk a b) = a" "\<And>a b. bal (mk a b) = b"
    and up: "\<And>v b. ad (up b v) = ad v" "\<And>v b. bal (up b v) = bal v + b"
    and add: "\<And>a b l. add a b l = sort_key (\<lambda>e. Address_Big (ad e))
        (case update_first (\<lambda>v. ad v = a) (up b) l of Some m \<Rightarrow> m | None \<Rightarrow> l @ [mk a b])"
  shows "stake_pool ad bal add"
proof
  fix a b l
  show "sorted (map (\<lambda>e. Address_Big (ad e)) (add a b l))" by (simp add: add)
  consider "update_first (\<lambda>v. ad v = a) (up b) l = None" "a \<notin> ad ` set l"
    | us x vs where "update_first (\<lambda>v. ad v = a) (up b) l = Some (us @ up b x # vs)"
      "l = us @ x # vs" "ad x = a"
    using update_first_Some [of "\<lambda>v. ad v = a" "up b" l] update_first_None [of "\<lambda>v. ad v = a" "up b" l]
    by (cases "update_first (\<lambda>v. ad v = a) (up b) l") auto
  note c = this
  show "ad ` set (add a b l) = insert a (ad ` set l)"
    by (cases rule: c) (auto simp: add mk up)
  show "distinct (map ad l) \<Longrightarrow> distinct (map ad (add a b l))"
    by (cases rule: c) (auto simp: add mk up)
  show "stake_of ad bal (add a b l) z = stake_of ad bal l z + (if z = a then b else 0)" for z
    by (cases rule: c) (simp_all add: add mk up, simp_all add: stake_of_def mk up)
  show "sum_list (map bal (add a b l)) = sum_list (map bal l) + b"
    by (cases rule: c) (simp_all add: add mk up)
qed (rule ext)

interpretation stakers: stake_pool st_Addr st_Balance AddStaker
  by (rule stake_pool_sortI [where mk = NewStaker and up = "\<lambda>b v. v\<lparr>st_Balance := st_Balance v + b\<rparr>"])
     (simp_all add: NewStaker_def AddStaker_def StakerList_Sort_def split: option.split)

interpretation validators: stake_pool v_Addr v_Balance AddValidator
  by (rule stake_pool_sortI [where mk = NewValidator and up = "\<lambda>b v. v\<lparr>v_Balance := v_Balance v + b\<rparr>"])
     (simp_all add: NewValidator_def AddValidator_def ValidatorList_Sort_def split: option.split)

text \<open>The amounts the Go code reads, as deposits.\<close>

lemma Address_String_inj: "Address_String k a = Address_String k b \<longleftrightarrow> a = b"
  by (metis HexToAddress_String)

lemma Staker_StakeBalance_distinct:
  "distinct (map st_Addr l) \<Longrightarrow> Staker_StakeBalance k l a = stake_of st_Addr st_Balance l a"
proof (induction l)
  case (Cons v l)
  then show ?case using stake_of_notin [of a st_Addr l st_Balance]
    by (auto simp: Address_String_inj stake_of_def)
qed (simp add: stake_of_def)

lemma Staker_Total: "Staker_TotalStakeBalance l = sum_list (map st_Balance l)"
proof -
  have "foldl (\<lambda>t v. t + st_Balance v) t l = t + sum_list (map st_Balance l)" for t
    by (induction l arbitrary: t) auto
  then show ?thesis by (simp add: Staker_TotalStakeBalance_def)
qed

lemma Validator_StakeBalance_distinct:
  "distinct (map v_Addr l) \<Longrightarrow> Validator_StakeBalance k l a = stake_of v_Addr v_Balance l a"
proof (induction l)
  case (Cons v l)
  then show ?case using stake_of_notin [of a v_Addr l v_Balance]
    by (auto simp: Address_String_inj stake_of_def)
qed (simp add: stake_of_def)

lemma Validator_Total: "Validator_TotalStakeBalance l = sum_list (map v_Balance l)"
proof -
  have "foldl (\<lambda>t v. t + v_Balance v) t l = t + sum_list (map v_Balance l)" for t
    by (induction l arbitrary: t) auto
  then show ?thesis by (simp add: Validator_TotalStakeBalance_def)
qed

section \<open>Withdrawals\<close>

lemma stake_of_simps [simp]:
  "stake_of ad bal [] z = 0"
  "stake_of ad bal (e # l) z = (if ad e = z then bal e else 0) + stake_of ad bal l z"
  "stake_of ad bal (l @ m) z = stake_of ad bal l z + stake_of ad bal m z"
  by (simp_all add: stake_of_def)

text \<open>The first entry of an address, as a split of the list.\<close>

lemma find_first_split:
  assumes "find_first P l = Some (i, x)"
  obtains us vs where "l = us @ x # vs" "take i l = us" "drop (Suc i) l = vs" "length us = i" "P x"
  using assms find_first_Some [OF assms] id_take_nth_drop [of i l] by (metis length_take min.absorb4)

text \<open>A withdrawal takes the amount off the first entry of the address, or the entry out of the list
  when the amount reaches its balance.\<close>

lemma withdraw_sort:
  assumes dist: "distinct (map ad l)" and up: "\<And>v. ad (up v) = ad v" "\<And>v. bal (up v) = bal v - (b :: int)"
    and r: "mset r = mset (case find_first (\<lambda>v. ad v = a) l of
        None \<Rightarrow> l
      | Some (i, v) \<Rightarrow> if bal v > b then l[i := up v] else take i l @ drop (Suc i) l)"
  shows "distinct (map ad r)"
    and "stake_of ad bal r x =
      (if x = a \<and> a \<in> ad ` set l then if stake_of ad bal l a > b then stake_of ad bal l a - b else 0
       else stake_of ad bal l x)"
proof -
  have eq: "distinct (map ad r) = distinct (map ad m)" "stake_of ad bal r = stake_of ad bal m" if "mset r = mset m" for m
    using that stake_of_mset by (metis mset_eq_imp_distinct_iff mset_map, blast)
  have "distinct (map ad r) \<and> stake_of ad bal r x =
      (if x = a \<and> a \<in> ad ` set l then if stake_of ad bal l a > b then stake_of ad bal l a - b else 0
       else stake_of ad bal l x)"
  proof (cases "find_first (\<lambda>v. ad v = a) l")
    case None
    then have "a \<notin> ad ` set l" by (auto simp: find_first_None)
    with None show ?thesis using eq [of l] by (simp add: r dist)
  next
    case (Some p)
    obtain i v where p: "p = (i, v)" by force
    obtain us vs where l: "l = us @ v # vs" "take i l = us" "drop (Suc i) l = vs" "length us = i" "ad v = a"
      using Some p by (auto elim: find_first_split)
    have out: "a \<notin> ad ` set us" "a \<notin> ad ` set vs" "distinct (map ad us)" "distinct (map ad vs)" "ad ` set us \<inter> ad ` set vs = {}"
      using dist l by auto
    have st: "stake_of ad bal l a = bal v" using stake_of_distinct [OF dist, of v] l by auto
    have upd: "l[i := w] = us @ w # vs" for w using l by (metis list_update_length)
    have del: "take i l @ drop (Suc i) l = us @ vs" using l by simp
    have zero: "stake_of ad bal us a = 0" "stake_of ad bal vs a = 0" using out by (simp_all add: stake_of_notin)
    have "mset r = mset (if bal v > b then us @ up v # vs else us @ vs)" using Some p by (simp add: r upd del)
    note eq = eq [OF this]
    moreover have "x \<noteq> a \<Longrightarrow> stake_of ad bal l x = stake_of ad bal (us @ vs) x" using l(1,5) by simp
    moreover have "a \<in> ad ` set l" using l by auto
    ultimately show ?thesis unfolding eq using out st zero l(5) up by auto
  qed
  then show "distinct (map ad r)" and "stake_of ad bal r x =
      (if x = a \<and> a \<in> ad ` set l then if stake_of ad bal l a > b then stake_of ad bal l a - b else 0
       else stake_of ad bal l x)" by simp_all
qed

lemma RemoveStaker_stake:
  assumes "distinct (map st_Addr l)"
  shows "distinct (map st_Addr (fst (RemoveStaker a b l)))" (is ?thesis1)
    and "stake_of st_Addr st_Balance (fst (RemoveStaker a b l)) x =
     (if x = a \<and> a \<in> st_Addr ` set l
      then if stake_of st_Addr st_Balance l a > b then stake_of st_Addr st_Balance l a - b else 0
      else stake_of st_Addr st_Balance l x)" (is ?thesis2)
proof -
  let ?up = "\<lambda>v. v\<lparr>st_Balance := st_Balance v - b\<rparr>"
  have up: "\<And>v. st_Addr (?up v) = st_Addr v" "\<And>v. st_Balance (?up v) = st_Balance v - b" by simp_all
  have "mset (fst (RemoveStaker a b l)) = mset (case find_first (\<lambda>v. st_Addr v = a) l of
      None \<Rightarrow> l
    | Some (i, v) \<Rightarrow> if st_Balance v > b then l[i := ?up v] else take i l @ drop (Suc i) l)"
    by (simp add: RemoveStaker_def StakerList_Sort_def split: option.split)
  from withdraw_sort [OF assms up this] show ?thesis1 and ?thesis2 .
qed

lemma RemoveValidator_stake:
  assumes "distinct (map v_Addr l)"
  shows "distinct (map v_Addr (fst (RemoveValidator a b l)))" (is ?thesis1)
    and "stake_of v_Addr v_Balance (fst (RemoveValidator a b l)) x =
     (if x = a \<and> a \<in> v_Addr ` set l
      then if stake_of v_Addr v_Balance l a > b then stake_of v_Addr v_Balance l a - b else 0
      else stake_of v_Addr v_Balance l x)" (is ?thesis2)
proof -
  let ?up = "\<lambda>v. v\<lparr>v_Balance := v_Balance v - b\<rparr>"
  have up: "\<And>v. v_Addr (?up v) = v_Addr v" "\<And>v. v_Balance (?up v) = v_Balance v - b" by simp_all
  have "mset (fst (RemoveValidator a b l)) = mset (case find_first (\<lambda>v. v_Addr v = a) l of
      None \<Rightarrow> l
    | Some (i, v) \<Rightarrow> if v_Balance v > b then l[i := ?up v] else take i l @ drop (Suc i) l)"
    by (simp add: RemoveValidator_def ValidatorList_Sort_def split: option.split)
  from withdraw_sort [OF assms up this] show ?thesis1 and ?thesis2 .
qed

text \<open>Deposits and withdrawals in the order they came: an address, an amount and whether it is a deposit.
  A withdrawal is covered when the address holds the amount at that point.\<close>

definition booked :: "(address \<Rightarrow> int) \<Rightarrow> (address \<times> int \<times> bool) list \<Rightarrow> address \<Rightarrow> int" where
  "booked st evs = fold (\<lambda>(a, v, dep) st. st(a := st a + (if dep then v else - v))) evs st"

fun covered :: "(address \<Rightarrow> int) \<Rightarrow> (address \<times> int \<times> bool) list \<Rightarrow> bool" where
  "covered st [] = True"
| "covered st ((a, v, dep) # evs) = ((dep \<or> (0 \<le> v \<and> v \<le> st a)) \<and> covered (st(a := st a + (if dep then v else - v))) evs)"

locale staking_pool = stake_pool +
  fixes remove :: "address \<Rightarrow> int \<Rightarrow> 'a list \<Rightarrow> 'a list"
  assumes remove_distinct: "distinct (map ad l) \<Longrightarrow> distinct (map ad (remove a b l))"
    and remove_stake: "distinct (map ad l) \<Longrightarrow> stake_of ad bal (remove a b l) x =
      (if x = a \<and> a \<in> ad ` set l then if stake_of ad bal l a > b then stake_of ad bal l a - b else 0
       else stake_of ad bal l x)"
begin

lemma remove_covered:
  assumes "distinct (map ad l)" and "0 \<le> b" and "b \<le> stake_of ad bal l a"
  shows "stake_of ad bal (remove a b l) = (stake_of ad bal l)(a := stake_of ad bal l a - b)"
  using assms stake_of_notin [of a ad l bal] by (auto simp: fun_eq_iff remove_stake)

text \<open>The list follows the bookings.\<close>

lemma bookings:
  assumes "distinct (map ad l)" and "covered (stake_of ad bal l) evs"
  shows "stake_of ad bal (fold (\<lambda>(a, v, dep). if dep then add a v else remove a v) evs l) = booked (stake_of ad bal l) evs
    \<and> distinct (map ad (fold (\<lambda>(a, v, dep). if dep then add a v else remove a v) evs l))"
  using assms
proof (induction evs arbitrary: l)
  case Nil
  then show ?case by (simp add: booked_def)
next
  case (Cons e evs)
  obtain a v dep where e: "e = (a, v, dep)" by (cases e) auto
  let ?l = "if dep then add a v l else remove a v l"
  have st: "stake_of ad bal ?l = (stake_of ad bal l)(a := stake_of ad bal l a + (if dep then v else - v))"
    using Cons.prems e by (auto simp: fun_eq_iff add_stake remove_covered)
  have d: "distinct (map ad ?l)" using Cons.prems by (simp add: add_distinct remove_distinct)
  have "covered (stake_of ad bal ?l) evs" using Cons.prems(2) e st by simp
  from Cons.IH [OF d this] show ?case using e st by (cases dep) (simp_all add: booked_def)
qed

end

interpretation stakings: staking_pool st_Addr st_Balance AddStaker "\<lambda>a b l. fst (RemoveStaker a b l)"
  by unfold_locales (simp_all add: RemoveStaker_stake)

interpretation pledges: staking_pool v_Addr v_Balance AddValidator "\<lambda>a b l. fst (RemoveValidator a b l)"
  by unfold_locales (simp_all add: RemoveValidator_stake)

section \<open>Selection\<close>

lemma big_Div_Some: "y \<noteq> 0 \<Longrightarrow> \<exists>z. big_Div x y = Some z"
  by (simp add: big_Div_def)

lemma weight_list_Some:
  "tot \<noteq> 0 \<Longrightarrow> \<exists>m. weight_list stake tot x vs = Some m \<and> map fst m = vs"
proof (induction vs)
  case (Cons v vs)
  then obtain m where "weight_list stake tot x vs = Some m" "map fst m = vs" by auto
  moreover obtain w where "distance_weight stake tot x v = Some w"
    using big_Div_Some [OF Cons.prems] unfolding distance_weight_def Let_def by metis
  ultimately show ?case by simp
qed simp

lemma weight_list_zero: "weight_list stake 0 x (v # vs) = None"
  by (simp add: distance_weight_def Let_def big_Div_def)

lemma rank_props:
  assumes "mset (order m) = mset m"
  shows "mset (rankByWordCount order m) = mset m"
    and "sorted_wrt (\<lambda>p q. snd q \<le> snd p) (rankByWordCount order m)"
proof -
  show "mset (rankByWordCount order m) = mset m" using assms by (simp add: rankByWordCount_def)
  have "sorted (map (\<lambda>p. - snd p) (rankByWordCount order m))" by (simp add: rankByWordCount_def)
  then show "sorted_wrt (\<lambda>p q. snd q \<le> snd p) (rankByWordCount order m)"
    by (simp add: sorted_wrt_map)
qed

text \<open>With distinct weights the order in which the map is ranged over does not matter.\<close>

lemma rank_distinct:
  assumes "mset (order m) = mset m" and "mset (order' m) = mset m" and "distinct (map snd m)"
  shows "rankByWordCount order m = rankByWordCount order' m"
  unfolding rankByWordCount_def
proof (rule sort_key_inj_key_eq)
  show "mset (order m) = mset (sort_key (\<lambda>p. - snd p) (order' m))" using assms by simp
  have "set (order m) = set m" using assms(1) by (rule mset_eq_setD)
  then show "inj_on (\<lambda>p. - snd p) (set (order m))"
    using assms(3) by (auto simp: distinct_map inj_on_def)
qed simp

lemma sorted_wrt_take_drop:
  "sorted_wrt R xs \<Longrightarrow> x \<in> set (take k xs) \<Longrightarrow> y \<in> set (drop k xs) \<Longrightarrow> R x y"
  using append_take_drop_id [of k xs] sorted_wrt_append [of R "take k xs" "drop k xs"] by auto

lemma select_by_weight_top:
  assumes "\<And>m. mset (order m) = mset m" and "tot \<noteq> 0"
  shows "\<exists>m chosen rest.
     weight_list stake tot (Address_Big (ucast h)) addr = Some m
     \<and> select_by_weight order stake tot addr k h = Some (map (\<lambda>p. BigToAddress (fst p)) chosen)
     \<and> mset chosen + mset rest = mset m
     \<and> length chosen = min (nat k) (length addr)
     \<and> (\<forall>c \<in> set chosen. \<forall>r \<in> set rest. snd r \<le> snd c)"
proof -
  obtain m where m: "weight_list stake tot (Address_Big (ucast h)) addr = Some m" "map fst m = addr"
    using weight_list_Some [OF assms(2)] by blast
  let ?r = "rankByWordCount order m"
  note r = rank_props [of order m, OF assms(1)]
  have "length ?r = length addr"
    using arg_cong [OF r(1), of size] m(2) by (simp flip: length_map [of fst m])
  moreover have "mset (take (nat k) ?r) + mset (drop (nat k) ?r) = mset m"
    using r(1) by (simp flip: mset_append)
  moreover have "\<forall>c \<in> set (take (nat k) ?r). \<forall>d \<in> set (drop (nat k) ?r). snd d \<le> snd c"
    using r(2) sorted_wrt_take_drop by fastforce
  ultimately show ?thesis
    by (intro exI [of _ m] exI [of _ "take (nat k) ?r"] exI [of _ "drop (nat k) ?r"])
       (auto simp: select_by_weight_def m(1))
qed

lemma hexval_ones: "hexval (replicate n (CHR ''f'')) + 1 = 16 ^ n"
proof (induction n)
  case (Suc n)
  have "hexval (replicate (Suc n) (CHR ''f'')) = hexval (replicate n (CHR ''f'')) * 16 + 15"
    unfolding replicate_Suc replicate_append_same [symmetric] hexval_append
    by (simp add: hexval_def fromHexChar_def)
  then show ?case using Suc by simp
qed (simp add: hexval_def)

lemma maxValue_eq: "maxValue = 2 ^ 160 - 1"
proof -
  have "list_all isHexCharacter (replicate 40 (CHR ''f''))"
    by (simp add: list_all_iff) (simp add: isHexCharacter_def)
  then have "HexToAddress (''0x'' @ replicate 40 (CHR ''f'')) = of_nat (2 ^ 160 - 1)"
    using hexval_ones [of 40] by (subst HexToAddress_value) simp_all
  then show ?thesis unfolding maxValue_def Address_Big_def by simp
qed

section \<open>Properties\<close>

text \<open>Deposits into the staker list commute, and after any sequence of deposits every
  address holds its own sum and the total is the sum of all, on a list with one entry per
  address, which deposits keep.\<close>

theorem AddStaker_deposits:
  assumes "distinct (map st_Addr l)"
  shows "AddStaker a b (AddStaker c d l) = AddStaker c d (AddStaker a b l)
     \<and> Staker_StakeBalance k (fold (\<lambda>(a, b). AddStaker a b) ds l) x =
         Staker_StakeBalance k l x + sum_list (map snd (filter (\<lambda>d. fst d = x) ds))
     \<and> Staker_TotalStakeBalance (fold (\<lambda>(a, b). AddStaker a b) ds l) =
         Staker_TotalStakeBalance l + sum_list (map snd ds)
     \<and> distinct (map st_Addr (fold (\<lambda>(a, b). AddStaker a b) ds l))"
proof -
  note wf = stakers.deposits_wf [OF assms, of ds]
  show ?thesis
    using stakers.add_commute [OF assms] stakers.deposits [where l = l and ds = ds] wf
    by (simp add: Staker_StakeBalance_distinct [OF wf] Staker_StakeBalance_distinct [OF assms] Staker_Total)
qed

theorem AddStaker_deposits_witness:
  "distinct (map st_Addr [NewStaker 1 5])
   \<and> AddStaker 1 2 (AddStaker 3 4 [NewStaker 1 5]) = AddStaker 3 4 (AddStaker 1 2 [NewStaker 1 5])
   \<and> Staker_TotalStakeBalance (fold (\<lambda>(a, b). AddStaker a b) [(1, 2), (3, 4)] [NewStaker 1 5]) = 11"
  using AddStaker_deposits [of "[NewStaker 1 5]" 1 2 3 4 undefined "[(1, 2), (3, 4)]" 1]
  by (simp add: Staker_TotalStakeBalance_def NewStaker_def)

text \<open>The same of the validator list.\<close>

theorem AddValidator_deposits:
  assumes "distinct (map v_Addr l)"
  shows "AddValidator a b (AddValidator c d l) = AddValidator c d (AddValidator a b l)
     \<and> Validator_StakeBalance k (fold (\<lambda>(a, b). AddValidator a b) ds l) x =
         Validator_StakeBalance k l x + sum_list (map snd (filter (\<lambda>d. fst d = x) ds))
     \<and> Validator_TotalStakeBalance (fold (\<lambda>(a, b). AddValidator a b) ds l) =
         Validator_TotalStakeBalance l + sum_list (map snd ds)"
proof -
  note wf = validators.deposits_wf [OF assms, of ds]
  show ?thesis
    using validators.add_commute [OF assms] validators.deposits [where l = l and ds = ds] wf
    by (simp add: Validator_StakeBalance_distinct [OF wf] Validator_StakeBalance_distinct [OF assms] Validator_Total)
qed

theorem AddValidator_deposits_witness:
  "distinct (map v_Addr [NewValidator 1 5])
   \<and> AddValidator 1 2 (AddValidator 3 4 [NewValidator 1 5]) = AddValidator 3 4 (AddValidator 1 2 [NewValidator 1 5])"
  using AddValidator_deposits [of "[NewValidator 1 5]" 1 2 3 4 undefined "[]" 1]
  by (simp add: NewValidator_def)

text \<open>A withdrawal from the staker list takes the amount off the entry of the address, or
  removes the entry when the amount reaches its balance, and leaves the other entries alone.\<close>

theorem RemoveStaker_spec:
  assumes "distinct (map st_Addr l)"
  shows "Staker_StakeBalance k (fst (RemoveStaker a b l)) x =
     (if x = a \<and> a \<in> st_Addr ` set l
      then if Staker_StakeBalance k l a > b then Staker_StakeBalance k l a - b else 0
      else Staker_StakeBalance k l x)
     \<and> snd (RemoveStaker a b l) = (a \<in> st_Addr ` set l)"
proof -
  note d = RemoveStaker_stake(1) [OF assms, of a b]
  have "snd (RemoveStaker a b l) = (a \<in> st_Addr ` set l)"
    using find_first_None [of "\<lambda>v. st_Addr v = a" l]
    by (cases "find_first (\<lambda>v. st_Addr v = a) l") (auto simp: RemoveStaker_def dest: find_first_Some)
  then show ?thesis
    using RemoveStaker_stake(2) [OF assms, of a b x]
    by (simp add: Staker_StakeBalance_distinct [OF d] Staker_StakeBalance_distinct [OF assms])
qed

theorem RemoveStaker_spec_witness:
  "distinct (map st_Addr [NewStaker 1 5, NewStaker 2 7])
   \<and> Staker_StakeBalance (\<lambda>_. 0) (fst (RemoveStaker 2 3 [NewStaker 1 5, NewStaker 2 7])) 2 = 4
   \<and> Staker_StakeBalance (\<lambda>_. 0) (fst (RemoveStaker 2 7 [NewStaker 1 5, NewStaker 2 7])) 2 = 0"
  using RemoveStaker_spec [of "[NewStaker 1 5, NewStaker 2 7]" "\<lambda>_. 0" 2 3 2]
    RemoveStaker_spec [of "[NewStaker 1 5, NewStaker 2 7]" "\<lambda>_. 0" 2 7 2]
  by (simp add: NewStaker_def Address_String_inj)

text \<open>With stake in the list the selection returns, whatever the order in which the weight
  map is ranged over, at most \<open>k\<close> of the candidates, and none left out weighs more than one taken.\<close>

theorem ValidatorByDistanceAndWeight_top:
  assumes "\<And>m. mset (order m) = mset m" and "Validator_TotalStakeBalance l \<noteq> 0"
  shows "\<exists>m chosen rest.
     weight_list (Validator_StakeBalance kc l) (Validator_TotalStakeBalance l) (Address_Big (ucast h)) addr = Some m
     \<and> Validator_ValidatorByDistanceAndWeight order kc l addr k h = Some (map (\<lambda>p. BigToAddress (fst p)) chosen)
     \<and> mset chosen + mset rest = mset m
     \<and> length chosen = min (nat k) (length addr)
     \<and> (\<forall>c \<in> set chosen. \<forall>r \<in> set rest. snd r \<le> snd c)"
  unfolding Validator_ValidatorByDistanceAndWeight_def by (rule select_by_weight_top [OF assms])

theorem ValidatorByDistanceAndWeight_top_witness:
  "\<exists>chosen :: (int \<times> int) list. Validator_ValidatorByDistanceAndWeight rev (\<lambda>_. 0) [NewValidator 1 5, NewValidator 2 7] [1, 2] 1 9
     = Some (map (\<lambda>p. BigToAddress (fst p)) chosen) \<and> length chosen = (1::nat)"
proof -
  have t: "Validator_TotalStakeBalance [NewValidator 1 5, NewValidator 2 7] \<noteq> 0"
    by (simp add: Validator_TotalStakeBalance_def NewValidator_def)
  obtain chosen :: "(int \<times> int) list" where "Validator_ValidatorByDistanceAndWeight rev (\<lambda>_. 0) [NewValidator 1 5, NewValidator 2 7] [1, 2] 1 9
      = Some (map (\<lambda>p. BigToAddress (fst p)) chosen)" "length chosen = min (nat 1) (length [1::int, 2])"
    using ValidatorByDistanceAndWeight_top [OF mset_rev t, of "\<lambda>_. 0" 9 "[1, 2]" 1] by blast
  then show ?thesis by auto
qed

text \<open>Two candidates of equal weight: which one is selected depends on the order in which
  the weight map is ranged over, an order Go leaves open, so nodes can differ.\<close>

theorem ValidatorByDistanceAndWeight_ties:
  assumes "tot \<noteq> 0" and "distance_weight (Miner_StakeBalance kc l) tot (Address_Big (ucast h)) u = Some w"
    and "distance_weight (Miner_StakeBalance kc l) tot (Address_Big (ucast h)) v = Some w"
    and "tot = Miner_TotalStakeBalance l"
  shows "Miner_ValidatorByDistanceAndWeight id kc l [u, v] 1 h = Some [BigToAddress u]
     \<and> Miner_ValidatorByDistanceAndWeight rev kc l [u, v] 1 h = Some [BigToAddress v]"
  using assms by (simp add: Miner_ValidatorByDistanceAndWeight_def select_by_weight_def rankByWordCount_def)

theorem ValidatorByDistanceAndWeight_ties_witness:
  "Miner_ValidatorByDistanceAndWeight id (\<lambda>_. 0) [NewActiveMiner 1 5 0] [2, 3] 1 0 = Some [2]
   \<and> Miner_ValidatorByDistanceAndWeight rev (\<lambda>_. 0) [NewActiveMiner 1 5 0] [2, 3] 1 0 = Some [3]"
proof -
  have b: "BigToAddress 2 = 2" "BigToAddress 3 = 3"
    using BigToAddress_nat [of 2] BigToAddress_nat [of 3] by simp_all
  have "distance_weight (Miner_StakeBalance (\<lambda>_. 0) [NewActiveMiner 1 5 0]) 5 0 2 = Some 0"
    "distance_weight (Miner_StakeBalance (\<lambda>_. 0) [NewActiveMiner 1 5 0]) 5 0 3 = Some 0"
    by (simp_all add: distance_weight_def Let_def b NewActiveMiner_def Address_String_inj maxValue_eq big_Div_def)
  then show ?thesis
    using ValidatorByDistanceAndWeight_ties [of 5 "\<lambda>_. 0" "[NewActiveMiner 1 5 0]" 0 2 0 3] b
    by (simp add: Miner_TotalStakeBalance_def NewActiveMiner_def Address_Big_def)
qed

end
