(* ===== verification/AccessList.thy ===== *)
theory AccessList
  imports Prelude
begin

text \<open>
  core/state/access_list.go: the per-transaction access list of EIP-2929, a map from
  addresses to an index into a list of slot sets, -1 for an address without slots.
  \<open>al_ok\<close> is its well-formedness: indices are in range, not shared and point to non-empty
  sets. Additions keep it, refine set insertion, and are undone exactly by the deletions the
  journal makes in reverse order.
\<close>

section \<open>Definitions\<close>

record accessList =
  addresses :: "address \<rightharpoonup> int"
  slots :: "hash set list"

definition ContainsAddress :: "accessList \<Rightarrow> address \<Rightarrow> bool" where
  "ContainsAddress al a = (addresses al a \<noteq> None)"

text \<open>Indexing a slice panics out of range.\<close>

definition slot_at :: "hash set list \<Rightarrow> int \<Rightarrow> hash set panics" where
  "slot_at ss idx = (if 0 \<le> idx \<and> idx < int (length ss) then Some (ss ! nat idx) else None)"

definition Contains :: "accessList \<Rightarrow> address \<Rightarrow> hash \<Rightarrow> (bool \<times> bool) panics" where
  "Contains al a slot =
     (case addresses al a of
        None \<Rightarrow> Some (False, False)
      | Some idx \<Rightarrow>
          if idx = -1 then Some (True, False)
          else do { m \<leftarrow> slot_at (slots al) idx; Some (True, slot \<in> m) })"

definition newAccessList :: accessList where
  "newAccessList = \<lparr>addresses = Map.empty, slots = []\<rparr>"

definition AddAddress :: "accessList \<Rightarrow> address \<Rightarrow> accessList \<times> bool" where
  "AddAddress al a =
     (case addresses al a of
        Some _ \<Rightarrow> (al, False)
      | None \<Rightarrow> (al\<lparr>addresses := (addresses al)(a \<mapsto> -1)\<rparr>, True))"

definition AddSlot :: "accessList \<Rightarrow> address \<Rightarrow> hash \<Rightarrow> (accessList \<times> bool \<times> bool) panics" where
  "AddSlot al a slot =
     (let idx = addresses al a; addrPresent = (idx \<noteq> None)
      in if \<not> addrPresent \<or> idx = Some (-1)
         then Some (\<lparr>addresses = (addresses al)(a \<mapsto> int (length (slots al))),
                     slots = slots al @ [{slot}]\<rparr>, \<not> addrPresent, True)
         else do {
           slotmap \<leftarrow> slot_at (slots al) (the idx);
           Some (if slot \<notin> slotmap
                 then (al\<lparr>slots := (slots al)[nat (the idx) := insert slot slotmap]\<rparr>, False, True)
                 else (al, False, False)) })"

definition DeleteSlot :: "accessList \<Rightarrow> address \<Rightarrow> hash \<Rightarrow> accessList panics" where
  "DeleteSlot al a slot =
     (case addresses al a of
        None \<Rightarrow> None
      | Some idx \<Rightarrow> do {
          slotmap \<leftarrow> slot_at (slots al) idx;
          let slotmap' = slotmap - {slot};
          Some (if slotmap' = {}
                then \<lparr>addresses = (addresses al)(a \<mapsto> -1), slots = take (nat idx) (slots al)\<rparr>
                else al\<lparr>slots := (slots al)[nat idx := slotmap']\<rparr>) })"

definition DeleteAddress :: "accessList \<Rightarrow> address \<Rightarrow> accessList" where
  "DeleteAddress al a = al\<lparr>addresses := (addresses al)(a := None)\<rparr>"

text \<open>Well-formedness, and the sets the list stands for.\<close>

definition al_ok :: "accessList \<Rightarrow> bool" where
  "al_ok al \<longleftrightarrow>
     (\<forall>a i. addresses al a = Some i \<longrightarrow>
        i = -1 \<or> (0 \<le> i \<and> i < int (length (slots al)) \<and> slots al ! nat i \<noteq> {})) \<and>
     (\<forall>a b i. addresses al a = Some i \<and> addresses al b = Some i \<and> i \<noteq> -1 \<longrightarrow> a = b)"

definition al_slots :: "accessList \<Rightarrow> (address \<times> hash) set" where
  "al_slots al = {(a, s). \<exists>i. addresses al a = Some i \<and> 0 \<le> i \<and> s \<in> slots al ! nat i}"

section \<open>Lemmas\<close>

lemma al_ok_new [simp]: "al_ok newAccessList"
  by (simp add: al_ok_def newAccessList_def)

lemma al_okD:
  assumes "al_ok al" and "addresses al a = Some i" and "i \<noteq> -1"
  shows "0 \<le> i" and "i < int (length (slots al))" and "slots al ! nat i \<noteq> {}"
  using assms unfolding al_ok_def by blast+

lemma al_ok_inj:
  "al_ok al \<Longrightarrow> addresses al a = Some i \<Longrightarrow> addresses al b = Some i \<Longrightarrow> i \<noteq> -1 \<Longrightarrow> a = b"
  unfolding al_ok_def by blast

lemma al_ok_AddAddress: "al_ok al \<Longrightarrow> al_ok (fst (AddAddress al a))"
  unfolding al_ok_def by (auto simp: AddAddress_def split: option.splits)

lemma al_ok_AddSlot:
  assumes "al_ok al" and "AddSlot al a s = Some (al', ac, sc)"
  shows "al_ok al'"
proof (cases "addresses al a = None \<or> addresses al a = Some (-1)")
  case True
  then have al': "al' = \<lparr>addresses = (addresses al)(a \<mapsto> int (length (slots al))), slots = slots al @ [{s}]\<rparr>"
    using assms(2) by (auto simp: AddSlot_def Let_def)
  have ne: "addresses al b \<noteq> Some (int (length (slots al)))" for b
    using al_okD(2) [OF assms(1), of b "int (length (slots al))"] by auto
  have lt: "addresses al b = Some i \<Longrightarrow> i \<noteq> -1 \<Longrightarrow> i < 1 + int (length (slots al))" for b i
    using al_okD(2) [OF assms(1), of b i] by simp
  show ?thesis
    using al_okD [OF assms(1)] al_ok_inj [OF assms(1)] ne lt
    unfolding al_ok_def al' by (auto simp: nth_append nat_less_iff split: if_splits)
next
  case False
  then obtain i where i: "addresses al a = Some i" "i \<noteq> -1" by auto
  note ok = al_okD [OF assms(1) i]
  have al': "al' = al \<or> al' = al\<lparr>slots := (slots al)[nat i := insert s (slots al ! nat i)]\<rparr>"
    using assms(2) i ok by (auto simp: AddSlot_def Let_def slot_at_def split: if_splits)
  then show ?thesis
  proof
    assume al': "al' = al\<lparr>slots := (slots al)[nat i := insert s (slots al ! nat i)]\<rparr>"
    have "slots al' ! nat j \<noteq> {}" if "addresses al b = Some j" "j \<noteq> -1" for b j
      using al_okD [OF assms(1) that] by (cases "nat i = nat j") (auto simp: al' nat_less_iff)
    then show ?thesis
      using al_okD [OF assms(1)] al_ok_inj [OF assms(1)] unfolding al_ok_def al' by auto
  qed (simp add: assms(1))
qed

text \<open>The list never panics while well formed, and it stands for the two sets.\<close>

lemma Contains_ok:
  assumes "al_ok al"
  shows "Contains al a s = Some (ContainsAddress al a, (a, s) \<in> al_slots al)"
proof (cases "addresses al a")
  case (Some i)
  then show ?thesis
    using al_okD [OF assms Some]
    by (auto simp: Contains_def ContainsAddress_def al_slots_def slot_at_def)
qed (simp add: Contains_def ContainsAddress_def al_slots_def)

lemma AddSlot_total:
  assumes "al_ok al"
  obtains al' where "AddSlot al a s = Some (al', \<not> ContainsAddress al a, (a, s) \<notin> al_slots al)"
proof (cases "addresses al a = None \<or> addresses al a = Some (-1)")
  case True
  then show thesis
    using that by (auto simp: AddSlot_def ContainsAddress_def al_slots_def)
next
  case False
  then obtain i where i: "addresses al a = Some i" "i \<noteq> -1" by auto
  have "\<exists>al'. AddSlot al a s = Some (al', \<not> ContainsAddress al a, (a, s) \<notin> al_slots al)"
    using al_okD [OF assms i] i by (simp add: AddSlot_def ContainsAddress_def al_slots_def slot_at_def)
  then show thesis using that by blast
qed

lemma AddSlot_sets:
  assumes "al_ok al" and "AddSlot al a s = Some (al', ac, sc)"
  shows "al_slots al' = insert (a, s) (al_slots al)"
    and "dom (addresses al') = insert a (dom (addresses al))"
proof -
  show "al_slots al' = insert (a, s) (al_slots al)"
  proof (cases "addresses al a = None \<or> addresses al a = Some (-1)")
    case True
    then have al': "al' = \<lparr>addresses = (addresses al)(a \<mapsto> int (length (slots al))), slots = slots al @ [{s}]\<rparr>"
      using assms(2) by (auto simp: AddSlot_def Let_def)
    have "b \<noteq> a \<Longrightarrow> (b, t) \<in> al_slots al' \<longleftrightarrow> (b, t) \<in> al_slots al" for b t
      using al_okD(2) [OF assms(1), of b]
      unfolding al' al_slots_def by (auto simp: nth_append nat_less_iff)
    moreover have "(a, t) \<in> al_slots al' \<longleftrightarrow> t = s" "(a, t) \<notin> al_slots al" for t
      using True unfolding al' al_slots_def by auto
    ultimately show ?thesis by fast
  next
    case False
    then obtain i where i: "addresses al a = Some i" "i \<noteq> -1" by auto
    note ok = al_okD [OF assms(1) i]
    have al': "al' = al\<lparr>slots := (slots al)[nat i := insert s (slots al ! nat i)]\<rparr>"
      using assms(2) i ok
      by (auto simp: AddSlot_def Let_def slot_at_def insert_absorb split: if_splits)
    have "b \<noteq> a \<Longrightarrow> (b, t) \<in> al_slots al' \<longleftrightarrow> (b, t) \<in> al_slots al" for b t
      using al_ok_inj [OF assms(1) i(1) _ i(2), of b] ok
      unfolding al' al_slots_def by (auto simp: nth_list_update eq_nat_nat_iff split: if_splits)
    moreover have "(a, t) \<in> al_slots al' \<longleftrightarrow> t = s \<or> (a, t) \<in> al_slots al" for t
      using i ok unfolding al' al_slots_def by (auto simp: nth_list_update nat_less_iff)
    ultimately show ?thesis by fast
  qed
  show "dom (addresses al') = insert a (dom (addresses al))"
    using assms(2) by (auto simp: AddSlot_def Let_def bind_Some_iff split: if_splits)
qed

section \<open>Deletions undo additions\<close>

lemma DeleteAddress_AddAddress:
  "AddAddress al a = (al', True) \<Longrightarrow> DeleteAddress al' a = al"
  by (auto simp: AddAddress_def DeleteAddress_def fun_upd_idem split: option.splits)

lemma AddAddress_False: "AddAddress al a = (al', False) \<Longrightarrow> al' = al"
  by (auto simp: AddAddress_def split: option.splits)

lemma AddSlot_False:
  "al_ok al \<Longrightarrow> AddSlot al a s = Some (al', ac, False) \<Longrightarrow> al' = al \<and> \<not> ac"
  by (auto simp: AddSlot_def Let_def bind_Some_iff split: if_splits)

lemma DeleteSlot_AddSlot:
  assumes "al_ok al" and "AddSlot al a s = Some (al', ac, True)"
  shows "\<exists>al1. DeleteSlot al' a s = Some al1 \<and> (if ac then DeleteAddress al1 a else al1) = al"
proof (cases "addresses al a = None \<or> addresses al a = Some (-1)")
  case True
  then have al': "al' = \<lparr>addresses = (addresses al)(a \<mapsto> int (length (slots al))), slots = slots al @ [{s}]\<rparr>"
    and ac: "ac = (addresses al a = None)"
    using assms(2) by (auto simp: AddSlot_def Let_def)
  have "DeleteSlot al' a s = Some (al\<lparr>addresses := (addresses al)(a \<mapsto> -1)\<rparr>)"
    by (simp add: DeleteSlot_def al' slot_at_def)
  then show ?thesis using True by (auto simp: ac DeleteAddress_def fun_upd_idem)
next
  case False
  then obtain i where i: "addresses al a = Some i" "i \<noteq> -1" by auto
  note ok = al_okD [OF assms(1) i]
  let ?m = "slots al ! nat i"
  have al': "al' = al\<lparr>slots := (slots al)[nat i := insert s ?m]\<rparr>" and "\<not> ac" and s: "s \<notin> ?m"
    using assms(2) i ok by (auto simp: AddSlot_def Let_def slot_at_def split: if_splits)
  have "slot_at (slots al') i = Some (insert s ?m)" using ok by (simp add: slot_at_def al' nat_less_iff)
  moreover have "insert s ?m - {s} = ?m" using s by auto
  moreover have "\<not> ?m \<subseteq> {s}" using s ok(3) by auto
  ultimately have "DeleteSlot al' a s = Some al"
    using ok i by (simp add: DeleteSlot_def al')
  then show ?thesis using \<open>\<not> ac\<close> by simp
qed

section \<open>Properties\<close>

text \<open>On a well-formed access list adding a slot never panics, keeps it well formed,
  reports whether address and slot are new, and has the effect of inserting the address and
  the pair of address and slot into the sets that \<open>Contains\<close> reads.\<close>

theorem AddSlot_refines_insert:
  assumes "al_ok al"
  shows "\<exists>al'. AddSlot al a s = Some (al', \<not> ContainsAddress al a, (a, s) \<notin> al_slots al)
     \<and> al_ok al'
     \<and> (\<forall>b t. Contains al' b t =
          Some (b = a \<or> ContainsAddress al b, (b, t) = (a, s) \<or> (b, t) \<in> al_slots al))"
proof -
  obtain al' where al': "AddSlot al a s = Some (al', \<not> ContainsAddress al a, (a, s) \<notin> al_slots al)"
    using AddSlot_total [OF assms] .
  have "ContainsAddress al' b = (b = a \<or> ContainsAddress al b)" for b
    using AddSlot_sets(2) [OF assms al'] by (auto simp: ContainsAddress_def dom_def)
  then have "Contains al' b t = Some (b = a \<or> ContainsAddress al b, (b, t) = (a, s) \<or> (b, t) \<in> al_slots al)" for b t
    using Contains_ok [OF al_ok_AddSlot [OF assms al']] AddSlot_sets(1) [OF assms al'] by simp
  then show ?thesis using al' al_ok_AddSlot [OF assms al'] by blast
qed

theorem AddSlot_refines_insert_witness:
  "\<exists>al'. AddSlot newAccessList 1 2 = Some (al', True, True) \<and> Contains al' 1 2 = Some (True, True)"
  using AddSlot_refines_insert [OF al_ok_new, of 1 2]
  by (auto simp: ContainsAddress_def newAccessList_def al_slots_def)

text \<open>The deletions the journal makes, in reverse order, undo an addition of a slot exactly,
  index and slot sets included.\<close>

theorem DeleteSlot_undoes_AddSlot:
  assumes "al_ok al" and "AddSlot al a s = Some (al', ac, True)"
  shows "\<exists>al1. DeleteSlot al' a s = Some al1 \<and> (if ac then DeleteAddress al1 a else al1) = al"
  using assms by (rule DeleteSlot_AddSlot)

theorem DeleteSlot_undoes_AddSlot_witness:
  "\<exists>al1. DeleteSlot \<lparr>addresses = [1 \<mapsto> 0], slots = [{2}]\<rparr> 1 2 = Some al1 \<and> DeleteAddress al1 1 = newAccessList"
  using DeleteSlot_undoes_AddSlot [OF al_ok_new, of 1 2 "\<lparr>addresses = [1 \<mapsto> 0], slots = [{2}]\<rparr>" True]
  by (simp add: AddSlot_def newAccessList_def)

end
