(* ===== verification/StateObject.thy ===== *)
theory StateObject
  imports GoCommon
begin

text \<open>
  core/state/state_object.go: an account, its NFT data, and the methods of a state object
  that touch only the object (the journaling ones are in theory StateDB). Balances that Go
  may leave nil (pledge, exchanger deposit, vote weight, block number) are \<open>int option\<close>.
  The storage layers are partial maps read in the order of the code: fake storage, dirty,
  pending, cached origin, storage trie. The storage trie of a root and the code of a code
  hash are functions of the database, fields of the state database of theory StateDB; the
  filling of the read caches, the prefetcher and the timers are left out.
\<close>

section \<open>Definitions\<close>

subsection \<open>Accounts\<close>

record AccountNFT =
  Name :: string
  Symbol :: string
  Price :: "int option"
  Direction :: u8
  Owner :: address
  NFTApproveAddressList :: address
  MergeLevel :: u8
  Creator :: address
  Royalty :: u32
  Exchanger :: address
  MetaURL :: string

record Account =
  Nonce :: u64
  Balance :: int
  Root :: hash
  CodeHash :: hash
  PledgedBalance :: "int option"
  ExchangerFlag :: bool
  BlockNumber :: "int option"
  ExchangerBalance :: "int option"
  VoteWeight :: "int option"
  FeeRate :: u32
  ExchangerName :: string
  ExchangerURL :: string
  ApproveAddressList :: "address list"
  NFTBalance :: u64
  NFT :: AccountNFT

record stateObject =
  obj_address :: address
  data :: Account
  code :: "string option"
  originStorage :: "hash \<rightharpoonup> hash"
  pendingStorage :: "hash \<rightharpoonup> hash"
  dirtyStorage :: "hash \<rightharpoonup> hash"
  fakeStorage :: "(hash \<rightharpoonup> hash) option"
  dirtyCode :: bool
  suicided :: bool
  deleted :: bool

definition emptyRoot :: hash where
  "emptyRoot = 0x56e81f171bcc55a6ff8345e692c0f86e5b48e01b996cadc001622fb5e363b421"

definition emptyCodeHash :: "keccak \<Rightarrow> hash" where
  "emptyCodeHash k = k []"

definition noNFT :: AccountNFT where
  "noNFT = \<lparr>Name = [], Symbol = [], Price = None, Direction = 0, Owner = 0,
     NFTApproveAddressList = 0, MergeLevel = 0, Creator = 0, Royalty = 0, Exchanger = 0,
     MetaURL = []\<rparr>"

text \<open>\<open>Account{}\<close> with the defaults \<open>newObject\<close> fills in.\<close>

definition zeroAccount :: "keccak \<Rightarrow> Account" where
  "zeroAccount k = \<lparr>Nonce = 0, Balance = 0, Root = emptyRoot, CodeHash = emptyCodeHash k,
     PledgedBalance = None, ExchangerFlag = False, BlockNumber = None, ExchangerBalance = None,
     VoteWeight = None, FeeRate = 0, ExchangerName = [], ExchangerURL = [],
     ApproveAddressList = [], NFTBalance = 0, NFT = noNFT\<rparr>"

definition newObject :: "address \<Rightarrow> Account \<Rightarrow> stateObject" where
  "newObject a d = \<lparr>obj_address = a, data = d, code = None, originStorage = Map.empty,
     pendingStorage = Map.empty, dirtyStorage = Map.empty, fakeStorage = None,
     dirtyCode = False, suicided = False, deleted = False\<rparr>"

text \<open>An account read back from its RLP encoding: a nil number is encoded as zero.\<close>

definition decodeAccount :: "Account \<Rightarrow> Account" where
  "decodeAccount d = d\<lparr>PledgedBalance := Some (case PledgedBalance d of None \<Rightarrow> 0 | Some x \<Rightarrow> x),
     BlockNumber := Some (case BlockNumber d of None \<Rightarrow> 0 | Some x \<Rightarrow> x),
     ExchangerBalance := Some (case ExchangerBalance d of None \<Rightarrow> 0 | Some x \<Rightarrow> x),
     VoteWeight := Some (case VoteWeight d of None \<Rightarrow> 0 | Some x \<Rightarrow> x),
     NFT := (NFT d)\<lparr>Price := Some (case Price (NFT d) of None \<Rightarrow> 0 | Some x \<Rightarrow> x)\<rparr>\<rparr>"

text \<open>The length of \<open>NFTApproveAddressList\<close>, a value of the array type \<open>common.Address\<close>.\<close>

definition len_address :: "address \<Rightarrow> nat" where
  "len_address a = 20"

definition obj_empty :: "keccak \<Rightarrow> stateObject \<Rightarrow> bool" where
  "obj_empty k s \<longleftrightarrow>
     Nonce (data s) = 0 \<and>
     Balance (data s) = 0 \<and>
     CodeHash (data s) = emptyCodeHash k \<and>
     PledgedBalance (data s) = None \<and>
     \<not> ExchangerFlag (data s) \<and>
     BlockNumber (data s) = None \<and>
     FeeRate (data s) = 0 \<and>
     ExchangerName (data s) = [] \<and>
     ExchangerURL (data s) = [] \<and>
     length (ApproveAddressList (data s)) = 0 \<and>
     Name (NFT (data s)) = [] \<and>
     Symbol (NFT (data s)) = [] \<and>
     Owner (NFT (data s)) = 0 \<and>
     len_address (NFTApproveAddressList (NFT (data s))) = 0 \<and>
     MergeLevel (NFT (data s)) = 0 \<and>
     Creator (NFT (data s)) = 0 \<and>
     Royalty (NFT (data s)) = 0 \<and>
     Exchanger (NFT (data s)) = 0 \<and>
     MetaURL (NFT (data s)) = []"

fun member_loop :: "address list \<Rightarrow> address \<Rightarrow> bool" where
  "member_loop [] a = False"
| "member_loop (x # xs) a = (if x = a then True else member_loop xs a)"

definition IsApproveAddress :: "Account \<Rightarrow> address \<Rightarrow> bool" where
  "IsApproveAddress acc a = member_loop (ApproveAddressList acc) a"

definition IsNFTApproveAddress :: "AccountNFT \<Rightarrow> address \<Rightarrow> bool" where
  "IsNFTApproveAddress n a = (a = NFTApproveAddressList n)"

subsection \<open>Storage\<close>

definition obj_GetCommittedState :: "(hash \<Rightarrow> hash \<Rightarrow> hash) \<Rightarrow> stateObject \<Rightarrow> hash \<Rightarrow> hash" where
  "obj_GetCommittedState tries s key =
     (case fakeStorage s of
        Some f \<Rightarrow> (case f key of Some v \<Rightarrow> v | None \<Rightarrow> 0)
      | None \<Rightarrow>
          (case pendingStorage s key of
             Some v \<Rightarrow> v
           | None \<Rightarrow> (case originStorage s key of
                        Some v \<Rightarrow> v
                      | None \<Rightarrow> tries (Root (data s)) key)))"

definition obj_GetState :: "(hash \<Rightarrow> hash \<Rightarrow> hash) \<Rightarrow> stateObject \<Rightarrow> hash \<Rightarrow> hash" where
  "obj_GetState tries s key =
     (case fakeStorage s of
        Some f \<Rightarrow> (case f key of Some v \<Rightarrow> v | None \<Rightarrow> 0)
      | None \<Rightarrow> (case dirtyStorage s key of
                   Some v \<Rightarrow> v
                 | None \<Rightarrow> obj_GetCommittedState tries s key))"

text \<open>The side effect of a read that reaches the trie: the value enters the origin cache.\<close>

definition obj_load :: "(hash \<Rightarrow> hash \<Rightarrow> hash) \<Rightarrow> hash \<Rightarrow> stateObject \<Rightarrow> stateObject" where
  "obj_load tries key s =
     (if fakeStorage s = None \<and> dirtyStorage s key = None \<and> pendingStorage s key = None
         \<and> originStorage s key = None
      then s\<lparr>originStorage := (originStorage s)(key \<mapsto> tries (Root (data s)) key)\<rparr> else s)"

definition obj_setState :: "hash \<Rightarrow> hash \<Rightarrow> stateObject \<Rightarrow> stateObject" where
  "obj_setState key v s = s\<lparr>dirtyStorage := (dirtyStorage s)(key \<mapsto> v)\<rparr>"

text \<open>Debugging only: the given entries over the fake storage.\<close>

definition obj_SetStorage :: "(hash \<rightharpoonup> hash) \<Rightarrow> stateObject \<Rightarrow> stateObject" where
  "obj_SetStorage storage s =
     s\<lparr>fakeStorage := Some ((case fakeStorage s of None \<Rightarrow> Map.empty | Some f \<Rightarrow> f) ++ storage)\<rparr>"

definition obj_finalise :: "stateObject \<Rightarrow> stateObject" where
  "obj_finalise s = s\<lparr>pendingStorage := pendingStorage s ++ dirtyStorage s, dirtyStorage := Map.empty\<rparr>"

text \<open>\<open>updateTrie\<close> on the content of the storage trie: the pending entries that differ from
  the origin are written, a zero value being a deletion, and become the origin.\<close>

definition obj_updateTrie ::
  "(hash \<Rightarrow> hash) \<Rightarrow> stateObject \<Rightarrow> (hash \<Rightarrow> hash) \<times> stateObject" where
  "obj_updateTrie tr s0 =
     (let s = obj_finalise s0;
          changed = (\<lambda>key. case pendingStorage s key of
             None \<Rightarrow> None
           | Some v \<Rightarrow> if v = (case originStorage s key of Some og \<Rightarrow> og | None \<Rightarrow> 0) then None else Some v)
      in ((\<lambda>key. case changed key of Some v \<Rightarrow> v | None \<Rightarrow> tr key),
          s\<lparr>originStorage := originStorage s ++ changed, pendingStorage := Map.empty\<rparr>))"

definition obj_Code :: "keccak \<Rightarrow> (hash \<Rightarrow> string) \<Rightarrow> stateObject \<Rightarrow> string option" where
  "obj_Code k codes s =
     (case code s of
        Some c \<Rightarrow> Some c
      | None \<Rightarrow> if CodeHash (data s) = emptyCodeHash k then None else Some (codes (CodeHash (data s))))"

definition obj_CodeSize :: "keccak \<Rightarrow> (hash \<Rightarrow> string) \<Rightarrow> stateObject \<Rightarrow> nat" where
  "obj_CodeSize k codes s =
     (case code s of
        Some c \<Rightarrow> length c
      | None \<Rightarrow> if CodeHash (data s) = emptyCodeHash k then 0 else length (codes (CodeHash (data s))))"

subsection \<open>Setters that do not journal\<close>

definition setBalance :: "int \<Rightarrow> stateObject \<Rightarrow> stateObject" where
  "setBalance v s = s\<lparr>data := (data s)\<lparr>Balance := v\<rparr>\<rparr>"

definition setNonce :: "u64 \<Rightarrow> stateObject \<Rightarrow> stateObject" where
  "setNonce v s = s\<lparr>data := (data s)\<lparr>Nonce := v\<rparr>\<rparr>"

definition setCode :: "hash \<Rightarrow> string option \<Rightarrow> stateObject \<Rightarrow> stateObject" where
  "setCode h c s = s\<lparr>code := c, data := (data s)\<lparr>CodeHash := h\<rparr>, dirtyCode := True\<rparr>"

definition markSuicided :: "stateObject \<Rightarrow> stateObject" where
  "markSuicided s = s\<lparr>suicided := True\<rparr>"

definition updNFT :: "(AccountNFT \<Rightarrow> AccountNFT) \<Rightarrow> stateObject \<Rightarrow> stateObject" where
  "updNFT f s = s\<lparr>data := (data s)\<lparr>NFT := f (NFT (data s))\<rparr>\<rparr>"

definition setOwner :: "address \<Rightarrow> stateObject \<Rightarrow> stateObject" where
  "setOwner a = updNFT (\<lambda>n. n\<lparr>Owner := a\<rparr>)"

definition setApproveAddress :: "address \<Rightarrow> stateObject \<Rightarrow> stateObject" where
  "setApproveAddress a s = s\<lparr>data := (data s)\<lparr>ApproveAddressList := ApproveAddressList (data s) @ [a]\<rparr>\<rparr>"

definition setJournalApproveAddress :: "address list \<Rightarrow> stateObject \<Rightarrow> stateObject" where
  "setJournalApproveAddress l s =
     (let s1 = (if length (ApproveAddressList (data s)) > 0
                then s\<lparr>data := (data s)\<lparr>ApproveAddressList := []\<rparr>\<rparr> else s)
      in s1\<lparr>data := (data s1)\<lparr>ApproveAddressList := ApproveAddressList (data s1) @ l\<rparr>\<rparr>)"

definition removeApproveAddress :: "address \<Rightarrow> stateObject \<Rightarrow> stateObject" where
  "removeApproveAddress a s =
     (let l = ApproveAddressList (data s);
          index = (case find_first (\<lambda>x. x = a) l of Some (i, _) \<Rightarrow> i | None \<Rightarrow> 0)
      in s\<lparr>data := (data s)\<lparr>ApproveAddressList := take index l @ drop (Suc index) l\<rparr>\<rparr>)"

definition setNFTApproveAddress :: "address \<Rightarrow> stateObject \<Rightarrow> stateObject" where
  "setNFTApproveAddress a = updNFT (\<lambda>n. n\<lparr>NFTApproveAddressList := a\<rparr>)"

definition setJournalNFTApproveAddress :: "address \<Rightarrow> stateObject \<Rightarrow> stateObject" where
  "setJournalNFTApproveAddress a = updNFT (\<lambda>n. n\<lparr>NFTApproveAddressList := a\<rparr>)"

definition removeNFTApproveAddress :: "stateObject \<Rightarrow> stateObject" where
  "removeNFTApproveAddress = updNFT (\<lambda>n. n\<lparr>NFTApproveAddressList := 0\<rparr>)"

definition setExchangerInfo ::
  "bool \<Rightarrow> int option \<Rightarrow> u32 \<Rightarrow> string \<Rightarrow> string \<Rightarrow> stateObject \<Rightarrow> stateObject" where
  "setExchangerInfo flag bn rate name url s =
     s\<lparr>data := (data s)\<lparr>ExchangerFlag := flag, BlockNumber := bn, FeeRate := rate,
       ExchangerName := name, ExchangerURL := url\<rparr>\<rparr>"

definition cleanNFT :: "stateObject \<Rightarrow> stateObject" where
  "cleanNFT = updNFT (\<lambda>n. n\<lparr>Name := [], Symbol := [], Owner := 0, NFTApproveAddressList := 0,
     MergeLevel := 0, Creator := 0, Royalty := 0, Exchanger := 0, MetaURL := []\<rparr>)"

text \<open>\<open>setNFTInfo\<close> and \<open>setJournalNFTInfo\<close>: price and direction are parameters that neither uses.\<close>

definition setNFTInfo :: "string \<Rightarrow> string \<Rightarrow> int option \<Rightarrow> u8 \<Rightarrow> address \<Rightarrow> address \<Rightarrow> u8 \<Rightarrow>
    address \<Rightarrow> u32 \<Rightarrow> address \<Rightarrow> string \<Rightarrow> stateObject \<Rightarrow> stateObject" where
  "setNFTInfo name symb price dir owner appr level creator royalty exch url =
     updNFT (\<lambda>n. n\<lparr>Name := name, Symbol := symb, Owner := owner, NFTApproveAddressList := appr,
       MergeLevel := level, Creator := creator, Royalty := royalty, Exchanger := exch,
       MetaURL := url\<rparr>)"

definition setJournalNFTInfo :: "string \<Rightarrow> string \<Rightarrow> int option \<Rightarrow> u8 \<Rightarrow> address \<Rightarrow> address \<Rightarrow> u8 \<Rightarrow>
    address \<Rightarrow> u32 \<Rightarrow> address \<Rightarrow> string \<Rightarrow> stateObject \<Rightarrow> stateObject" where
  "setJournalNFTInfo name symb price dir owner appr level creator royalty exch url =
     updNFT (\<lambda>n. n\<lparr>Name := name, Symbol := symb, Owner := owner, NFTApproveAddressList := appr,
       MergeLevel := level, Creator := creator, Royalty := royalty, Exchanger := exch,
       MetaURL := url\<rparr>)"

definition setPledgedBalance :: "int \<Rightarrow> stateObject \<Rightarrow> stateObject" where
  "setPledgedBalance v s = s\<lparr>data := (data s)\<lparr>PledgedBalance := Some v\<rparr>\<rparr>"

definition setExchangerBalance :: "int \<Rightarrow> stateObject \<Rightarrow> stateObject" where
  "setExchangerBalance v s = s\<lparr>data := (data s)\<lparr>ExchangerBalance := Some v\<rparr>\<rparr>"

definition setVoteWeight :: "int \<Rightarrow> stateObject \<Rightarrow> stateObject" where
  "setVoteWeight v s = s\<lparr>data := (data s)\<lparr>VoteWeight := Some v\<rparr>\<rparr>"

text \<open>What the storage layers owe the trie update: a key written in this block has its trie
  value cached.\<close>

definition origin_ok :: "(hash \<Rightarrow> hash) \<Rightarrow> stateObject \<Rightarrow> bool" where
  "origin_ok tr s \<longleftrightarrow>
     (\<forall>key. originStorage s key = None \<or> originStorage s key = Some (tr key)) \<and>
     (\<forall>key. dirtyStorage s key \<noteq> None \<or> pendingStorage s key \<noteq> None \<longrightarrow> originStorage s key \<noteq> None)"

section \<open>Lemmas\<close>

lemma member_loop_iff [simp]: "member_loop l a \<longleftrightarrow> a \<in> set l"
  by (induction l) auto

lemma obj_empty_never: "\<not> obj_empty k s"
  by (simp add: obj_empty_def len_address_def)

lemma setJournalApproveAddress_eq:
  "setJournalApproveAddress l s = s\<lparr>data := (data s)\<lparr>ApproveAddressList := l\<rparr>\<rparr>"
  by (simp add: setJournalApproveAddress_def)

lemma take_drop_remove1:
  "find_first (\<lambda>x. x = a) l = Some (i, x) \<Longrightarrow> take i l @ drop (Suc i) l = remove1 a l"
  by (induction l arbitrary: i) (auto split: if_splits)

lemma removeApproveAddress_eq:
  assumes "a \<in> set (ApproveAddressList (data s))"
  shows "removeApproveAddress a s =
    s\<lparr>data := (data s)\<lparr>ApproveAddressList := remove1 a (ApproveAddressList (data s))\<rparr>\<rparr>"
proof -
  obtain i x where "find_first (\<lambda>x. x = a) (ApproveAddressList (data s)) = Some (i, x)"
    using assms find_first_None [of "\<lambda>x. x = a" "ApproveAddressList (data s)"]
    by (cases "find_first (\<lambda>x. x = a) (ApproveAddressList (data s))") auto
  then show ?thesis by (simp add: removeApproveAddress_def Let_def take_drop_remove1)
qed

subsection \<open>Storage layers\<close>

lemma obj_GetState_load [simp]: "obj_GetState tr (obj_load tr k s) = obj_GetState tr s"
  by (rule ext) (auto simp: obj_GetState_def obj_GetCommittedState_def obj_load_def split: option.splits)

lemma obj_GetState_setState:
  "fakeStorage s = None \<Longrightarrow> obj_GetState tr (obj_setState k v s) = (obj_GetState tr s)(k := v)"
  by (rule ext) (auto simp: obj_GetState_def obj_GetCommittedState_def obj_setState_def split: option.splits)

lemma obj_GetState_finalise: "obj_GetState tr (obj_finalise s) = obj_GetState tr s"
  by (rule ext) (auto simp: obj_GetState_def obj_GetCommittedState_def obj_finalise_def map_add_def
      split: option.splits)

lemma origin_ok_write:
  assumes "origin_ok (tr (Root (data s))) s" and "fakeStorage s = None"
  shows "origin_ok (tr (Root (data s))) (obj_setState k v (obj_load tr k s))"
  using assms by (auto simp: origin_ok_def obj_setState_def obj_load_def)

lemma origin_ok_finalise: "origin_ok tr s \<Longrightarrow> origin_ok tr (obj_finalise s)"
  by (auto simp: origin_ok_def obj_finalise_def map_add_def split: option.splits)

lemma obj_updateTrie_content:
  assumes "origin_ok (tr (Root (data s))) s" and "fakeStorage s = None"
  shows "fst (obj_updateTrie (tr (Root (data s))) s) = obj_GetState tr s"
proof
  fix k
  consider "originStorage s k = None" "dirtyStorage s k = None" "pendingStorage s k = None"
    | "originStorage s k = Some (tr (Root (data s)) k)"
    using assms(1) unfolding origin_ok_def by metis
  then show "fst (obj_updateTrie (tr (Root (data s))) s) k = obj_GetState tr s k"
    using assms(2) by cases (auto simp: obj_updateTrie_def Let_def obj_finalise_def map_add_def
        obj_GetState_def obj_GetCommittedState_def split: option.splits)
qed

section \<open>Properties\<close>

text \<open>Writes and the end of a transaction keep every written key cached, and then the trie
  update leaves the storage trie holding exactly the values a reader of the object sees.\<close>

theorem updateTrie_writes_visible_state:
  assumes "origin_ok (tr (Root (data s))) s" and "fakeStorage s = None"
  shows "fst (obj_updateTrie (tr (Root (data s))) (obj_finalise (obj_setState k v (obj_load tr k s))))
     = (obj_GetState tr s)(k := v)"
proof -
  let ?s = "obj_setState k v (obj_load tr k s)"
  have r: "Root (data ?s) = Root (data s)" "Root (data (obj_finalise ?s)) = Root (data s)"
    "fakeStorage (obj_finalise ?s) = None" "fakeStorage (obj_load tr k s) = None"
    using assms(2) by (simp_all add: obj_setState_def obj_load_def obj_finalise_def)
  have "origin_ok (tr (Root (data s))) (obj_finalise ?s)"
    by (rule origin_ok_finalise [OF origin_ok_write [of tr, OF assms]])
  then show ?thesis
    using obj_updateTrie_content [of tr "obj_finalise ?s"] r
    by (simp add: obj_GetState_finalise obj_GetState_setState)
qed

theorem updateTrie_writes_visible_state_witness:
  "origin_ok (\<lambda>_. 0) (newObject 1 (zeroAccount (\<lambda>_. 0)))
   \<and> fst (obj_updateTrie (\<lambda>_. 0) (obj_finalise (obj_setState 5 7 (obj_load (\<lambda>_ _. 0) 5 (newObject 1 (zeroAccount (\<lambda>_. 0)))))))
     = (obj_GetState (\<lambda>_ _. 0) (newObject 1 (zeroAccount (\<lambda>_. 0))))(5 := 7)"
  using updateTrie_writes_visible_state [of "\<lambda>_ _. 0" "newObject 1 (zeroAccount (\<lambda>_. 0))" 5 7]
  by (simp add: origin_ok_def newObject_def)

text \<open>No state object counts as empty, because the length of the approved address, a fixed
  array, is compared with zero; the clearing of empty accounts and the touching of them never happen.\<close>

theorem empty_is_never_true: "\<not> obj_empty k s"
  by (rule obj_empty_never)

text \<open>Cancelling an approval removes the first entry of the address and keeps the others
  in order, and an approval that is granted and cancelled leaves the list as it was.\<close>

theorem approve_then_cancel:
  assumes "\<not> IsApproveAddress (data s) a"
  shows "removeApproveAddress a (setApproveAddress a s) = s"
proof -
  have "removeApproveAddress a (setApproveAddress a s) =
      s\<lparr>data := (data s)\<lparr>ApproveAddressList := remove1 a (ApproveAddressList (data s) @ [a])\<rparr>\<rparr>"
    by (subst removeApproveAddress_eq) (simp_all add: setApproveAddress_def)
  then show ?thesis using assms by (simp add: IsApproveAddress_def remove1_append)
qed

theorem approve_then_cancel_witness:
  "removeApproveAddress 7 (setApproveAddress 7 (newObject 1 (zeroAccount (\<lambda>_. 0)))) = newObject 1 (zeroAccount (\<lambda>_. 0))"
  by (rule approve_then_cancel) (simp add: IsApproveAddress_def newObject_def zeroAccount_def)

end
