(* ===== verification/StateDB.thy ===== *)
theory StateDB
  imports NFTTypes StakePools AccessList StateObject
begin

text \<open>
  core/state/journal.go and the account part of core/state/statedb.go: the state database
  with its journal, snapshots, account and storage setters, logs, refund, access list and
  finalisation. The account trie is a map from addresses to accounts, the storage tries and
  the contract codes are functions of root and code hash; the journal's fields are fields of
  the record. A pointer to a live object is its address: \<open>deref\<close> reads the object behind it
  and \<open>modify\<close> writes it. Methods of \<open>stateObject\<close> that journal have the prefix \<open>o_\<close>.

  Not modelled: the snapshot tree (\<open>snap\<close> is nil), the prefetcher, database read errors and
  the hashing of tries.
\<close>

section \<open>Definitions\<close>

subsection \<open>Journal and state\<close>

record Log =
  log_Address :: address
  log_Topics :: "hash list"
  log_Data :: string
  log_TxHash :: hash
  log_TxIndex :: int
  log_Index :: u64

datatype journalEntry =
    createObjectChange address
  | resetObjectChange stateObject bool
  | suicideChange address bool int
  | balanceChange address int
  | nonceChange address u64
  | storageChange address hash hash
  | codeChange address "string option" hash
  | refundChange u64
  | addLogChange hash
  | addPreimageChange hash
  | touchChange address
  | accessListAddAccountChange address
  | accessListAddSlotChange address hash
  | nftOwnerChange address address
  | nftApproveAddressChange address "address list"
  | nftApproveAddressChangeOne address address
  | openExchangerChange address bool "int option" u32 string string
  | nftInfoChange address string string address address u8 address u32 address string
  | pledgedBalanceChange address int
  | exchangerBalanceChange address int
  | voteWeightChange address int

record StateDB =
  trie :: "address \<rightharpoonup> Account"
  storageTries :: "hash \<Rightarrow> hash \<Rightarrow> hash"
  codeDB :: "hash \<Rightarrow> string"
  hasher :: keccak
  stateObjects :: "address \<rightharpoonup> stateObject"
  stateObjectsPending :: "address \<Rightarrow> bool"
  stateObjectsDirty :: "address \<Rightarrow> bool"
  refund :: u64
  thash :: hash
  txIndex :: int
  logs :: "hash \<Rightarrow> Log list"
  logSize :: u64
  preimages :: "hash \<rightharpoonup> string"
  accessLst :: accessList
  entries :: "journalEntry list"
  dirties :: "address \<Rightarrow> int"
  validRevisions :: "(int \<times> nat) list"
  nextRevisionId :: int
  mintDeep :: MintDeep
  SNFTExchangePool :: "SNFTExchange list"
  PledgedTokenPool :: "PledgedToken list"
  ExchangerTokenPool :: "PledgedToken list"
  ActiveMinersPool :: "ActiveMiner list"
  OfficialNFTPool :: "InjectedOfficialNFT list"
  Nominated :: "NominatedOfficialNFT option"

text \<open>The state opened on a trie. The pools, nil until the block processor attaches the stored
  ones, are empty.\<close>

definition New :: "(address \<rightharpoonup> Account) \<Rightarrow> (hash \<Rightarrow> hash \<Rightarrow> hash) \<Rightarrow> (hash \<Rightarrow> string) \<Rightarrow> keccak \<Rightarrow> StateDB" where
  "New tr storage codes k = \<lparr>trie = tr, storageTries = storage, codeDB = codes, hasher = k,
     stateObjects = Map.empty, stateObjectsPending = (\<lambda>_. False), stateObjectsDirty = (\<lambda>_. False),
     refund = 0, thash = 0, txIndex = 0, logs = (\<lambda>_. []), logSize = 0, preimages = Map.empty,
     accessLst = newAccessList, entries = [], dirties = (\<lambda>_. 0), validRevisions = [], nextRevisionId = 0,
     mintDeep = \<lparr>UserMint = 0, OfficialMint = 0\<rparr>, SNFTExchangePool = [], PledgedTokenPool = [],
     ExchangerTokenPool = [], ActiveMinersPool = [], OfficialNFTPool = [], Nominated = None\<rparr>"

fun dirtied :: "journalEntry \<Rightarrow> address option" where
  "dirtied (createObjectChange a) = Some a"
| "dirtied (resetObjectChange prev pd) = None"
| "dirtied (suicideChange a p b) = Some a"
| "dirtied (balanceChange a p) = Some a"
| "dirtied (nonceChange a p) = Some a"
| "dirtied (storageChange a k p) = Some a"
| "dirtied (codeChange a c h) = Some a"
| "dirtied (refundChange p) = None"
| "dirtied (addLogChange h) = None"
| "dirtied (addPreimageChange h) = None"
| "dirtied (touchChange a) = Some a"
| "dirtied (accessListAddAccountChange a) = None"
| "dirtied (accessListAddSlotChange a k) = None"
| "dirtied (nftOwnerChange a p) = Some a"
| "dirtied (nftApproveAddressChange a p) = Some a"
| "dirtied (nftApproveAddressChangeOne a p) = Some a"
| "dirtied (openExchangerChange a f b r n u) = Some a"
| "dirtied (nftInfoChange a n sy ow ap ml cr ro ex mu) = Some a"
| "dirtied (pledgedBalanceChange a p) = Some a"
| "dirtied (exchangerBalanceChange a p) = Some a"
| "dirtied (voteWeightChange a p) = Some a"

definition dirty :: "address \<Rightarrow> StateDB \<Rightarrow> StateDB" where
  "dirty a s = s\<lparr>dirties := (dirties s)(a := dirties s a + 1)\<rparr>"

definition journal_append :: "journalEntry \<Rightarrow> StateDB \<Rightarrow> StateDB" where
  "journal_append e s =
     (let s1 = s\<lparr>entries := entries s @ [e]\<rparr>
      in case dirtied e of None \<Rightarrow> s1 | Some a \<Rightarrow> s1\<lparr>dirties := (dirties s1)(a := dirties s1 a + 1)\<rparr>)"

subsection \<open>Objects\<close>

definition getDeletedStateObject :: "StateDB \<Rightarrow> address \<Rightarrow> stateObject option" where
  "getDeletedStateObject s a =
     (case stateObjects s a of
        Some ob \<Rightarrow> Some ob
      | None \<Rightarrow> (case trie s a of
                   None \<Rightarrow> None
                 | Some enc \<Rightarrow> Some (newObject a (decodeAccount enc))))"

definition getStateObject :: "StateDB \<Rightarrow> address \<Rightarrow> stateObject option" where
  "getStateObject s a =
     (case getDeletedStateObject s a of
        Some ob \<Rightarrow> if deleted ob then None else Some ob
      | None \<Rightarrow> None)"

definition setStateObject :: "stateObject \<Rightarrow> StateDB \<Rightarrow> StateDB" where
  "setStateObject ob s = s\<lparr>stateObjects := (stateObjects s)(obj_address ob \<mapsto> ob)\<rparr>"

text \<open>The object behind a pointer, and a write through the pointer.\<close>

definition deref :: "StateDB \<Rightarrow> address \<Rightarrow> stateObject" where
  "deref s a =
     (case getDeletedStateObject s a of
        Some ob \<Rightarrow> ob
      | None \<Rightarrow> newObject a (zeroAccount (hasher s)))"

definition modify :: "address \<Rightarrow> (stateObject \<Rightarrow> stateObject) \<Rightarrow> StateDB \<Rightarrow> StateDB" where
  "modify a f s = s\<lparr>stateObjects := (stateObjects s)(a \<mapsto> f (deref s a))\<rparr>"

text \<open>The state after \<open>createObject\<close>, and the previous object unless it was deleted.\<close>

definition createObject :: "address \<Rightarrow> StateDB \<Rightarrow> StateDB \<times> stateObject option" where
  "createObject a s =
     (let prev = getDeletedStateObject s a;
          newobj = newObject a (zeroAccount (hasher s));
          s1 = (case prev of
                  None \<Rightarrow> journal_append (createObjectChange a) s
                | Some p \<Rightarrow> journal_append (resetObjectChange p False) s);
          s2 = setStateObject newobj s1
      in (s2, case prev of Some p \<Rightarrow> if deleted p then None else Some p | None \<Rightarrow> None))"

definition GetOrNewStateObject :: "address \<Rightarrow> StateDB \<Rightarrow> StateDB" where
  "GetOrNewStateObject a s =
     (case getStateObject s a of None \<Rightarrow> fst (createObject a s) | Some _ \<Rightarrow> s)"

definition CreateAccount :: "address \<Rightarrow> StateDB \<Rightarrow> StateDB" where
  "CreateAccount a s =
     (case createObject a s of
        (s1, Some prev) \<Rightarrow> modify a (setBalance (Balance (data prev))) s1
      | (s1, None) \<Rightarrow> s1)"

subsection \<open>Undoing\<close>

text \<open>A method call on the object of an address, a panic when there is none.\<close>

definition on_object :: "address \<Rightarrow> (stateObject \<Rightarrow> stateObject) \<Rightarrow> StateDB \<Rightarrow> StateDB panics" where
  "on_object a f s = (case getStateObject s a of None \<Rightarrow> None | Some _ \<Rightarrow> Some (modify a f s))"

fun revert :: "journalEntry \<Rightarrow> StateDB \<Rightarrow> StateDB panics" where
  "revert (createObjectChange a) s =
     Some (s\<lparr>stateObjects := (stateObjects s)(a := None),
             stateObjectsDirty := (stateObjectsDirty s)(a := False)\<rparr>)"
| "revert (resetObjectChange prev pd) s = Some (setStateObject prev s)"
| "revert (suicideChange a p b) s =
     (case getStateObject s a of
        None \<Rightarrow> Some s
      | Some _ \<Rightarrow> Some (modify a (\<lambda>ob. setBalance b (ob\<lparr>suicided := p\<rparr>)) s))"
| "revert (touchChange a) s = Some s"
| "revert (balanceChange a p) s = on_object a (setBalance p) s"
| "revert (nonceChange a p) s = on_object a (setNonce p) s"
| "revert (codeChange a c h) s = on_object a (setCode h c) s"
| "revert (storageChange a k p) s = on_object a (obj_setState k p) s"
| "revert (refundChange p) s = Some (s\<lparr>refund := p\<rparr>)"
| "revert (addLogChange h) s =
     (if logs s h = [] then None
      else Some (s\<lparr>logs := (logs s)(h := (if length (logs s h) = 1 then [] else butlast (logs s h))),
                   logSize := logSize s - 1\<rparr>))"
| "revert (addPreimageChange h) s = Some (s\<lparr>preimages := (preimages s)(h := None)\<rparr>)"
| "revert (accessListAddAccountChange a) s = Some (s\<lparr>accessLst := DeleteAddress (accessLst s) a\<rparr>)"
| "revert (accessListAddSlotChange a k) s =
     do { al \<leftarrow> DeleteSlot (accessLst s) a k; Some (s\<lparr>accessLst := al\<rparr>) }"
| "revert (nftOwnerChange a p) s = on_object a (setOwner p) s"
| "revert (nftApproveAddressChange a l) s = on_object a (setJournalApproveAddress l) s"
| "revert (nftApproveAddressChangeOne a p) s = on_object a (setJournalNFTApproveAddress p) s"
| "revert (openExchangerChange a f b r n u) s = on_object a (setExchangerInfo f b r n u) s"
| "revert (nftInfoChange a n sy ow ap ml cr ro ex mu) s =
     on_object a (setJournalNFTInfo n sy None 0 ow ap ml cr ro ex mu) s"
| "revert (pledgedBalanceChange a p) s = on_object a (setPledgedBalance p) s"
| "revert (exchangerBalanceChange a p) s = on_object a (setExchangerBalance p) s"
| "revert (voteWeightChange a p) s = on_object a (setVoteWeight p) s"

text \<open>One round of the loop of \<open>journal.revert\<close>.\<close>

definition revert_one :: "journalEntry \<Rightarrow> StateDB \<Rightarrow> StateDB panics" where
  "revert_one e s =
     do { s1 \<leftarrow> revert e s;
          Some (case dirtied e of
                  None \<Rightarrow> s1
                | Some a \<Rightarrow> s1\<lparr>dirties := (dirties s1)(a := dirties s1 a - 1)\<rparr>) }"

definition journal_revert :: "nat \<Rightarrow> StateDB \<Rightarrow> StateDB panics" where
  "journal_revert snapshot s =
     do { s1 \<leftarrow> for_each revert_one (rev (drop snapshot (entries s))) s;
          Some (s1\<lparr>entries := take snapshot (entries s)\<rparr>) }"

definition Snapshot :: "StateDB \<Rightarrow> StateDB \<times> int" where
  "Snapshot s =
     (let i = nextRevisionId s
      in (s\<lparr>nextRevisionId := i + 1, validRevisions := validRevisions s @ [(i, length (entries s))]\<rparr>, i))"

text \<open>\<open>sort.Search\<close> on the ascending identifiers finds the first one that is not below.\<close>

definition RevertToSnapshot :: "int \<Rightarrow> StateDB \<Rightarrow> StateDB panics" where
  "RevertToSnapshot revid s =
     (case find_first (\<lambda>r. fst r \<ge> revid) (validRevisions s) of
        None \<Rightarrow> None
      | Some (idx, r) \<Rightarrow>
          if fst r \<noteq> revid then None
          else do { s1 \<leftarrow> journal_revert (snd r) s;
                    Some (s1\<lparr>validRevisions := take idx (validRevisions s1)\<rparr>) })"

subsection \<open>Methods of a live object\<close>

definition ripemd :: address where
  "ripemd = 3"

definition touch :: "address \<Rightarrow> StateDB \<Rightarrow> StateDB" where
  "touch a s = (let s1 = journal_append (touchChange a) s in if a = ripemd then dirty a s1 else s1)"

definition o_SetBalance :: "address \<Rightarrow> int \<Rightarrow> StateDB \<Rightarrow> StateDB" where
  "o_SetBalance a amount s =
     modify a (setBalance amount) (journal_append (balanceChange a (Balance (data (deref s a)))) s)"

definition o_AddBalance :: "address \<Rightarrow> int \<Rightarrow> StateDB \<Rightarrow> StateDB" where
  "o_AddBalance a amount s =
     (if amount = 0 then (if obj_empty (hasher s) (deref s a) then touch a s else s)
      else o_SetBalance a (Balance (data (deref s a)) + amount) s)"

definition o_SubBalance :: "address \<Rightarrow> int \<Rightarrow> StateDB \<Rightarrow> StateDB" where
  "o_SubBalance a amount s =
     (if amount = 0 then s else o_SetBalance a (Balance (data (deref s a)) - amount) s)"

definition o_SetNonce :: "address \<Rightarrow> u64 \<Rightarrow> StateDB \<Rightarrow> StateDB" where
  "o_SetNonce a nonce s =
     modify a (setNonce nonce) (journal_append (nonceChange a (Nonce (data (deref s a)))) s)"

definition o_SetCode :: "address \<Rightarrow> hash \<Rightarrow> string \<Rightarrow> StateDB \<Rightarrow> StateDB" where
  "o_SetCode a codeHash c s =
     (let prevcode = obj_Code (hasher s) (codeDB s) (deref s a)
      in modify a (setCode codeHash (Some c))
           (journal_append (codeChange a prevcode (CodeHash (data (deref s a)))) s))"

definition o_SetState :: "address \<Rightarrow> hash \<Rightarrow> hash \<Rightarrow> StateDB \<Rightarrow> StateDB" where
  "o_SetState a key v s =
     (case fakeStorage (deref s a) of
        Some f \<Rightarrow> modify a (\<lambda>ob. ob\<lparr>fakeStorage := Some (f(key \<mapsto> v))\<rparr>) s
      | None \<Rightarrow>
          (let prev = obj_GetState (storageTries s) (deref s a) key;
               s1 = modify a (obj_load (storageTries s) key) s
           in if prev = v then s1
              else modify a (obj_setState key v) (journal_append (storageChange a key prev) s1)))"

definition o_SetOwner :: "address \<Rightarrow> address \<Rightarrow> StateDB \<Rightarrow> StateDB" where
  "o_SetOwner a newOwner s =
     modify a (setOwner newOwner) (journal_append (nftOwnerChange a (Owner (NFT (data (deref s a))))) s)"

definition o_SetNFTApproveAddress :: "address \<Rightarrow> address \<Rightarrow> StateDB \<Rightarrow> StateDB" where
  "o_SetNFTApproveAddress a ap s =
     modify a (setNFTApproveAddress ap)
       (journal_append (nftApproveAddressChangeOne a (NFTApproveAddressList (NFT (data (deref s a))))) s)"

definition o_ChangeNFTOwner :: "address \<Rightarrow> address \<Rightarrow> StateDB \<Rightarrow> StateDB" where
  "o_ChangeNFTOwner a newOwner s =
     (if Owner (NFT (data (deref s a))) = newOwner then s
      else o_SetNFTApproveAddress a 0 (o_SetOwner a newOwner s))"

definition o_ChangeApproveAddress :: "address \<Rightarrow> address \<Rightarrow> StateDB \<Rightarrow> StateDB" where
  "o_ChangeApproveAddress a ap s =
     (if IsApproveAddress (data (deref s a)) ap then s
      else modify a (setApproveAddress ap)
             (journal_append (nftApproveAddressChange a (ApproveAddressList (data (deref s a)))) s))"

definition o_CancelApproveAddress :: "address \<Rightarrow> address \<Rightarrow> StateDB \<Rightarrow> StateDB" where
  "o_CancelApproveAddress a ap s =
     (if \<not> IsApproveAddress (data (deref s a)) ap then s
      else modify a (removeApproveAddress ap)
             (journal_append (nftApproveAddressChange a (ApproveAddressList (data (deref s a)))) s))"

definition o_ChangeNFTApproveAddress :: "address \<Rightarrow> address \<Rightarrow> StateDB \<Rightarrow> StateDB" where
  "o_ChangeNFTApproveAddress a ap s =
     (if IsNFTApproveAddress (NFT (data (deref s a))) ap then s else o_SetNFTApproveAddress a ap s)"

definition o_CancelNFTApproveAddress :: "address \<Rightarrow> address \<Rightarrow> StateDB \<Rightarrow> StateDB" where
  "o_CancelNFTApproveAddress a ap s =
     (if \<not> IsNFTApproveAddress (NFT (data (deref s a))) ap then s
      else modify a removeNFTApproveAddress
             (journal_append (nftApproveAddressChangeOne a (NFTApproveAddressList (NFT (data (deref s a))))) s))"

definition o_SetExchangerInfo ::
  "address \<Rightarrow> bool \<Rightarrow> int option \<Rightarrow> u32 \<Rightarrow> string \<Rightarrow> string \<Rightarrow> StateDB \<Rightarrow> StateDB" where
  "o_SetExchangerInfo a flag bn rate name url s =
     (let d = data (deref s a)
      in modify a (setExchangerInfo flag bn rate name url)
           (journal_append (openExchangerChange a (ExchangerFlag d) (BlockNumber d) (FeeRate d)
              (ExchangerName d) (ExchangerURL d)) s))"

definition o_OpenExchanger :: "address \<Rightarrow> int \<Rightarrow> u32 \<Rightarrow> string \<Rightarrow> string \<Rightarrow> StateDB \<Rightarrow> StateDB" where
  "o_OpenExchanger a bn rate name url s =
     (if ExchangerFlag (data (deref s a)) then s
      else o_SetExchangerInfo a True (Some bn) rate name url s)"

definition o_CloseExchanger :: "address \<Rightarrow> StateDB \<Rightarrow> StateDB" where
  "o_CloseExchanger a s =
     (if \<not> ExchangerFlag (data (deref s a)) then s
      else o_SetExchangerInfo a False (Some 0) 0 [] [] s)"

definition nftInfo_entry :: "address \<Rightarrow> AccountNFT \<Rightarrow> journalEntry" where
  "nftInfo_entry a n = nftInfoChange a (Name n) (Symbol n) (Owner n) (NFTApproveAddressList n)
     (MergeLevel n) (Creator n) (Royalty n) (Exchanger n) (MetaURL n)"

definition o_CleanNFT :: "address \<Rightarrow> StateDB \<Rightarrow> StateDB" where
  "o_CleanNFT a s = modify a cleanNFT (journal_append (nftInfo_entry a (NFT (data (deref s a)))) s)"

definition o_SetNFTInfo :: "address \<Rightarrow> string \<Rightarrow> string \<Rightarrow> int option \<Rightarrow> u8 \<Rightarrow> address \<Rightarrow> address \<Rightarrow> u8 \<Rightarrow>
    address \<Rightarrow> u32 \<Rightarrow> address \<Rightarrow> string \<Rightarrow> StateDB \<Rightarrow> StateDB" where
  "o_SetNFTInfo a name symb price dir owner appr level creator royalty exch url s =
     modify a (setNFTInfo name symb price dir owner appr level creator royalty exch url)
       (journal_append (nftInfo_entry a (NFT (data (deref s a)))) s)"

text \<open>The setters of the three nil-able balances; the old value is journaled as zero when nil.\<close>

definition o_SetPledgedBalance :: "address \<Rightarrow> int \<Rightarrow> StateDB \<Rightarrow> StateDB" where
  "o_SetPledgedBalance a amount s =
     modify a (setPledgedBalance amount)
       (journal_append (pledgedBalanceChange a
          (case PledgedBalance (data (deref s a)) of None \<Rightarrow> 0 | Some x \<Rightarrow> x)) s)"

definition o_AddPledgedBalance :: "address \<Rightarrow> int \<Rightarrow> StateDB \<Rightarrow> StateDB" where
  "o_AddPledgedBalance a amount s =
     (if amount = 0 then s
      else o_SetPledgedBalance a
             ((case PledgedBalance (data (deref s a)) of None \<Rightarrow> 0 | Some x \<Rightarrow> x) + amount) s)"

definition o_SubPledgedBalance :: "address \<Rightarrow> int \<Rightarrow> StateDB \<Rightarrow> StateDB panics" where
  "o_SubPledgedBalance a amount s =
     (if amount = 0 then Some s
      else do { x \<leftarrow> PledgedBalance (data (deref s a)); Some (o_SetPledgedBalance a (x - amount) s) })"

definition o_SetExchangerBalance :: "address \<Rightarrow> int \<Rightarrow> StateDB \<Rightarrow> StateDB" where
  "o_SetExchangerBalance a amount s =
     modify a (setExchangerBalance amount)
       (journal_append (exchangerBalanceChange a
          (case ExchangerBalance (data (deref s a)) of None \<Rightarrow> 0 | Some x \<Rightarrow> x)) s)"

definition o_AddExchangerBalance :: "address \<Rightarrow> int \<Rightarrow> StateDB \<Rightarrow> StateDB panics" where
  "o_AddExchangerBalance a amount s =
     (if amount = 0 then Some s
      else do { x \<leftarrow> ExchangerBalance (data (deref s a)); Some (o_SetExchangerBalance a (x + amount) s) })"

definition o_SubExchangerBalance :: "address \<Rightarrow> int \<Rightarrow> StateDB \<Rightarrow> StateDB panics" where
  "o_SubExchangerBalance a amount s =
     (if amount = 0 then Some s
      else do { x \<leftarrow> ExchangerBalance (data (deref s a)); Some (o_SetExchangerBalance a (x - amount) s) })"

definition o_SetVoteWeight :: "address \<Rightarrow> int \<Rightarrow> StateDB \<Rightarrow> StateDB" where
  "o_SetVoteWeight a amount s =
     modify a (setVoteWeight amount)
       (journal_append (voteWeightChange a
          (case VoteWeight (data (deref s a)) of None \<Rightarrow> 0 | Some x \<Rightarrow> x)) s)"

definition o_AddVoteWeight :: "address \<Rightarrow> int \<Rightarrow> StateDB \<Rightarrow> StateDB panics" where
  "o_AddVoteWeight a amount s =
     (if amount = 0 then Some s
      else do { x \<leftarrow> VoteWeight (data (deref s a)); Some (o_SetVoteWeight a (x + amount) s) })"

definition o_SubVoteWeight :: "address \<Rightarrow> int \<Rightarrow> StateDB \<Rightarrow> StateDB panics" where
  "o_SubVoteWeight a amount s =
     (if amount = 0 then Some s
      else do { x \<leftarrow> VoteWeight (data (deref s a)); Some (o_SetVoteWeight a (x - amount) s) })"

subsection \<open>Queries\<close>

definition Exist :: "address \<Rightarrow> StateDB \<Rightarrow> bool" where
  "Exist a s = (getStateObject s a \<noteq> None)"

definition Empty :: "address \<Rightarrow> StateDB \<Rightarrow> bool" where
  "Empty a s = (case getStateObject s a of None \<Rightarrow> True | Some so \<Rightarrow> obj_empty (hasher s) so)"

definition GetBalance :: "address \<Rightarrow> StateDB \<Rightarrow> int" where
  "GetBalance a s = (case getStateObject s a of Some so \<Rightarrow> Balance (data so) | None \<Rightarrow> 0)"

definition GetNonce :: "address \<Rightarrow> StateDB \<Rightarrow> u64" where
  "GetNonce a s = (case getStateObject s a of Some so \<Rightarrow> Nonce (data so) | None \<Rightarrow> 0)"

definition GetCode :: "address \<Rightarrow> StateDB \<Rightarrow> string option" where
  "GetCode a s = (case getStateObject s a of Some so \<Rightarrow> obj_Code (hasher s) (codeDB s) so | None \<Rightarrow> None)"

definition GetCodeSize :: "address \<Rightarrow> StateDB \<Rightarrow> nat" where
  "GetCodeSize a s = (case getStateObject s a of Some so \<Rightarrow> obj_CodeSize (hasher s) (codeDB s) so | None \<Rightarrow> 0)"

definition GetCodeHash :: "address \<Rightarrow> StateDB \<Rightarrow> hash" where
  "GetCodeHash a s = (case getStateObject s a of None \<Rightarrow> 0 | Some so \<Rightarrow> CodeHash (data so))"

definition GetState :: "address \<Rightarrow> hash \<Rightarrow> StateDB \<Rightarrow> hash" where
  "GetState a key s = (case getStateObject s a of Some so \<Rightarrow> obj_GetState (storageTries s) so key | None \<Rightarrow> 0)"

definition GetCommittedState :: "address \<Rightarrow> hash \<Rightarrow> StateDB \<Rightarrow> hash" where
  "GetCommittedState a key s =
     (case getStateObject s a of Some so \<Rightarrow> obj_GetCommittedState (storageTries s) so key | None \<Rightarrow> 0)"

definition HasSuicided :: "address \<Rightarrow> StateDB \<Rightarrow> bool" where
  "HasSuicided a s = (case getStateObject s a of Some so \<Rightarrow> suicided so | None \<Rightarrow> False)"

definition GetRefund :: "StateDB \<Rightarrow> u64" where
  "GetRefund s = refund s"

subsection \<open>Setters\<close>

definition AddBalance :: "address \<Rightarrow> int \<Rightarrow> StateDB \<Rightarrow> StateDB" where
  "AddBalance a amount s = o_AddBalance a amount (GetOrNewStateObject a s)"

definition SubBalance :: "address \<Rightarrow> int \<Rightarrow> StateDB \<Rightarrow> StateDB" where
  "SubBalance a amount s = o_SubBalance a amount (GetOrNewStateObject a s)"

definition SetBalance :: "address \<Rightarrow> int \<Rightarrow> StateDB \<Rightarrow> StateDB" where
  "SetBalance a amount s = o_SetBalance a amount (GetOrNewStateObject a s)"

definition SetNonce :: "address \<Rightarrow> u64 \<Rightarrow> StateDB \<Rightarrow> StateDB" where
  "SetNonce a nonce s = o_SetNonce a nonce (GetOrNewStateObject a s)"

definition SetCode :: "address \<Rightarrow> string \<Rightarrow> StateDB \<Rightarrow> StateDB" where
  "SetCode a c s = o_SetCode a (hasher s c) c (GetOrNewStateObject a s)"

definition SetState :: "address \<Rightarrow> hash \<Rightarrow> hash \<Rightarrow> StateDB \<Rightarrow> StateDB" where
  "SetState a key v s = o_SetState a key v (GetOrNewStateObject a s)"

definition SetStorage :: "address \<Rightarrow> (hash \<rightharpoonup> hash) \<Rightarrow> StateDB \<Rightarrow> StateDB" where
  "SetStorage a storage s = modify a (obj_SetStorage storage) (GetOrNewStateObject a s)"

definition Suicide :: "address \<Rightarrow> StateDB \<Rightarrow> StateDB \<times> bool" where
  "Suicide a s =
     (case getStateObject s a of
        None \<Rightarrow> (s, False)
      | Some so \<Rightarrow>
          (modify a (\<lambda>ob. setBalance 0 (markSuicided ob))
             (journal_append (suicideChange a (suicided so) (Balance (data so))) s), True))"

definition AddLog :: "Log \<Rightarrow> StateDB \<Rightarrow> StateDB" where
  "AddLog l s =
     (let s1 = journal_append (addLogChange (thash s)) s;
          l1 = l\<lparr>log_TxHash := thash s, log_TxIndex := txIndex s, log_Index := logSize s\<rparr>
      in s1\<lparr>logs := (logs s1)(thash s := logs s1 (thash s) @ [l1]), logSize := logSize s1 + 1\<rparr>)"

definition AddPreimage :: "hash \<Rightarrow> string \<Rightarrow> StateDB \<Rightarrow> StateDB" where
  "AddPreimage h pre s =
     (case preimages s h of
        Some _ \<Rightarrow> s
      | None \<Rightarrow> (let s1 = journal_append (addPreimageChange h) s
                in s1\<lparr>preimages := (preimages s1)(h \<mapsto> pre)\<rparr>))"

definition AddRefund :: "u64 \<Rightarrow> StateDB \<Rightarrow> StateDB" where
  "AddRefund gas s = (journal_append (refundChange (refund s)) s)\<lparr>refund := refund s + gas\<rparr>"

definition SubRefund :: "u64 \<Rightarrow> StateDB \<Rightarrow> StateDB panics" where
  "SubRefund gas s =
     (if gas > refund s then None
      else Some ((journal_append (refundChange (refund s)) s)\<lparr>refund := refund s - gas\<rparr>))"

definition AddAddressToAccessList :: "address \<Rightarrow> StateDB \<Rightarrow> StateDB" where
  "AddAddressToAccessList a s =
     (case AddAddress (accessLst s) a of
        (al, ch) \<Rightarrow> if ch then journal_append (accessListAddAccountChange a) (s\<lparr>accessLst := al\<rparr>)
                    else s\<lparr>accessLst := al\<rparr>)"

definition AddSlotToAccessList :: "address \<Rightarrow> hash \<Rightarrow> StateDB \<Rightarrow> StateDB panics" where
  "AddSlotToAccessList a slot s =
     do { (al, addrMod, slotMod) \<leftarrow> AddSlot (accessLst s) a slot;
          let s1 = s\<lparr>accessLst := al\<rparr>;
          let s2 = (if addrMod then journal_append (accessListAddAccountChange a) s1 else s1);
          Some (if slotMod then journal_append (accessListAddSlotChange a slot) s2 else s2) }"

definition PrepareAccessList ::
  "address \<Rightarrow> address option \<Rightarrow> address list \<Rightarrow> (address \<times> hash list) list \<Rightarrow> StateDB \<Rightarrow> StateDB panics" where
  "PrepareAccessList sender dst precompiles al s =
     (let s1 = AddAddressToAccessList sender s;
          s2 = (case dst of Some d \<Rightarrow> AddAddressToAccessList d s1 | None \<Rightarrow> s1);
          s3 = fold AddAddressToAccessList precompiles s2
      in for_each (\<lambda>(a, keys) t. for_each (AddSlotToAccessList a) keys (AddAddressToAccessList a t)) al s3)"

definition AddressInAccessList :: "address \<Rightarrow> StateDB \<Rightarrow> bool" where
  "AddressInAccessList a s = ContainsAddress (accessLst s) a"

definition SlotInAccessList :: "address \<Rightarrow> hash \<Rightarrow> StateDB \<Rightarrow> (bool \<times> bool) panics" where
  "SlotInAccessList a slot s = Contains (accessLst s) a slot"

subsection \<open>End of a transaction\<close>

definition Prepare :: "hash \<Rightarrow> int \<Rightarrow> StateDB \<Rightarrow> StateDB" where
  "Prepare h ti s = s\<lparr>thash := h, txIndex := ti, accessLst := newAccessList\<rparr>"

definition clearJournalAndRefund :: "StateDB \<Rightarrow> StateDB" where
  "clearJournalAndRefund s =
     (let s1 = (if length (entries s) > 0 then s\<lparr>entries := [], dirties := (\<lambda>_. 0), refund := 0\<rparr> else s)
      in s1\<lparr>validRevisions := []\<rparr>)"

text \<open>The loop over the dirty addresses, each of which changes only its own object.\<close>

definition Finalise :: "bool \<Rightarrow> StateDB \<Rightarrow> StateDB" where
  "Finalise deleteEmptyObjects s =
     (let live = (\<lambda>a. dirties s a \<noteq> 0 \<and> stateObjects s a \<noteq> None);
          step = (\<lambda>ob. if suicided ob \<or> (deleteEmptyObjects \<and> obj_empty (hasher s) ob)
                       then ob\<lparr>deleted := True\<rparr> else obj_finalise ob)
      in clearJournalAndRefund
           (s\<lparr>stateObjects := (\<lambda>a. if dirties s a \<noteq> 0 then map_option step (stateObjects s a) else stateObjects s a),
              stateObjectsPending := (\<lambda>a. stateObjectsPending s a \<or> live a),
              stateObjectsDirty := (\<lambda>a. stateObjectsDirty s a \<or> live a)\<rparr>))"

end
