(* ===== verification/StateRevert.thy ===== *)
theory StateRevert
  imports StateDB
begin

text \<open>
  Snapshots undo: what the journal of theory StateDB owes its users. The locale \<open>undo_log\<close>
  is the contract of an undo log: undoing an entry depends only on the observable part of the
  state. Under it, an operation is undoable when it appends entries whose undoing restores
  what was observable, and undoable operations compose. The locale is interpreted on the
  journal; every setter of the state database is shown undoable.

  \<open>view\<close> is the observable part: every account with its storage, code and flags, the refund,
  logs, preimages, access list, dirty counters and revisions. It identifies a nil pledge,
  exchanger deposit or vote weight with zero and the caches with what they cache. The pools
  (mint counters, exchange, pledge, exchanger, miner and official NFT pools) are not part of
  it: no journal entry covers them.
\<close>

section \<open>Definitions\<close>

definition nz :: "int option \<Rightarrow> int option" where
  "nz x = Some (case x of None \<Rightarrow> 0 | Some v \<Rightarrow> v)"

definition normData :: "Account \<Rightarrow> Account" where
  "normData d = d\<lparr>PledgedBalance := nz (PledgedBalance d), ExchangerBalance := nz (ExchangerBalance d),
     VoteWeight := nz (VoteWeight d)\<rparr>"

definition origin_value :: "(hash \<Rightarrow> hash \<Rightarrow> hash) \<Rightarrow> stateObject \<Rightarrow> hash \<Rightarrow> hash" where
  "origin_value tries ob key =
     (case originStorage ob key of Some v \<Rightarrow> v | None \<Rightarrow> tries (Root (data ob)) key)"

definition normObj :: "keccak \<Rightarrow> (hash \<Rightarrow> string) \<Rightarrow> (hash \<Rightarrow> hash \<Rightarrow> hash) \<Rightarrow> stateObject \<Rightarrow> stateObject" where
  "normObj k codes tries ob = ob\<lparr>data := normData (data ob), code := obj_Code k codes ob,
     originStorage := (\<lambda>key. Some (origin_value tries ob key)),
     dirtyStorage := (\<lambda>key. Some (obj_GetState tries ob key)), dirtyCode := False\<rparr>"

definition view :: "StateDB \<Rightarrow> StateDB" where
  "view s = s\<lparr>stateObjects := (\<lambda>a. map_option (normObj (hasher s) (codeDB s) (storageTries s)) (getDeletedStateObject s a)),
     stateObjectsPending := (\<lambda>_. False), stateObjectsDirty := (\<lambda>_. False), entries := [],
     mintDeep := \<lparr>UserMint = 0, OfficialMint = 0\<rparr>, SNFTExchangePool := [], PledgedTokenPool := [],
     ExchangerTokenPool := [], ActiveMinersPool := [], OfficialNFTPool := [], Nominated := None\<rparr>"

text \<open>Objects sit under their own address and have no fake storage (a debugging device), the
  access list is well formed, and the revision identifiers ascend below the next one.\<close>

definition revs_ok :: "(int \<times> nat) list \<Rightarrow> int \<Rightarrow> bool" where
  "revs_ok vr n \<longleftrightarrow> sorted_wrt (<) (map fst vr) \<and> (\<forall>r \<in> set vr. fst r < n)"

definition obj_ok :: "address \<Rightarrow> stateObject \<Rightarrow> bool" where
  "obj_ok a ob \<longleftrightarrow> obj_address ob = a \<and> fakeStorage ob = None"

definition view_ok :: "StateDB \<Rightarrow> bool" where
  "view_ok v \<longleftrightarrow> (\<forall>a ob. stateObjects v a = Some ob \<longrightarrow> obj_ok a ob)
     \<and> al_ok (accessLst v)
     \<and> revs_ok (validRevisions v) (nextRevisionId v)"

definition wf_state :: "StateDB \<Rightarrow> bool" where
  "wf_state s = view_ok (view s)"

text \<open>The fields no journal entry covers.\<close>

definition pools :: "StateDB \<Rightarrow> MintDeep \<times> SNFTExchange list \<times> PledgedToken list \<times> PledgedToken list
    \<times> ActiveMiner list \<times> InjectedOfficialNFT list \<times> NominatedOfficialNFT option" where
  "pools s = (mintDeep s, SNFTExchangePool s, PledgedTokenPool s, ExchangerTokenPool s, ActiveMinersPool s,
     OfficialNFTPool s, Nominated s)"

text \<open>An operation on the object of an address, for states in which the pointer is live.\<close>

definition live :: "address \<Rightarrow> (StateDB \<Rightarrow> StateDB option) \<Rightarrow> StateDB \<Rightarrow> StateDB option" where
  "live a f s = (if getStateObject s a = None then None else f s)"

text \<open>Methods that depend on the object only through what is observable of it.\<close>

definition obs_only :: "(stateObject \<Rightarrow> stateObject) \<Rightarrow> bool" where
  "obs_only f \<longleftrightarrow> (\<forall>k c tr x y. normObj k c tr x = normObj k c tr y \<longrightarrow> normObj k c tr (f x) = normObj k c tr (f y))"

section \<open>Undo logs\<close>

locale undo_log =
  fixes rev1 :: "'e \<Rightarrow> 's \<Rightarrow> 's option" and jlog :: "'s \<Rightarrow> 'e list"
    and vw :: "'s \<Rightarrow> 'v" and ok :: "'v \<Rightarrow> bool"
  assumes rev1_view: "vw s = vw t \<Longrightarrow> rev1 e s = Some s' \<Longrightarrow> \<exists>t'. rev1 e t = Some t' \<and> vw t' = vw s'"
begin

definition undoable :: "('s \<Rightarrow> 's option) \<Rightarrow> bool" where
  "undoable f \<longleftrightarrow> (\<forall>s s'. ok (vw s) \<longrightarrow> f s = Some s' \<longrightarrow>
     ok (vw s') \<and> (\<exists>es t. jlog s' = jlog s @ es \<and> for_each rev1 (rev es) s' = Some t \<and> vw t = vw s))"

lemma undoableI:
  assumes "\<And>s s'. ok (vw s) \<Longrightarrow> f s = Some s' \<Longrightarrow>
     ok (vw s') \<and> (\<exists>es t. jlog s' = jlog s @ es \<and> for_each rev1 (rev es) s' = Some t \<and> vw t = vw s)"
  shows "undoable f"
  using assms unfolding undoable_def by blast

lemma undoableD:
  assumes "undoable f" and "ok (vw s)" and "f s = Some s'"
  obtains es t where "ok (vw s')" "jlog s' = jlog s @ es" "for_each rev1 (rev es) s' = Some t" "vw t = vw s"
  using assms unfolding undoable_def by blast

lemma undo_view:
  "vw s = vw t \<Longrightarrow> for_each rev1 es s = Some s' \<Longrightarrow> \<exists>t'. for_each rev1 es t = Some t' \<and> vw t' = vw s'"
proof (induction es arbitrary: s t)
  case (Cons e es)
  from Cons.prems obtain u where u: "rev1 e s = Some u" "for_each rev1 es u = Some s'"
    by (auto simp: bind_Some_iff)
  obtain v where v: "rev1 e t = Some v" "vw v = vw u" using rev1_view [OF Cons.prems(1) u(1)] by blast
  then show ?case using Cons.IH [OF v(2) [symmetric] u(2)] by simp
qed simp

lemma undoable_Some: "undoable Some"
  by (rule undoableI) auto

lemma undoable_same:
  assumes "\<And>s s'. f s = Some s' \<Longrightarrow> vw s' = vw s \<and> jlog s' = jlog s"
  shows "undoable f"
  by (rule undoableI) (use assms in fastforce)

lemma undoable_bind:
  assumes "undoable f" and "undoable g"
  shows "undoable (\<lambda>s. Option.bind (f s) g)"
proof (rule undoableI)
  fix s s'' assume ok: "ok (vw s)" and "Option.bind (f s) g = Some s''"
  then obtain s' where f: "f s = Some s'" and g: "g s' = Some s''" by (auto simp: bind_Some_iff)
  obtain es t where 1: "ok (vw s')" "jlog s' = jlog s @ es" "for_each rev1 (rev es) s' = Some t" "vw t = vw s"
    using undoableD [OF assms(1) ok f] .
  obtain es' t' where 2: "ok (vw s'')" "jlog s'' = jlog s' @ es'" "for_each rev1 (rev es') s'' = Some t'" "vw t' = vw s'"
    using undoableD [OF assms(2) 1(1) g] .
  obtain t'' where 3: "for_each rev1 (rev es) t' = Some t''" "vw t'' = vw t"
    using undo_view [OF 2(4) [symmetric] 1(3)] by blast
  have "for_each rev1 (rev (es @ es')) s'' = Some t''"
    using 2(3) 3(1) by (simp add: for_each_append)
  then show "ok (vw s'') \<and> (\<exists>es t. jlog s'' = jlog s @ es \<and> for_each rev1 (rev es) s'' = Some t \<and> vw t = vw s)"
    using 1 2 3 by (intro conjI exI [of _ "es @ es'"] exI [of _ t'']) auto
qed

text \<open>A choice made from the state.\<close>

lemma undoable_choice:
  assumes "\<And>x. undoable (f x)"
  shows "undoable (\<lambda>s. f (q s) s)"
  using assms unfolding undoable_def by blast

lemma undoable_if:
  assumes "undoable f" and "undoable g"
  shows "undoable (\<lambda>s. if P s then f s else g s)"
  using undoable_choice [of "\<lambda>b. if b then f else g" P] assms by (simp add: if_distribR)

lemma undoable_None: "undoable (\<lambda>s. None)"
  by (rule undoableI) simp

lemma undoable_option:
  assumes "undoable f" and "\<And>x. undoable (g x)"
  shows "undoable (\<lambda>s. case q s of None \<Rightarrow> f s | Some x \<Rightarrow> g x s)"
proof (rule undoable_choice [of "\<lambda>r s. case r of None \<Rightarrow> f s | Some x \<Rightarrow> g x s" q])
  show "undoable (\<lambda>s. case r of None \<Rightarrow> f s | Some x \<Rightarrow> g x s)" for r
    by (cases r) (simp_all add: assms)
qed

lemma undoable_guard:
  assumes "undoable f" and "\<And>s s'. g s = Some s' \<Longrightarrow> f s = Some s'"
  shows "undoable g"
  using assms unfolding undoable_def by blast

lemma undoable_for_each: "(\<And>x. undoable (f x)) \<Longrightarrow> undoable (for_each f xs)"
proof (induction xs)
  case Nil
  have "for_each f [] = Some" by (rule ext) simp
  then show ?case using undoable_Some by simp
next
  case (Cons x xs)
  have "for_each f (x # xs) = (\<lambda>s. Option.bind (f x s) (for_each f xs))" by (rule ext) simp
  then show ?case using undoable_bind [of "f x" "for_each f xs"] Cons by simp
qed

end

section \<open>Observable state\<close>

lemma getDeletedStateObject_simps [lookup_simps]:
  "getDeletedStateObject (modify a f s) b = (if b = a then Some (f (deref s a)) else getDeletedStateObject s b)"
  "getDeletedStateObject (setStateObject ob s) b = (if b = obj_address ob then Some ob else getDeletedStateObject s b)"
  "getDeletedStateObject (journal_append e s) b = getDeletedStateObject s b"
  "getDeletedStateObject (s\<lparr>dirties := d\<rparr>) b = getDeletedStateObject s b"
  "getDeletedStateObject (s\<lparr>entries := es\<rparr>) b = getDeletedStateObject s b"
  "getDeletedStateObject (s\<lparr>refund := r\<rparr>) b = getDeletedStateObject s b"
  "getDeletedStateObject (s\<lparr>logs := lg\<rparr>) b = getDeletedStateObject s b"
  "getDeletedStateObject (s\<lparr>logSize := ls\<rparr>) b = getDeletedStateObject s b"
  "getDeletedStateObject (s\<lparr>preimages := pr\<rparr>) b = getDeletedStateObject s b"
  "getDeletedStateObject (s\<lparr>accessLst := al\<rparr>) b = getDeletedStateObject s b"
  "getDeletedStateObject (s\<lparr>validRevisions := vr\<rparr>) b = getDeletedStateObject s b"
  "getDeletedStateObject (s\<lparr>nextRevisionId := n\<rparr>) b = getDeletedStateObject s b"
  "getDeletedStateObject (s\<lparr>stateObjectsDirty := sd\<rparr>) b = getDeletedStateObject s b"
  "getDeletedStateObject (s\<lparr>stateObjects := (stateObjects s)(a := None)\<rparr>) b =
     (if b = a then (case trie s a of None \<Rightarrow> None | Some enc \<Rightarrow> Some (newObject a (decodeAccount enc)))
      else getDeletedStateObject s b)"
  by (auto simp: getDeletedStateObject_def modify_def setStateObject_def journal_append_def Let_def
      split: option.splits)

lemma deref_append [lookup_simps]: "deref (journal_append e s) a = deref s a"
  by (auto simp: deref_def getDeletedStateObject_simps journal_append_def Let_def split: option.splits)

lemma deref_modify [lookup_simps]: "deref (modify a f s) b = (if b = a then f (deref s a) else deref s b)"
  by (simp add: deref_def getDeletedStateObject_simps modify_def [of _ _ s] split: option.split)
     (simp add: getDeletedStateObject_def split: option.split)

lemma getStateObject_iff:
  "getStateObject s a = Some ob \<longleftrightarrow> getDeletedStateObject s a = Some ob \<and> \<not> deleted ob"
  by (auto simp: getStateObject_def split: option.splits if_splits)

lemma deref_get: "getStateObject s a = Some ob \<Longrightarrow> deref s a = ob"
  by (simp add: getStateObject_iff deref_def)

text \<open>The fields \<open>journal_append\<close> and \<open>modify\<close> leave alone.\<close>

lemma journal_append_frame [frame_simps]:
  "trie (journal_append e s) = trie s" "storageTries (journal_append e s) = storageTries s"
  "codeDB (journal_append e s) = codeDB s" "hasher (journal_append e s) = hasher s"
  "stateObjects (journal_append e s) = stateObjects s"
  "refund (journal_append e s) = refund s" "thash (journal_append e s) = thash s"
  "txIndex (journal_append e s) = txIndex s" "logs (journal_append e s) = logs s"
  "logSize (journal_append e s) = logSize s" "preimages (journal_append e s) = preimages s"
  "accessLst (journal_append e s) = accessLst s" "entries (journal_append e s) = entries s @ [e]"
  "validRevisions (journal_append e s) = validRevisions s"
  "nextRevisionId (journal_append e s) = nextRevisionId s"
  "dirties (journal_append e s) = (case dirtied e of None \<Rightarrow> dirties s | Some a \<Rightarrow> (dirties s)(a := dirties s a + 1))"
  by (auto simp: journal_append_def Let_def split: option.splits)

lemma modify_frame [frame_simps]:
  "trie (modify a f s) = trie s" "storageTries (modify a f s) = storageTries s"
  "codeDB (modify a f s) = codeDB s" "hasher (modify a f s) = hasher s"
  "refund (modify a f s) = refund s" "thash (modify a f s) = thash s"
  "txIndex (modify a f s) = txIndex s" "logs (modify a f s) = logs s"
  "logSize (modify a f s) = logSize s" "preimages (modify a f s) = preimages s"
  "accessLst (modify a f s) = accessLst s" "entries (modify a f s) = entries s"
  "validRevisions (modify a f s) = validRevisions s"
  "nextRevisionId (modify a f s) = nextRevisionId s" "dirties (modify a f s) = dirties s"
  by (simp_all add: modify_def)

lemma setStateObject_frame [frame_simps]:
  "trie (setStateObject ob s) = trie s" "storageTries (setStateObject ob s) = storageTries s"
  "codeDB (setStateObject ob s) = codeDB s" "hasher (setStateObject ob s) = hasher s"
  "refund (setStateObject ob s) = refund s" "thash (setStateObject ob s) = thash s"
  "txIndex (setStateObject ob s) = txIndex s" "logs (setStateObject ob s) = logs s"
  "logSize (setStateObject ob s) = logSize s" "preimages (setStateObject ob s) = preimages s"
  "accessLst (setStateObject ob s) = accessLst s" "entries (setStateObject ob s) = entries s"
  "validRevisions (setStateObject ob s) = validRevisions s"
  "nextRevisionId (setStateObject ob s) = nextRevisionId s" "dirties (setStateObject ob s) = dirties s"
  by (simp_all add: setStateObject_def)

lemma view_eq_iff:
  "view s = view t \<longleftrightarrow>
     trie s = trie t \<and> storageTries s = storageTries t \<and> codeDB s = codeDB t \<and> hasher s = hasher t
     \<and> (\<forall>a. map_option (normObj (hasher t) (codeDB t) (storageTries t)) (getDeletedStateObject s a)
          = map_option (normObj (hasher t) (codeDB t) (storageTries t)) (getDeletedStateObject t a))
     \<and> refund s = refund t \<and> thash s = thash t \<and> txIndex s = txIndex t \<and> logs s = logs t
     \<and> logSize s = logSize t \<and> preimages s = preimages t \<and> accessLst s = accessLst t
     \<and> dirties s = dirties t \<and> validRevisions s = validRevisions t \<and> nextRevisionId s = nextRevisionId t"
  (is "_ = ?R")
proof
  assume v: "view s = view t"
  note c = arg_cong [OF v]
  have e: "hasher s = hasher t" "codeDB s = codeDB t" "storageTries s = storageTries t"
    using c [of hasher] c [of codeDB] c [of storageTries] by (simp_all add: view_def)
  have "map_option (normObj (hasher t) (codeDB t) (storageTries t)) (getDeletedStateObject s a)
      = map_option (normObj (hasher t) (codeDB t) (storageTries t)) (getDeletedStateObject t a)" for a
    using fun_cong [OF c [of stateObjects], of a] by (simp add: view_def e)
  then show ?R
    using e c [of trie] c [of refund] c [of thash] c [of txIndex] c [of logs] c [of logSize]
      c [of preimages] c [of accessLst] c [of dirties] c [of validRevisions] c [of nextRevisionId]
    by (simp add: view_def)
next
  assume ?R then show "view s = view t"
    by (intro StateDB.equality) (simp_all add: view_def)
qed

lemma normObj_eq_iff:
  "normObj k c tr x = normObj k c tr y \<longleftrightarrow>
     obj_address x = obj_address y \<and> normData (data x) = normData (data y)
     \<and> obj_Code k c x = obj_Code k c y
     \<and> (\<forall>key. origin_value tr x key = origin_value tr y key)
     \<and> pendingStorage x = pendingStorage y \<and> (\<forall>key. obj_GetState tr x key = obj_GetState tr y key)
     \<and> fakeStorage x = fakeStorage y \<and> suicided x = suicided y \<and> deleted x = deleted y"
  (is "_ = ?R")
proof
  assume v: "normObj k c tr x = normObj k c tr y"
  note e = arg_cong [OF v]
  show ?R
    using e [of obj_address] e [of data] e [of code] e [of originStorage] e [of pendingStorage]
      e [of dirtyStorage] e [of fakeStorage] e [of suicided] e [of deleted]
    by (simp add: normObj_def fun_eq_iff)
next
  assume ?R then show "normObj k c tr x = normObj k c tr y"
    by (intro stateObject.equality) (simp_all add: normObj_def fun_eq_iff)
qed

text \<open>A change of the account data only, other than of the storage root and the code hash.\<close>

lemma obj_data_simps [simp]:
  "Root d = Root (data x) \<Longrightarrow> obj_GetState tr (x\<lparr>data := d\<rparr>) = obj_GetState tr x"
  "CodeHash d = CodeHash (data x) \<Longrightarrow> obj_Code k c (x\<lparr>data := d\<rparr>) = obj_Code k c x"
  "Root d = Root (data x) \<Longrightarrow> origin_value tr (x\<lparr>data := d\<rparr>) = origin_value tr x"
  by (auto simp: origin_value_def obj_GetState_def obj_GetCommittedState_def obj_Code_def fun_eq_iff split: option.splits)

lemma normData_eq_iff:
  "normData d = normData e \<longleftrightarrow>
     Nonce d = Nonce e \<and> Balance d = Balance e \<and> Root d = Root e \<and> CodeHash d = CodeHash e
     \<and> ExchangerFlag d = ExchangerFlag e \<and> BlockNumber d = BlockNumber e \<and> FeeRate d = FeeRate e \<and> ExchangerName d = ExchangerName e
     \<and> ExchangerURL d = ExchangerURL e \<and> ApproveAddressList d = ApproveAddressList e \<and> NFTBalance d = NFTBalance e \<and> NFT d = NFT e
     \<and> nz (PledgedBalance d) = nz (PledgedBalance e) \<and> nz (ExchangerBalance d) = nz (ExchangerBalance e) \<and> nz (VoteWeight d) = nz (VoteWeight e)"
  (is "_ = ?R")
proof
  assume v: "normData d = normData e"
  note c = arg_cong [OF v]
  show ?R
    using c [of Nonce] c [of Balance] c [of Root] c [of CodeHash] c [of ExchangerFlag] c [of BlockNumber] c [of FeeRate] c [of ExchangerName] c [of ExchangerURL] c [of ApproveAddressList] c [of NFTBalance] c [of NFT] c [of PledgedBalance] c [of ExchangerBalance] c [of VoteWeight]
    by (simp add: normData_def)
next
  assume ?R then show "normData d = normData e"
    by (intro Account.equality) (simp_all add: normData_def)
qed

lemma obs_onlyI_data:
  assumes "\<And>x. f x = x\<lparr>data := g (data x)\<rparr>"
    and "\<And>d e. normData d = normData e \<Longrightarrow> normData (g d) = normData (g e)"
    and "\<And>d. Root (g d) = Root d" and "\<And>d. CodeHash (g d) = CodeHash d"
  shows "obs_only f"
  unfolding obs_only_def
proof (intro allI impI)
  fix k c tr x y
  assume n: "normObj k c tr x = normObj k c tr y"
  then have "normData (g (data x)) = normData (g (data y))"
    by (intro assms(2)) (simp add: normObj_eq_iff)
  with n show "normObj k c tr (f x) = normObj k c tr (f y)"
    by (simp add: assms(1) normObj_eq_iff assms(3,4))
qed

lemma obs_only_setters [undo_intros]:
  "obs_only (setBalance v)" "obs_only (setNonce n)" "obs_only (updNFT h)"
  "obs_only (setJournalApproveAddress l)" "obs_only (setExchangerInfo fl b r na u)"
  "obs_only (setPledgedBalance v)" "obs_only (setExchangerBalance v)" "obs_only (setVoteWeight v)"
proof -
  note defs = normData_eq_iff setBalance_def setNonce_def updNFT_def setJournalApproveAddress_eq
    setExchangerInfo_def setPledgedBalance_def setExchangerBalance_def setVoteWeight_def
  show "obs_only (setBalance v)"
    by (rule obs_onlyI_data [where g = "\<lambda>d. d\<lparr>Balance := v\<rparr>"]) (simp_all add: defs)
  show "obs_only (setNonce n)"
    by (rule obs_onlyI_data [where g = "\<lambda>d. d\<lparr>Nonce := n\<rparr>"]) (simp_all add: defs)
  show "obs_only (updNFT h)"
    by (rule obs_onlyI_data [where g = "\<lambda>d. d\<lparr>NFT := h (NFT d)\<rparr>"]) (simp_all add: defs)
  show "obs_only (setJournalApproveAddress l)"
    by (rule obs_onlyI_data [where g = "\<lambda>d. d\<lparr>ApproveAddressList := l\<rparr>"]) (simp_all add: defs)
  show "obs_only (setExchangerInfo fl b r na u)"
    by (rule obs_onlyI_data [where g = "\<lambda>d. d\<lparr>ExchangerFlag := fl, BlockNumber := b, FeeRate := r,
          ExchangerName := na, ExchangerURL := u\<rparr>"]) (simp_all add: defs)
  show "obs_only (setPledgedBalance v)"
    by (rule obs_onlyI_data [where g = "\<lambda>d. d\<lparr>PledgedBalance := Some v\<rparr>"]) (simp_all add: defs)
  show "obs_only (setExchangerBalance v)"
    by (rule obs_onlyI_data [where g = "\<lambda>d. d\<lparr>ExchangerBalance := Some v\<rparr>"]) (simp_all add: defs)
  show "obs_only (setVoteWeight v)"
    by (rule obs_onlyI_data [where g = "\<lambda>d. d\<lparr>VoteWeight := Some v\<rparr>"]) (simp_all add: defs)
qed

lemma obs_only_NFT_setters [undo_intros]:
  "obs_only (setOwner p)" "obs_only (setJournalNFTApproveAddress p)"
  "obs_only (setJournalNFTInfo n sy pr di ow ap ml cr ro ex mu)"
  by (simp_all add: setOwner_def setJournalNFTApproveAddress_def setJournalNFTInfo_def obs_only_setters)

lemma obs_only_setState [undo_intros]: "obs_only (obj_setState key v)"
proof -
  have "obj_GetState tr (obj_setState key v x) k =
      (if fakeStorage x = None \<and> k = key then v else obj_GetState tr x k)" for tr x k
    by (simp add: obj_setState_def obj_GetState_def obj_GetCommittedState_def split: option.split)
  moreover have "obj_Code k c (obj_setState key v x) = obj_Code k c x" for k c x
    by (simp add: obj_setState_def obj_Code_def split: option.split)
  moreover have "origin_value tr (obj_setState key v x) = origin_value tr x" for tr x
    by (rule ext) (simp add: obj_setState_def origin_value_def split: option.split)
  ultimately show ?thesis
    unfolding obs_only_def normObj_eq_iff by (auto simp: obj_setState_def)
qed

lemma obs_only_setCode [undo_intros]: "obs_only (setCode h c)"
proof -
  have "obj_GetState tr (setCode h c x) = obj_GetState tr x" for tr x
    by (rule ext) (simp add: setCode_def obj_GetState_def obj_GetCommittedState_def split: option.split)
  moreover have "obj_Code k cs (setCode h c x) =
      (case c of Some c \<Rightarrow> Some c | None \<Rightarrow> if h = emptyCodeHash k then None else Some (cs h))" for k cs x
    by (simp add: setCode_def obj_Code_def split: option.split)
  moreover have "origin_value tr (setCode h c x) = origin_value tr x" for tr x
    by (rule ext) (simp add: setCode_def origin_value_def split: option.split)
  ultimately show ?thesis
    unfolding obs_only_def normObj_eq_iff normData_eq_iff by (simp add: setCode_def)
qed

lemma obs_only_comp: "obs_only f \<Longrightarrow> obs_only g \<Longrightarrow> obs_only (\<lambda>x. f (g x))"
  unfolding obs_only_def by blast

lemma obs_only_suicided [undo_intros]: "obs_only (\<lambda>ob. setBalance b (ob\<lparr>suicided := p\<rparr>))"
proof (rule obs_only_comp [where f = "setBalance b" and g = "\<lambda>ob. ob\<lparr>suicided := p\<rparr>"])
  have "obj_GetState tr (x\<lparr>suicided := p\<rparr>) = obj_GetState tr x" for tr x
    by (rule ext) (simp add: obj_GetState_def obj_GetCommittedState_def split: option.split)
  moreover have "obj_Code k c (x\<lparr>suicided := p\<rparr>) = obj_Code k c x"
    "origin_value tr (x\<lparr>suicided := p\<rparr>) = origin_value tr x" for k c tr x
    by (simp_all add: obj_Code_def origin_value_def fun_eq_iff split: option.split)
  ultimately show "obs_only (\<lambda>ob. ob\<lparr>suicided := p\<rparr>)"
    unfolding obs_only_def normObj_eq_iff by simp
qed (rule obs_only_setters)

section \<open>The journal is an undo log\<close>

lemma view_get:
  assumes "view s = view t"
  shows "getStateObject s a = None \<longleftrightarrow> getStateObject t a = None"
proof -
  let ?n = "normObj (hasher t) (codeDB t) (storageTries t)"
  have "map_option ?n (getDeletedStateObject s a) = map_option ?n (getDeletedStateObject t a)"
    using assms by (simp add: view_eq_iff)
  then show ?thesis
    by (cases "getDeletedStateObject s a"; cases "getDeletedStateObject t a")
       (auto simp: getStateObject_def normObj_eq_iff)
qed

lemma view_deref:
  assumes "view s = view t"
  shows "normObj (hasher t) (codeDB t) (storageTries t) (deref s a) =
    normObj (hasher t) (codeDB t) (storageTries t) (deref t a)"
proof -
  let ?n = "normObj (hasher t) (codeDB t) (storageTries t)"
  have "map_option ?n (getDeletedStateObject s a) = map_option ?n (getDeletedStateObject t a)"
    "hasher s = hasher t" using assms by (simp_all add: view_eq_iff)
  then show ?thesis
    by (cases "getDeletedStateObject s a"; cases "getDeletedStateObject t a") (auto simp: deref_def)
qed

lemma view_modify:
  assumes "obs_only f" and "view s = view t"
  shows "view (modify a f s) = view (modify a f t)"
proof -
  have "normObj (hasher t) (codeDB t) (storageTries t) (f (deref s a)) =
    normObj (hasher t) (codeDB t) (storageTries t) (f (deref t a))"
    using assms(1) view_deref [OF assms(2)] unfolding obs_only_def by blast
  then show ?thesis
    using assms(2) by (simp add: view_eq_iff frame_simps lookup_simps)
qed

lemma on_object_view:
  assumes "obs_only f" and "view s = view t" and "on_object a f s = Some s'"
  shows "\<exists>t'. on_object a f t = Some t' \<and> view t' = view s'"
  using assms view_get [OF assms(2), of a] view_modify [OF assms(1,2), of a]
  by (auto simp: on_object_def split: option.splits)

text \<open>The entries that call a setter on the object of their address.\<close>

lemma revert_on_object:
  "revert (balanceChange a p) = on_object a (setBalance p)"
  "revert (nonceChange a n) = on_object a (setNonce n)"
  "revert (codeChange a c h) = on_object a (setCode h c)"
  "revert (storageChange a k v) = on_object a (obj_setState k v)"
  "revert (nftOwnerChange a w) = on_object a (setOwner w)"
  "revert (nftApproveAddressChange a l) = on_object a (setJournalApproveAddress l)"
  "revert (nftApproveAddressChangeOne a w) = on_object a (setJournalNFTApproveAddress w)"
  "revert (openExchangerChange a f b r na u) = on_object a (setExchangerInfo f b r na u)"
  "revert (nftInfoChange a na sy ow ap ml cr ro ex mu) = on_object a (setJournalNFTInfo na sy None 0 ow ap ml cr ro ex mu)"
  "revert (pledgedBalanceChange a p) = on_object a (setPledgedBalance p)"
  "revert (exchangerBalanceChange a p) = on_object a (setExchangerBalance p)"
  "revert (voteWeightChange a p) = on_object a (setVoteWeight p)"
  by (rule ext, simp)+

lemma revert_view:
  assumes "view s = view t" and "revert e s = Some s'"
  shows "\<exists>t'. revert e t = Some t' \<and> view t' = view s'"
proof (cases "\<exists>a f. obs_only f \<and> revert e = on_object a f")
  case True
  then show ?thesis using on_object_view [OF _ assms(1)] assms(2) by auto
next
  case False
  note v = assms(1) [unfolded view_eq_iff]
  show ?thesis
  proof (cases e)
    case (createObjectChange a)
    then show ?thesis using assms(2) v by (auto simp: view_eq_iff lookup_simps)
  next
    case (resetObjectChange p d)
    then show ?thesis using assms(2) v by (auto simp: view_eq_iff lookup_simps frame_simps)
  next
    case (suicideChange a p b)
    then show ?thesis
      using assms view_get [OF assms(1), of a] view_modify [OF obs_only_suicided assms(1)]
      by (auto split: option.splits)
  next
    case (accessListAddSlotChange a k)
    then show ?thesis using assms(2) v by (auto simp: view_eq_iff lookup_simps bind_Some_iff)
  next
    case (refundChange p)
    then show ?thesis using assms(2) v by (auto simp: view_eq_iff lookup_simps)
  next
    case (addLogChange h)
    then show ?thesis using assms(2) v by (auto simp: view_eq_iff lookup_simps split: if_splits)
  next
    case (addPreimageChange h)
    then show ?thesis using assms(2) v by (auto simp: view_eq_iff lookup_simps)
  next
    case (accessListAddAccountChange a)
    then show ?thesis using assms(2) v by (auto simp: view_eq_iff lookup_simps)
  next
    case (touchChange a)
    then show ?thesis using assms by auto
  qed (metis False revert_on_object undo_intros)+
qed

lemma view_dirties:
  "view u = view v \<Longrightarrow> view (u\<lparr>dirties := f (dirties u)\<rparr>) = view (v\<lparr>dirties := f (dirties v)\<rparr>)"
  by (simp add: view_eq_iff lookup_simps)

lemma revert_one_view:
  assumes "view s = view t" and "revert_one e s = Some s'"
  shows "\<exists>t'. revert_one e t = Some t' \<and> view t' = view s'"
proof -
  obtain u where u: "revert e s = Some u"
    "s' = (case dirtied e of None \<Rightarrow> u | Some a \<Rightarrow> u\<lparr>dirties := (dirties u)(a := dirties u a - 1)\<rparr>)"
    using assms(2) by (auto simp: revert_one_def bind_Some_iff)
  obtain v where v: "revert e t = Some v" "view v = view u"
    using revert_view [OF assms(1) u(1)] by blast
  show ?thesis
  proof (cases "dirtied e")
    case None
    then show ?thesis using v by (simp add: revert_one_def u(2))
  next
    case (Some a)
    then show ?thesis
      using v(1) view_dirties [OF v(2), of "\<lambda>d. d(a := d a - 1)"] by (simp add: revert_one_def u(2))
  qed
qed

interpretation journal: undo_log revert_one entries view view_ok
  by unfold_locales (rule revert_one_view)

lemma view_fields [simp]:
  "stateObjects (view s) a = map_option (normObj (hasher s) (codeDB s) (storageTries s)) (getDeletedStateObject s a)"
  "accessLst (view s) = accessLst s" "validRevisions (view s) = validRevisions s"
  "nextRevisionId (view s) = nextRevisionId s"
  by (simp_all add: view_def)

lemma normObj_fields [simp]:
  "obj_address (normObj k c tr ob) = obj_address ob" "deleted (normObj k c tr ob) = deleted ob"
  "fakeStorage (normObj k c tr ob) = fakeStorage ob"
  by (simp_all add: normObj_def)

lemma wf_state_iff:
  "wf_state s \<longleftrightarrow>
     (\<forall>a ob. getDeletedStateObject s a = Some ob \<longrightarrow> obj_ok a ob)
     \<and> al_ok (accessLst s)
     \<and> revs_ok (validRevisions s) (nextRevisionId s)"
proof -
  have "(\<forall>ob. map_option (normObj (hasher s) (codeDB s) (storageTries s)) r = Some ob \<longrightarrow> obj_ok a ob)
      = (\<forall>ob. r = Some ob \<longrightarrow> obj_ok a ob)" for r a
    by (cases r) (simp_all add: obj_ok_def)
  then show ?thesis unfolding wf_state_def view_ok_def by simp
qed

lemma wf_objD: "wf_state s \<Longrightarrow> getDeletedStateObject s a = Some ob \<Longrightarrow> obj_ok a ob"
  by (simp add: wf_state_iff)

lemma journal_undoableI:
  assumes "\<And>s s'. wf_state s \<Longrightarrow> f s = Some s' \<Longrightarrow>
    wf_state s' \<and> (\<exists>es t. entries s' = entries s @ es \<and> for_each revert_one (rev es) s' = Some t \<and> view t = view s)"
  shows "journal.undoable f"
  using assms unfolding wf_state_def by (intro journal.undoableI) blast

section \<open>Undoable operations\<close>

text \<open>A journaled change of one object, undone by a setter on the same object.\<close>

lemma undoable_modify:
  assumes rev: "\<And>s. revert (E s) = on_object a (G s)" and dir: "\<And>s. dirtied (E s) = Some a"
    and same: "\<And>s ob. obj_address (F s ob) = obj_address ob \<and> deleted (F s ob) = deleted ob
      \<and> fakeStorage (F s ob) = fakeStorage ob"
    and norm: "\<And>s ob. getStateObject s a = Some ob \<Longrightarrow>
      normObj (hasher s) (codeDB s) (storageTries s) (G s (F s ob)) = normObj (hasher s) (codeDB s) (storageTries s) ob"
  shows "journal.undoable (live a (\<lambda>s. Some (modify a (F s) (journal_append (E s) s))))"
proof (rule journal_undoableI)
  fix s s'
  assume wf: "wf_state s" and s': "live a (\<lambda>s. Some (modify a (F s) (journal_append (E s) s))) s = Some s'"
  then obtain ob where ob: "getStateObject s a = Some ob" by (auto simp: live_def split: if_splits)
  note get = ob [unfolded getStateObject_iff] and de = deref_get [OF ob]
  have s'_eq: "s' = modify a (F s) (journal_append (E s) s)" using s' ob by (simp add: live_def)
  have get': "getStateObject s' a = Some (F s ob)"
    using get same by (simp add: s'_eq getStateObject_iff lookup_simps de)
  have de': "deref s' a = F s ob" by (rule deref_get [OF get'])
  let ?t = "(modify a (G s) s')\<lparr>dirties := dirties s\<rparr>"
  have "revert_one (E s) s' = Some ?t"
    using get' by (simp add: revert_one_def rev dir on_object_def frame_simps s'_eq)
  moreover have "view ?t = view s"
    using get norm [OF ob] by (simp add: view_eq_iff frame_simps lookup_simps de s'_eq)
  moreover have "wf_state s'"
    using wf wf_objD [OF wf, of a ob] get same
    by (auto simp: wf_state_iff s'_eq frame_simps lookup_simps de obj_ok_def [of a])
  ultimately show "wf_state s' \<and>
    (\<exists>es t. entries s' = entries s @ es \<and> for_each revert_one (rev es) s' = Some t \<and> view t = view s)"
    by (intro conjI exI [of _ "[E s]"] exI [of _ ?t]) (simp_all add: s'_eq frame_simps)
qed

lemmas setter_defs = setBalance_def setNonce_def updNFT_def setOwner_def setNFTApproveAddress_def
  setJournalNFTApproveAddress_def removeNFTApproveAddress_def setExchangerInfo_def cleanNFT_def
  setNFTInfo_def setJournalNFTInfo_def setPledgedBalance_def setExchangerBalance_def setVoteWeight_def
  setApproveAddress_def setJournalApproveAddress_eq removeApproveAddress_def

lemma undo_o_SetBalance [undo_intros]: "journal.undoable (live a (\<lambda>s. Some (o_SetBalance a v s)))"
  unfolding o_SetBalance_def
  by (rule undoable_modify [where G = "\<lambda>s. setBalance (Balance (data (deref s a)))"])
     (simp_all add: revert_on_object setter_defs deref_get)

lemma undo_o_SetNonce [undo_intros]: "journal.undoable (live a (\<lambda>s. Some (o_SetNonce a v s)))"
  unfolding o_SetNonce_def
  by (rule undoable_modify [where G = "\<lambda>s. setNonce (Nonce (data (deref s a)))"])
     (simp_all add: revert_on_object setter_defs deref_get)

lemma undo_o_SetOwner [undo_intros]: "journal.undoable (live a (\<lambda>s. Some (o_SetOwner a v s)))"
  unfolding o_SetOwner_def
  by (rule undoable_modify [where G = "\<lambda>s. setOwner (Owner (NFT (data (deref s a))))"])
     (simp_all add: revert_on_object setter_defs deref_get)

lemma undo_o_SetNFTApproveAddress [undo_intros]:
  "journal.undoable (live a (\<lambda>s. Some (o_SetNFTApproveAddress a v s)))"
  unfolding o_SetNFTApproveAddress_def
  by (rule undoable_modify [where
        G = "\<lambda>s. setJournalNFTApproveAddress (NFTApproveAddressList (NFT (data (deref s a))))"])
     (simp_all add: revert_on_object setter_defs deref_get)

lemma undo_o_SetExchangerInfo [undo_intros]:
  "journal.undoable (live a (\<lambda>s. Some (o_SetExchangerInfo a f b r n u s)))"
  unfolding o_SetExchangerInfo_def Let_def
  by (rule undoable_modify [where G = "\<lambda>s. let d = data (deref s a) in
        setExchangerInfo (ExchangerFlag d) (BlockNumber d) (FeeRate d) (ExchangerName d) (ExchangerURL d)"])
     (simp_all add: Let_def revert_on_object setter_defs deref_get)

lemma undo_o_CleanNFT [undo_intros]: "journal.undoable (live a (\<lambda>s. Some (o_CleanNFT a s)))"
  unfolding o_CleanNFT_def
  by (rule undoable_modify [where G = "\<lambda>s. let n = NFT (data (deref s a)) in
        setJournalNFTInfo (Name n) (Symbol n) None 0 (Owner n) (NFTApproveAddressList n)
          (MergeLevel n) (Creator n) (Royalty n) (Exchanger n) (MetaURL n)"])
     (simp_all add: Let_def revert_on_object nftInfo_entry_def setter_defs deref_get)

lemma undo_o_SetNFTInfo [undo_intros]:
  "journal.undoable (live a (\<lambda>s. Some (o_SetNFTInfo a na sy pr di ow ap ml cr ro ex mu s)))"
  unfolding o_SetNFTInfo_def
  by (rule undoable_modify [where G = "\<lambda>s. let n = NFT (data (deref s a)) in
        setJournalNFTInfo (Name n) (Symbol n) None 0 (Owner n) (NFTApproveAddressList n)
          (MergeLevel n) (Creator n) (Royalty n) (Exchanger n) (MetaURL n)"])
     (simp_all add: Let_def revert_on_object nftInfo_entry_def setter_defs deref_get)

lemma undo_o_SetPledgedBalance [undo_intros]:
  "journal.undoable (live a (\<lambda>s. Some (o_SetPledgedBalance a v s)))"
  unfolding o_SetPledgedBalance_def
  by (rule undoable_modify [where G = "\<lambda>s. setPledgedBalance
        (case PledgedBalance (data (deref s a)) of None \<Rightarrow> 0 | Some x \<Rightarrow> x)"])
     (simp_all add: revert_on_object setter_defs deref_get normObj_eq_iff normData_eq_iff nz_def)

lemma undo_o_SetExchangerBalance [undo_intros]:
  "journal.undoable (live a (\<lambda>s. Some (o_SetExchangerBalance a v s)))"
  unfolding o_SetExchangerBalance_def
  by (rule undoable_modify [where G = "\<lambda>s. setExchangerBalance
        (case ExchangerBalance (data (deref s a)) of None \<Rightarrow> 0 | Some x \<Rightarrow> x)"])
     (simp_all add: revert_on_object setter_defs deref_get normObj_eq_iff normData_eq_iff nz_def)

lemma undo_o_SetVoteWeight [undo_intros]:
  "journal.undoable (live a (\<lambda>s. Some (o_SetVoteWeight a v s)))"
  unfolding o_SetVoteWeight_def
  by (rule undoable_modify [where G = "\<lambda>s. setVoteWeight
        (case VoteWeight (data (deref s a)) of None \<Rightarrow> 0 | Some x \<Rightarrow> x)"])
     (simp_all add: revert_on_object setter_defs deref_get normObj_eq_iff normData_eq_iff nz_def)

lemma undo_approve_list:
  assumes "\<And>s ob. obj_address (F s ob) = obj_address ob \<and> deleted (F s ob) = deleted ob
      \<and> fakeStorage (F s ob) = fakeStorage ob"
    and "\<And>s ob l. setJournalApproveAddress l (F s ob) = setJournalApproveAddress l ob"
  shows "journal.undoable (live a (\<lambda>s. Some (modify a (F s)
     (journal_append (nftApproveAddressChange a (ApproveAddressList (data (deref s a)))) s))))"
  by (rule undoable_modify [where G = "\<lambda>s. setJournalApproveAddress (ApproveAddressList (data (deref s a)))"])
     (simp_all add: revert_on_object assms deref_get, simp add: setJournalApproveAddress_eq)

lemma undo_SetCode_live:
  "journal.undoable (live a (\<lambda>s. Some (o_SetCode a h c s)))"
  unfolding o_SetCode_def Let_def
proof (rule undoable_modify [where G = "\<lambda>s. setCode (CodeHash (data (deref s a)))
    (obj_Code (hasher s) (codeDB s) (deref s a))"])
  fix s ob assume "getStateObject s a = Some ob"
  then have de: "deref s a = ob" by (rule deref_get)
  let ?x = "setCode (CodeHash (data ob)) (obj_Code (hasher s) (codeDB s) ob) (setCode h (Some c) ob)"
  have "obj_GetState tr ?x = obj_GetState tr ob" "origin_value tr ?x = origin_value tr ob" for tr
    by (auto simp: setCode_def obj_GetState_def obj_GetCommittedState_def origin_value_def fun_eq_iff
        split: option.split)
  moreover have "obj_Code (hasher s) (codeDB s) ?x = obj_Code (hasher s) (codeDB s) ob"
    by (auto simp: setCode_def obj_Code_def split: option.split)
  ultimately show "normObj (hasher s) (codeDB s) (storageTries s)
        (setCode (CodeHash (data (deref s a))) (obj_Code (hasher s) (codeDB s) (deref s a)) (setCode h (Some c) ob))
      = normObj (hasher s) (codeDB s) (storageTries s) ob"
    by (simp add: de normObj_eq_iff) (simp add: setCode_def normData_eq_iff)
qed (simp_all add: revert_on_object setCode_def)

subsection \<open>Combining operations on live objects\<close>

lemma undo_live_Some [undo_intros]: "journal.undoable (live a Some)"
  by (rule journal.undoable_guard [OF journal.undoable_Some]) (simp add: live_def split: if_splits)

lemma undo_live_if:
  assumes "journal.undoable (live a F)" and "journal.undoable (live a G)"
  shows "journal.undoable (live a (\<lambda>s. if P s then F s else G s))"
proof -
  have "live a (\<lambda>s. if P s then F s else G s) = (\<lambda>s. if P s then live a F s else live a G s)"
    by (rule ext) (simp add: live_def)
  then show ?thesis using journal.undoable_if assms by simp
qed

lemma undo_live_choice:
  assumes "\<And>x. journal.undoable (live a (F x))"
  shows "journal.undoable (live a (\<lambda>s. F (q s) s))"
proof -
  have "live a (\<lambda>s. F (q s) s) = (\<lambda>s. live a (F (q s)) s)"
    by (rule ext) (simp add: live_def)
  then show ?thesis using journal.undoable_choice [of "\<lambda>x. live a (F x)" q] assms by simp
qed

lemma undo_live_bind:
  assumes "journal.undoable (live a F)" and "journal.undoable (live a G)"
    and "\<And>s s'. getStateObject s a \<noteq> None \<Longrightarrow> F s = Some s' \<Longrightarrow> getStateObject s' a \<noteq> None"
  shows "journal.undoable (live a (\<lambda>s. Option.bind (F s) G))"
proof (rule journal.undoable_guard [OF journal.undoable_bind [OF assms(1,2)]])
  fix s s' assume "live a (\<lambda>s. Option.bind (F s) G) s = Some s'"
  then obtain u where u: "getStateObject s a \<noteq> None" "F s = Some u" "G u = Some s'"
    by (auto simp: live_def bind_Some_iff split: if_splits)
  then show "Option.bind (live a F s) (live a G) = Some s'"
    using assms(3) [OF u(1,2)] by (simp add: live_def)
qed

text \<open>Creating an object, and an operation on the object found or created.\<close>

lemma getStateObject_simps [lookup_simps]:
  "getStateObject (modify a f s) b =
     (if b = a then (if deleted (f (deref s a)) then None else Some (f (deref s a))) else getStateObject s b)"
  "getStateObject (setStateObject ob s) b =
     (if b = obj_address ob then (if deleted ob then None else Some ob) else getStateObject s b)"
  "getStateObject (journal_append e s) b = getStateObject s b"
  by (simp_all add: getStateObject_def lookup_simps)

lemma newObject_fields [simp]:
  "obj_address (newObject a d) = a" "data (newObject a d) = d" "deleted (newObject a d) = False"
  "fakeStorage (newObject a d) = None" "suicided (newObject a d) = False" "code (newObject a d) = None"
  by (simp_all add: newObject_def)

lemma createObject_state:
  "fst (createObject a s) = setStateObject (newObject a (zeroAccount (hasher s)))
     (journal_append (case getDeletedStateObject s a of None \<Rightarrow> createObjectChange a | Some p \<Rightarrow> resetObjectChange p False) s)"
  by (simp add: createObject_def Let_def split: option.split)

lemma GetOrNew_get [lookup_simps]:
  "getStateObject (GetOrNewStateObject a s) b =
     (if b = a \<and> getStateObject s a = None then Some (newObject a (zeroAccount (hasher s))) else getStateObject s b)"
  by (auto simp: GetOrNewStateObject_def createObject_state lookup_simps split: option.splits)

lemma GetOrNew_live: "getStateObject (GetOrNewStateObject a s) a \<noteq> None"
  by (simp add: lookup_simps)

lemma undo_created:
  assumes wf: "wf_state s" and ob: "obj_address ob = a" "fakeStorage ob = None"
  defines "E \<equiv> (case getDeletedStateObject s a of None \<Rightarrow> createObjectChange a | Some p \<Rightarrow> resetObjectChange p False)"
  shows "\<exists>t. revert_one E (setStateObject ob (journal_append E s)) = Some t \<and> view t = view s"
    and "wf_state (setStateObject ob (journal_append E s))"
proof -
  show "wf_state (setStateObject ob (journal_append E s))"
    using wf ob by (auto simp: wf_state_iff lookup_simps frame_simps obj_ok_def [of a])
  show "\<exists>t. revert_one E (setStateObject ob (journal_append E s)) = Some t \<and> view t = view s"
  proof (cases "getDeletedStateObject s a")
    case None
    then have "trie s a = None" by (auto simp: getDeletedStateObject_def split: option.splits)
    then show ?thesis
      using None ob by (auto simp: E_def revert_one_def view_eq_iff lookup_simps frame_simps)
  next
    case (Some p)
    then have "obj_address p = a" using wf_objD [OF wf] by (simp add: obj_ok_def)
    then show ?thesis
      using Some ob by (auto simp: E_def revert_one_def view_eq_iff lookup_simps frame_simps)
  qed
qed

lemma undo_GetOrNewStateObject: "journal.undoable (\<lambda>s. Some (GetOrNewStateObject a s))"
proof (rule journal_undoableI)
  fix s s' assume wf: "wf_state s" and s': "Some (GetOrNewStateObject a s) = Some s'"
  let ?n = "newObject a (zeroAccount (hasher s))"
  let ?E = "case getDeletedStateObject s a of None \<Rightarrow> createObjectChange a | Some p \<Rightarrow> resetObjectChange p False"
  show "wf_state s' \<and>
    (\<exists>es t. entries s' = entries s @ es \<and> for_each revert_one (rev es) s' = Some t \<and> view t = view s)"
  proof (cases "getStateObject s a")
    case None
    then have s'_eq: "s' = setStateObject ?n (journal_append ?E s)"
      using s' by (simp add: GetOrNewStateObject_def createObject_state)
    obtain t where t: "revert_one ?E s' = Some t" "view t = view s"
      using undo_created(1) [OF wf, of ?n a] s'_eq by auto
    show ?thesis
      using undo_created(2) [OF wf, of ?n a] t
      by (intro conjI exI [of _ "[?E]"] exI [of _ t]) (auto simp: s'_eq frame_simps)
  next
    case (Some ob)
    then show ?thesis using wf s' by (auto simp: GetOrNewStateObject_def)
  qed
qed

lemma undo_GetOrNew:
  assumes "journal.undoable (live a F)"
  shows "journal.undoable (\<lambda>s. F (GetOrNewStateObject a s))"
  using journal.undoable_bind [OF undo_GetOrNewStateObject [of a] assms]
  by (simp add: live_def GetOrNew_live)

lemma undo_CreateAccount: "journal.undoable (\<lambda>s. Some (CreateAccount a s))"
proof (rule journal_undoableI)
  fix s s' assume wf: "wf_state s" and s': "Some (CreateAccount a s) = Some s'"
  let ?n = "newObject a (zeroAccount (hasher s))"
  let ?E = "case getDeletedStateObject s a of None \<Rightarrow> createObjectChange a | Some p \<Rightarrow> resetObjectChange p False"
  have *: "modify a f (setStateObject ?n u) = setStateObject (f ?n) u" if "obj_address (f ?n) = a" for f u
    using that by (simp add: modify_def setStateObject_def deref_def getDeletedStateObject_def)
  define ob where "ob = (case getDeletedStateObject s a of None \<Rightarrow> ?n
    | Some p \<Rightarrow> if deleted p then ?n else setBalance (Balance (data p)) ?n)"
  have ob: "obj_address ob = a" "fakeStorage ob = None" "s' = setStateObject ob (journal_append ?E s)"
    using s' by (auto simp: ob_def CreateAccount_def createObject_def Let_def * setBalance_def
        split: option.splits if_splits)
  obtain t where t: "revert_one ?E s' = Some t" "view t = view s"
    using undo_created(1) [OF wf ob(1,2)] ob(3) by auto
  show "wf_state s' \<and>
    (\<exists>es t. entries s' = entries s @ es \<and> for_each revert_one (rev es) s' = Some t \<and> view t = view s)"
    using undo_created(2) [OF wf ob(1,2)] t
    by (intro conjI exI [of _ "[?E]"] exI [of _ t]) (auto simp: ob(3) frame_simps)
qed

text \<open>Filling the cache of a read is not observable.\<close>

lemma view_load: "getStateObject s a = Some ob \<Longrightarrow> view (modify a (obj_load (storageTries s) key) s) = view s"
proof -
  assume "getStateObject s a = Some ob"
  then have get: "getDeletedStateObject s a = Some ob" and de: "deref s a = ob"
    by (simp_all add: getStateObject_iff deref_get)
  let ?x = "obj_load (storageTries s) key ob"
  have f: "obj_address ?x = obj_address ob" "data ?x = data ob" "code ?x = code ob"
    "pendingStorage ?x = pendingStorage ob" "fakeStorage ?x = fakeStorage ob" "suicided ?x = suicided ob"
    "deleted ?x = deleted ob"
    by (simp_all add: obj_load_def)
  have "origin_value (storageTries s) ?x k = origin_value (storageTries s) ob k" for k
    by (simp add: obj_load_def origin_value_def split: option.split)
  moreover have "obj_Code (hasher s) (codeDB s) ?x = obj_Code (hasher s) (codeDB s) ob"
    by (simp add: obj_Code_def f split: option.split)
  ultimately have "normObj (hasher s) (codeDB s) (storageTries s) ?x = normObj (hasher s) (codeDB s) (storageTries s) ob"
    by (simp add: normObj_eq_iff f)
  then show ?thesis by (simp add: view_eq_iff frame_simps lookup_simps get de)
qed

lemma undo_setState_live:
  "journal.undoable (live a (\<lambda>s. Some (modify a (obj_setState key v)
     (journal_append (storageChange a key (obj_GetState (storageTries s) (deref s a) key)) s))))"
proof (rule undoable_modify [where F = "\<lambda>_. obj_setState key v"
      and G = "\<lambda>s. obj_setState key (obj_GetState (storageTries s) (deref s a) key)"])
  fix s ob assume "getStateObject s a = Some ob"
  then have de: "deref s a = ob" by (rule deref_get)
  let ?x = "obj_setState key (obj_GetState (storageTries s) ob key) (obj_setState key v ob)"
  have "obj_GetState (storageTries s) ?x k = obj_GetState (storageTries s) ob k" for k
    by (auto simp: obj_setState_def obj_GetState_def obj_GetCommittedState_def split: option.split)
  moreover have "origin_value (storageTries s) ?x = origin_value (storageTries s) ob"
    "obj_Code (hasher s) (codeDB s) ?x = obj_Code (hasher s) (codeDB s) ob"
    by (auto simp: obj_setState_def origin_value_def obj_Code_def fun_eq_iff split: option.split)
  ultimately show "normObj (hasher s) (codeDB s) (storageTries s)
      (obj_setState key (obj_GetState (storageTries s) (deref s a) key) (obj_setState key v ob))
      = normObj (hasher s) (codeDB s) (storageTries s) ob"
    by (simp add: de normObj_eq_iff) (simp add: obj_setState_def)
qed (simp_all add: revert_on_object obj_setState_def)

lemma undo_SetState_live: "journal.undoable (live a (\<lambda>s. Some (o_SetState a key v s)))"
proof -
  let ?load = "\<lambda>s. if fakeStorage (deref s a) = None then Some (modify a (obj_load (storageTries s) key) s) else None"
  let ?set = "\<lambda>s. if obj_GetState (storageTries s) (deref s a) key = v then Some s else
     Some (modify a (obj_setState key v)
       (journal_append (storageChange a key (obj_GetState (storageTries s) (deref s a) key)) s))"
  have "journal.undoable (live a ?load)"
    by (rule journal.undoable_same) (auto simp: live_def view_load frame_simps split: if_splits)
  moreover have "journal.undoable (live a ?set)"
    by (intro undo_live_if undo_live_Some undo_setState_live)
  moreover have "getStateObject s' a \<noteq> None" if "getStateObject s a \<noteq> None" "?load s = Some s'" for s s'
    using that deref_get [of s a] by (auto simp: lookup_simps getStateObject_iff obj_load_def split: if_splits)
  ultimately have *: "journal.undoable (live a (\<lambda>s. Option.bind (?load s) ?set))"
    by (rule undo_live_bind)
  show ?thesis
  proof (rule journal_undoableI)
    fix s s' assume wf: "wf_state s" and s': "live a (\<lambda>s. Some (o_SetState a key v s)) s = Some s'"
    then obtain ob where ob: "getStateObject s a = Some ob" by (auto simp: live_def split: if_splits)
    have "fakeStorage (deref s a) = None"
      using wf_objD [OF wf, of a ob] ob deref_get [OF ob] by (simp add: getStateObject_iff obj_ok_def)
    then have "live a (\<lambda>s. Option.bind (?load s) ?set) s = Some s'"
      using s' ob by (auto simp: live_def o_SetState_def Let_def lookup_simps frame_simps)
    from journal.undoableD [OF * wf [unfolded wf_state_def] this] show "wf_state s' \<and>
      (\<exists>es t. entries s' = entries s @ es \<and> for_each revert_one (rev es) s' = Some t \<and> view t = view s)"
      unfolding wf_state_def by blast
  qed
qed

subsection \<open>The remaining methods of a live object\<close>

lemma touch_dead: "o_AddBalance a amount s = (if amount = 0 then s else o_SetBalance a (Balance (data (deref s a)) + amount) s)"
  by (simp add: o_AddBalance_def obj_empty_never)

lemma live_not_deleted: "getStateObject s a \<noteq> None \<Longrightarrow> \<not> deleted (deref s a)"
  by (auto simp: getStateObject_iff deref_def)

lemma o_live [lookup_simps]:
  "getStateObject s a \<noteq> None \<Longrightarrow> getStateObject (o_SetBalance a v s) a \<noteq> None"
  "getStateObject s a \<noteq> None \<Longrightarrow> getStateObject (o_SetOwner a w s) a \<noteq> None"
  "getStateObject s a \<noteq> None \<Longrightarrow> getStateObject (o_SetPledgedBalance a v s) a \<noteq> None"
  "getStateObject s a \<noteq> None \<Longrightarrow> getStateObject (o_SetExchangerBalance a v s) a \<noteq> None"
  "getStateObject s a \<noteq> None \<Longrightarrow> getStateObject (o_CleanNFT a s) a \<noteq> None"
  by (simp_all add: o_SetBalance_def o_SetOwner_def o_SetPledgedBalance_def o_SetExchangerBalance_def
      o_CleanNFT_def lookup_simps setter_defs live_not_deleted del: not_None_eq)

text \<open>A setter whose argument is computed from the state, behind a guard.\<close>

lemma undo_live_cond:
  assumes "\<And>x. journal.undoable (live a (\<lambda>s. Some (F x s)))"
  shows "journal.undoable (live a (\<lambda>s. Some (if P s then s else F (q s) s)))"
proof -
  have "journal.undoable (live a (\<lambda>s. if P s then Some s else Some (F (q s) s)))"
    by (rule undo_live_if [OF undo_live_Some undo_live_choice [of a "\<lambda>x s. Some (F x s)", OF assms]])
  moreover have "(\<lambda>s. if P s then Some s else Some (F (q s) s)) = (\<lambda>s. Some (if P s then s else F (q s) s))"
    by (rule ext) simp
  ultimately show ?thesis by simp
qed

lemma undo_o_balance [undo_intros]:
  "journal.undoable (live a (\<lambda>s. Some (o_AddBalance a v s)))"
  "journal.undoable (live a (\<lambda>s. Some (o_SubBalance a v s)))"
  unfolding touch_dead o_SubBalance_def
  by (rule undo_live_cond [of a "o_SetBalance a"], rule undo_o_SetBalance)+

lemma undo_live_then:
  assumes "journal.undoable (live a (\<lambda>s. Some (F s)))" and "journal.undoable (live a (\<lambda>s. Some (G s)))"
    and "\<And>s. getStateObject s a \<noteq> None \<Longrightarrow> getStateObject (F s) a \<noteq> None"
  shows "journal.undoable (live a (\<lambda>s. Some (G (F s))))"
proof -
  have "journal.undoable (live a (\<lambda>s. Option.bind (Some (F s)) (\<lambda>s. Some (G s))))"
    by (rule undo_live_bind [OF assms(1,2)]) (use assms(3) in blast)
  then show ?thesis by simp
qed

lemma undo_o_ChangeNFTOwner [undo_intros]: "journal.undoable (live a (\<lambda>s. Some (o_ChangeNFTOwner a w s)))"
proof -
  have "journal.undoable (live a (\<lambda>s. Some (o_SetNFTApproveAddress a 0 (o_SetOwner a w s))))"
    by (rule undo_live_then [OF undo_o_SetOwner undo_o_SetNFTApproveAddress o_live(2)])
  then show ?thesis
    unfolding o_ChangeNFTOwner_def
    by (rule undo_live_cond [of a "\<lambda>_ s. o_SetNFTApproveAddress a 0 (o_SetOwner a w s)"])
qed

lemma undo_o_approve [undo_intros]:
  "journal.undoable (live a (\<lambda>s. Some (o_ChangeApproveAddress a w s)))"
  "journal.undoable (live a (\<lambda>s. Some (o_CancelApproveAddress a w s)))"
proof -
  have "journal.undoable (live a (\<lambda>s. Some (modify a (setApproveAddress w)
      (journal_append (nftApproveAddressChange a (ApproveAddressList (data (deref s a)))) s))))"
    by (rule undo_approve_list) (simp_all add: setter_defs)
  then show "journal.undoable (live a (\<lambda>s. Some (o_ChangeApproveAddress a w s)))"
    unfolding o_ChangeApproveAddress_def by (rule undo_live_cond)
  have "journal.undoable (live a (\<lambda>s. Some (modify a (removeApproveAddress w)
      (journal_append (nftApproveAddressChange a (ApproveAddressList (data (deref s a)))) s))))"
    by (rule undo_approve_list) (simp_all add: setter_defs Let_def)
  then show "journal.undoable (live a (\<lambda>s. Some (o_CancelApproveAddress a w s)))"
    unfolding o_CancelApproveAddress_def by (rule undo_live_cond)
qed

lemma undo_o_approve_one [undo_intros]:
  "journal.undoable (live a (\<lambda>s. Some (o_ChangeNFTApproveAddress a w s)))"
  "journal.undoable (live a (\<lambda>s. Some (o_CancelNFTApproveAddress a w s)))"
proof -
  show "journal.undoable (live a (\<lambda>s. Some (o_ChangeNFTApproveAddress a w s)))"
    unfolding o_ChangeNFTApproveAddress_def
    by (rule undo_live_cond [of a "\<lambda>_. o_SetNFTApproveAddress a w"], rule undo_o_SetNFTApproveAddress)
  have "modify a removeNFTApproveAddress
      (journal_append (nftApproveAddressChangeOne a (NFTApproveAddressList (NFT (data (deref s a))))) s)
      = o_SetNFTApproveAddress a 0 s" for s
    by (simp add: o_SetNFTApproveAddress_def setNFTApproveAddress_def removeNFTApproveAddress_def)
  then show "journal.undoable (live a (\<lambda>s. Some (o_CancelNFTApproveAddress a w s)))"
    unfolding o_CancelNFTApproveAddress_def
    by (simp only:) (rule undo_live_cond [of a "\<lambda>_. o_SetNFTApproveAddress a 0"], rule undo_o_SetNFTApproveAddress)
qed

lemma undo_o_exchanger [undo_intros]:
  "journal.undoable (live a (\<lambda>s. Some (o_OpenExchanger a b r n u s)))"
  "journal.undoable (live a (\<lambda>s. Some (o_CloseExchanger a s)))"
  unfolding o_OpenExchanger_def o_CloseExchanger_def
  by (rule undo_live_cond [of a "\<lambda>_. o_SetExchangerInfo a True (Some b) r n u"], rule undo_o_SetExchangerInfo)
     (rule undo_live_cond [of a "\<lambda>_. o_SetExchangerInfo a False (Some 0) 0 [] []"], rule undo_o_SetExchangerInfo)

text \<open>The nil-able balances: a method that adds to or subtracts from one.\<close>

lemma undo_live_map:
  assumes "\<And>x. journal.undoable (live a (\<lambda>s. Some (F x s)))"
  shows "journal.undoable (live a (\<lambda>s. if P s then Some s else do { x \<leftarrow> q s; Some (F (h x s) s) }))"
proof (rule journal.undoable_guard [OF journal.undoable_choice])
  show "journal.undoable (case r of None \<Rightarrow> live a Some | Some x \<Rightarrow> live a (\<lambda>s. Some (F x s)))" for r
    by (cases r) (simp_all add: assms undo_live_Some)
  fix s s' assume "live a (\<lambda>s. if P s then Some s else do { x \<leftarrow> q s; Some (F (h x s) s) }) s = Some s'"
  then show "(case (if P s then None else map_option (\<lambda>x. h x s) (q s)) of
      None \<Rightarrow> live a Some | Some x \<Rightarrow> live a (\<lambda>s. Some (F x s))) s = Some s'"
    by (auto simp: live_def bind_Some_iff split: if_splits)
qed

lemma undo_o_nilable [undo_intros]:
  "journal.undoable (live a (\<lambda>s. Some (o_AddPledgedBalance a v s)))"
  "journal.undoable (live a (o_SubPledgedBalance a v))"
  "journal.undoable (live a (o_AddExchangerBalance a v))"
  "journal.undoable (live a (o_SubExchangerBalance a v))"
  "journal.undoable (live a (o_AddVoteWeight a v))"
  "journal.undoable (live a (o_SubVoteWeight a v))"
proof -
  show "journal.undoable (live a (\<lambda>s. Some (o_AddPledgedBalance a v s)))"
    unfolding o_AddPledgedBalance_def
    by (rule undo_live_cond [of a "o_SetPledgedBalance a"], rule undo_o_SetPledgedBalance)
qed (unfold o_SubPledgedBalance_def o_AddExchangerBalance_def o_SubExchangerBalance_def
    o_AddVoteWeight_def o_SubVoteWeight_def,
  (rule undo_live_map, rule undo_o_SetPledgedBalance undo_o_SetExchangerBalance undo_o_SetVoteWeight)+)

subsection \<open>Operations of the state database\<close>

lemma undo_setters [undo_intros]:
  "journal.undoable (\<lambda>s. Some (AddBalance a v s))"
  "journal.undoable (\<lambda>s. Some (SubBalance a v s))"
  "journal.undoable (\<lambda>s. Some (SetBalance a v s))"
  "journal.undoable (\<lambda>s. Some (SetNonce a n s))"
  "journal.undoable (\<lambda>s. Some (SetState a key h s))"
  unfolding AddBalance_def SubBalance_def SetBalance_def SetNonce_def SetState_def
  by (rule undo_GetOrNew [of a "\<lambda>s. Some (o_AddBalance a v s)"]
        undo_GetOrNew [of a "\<lambda>s. Some (o_SubBalance a v s)"]
        undo_GetOrNew [of a "\<lambda>s. Some (o_SetBalance a v s)"]
        undo_GetOrNew [of a "\<lambda>s. Some (o_SetNonce a n s)"]
        undo_GetOrNew [of a "\<lambda>s. Some (o_SetState a key h s)"],
      rule undo_intros undo_SetState_live)+

lemma GetOrNew_hasher [frame_simps]: "hasher (GetOrNewStateObject a s) = hasher s"
  by (auto simp: GetOrNewStateObject_def createObject_state frame_simps split: option.splits)

lemma undo_SetCode [undo_intros]: "journal.undoable (\<lambda>s. Some (SetCode a c s))"
  unfolding SetCode_def
  by (rule journal.undoable_choice [of "\<lambda>h s. Some (o_SetCode a h c (GetOrNewStateObject a s))" "\<lambda>s. hasher s c"],
      rule undo_GetOrNew [of a "\<lambda>s. Some (o_SetCode a _ c s)"], rule undo_SetCode_live)

lemma undo_Suicide [undo_intros]: "journal.undoable (\<lambda>s. Some (fst (Suicide a s)))"
proof (rule journal_undoableI)
  fix s s' assume wf: "wf_state s" and s': "Some (fst (Suicide a s)) = Some s'"
  show "wf_state s' \<and>
    (\<exists>es t. entries s' = entries s @ es \<and> for_each revert_one (rev es) s' = Some t \<and> view t = view s)"
  proof (cases "getStateObject s a")
    case None
    then show ?thesis using wf s' by (auto simp: Suicide_def)
  next
    case (Some ob)
    note get = Some [unfolded getStateObject_iff] and de = deref_get [OF Some]
    let ?f = "\<lambda>ob. setBalance 0 (markSuicided ob)" and ?E = "suicideChange a (suicided ob) (Balance (data ob))"
    let ?g = "\<lambda>x. setBalance (Balance (data ob)) (x\<lparr>suicided := suicided ob\<rparr>)"
    have s'_eq: "s' = modify a ?f (journal_append ?E s)" using s' Some by (simp add: Suicide_def)
    have "getStateObject s' a = Some (?f ob)"
      using get by (simp add: s'_eq getStateObject_iff lookup_simps de setBalance_def markSuicided_def)
    then have r: "revert_one ?E s' = Some ((modify a ?g s')\<lparr>dirties := dirties s\<rparr>)"
      by (simp add: revert_one_def frame_simps s'_eq)
    have id: "?g (?f ob) = ob" by (simp add: setBalance_def markSuicided_def)
    have "view ((modify a ?g s')\<lparr>dirties := dirties s\<rparr>) = view s"
      using get id by (simp add: view_eq_iff frame_simps lookup_simps s'_eq de)
    moreover have "wf_state s'"
      using wf wf_objD [OF wf, of a ob] get
      by (auto simp: wf_state_iff s'_eq frame_simps lookup_simps de obj_ok_def [of a] setBalance_def markSuicided_def)
    ultimately show ?thesis
      using r by (intro conjI exI [of _ "[?E]"] exI [of _ "(modify a ?g s')\<lparr>dirties := dirties s\<rparr>"])
        (simp_all add: s'_eq frame_simps)
  qed
qed

text \<open>Entries that touch no object: one entry, undone by restoring a field.\<close>

lemma undo_one:
  assumes "\<And>s s'. wf_state s \<Longrightarrow> f s = Some s' \<Longrightarrow>
      (view s' = view s \<and> entries s' = entries s) \<or>
      (\<exists>e t. wf_state s' \<and> entries s' = entries s @ [e] \<and> revert_one e s' = Some t \<and> view t = view s)"
  shows "journal.undoable f"
proof (rule journal_undoableI)
  fix s s' assume wf: "wf_state s" and f: "f s = Some s'"
  from assms [OF wf f] show "wf_state s' \<and>
    (\<exists>es t. entries s' = entries s @ es \<and> for_each revert_one (rev es) s' = Some t \<and> view t = view s)"
  proof
    assume "view s' = view s \<and> entries s' = entries s"
    then show ?thesis using wf by (auto simp: wf_state_def)
  next
    assume "\<exists>e t. wf_state s' \<and> entries s' = entries s @ [e] \<and> revert_one e s' = Some t \<and> view t = view s"
    then obtain e t where "wf_state s'" "entries s' = entries s @ [e]" "revert_one e s' = Some t" "view t = view s"
      by blast
    then show ?thesis by (intro conjI exI [of _ "[e]"] exI [of _ t]) simp_all
  qed
qed

lemma undo_AddRefund [undo_intros]: "journal.undoable (\<lambda>s. Some (AddRefund g s))"
  by (rule undo_one)
     (auto simp: AddRefund_def revert_one_def wf_state_iff frame_simps lookup_simps view_eq_iff)

lemma undo_SubRefund [undo_intros]: "journal.undoable (SubRefund g)"
  by (rule undo_one)
     (auto simp: SubRefund_def revert_one_def wf_state_iff frame_simps lookup_simps view_eq_iff split: if_splits)

lemma undo_AddPreimage [undo_intros]: "journal.undoable (\<lambda>s. Some (AddPreimage h p s))"
proof (rule undo_one)
  fix s s' assume wf: "wf_state s" and s': "Some (AddPreimage h p s) = Some s'"
  show "(view s' = view s \<and> entries s' = entries s) \<or>
      (\<exists>e t. wf_state s' \<and> entries s' = entries s @ [e] \<and> revert_one e s' = Some t \<and> view t = view s)"
  proof (cases "preimages s h")
    case None
    then have "(preimages s)(h := None) = preimages s" by (rule fun_upd_idem)
    then show ?thesis
      using s' None wf
      by (auto simp: AddPreimage_def Let_def revert_one_def wf_state_iff frame_simps lookup_simps view_eq_iff)
  next
    case (Some x)
    then show ?thesis using s' by (simp add: AddPreimage_def)
  qed
qed

lemma undo_AddLog [undo_intros]: "journal.undoable (\<lambda>s. Some (AddLog l s))"
proof (rule undo_one)
  fix s s' assume wf: "wf_state s" and s': "Some (AddLog l s) = Some s'"
  let ?E = "addLogChange (thash s)"
  let ?l = "l\<lparr>log_TxHash := thash s, log_TxIndex := txIndex s, log_Index := logSize s\<rparr>"
  have s'_eq: "s' = (journal_append ?E s)\<lparr>logs := (logs s)(thash s := logs s (thash s) @ [?l]), logSize := logSize s + 1\<rparr>"
    using s' by (simp add: AddLog_def Let_def frame_simps)
  have "(logs s)(thash s := (if length (logs s' (thash s)) = 1 then [] else butlast (logs s' (thash s)))) = logs s"
    by (rule fun_upd_idem) (simp add: s'_eq)
  moreover have "logs s' (thash s) \<noteq> []" "(logs s')(thash s := x) = (logs s)(thash s := x)" for x
    by (simp_all add: s'_eq)
  ultimately have "revert_one ?E s' = Some (s'\<lparr>logs := logs s, logSize := logSize s' - 1\<rparr>)"
    unfolding revert_one_def revert.simps dirtied.simps by simp
  then have "revert_one ?E s' = Some (s'\<lparr>logs := logs s, logSize := logSize s\<rparr>)"
    by (simp add: s'_eq)
  moreover have "view (s'\<lparr>logs := logs s, logSize := logSize s\<rparr>) = view s"
    by (simp add: s'_eq view_eq_iff frame_simps lookup_simps)
  moreover have "wf_state s'" "entries s' = entries s @ [?E]"
    using wf by (auto simp: s'_eq wf_state_iff frame_simps lookup_simps)
  ultimately show "(view s' = view s \<and> entries s' = entries s) \<or>
      (\<exists>e t. wf_state s' \<and> entries s' = entries s @ [e] \<and> revert_one e s' = Some t \<and> view t = view s)"
    by blast
qed

lemma undo_AddAddressToAccessList [undo_intros]: "journal.undoable (\<lambda>s. Some (AddAddressToAccessList a s))"
proof (rule undo_one)
  fix s s' assume wf: "wf_state s" and s': "Some (AddAddressToAccessList a s) = Some s'"
  obtain al ch where al: "AddAddress (accessLst s) a = (al, ch)" by force
  have ok: "al_ok al" using al_ok_AddAddress [of "accessLst s" a] wf al by (simp add: wf_state_iff)
  show "(view s' = view s \<and> entries s' = entries s) \<or>
      (\<exists>e t. wf_state s' \<and> entries s' = entries s @ [e] \<and> revert_one e s' = Some t \<and> view t = view s)"
  proof (cases ch)
    case True
    then have "DeleteAddress al a = accessLst s" using al DeleteAddress_AddAddress by simp
    then show ?thesis
      using s' al True ok wf
      by (auto simp: AddAddressToAccessList_def revert_one_def wf_state_iff frame_simps lookup_simps view_eq_iff)
  next
    case False
    then have "al = accessLst s" using al AddAddress_False by simp
    then show ?thesis using s' al False by (auto simp: AddAddressToAccessList_def)
  qed
qed

lemma undo_AddSlotToAccessList [undo_intros]: "journal.undoable (AddSlotToAccessList a k)"
proof (rule journal_undoableI)
  fix s s' assume wf: "wf_state s" and s': "AddSlotToAccessList a k s = Some s'"
  then obtain al ac sc where al: "AddSlot (accessLst s) a k = Some (al, ac, sc)"
    by (auto simp: AddSlotToAccessList_def bind_Some_iff)
  have old: "al_ok (accessLst s)" using wf by (simp add: wf_state_iff)
  note ok = al_ok_AddSlot [OF old al]
  show "wf_state s' \<and>
    (\<exists>es t. entries s' = entries s @ es \<and> for_each revert_one (rev es) s' = Some t \<and> view t = view s)"
  proof (cases sc)
    case True
    obtain al1 where al1: "DeleteSlot al a k = Some al1" "(if ac then DeleteAddress al1 a else al1) = accessLst s"
      using DeleteSlot_AddSlot [OF old, of a k al ac] al True by metis
    let ?es = "(if ac then [accessListAddAccountChange a] else []) @ [accessListAddSlotChange a k]"
    have s'_eq: "s' = journal_append (accessListAddSlotChange a k)
        (if ac then journal_append (accessListAddAccountChange a) (s\<lparr>accessLst := al\<rparr>) else s\<lparr>accessLst := al\<rparr>)"
      using s' al True by (simp add: AddSlotToAccessList_def Let_def)
    have "entries s' = entries s @ ?es" "wf_state s'"
      using ok wf by (simp_all add: s'_eq wf_state_iff frame_simps lookup_simps)
    moreover have "\<exists>t. for_each revert_one (rev ?es) s' = Some t \<and> view t = view s"
      using al1 by (cases ac) (simp_all add: s'_eq revert_one_def frame_simps lookup_simps view_eq_iff)
    ultimately show ?thesis by blast
  next
    case False
    then have "al = accessLst s" "\<not> ac" using al AddSlot_False [OF old] by auto
    then show ?thesis using s' al False wf by (auto simp: AddSlotToAccessList_def Let_def)
  qed
qed

section \<open>Reverting to a snapshot\<close>

lemma revert_frame:
  "revert e s = Some t \<Longrightarrow> validRevisions t = validRevisions s \<and> pools t = pools s"
  by (cases e) (auto simp: on_object_def modify_def setStateObject_def pools_def bind_Some_iff
      split: option.splits if_splits)

lemma revert_one_frame:
  "revert_one e s = Some t \<Longrightarrow> validRevisions t = validRevisions s \<and> pools t = pools s"
  by (auto simp: revert_one_def bind_Some_iff pools_def dest!: revert_frame split: option.splits)

lemma undo_frame:
  "for_each revert_one es s = Some t \<Longrightarrow> validRevisions t = validRevisions s \<and> pools t = pools s"
  by (induction es arbitrary: s) (fastforce simp: bind_Some_iff dest: revert_one_frame)+

lemma find_first_append_last:
  "\<forall>x \<in> set l. \<not> P x \<Longrightarrow> P y \<Longrightarrow> find_first P (l @ [y]) = Some (length l, y)"
  by (induction l) auto

lemma Snapshot_wf: "wf_state s \<Longrightarrow> wf_state (fst (Snapshot s))"
  by (auto simp: wf_state_iff Snapshot_def Let_def lookup_simps revs_ok_def sorted_wrt_append)

lemma RevertToSnapshot_undo:
  assumes f: "journal.undoable f" and wf: "wf_state s" and run: "f (fst (Snapshot s)) = Some s'"
  shows "\<exists>t. RevertToSnapshot (snd (Snapshot s)) s' = Some t
     \<and> view t = (view s)\<lparr>nextRevisionId := nextRevisionId s + 1\<rparr>
     \<and> entries t = entries s \<and> pools t = pools s'"
proof -
  let ?s = "fst (Snapshot s)" and ?n = "nextRevisionId s"
  have s1: "?s = s\<lparr>nextRevisionId := ?n + 1, validRevisions := validRevisions s @ [(?n, length (entries s))]\<rparr>"
    "snd (Snapshot s) = ?n" by (simp_all add: Snapshot_def Let_def)
  obtain es u where u: "entries s' = entries ?s @ es" "for_each revert_one (rev es) s' = Some u" "view u = view ?s"
    using journal.undoableD [OF f _ run] Snapshot_wf [OF wf] unfolding wf_state_def by blast
  note fr = undo_frame [OF u(2)]
  have vr: "validRevisions u = validRevisions s @ [(?n, length (entries s))]"
    using u(3) by (simp add: view_eq_iff s1)
  then have vr': "validRevisions s' = validRevisions s @ [(?n, length (entries s))]" using fr by simp
  have "\<forall>r \<in> set (validRevisions s). \<not> fst r \<ge> ?n"
    using wf by (auto simp: wf_state_iff revs_ok_def)
  then have "find_first (\<lambda>r. fst r \<ge> ?n) (validRevisions s') = Some (length (validRevisions s), (?n, length (entries s)))"
    unfolding vr' by (rule find_first_append_last) simp
  moreover have "entries s' = entries s @ es" using u(1) by (simp add: s1)
  ultimately have "RevertToSnapshot ?n s' = Some (u\<lparr>entries := entries s, validRevisions := validRevisions s\<rparr>)"
    using u(2) vr by (simp add: RevertToSnapshot_def journal_revert_def)
  moreover have "view (u\<lparr>entries := entries s, validRevisions := validRevisions s\<rparr>) = (view s)\<lparr>nextRevisionId := ?n + 1\<rparr>"
  proof -
    have "view (u\<lparr>entries := entries s, validRevisions := validRevisions s\<rparr>) = view (s\<lparr>nextRevisionId := ?n + 1\<rparr>)"
      using u(3) by (simp add: view_eq_iff s1 lookup_simps)
    also have "\<dots> = (view s)\<lparr>nextRevisionId := ?n + 1\<rparr>" by (simp add: view_def lookup_simps)
    finally show ?thesis .
  qed
  moreover have "pools (u\<lparr>entries := entries s, validRevisions := validRevisions s\<rparr>) = pools s'"
    using fr by (simp add: pools_def)
  ultimately show ?thesis by (simp add: s1(2))
qed

end
