(* ===== verification/NFTTree.thy ===== *)
theory NFTTree
  imports StateRevert
begin

text \<open>
  The tree of official NFTs in core/state/statedb.go: sixteen siblings of one owner and one
  merge level are merged into their parent, a merged NFT is split down to a level, and the
  store address of an NFT is the ancestor that carries its owner. The code has a 16-ary and a
  256-ary version of each routine; an address is cut and padded as a string of hexadecimal
  digits in the first and (in the search and the split) as bytes in the second.

  \<open>MergeNFT\<close> and \<open>MergeNFT16\<close> call themselves on the parent. The recursion is given fuel:
  the inner option is a panic, the outer \<open>None\<close> is the end of the fuel. The locale
  \<open>merge_routine\<close> is what both versions owe the recursion (a merge raises the level by one, and
  the string is cut by more digits at each level); it gives that the fuel suffices and that
  merging is undone by the journal, and it is interpreted on both versions.
\<close>

section \<open>Definitions\<close>

subsection \<open>Pieces shared by the routines\<close>

text \<open>The address string without its \<open>0x\<close>.\<close>

definition strip0x :: "string \<Rightarrow> string" where
  "strip0x str = (if is0x str then drop 2 str else str)"

text \<open>The address string cut by \<open>n\<close> digits; a panic when it is shorter.\<close>

definition cut_digits :: "nat \<Rightarrow> string \<Rightarrow> string panics" where
  "cut_digits n str = (if n > length str then None else Some (take (length str - n) str))"

text \<open>\<open>addrInt.SetString(parentAddrS, 16)\<close> with its result ignored: the empty string leaves zero.\<close>

definition parent_Int :: "string \<Rightarrow> int" where
  "parent_Int str = (case SetString16 str of Some x \<Rightarrow> x | None \<Rightarrow> 0)"

text \<open>A number in hexadecimal, padded in front to \<open>width\<close> digits and with zeros behind.\<close>

definition padded_address :: "int \<Rightarrow> int \<Rightarrow> nat \<Rightarrow> address" where
  "padded_address width x zeros =
     (let siblingAddrS = EncodeToString (big_Bytes (nat \<bar>x\<bar>));
          prefix0 = replicate (nat (width - int (length siblingAddrS))) (CHR ''0'');
          suffix0 = replicate zeros (CHR ''0'')
      in HexToAddress (prefix0 @ siblingAddrS @ suffix0))"

text \<open>The metadata URL with its last path element replaced; a panic when it has no slash.\<close>

definition moveURL :: "keccak \<Rightarrow> string \<Rightarrow> address \<Rightarrow> string panics" where
  "moveURL k url a =
     (let index = LastIndexSlash url
      in if index < 0 then None else Some (take (nat index) url @ ''/'' @ Address_String k a))"

text \<open>The NFT data of a merged or split NFT is written to an address, whose account is created
  when there is none.\<close>

definition putNFT :: "address \<Rightarrow> AccountNFT \<Rightarrow> u8 \<Rightarrow> string \<Rightarrow> StateDB \<Rightarrow> StateDB" where
  "putNFT a n level url s =
     (let s1 = (if Exist a s then s else CreateAccount a s)
      in o_SetNFTInfo a (Name n) (Symbol n) (Price n) (Direction n) (Owner n) (NFTApproveAddressList n)
           level (Creator n) (Royalty n) (Exchanger n) url s1)"

text \<open>All siblings exist with the same owner and level; the NFT itself is skipped.\<close>

definition sameSiblings :: "StateDB \<Rightarrow> address \<Rightarrow> AccountNFT \<Rightarrow> address list \<Rightarrow> bool" where
  "sameSiblings s a n sibs =
     list_all (\<lambda>siblingAddr. siblingAddr = a \<or>
       (case getStateObject s siblingAddr of
          None \<Rightarrow> False
        | Some ob \<Rightarrow> Owner (NFT (data ob)) = Owner n \<and> MergeLevel (NFT (data ob)) = MergeLevel n)) sibs"

text \<open>The siblings are cleaned, and the merged NFT is written with the level above.\<close>

definition mergeSiblings :: "address list \<Rightarrow> AccountNFT \<Rightarrow> address \<Rightarrow> StateDB \<Rightarrow> StateDB panics" where
  "mergeSiblings sibs n newMergedAddr s =
     do { s1 \<leftarrow> for_each (\<lambda>siblingAddr. live siblingAddr (\<lambda>t. Some (o_CleanNFT siblingAddr t))) sibs s;
          metaUrl \<leftarrow> moveURL (hasher s) (MetaURL n) newMergedAddr;
          Some (putNFT newMergedAddr n (MergeLevel n + 1) metaUrl s1) }"

definition mergedAddr :: "string \<Rightarrow> address" where
  "mergedAddr parentS = HexToAddress (parentS @ replicate (2 * 20 - length parentS) (CHR ''0''))"

text \<open>The recursion of the merge routines on the address merged into.\<close>

fun merge_loop :: "(address \<Rightarrow> StateDB \<Rightarrow> bool panics) \<Rightarrow> (address \<Rightarrow> StateDB \<Rightarrow> (StateDB \<times> address) panics) \<Rightarrow>
    nat \<Rightarrow> address \<Rightarrow> StateDB \<Rightarrow> StateDB panics option" where
  "merge_loop can step 0 a s = None"
| "merge_loop can step (Suc fuel) a s =
     (case can a s of
        None \<Rightarrow> Some None
      | Some b \<Rightarrow>
          if \<not> b then Some (Some s)
          else (case step a s of
                  None \<Rightarrow> Some None
                | Some (s1, newMergedAddr) \<Rightarrow> merge_loop can step fuel newMergedAddr s1))"

text \<open>The parts of a merged NFT are written to the given addresses with the given levels.\<close>

definition splitInto :: "AccountNFT \<Rightarrow> (address \<times> u8) list \<Rightarrow> StateDB \<Rightarrow> StateDB panics" where
  "splitInto n parts s =
     for_each (\<lambda>(splitAddr, level) t. do {
         metaUrl \<leftarrow> moveURL (hasher s) (MetaURL n) splitAddr;
         Some (putNFT splitAddr n level metaUrl t) }) parts s"

subsection \<open>Sixteen siblings\<close>

definition parentAddrS16 :: "StateDB \<Rightarrow> address \<Rightarrow> u8 \<Rightarrow> string panics" where
  "parentAddrS16 s a level = cut_digits (unat (level + 1)) (strip0x (Address_String (hasher s) a))"

definition sibling16 :: "string \<Rightarrow> u8 \<Rightarrow> nat \<Rightarrow> address" where
  "sibling16 parentS level i =
     padded_address (40 - int (unat level)) (parent_Int parentS * 2 ^ 4 + int i) (unat level)"

definition IsCanMergeNFT16 :: "address \<Rightarrow> StateDB \<Rightarrow> bool panics" where
  "IsCanMergeNFT16 a s =
     (if len_address a = 0 then Some False
      else do {
        ob \<leftarrow> getStateObject s a;
        let n = NFT (data ob);
        parentS \<leftarrow> parentAddrS16 s a (MergeLevel n);
        Some (sameSiblings s a n (map (sibling16 parentS (MergeLevel n)) [0..<16])) })"

text \<open>One merge: the state after it and the address merged into.\<close>

definition mergeStep16 :: "address \<Rightarrow> StateDB \<Rightarrow> (StateDB \<times> address) panics" where
  "mergeStep16 a s =
     do { ob \<leftarrow> getStateObject s a;
          let n = NFT (data ob);
          parentS \<leftarrow> parentAddrS16 s a (MergeLevel n);
          s1 \<leftarrow> mergeSiblings (map (sibling16 parentS (MergeLevel n)) [0..<16]) n (mergedAddr parentS) s;
          Some (s1, mergedAddr parentS) }"

definition MergeNFT16 :: "address \<Rightarrow> StateDB \<Rightarrow> StateDB panics" where
  "MergeNFT16 a s = (case merge_loop IsCanMergeNFT16 mergeStep16 42 a s of Some r \<Rightarrow> r | None \<Rightarrow> None)"

definition QUERYDEPTHLIMIT16 :: nat where
  "QUERYDEPTHLIMIT16 = 6"

text \<open>The store address and the owner, if there is one.\<close>

function GetNFTStoreAddress16 :: "address \<Rightarrow> nat \<Rightarrow> StateDB \<Rightarrow> (address \<times> address) option" where
  "GetNFTStoreAddress16 a depth s =
     (if depth > QUERYDEPTHLIMIT16 then None
      else case getStateObject s a of
             None \<Rightarrow> None
           | Some ob \<Rightarrow>
               if Owner (NFT (data ob)) \<noteq> 0 \<and> unat (MergeLevel (NFT (data ob))) = depth
               then Some (a, Owner (NFT (data ob)))
               else
                 (let addressBytes16 = Address_String (hasher s) a;
                      parentAddrBytes = take (length addressBytes16 - (depth + 1)) addressBytes16
                        @ replicate (depth + 1) (CHR ''0'')
                  in GetNFTStoreAddress16 (HexToAddress parentAddrBytes) (depth + 1) s))"
  by pat_completeness auto

termination
  by (relation "measure (\<lambda>(a, depth, s). Suc QUERYDEPTHLIMIT16 - depth)") auto

declare GetNFTStoreAddress16.simps [simp del]

definition GetNFTOwner16 :: "address \<Rightarrow> StateDB \<Rightarrow> address" where
  "GetNFTOwner16 a s =
     (case GetNFTStoreAddress16 a 0 s of
        None \<Rightarrow> 0
      | Some (storeAddr, _) \<Rightarrow>
          (case getStateObject s storeAddr of None \<Rightarrow> 0 | Some ob \<Rightarrow> Owner (NFT (data ob))))"

text \<open>The hexadecimal digit \<open>SplitNFT16\<close> writes.\<close>

definition split_digit :: "nat \<Rightarrow> char" where
  "split_digit j = (if j < 10 then char_of (j + 48) else char_of (j + 55))"

text \<open>The addresses of one round of the split, the \<open>i\<close>-th below the merged NFT.\<close>

definition splitAddr16 :: "string \<Rightarrow> string \<Rightarrow> nat \<Rightarrow> nat \<Rightarrow> nat \<Rightarrow> address" where
  "splitAddr16 storeB nftB mergeLevel i j =
     (let p = length storeB - mergeLevel;
          splitB = take p storeB @ take i (drop p nftB) @ drop (p + i) storeB
      in HexToAddress (splitB[p + i := split_digit j]))"

definition SplitNFT16 :: "address \<Rightarrow> nat \<Rightarrow> StateDB \<Rightarrow> StateDB panics" where
  "SplitNFT16 nftAddr level s =
     (case GetNFTStoreAddress16 nftAddr 0 s of
        None \<Rightarrow> Some s
      | Some (storeAddr, _) \<Rightarrow>
          do { ob \<leftarrow> getStateObject s storeAddr;
               let n = NFT (data ob);
               let mergeLevel = unat (MergeLevel n);
               if mergeLevel \<le> level then Some s
               else do {
                 let storeB = Address_String (hasher s) storeAddr;
                 let nftB = Address_String (hasher s) nftAddr;
                 let p = length storeB - mergeLevel;
                 let q = length storeB - level;
                 let shouldB = take p storeB @ take (q - p) (drop p nftB) @ drop q storeB;
                 if shouldB \<noteq> nftB then Some s
                 else splitInto n [(splitAddr16 storeB nftB mergeLevel i j, MergeLevel n - of_nat (i + 1)).
                        i \<leftarrow> [0..<mergeLevel - level], j \<leftarrow> [0..<16]] s } })"

subsection \<open>Two hundred and fifty-six siblings\<close>

definition parentAddrS256 :: "StateDB \<Rightarrow> address \<Rightarrow> u8 \<Rightarrow> string panics" where
  "parentAddrS256 s a level = cut_digits (unat (2 * (level + 1))) (strip0x (Address_String (hasher s) a))"

definition sibling256 :: "string \<Rightarrow> u8 \<Rightarrow> nat \<Rightarrow> address" where
  "sibling256 parentS level i =
     padded_address (2 * (20 - int (unat level))) (parent_Int parentS * 2 ^ 8 + int i) (unat (2 * level))"

definition IsCanMergeNFT :: "address \<Rightarrow> StateDB \<Rightarrow> bool panics" where
  "IsCanMergeNFT a s =
     (if len_address a = 0 then Some False
      else do {
        ob \<leftarrow> getStateObject s a;
        let n = NFT (data ob);
        parentS \<leftarrow> parentAddrS256 s a (MergeLevel n);
        Some (sameSiblings s a n (map (sibling256 parentS (MergeLevel n)) [0..<256])) })"

definition mergeStep256 :: "address \<Rightarrow> StateDB \<Rightarrow> (StateDB \<times> address) panics" where
  "mergeStep256 a s =
     do { ob \<leftarrow> getStateObject s a;
          let n = NFT (data ob);
          parentS \<leftarrow> parentAddrS256 s a (MergeLevel n);
          s1 \<leftarrow> mergeSiblings (map (sibling256 parentS (MergeLevel n)) [0..<256]) n (mergedAddr parentS) s;
          Some (s1, mergedAddr parentS) }"

definition MergeNFT :: "address \<Rightarrow> StateDB \<Rightarrow> StateDB panics" where
  "MergeNFT a s = (case merge_loop IsCanMergeNFT mergeStep256 22 a s of Some r \<Rightarrow> r | None \<Rightarrow> None)"

definition QUERYDEPTHLIMIT :: nat where
  "QUERYDEPTHLIMIT = 3"

function GetNFTStoreAddress :: "address \<Rightarrow> nat \<Rightarrow> StateDB \<Rightarrow> (address \<times> address) option" where
  "GetNFTStoreAddress a depth s =
     (if depth > QUERYDEPTHLIMIT then None
      else case getStateObject s a of
             None \<Rightarrow> None
           | Some ob \<Rightarrow>
               if Owner (NFT (data ob)) \<noteq> 0 \<and> unat (MergeLevel (NFT (data ob))) = depth
               then Some (a, Owner (NFT (data ob)))
               else
                 (let parentAddrBytes = take (20 - (depth + 1)) (Address_Bytes a) @ replicate (depth + 1) 0
                  in GetNFTStoreAddress (BytesToAddress parentAddrBytes) (depth + 1) s))"
  by pat_completeness auto

termination
  by (relation "measure (\<lambda>(a, depth, s). Suc QUERYDEPTHLIMIT - depth)") auto

declare GetNFTStoreAddress.simps [simp del]

definition GetNFTOwner :: "address \<Rightarrow> StateDB \<Rightarrow> address" where
  "GetNFTOwner a s =
     (case GetNFTStoreAddress a 0 s of
        None \<Rightarrow> 0
      | Some (storeAddr, _) \<Rightarrow>
          (case getStateObject s storeAddr of None \<Rightarrow> 0 | Some ob \<Rightarrow> Owner (NFT (data ob))))"

definition splitAddr256 :: "byte list \<Rightarrow> byte list \<Rightarrow> nat \<Rightarrow> nat \<Rightarrow> nat \<Rightarrow> address" where
  "splitAddr256 storeB nftB mergeLevel i j =
     (let p = length storeB - mergeLevel;
          splitB = take p storeB @ take i (drop p nftB) @ drop (p + i) storeB
      in BytesToAddress (splitB[p + i := of_nat j]))"

definition SplitNFT :: "address \<Rightarrow> nat \<Rightarrow> StateDB \<Rightarrow> StateDB panics" where
  "SplitNFT nftAddr level s =
     (case GetNFTStoreAddress nftAddr 0 s of
        None \<Rightarrow> Some s
      | Some (storeAddr, _) \<Rightarrow>
          do { ob \<leftarrow> getStateObject s storeAddr;
               let n = NFT (data ob);
               let mergeLevel = unat (MergeLevel n);
               if mergeLevel \<le> level then Some s
               else do {
                 let storeB = Address_Bytes storeAddr;
                 let nftB = Address_Bytes nftAddr;
                 let p = length storeB - mergeLevel;
                 let q = length storeB - level;
                 let shouldB = take p storeB @ take (q - p) (drop p nftB) @ drop q storeB;
                 if shouldB \<noteq> nftB then Some s
                 else splitInto n [(splitAddr256 storeB nftB mergeLevel i j, MergeLevel n - of_nat (i + 1)).
                        i \<leftarrow> [0..<mergeLevel - level], j \<leftarrow> [0..<256]] s } })"

subsection \<open>Transfer\<close>

unbundle bit_operations_syntax

definition IsOfficialNFT :: "address \<Rightarrow> bool" where
  "IsOfficialNFT a = (Address_Bytes a ! 0 AND 128 = 128)"

definition ChangeNFTOwner :: "address \<Rightarrow> address \<Rightarrow> nat \<Rightarrow> StateDB \<Rightarrow> StateDB panics" where
  "ChangeNFTOwner nftAddr newOwner level s =
     do { let s1 = GetOrNewStateObject nftAddr s;
          s2 \<leftarrow> (if IsOfficialNFT nftAddr then SplitNFT16 nftAddr level s1 else Some s1);
          let s3 = o_ChangeNFTOwner nftAddr newOwner s2;
          if IsOfficialNFT nftAddr then MergeNFT16 nftAddr s3 else Some s3 }"

section \<open>Undoing\<close>

lemma CreateAccount_get [lookup_simps]:
  "getStateObject (CreateAccount a s) b =
     (if b = a then Some (case getStateObject s a of
         None \<Rightarrow> newObject a (zeroAccount (hasher s))
       | Some p \<Rightarrow> setBalance (Balance (data p)) (newObject a (zeroAccount (hasher s))))
      else getStateObject s b)"
  by (auto simp: CreateAccount_def createObject_def Let_def lookup_simps getStateObject_def setBalance_def
      deref_def split: option.splits if_splits)

lemma undo_putNFT [undo_intros]: "journal.undoable (\<lambda>s. Some (putNFT a n l u s))"
proof (rule journal.undoable_guard)
  show "journal.undoable (\<lambda>s. Option.bind (if Exist a s then Some s else Some (CreateAccount a s))
      (live a (\<lambda>s. Some (o_SetNFTInfo a (Name n) (Symbol n) (Price n) (Direction n) (Owner n)
         (NFTApproveAddressList n) l (Creator n) (Royalty n) (Exchanger n) u s))))"
    by (intro journal.undoable_bind journal.undoable_if journal.undoable_Some undo_CreateAccount undo_o_SetNFTInfo)
  fix s s' assume "Some (putNFT a n l u s) = Some s'"
  then show "Option.bind (if Exist a s then Some s else Some (CreateAccount a s))
      (live a (\<lambda>s. Some (o_SetNFTInfo a (Name n) (Symbol n) (Price n) (Direction n) (Owner n)
         (NFTApproveAddressList n) l (Creator n) (Royalty n) (Exchanger n) u s))) = Some s'"
    by (auto simp: putNFT_def Let_def Exist_def live_def lookup_simps)
qed

lemma undo_mergeSiblings [undo_intros]: "journal.undoable (mergeSiblings sibs n p)"
proof -
  let ?f = "\<lambda>k s. Option.bind (for_each (\<lambda>x. live x (\<lambda>t. Some (o_CleanNFT x t))) sibs s)
     (\<lambda>s1. do { u \<leftarrow> moveURL k (MetaURL n) p; Some (putNFT p n (MergeLevel n + 1) u s1) })"
  have "journal.undoable (\<lambda>s1. do { u \<leftarrow> moveURL k (MetaURL n) p;
      Some (putNFT p n (MergeLevel n + 1) u s1) })" for k
    by (cases "moveURL k (MetaURL n) p") (simp_all add: journal.undoable_None undo_putNFT)
  then have "journal.undoable (?f k)" for k
    by (intro journal.undoable_bind journal.undoable_for_each undo_o_CleanNFT)
  moreover have "mergeSiblings sibs n p = (\<lambda>s. ?f (hasher s) s)"
    by (rule ext) (simp add: mergeSiblings_def)
  ultimately show ?thesis using journal.undoable_choice [of ?f hasher] by simp
qed

lemma undo_splitInto [undo_intros]: "journal.undoable (splitInto n parts)"
proof -
  let ?f = "\<lambda>k. for_each (\<lambda>(a, l) t. do { u \<leftarrow> moveURL k (MetaURL n) a; Some (putNFT a n l u t) }) parts"
  have "journal.undoable (\<lambda>t. do { u \<leftarrow> moveURL k (MetaURL n) a; Some (putNFT a n l u t) })" for k a l
    by (cases "moveURL k (MetaURL n) a") (simp_all add: journal.undoable_None undo_putNFT)
  then have "journal.undoable (?f k)" for k
    by (intro journal.undoable_for_each) (simp split: prod.split)
  then show ?thesis
    using journal.undoable_choice [of ?f hasher] unfolding splitInto_def by simp
qed

lemma undo_mergeStep16: "journal.undoable (\<lambda>s. map_option fst (mergeStep16 a s))"
proof (rule journal.undoable_guard)
  let ?g = "\<lambda>(k, obo) s. do { ob \<leftarrow> obo; parentS \<leftarrow> cut_digits (unat (MergeLevel (NFT (data ob)) + 1)) (strip0x (Address_String k a));
    mergeSiblings (map (sibling16 parentS (MergeLevel (NFT (data ob)))) [0..<16]) (NFT (data ob)) (mergedAddr parentS) s }"
  have "journal.undoable (\<lambda>s. Option.bind q (\<lambda>p. mergeSiblings (f p) n (mergedAddr p) s))" for q n f
    by (cases q) (simp_all add: journal.undoable_None undo_mergeSiblings)
  then have "journal.undoable (?g x)" for x
    by (cases x; cases "snd x") (simp_all add: journal.undoable_None)
  then show "journal.undoable (\<lambda>s. ?g (hasher s, getStateObject s a) s)"
    by (rule journal.undoable_choice)
  show "?g (hasher s, getStateObject s a) s = Some s'" if "map_option fst (mergeStep16 a s) = Some s'" for s s'
    using that by (auto simp: mergeStep16_def parentAddrS16_def bind_Some_iff Let_def)
qed

lemma undo_mergeStep256: "journal.undoable (\<lambda>s. map_option fst (mergeStep256 a s))"
proof (rule journal.undoable_guard)
  let ?g = "\<lambda>(k, obo) s. do { ob \<leftarrow> obo; parentS \<leftarrow> cut_digits (unat (2 * (MergeLevel (NFT (data ob)) + 1))) (strip0x (Address_String k a));
    mergeSiblings (map (sibling256 parentS (MergeLevel (NFT (data ob)))) [0..<256]) (NFT (data ob)) (mergedAddr parentS) s }"
  have "journal.undoable (\<lambda>s. Option.bind q (\<lambda>p. mergeSiblings (f p) n (mergedAddr p) s))" for q n f
    by (cases q) (simp_all add: journal.undoable_None undo_mergeSiblings)
  then have "journal.undoable (?g x)" for x
    by (cases x; cases "snd x") (simp_all add: journal.undoable_None)
  then show "journal.undoable (\<lambda>s. ?g (hasher s, getStateObject s a) s)"
    by (rule journal.undoable_choice)
  show "?g (hasher s, getStateObject s a) s = Some s'" if "map_option fst (mergeStep256 a s) = Some s'" for s s'
    using that by (auto simp: mergeStep256_def parentAddrS256_def bind_Some_iff Let_def simp del: upt_rec_numeral)
qed

section \<open>Owners and levels\<close>

text \<open>What the tree of NFTs is about: the owner and the level at each existing address.\<close>

definition nodes :: "StateDB \<Rightarrow> address \<Rightarrow> (address \<times> u8) option" where
  "nodes s a = map_option (\<lambda>ob. (Owner (NFT (data ob)), MergeLevel (NFT (data ob)))) (getStateObject s a)"

lemma nodes_None: "nodes s a = None \<longleftrightarrow> getStateObject s a = None"
  by (simp add: nodes_def)

lemma nodes_modify_NFT:
  assumes "getStateObject s a \<noteq> None"
  shows "nodes (modify a (updNFT h) (journal_append e s)) =
     (nodes s)(a \<mapsto> (Owner (h (NFT (data (deref s a)))), MergeLevel (h (NFT (data (deref s a))))))"
  using assms live_not_deleted [OF assms]
  by (auto simp: nodes_def lookup_simps updNFT_def fun_eq_iff)

lemma nodes_putNFT: "nodes (putNFT a n l u s) = (nodes s)(a \<mapsto> (Owner n, l))"
proof -
  have "getStateObject (if Exist a s then s else CreateAccount a s) a \<noteq> None"
    by (simp add: Exist_def lookup_simps)
  then have "nodes (putNFT a n l u s) = (nodes (if Exist a s then s else CreateAccount a s))(a \<mapsto> (Owner n, l))"
    by (simp add: putNFT_def Let_def o_SetNFTInfo_def setNFTInfo_def nodes_modify_NFT)
  moreover have "nodes (CreateAccount a s) = (nodes s)(a := nodes (CreateAccount a s) a)"
    by (auto simp: nodes_def lookup_simps fun_eq_iff)
  then have "(nodes (CreateAccount a s))(a \<mapsto> x) = (nodes s)(a \<mapsto> x)" for x by (metis fun_upd_upd)
  ultimately show ?thesis by simp
qed

lemma putNFT_get:
  "getStateObject (putNFT a n l u s) a \<noteq> None \<and> MetaURL (NFT (data (deref (putNFT a n l u s) a))) = u"
  by (auto simp: putNFT_def Let_def Exist_def o_SetNFTInfo_def setNFTInfo_def updNFT_def lookup_simps
      live_not_deleted split: option.splits)

lemma nodes_CleanNFT: "getStateObject s a \<noteq> None \<Longrightarrow> nodes (o_CleanNFT a s) = (nodes s)(a \<mapsto> (0, 0))"
  by (simp add: o_CleanNFT_def cleanNFT_def nodes_modify_NFT)

lemma nodes_clean_siblings:
  "for_each (\<lambda>x. live x (\<lambda>t. Some (o_CleanNFT x t))) sibs s = Some s' \<Longrightarrow>
     nodes s' = (\<lambda>b. if b \<in> set sibs then Some (0, 0) else nodes s b)"
proof (induction sibs arbitrary: s)
  case (Cons x sibs)
  from Cons.prems have x: "getStateObject s x \<noteq> None"
    and r: "for_each (\<lambda>x. live x (\<lambda>t. Some (o_CleanNFT x t))) sibs (o_CleanNFT x s) = Some s'"
    by (auto simp: bind_Some_iff live_def [of x] split: if_splits)
  show ?case using Cons.IH [OF r] nodes_CleanNFT [OF x] by (auto simp: fun_eq_iff)
qed auto

lemma nodes_mergeSiblings:
  "mergeSiblings sibs n p s = Some s' \<Longrightarrow>
     nodes s' = (\<lambda>b. if b \<in> set sibs then Some (0, 0) else nodes s b)(p \<mapsto> (Owner n, MergeLevel n + 1))"
  by (auto simp: mergeSiblings_def bind_Some_iff nodes_putNFT dest!: nodes_clean_siblings)

lemma hasher_ops [frame_simps]:
  "hasher (CreateAccount a s) = hasher s" "hasher (o_CleanNFT a s) = hasher s" "hasher (putNFT a n l u s) = hasher s"
  by (simp_all add: CreateAccount_def createObject_def Let_def o_CleanNFT_def putNFT_def o_SetNFTInfo_def frame_simps
      split: option.split)

lemma hasher_mergeSiblings: "mergeSiblings sibs n p s = Some s' \<Longrightarrow> hasher s' = hasher s"
proof -
  have "for_each (\<lambda>x. live x (\<lambda>t. Some (o_CleanNFT x t))) sibs s = Some t \<Longrightarrow> hasher t = hasher s" for t
    by (induction sibs arbitrary: s) (auto simp: bind_Some_iff live_def frame_simps split: if_splits)
  then show "mergeSiblings sibs n p s = Some s' \<Longrightarrow> hasher s' = hasher s"
    by (auto simp: mergeSiblings_def bind_Some_iff frame_simps)
qed

lemma splitInto_nodes:
  "splitInto n parts s = Some s' \<Longrightarrow>
     nodes s' = foldl (\<lambda>f (a, l). f(a \<mapsto> (Owner n, l))) (nodes s) parts \<and> hasher s' = hasher s"
proof -
  have "for_each (\<lambda>(a, l) t. do { u \<leftarrow> moveURL k (MetaURL n) a; Some (putNFT a n l u t) }) parts s = Some s' \<Longrightarrow>
     nodes s' = foldl (\<lambda>f (a, l). f(a \<mapsto> (Owner n, l))) (nodes s) parts \<and> hasher s' = hasher s" for k
    by (induction parts arbitrary: s) (auto simp: bind_Some_iff nodes_putNFT frame_simps)
  then show "splitInto n parts s = Some s' \<Longrightarrow>
     nodes s' = foldl (\<lambda>f (a, l). f(a \<mapsto> (Owner n, l))) (nodes s) parts \<and> hasher s' = hasher s"
    unfolding splitInto_def by blast
qed

section \<open>The recursion of the merge\<close>

text \<open>\<open>cost\<close> is the number of digits cut at a level, a panic above 40.\<close>

locale merge_routine =
  fixes can :: "address \<Rightarrow> StateDB \<Rightarrow> bool panics"
    and step :: "address \<Rightarrow> StateDB \<Rightarrow> (StateDB \<times> address) panics"
    and cost :: "u8 \<Rightarrow> nat" and c :: nat
  assumes can_cost: "can a s = Some b \<Longrightarrow> \<exists>w l. nodes s a = Some (w, l) \<and> cost l \<le> 40"
    and step_level: "step a s = Some (s', p) \<Longrightarrow>
        \<exists>w l. nodes s a = Some (w, l) \<and> nodes s' p = Some (w, l + 1) \<and> hasher s' = hasher s"
    and cost_level: "cost l \<le> 40 \<Longrightarrow> cost (l + 1) = cost l + c"
    and step_undo: "journal.undoable (\<lambda>s. map_option fst (step a s))"
begin

lemma fuel_enough:
  "(\<And>w l. nodes s a = Some (w, l) \<Longrightarrow> 40 < c * n + cost l) \<Longrightarrow> merge_loop can step (Suc n) a s \<noteq> None"
proof (induction n arbitrary: a s)
  case 0
  then have "can a s = None" using can_cost [of a s] by (cases "can a s") fastforce+
  then show ?case by simp
next
  case (Suc n)
  have "merge_loop can step (Suc n) p s1 \<noteq> None"
    if b: "can a s = Some b" and st: "step a s = Some (s1, p)" for b s1 p
  proof (rule Suc.IH)
    fix w l assume l: "nodes s1 p = Some (w, l)"
    obtain w' l' where l': "nodes s a = Some (w', l')" "nodes s1 p = Some (w', l' + 1)"
      using step_level [OF st] by blast
    moreover have "cost l' \<le> 40" using can_cost [OF b] l' by auto
    ultimately show "40 < c * n + cost l" using Suc.prems [OF l'(1)] l cost_level by simp
  qed
  then show ?case by (auto split: option.split)
qed

lemma loop_undo: "journal.undoable (\<lambda>s. case merge_loop can step n a s of Some r \<Rightarrow> r | None \<Rightarrow> None)"
proof (induction n arbitrary: a)
  case 0
  then show ?case by (simp add: journal.undoable_None)
next
  case (Suc n)
  let ?rest = "\<lambda>p s. case merge_loop can step n p s of Some r \<Rightarrow> r | None \<Rightarrow> None"
  let ?g = "\<lambda>(b, p) s. if b then Option.bind (map_option fst (step a s)) (?rest p) else Some s"
  have "journal.undoable (?g x)" for x
    by (cases x) (simp, intro journal.undoable_if journal.undoable_bind step_undo Suc.IH journal.undoable_Some)
  then have "journal.undoable (\<lambda>s. ?g (can a s = Some True, snd (the (step a s))) s)"
    by (rule journal.undoable_choice)
  then show ?case
    by (rule journal.undoable_guard) (auto split: option.splits if_splits)
qed

lemma loop_hasher: "merge_loop can step n a s = Some (Some s') \<Longrightarrow> hasher s' = hasher s"
  by (induction n arbitrary: a s) (auto split: option.splits if_splits dest!: step_level)

end

lemma nodes_merged: "mergeSiblings sibs n p s = Some s' \<Longrightarrow> nodes s' p = Some (Owner n, MergeLevel n + 1)"
  by (simp add: nodes_mergeSiblings)

lemma strip0x_Address_String: "strip0x (Address_String k a) = drop 2 (Address_String k a)"
  by (simp add: strip0x_def is0x_def HasPrefix_Address_String)

lemma cut_digits_String:
  "cut_digits n (strip0x (Address_String k a)) =
     (if n > 40 then None else Some (take (40 - n) (drop 2 (Address_String k a))))"
  by (simp add: cut_digits_def strip0x_Address_String)

lemma unat_Suc_level: "unat (x :: u8) \<le> 40 \<Longrightarrow> n \<le> 40 \<Longrightarrow> unat (x + of_nat n) = unat x + n"
  by (subst unat_add_lem [THEN iffD1]) (simp_all add: unat_of_nat)

lemma unat_levels [simp]:
  "unat (x :: u8) \<le> 40 \<Longrightarrow> unat (x + 1) = unat x + 1"
  "unat (x :: u8) \<le> 40 \<Longrightarrow> unat (x + 2) = unat x + 2"
  using unat_Suc_level [of x 1] unat_Suc_level [of x 2] by simp_all

interpretation merge16: merge_routine IsCanMergeNFT16 mergeStep16 "\<lambda>l. unat (l + 1)" 1
proof unfold_locales
  fix a s b assume "IsCanMergeNFT16 a s = Some b"
  then show "\<exists>w l. nodes s a = Some (w, l) \<and> unat (l + 1) \<le> 40"
    by (auto simp: IsCanMergeNFT16_def bind_Some_iff Let_def nodes_def parentAddrS16_def cut_digits_String
        len_address_def split: if_splits)
next
  fix a s s' p assume "mergeStep16 a s = Some (s', p)"
  then show "\<exists>w l. nodes s a = Some (w, l) \<and> nodes s' p = Some (w, l + 1) \<and> hasher s' = hasher s"
    by (auto simp: mergeStep16_def bind_Some_iff Let_def nodes_def [of s] hasher_mergeSiblings dest: nodes_merged)
next
  show "unat (l + 1) \<le> 40 \<Longrightarrow> unat (l + 1 + 1) = unat (l + 1) + 1" for l :: u8
    by (rule unat_levels)
next
  show "journal.undoable (\<lambda>s. map_option fst (mergeStep16 a s))" for a
    by (rule undo_mergeStep16)
qed

interpretation merge256: merge_routine IsCanMergeNFT mergeStep256 "\<lambda>l. unat (2 * (l + 1))" 2
proof unfold_locales
  fix a s b assume "IsCanMergeNFT a s = Some b"
  then show "\<exists>w l. nodes s a = Some (w, l) \<and> unat (2 * (l + 1)) \<le> 40"
    by (auto simp: IsCanMergeNFT_def bind_Some_iff Let_def nodes_def parentAddrS256_def cut_digits_String
        len_address_def simp del: upt_rec_numeral split: if_splits)
next
  fix a s s' p assume "mergeStep256 a s = Some (s', p)"
  then show "\<exists>w l. nodes s a = Some (w, l) \<and> nodes s' p = Some (w, l + 1) \<and> hasher s' = hasher s"
    by (auto simp: mergeStep256_def bind_Some_iff Let_def nodes_def [of s] hasher_mergeSiblings
        simp del: upt_rec_numeral dest: nodes_merged)
next
  fix l :: u8 assume "unat (2 * (l + 1)) \<le> 40"
  moreover have "2 * (l + 1 + 1) = 2 * (l + 1) + 2" by (simp add: algebra_simps)
  ultimately show "unat (2 * (l + 1 + 1)) = unat (2 * (l + 1)) + 2"
    using unat_levels(2) [of "2 * (l + 1)"] by simp
next
  show "journal.undoable (\<lambda>s. map_option fst (mergeStep256 a s))" for a
    by (rule undo_mergeStep256)
qed

lemma undo_MergeNFT [undo_intros]: "journal.undoable (MergeNFT16 a)" "journal.undoable (MergeNFT a)"
proof -
  have "MergeNFT16 a = (\<lambda>s. case merge_loop IsCanMergeNFT16 mergeStep16 42 a s of Some r \<Rightarrow> r | None \<Rightarrow> None)"
    "MergeNFT a = (\<lambda>s. case merge_loop IsCanMergeNFT mergeStep256 22 a s of Some r \<Rightarrow> r | None \<Rightarrow> None)"
    by (simp_all add: fun_eq_iff MergeNFT16_def MergeNFT_def split: option.split)
  then show "journal.undoable (MergeNFT16 a)" "journal.undoable (MergeNFT a)"
    using merge16.loop_undo [of 42 a] merge256.loop_undo [of 22 a] by simp_all
qed

lemma undo_SplitNFT16 [undo_intros]: "journal.undoable (SplitNFT16 a level)"
proof (rule journal.undoable_guard)
  let ?g = "\<lambda>x s. case x of None \<Rightarrow> Some s | Some (n, parts) \<Rightarrow> splitInto n parts s"
  let ?q = "\<lambda>s. if SplitNFT16 a level s = Some s then None
    else let st = fst (the (GetNFTStoreAddress16 a 0 s)); n = NFT (data (the (getStateObject s st))); ml = unat (MergeLevel n)
         in Some (n, [(splitAddr16 (Address_String (hasher s) st) (Address_String (hasher s) a) ml i j, MergeLevel n - of_nat (i + 1)).
                        i \<leftarrow> [0..<ml - level], j \<leftarrow> [0..<16]])"
  have "journal.undoable (?g x)" for x
    by (cases x) (auto simp: undo_splitInto journal.undoable_Some)
  then show "journal.undoable (\<lambda>s. ?g (?q s) s)" by (rule journal.undoable_choice)
  show "?g (?q s) s = Some s'" if "SplitNFT16 a level s = Some s'" for s s'
    using that by (auto simp: SplitNFT16_def Let_def bind_Some_iff split: option.splits if_splits)
qed

lemma undo_SplitNFT [undo_intros]: "journal.undoable (SplitNFT a level)"
proof (rule journal.undoable_guard)
  let ?g = "\<lambda>x s. case x of None \<Rightarrow> Some s | Some (n, parts) \<Rightarrow> splitInto n parts s"
  let ?q = "\<lambda>s. if SplitNFT a level s = Some s then None
    else let st = fst (the (GetNFTStoreAddress a 0 s)); n = NFT (data (the (getStateObject s st))); ml = unat (MergeLevel n)
         in Some (n, [(splitAddr256 (Address_Bytes st) (Address_Bytes a) ml i j, MergeLevel n - of_nat (i + 1)).
                        i \<leftarrow> [0..<ml - level], j \<leftarrow> [0..<256]])"
  have "journal.undoable (?g x)" for x
    by (cases x) (auto simp: undo_splitInto journal.undoable_Some)
  then show "journal.undoable (\<lambda>s. ?g (?q s) s)" by (rule journal.undoable_choice)
  show "?g (?q s) s = Some s'" if "SplitNFT a level s = Some s'" for s s'
    using that by (auto simp: SplitNFT_def Let_def bind_Some_iff simp del: upt_rec_numeral split: option.splits if_splits)
qed

lemma foldl_put_exists:
  "f b \<noteq> None \<Longrightarrow> foldl (\<lambda>f (a, l). f(a \<mapsto> (w, l))) f parts b \<noteq> None"
proof (induction parts arbitrary: f)
  case (Cons x parts)
  show ?case using Cons.IH [of "f(fst x \<mapsto> (w, snd x))"] Cons.prems by (simp add: case_prod_beta)
qed simp

lemma SplitNFT16_cases:
  assumes "SplitNFT16 a level s = Some s'"
  obtains "s' = s"
  | st w ob where "GetNFTStoreAddress16 a 0 s = Some (st, w)" "getStateObject s st = Some ob"
    "level < unat (MergeLevel (NFT (data ob)))"
    "take (42 - unat (MergeLevel (NFT (data ob)))) (Address_String (hasher s) st)
       @ take (42 - level - (42 - unat (MergeLevel (NFT (data ob))))) (drop (42 - unat (MergeLevel (NFT (data ob)))) (Address_String (hasher s) a))
       @ drop (42 - level) (Address_String (hasher s) st) = Address_String (hasher s) a"
    "splitInto (NFT (data ob)) [(splitAddr16 (Address_String (hasher s) st) (Address_String (hasher s) a)
       (unat (MergeLevel (NFT (data ob)))) i j, MergeLevel (NFT (data ob)) - of_nat (i + 1)).
         i \<leftarrow> [0..<unat (MergeLevel (NFT (data ob))) - level], j \<leftarrow> [0..<16]] s = Some s'"
  using assms
  by (auto simp: SplitNFT16_def Let_def bind_Some_iff simp del: upt_rec_numeral split: option.splits if_splits)

lemma SplitNFT16_keeps: "SplitNFT16 a level s = Some s' \<Longrightarrow>
   hasher s' = hasher s \<and> (getStateObject s b \<noteq> None \<longrightarrow> getStateObject s' b \<noteq> None)"
proof -
  have "splitInto n parts s = Some s' \<Longrightarrow> getStateObject s b \<noteq> None \<longrightarrow> getStateObject s' b \<noteq> None" for n parts
    using splitInto_nodes [of n parts s s'] foldl_put_exists [of "nodes s" b "Owner n" parts]
    by (auto simp: nodes_None [symmetric] simp del: not_None_eq)
  then show "SplitNFT16 a level s = Some s' \<Longrightarrow>
     hasher s' = hasher s \<and> (getStateObject s b \<noteq> None \<longrightarrow> getStateObject s' b \<noteq> None)"
    by (elim SplitNFT16_cases) (use splitInto_nodes in blast)+
qed

lemma undo_live: "journal.undoable F \<Longrightarrow> journal.undoable (live a F)"
  by (erule journal.undoable_guard) (simp add: live_def split: if_splits)

lemma undo_ChangeNFTOwner [undo_intros]: "journal.undoable (ChangeNFTOwner a w level)"
proof -
  let ?off = "IsOfficialNFT a"
  let ?F = "if ?off then SplitNFT16 a level else Some"
  let ?M = "if ?off then MergeNFT16 a else Some"
  have M: "journal.undoable (live a (\<lambda>s. ?M (o_ChangeNFTOwner a w s)))"
  proof (rule journal.undoable_guard [OF journal.undoable_bind [OF undo_o_ChangeNFTOwner [of a w]]])
    show "journal.undoable ?M" by (simp add: undo_MergeNFT journal.undoable_Some)
    show "live a (\<lambda>s. ?M (o_ChangeNFTOwner a w s)) s = Some s' \<Longrightarrow>
        Option.bind (live a (\<lambda>s. Some (o_ChangeNFTOwner a w s)) s) ?M = Some s'" for s s'
      by (auto simp: live_def split: if_splits)
  qed
  have "journal.undoable (live a (\<lambda>s. Option.bind (?F s) (\<lambda>s. ?M (o_ChangeNFTOwner a w s))))"
  proof (rule undo_live_bind [OF undo_live M])
    show "journal.undoable ?F" by (simp add: undo_SplitNFT16 journal.undoable_Some)
    show "getStateObject s a \<noteq> None \<Longrightarrow> ?F s = Some s' \<Longrightarrow> getStateObject s' a \<noteq> None" for s s'
      by (simp split: if_splits) (metis SplitNFT16_keeps not_None_eq)
  qed
  from undo_GetOrNew [OF this] show ?thesis
    by (rule journal.undoable_guard) (auto simp: ChangeNFTOwner_def Let_def if_distribR)
qed

end
