(* ===== verification/NFTOwners.thy ===== *)
theory NFTOwners
  imports NFTTree
begin

text \<open>
  Who owns an official NFT. The routines of theory NFTTree are reduced to updates of the map
  \<open>nodes\<close> from addresses to owner and level: the search visits the ancestors \<open>clr d x\<close> of an
  NFT, a merge moves the ownership of sixteen siblings to their parent, one round of a split
  moves it back. On well-formed trees (each NFT has one owning ancestor, and every address on
  the way to it exists) merging and splitting leave every owner as it was, and a transfer
  changes exactly the NFTs below the transferred address.
\<close>

section \<open>Definitions\<close>

text \<open>The search for the owning ancestor, along the given depths.\<close>

fun search :: "(address \<Rightarrow> (address \<times> u8) option) \<Rightarrow> address \<Rightarrow> nat list \<Rightarrow> (address \<times> address) option" where
  "search f x [] = None"
| "search f x (d # ds) =
     (case f (clr d x) of
        None \<Rightarrow> None
      | Some (w, l) \<Rightarrow> if w \<noteq> 0 \<and> unat l = d then Some (clr d x, w) else search f x ds)"

text \<open>The ancestor at a depth owns the NFT.\<close>

definition own :: "(address \<Rightarrow> (address \<times> u8) option) \<Rightarrow> address \<Rightarrow> nat \<Rightarrow> address \<Rightarrow> bool" where
  "own f x d w \<longleftrightarrow> w \<noteq> 0 \<and> (\<exists>l. f (clr d x) = Some (w, l) \<and> unat l = d)"

definition tree_ok :: "(address \<Rightarrow> (address \<times> u8) option) \<Rightarrow> bool" where
  "tree_ok f \<longleftrightarrow>
     (\<forall>x d e w v. own f x d w \<longrightarrow> own f x e v \<longrightarrow> d = e) \<and>
     (\<forall>x d e w. own f x d w \<longrightarrow> e < d \<longrightarrow> f (clr e x) \<noteq> None)"

text \<open>The sixteen children of the ancestor above an address at a level.\<close>

definition sib :: "address \<Rightarrow> nat \<Rightarrow> nat \<Rightarrow> address" where
  "sib a L i = of_nat ((unat a div 16 ^ (L + 1) * 16 + i) * 16 ^ L)"

definition sibs :: "address \<Rightarrow> nat \<Rightarrow> address list" where
  "sibs a L = map (sib a L) [0..<16]"

text \<open>Levels that leave room for a merge below the depth limit of the search.\<close>

definition low_but :: "address \<Rightarrow> (address \<Rightarrow> (address \<times> u8) option) \<Rightarrow> bool" where
  "low_but a f \<longleftrightarrow> (\<forall>b w l. f b = Some (w, l) \<longrightarrow> unat l \<le> 6 \<and> (b \<noteq> a \<longrightarrow> unat l < 6))"

definition url_ok :: "StateDB \<Rightarrow> address \<Rightarrow> bool" where
  "url_ok s a \<longleftrightarrow> LastIndexSlash (MetaURL (NFT (data (deref s a)))) \<ge> 0"

section \<open>The search\<close>

lemma upt_cut: "d \<le> 6 \<Longrightarrow> [0..<7] = [0..<d] @ d # [Suc d..<7]"
  by (metis le_imp_less_Suc le0 less_imp_le_nat upt_add_eq_append upt_conv_Cons le_add_diff_inverse numeral_eq_Suc pred_numeral_simps(3) semiring_norm(26,27,28))

lemma GetNFTStoreAddress16_search:
  "d \<le> 7 \<Longrightarrow> GetNFTStoreAddress16 (clr d x) d s = search (nodes s) x [d..<7]"
proof (induction "7 - d" arbitrary: d)
  case 0
  then have "d = 7" by simp
  then show ?case by (simp add: GetNFTStoreAddress16.simps [of _ 7] QUERYDEPTHLIMIT16_def)
next
  case (Suc k)
  then have d: "d < 7" "[d..<7] = d # [Suc d..<7]" "k = 7 - Suc d"
    by (auto simp: upt_conv_Cons)
  have "HexToAddress (take (length (Address_String (hasher s) (clr d x)) - (d + 1)) (Address_String (hasher s) (clr d x))
      @ replicate (d + 1) CHR ''0'') = clr (Suc d) x"
    using HexToAddress_cut [of "d + 1" "hasher s" "clr d x"] d by simp
  with Suc.hyps(1) [OF d(3)] d show ?case
    by (simp add: GetNFTStoreAddress16.simps [of _ d] QUERYDEPTHLIMIT16_def d(2) nodes_def Let_def
        del: upt_rec_numeral split: option.split)
qed

lemma store_search: "GetNFTStoreAddress16 x 0 s = search (nodes s) x [0..<7]"
  using GetNFTStoreAddress16_search [of 0 x s] by simp

lemma search_Some:
  "search f x ds = Some (st, w) \<Longrightarrow> \<exists>d \<in> set ds. st = clr d x \<and> own f x d w"
  by (induction ds) (auto simp: own_def split: option.splits if_splits)

lemma search_append:
  "(\<And>d. d \<in> set ds \<Longrightarrow> f (clr d x) \<noteq> None) \<Longrightarrow> (\<And>d w. d \<in> set ds \<Longrightarrow> \<not> own f x d w) \<Longrightarrow>
     search f x (ds @ es) = search f x es"
proof (induction ds)
  case (Cons d ds)
  obtain w l where "f (clr d x) = Some (w, l)" using Cons.prems(1) [of d] by auto
  then show ?case using Cons by (auto simp: own_def)
qed simp

lemma tree_okD:
  assumes "tree_ok f"
  shows "own f x d w \<Longrightarrow> own f x e v \<Longrightarrow> d = e" and "own f x d w \<Longrightarrow> e < d \<Longrightarrow> f (clr e x) \<noteq> None"
  using assms unfolding tree_ok_def by blast+

lemma search_own:
  assumes "tree_ok f" and "own f x d w" and "d \<le> 6"
  shows "search f x [0..<7] = Some (clr d x, w)"
proof -
  have "search f x ([0..<d] @ d # [Suc d..<7]) = search f x (d # [Suc d..<7])"
    by (rule search_append) (use tree_okD [OF assms(1)] assms(2) in fastforce)+
  then show ?thesis using assms unfolding upt_cut [OF assms(3)] by (auto simp: own_def)
qed

text \<open>On a well-formed tree the owner is the owner of the one owning ancestor.\<close>

lemma GetNFTOwner16_own:
  assumes "tree_ok (nodes s)"
  shows "GetNFTOwner16 x s = w \<and> w \<noteq> 0 \<longleftrightarrow> (\<exists>d \<le> 6. own (nodes s) x d w)"
proof
  assume w: "GetNFTOwner16 x s = w \<and> w \<noteq> 0"
  then obtain st v where st: "search (nodes s) x [0..<7] = Some (st, v)"
    by (auto simp: GetNFTOwner16_def store_search simp del: upt_rec_numeral split: option.splits)
  then obtain d where d: "d < 7" "st = clr d x" "own (nodes s) x d v" by (auto dest!: search_Some)
  then have "v = w" using w st
    by (auto simp: GetNFTOwner16_def store_search own_def nodes_def simp del: upt_rec_numeral split: option.splits)
  then show "\<exists>d \<le> 6. own (nodes s) x d w" using d by (intro exI [of _ d]) auto
next
  assume "\<exists>d \<le> 6. own (nodes s) x d w"
  then obtain d where d: "d \<le> 6" "own (nodes s) x d w" by blast
  then show "GetNFTOwner16 x s = w \<and> w \<noteq> 0"
    using search_own [OF assms d(2,1)]
    by (auto simp: GetNFTOwner16_def store_search own_def nodes_def simp del: upt_rec_numeral split: option.splits)
qed

lemma same_owners:
  assumes "tree_ok (nodes s)" and "tree_ok (nodes t)"
    and "\<And>w. (\<exists>d \<le> 6. own (nodes s) x d w) \<longleftrightarrow> (\<exists>d \<le> 6. own (nodes t) x d w)"
  shows "GetNFTOwner16 x s = GetNFTOwner16 x t"
  using GetNFTOwner16_own [OF assms(1), of x] GetNFTOwner16_own [OF assms(2), of x] assms(3) by metis

section \<open>Siblings\<close>

lemma unat_sib:
  assumes "L < 40" and "i < 16"
  shows "unat (sib a L i) = (unat a div 16 ^ (L + 1) * 16 + i) * 16 ^ L"
proof -
  let ?q = "unat a div 16 ^ (L + 1)"
  have p: "(16::nat) ^ (39 - L) * 16 ^ (L + 1) = 2 ^ 160"
    using assms(1) by (simp flip: power_add)
  have "unat a < 16 ^ (39 - L) * 16 ^ (L + 1)" unfolding p using unsigned_less [of a, where ?'a = nat] by simp
  then have "?q < 16 ^ (39 - L)" by (simp add: less_mult_imp_div_less)
  then have "(?q + 1) * 16 ^ (L + 1) \<le> 2 ^ 160" unfolding p [symmetric] by (intro mult_right_mono) simp_all
  moreover have "(?q * 16 + i) * 16 ^ L < (?q + 1) * 16 ^ (L + 1)"
    using assms(2) by (simp add: algebra_simps)
  ultimately have "(?q * 16 + i) * 16 ^ L < 2 ^ 160" by linarith
  then show ?thesis unfolding sib_def by (subst unat_of_nat) simp
qed

lemma clr_sib:
  assumes "L < 40" and "i < 16"
  shows "clr (L + 1) (sib a L i) = clr (L + 1) a" and "clr L (sib a L i) = sib a L i"
proof -
  have "(unat a div 16 ^ (L + 1) * 16 + i) * 16 ^ L div 16 ^ (L + 1) = unat a div 16 ^ (L + 1)"
    using assms(2) by (simp add: power_add div_mult2_eq [symmetric] flip: div_mult2_eq mult.assoc)
  then show "clr (L + 1) (sib a L i) = clr (L + 1) a"
    unfolding clr_def [of "L + 1"] unat_sib [OF assms] by simp
  show "clr L (sib a L i) = sib a L i"
    unfolding clr_def unat_sib [OF assms] by (simp add: sib_def)
qed

lemma clr_eq_iff: "clr d x = clr d a \<longleftrightarrow> unat x div 16 ^ d = unat a div 16 ^ d"
proof
  assume "clr d x = clr d a"
  then have "unat (clr d x) = unat (clr d a)" by simp
  then show "unat x div 16 ^ d = unat a div 16 ^ d" unfolding unat_clr by simp
qed (simp add: clr_def)

lemma clr_in_sibs:
  assumes "L < 40"
  shows "clr L x \<in> set (sibs a L) \<longleftrightarrow> clr (L + 1) x = clr (L + 1) a"
proof
  assume "clr L x \<in> set (sibs a L)"
  then obtain i where "i < 16" "clr L x = sib a L i" by (auto simp: sibs_def)
  then have "clr (L + 1) (clr L x) = clr (L + 1) a" using clr_sib(1) [OF assms] by simp
  then show "clr (L + 1) x = clr (L + 1) a" by simp
next
  assume "clr (L + 1) x = clr (L + 1) a"
  then have "unat x div 16 ^ (L + 1) = unat a div 16 ^ (L + 1)" by (simp add: clr_eq_iff)
  moreover have "unat x div 16 ^ L = unat x div 16 ^ (L + 1) * 16 + unat x div 16 ^ L mod 16"
    by (simp add: power_add div_mult2_eq mult.commute [of 16])
  ultimately have "clr L x = sib a L (unat x div 16 ^ L mod 16)"
    unfolding clr_def sib_def by metis
  then show "clr L x \<in> set (sibs a L)" by (simp add: sibs_def del: upt_rec_numeral)
qed

lemma parent_in_sibs: "L < 40 \<Longrightarrow> clr (L + 1) a \<in> set (sibs a L)"
  using clr_in_sibs [of L "clr (L + 1) a" a] by simp

text \<open>A search that meets a sibling starts below the parent or meets the parent from far below.\<close>

lemma search_meets_sibs:
  assumes "L < 40" and "clr d x \<in> set (sibs a L)"
  shows "clr (L + 1) x = clr (L + 1) a \<or> (L + 1 < d \<and> clr d x = clr (L + 1) a)"
proof -
  obtain i where "i < 16" "clr d x = sib a L i" using assms(2) by (auto simp: sibs_def)
  then have "clr (L + 1) (clr d x) = clr (L + 1) a" using clr_sib(1) [OF assms(1)] by simp
  then show ?thesis by (cases "d \<le> L + 1") (auto simp: max_def split: if_splits)
qed

section \<open>Merging, splitting and changing the owner on the tree\<close>

definition merged :: "address \<Rightarrow> nat \<Rightarrow> address \<Rightarrow> u8 \<Rightarrow> (address \<Rightarrow> (address \<times> u8) option) \<Rightarrow> address \<Rightarrow> (address \<times> u8) option" where
  "merged a L w l f = (\<lambda>b. if b \<in> set (sibs a L) then Some (0, 0) else f b)(clr (L + 1) a \<mapsto> (w, l + 1))"

lemma own_merged:
  assumes "tree_ok f" and "L < 40" and "unat l = L" and "unat (l + 1) = L + 1"
    and same: "\<And>b. b \<in> set (sibs a L) \<Longrightarrow> f b = Some (v, l)"
  shows "own (merged a L v l f) x d w \<longleftrightarrow>
     (if clr (L + 1) x = clr (L + 1) a \<and> v \<noteq> 0 then d = L + 1 \<and> w = v else own f x d w)"
proof (cases "clr d x \<in> set (sibs a L)")
  case True
  note meets = search_meets_sibs [OF assms(2) True]
  have f: "own f x d w \<longleftrightarrow> d = L \<and> w = v \<and> v \<noteq> 0" using same [OF True] assms(3) by (auto simp: own_def)
  show ?thesis
  proof (cases "clr d x = clr (L + 1) a")
    case p: True
    then have g: "own (merged a L v l f) x d w \<longleftrightarrow> d = L + 1 \<and> w = v \<and> v \<noteq> 0"
      using assms(4) by (auto simp: own_def merged_def)
    show ?thesis
    proof (cases "clr (L + 1) x = clr (L + 1) a")
      case False
      then have "L + 1 < d" using meets by simp
      then show ?thesis using False f g by simp
    qed (use f g in auto)
  next
    case False
    then have "\<not> own (merged a L v l f) x d w" using True by (auto simp: own_def merged_def)
    moreover have "clr (L + 1) x = clr (L + 1) a" using meets False by blast
    ultimately show ?thesis using False f by auto
  qed
next
  case False
  then have ne: "clr d x \<noteq> clr (L + 1) a" using parent_in_sibs [OF assms(2)] by metis
  then have g: "own (merged a L v l f) x d w \<longleftrightarrow> own f x d w" using False by (simp add: own_def merged_def)
  show ?thesis
  proof (cases "clr (L + 1) x = clr (L + 1) a \<and> v \<noteq> 0")
    case True
    then have "clr L x \<in> set (sibs a L)" using clr_in_sibs [OF assms(2)] by blast
    then have "own f x L v" using same assms(3) True by (auto simp: own_def)
    then have "\<not> own f x d w" using tree_okD(1) [OF assms(1)] \<open>clr L x \<in> set (sibs a L)\<close> False by blast
    then show ?thesis using g True ne by auto
  qed (use g in auto)
qed

lemma merged_exists: "f b \<noteq> None \<Longrightarrow> merged a L v l f b \<noteq> None"
  by (simp add: merged_def)

lemma tree_ok_merged:
  assumes "tree_ok f" and "L < 40" and "unat l = L" and "unat (l + 1) = L + 1"
    and same: "\<And>b. b \<in> set (sibs a L) \<Longrightarrow> f b = Some (v, l)"
  shows "tree_ok (merged a L v l f)"
proof -
  note own = own_merged [OF assms]
  have "merged a L v l f (clr e x) \<noteq> None" if "own (merged a L v l f) x d w" "e < d" for x d e w
  proof (rule merged_exists, cases "clr (L + 1) x = clr (L + 1) a \<and> v \<noteq> 0")
    case True
    then have s: "clr L x \<in> set (sibs a L)" using clr_in_sibs [OF assms(2)] by blast
    then have "own f x L v" using same assms(3) True by (auto simp: own_def)
    then show "f (clr e x) \<noteq> None"
      using tree_okD(2) [OF assms(1), of x L v e] same [OF s] that True own [where x = x and d = d and w = w] by (cases "e = L") auto
  next
    case False
    then show "f (clr e x) \<noteq> None" using tree_okD(2) [OF assms(1)] that own [where x = x and d = d and w = w] by metis
  qed
  moreover have "d = e" if "own (merged a L v l f) x d w" "own (merged a L v l f) x e u" for x d e w u
    using that tree_okD(1) [OF assms(1), of x d w e u]
      own [where x = x and d = d and w = w] own [where x = x and d = e and w = u] by (auto split: if_splits)
  ultimately show ?thesis unfolding tree_ok_def by blast
qed

definition splitted :: "address \<Rightarrow> nat \<Rightarrow> address \<Rightarrow> u8 \<Rightarrow> (address \<Rightarrow> (address \<times> u8) option) \<Rightarrow> address \<Rightarrow> (address \<times> u8) option" where
  "splitted a L w l f = (\<lambda>b. if b \<in> set (sibs a L) then Some (w, l) else f b)"

lemma own_splitted:
  assumes "tree_ok f" and "L < 40" and "unat l = L" and "own f a (L + 1) v"
  shows "own (splitted a L v l f) x d w \<longleftrightarrow>
     (if clr (L + 1) x = clr (L + 1) a then d = L \<and> w = v else own f x d w)"
proof -
  have v: "v \<noteq> 0" "own f x (L + 1) v" if "clr (L + 1) x = clr (L + 1) a"
    using assms(4) that by (auto simp: own_def)
  show ?thesis
  proof (cases "clr d x \<in> set (sibs a L)")
    case True
    then have g: "own (splitted a L v l f) x d w \<longleftrightarrow> d = L \<and> w = v \<and> v \<noteq> 0"
      using assms(3) by (auto simp: own_def splitted_def)
    show ?thesis
    proof (cases "clr (L + 1) x = clr (L + 1) a")
      case False
      then have "L + 1 < d" "clr d x = clr (L + 1) a" using search_meets_sibs [OF assms(2) True] by auto
      then have "\<not> own f x d w" using assms(4) by (auto simp: own_def)
      then show ?thesis using False g \<open>L + 1 < d\<close> by simp
    qed (use g v in auto)
  next
    case False
    then have g: "own (splitted a L v l f) x d w \<longleftrightarrow> own f x d w" by (simp add: own_def splitted_def)
    show ?thesis
    proof (cases "clr (L + 1) x = clr (L + 1) a")
      case True
      then have "d \<noteq> L" "d \<noteq> L + 1" using False clr_in_sibs [OF assms(2)] parent_in_sibs [OF assms(2)] by metis+
      then show ?thesis using True g tree_okD(1) [OF assms(1) v(2)] by auto
    qed (use g in auto)
  qed
qed

lemma tree_ok_splitted:
  assumes "tree_ok f" and "L < 40" and "unat l = L" and "own f a (L + 1) v"
  shows "tree_ok (splitted a L v l f)"
proof -
  note own = own_splitted [OF assms]
  have "splitted a L v l f (clr e x) \<noteq> None" if "own (splitted a L v l f) x d w" "e < d" for x d e w
  proof -
    have "f (clr e x) \<noteq> None"
    proof (cases "clr (L + 1) x = clr (L + 1) a")
      case True
      then have "own f x (L + 1) v" using assms(4) by (auto simp: own_def)
      then show ?thesis
        using tree_okD(2) [OF assms(1), of x "L + 1" v e] that True own [where x = x and d = d and w = w] by simp
    next
      case False
      then show ?thesis using tree_okD(2) [OF assms(1), of x d w e] that own [where x = x and d = d and w = w] by simp
    qed
    then show ?thesis by (simp add: splitted_def)
  qed
  moreover have "d = e" if "own (splitted a L v l f) x d w" "own (splitted a L v l f) x e u" for x d e w u
    using that tree_okD(1) [OF assms(1), of x d w e u]
      own [where x = x and d = d and w = w] own [where x = x and d = e and w = u] by (auto split: if_splits)
  ultimately show ?thesis unfolding tree_ok_def by blast
qed

lemma own_changed:
  assumes "tree_ok f" and "own f a L v" and "clr L a = a" and "u \<noteq> 0" and "f a = Some (v, l)"
  shows "own (f(a \<mapsto> (u, l))) x d w \<longleftrightarrow> (if clr L x = a then d = L \<and> w = u else own f x d w)"
proof -
  have l: "unat l = L" using assms(2,3,5) by (auto simp: own_def)
  show ?thesis
  proof (cases "clr d x = a")
    case True
    then have "own (f(a \<mapsto> (u, l))) x d w \<longleftrightarrow> d = L \<and> w = u" "own f x d w \<Longrightarrow> d = L"
      using l assms(4,5) by (auto simp: own_def)
    then show ?thesis using True by auto
  next
    case False
    then have g: "own (f(a \<mapsto> (u, l))) x d w \<longleftrightarrow> own f x d w" by (simp add: own_def)
    show ?thesis
    proof (cases "clr L x = a")
      case True
      then have "own f x L v" using assms(2,3) by (auto simp: own_def)
      then show ?thesis using True False g tree_okD(1) [OF assms(1), of x L v d w] by auto
    qed (use g in simp)
  qed
qed

lemma tree_ok_changed:
  assumes "tree_ok f" and "own f a L v" and "clr L a = a" and "u \<noteq> 0" and "f a = Some (v, l)"
  shows "tree_ok (f(a \<mapsto> (u, l)))"
proof -
  note own = own_changed [OF assms]
  have "(f(a \<mapsto> (u, l))) (clr e x) \<noteq> None" if "own (f(a \<mapsto> (u, l))) x d w" "e < d" for x d e w
  proof -
    have "f (clr e x) \<noteq> None"
    proof (cases "clr L x = a")
      case True
      then have "own f x L v" using assms(2,3) by (auto simp: own_def)
      then show ?thesis
        using tree_okD(2) [OF assms(1), of x L v e] that True own [where x = x and d = d and w = w] by simp
    next
      case False
      then show ?thesis using tree_okD(2) [OF assms(1), of x d w e] that own [where x = x and d = d and w = w] by simp
    qed
    then show ?thesis by simp
  qed
  moreover have "d = e" if "own (f(a \<mapsto> (u, l))) x d w" "own (f(a \<mapsto> (u, l))) x e y" for x d e w y
    using that tree_okD(1) [OF assms(1), of x d w e y]
      own [where x = x and d = d and w = w] own [where x = x and d = e and w = y] by (auto split: if_splits)
  ultimately show ?thesis unfolding tree_ok_def by blast
qed

section \<open>The routines on the tree\<close>

lemma digits_of_address:
  assumes "n \<le> 40"
  shows "list_all isHexCharacter (take n (drop 2 (Address_String k a)))"
    and "hexval (take n (drop 2 (Address_String k a))) = unat a div 16 ^ (40 - n)"
proof -
  obtain ds where ds: "Address_String k a = ''0x'' @ ds" "length ds = 40"
    "list_all isHexCharacter ds" "hexval (take n ds) = unat a div 16 ^ (40 - n)"
    by (rule Address_String_take [OF assms, of k a])
  then show "list_all isHexCharacter (take n (drop 2 (Address_String k a)))"
    "hexval (take n (drop 2 (Address_String k a))) = unat a div 16 ^ (40 - n)"
    by (simp_all add: list_all_takeI)
qed

lemma SetString16_digits: "list_all isHexCharacter ds \<Longrightarrow> parent_Int ds = int (hexval ds)"
  by (cases ds) (auto simp: parent_Int_def SetString16_def hex_digits_def isHexCharacter_def hexval_def)

lemma parentAddrS16_eq:
  assumes "unat l = L" and "L < 40"
  shows "parentAddrS16 s a l = Some (take (39 - L) (drop 2 (Address_String (hasher s) a)))"
  using assms by (simp add: parentAddrS16_def cut_digits_String)

lemma sibling16_eq:
  assumes "unat l = L" and "L < 40"
  shows "sibling16 (take (39 - L) (drop 2 (Address_String k a))) l i = sib a L i"
proof -
  have "parent_Int (take (39 - L) (drop 2 (Address_String k a))) = int (unat a div 16 ^ (L + 1))"
    using SetString16_digits digits_of_address [of "39 - L" k a] assms by simp
  then have "parent_Int (take (39 - L) (drop 2 (Address_String k a))) * 2 ^ 4 + int i = int (unat a div 16 ^ (L + 1) * 16 + i)"
    by simp
  then show ?thesis
    unfolding sibling16_def padded_address_def Let_def
    by (simp only: abs_of_nat nat_int HexToAddress_padded assms sib_def)
qed

lemma mergedAddr_eq:
  assumes "L < 40"
  shows "mergedAddr (take (39 - L) (drop 2 (Address_String k a))) = clr (L + 1) a"
proof -
  let ?ds = "take (39 - L) (drop 2 (Address_String k a))"
  have "mergedAddr ?ds = of_nat (hexval (?ds @ replicate (L + 1) CHR ''0''))"
    unfolding mergedAddr_def using digits_of_address(1) [of "39 - L" k a] assms
    by (subst HexToAddress_digits) (simp_all add: isHexCharacter_def)
  also have "hexval (?ds @ replicate (L + 1) CHR ''0'') = unat a div 16 ^ (L + 1) * 16 ^ (L + 1)"
    using digits_of_address(2) [of "39 - L" k a] assms by (simp only: hexval_append hexval_zeros length_replicate) simp
  finally show ?thesis by (simp add: clr_def)
qed

lemma sameSiblings_iff:
  assumes "getStateObject s a = Some ob"
  shows "sameSiblings s a (NFT (data ob)) bs \<longleftrightarrow> (\<forall>b \<in> set bs. nodes s b = nodes s a)"
proof -
  have "(b = a \<or> (case getStateObject s b of None \<Rightarrow> False
      | Some sob \<Rightarrow> Owner (NFT (data sob)) = Owner (NFT (data ob)) \<and> MergeLevel (NFT (data sob)) = MergeLevel (NFT (data ob))))
     \<longleftrightarrow> nodes s b = nodes s a" for b
    using assms by (cases "getStateObject s b") (auto simp: nodes_def)
  then show ?thesis by (simp add: sameSiblings_def list_all_iff)
qed

lemma IsCanMergeNFT16_iff:
  assumes "nodes s a = Some (w, l)" and "unat l = L" and "L < 40"
  shows "IsCanMergeNFT16 a s = Some (\<forall>b \<in> set (sibs a L). nodes s b = Some (w, l))"
proof -
  obtain ob where ob: "getStateObject s a = Some ob" "Owner (NFT (data ob)) = w" "MergeLevel (NFT (data ob)) = l"
    using assms(1) by (auto simp: nodes_def)
  have "map (sibling16 (take (39 - L) (drop 2 (Address_String (hasher s) a))) l) [0..<16] = sibs a L"
    unfolding sibs_def by (rule map_cong) (simp_all only: sibling16_eq [OF assms(2,3)])
  then show ?thesis
    unfolding IsCanMergeNFT16_def
    by (simp add: len_address_def ob parentAddrS16_eq [OF assms(2,3)] sameSiblings_iff [OF ob(1)] assms(1)
        del: upt_rec_numeral set_map)
qed

lemma moveURL_Some: "LastIndexSlash url \<ge> 0 \<Longrightarrow> moveURL k url a \<noteq> None"
  by (simp add: moveURL_def Let_def)

lemma LastIndexSlash_append: "LastIndexSlash t \<ge> 0 \<Longrightarrow> LastIndexSlash (u @ t) \<ge> 0"
  by (induction u) (auto simp: Let_def)

lemma moveURL_slash: "moveURL k url a = Some u \<Longrightarrow> LastIndexSlash u \<ge> 0"
  by (auto simp: moveURL_def Let_def split: if_splits intro!: LastIndexSlash_append)

lemma clean_siblings_total:
  "(\<And>b. b \<in> set bs \<Longrightarrow> getStateObject s b \<noteq> None) \<Longrightarrow>
     for_each (\<lambda>x. live x (\<lambda>t. Some (o_CleanNFT x t))) bs s \<noteq> None"
proof (induction bs arbitrary: s)
  case (Cons b bs)
  have "getStateObject (o_CleanNFT b s) x \<noteq> None" if "x \<in> set bs" for x
    using Cons.prems [of x] that nodes_CleanNFT [of s b] Cons.prems [of b]
    by (simp add: nodes_None [symmetric] del: not_None_eq)
  then show ?case using Cons by (simp add: live_def [of b])
qed simp

text \<open>A merge that is possible is done, without a panic, and is a merge on the tree.\<close>

lemma mergeStep16_nodes:
  assumes "nodes s a = Some (w, l)" and "unat l = L" and "L < 40" and "url_ok s a"
    and same: "\<And>b. b \<in> set (sibs a L) \<Longrightarrow> nodes s b = Some (w, l)"
  shows "\<exists>s'. mergeStep16 a s = Some (s', clr (L + 1) a) \<and> nodes s' = merged a L w l (nodes s)
     \<and> url_ok s' (clr (L + 1) a) \<and> hasher s' = hasher s"
proof -
  obtain ob where ob: "getStateObject s a = Some ob" "Owner (NFT (data ob)) = w" "MergeLevel (NFT (data ob)) = l"
    using assms(1) by (auto simp: nodes_def)
  let ?p = "clr (L + 1) a"
  have sibs: "map (sibling16 (take (39 - L) (drop 2 (Address_String (hasher s) a))) l) [0..<16] = sibs a L"
    unfolding sibs_def by (rule map_cong) (simp_all only: sibling16_eq [OF assms(2,3)])
  obtain s1 where s1: "for_each (\<lambda>x. live x (\<lambda>t. Some (o_CleanNFT x t))) (sibs a L) s = Some s1"
    using clean_siblings_total [of "sibs a L" s] same by (auto simp: nodes_None [symmetric])
  obtain u where u: "moveURL (hasher s) (MetaURL (NFT (data ob))) ?p = Some u"
    using assms(4) moveURL_Some deref_get [OF ob(1)] unfolding url_ok_def by blast
  let ?s' = "putNFT ?p (NFT (data ob)) (l + 1) u s1"
  have m: "mergeSiblings (sibs a L) (NFT (data ob)) ?p s = Some ?s'"
    using s1 u ob by (simp add: mergeSiblings_def)
  have "mergeStep16 a s = Some (?s', ?p)"
    unfolding mergeStep16_def
    by (simp add: ob parentAddrS16_eq [OF assms(2,3)] sibs mergedAddr_eq [OF assms(3)] m
        del: upt_rec_numeral One_nat_def add_Suc_right)
  moreover have "nodes ?s' = merged a L w l (nodes s)"
    using nodes_mergeSiblings [OF m] ob unfolding merged_def by simp
  moreover have "url_ok ?s' ?p"
    using putNFT_get [of ?p "NFT (data ob)" "l + 1" u s1] moveURL_slash [OF u] by (simp add: url_ok_def)
  ultimately show ?thesis using hasher_mergeSiblings [OF m] by blast
qed

lemma sib_distinct: "L < 40 \<Longrightarrow> sib a L 0 \<noteq> sib a L 1"
  using unat_sib [of L 0 a] unat_sib [of L 1 a] by auto

lemma merged_owners:
  assumes "tree_ok (nodes s)" and "nodes s' = merged a L v l (nodes s)" and "L < 6" and "unat l = L"
    and same: "\<And>b. b \<in> set (sibs a L) \<Longrightarrow> nodes s b = Some (v, l)"
  shows "tree_ok (nodes s')" and "GetNFTOwner16 x s' = GetNFTOwner16 x s"
proof -
  have l: "L < 40" "unat (l + 1) = L + 1" using assms(3,4) by simp_all
  show ok: "tree_ok (nodes s')"
    unfolding assms(2) by (rule tree_ok_merged [OF assms(1) l(1) assms(4) l(2) same])
  note own = own_merged [OF assms(1) l(1) assms(4) l(2) same, where x = x]
  show "GetNFTOwner16 x s' = GetNFTOwner16 x s"
  proof (rule same_owners [OF ok assms(1)])
    fix w
    show "(\<exists>d \<le> 6. own (nodes s') x d w) \<longleftrightarrow> (\<exists>d \<le> 6. own (nodes s) x d w)"
    proof (cases "clr (L + 1) x = clr (L + 1) a \<and> v \<noteq> 0")
      case True
      then have "own (nodes s) x L v"
        using clr_in_sibs [OF l(1), of x a] same assms(4) by (auto simp: own_def)
      then have "own (nodes s) x d w \<longleftrightarrow> d = L \<and> w = v" for d
        using tree_okD(1) [OF assms(1)] by (auto simp: own_def) (metis option.inject prod.inject)+
      then show ?thesis using own True assms(2,3) by auto
    next
      case False
      then show ?thesis using own assms(2) by auto
    qed
  qed
qed

lemma merge_loop_owners:
  assumes "nodes s a = Some (w, l)" and "tree_ok (nodes s)" and "low_but a (nodes s)" and "url_ok s a"
  shows "merge_loop IsCanMergeNFT16 mergeStep16 n a s = None \<or>
     (\<exists>s'. merge_loop IsCanMergeNFT16 mergeStep16 n a s = Some (Some s') \<and> tree_ok (nodes s')
        \<and> (\<forall>x. GetNFTOwner16 x s' = GetNFTOwner16 x s))"
  using assms
proof (induction n arbitrary: a s w l)
  case (Suc n)
  define L where "L = unat l"
  have L: "unat l = L" "L < 40" using Suc.prems(1,3) by (auto simp: low_but_def L_def) fastforce
  note can = IsCanMergeNFT16_iff [OF Suc.prems(1) L]
  show ?case
  proof (cases "\<forall>b \<in> set (sibs a L). nodes s b = Some (w, l)")
    case False
    then show ?thesis using can Suc.prems(2) by auto
  next
    case True
    have "sib a L 0 \<in> set (sibs a L)" "sib a L 1 \<in> set (sibs a L)" by (simp_all add: sibs_def)
    then have L6: "L < 6" using sib_distinct [OF L(2), of a] True Suc.prems(3) L(1) unfolding low_but_def by metis
    obtain s1 where s1: "mergeStep16 a s = Some (s1, clr (L + 1) a)" "nodes s1 = merged a L w l (nodes s)"
      "url_ok s1 (clr (L + 1) a)"
      using mergeStep16_nodes [OF Suc.prems(1) L Suc.prems(4)] True by blast
    note ow = merged_owners [OF Suc.prems(2) s1(2) L6 L(1)]
    have p: "nodes s1 (clr (L + 1) a) = Some (w, l + 1)" unfolding s1(2) by (simp add: merged_def)
    have low: "nodes s b = Some (w', l') \<Longrightarrow> unat l' < 6" for b w' l'
      using Suc.prems(1,3) L6 L(1) unfolding low_but_def by (cases "b = a") auto
    have "unat (l + 1) = L + 1" using L L6 by simp
    then have "low_but (clr (L + 1) a) (nodes s1)"
      using L6 unfolding s1(2) merged_def low_but_def
      by (auto split: if_splits dest: low intro: less_imp_le)
    then show ?thesis
      using Suc.IH [OF p _ _ s1(3)] ow True can s1(1) by simp
  qed
qed simp

lemma MergeNFT16_owners:
  assumes "nodes s a = Some (w, l)" and "tree_ok (nodes s)" and "low_but a (nodes s)" and "url_ok s a"
  shows "\<exists>s'. MergeNFT16 a s = Some s' \<and> tree_ok (nodes s') \<and> (\<forall>x. GetNFTOwner16 x s' = GetNFTOwner16 x s)"
proof -
  have "merge_loop IsCanMergeNFT16 mergeStep16 42 a s \<noteq> None"
    using merge16.fuel_enough [of s a 41] by simp
  then show ?thesis using merge_loop_owners [OF assms, of 42] unfolding MergeNFT16_def by auto
qed

section \<open>Splitting\<close>

lemma split_digit_hex:
  "j < 16 \<Longrightarrow> fromHexChar (split_digit j) = Some j" "j < 16 \<Longrightarrow> isHexCharacter (split_digit j)"
  by (auto simp: fromHexChar_def isHexCharacter_def split_digit_def Let_def)

lemma low_digits:
  assumes "m \<le> 40"
  shows "hexval (drop (40 - m) (drop 2 (Address_String k a))) = unat a mod 16 ^ m"
    and "list_all isHexCharacter (drop (40 - m) (drop 2 (Address_String k a)))"
proof -
  let ?ds = "drop 2 (Address_String k a)"
  have "hexval ?ds = hexval (take (40 - m) ?ds) * 16 ^ m + hexval (drop (40 - m) ?ds)"
    using hexval_append [of "take (40 - m) ?ds" "drop (40 - m) ?ds"] assms
    by (simp only: append_take_drop_id length_drop length_Address_String) simp
  moreover have "hexval ?ds = unat a" using digits_of_address(2) [of 40 k a] by simp
  moreover have "hexval (take (40 - m) ?ds) = unat a div 16 ^ m"
    using digits_of_address(2) [of "40 - m" k a] assms by simp
  ultimately show "hexval (drop (40 - m) ?ds) = unat a mod 16 ^ m"
    by (metis add_left_imp_eq div_mult_mod_eq)
  have "list_all isHexCharacter ?ds" using digits_of_address(1) [of 40 k a] by simp
  then show "list_all isHexCharacter (drop (40 - m) ?ds)"
    unfolding list_all_iff using in_set_dropD [of _ "40 - m" ?ds] by blast
qed

lemma splitAddr16_eq:
  assumes "i < M" and "M \<le> 6" and "j < 16" and "st = clr M a"
    and guard: "take (42 - M) (Address_String k st) = take (42 - M) (Address_String k a)"
  shows "splitAddr16 (Address_String k st) (Address_String k a) M i j = sib a (M - 1 - i) j"
proof -
  define L where "L = M - 1 - i"
  let ?A = "Address_String k a" and ?S = "Address_String k st"
  have p: "42 - M + i = 41 - L" "L < M" using assms(1,2) by (auto simp: L_def)
  have e: "42 - L = Suc (Suc (40 - L))" using p(2) assms(2) by auto
  have "take (42 - M) ?S @ take i (drop (42 - M) ?A) @ drop (42 - M + i) ?S = take (41 - L) ?A @ drop (41 - L) ?S"
    unfolding guard p(1) [symmetric] by (simp add: take_add)
  moreover have "(take (41 - L) ?A @ drop (41 - L) ?S)[41 - L := c] = take (41 - L) ?A @ c # drop (42 - L) ?S" for c
  proof -
    have "drop (41 - L) ?S = ?S ! (41 - L) # drop (42 - L) ?S"
    proof -
      have "41 - L < length ?S" "Suc (41 - L) = 42 - L" using p(2) assms(2) by auto
      then show ?thesis using Cons_nth_drop_Suc [of "41 - L" ?S] by simp
    qed
    then show ?thesis by (simp add: list_update_append)
  qed
  ultimately have "splitAddr16 ?S ?A M i j = HexToAddress (take (41 - L) ?A @ split_digit j # drop (42 - L) ?S)"
    unfolding splitAddr16_def Let_def by (simp only: length_Address_String p(1))
  also have "take (41 - L) ?A = ''0x'' @ take (39 - L) (drop 2 ?A)"
  proof -
    obtain ds where "?A = ''0x'' @ ds" by (rule Address_String_take [of 0 k a]) auto
    moreover have "41 - L = Suc (Suc (39 - L))" using p(2) assms(2) by auto
    ultimately show ?thesis by simp
  qed
  also have "HexToAddress ((''0x'' @ take (39 - L) (drop 2 ?A)) @ split_digit j # drop (42 - L) ?S)
      = of_nat (hexval (take (39 - L) (drop 2 ?A) @ split_digit j # drop (40 - L) (drop 2 ?S)))"
    using HexToAddress_value [of "take (39 - L) (drop 2 ?A) @ split_digit j # drop (40 - L) (drop 2 ?S)"]
      digits_of_address(1) [of "39 - L" k a] low_digits(2) [of L k st] split_digit_hex(2) [OF assms(3)] p assms(2) e
    by simp
  also have "hexval (take (39 - L) (drop 2 ?A) @ split_digit j # drop (40 - L) (drop 2 ?S))
      = (unat a div 16 ^ (L + 1) * 16 + j) * 16 ^ L + unat st mod 16 ^ L"
  proof -
    have "hexval (split_digit j # ds) = j * 16 ^ length ds + hexval ds" for ds
      using hexval_append [of "[split_digit j]" ds] split_digit_hex(1) [OF assms(3)] by (simp add: hexval_def [of "[split_digit j]"])
    moreover have "hexval (take (39 - L) (drop 2 ?A)) = unat a div 16 ^ (L + 1)"
      using digits_of_address(2) [of "39 - L" k a] p assms(2) by simp
    ultimately show ?thesis
      using low_digits(1) [of L k st] p assms(2) by (simp add: hexval_append algebra_simps)
  qed
  also have "unat st mod 16 ^ L = 0"
    using p(2) unfolding assms(4) unat_clr by (simp add: mod_eq_0_iff_dvd le_imp_power_dvd)
  finally show ?thesis by (simp add: sib_def L_def)
qed

lemma foldl_round:
  "foldl (\<lambda>f (a, l). f(a \<mapsto> (w, l))) f (map (\<lambda>j. (g j, l)) js) = (\<lambda>b. if b \<in> g ` set js then Some (w, l) else f b)"
  by (induction js arbitrary: f) (auto simp: fun_eq_iff)

text \<open>The first \<open>k\<close> rounds of a split on the tree.\<close>

definition rounds :: "address \<Rightarrow> nat \<Rightarrow> u8 \<Rightarrow> nat \<Rightarrow> (address \<times> u8) list" where
  "rounds a M l k = [(sib a (M - 1 - i) j, l - of_nat (i + 1)). i \<leftarrow> [0..<k], j \<leftarrow> [0..<16]]"

lemma rounds_Suc: "foldl (\<lambda>f (a, l). f(a \<mapsto> (w, l))) f (rounds a M l (Suc k)) =
   splitted a (M - 1 - k) w (l - of_nat (k + 1)) (foldl (\<lambda>f (a, l). f(a \<mapsto> (w, l))) f (rounds a M l k))"
proof -
  have "rounds a M l (Suc k) = rounds a M l k @ map (\<lambda>j. (sib a (M - 1 - k) j, l - of_nat (k + 1))) [0..<16]"
    by (simp add: rounds_def del: upt_rec_numeral)
  then show ?thesis
    by (simp add: foldl_round splitted_def sibs_def fun_eq_iff del: upt_rec_numeral of_nat_Suc of_nat_add)
qed

lemma rounds_owners:
  assumes "tree_ok f" and "own f a M w" and "unat l = M" and "M \<le> 6"
    and low: "\<And>b v l. f b = Some (v, l) \<Longrightarrow> unat l < 6"
  defines "g \<equiv> \<lambda>k. foldl (\<lambda>f (a, l). f(a \<mapsto> (w, l))) f (rounds a M l k)"
  shows "k \<le> M \<Longrightarrow> tree_ok (g k) \<and> own (g k) a (M - k) w
     \<and> (\<forall>x v. (\<exists>d \<le> 6. own (g k) x d v) \<longleftrightarrow> (\<exists>d \<le> 6. own f x d v))
     \<and> (\<forall>b v l. g k b = Some (v, l) \<longrightarrow> unat l < 6)"
proof (induction k)
  case 0
  then show ?case using assms(1,2) low by (simp add: g_def rounds_def)
next
  case (Suc k)
  define L where "L = M - 1 - k"
  have L: "L + 1 = M - k" "L < 40" "L < 6" "M - Suc k = L" using Suc.prems assms(4) by (auto simp: L_def)
  from Suc have ok: "tree_ok (g k)" and ow': "own (g k) a (M - k) w"
    and eq: "(\<exists>d \<le> 6. own (g k) x d v) \<longleftrightarrow> (\<exists>d \<le> 6. own f x d v)"
    and lw: "g k b = Some (v, l') \<Longrightarrow> unat l' < 6" for x v b l'
    by simp_all
  note ow = ow' [folded L(1)]
  have l: "unat (l - of_nat (k + 1)) = L"
  proof -
    have "unat (of_nat (k + 1) :: u8) = k + 1" using Suc.prems assms(4) by (simp only: unat_of_nat) simp
    then show ?thesis
      using Suc.prems assms(3) by (subst unat_sub) (simp_all add: word_le_nat_alt L_def del: of_nat_add of_nat_Suc)
  qed
  have g: "g (Suc k) = splitted a L w (l - of_nat (k + 1)) (g k)" unfolding g_def rounds_Suc L_def by simp
  note own = own_splitted [OF ok L(2) l ow]
  have "(\<exists>d \<le> 6. own (g (Suc k)) x d v) \<longleftrightarrow> (\<exists>d \<le> 6. own (g k) x d v)" for x v
  proof (cases "clr (L + 1) x = clr (L + 1) a")
    case True
    then have "own (g k) x (L + 1) w" using ow by (auto simp: own_def)
    then have "own (g k) x d v \<longleftrightarrow> d = L + 1 \<and> v = w" for d
      using tree_okD(1) [OF ok] by (auto simp: own_def) (metis option.inject prod.inject)+
    then show ?thesis unfolding g using own True L(3) by auto
  next
    case False
    then show ?thesis unfolding g using own by auto
  qed
  moreover have "own (g (Suc k)) a L w" unfolding g using own [where x = a] by simp
  moreover have "unat l' < 6" if "g (Suc k) b = Some (v, l')" for b v l'
    using that lw [of b v l'] l L(3) unfolding g splitted_def by (auto split: if_splits)
  ultimately show ?case
    using tree_ok_splitted [OF ok L(2) l ow] eq unfolding g L(4) by simp
qed

lemma digits_nibs: "list_all2 (\<lambda>c n. fromHexChar c = Some n) (drop 2 (Address_String k a)) (nibs a)"
proof -
  obtain ds where "Address_String k a = ''0x'' @ ds" "list_all2 (\<lambda>c n. fromHexChar c = Some n) ds (nibs a)"
    by (rule Address_String_digits)
  then show ?thesis by simp
qed

lemma fromHexChar_0: "fromHexChar c = Some 0 \<Longrightarrow> c = CHR ''0''"
proof -
  assume "fromHexChar c = Some 0"
  then have "of_char c = (48 :: nat)" by (auto simp: fromHexChar_def Let_def split: if_splits)
  then have "of_char c = (of_char (CHR ''0'') :: nat)" by simp
  then show ?thesis by (simp only: of_char_eq_iff)
qed

lemma drop_zero_digits:
  assumes "clr m a = a" and "m \<le> 40"
  shows "drop (42 - m) (Address_String k a) = replicate m (CHR ''0'')"
proof (rule nth_equalityI)
  show "length (drop (42 - m) (Address_String k a)) = length (replicate m (CHR ''0''))" using assms(2) by simp
next
  fix i assume "i < length (drop (42 - m) (Address_String k a))"
  then have i: "i < m" using assms(2) by simp
  then have n: "40 - m + i < 40" "39 - (40 - m + i) = m - 1 - i" "2 + (40 - m + i) = 42 - m + i"
    using assms(2) by auto
  have "fromHexChar (drop 2 (Address_String k a) ! (40 - m + i)) = Some (nibs a ! (40 - m + i))"
    using list_all2_nthD [OF digits_nibs [of k a], of "40 - m + i"] n by simp
  moreover have "nibs a ! (40 - m + i) = nibble a (m - 1 - i)" using n(1,2) by (simp only: nibs_def nth_map length_upt nth_upt diff_zero add_0)
  moreover have "nibble a (m - 1 - i) = 0"
  proof -
    have m: "m = (m - 1 - i) + Suc i" using i by simp
    have "unat a = unat a div 16 ^ m * 16 ^ m" using unat_clr [of m a] assms(1) by simp
    also have "\<dots> = unat a div 16 ^ m * 16 ^ i * 16 * 16 ^ (m - 1 - i)" by (subst (2) m) (simp add: power_add)
    finally have "unat a div 16 ^ (m - 1 - i) = unat a div 16 ^ m * 16 ^ i * 16" by (metis div_mult_self_is_m zero_less_power zero_less_numeral)
    then show ?thesis by (simp add: nibble_def)
  qed
  ultimately have "drop 2 (Address_String k a) ! (40 - m + i) = CHR ''0''" using fromHexChar_0 by simp
  then show "drop (42 - m) (Address_String k a) ! i = replicate m (CHR ''0'') ! i" using i n(1,3) assms(2) by simp
qed

lemma take_drop_middle: "p \<le> q \<Longrightarrow> take p xs @ take (q - p) (drop p xs) @ drop q xs = xs"
  by (metis append.assoc append_take_drop_id le_add_diff_inverse take_add)


lemma deref_putNFT_other: "a \<noteq> b \<Longrightarrow> deref (putNFT b n l u s) a = deref s a"
proof -
  assume ab: "a \<noteq> b"
  have "getDeletedStateObject (CreateAccount b s) a = getDeletedStateObject s a"
    using ab by (auto simp: CreateAccount_def createObject_def Let_def lookup_simps split: option.splits)
  then have "deref (CreateAccount b s) a = deref s a"
    by (simp add: deref_def frame_simps split: option.split)
  then show ?thesis
    using ab by (simp add: putNFT_def Let_def o_SetNFTInfo_def lookup_simps)
qed

lemma url_ok_putNFT:
  "LastIndexSlash u \<ge> 0 \<Longrightarrow> a = b \<or> url_ok s a \<Longrightarrow> url_ok (putNFT b n l u s) a"
  using putNFT_get [of b n l u s] deref_putNFT_other [of a b n l u s] by (cases "a = b") (auto simp: url_ok_def)

lemma splitInto_total:
  assumes "LastIndexSlash (MetaURL n) \<ge> 0"
  obtains s' where "splitInto n parts s = Some s'"
    "\<And>a l. (a, l) \<in> set parts \<Longrightarrow> url_ok s' a"
proof -
  let ?put = "\<lambda>(a, l) t. do { u \<leftarrow> moveURL (hasher s) (MetaURL n) a; Some (putNFT a n l u t) }"
  have "\<exists>s'. for_each ?put parts t = Some s' \<and> (\<forall>a. url_ok t a \<or> a \<in> fst ` set parts \<longrightarrow> url_ok s' a)" for t
  proof (induction parts arbitrary: t)
    case (Cons x parts)
    obtain b l where x: "x = (b, l)" by (cases x)
    obtain u where u: "moveURL (hasher s) (MetaURL n) b = Some u" using moveURL_Some [OF assms] by blast
    obtain s' where s': "for_each ?put parts (putNFT b n l u t) = Some s'"
      "\<forall>a. url_ok (putNFT b n l u t) a \<or> a \<in> fst ` set parts \<longrightarrow> url_ok s' a"
      using Cons.IH by blast
    have "url_ok s' a" if "url_ok t a \<or> a \<in> fst ` set (x # parts)" for a
      using that s'(2) url_ok_putNFT [OF moveURL_slash [OF u], of a b t n l] by (auto simp: x)
    then show ?case using s'(1) u by (auto simp: x)
  qed auto
  then obtain s' where "for_each ?put parts s = Some s'" "\<forall>a. a \<in> fst ` set parts \<longrightarrow> url_ok s' a" by blast
  then show thesis using that unfolding splitInto_def by force
qed

text \<open>A split to a level, when the store address and the NFT agree on the case of their common digits.\<close>

lemma SplitNFT16_owners:
  assumes ok: "tree_ok (nodes s)" and low: "\<And>b v l. nodes s b = Some (v, l) \<Longrightarrow> unat l < 6"
    and st: "GetNFTStoreAddress16 a 0 s = Some (st, w)" and lev: "nodes s st = Some (w, l)" "level \<le> unat l"
    and al: "clr level a = a" and url: "url_ok s st"
    and guard: "level < unat l \<Longrightarrow> take (42 - unat l) (Address_String (hasher s) st) = take (42 - unat l) (Address_String (hasher s) a)"
  shows "\<exists>s'. SplitNFT16 a level s = Some s' \<and> tree_ok (nodes s') \<and> own (nodes s') a level w
     \<and> (\<forall>x v. (\<exists>d \<le> 6. own (nodes s') x d v) \<longleftrightarrow> (\<exists>d \<le> 6. own (nodes s) x d v))
     \<and> (\<forall>b v l. nodes s' b = Some (v, l) \<longrightarrow> unat l < 6) \<and> url_ok s' a"
proof -
  obtain d where "d < 7" "st = clr d a" "own (nodes s) a d w" using st unfolding store_search by (auto dest!: search_Some)
  then have own: "st = clr (unat l) a" "own (nodes s) a (unat l) w" "unat l \<le> 6" using lev(1) by (auto simp: own_def)
  obtain ob where ob: "getStateObject s st = Some ob" "Owner (NFT (data ob)) = w" "MergeLevel (NFT (data ob)) = l"
    using lev(1) by (auto simp: nodes_def)
  show ?thesis
  proof (cases "level = unat l")
    case True
    then have "SplitNFT16 a level s = Some s" using st ob by (simp add: SplitNFT16_def Let_def)
    then show ?thesis using ok own low al url True by auto
  next
    case False
    then have lt: "level < unat l" using lev(2) by simp
    let ?A = "Address_String (hasher s) a" and ?S = "Address_String (hasher s) st"
    define k where "k = unat l - level"
    have k: "k \<le> unat l" "k \<noteq> 0" "unat l - k = level" using lt by (auto simp: k_def)
    have tail: "drop (42 - level) ?S = drop (42 - level) ?A"
      using drop_zero_digits [of level a "hasher s"] drop_zero_digits [of level st "hasher s"] al own(1,3) lt by simp
    then have "take (42 - unat l) ?S @ take (42 - level - (42 - unat l)) (drop (42 - unat l) ?A) @ drop (42 - level) ?S = ?A"
      using guard [OF lt] lt own(3) take_drop_middle [of "42 - unat l" "42 - level" ?A] by simp
    moreover have "[(splitAddr16 ?S ?A (unat l) i j, l - of_nat (i + 1)). i \<leftarrow> [0..<k], j \<leftarrow> [0..<16]] = rounds a (unat l) l k"
      unfolding rounds_def
      by (intro arg_cong [where f = concat] map_cong) (use own k guard [OF lt] splitAddr16_eq in auto)
    ultimately have split: "SplitNFT16 a level s = splitInto (NFT (data ob)) (rounds a (unat l) l k) s"
      using st ob lt unfolding SplitNFT16_def k_def by (simp add: Let_def del: upt_rec_numeral)
    obtain s' where s': "splitInto (NFT (data ob)) (rounds a (unat l) l k) s = Some s'"
      "\<And>b m. (b, m) \<in> set (rounds a (unat l) l k) \<Longrightarrow> url_ok s' b"
      using splitInto_total [of "NFT (data ob)" "rounds a (unat l) l k" s] url deref_get [OF ob(1)] unfolding url_ok_def by metis
    have "nodes s' = foldl (\<lambda>f (a, l). f(a \<mapsto> (w, l))) (nodes s) (rounds a (unat l) l k)"
      using splitInto_nodes [OF s'(1)] ob by simp
    moreover have "url_ok s' a"
    proof -
      have "a \<in> set (sibs a level)" using clr_in_sibs [of level a a] al lt own(3) by simp
      then obtain j where "j < 16" "a = sib a level j" by (auto simp: sibs_def)
      then have "(a, l - of_nat (k - 1 + 1)) \<in> set (rounds a (unat l) l k)"
        using k by (auto simp: rounds_def intro!: bexI [of _ "k - 1"])
      then show ?thesis by (rule s'(2))
    qed
    ultimately show ?thesis
      using rounds_owners [OF ok own(2) refl own(3) low k(1)] split s'(1) k(3) by simp
  qed
qed

section \<open>Transfer\<close>

lemma nodes_o_ChangeNFTOwner:
  assumes "nodes s a = Some (w, l)"
  shows "nodes (o_ChangeNFTOwner a u s) = (nodes s)(a \<mapsto> (u, l))"
    and "url_ok s a \<Longrightarrow> url_ok (o_ChangeNFTOwner a u s) a"
proof -
  have live: "getStateObject s a \<noteq> None" using assms by (auto simp: nodes_def)
  then have d: "Owner (NFT (data (deref s a))) = w" "MergeLevel (NFT (data (deref s a))) = l"
    using assms by (auto simp: nodes_def deref_get)
  have "getStateObject (o_SetOwner a u s) a \<noteq> None"
    using live_not_deleted [OF live] by (simp add: o_SetOwner_def lookup_simps setOwner_def updNFT_def)
  then show "nodes (o_ChangeNFTOwner a u s) = (nodes s)(a \<mapsto> (u, l))"
    using d assms nodes_modify_NFT [OF live]
    by (auto simp: o_ChangeNFTOwner_def o_SetNFTApproveAddress_def setNFTApproveAddress_def nodes_modify_NFT
        fun_eq_iff) (simp_all add: o_SetOwner_def setOwner_def lookup_simps updNFT_def)
  show "url_ok s a \<Longrightarrow> url_ok (o_ChangeNFTOwner a u s) a"
    by (simp add: url_ok_def o_ChangeNFTOwner_def o_SetNFTApproveAddress_def o_SetOwner_def setNFTApproveAddress_def
        setOwner_def updNFT_def lookup_simps)
qed

lemma nodes_New: "nodes (New tr st c k) a = map_option (\<lambda>d. (Owner (NFT d), MergeLevel (NFT d))) (tr a)"
  by (auto simp: nodes_def getStateObject_def getDeletedStateObject_def New_def decodeAccount_def split: option.split)

lemma merge_loop_more: "merge_loop can step n a s = Some r \<Longrightarrow> merge_loop can step (n + m) a s = Some r"
  by (induction n arbitrary: a s) (auto split: option.splits if_splits)

text \<open>C32: both merge routines terminate. From every state and address the recursion of
  \<open>MergeNFT16\<close> ends after at most 42 calls and that of \<open>MergeNFT\<close> after at most 22, since each
  call raises the merge level and the cut of the address string panics past forty digits: a
  larger bound gives the same result.\<close>

theorem MergeNFT_terminates:
  "merge_loop IsCanMergeNFT16 mergeStep16 (42 + n) a s = Some (MergeNFT16 a s)
   \<and> merge_loop IsCanMergeNFT mergeStep256 (22 + n) a s = Some (MergeNFT a s)"
proof -
  obtain r where r: "merge_loop IsCanMergeNFT16 mergeStep16 42 a s = Some r"
    using merge16.fuel_enough [of s a 41] by auto
  obtain q where q: "merge_loop IsCanMergeNFT mergeStep256 22 a s = Some q"
    using merge256.fuel_enough [of s a 21] by auto
  show ?thesis
    using merge_loop_more [OF r, of n] merge_loop_more [OF q, of n] r q by (simp add: MergeNFT16_def MergeNFT_def)
qed

lemma store_exists: "GetNFTStoreAddress16 a 0 s = Some x \<Longrightarrow> getStateObject s a \<noteq> None"
  by (auto simp: GetNFTStoreAddress16.simps split: option.splits)

text \<open>C1: a transfer of an official NFT does what it says. In a state whose NFT tree is well
  formed (every NFT has at most one owning ancestor, and the addresses on the way to it exist)
  and has no NFT of merge level 6 or more, take an NFT address of a level at most that of the
  merged NFT it belongs to, such that the merged NFT's URL has a slash and, if a split is
  needed, the two addresses agree on the letter case of their common digits. Then
  \<open>ChangeNFTOwner\<close> does not panic, afterwards exactly the NFTs below the transferred address
  belong to the new owner, every other NFT has the owner it had (splits and merges included),
  and the tree is well formed again.\<close>

theorem ChangeNFTOwner_transfers:
  assumes ok: "tree_ok (nodes s)" and low: "\<forall>b v l. nodes s b = Some (v, l) \<longrightarrow> unat l < 6"
    and off: "IsOfficialNFT a"
    and st: "GetNFTStoreAddress16 a 0 s = Some (st, w)" and lev: "nodes s st = Some (w, l)" "level \<le> unat l"
    and al: "clr level a = a" and url: "url_ok s st"
    and guard: "level < unat l \<longrightarrow> take (42 - unat l) (Address_String (hasher s) st) = take (42 - unat l) (Address_String (hasher s) a)"
    and new: "u \<noteq> 0"
  shows "\<exists>s'. ChangeNFTOwner a u level s = Some s' \<and> tree_ok (nodes s')
     \<and> (\<forall>x. GetNFTOwner16 x s' = (if clr level x = a then u else GetNFTOwner16 x s))"
proof -
  have s1: "GetOrNewStateObject a s = s"
    using store_exists [OF st] by (auto simp: GetOrNewStateObject_def)
  obtain s2 where s2: "SplitNFT16 a level s = Some s2" "tree_ok (nodes s2)" "own (nodes s2) a level w"
    "\<And>x v. (\<exists>d \<le> 6. own (nodes s2) x d v) \<longleftrightarrow> (\<exists>d \<le> 6. own (nodes s) x d v)"
    "\<And>b v l. nodes s2 b = Some (v, l) \<Longrightarrow> unat l < 6" "url_ok s2 a"
    using SplitNFT16_owners [OF ok _ st lev al url] low guard by blast
  obtain m where m: "nodes s2 a = Some (w, m)" "unat m = level" using s2(3) al by (auto simp: own_def)
  let ?s3 = "o_ChangeNFTOwner a u s2"
  note n3 = nodes_o_ChangeNFTOwner [OF m(1), of u]
  note own3 = own_changed [OF s2(2,3) al new m(1), folded n3(1)]
  have ok3: "tree_ok (nodes ?s3)" using tree_ok_changed [OF s2(2,3) al new m(1)] n3(1) by simp
  have a3: "nodes ?s3 a = Some (u, m)" "low_but a (nodes ?s3)"
    using n3(1) m s2(5) by (auto simp: low_but_def less_imp_le split: if_splits)
  obtain s' where s': "MergeNFT16 a ?s3 = Some s'" "tree_ok (nodes s')" "\<And>x. GetNFTOwner16 x s' = GetNFTOwner16 x ?s3"
    using MergeNFT16_owners [OF a3(1) ok3 a3(2) n3(2) [OF s2(6)]] by blast
  have "GetNFTOwner16 x ?s3 = (if clr level x = a then u else GetNFTOwner16 x s)" for x
  proof (cases "clr level x = a")
    case True
    then have "\<exists>d \<le> 6. own (nodes ?s3) x d u"
      using own3 [where x = x and d = level and w = u] m s2(5) by (intro exI [of _ level]) fastforce
    then show ?thesis using GetNFTOwner16_own [OF ok3, of x u] True by auto
  next
    case False
    then show ?thesis using same_owners [OF ok3 ok, of x] own3 [where x = x] s2(4) by simp
  qed
  then show ?thesis using s1 s2(1) s' off by (simp add: ChangeNFTOwner_def)
qed

section \<open>Official addresses\<close>

lemma and_128: "((v::byte) AND 128 = 128) \<longleftrightarrow> bit v 7"
proof -
  have b: "bit (128::byte) n \<longleftrightarrow> n = 7" for n
  proof -
    have "(128 :: byte) = 2 ^ 7" by simp
    then show ?thesis by (simp only: bit_exp_iff) auto
  qed
  show ?thesis
  proof
    assume "v AND 128 = 128"
    then have "bit (v AND 128) 7" using b by metis
    then show "bit v 7" by (simp only: bit_and_iff)
  next
    assume v: "bit v 7"
    show "v AND 128 = 128"
    proof (rule bit_eqI)
      show "bit (v AND 128) n \<longleftrightarrow> bit (128 :: byte) n" for n
        unfolding bit_and_iff b using v by blast
    qed
  qed
qed

lemma bit_7: "bit (v::byte) 7 \<longleftrightarrow> 128 \<le> unat v"
proof -
  have "unat v < 256" using unsigned_less [of v, where ?'a = nat] by simp
  then have "unat v div 128 = 0 \<or> unat v div 128 = 1" by linarith
  moreover have "bit v 7 \<longleftrightarrow> odd (unat v div 2 ^ 7)"
    by (metis bit_iff_odd bit_unsigned_iff possible_bit_nat bit_nat_iff)
  ultimately show ?thesis by (auto simp: div_eq_0_iff)
qed

lemma IsOfficialNFT_iff: "IsOfficialNFT a \<longleftrightarrow> 2 ^ 159 \<le> unat a"
proof -
  define v where "v = (of_nat (unat a div 256 ^ 19) :: byte)"
  have "unat a < 256 * 256 ^ 19" using unsigned_less [of a, where ?'a = nat] by simp
  then have "unat a div 256 ^ 19 < 256" by (rule less_mult_imp_div_less)
  then have v: "unat v = unat a div 256 ^ 19" unfolding v_def by (subst unat_of_nat) simp
  have "Address_Bytes a ! 0 = v"
    unfolding Address_Bytes_def v_def by (subst nth_map) (simp_all only: length_upt nth_upt, simp_all)
  then have "IsOfficialNFT a \<longleftrightarrow> 128 \<le> unat a div 256 ^ 19"
    unfolding IsOfficialNFT_def using and_128 [of v] bit_7 [of v] v by simp
  also have "\<dots> \<longleftrightarrow> 128 * 256 ^ 19 \<le> unat a" by (rule less_eq_div_iff_mult_less_eq) simp
  finally show ?thesis by simp
qed

text \<open>A digest of zeros leaves every letter in lower case.\<close>

lemma Address_String_lower: "Address_String (\<lambda>_. 0) a = ''0x'' @ map hexdigit (nibs a)"
proof -
  have "Address_String (\<lambda>_. 0) a = take 2 (Address_hex a) @ map ((!) (Address_hex a)) [2..<length (Address_hex a)]"
    unfolding Address_String_def checksumHex_def Let_def Hash_byte_def by (simp add: Let_def)
  also have "map ((!) (Address_hex a)) [2..<length (Address_hex a)] = drop 2 (Address_hex a)"
    by (rule nth_equalityI) auto
  finally show ?thesis by (simp add: Address_hex_def EncodeToString_Address)
qed

lemma take_String_lower:
  assumes "clr d a = clr d b" and "d \<le> 40"
  shows "take (42 - d) (Address_String (\<lambda>_. 0) a) = take (42 - d) (Address_String (\<lambda>_. 0) b)"
proof -
  have q: "unat a div 16 ^ d = unat b div 16 ^ d" using assms(1) by (simp add: clr_eq_iff)
  have "nibble a k = nibble b k" if k: "d \<le> k" for k
  proof -
    obtain e where e: "k = d + e" using k le_Suc_ex by blast
    have "unat x div 16 ^ k = unat x div 16 ^ d div 16 ^ e" for x :: address
      unfolding e power_add by (rule div_mult2_eq)
    then show ?thesis using q by (simp add: nibble_def)
  qed
  then have "take (40 - d) (nibs a) = take (40 - d) (nibs b)"
    by (intro nth_equalityI) (auto simp: nibs_def simp del: upt_rec_numeral)
  moreover have "42 - d = Suc (Suc (40 - d))" using assms(2) by simp
  ultimately show ?thesis by (simp add: Address_String_lower take_map)
qed

subsection \<open>An example state\<close>

text \<open>All addresses below an official address \<open>base\<close> of depth \<open>M\<close> exist; the aligned ones carry
  NFTs of level \<open>L\<close>, all of one owner.\<close>

definition holder :: "address \<Rightarrow> u8 \<Rightarrow> string \<Rightarrow> Account" where
  "holder w l url = (zeroAccount (\<lambda>_. 0))\<lparr>NFT := noNFT\<lparr>Owner := w, MergeLevel := l, MetaURL := url\<rparr>\<rparr>"

definition family :: "nat \<Rightarrow> u8 \<Rightarrow> address \<Rightarrow> keccak \<Rightarrow> StateDB" where
  "family M l base = New (\<lambda>b. if clr M b = base
       then Some (if clr (unat l) b = b then holder 5 l ''/ipfs/d'' else holder 0 0 []) else None)
     (\<lambda>_ _. 0) (\<lambda>_. [])"

lemma nodes_family:
  "nodes (family M l base k) b =
     (if clr M b = base then Some (if clr (unat l) b = b then (5, l) else (0, 0)) else None)"
  by (simp add: family_def nodes_New holder_def noNFT_def)

lemma own_family:
  assumes "unat l \<le> M"
  shows "own (nodes (family M l base k)) x d w \<longleftrightarrow> d = unat l \<and> w = 5 \<and> clr M x = base"
proof
  assume "own (nodes (family M l base k)) x d w"
  then show "d = unat l \<and> w = 5 \<and> clr M x = base"
    using assms by (auto simp: own_def nodes_family max_def split: if_splits)
next
  assume "d = unat l \<and> w = 5 \<and> clr M x = base"
  then show "own (nodes (family M l base k)) x d w" using assms by (auto simp: own_def nodes_family max_def)
qed

lemma tree_ok_family: "unat l \<le> M \<Longrightarrow> tree_ok (nodes (family M l base k))"
  by (auto simp: tree_ok_def own_family nodes_family max_def)

lemma hasher_family [simp]: "hasher (family M l base k) = k"
  by (simp add: family_def New_def)

lemma url_ok_family: "clr M a = base \<Longrightarrow> clr (unat l) a = a \<Longrightarrow> url_ok (family M l base k) a"
  by (simp add: url_ok_def deref_def getDeletedStateObject_def family_def New_def holder_def decodeAccount_def Let_def)

lemma owner_family: "unat l \<le> 6 \<Longrightarrow> unat l \<le> M \<Longrightarrow> clr M x = base \<Longrightarrow> GetNFTOwner16 x (family M l base k) = 5"
  using GetNFTOwner16_own [OF tree_ok_family, of l M x base k 5] own_family [of l M base k x "unat l" 5] by auto

lemma store_family:
  assumes "unat l \<le> 6" and "unat l \<le> M" and "clr M x = base"
  shows "GetNFTStoreAddress16 x 0 (family M l base k) = Some (clr (unat l) x, 5)"
proof -
  have "own (nodes (family M l base k)) x (unat l) 5" using assms by (simp add: own_family)
  then show ?thesis unfolding store_search by (rule search_own [OF tree_ok_family [OF assms(2)] _ assms(1)])
qed

lemma low_family: "unat l < 6 \<Longrightarrow> nodes (family M l base k) b = Some (v, m) \<Longrightarrow> unat m < 6"
  by (auto simp: nodes_family split: if_splits)

theorem ChangeNFTOwner_transfers_witness:
  "\<exists>s'. ChangeNFTOwner (2 ^ 159 + 3) 7 0 (family 1 1 (2 ^ 159) (\<lambda>_. 0)) = Some s' \<and> GetNFTOwner16 (2 ^ 159 + 3) s' = 7
     \<and> GetNFTOwner16 (2 ^ 159 + 4) s' = 5"
proof -
  let ?a = "2 ^ 159 + 3 :: address" and ?s = "family 1 1 (2 ^ 159) (\<lambda>_. 0)"
  have c: "clr 1 (2 ^ 159) = clr 1 ?a" "clr 1 ?a = 2 ^ 159" "clr 1 (2 ^ 159 + 4) = 2 ^ 159" by (simp_all add: clr_def)
  have "\<exists>s'. ChangeNFTOwner ?a 7 0 ?s = Some s' \<and> tree_ok (nodes s')
     \<and> (\<forall>x. GetNFTOwner16 x s' = (if clr 0 x = ?a then 7 else GetNFTOwner16 x ?s))"
  proof (rule ChangeNFTOwner_transfers [where st = "2 ^ 159" and w = 5 and l = 1])
    show "IsOfficialNFT ?a" by (simp add: IsOfficialNFT_iff)
    show "GetNFTStoreAddress16 ?a 0 ?s = Some (2 ^ 159, 5)" using store_family [of 1 1 ?a] c by simp
    show "nodes ?s (2 ^ 159) = Some (5, 1)" using c by (simp only: nodes_family) simp
    show "0 < unat (1 :: u8) \<longrightarrow> take (42 - unat (1 :: u8)) (Address_String (hasher ?s) (2 ^ 159))
        = take (42 - unat (1 :: u8)) (Address_String (hasher ?s) ?a)"
      using take_String_lower [OF c(1)] by simp
    show "url_ok ?s (2 ^ 159)" using c by (intro url_ok_family) simp_all
    show "\<forall>b v l. nodes ?s b = Some (v, l) \<longrightarrow> unat l < 6" using low_family [of 1] by fastforce
  qed (simp_all add: tree_ok_family)
  then show ?thesis using owner_family [OF _ _ c(3), of 1] by auto
qed

subsection \<open>The limits of the tree\<close>

text \<open>C40: merging past the search depth loses the owner. When sixteen sibling NFTs of level 6
  (the depth limit of the search) have one owner, the merge is possible and done without a
  panic, but the merged NFT has level 7, which \<open>GetNFTOwner16\<close> never reaches: every NFT below
  it, owned before, has no owner afterwards.\<close>

theorem merge_past_search_depth:
  assumes ok: "tree_ok (nodes s)" and sibs: "\<forall>b \<in> set (sibs a 6). nodes s b = Some (w, 6)"
    and a: "a \<in> set (sibs a 6)" and url: "url_ok s a" and w: "w \<noteq> 0"
  shows "IsCanMergeNFT16 a s = Some True \<and>
    (\<exists>s'. mergeStep16 a s = Some (s', clr 7 a) \<and>
       (\<forall>x. clr 7 x = clr 7 a \<longrightarrow> GetNFTOwner16 x s = w \<and> GetNFTOwner16 x s' = 0))"
proof -
  have na: "nodes s a = Some (w, 6)" "unat (6 :: u8) = 6" using sibs a by auto
  have can: "IsCanMergeNFT16 a s = Some True" using IsCanMergeNFT16_iff [OF na] sibs by simp
  have same: "\<And>b. b \<in> set (sibs a 6) \<Longrightarrow> nodes s b = Some (w, 6)" using sibs by blast
  obtain s' where s': "mergeStep16 a s = Some (s', clr (6 + 1) a)" "nodes s' = merged a 6 w 6 (nodes s)"
    using mergeStep16_nodes [OF na _ url same] by auto
  have l: "(6::nat) < 40" "unat ((6 :: u8) + 1) = 6 + 1" by simp_all
  have "GetNFTOwner16 x s = w \<and> GetNFTOwner16 x s' = 0" if x: "clr 7 x = clr 7 a" for x
  proof
    have "own (nodes s) x 6 w"
      using clr_in_sibs [of 6 x a] x same w by (auto simp: own_def)
    then show "GetNFTOwner16 x s = w" using GetNFTOwner16_own [OF ok, of x w] by auto
    have "tree_ok (nodes s')" unfolding s'(2) by (rule tree_ok_merged [OF ok l(1) na(2) l(2) same])
    moreover have "own (nodes s') x d v \<longleftrightarrow> d = 7 \<and> v = w" for d v
      unfolding s'(2) using own_merged [OF ok l(1) na(2) l(2) same, where x = x and d = d and w = v] x w by simp
    ultimately show "GetNFTOwner16 x s' = 0"
      using GetNFTOwner16_own [of s' x "GetNFTOwner16 x s'"] by auto
  qed
  then show ?thesis using can s'(1) by auto
qed

lemma SplitNFT16_case_mismatch:
  assumes st: "GetNFTStoreAddress16 a 0 s = Some (st, w)" and lev: "nodes s st = Some (w, l)" "level < unat l"
    and guard: "take (42 - unat l) (Address_String (hasher s) st) \<noteq> take (42 - unat l) (Address_String (hasher s) a)"
  shows "SplitNFT16 a level s = Some s"
proof -
  obtain ob where ob: "getStateObject s st = Some ob" "MergeLevel (NFT (data ob)) = l"
    using lev(1) by (auto simp: nodes_def)
  let ?p = "42 - unat l" and ?S = "Address_String (hasher s) st" and ?A = "Address_String (hasher s) a"
  have "take ?p (take ?p ?S @ ys) = take ?p ?S" for ys by simp
  then have "take ?p ?S @ ys \<noteq> ?A" for ys using guard by metis
  then show ?thesis using st ob lev(2) by (simp add: SplitNFT16_def Let_def del: upt_rec_numeral)
qed


theorem merge_past_search_depth_witness:
  "IsCanMergeNFT16 (2 ^ 159) (family 7 6 (2 ^ 159) (\<lambda>_. 0)) = Some True \<and>
   (\<exists>s'. mergeStep16 (2 ^ 159) (family 7 6 (2 ^ 159) (\<lambda>_. 0)) = Some (s', clr 7 (2 ^ 159)) \<and>
      GetNFTOwner16 (2 ^ 159 + 3) (family 7 6 (2 ^ 159) (\<lambda>_. 0)) = 5 \<and> GetNFTOwner16 (2 ^ 159 + 3) s' = 0)"
proof -
  let ?b = "2 ^ 159 :: address" and ?s = "family 7 6 (2 ^ 159) (\<lambda>_. 0)"
  have c: "clr 7 ?b = ?b" "clr 7 (?b + 3) = clr 7 ?b" "clr 6 ?b = ?b" by (simp_all add: clr_def)
  have "IsCanMergeNFT16 ?b ?s = Some True \<and> (\<exists>s'. mergeStep16 ?b ?s = Some (s', clr 7 ?b) \<and>
       (\<forall>x. clr 7 x = clr 7 ?b \<longrightarrow> GetNFTOwner16 x ?s = 5 \<and> GetNFTOwner16 x s' = 0))"
  proof (rule merge_past_search_depth)
    show "\<forall>b \<in> set (sibs ?b 6). nodes ?s b = Some (5, 6)"
    proof
      fix b assume "b \<in> set (sibs ?b 6)"
      then obtain i where "i < 16" "b = sib ?b 6 i" by (auto simp: sibs_def)
      then show "nodes ?s b = Some (5, 6)"
        using clr_sib [of 6 i ?b] c(1) by (simp add: nodes_family)
    qed
    show "?b \<in> set (sibs ?b 6)" using parent_in_sibs [of 6 ?b] c(1) by simp
    show "url_ok ?s ?b" using c by (intro url_ok_family) simp_all
  qed (simp_all add: tree_ok_family)
  then show ?thesis using c(2) by auto
qed

end
