(* ===== verification/NFTState.thy ===== *)
theory NFTState
  imports NFTOwners
begin

text \<open>
  The other NFT operations of core/state/statedb.go: minting by users and by the chain,
  approvals, exchanging an NFT for currency, pledging, exchangers, votes on official NFTs and
  the queries. A routine that may panic (a nil number, a URL without a slash) returns an option.
\<close>

section \<open>Definitions\<close>

subsection \<open>Official NFT pool\<close>

text \<open>\<open>startIndex\<close> may be nil, which \<open>Set\<close> panics on.\<close>

definition InjectOfficialNFT :: "string \<Rightarrow> int option \<Rightarrow> u64 \<Rightarrow> u32 \<Rightarrow> string \<Rightarrow> StateDB \<Rightarrow> StateDB panics" where
  "InjectOfficialNFT dir startIndex number royalty creator s =
     do { start \<leftarrow> startIndex;
          Some (s\<lparr>OfficialNFTPool := OfficialNFTPool s @
            [\<lparr>Dir = dir, StartIndex = start, Number = number, io_Royalty = royalty, io_Creator = creator\<rparr>]\<rparr>) }"

definition AddVoteWeight :: "address \<Rightarrow> int \<Rightarrow> StateDB \<Rightarrow> StateDB panics" where
  "AddVoteWeight a amount s = o_AddVoteWeight a amount (GetOrNewStateObject a s)"

definition SubVoteWeight :: "address \<Rightarrow> int \<Rightarrow> StateDB \<Rightarrow> StateDB panics" where
  "SubVoteWeight a amount s = o_SubVoteWeight a amount (GetOrNewStateObject a s)"

text \<open>Nil when the object has no vote weight yet.\<close>

definition GetVoteWeight :: "address \<Rightarrow> StateDB \<Rightarrow> int option" where
  "GetVoteWeight a s = (case getStateObject s a of Some so \<Rightarrow> VoteWeight (data so) | None \<Rightarrow> Some 0)"

definition NextIndex :: "StateDB \<Rightarrow> int" where
  "NextIndex s = MaxIndex (OfficialNFTPool s)"

definition VoteOfficialNFT :: "NominatedOfficialNFT \<Rightarrow> StateDB \<Rightarrow> StateDB" where
  "VoteOfficialNFT nominated s =
     (let voteWeight = (case getStateObject s (no_Address nominated) of None \<Rightarrow> Some 0 | Some so \<Rightarrow> VoteWeight (data so));
          nominatedWeight =
            (case Nominated s of
               None \<Rightarrow> Some 0
             | Some n \<Rightarrow>
                 if no_Address n \<noteq> 0
                 then (case getStateObject s (no_Address n) of None \<Rightarrow> Some 0 | Some so \<Rightarrow> VoteWeight (data so))
                 else Some 0);
          v = (case voteWeight of None \<Rightarrow> 0 | Some x \<Rightarrow> x);
          n = (case nominatedWeight of None \<Rightarrow> 0 | Some x \<Rightarrow> x)
      in if v > n then s\<lparr>Nominated := Some nominated\<rparr> else s)"

definition defaultDir :: string where
  "defaultDir = ''/ipfs/QmYgBEB9CEx356zqJaDd4yjvY92qE276Gh1y2baWeDY3By''"

definition defaultCreator :: string where
  "defaultCreator = ''0x35636d53Ac3DfF2b2347dDfa37daD7077b3f5b6F''"

definition ElectNominatedOfficialNFT :: "StateDB \<Rightarrow> StateDB panics" where
  "ElectNominatedOfficialNFT s =
     (case Nominated s of
        Some n \<Rightarrow>
          if no_Address n \<noteq> 0 then
            do { let injectNFT = \<lparr>Dir = Dir n, StartIndex = StartIndex n, Number = Number n,
                   io_Royalty = io_Royalty n, io_Creator = io_Creator n\<rparr>;
                 let s1 = s\<lparr>OfficialNFTPool := OfficialNFTPool s @ [injectNFT]\<rparr>;
                 voteWeight \<leftarrow> GetVoteWeight (no_Address n) s1;
                 s2 \<leftarrow> SubVoteWeight (no_Address n) voteWeight s1;
                 Some (s2\<lparr>Nominated := Some \<lparr>Dir = defaultDir, StartIndex = MaxIndex (OfficialNFTPool s2),
                   Number = 65536, io_Royalty = 100, io_Creator = defaultCreator, no_Address = 0\<rparr>\<rparr>) }
          else Some (s\<lparr>OfficialNFTPool := OfficialNFTPool s @
            [\<lparr>Dir = defaultDir, StartIndex = MaxIndex (OfficialNFTPool s), Number = 65536,
              io_Royalty = 100, io_Creator = defaultCreator\<rparr>]\<rparr>)
      | None \<Rightarrow>
          Some (s\<lparr>OfficialNFTPool := OfficialNFTPool s @
            [\<lparr>Dir = defaultDir, StartIndex = MaxIndex (OfficialNFTPool s), Number = 65536,
              io_Royalty = 100, io_Creator = defaultCreator\<rparr>]\<rparr>))"

subsection \<open>Minting\<close>

text \<open>One round of the minting loop with the merge routine of the version. The second component
  is false when there is no metadata for the address, which ends the loop and the call.\<close>

definition mintOfficial :: "(address \<Rightarrow> StateDB \<Rightarrow> StateDB panics) \<Rightarrow> int \<Rightarrow> address \<Rightarrow> StateDB \<Rightarrow> (StateDB \<times> bool) panics" where
  "mintOfficial merge blocknumber owner s =
     (let (pool, popped) = PopAddress blocknumber (SNFTExchangePool s);
          s1 = s\<lparr>SNFTExchangePool := pool\<rparr>;
          found = (case popped of
             Some (nftAddr, info) \<Rightarrow> Some (nftAddr, MetalUrl info, ii_Royalty info, ii_Creator info)
           | None \<Rightarrow>
               (let nftAddr = BigToAddress (OfficialMint (mintDeep s1))
                in case GetInjectedInfo (OfficialNFTPool s1) nftAddr of
                     None \<Rightarrow> None
                   | Some injected \<Rightarrow> Some (nftAddr, Dir injected @ ''/'' @ Address_String (hasher s1) nftAddr,
                       io_Royalty injected, io_Creator injected)))
      in case found of
           None \<Rightarrow> Some (s1, False)
         | Some (nftAddr, metaUrl, royalty, creator) \<Rightarrow>
             do { let s2 = GetOrNewStateObject nftAddr (CreateAccount nftAddr s1);
                  let s3 = o_SetNFTInfo nftAddr [] [] (Some 0) 0 owner 0 0 (HexToAddress creator) royalty 0 metaUrl s2;
                  s4 \<leftarrow> merge nftAddr s3;
                  Some (if popped = None
                        then s4\<lparr>OfficialNFTPool := DeleteExpireElem (OfficialMint (mintDeep s4)) (OfficialNFTPool s4),
                                mintDeep := (mintDeep s4)\<lparr>OfficialMint := OfficialMint (mintDeep s4) + 1\<rparr>\<rparr>
                        else s4, True) })"

fun mintAll :: "(address \<Rightarrow> StateDB \<Rightarrow> StateDB panics) \<Rightarrow> int \<Rightarrow> address list \<Rightarrow> StateDB \<Rightarrow> (StateDB \<times> bool) panics" where
  "mintAll merge blocknumber [] s = Some (s, True)"
| "mintAll merge blocknumber (owner # owners) s =
     do { (s1, ok) \<leftarrow> mintOfficial merge blocknumber owner s;
          if ok then mintAll merge blocknumber owners s1 else Some (s1, False) }"

definition createOfficial :: "(address \<Rightarrow> StateDB \<Rightarrow> StateDB panics) \<Rightarrow> address list \<Rightarrow> int \<Rightarrow> StateDB \<Rightarrow> StateDB panics" where
  "createOfficial merge owners blocknumber s =
     do { (s1, ok) \<leftarrow> mintAll merge blocknumber owners s;
          if \<not> ok then Some s1
          else if RemainderNum (OfficialNFTPool s1) (OfficialMint (mintDeep s1)) \<le> 110
          then ElectNominatedOfficialNFT s1 else Some s1 }"

definition CreateNFTByOfficial :: "address list \<Rightarrow> int \<Rightarrow> StateDB \<Rightarrow> StateDB panics" where
  "CreateNFTByOfficial = createOfficial MergeNFT"

definition CreateNFTByOfficial16 :: "address list \<Rightarrow> int \<Rightarrow> StateDB \<Rightarrow> StateDB panics" where
  "CreateNFTByOfficial16 = createOfficial MergeNFT16"

definition CreateNFTByUser :: "address \<Rightarrow> address \<Rightarrow> u32 \<Rightarrow> string \<Rightarrow> StateDB \<Rightarrow> StateDB \<times> address" where
  "CreateNFTByUser exchanger owner royalty metaurl s =
     (let nftAddr = BigToAddress (UserMint (mintDeep s));
          s1 = GetOrNewStateObject nftAddr (CreateAccount nftAddr s);
          s2 = o_SetNFTInfo nftAddr [] [] (Some 0) 0 owner 0 0 owner royalty exchanger metaurl s1
      in (s2\<lparr>mintDeep := (mintDeep s2)\<lparr>UserMint := UserMint (mintDeep s2) + 1\<rparr>\<rparr>, nftAddr))"

subsection \<open>Approvals\<close>

definition ChangeApproveAddress :: "address \<Rightarrow> address \<Rightarrow> StateDB \<Rightarrow> StateDB" where
  "ChangeApproveAddress a ap s = o_ChangeApproveAddress a ap (GetOrNewStateObject a s)"

definition CancelApproveAddress :: "address \<Rightarrow> address \<Rightarrow> StateDB \<Rightarrow> StateDB" where
  "CancelApproveAddress a ap s = o_CancelApproveAddress a ap (GetOrNewStateObject a s)"

definition ChangeNFTApproveAddress :: "address \<Rightarrow> address \<Rightarrow> StateDB \<Rightarrow> StateDB" where
  "ChangeNFTApproveAddress a ap s = o_ChangeNFTApproveAddress a ap (GetOrNewStateObject a s)"

definition CancelNFTApproveAddress :: "address \<Rightarrow> address \<Rightarrow> StateDB \<Rightarrow> StateDB" where
  "CancelNFTApproveAddress a ap s = o_CancelNFTApproveAddress a ap (GetOrNewStateObject a s)"

subsection \<open>Exchange for currency\<close>

definition calculateExchangeAmount :: "u8 \<Rightarrow> int" where
  "calculateExchangeAmount level =
     (let nftNumber = 16 ^ unat level
      in if level < 2 then nftNumber * 100000000000000000
         else if level = 2 then nftNumber * 150000000000000000
         else if level = 3 then nftNumber * 225000000000000000
         else nftNumber * 300000000000000000)"

definition ExchangeNFTToCurrency :: "address \<Rightarrow> address \<Rightarrow> int \<Rightarrow> nat \<Rightarrow> StateDB \<Rightarrow> StateDB panics" where
  "ExchangeNFTToCurrency a nftaddress blocknumber level s =
     do { s1 \<leftarrow> SplitNFT16 nftaddress level s;
          let s2 = GetOrNewStateObject a (GetOrNewStateObject nftaddress s1);
          let n = NFT (data (deref s2 nftaddress));
          let nftExchange = \<lparr>Info = \<lparr>MetalUrl = MetaURL n, ii_Royalty = Royalty n,
                               ii_Creator = Address_String (hasher s2) (Creator n)\<rparr>,
                NFTAddress = nftaddress, sx_MergeLevel = MergeLevel n, CurrentMintAddress = nftaddress,
                sx_BlockNumber = blocknumber\<rparr>;
          let s3 = s2\<lparr>SNFTExchangePool := SNFTExchangePool s2 @ [nftExchange]\<rparr>;
          let amount = calculateExchangeAmount (MergeLevel n);
          Some (o_AddBalance a amount (o_CleanNFT nftaddress s3)) }"

subsection \<open>Pledges and exchangers\<close>

definition PledgeToken :: "address \<Rightarrow> int \<Rightarrow> StateDB \<Rightarrow> StateDB" where
  "PledgeToken a amount s =
     (let s1 = GetOrNewStateObject a s;
          s2 = s1\<lparr>PledgedTokenPool := PledgedTokenPool s1 @ [\<lparr>pt_Address = a, pt_Amount = amount, pt_Flag = True\<rparr>]\<rparr>
      in o_AddPledgedBalance a amount (o_SubBalance a amount s2))"

definition AddOrUpdateActiveMiner :: "address \<Rightarrow> int \<Rightarrow> u64 \<Rightarrow> StateDB \<Rightarrow> StateDB" where
  "AddOrUpdateActiveMiner a balance height s =
     (case update_first (\<lambda>v. am_Address v = a) (\<lambda>v. v\<lparr>am_Height := height\<rparr>) (ActiveMinersPool s) of
        Some l \<Rightarrow> s\<lparr>ActiveMinersPool := l\<rparr>
      | None \<Rightarrow> s\<lparr>ActiveMinersPool := ActiveMinersPool s @
          [\<lparr>am_Address = a, am_Balance = balance, am_Height = height\<rparr>]\<rparr>)"

definition CancelPledgedToken :: "address \<Rightarrow> int \<Rightarrow> StateDB \<Rightarrow> StateDB panics" where
  "CancelPledgedToken a amount s =
     do { let s1 = GetOrNewStateObject a s;
          let s2 = s1\<lparr>PledgedTokenPool := PledgedTokenPool s1 @ [\<lparr>pt_Address = a, pt_Amount = amount, pt_Flag = False\<rparr>]\<rparr>;
          s3 \<leftarrow> o_SubPledgedBalance a amount s2;
          Some (o_AddBalance a amount s3) }"

definition OpenExchanger :: "address \<Rightarrow> int \<Rightarrow> int \<Rightarrow> u32 \<Rightarrow> string \<Rightarrow> string \<Rightarrow> StateDB \<Rightarrow> StateDB" where
  "OpenExchanger a amount blocknumber feerate name url s =
     (let s1 = GetOrNewStateObject a s;
          s2 = s1\<lparr>ExchangerTokenPool := ExchangerTokenPool s1 @ [\<lparr>pt_Address = a, pt_Amount = amount, pt_Flag = True\<rparr>]\<rparr>
      in o_OpenExchanger a blocknumber feerate name url
           (o_SetExchangerBalance a amount (o_SubBalance a amount s2)))"

definition CloseExchanger :: "address \<Rightarrow> int \<Rightarrow> StateDB \<Rightarrow> StateDB panics" where
  "CloseExchanger a blocknumber s =
     do { let s1 = GetOrNewStateObject a s;
          opened \<leftarrow> BlockNumber (data (deref s1 a));
          if blocknumber > opened then
            do { amount \<leftarrow> ExchangerBalance (data (deref s1 a));
                 let s2 = s1\<lparr>ExchangerTokenPool := ExchangerTokenPool s1 @
                   [\<lparr>pt_Address = a, pt_Amount = amount, pt_Flag = False\<rparr>]\<rparr>;
                 Some (o_CloseExchanger a (o_SetExchangerBalance a 0 (o_AddBalance a amount s2))) }
          else Some s1 }"

definition AddExchangerToken :: "address \<Rightarrow> int \<Rightarrow> StateDB \<Rightarrow> StateDB panics" where
  "AddExchangerToken a amount s =
     (let s1 = GetOrNewStateObject a s;
          s2 = s1\<lparr>ExchangerTokenPool := ExchangerTokenPool s1 @ [\<lparr>pt_Address = a, pt_Amount = amount, pt_Flag = True\<rparr>]\<rparr>
      in o_AddExchangerBalance a amount (o_SubBalance a amount s2))"

definition SubExchangerToken :: "address \<Rightarrow> int \<Rightarrow> StateDB \<Rightarrow> StateDB panics" where
  "SubExchangerToken a amount s =
     do { let s1 = GetOrNewStateObject a s;
          let s2 = s1\<lparr>ExchangerTokenPool := ExchangerTokenPool s1 @ [\<lparr>pt_Address = a, pt_Amount = amount, pt_Flag = False\<rparr>]\<rparr>;
          s3 \<leftarrow> o_SubExchangerBalance a amount s2;
          Some (o_AddBalance a amount s3) }"

subsection \<open>Queries\<close>

text \<open>\<open>GetNFTInfo\<close> creates the account it is asked about.\<close>

definition GetNFTInfo :: "address \<Rightarrow> StateDB \<Rightarrow> StateDB \<times> AccountNFT" where
  "GetNFTInfo a s = (let s1 = GetOrNewStateObject a s in (s1, NFT (data (deref s1 a))))"

definition GetExchangerFlag :: "address \<Rightarrow> StateDB \<Rightarrow> bool" where
  "GetExchangerFlag a s = (case getStateObject s a of Some so \<Rightarrow> ExchangerFlag (data so) | None \<Rightarrow> False)"

definition GetOpenExchangerTime :: "address \<Rightarrow> StateDB \<Rightarrow> int panics" where
  "GetOpenExchangerTime a s = (case getStateObject s a of Some so \<Rightarrow> BlockNumber (data so) | None \<Rightarrow> Some 0)"

definition GetFeeRate :: "address \<Rightarrow> StateDB \<Rightarrow> u32" where
  "GetFeeRate a s = (case getStateObject s a of Some so \<Rightarrow> FeeRate (data so) | None \<Rightarrow> 0)"

definition GetExchangerName :: "address \<Rightarrow> StateDB \<Rightarrow> string" where
  "GetExchangerName a s = (case getStateObject s a of Some so \<Rightarrow> ExchangerName (data so) | None \<Rightarrow> [])"

definition GetExchangerURL :: "address \<Rightarrow> StateDB \<Rightarrow> string" where
  "GetExchangerURL a s = (case getStateObject s a of Some so \<Rightarrow> ExchangerURL (data so) | None \<Rightarrow> [])"

definition GetApproveAddress :: "address \<Rightarrow> StateDB \<Rightarrow> address list" where
  "GetApproveAddress a s = (case getStateObject s a of Some so \<Rightarrow> ApproveAddressList (data so) | None \<Rightarrow> [])"

definition GetNFTBalance :: "address \<Rightarrow> StateDB \<Rightarrow> u64" where
  "GetNFTBalance a s = (case getStateObject s a of Some so \<Rightarrow> NFTBalance (data so) | None \<Rightarrow> 0)"

definition GetNFTName :: "address \<Rightarrow> StateDB \<Rightarrow> string" where
  "GetNFTName a s = (case getStateObject s a of Some so \<Rightarrow> Name (NFT (data so)) | None \<Rightarrow> [])"

definition GetNFTSymbol :: "address \<Rightarrow> StateDB \<Rightarrow> string" where
  "GetNFTSymbol a s = (case getStateObject s a of Some so \<Rightarrow> Symbol (NFT (data so)) | None \<Rightarrow> [])"

definition GetNFTApproveAddress :: "address \<Rightarrow> StateDB \<Rightarrow> address" where
  "GetNFTApproveAddress a s = (case getStateObject s a of Some so \<Rightarrow> NFTApproveAddressList (NFT (data so)) | None \<Rightarrow> 0)"

definition GetNFTMergeLevel :: "address \<Rightarrow> StateDB \<Rightarrow> u8" where
  "GetNFTMergeLevel a s = (case getStateObject s a of Some so \<Rightarrow> MergeLevel (NFT (data so)) | None \<Rightarrow> 0)"

definition GetNFTCreator :: "address \<Rightarrow> StateDB \<Rightarrow> address" where
  "GetNFTCreator a s = (case getStateObject s a of Some so \<Rightarrow> Creator (NFT (data so)) | None \<Rightarrow> 0)"

definition GetNFTRoyalty :: "address \<Rightarrow> StateDB \<Rightarrow> u32" where
  "GetNFTRoyalty a s = (case getStateObject s a of Some so \<Rightarrow> Royalty (NFT (data so)) | None \<Rightarrow> 0)"

definition GetNFTExchanger :: "address \<Rightarrow> StateDB \<Rightarrow> address" where
  "GetNFTExchanger a s = (case getStateObject s a of Some so \<Rightarrow> Exchanger (NFT (data so)) | None \<Rightarrow> 0)"

definition GetNFTMetaURL :: "address \<Rightarrow> StateDB \<Rightarrow> string" where
  "GetNFTMetaURL a s = (case getStateObject s a of Some so \<Rightarrow> MetaURL (NFT (data so)) | None \<Rightarrow> [])"

definition IsExistNFT :: "address \<Rightarrow> StateDB \<Rightarrow> bool" where
  "IsExistNFT a s = (case getStateObject s a of Some so \<Rightarrow> Owner (NFT (data so)) \<noteq> 0 | None \<Rightarrow> False)"

definition IsApprovedOne :: "address \<Rightarrow> address \<Rightarrow> StateDB \<Rightarrow> bool" where
  "IsApprovedOne nftAddr a s =
     (case getStateObject s nftAddr of Some so \<Rightarrow> IsNFTApproveAddress (NFT (data so)) a | None \<Rightarrow> False)"

definition IsApprovedForAll :: "address \<Rightarrow> address \<Rightarrow> StateDB \<Rightarrow> bool" where
  "IsApprovedForAll ownerAddr a s =
     (case getStateObject s ownerAddr of Some so \<Rightarrow> IsApproveAddress (data so) a | None \<Rightarrow> False)"

definition IsApprovedForAllByNFT :: "address \<Rightarrow> address \<Rightarrow> StateDB \<Rightarrow> bool" where
  "IsApprovedForAllByNFT nftAddr a s =
     (case getStateObject s (GetNFTOwner16 nftAddr s) of Some so \<Rightarrow> IsApproveAddress (data so) a | None \<Rightarrow> False)"

definition IsApproved :: "address \<Rightarrow> address \<Rightarrow> StateDB \<Rightarrow> bool" where
  "IsApproved nftAddr a s = (IsApprovedOne nftAddr a s \<or> IsApprovedForAllByNFT nftAddr a s)"

definition GetPledgedBalance :: "address \<Rightarrow> StateDB \<Rightarrow> int" where
  "GetPledgedBalance a s =
     (case getStateObject s a of
        Some so \<Rightarrow> (case PledgedBalance (data so) of Some x \<Rightarrow> x | None \<Rightarrow> 0)
      | None \<Rightarrow> 0)"

definition GetExchangerBalance :: "address \<Rightarrow> StateDB \<Rightarrow> int" where
  "GetExchangerBalance a s =
     (case getStateObject s a of
        Some so \<Rightarrow> (case ExchangerBalance (data so) of Some x \<Rightarrow> x | None \<Rightarrow> 0)
      | None \<Rightarrow> 0)"

text \<open>\<open>None\<close> is the zero account.\<close>

definition GetAccountInfo :: "address \<Rightarrow> StateDB \<Rightarrow> Account option" where
  "GetAccountInfo a s = map_option data (getStateObject s a)"

section \<open>Undoing\<close>

text \<open>The pools are outside the journal: a change of a pool is no change of the view.\<close>

lemma getDeleted_pools [lookup_simps]:
  "getDeletedStateObject (s\<lparr>mintDeep := md\<rparr>) a = getDeletedStateObject s a"
  "getDeletedStateObject (s\<lparr>SNFTExchangePool := p\<rparr>) a = getDeletedStateObject s a"
  "getDeletedStateObject (s\<lparr>PledgedTokenPool := q\<rparr>) a = getDeletedStateObject s a"
  "getDeletedStateObject (s\<lparr>ExchangerTokenPool := q\<rparr>) a = getDeletedStateObject s a"
  "getDeletedStateObject (s\<lparr>ActiveMinersPool := am\<rparr>) a = getDeletedStateObject s a"
  "getDeletedStateObject (s\<lparr>OfficialNFTPool := r\<rparr>) a = getDeletedStateObject s a"
  "getDeletedStateObject (s\<lparr>Nominated := n\<rparr>) a = getDeletedStateObject s a"
  by (simp_all add: getDeletedStateObject_def split: option.split)

lemma view_pools [simp]:
  "view (s\<lparr>mintDeep := md\<rparr>) = view s" "view (s\<lparr>SNFTExchangePool := p\<rparr>) = view s"
  "view (s\<lparr>PledgedTokenPool := q\<rparr>) = view s" "view (s\<lparr>ExchangerTokenPool := q\<rparr>) = view s"
  "view (s\<lparr>ActiveMinersPool := am\<rparr>) = view s" "view (s\<lparr>OfficialNFTPool := r\<rparr>) = view s"
  "view (s\<lparr>Nominated := n\<rparr>) = view s"
  by (simp_all add: view_eq_iff getDeleted_pools)

lemma get_pools [lookup_simps]:
  "getStateObject (s\<lparr>mintDeep := md\<rparr>) = getStateObject s" "getStateObject (s\<lparr>SNFTExchangePool := p\<rparr>) = getStateObject s"
  "getStateObject (s\<lparr>PledgedTokenPool := q\<rparr>) = getStateObject s" "getStateObject (s\<lparr>ExchangerTokenPool := q\<rparr>) = getStateObject s"
  "getStateObject (s\<lparr>ActiveMinersPool := am\<rparr>) = getStateObject s" "getStateObject (s\<lparr>OfficialNFTPool := r\<rparr>) = getStateObject s"
  "getStateObject (s\<lparr>Nominated := n\<rparr>) = getStateObject s"
  by (simp_all add: fun_eq_iff getStateObject_def getDeleted_pools)

lemma deref_pools [lookup_simps]:
  "deref (s\<lparr>mintDeep := md\<rparr>) = deref s" "deref (s\<lparr>SNFTExchangePool := p\<rparr>) = deref s"
  "deref (s\<lparr>PledgedTokenPool := q\<rparr>) = deref s" "deref (s\<lparr>ExchangerTokenPool := q\<rparr>) = deref s"
  "deref (s\<lparr>ActiveMinersPool := am\<rparr>) = deref s" "deref (s\<lparr>OfficialNFTPool := r\<rparr>) = deref s"
  "deref (s\<lparr>Nominated := n\<rparr>) = deref s"
  by (simp_all add: fun_eq_iff deref_def getDeleted_pools split: option.split)

lemma undo_view_same: "(\<And>s. view (g s) = view s \<and> entries (g s) = entries s) \<Longrightarrow> journal.undoable (\<lambda>s. Some (g s))"
  by (rule journal.undoable_same) auto

lemma undo_then: "journal.undoable (\<lambda>s. Some (g s)) \<Longrightarrow> journal.undoable F \<Longrightarrow> journal.undoable (\<lambda>s. F (g s))"
  using journal.undoable_bind [of "\<lambda>s. Some (g s)" F] by simp

lemma undo_Inject [undo_intros]: "journal.undoable (InjectOfficialNFT d st n r c)"
  by (rule journal.undoable_same) (auto simp: InjectOfficialNFT_def bind_Some_iff)

lemma undo_VoteOfficialNFT [undo_intros]: "journal.undoable (\<lambda>s. Some (VoteOfficialNFT n s))"
  by (rule undo_view_same) (simp add: VoteOfficialNFT_def Let_def)

lemma undo_AddOrUpdateActiveMiner [undo_intros]: "journal.undoable (\<lambda>s. Some (AddOrUpdateActiveMiner a b h s))"
  by (rule undo_view_same) (simp add: AddOrUpdateActiveMiner_def split: option.split)

lemma undo_vote_weight [undo_intros]:
  "journal.undoable (AddVoteWeight a v)" "journal.undoable (SubVoteWeight a v)"
proof -
  have "AddVoteWeight a v = (\<lambda>s. o_AddVoteWeight a v (GetOrNewStateObject a s))"
    "SubVoteWeight a v = (\<lambda>s. o_SubVoteWeight a v (GetOrNewStateObject a s))"
    by (simp_all add: fun_eq_iff AddVoteWeight_def SubVoteWeight_def)
  then show "journal.undoable (AddVoteWeight a v)" "journal.undoable (SubVoteWeight a v)"
    by (simp_all add: undo_GetOrNew undo_o_nilable)
qed

lemma undo_Elect [undo_intros]: "journal.undoable ElectNominatedOfficialNFT"
proof (rule journal.undoable_guard)
  let ?g = "\<lambda>(x, pool, nom) s. do {
     s2 \<leftarrow> (case x of None \<Rightarrow> Some (s\<lparr>OfficialNFTPool := pool\<rparr>) | Some (b, w) \<Rightarrow> SubVoteWeight b w (s\<lparr>OfficialNFTPool := pool\<rparr>));
     Some (s2\<lparr>Nominated := nom\<rparr>) }"
  let ?q = "\<lambda>s. (case Nominated s of None \<Rightarrow> None
      | Some n \<Rightarrow> if no_Address n = 0 then None else map_option (\<lambda>w. (no_Address n, w)) (GetVoteWeight (no_Address n) s),
    OfficialNFTPool (the (ElectNominatedOfficialNFT s)), Nominated (the (ElectNominatedOfficialNFT s)))"
  have add: "journal.undoable (\<lambda>s. Some (s\<lparr>OfficialNFTPool := p\<rparr>))" "journal.undoable (\<lambda>s. Some (s\<lparr>Nominated := nom\<rparr>))" for p nom
    by (rule undo_view_same, simp)+
  have "journal.undoable (\<lambda>s. case x of None \<Rightarrow> Some (s\<lparr>OfficialNFTPool := pool\<rparr>)
      | Some (b, w) \<Rightarrow> SubVoteWeight b w (s\<lparr>OfficialNFTPool := pool\<rparr>))" for x pool
    by (cases x) (auto intro!: add undo_then [OF add(1)] undo_vote_weight)
  then have "journal.undoable (?g x)" for x
    by (cases x) (simp, intro journal.undoable_bind add)
  then show "journal.undoable (\<lambda>s. ?g (?q s) s)" by (rule journal.undoable_choice)
  have pool: "OfficialNFTPool s2 = OfficialNFTPool s" if "SubVoteWeight b w s = Some s2" for b w s s2
    using that by (auto simp: SubVoteWeight_def o_SubVoteWeight_def o_SetVoteWeight_def GetOrNewStateObject_def
        createObject_state setStateObject_def modify_def journal_append_def bind_Some_iff Let_def split: option.splits if_splits)
  fix s s' assume e: "ElectNominatedOfficialNFT s = Some s'"
  show "?g (?q s) s = Some s'"
  proof (cases "\<exists>n. Nominated s = Some n \<and> no_Address n \<noteq> 0")
    case True
    then obtain n where n: "Nominated s = Some n" "no_Address n \<noteq> 0" by blast
    then obtain w p s2 nom where s2: "GetVoteWeight (no_Address n) s = Some w"
        "SubVoteWeight (no_Address n) w (s\<lparr>OfficialNFTPool := p\<rparr>) = Some s2" "s' = s2\<lparr>Nominated := nom\<rparr>"
      using e by (auto simp: ElectNominatedOfficialNFT_def Let_def bind_Some_iff GetVoteWeight_def lookup_simps)
    have "OfficialNFTPool s' = p" "Nominated s' = nom" using pool [OF s2(2)] s2(3) by simp_all
    then show ?thesis using n s2 e by simp
  next
    case False
    then have "s' = s\<lparr>OfficialNFTPool := OfficialNFTPool s'\<rparr>" "Nominated s' = Nominated s"
      using e by (auto simp: ElectNominatedOfficialNFT_def split: option.splits if_splits)
    then show ?thesis using False e by (auto split: option.split)
  qed
qed

lemma undo_mintOfficial:
  assumes "\<And>a. journal.undoable (merge a)"
  shows "journal.undoable (\<lambda>s. map_option fst (mintOfficial merge bn owner s))"
proof (rule journal.undoable_guard)
  let ?g = "\<lambda>(pool, x) s. case x of
      None \<Rightarrow> Some (s\<lparr>SNFTExchangePool := pool\<rparr>)
    | Some (a, c, r, u, post) \<Rightarrow>
        Option.bind (merge a (o_SetNFTInfo a [] [] (Some 0) 0 owner 0 0 c r 0 u
            (GetOrNewStateObject a (CreateAccount a (s\<lparr>SNFTExchangePool := pool\<rparr>)))))
          (\<lambda>s4. Some (if post then s4\<lparr>OfficialNFTPool := DeleteExpireElem (OfficialMint (mintDeep s4)) (OfficialNFTPool s4),
                                mintDeep := (mintDeep s4)\<lparr>OfficialMint := OfficialMint (mintDeep s4) + 1\<rparr>\<rparr> else s4))"
  let ?q = "\<lambda>s. (fst (PopAddress bn (SNFTExchangePool s)),
     case snd (PopAddress bn (SNFTExchangePool s)) of
        Some (a, i) \<Rightarrow> Some (a, HexToAddress (ii_Creator i), ii_Royalty i, MetalUrl i, False)
      | None \<Rightarrow> (let a = BigToAddress (OfficialMint (mintDeep s))
               in map_option (\<lambda>i. (a, HexToAddress (io_Creator i), io_Royalty i, Dir i @ ''/'' @ Address_String (hasher s) a, True))
                    (GetInjectedInfo (OfficialNFTPool s) a)))"
  have pool: "journal.undoable (\<lambda>s. Some (s\<lparr>SNFTExchangePool := p\<rparr>))" for p by (rule undo_view_same) simp
  have post: "journal.undoable (\<lambda>s. Some (if b then s\<lparr>OfficialNFTPool := DeleteExpireElem (OfficialMint (mintDeep s)) (OfficialNFTPool s),
      mintDeep := (mintDeep s)\<lparr>OfficialMint := OfficialMint (mintDeep s) + 1\<rparr>\<rparr> else s))" for b
    by (rule undo_view_same) simp
  have info: "journal.undoable (\<lambda>s. Some (o_SetNFTInfo a [] [] (Some 0) 0 owner 0 0 c r 0 u (GetOrNewStateObject a s)))" for a c r u
    by (rule undo_GetOrNew [OF undo_o_SetNFTInfo])
  have "journal.undoable (?g x)" for x
  proof (cases x)
    case (Pair p y)
    show ?thesis
    proof (cases y)
      case None
      then show ?thesis using Pair pool by simp
    next
      case (Some z)
      then show ?thesis
        using Pair by (cases z) (simp, intro journal.undoable_bind post undo_then [OF info] undo_then [OF undo_CreateAccount]
            undo_then [OF pool] assms, (rule post)?)
    qed
  qed
  then show "journal.undoable (\<lambda>s. ?g (?q s) s)" by (rule journal.undoable_choice)
  show "?g (?q s) s = Some s'" if "map_option fst (mintOfficial merge bn owner s) = Some s'" for s s'
    using that by (auto simp: mintOfficial_def Let_def bind_Some_iff split: prod.splits option.splits)
qed

lemma undo_mintAll:
  assumes "\<And>a. journal.undoable (merge a)"
  shows "journal.undoable (\<lambda>s. map_option fst (mintAll merge bn owners s))"
proof (induction owners)
  case Nil
  then show ?case by (simp add: journal.undoable_Some)
next
  case (Cons w owners)
  have "journal.undoable (\<lambda>s. if snd (the (mintOfficial merge bn w s))
      then Option.bind (map_option fst (mintOfficial merge bn w s)) (\<lambda>s. map_option fst (mintAll merge bn owners s))
      else map_option fst (mintOfficial merge bn w s))"
    by (intro journal.undoable_if journal.undoable_bind undo_mintOfficial Cons assms)
  then show ?case
    by (rule journal.undoable_guard) (auto simp: bind_Some_iff split: if_splits)
qed

lemma undo_createOfficial:
  assumes "\<And>a. journal.undoable (merge a)"
  shows "journal.undoable (createOfficial merge owners bn)"
proof -
  have "journal.undoable (\<lambda>s. if snd (the (mintAll merge bn owners s))
      then Option.bind (map_option fst (mintAll merge bn owners s))
        (\<lambda>s. if RemainderNum (OfficialNFTPool s) (OfficialMint (mintDeep s)) \<le> 110 then ElectNominatedOfficialNFT s else Some s)
      else map_option fst (mintAll merge bn owners s))"
    by (intro journal.undoable_if journal.undoable_bind undo_mintAll assms undo_Elect journal.undoable_Some)
  then show ?thesis
    by (rule journal.undoable_guard) (auto simp: createOfficial_def bind_Some_iff split: if_splits)
qed

lemma undo_mint [undo_intros]:
  "journal.undoable (CreateNFTByOfficial owners bn)" "journal.undoable (CreateNFTByOfficial16 owners bn)"
  "journal.undoable (\<lambda>s. Some (fst (CreateNFTByUser ex w r u s)))"
proof -
  show "journal.undoable (CreateNFTByOfficial owners bn)" "journal.undoable (CreateNFTByOfficial16 owners bn)"
    unfolding CreateNFTByOfficial_def CreateNFTByOfficial16_def by (intro undo_createOfficial undo_MergeNFT)+
  let ?g = "\<lambda>a s. (\<lambda>s2. Some (s2\<lparr>mintDeep := (mintDeep s2)\<lparr>UserMint := UserMint (mintDeep s2) + 1\<rparr>\<rparr>))
      (o_SetNFTInfo a [] [] (Some 0) 0 w 0 0 w r ex u (GetOrNewStateObject a (CreateAccount a s)))"
  have "journal.undoable (\<lambda>s. Some (o_SetNFTInfo a [] [] (Some 0) 0 w 0 0 w r ex u (GetOrNewStateObject a s)))" for a
    by (rule undo_GetOrNew [OF undo_o_SetNFTInfo])
  note info = undo_then [OF undo_CreateAccount this]
  have post: "journal.undoable (\<lambda>s. Some (s\<lparr>mintDeep := (mintDeep s)\<lparr>UserMint := UserMint (mintDeep s) + 1\<rparr>\<rparr>))"
    by (rule undo_view_same) simp
  have "journal.undoable (?g a)" for a by (rule undo_then [OF info post])
  then show "journal.undoable (\<lambda>s. Some (fst (CreateNFTByUser ex w r u s)))"
    using journal.undoable_choice [of ?g "\<lambda>s. BigToAddress (UserMint (mintDeep s))"]
    by (simp add: CreateNFTByUser_def Let_def)
qed

lemma undo_approvals [undo_intros]:
  "journal.undoable (\<lambda>s. Some (ChangeApproveAddress a w s))" "journal.undoable (\<lambda>s. Some (CancelApproveAddress a w s))"
  "journal.undoable (\<lambda>s. Some (ChangeNFTApproveAddress a w s))" "journal.undoable (\<lambda>s. Some (CancelNFTApproveAddress a w s))"
  unfolding ChangeApproveAddress_def CancelApproveAddress_def ChangeNFTApproveAddress_def CancelNFTApproveAddress_def
  by (intro undo_GetOrNew undo_o_approve undo_o_approve_one)+

text \<open>An operation on a live object, after a change of the pools.\<close>

lemma undo_live_pool:
  assumes "journal.undoable (live a F)" and "\<And>s. view (g s) = view s \<and> entries (g s) = entries s"
  shows "journal.undoable (live a (\<lambda>s. F (g s)))"
proof -
  have "getStateObject (g s) a = None \<longleftrightarrow> getStateObject s a = None" for s using view_get assms(2) by blast
  then have "live a (\<lambda>s. F (g s)) = (\<lambda>s. live a F (g s))" by (simp add: fun_eq_iff live_def)
  then show ?thesis using undo_then [OF undo_view_same [OF assms(2)] assms(1)] by simp
qed


lemma live_modify:
  assumes "getStateObject s b \<noteq> None" and "\<And>ob. deleted (f ob) = deleted ob"
  shows "getStateObject (modify a f (journal_append e s)) b \<noteq> None"
  using assms live_not_deleted [of s a] by (auto simp: lookup_simps)

lemma o_live_at:
  assumes "getStateObject s b \<noteq> None"
  shows "getStateObject (o_AddBalance a v s) b \<noteq> None" and "getStateObject (o_SubBalance a v s) b \<noteq> None"
    and "getStateObject (o_CleanNFT a s) b \<noteq> None" and "getStateObject (o_SetExchangerBalance a v s) b \<noteq> None"
    and "getStateObject (o_SetPledgedBalance a v s) b \<noteq> None" and "getStateObject (GetOrNewStateObject a s) b \<noteq> None"
proof -
  show "getStateObject (o_AddBalance a v s) b \<noteq> None" "getStateObject (o_SubBalance a v s) b \<noteq> None"
    "getStateObject (o_CleanNFT a s) b \<noteq> None" "getStateObject (o_SetExchangerBalance a v s) b \<noteq> None"
    "getStateObject (o_SetPledgedBalance a v s) b \<noteq> None"
    unfolding touch_dead o_SubBalance_def o_SetBalance_def o_CleanNFT_def o_SetExchangerBalance_def o_SetPledgedBalance_def
    using live_modify [OF assms] assms by (simp_all add: setter_defs del: not_None_eq)
  show "getStateObject (GetOrNewStateObject a s) b \<noteq> None" using assms by (auto simp: lookup_simps)
qed

lemma o_live_nilable:
  assumes "getStateObject s b \<noteq> None"
  shows "o_SubPledgedBalance a v s = Some s' \<Longrightarrow> getStateObject s' b \<noteq> None"
    and "o_AddExchangerBalance a v s = Some s' \<Longrightarrow> getStateObject s' b \<noteq> None"
    and "o_SubExchangerBalance a v s = Some s' \<Longrightarrow> getStateObject s' b \<noteq> None"
proof -
  have "(if v = 0 then Some s else do { x \<leftarrow> q; Some (f x) }) = Some s' \<Longrightarrow> s' = s \<or> (\<exists>x. s' = f x)" for q and f :: "int \<Rightarrow> StateDB"
    by (auto simp: bind_Some_iff split: if_splits)
  note d = this
  show "o_SubPledgedBalance a v s = Some s' \<Longrightarrow> getStateObject s' b \<noteq> None"
    unfolding o_SubPledgedBalance_def by (drule d) (use assms o_live_at(5) [OF assms] in blast)
  show "o_AddExchangerBalance a v s = Some s' \<Longrightarrow> getStateObject s' b \<noteq> None"
    unfolding o_AddExchangerBalance_def by (drule d) (use assms o_live_at(4) [OF assms] in blast)
  show "o_SubExchangerBalance a v s = Some s' \<Longrightarrow> getStateObject s' b \<noteq> None"
    unfolding o_SubExchangerBalance_def by (drule d) (use assms o_live_at(4) [OF assms] in blast)
qed

lemma undo_GetOrNew_pool:
  assumes "journal.undoable (live a F)" and "\<And>s. view (g s) = view s \<and> entries (g s) = entries s"
  shows "journal.undoable (\<lambda>s. F (g (GetOrNewStateObject a s)))"
  by (rule undo_GetOrNew [OF undo_live_pool [OF assms]])

lemma undo_pledge [undo_intros]:
  "journal.undoable (\<lambda>s. Some (PledgeToken a v s))" "journal.undoable (CancelPledgedToken a v)"
proof -
  let ?pool = "\<lambda>f s. s\<lparr>PledgedTokenPool := PledgedTokenPool s @ [\<lparr>pt_Address = a, pt_Amount = v, pt_Flag = f\<rparr>]\<rparr>"
  have p: "journal.undoable (live a (\<lambda>s. Some (o_AddPledgedBalance a v (o_SubBalance a v s))))"
    by (rule undo_live_then [OF undo_o_balance(2) undo_o_nilable(1) o_live_at(2)])
  have c: "journal.undoable (live a (\<lambda>s. Option.bind (o_SubPledgedBalance a v s) (\<lambda>s. Some (o_AddBalance a v s))))"
    by (rule undo_live_bind [OF undo_o_nilable(2) undo_o_balance(1) o_live_nilable(1)])
  have "journal.undoable (\<lambda>s. Some (o_AddPledgedBalance a v (o_SubBalance a v (?pool True (GetOrNewStateObject a s)))))"
    by (rule undo_GetOrNew_pool [OF p, where g = "?pool True"]) simp
  then show "journal.undoable (\<lambda>s. Some (PledgeToken a v s))" by (simp add: PledgeToken_def Let_def)
  have "journal.undoable (\<lambda>s. Option.bind (o_SubPledgedBalance a v (?pool False (GetOrNewStateObject a s)))
      (\<lambda>s. Some (o_AddBalance a v s)))"
    by (rule undo_GetOrNew_pool [OF c, where g = "?pool False"]) simp
  then show "journal.undoable (CancelPledgedToken a v)"
    by (rule journal.undoable_guard) (simp add: CancelPledgedToken_def Let_def)
qed

lemma undo_exchanger_token [undo_intros]:
  "journal.undoable (AddExchangerToken a v)" "journal.undoable (SubExchangerToken a v)"
proof -
  let ?pool = "\<lambda>f s. s\<lparr>ExchangerTokenPool := ExchangerTokenPool s @ [\<lparr>pt_Address = a, pt_Amount = v, pt_Flag = f\<rparr>]\<rparr>"
  have p: "journal.undoable (live a (\<lambda>s. Option.bind (Some (o_SubBalance a v s)) (o_AddExchangerBalance a v)))"
    by (rule undo_live_bind [OF undo_o_balance(2) undo_o_nilable(3)]) (use o_live_at(2) in blast)
  have c: "journal.undoable (live a (\<lambda>s. Option.bind (o_SubExchangerBalance a v s) (\<lambda>s. Some (o_AddBalance a v s))))"
    by (rule undo_live_bind [OF undo_o_nilable(4) undo_o_balance(1) o_live_nilable(3)])
  have "journal.undoable (\<lambda>s. Option.bind (Some (o_SubBalance a v (?pool True (GetOrNewStateObject a s)))) (o_AddExchangerBalance a v))"
    by (rule undo_GetOrNew_pool [OF p, where g = "?pool True"]) simp
  then show "journal.undoable (AddExchangerToken a v)"
    by (rule journal.undoable_guard) (simp add: AddExchangerToken_def Let_def)
  have "journal.undoable (\<lambda>s. Option.bind (o_SubExchangerBalance a v (?pool False (GetOrNewStateObject a s)))
      (\<lambda>s. Some (o_AddBalance a v s)))"
    by (rule undo_GetOrNew_pool [OF c, where g = "?pool False"]) simp
  then show "journal.undoable (SubExchangerToken a v)"
    by (rule journal.undoable_guard) (simp add: SubExchangerToken_def Let_def)
qed

lemma undo_OpenExchanger [undo_intros]: "journal.undoable (\<lambda>s. Some (OpenExchanger a v bn r n u s))"
proof -
  let ?pool = "\<lambda>s. s\<lparr>ExchangerTokenPool := ExchangerTokenPool s @ [\<lparr>pt_Address = a, pt_Amount = v, pt_Flag = True\<rparr>]\<rparr>"
  have "journal.undoable (live a (\<lambda>s. Some (o_SetExchangerBalance a v (o_SubBalance a v s))))"
    by (rule undo_live_then [OF undo_o_balance(2) undo_o_SetExchangerBalance o_live_at(2)])
  then have "journal.undoable (live a (\<lambda>s. Some (o_OpenExchanger a bn r n u (o_SetExchangerBalance a v (o_SubBalance a v s)))))"
    by (rule undo_live_then [OF _ undo_o_exchanger(1)]) (intro o_live_at)
  then have "journal.undoable (\<lambda>s. Some (o_OpenExchanger a bn r n u (o_SetExchangerBalance a v
      (o_SubBalance a v (?pool (GetOrNewStateObject a s))))))"
    by (rule undo_GetOrNew_pool [where g = ?pool]) simp
  then show ?thesis by (simp add: OpenExchanger_def Let_def)
qed

lemma undo_CloseExchanger [undo_intros]: "journal.undoable (CloseExchanger a bn)"
proof -
  let ?pool = "\<lambda>v s. s\<lparr>ExchangerTokenPool := ExchangerTokenPool s @ [\<lparr>pt_Address = a, pt_Amount = v, pt_Flag = False\<rparr>]\<rparr>"
  let ?f = "\<lambda>v s. Some (o_CloseExchanger a (o_SetExchangerBalance a 0 (o_AddBalance a v s)))"
  let ?g = "\<lambda>x. case x of None \<Rightarrow> Some | Some v \<Rightarrow> (\<lambda>s. ?f v (?pool v s))"
  let ?q = "\<lambda>s. case BlockNumber (data (deref s a)) of None \<Rightarrow> None
     | Some op \<Rightarrow> if bn > op then ExchangerBalance (data (deref s a)) else None"
  have "journal.undoable (live a (\<lambda>s. Some (o_SetExchangerBalance a 0 (o_AddBalance a v s))))" for v
    by (rule undo_live_then [OF undo_o_balance(1) undo_o_SetExchangerBalance o_live_at(1)])
  then have "journal.undoable (live a (?f v))" for v
    by (rule undo_live_then [OF _ undo_o_exchanger(2)]) (intro o_live_at)
  then have "journal.undoable (live a (\<lambda>s. ?f v (?pool v s)))" for v
    by (rule undo_live_pool) simp
  then have "journal.undoable (live a (?g x))" for x by (cases x) (simp_all add: undo_live_Some)
  then have "journal.undoable (live a (\<lambda>s. ?g (?q s) s))" by (rule undo_live_choice)
  then have "journal.undoable (\<lambda>s. ?g (?q (GetOrNewStateObject a s)) (GetOrNewStateObject a s))" by (rule undo_GetOrNew)
  then show ?thesis
    by (rule journal.undoable_guard) (auto simp: CloseExchanger_def Let_def bind_Some_iff split: if_splits)
qed

text \<open>The entry an exchanged NFT leaves in the pool.\<close>

definition exchangeEntry :: "address \<Rightarrow> int \<Rightarrow> StateDB \<Rightarrow> SNFTExchange" where
  "exchangeEntry a bn s = (let n = NFT (data (deref s a))
     in \<lparr>Info = \<lparr>MetalUrl = MetaURL n, ii_Royalty = Royalty n, ii_Creator = Address_String (hasher s) (Creator n)\<rparr>,
         NFTAddress = a, sx_MergeLevel = MergeLevel n, CurrentMintAddress = a, sx_BlockNumber = bn\<rparr>)"

lemma ExchangeNFTToCurrency_alt:
  "ExchangeNFTToCurrency a nft bn level s =
     do { s1 \<leftarrow> SplitNFT16 nft level s;
          let s2 = GetOrNewStateObject a (GetOrNewStateObject nft s1);
          Some (o_AddBalance a (calculateExchangeAmount (MergeLevel (NFT (data (deref s2 nft)))))
            (o_CleanNFT nft (s2\<lparr>SNFTExchangePool := SNFTExchangePool s2 @ [exchangeEntry nft bn s2]\<rparr>))) }"
  by (simp add: ExchangeNFTToCurrency_def exchangeEntry_def Let_def)

lemma undo_Exchange [undo_intros]: "journal.undoable (ExchangeNFTToCurrency a nft bn level)"
proof (rule journal.undoable_guard)
  let ?pay = "\<lambda>v s. Option.bind (live nft (\<lambda>s. Some (o_CleanNFT nft s)) s) (live a (\<lambda>s. Some (o_AddBalance a v s)))"
  let ?pool = "\<lambda>s. s\<lparr>SNFTExchangePool := SNFTExchangePool s @ [exchangeEntry nft bn s]\<rparr>"
  let ?rest = "\<lambda>s. ?pay (calculateExchangeAmount (MergeLevel (NFT (data (deref s nft))))) (?pool s)"
  have pay: "journal.undoable (?pay v)" for v
    by (intro journal.undoable_bind undo_o_CleanNFT undo_o_balance)
  have "journal.undoable (\<lambda>s. Some (?pool s))" by (rule undo_view_same) simp
  then have "journal.undoable (\<lambda>s. ?pay v (?pool s))" for v by (rule undo_then [OF _ pay])
  then have "journal.undoable ?rest"
    by (rule journal.undoable_choice [of "\<lambda>v s. ?pay v (?pool s)"])
  then have "journal.undoable (\<lambda>s. ?rest (GetOrNewStateObject a s))"
    by (rule undo_then [OF undo_GetOrNewStateObject])
  then have "journal.undoable (\<lambda>s. ?rest (GetOrNewStateObject a (GetOrNewStateObject nft s)))"
    by (rule undo_then [OF undo_GetOrNewStateObject])
  then show "journal.undoable (\<lambda>s. Option.bind (SplitNFT16 nft level s)
      (\<lambda>s. ?rest (GetOrNewStateObject a (GetOrNewStateObject nft s))))"
    by (rule journal.undoable_bind [OF undo_SplitNFT16])
  fix s s' assume "ExchangeNFTToCurrency a nft bn level s = Some s'"
  then obtain s1 where s1: "SplitNFT16 nft level s = Some s1"
    and s': "s' = (let s2 = GetOrNewStateObject a (GetOrNewStateObject nft s1) in
       o_AddBalance a (calculateExchangeAmount (MergeLevel (NFT (data (deref s2 nft))))) (o_CleanNFT nft (?pool s2)))"
    by (auto simp: ExchangeNFTToCurrency_alt bind_Some_iff Let_def)
  let ?s2 = "GetOrNewStateObject a (GetOrNewStateObject nft s1)"
  have l: "getStateObject (?pool ?s2) nft \<noteq> None" "getStateObject (?pool ?s2) a \<noteq> None"
    using o_live_at(6) [OF GetOrNew_live [of nft s1], of a] GetOrNew_live [of a "GetOrNewStateObject nft s1"]
    by (simp_all only: get_pools not_False_eq_True)
  then have "getStateObject (o_CleanNFT nft (?pool ?s2)) a \<noteq> None" by (intro o_live_at)
  then show "Option.bind (SplitNFT16 nft level s) (\<lambda>s. ?rest (GetOrNewStateObject a (GetOrNewStateObject nft s))) = Some s'"
    using s1 s' l by (simp add: live_def Let_def)
qed

end
