(* ===== verification/Accounts.thy ===== *)
theory Accounts
  imports NFTState
begin

text \<open>
  The state database seen as a map from addresses to accounts. \<open>acct s\<close> is the account a caller
  observes at an address, the zero account where there is none. Every method of the state
  database is a simple update of this map: caches, tries, object creation and the journal do
  not show. \<open>wallet\<close> leaves the NFT out of an account, and is what moving, merging and splitting NFTs keep.
\<close>

section \<open>Definitions\<close>

definition acct :: "StateDB \<Rightarrow> address \<Rightarrow> Account" where
  "acct s a = (case getStateObject s a of Some ob \<Rightarrow> data ob | None \<Rightarrow> zeroAccount (hasher s))"

definition wallet :: "StateDB \<Rightarrow> address \<Rightarrow> Account" where
  "wallet s a = (acct s a)\<lparr>NFT := noNFT\<rparr>"

definition nilz :: "int option \<Rightarrow> int" where
  "nilz x = (case x of None \<Rightarrow> 0 | Some v \<Rightarrow> v)"

lemma nilz_simps [simp]: "nilz None = 0" "nilz (Some v) = v"
  by (simp_all add: nilz_def)

section \<open>Getters\<close>

lemma hasher_simps [simp]:
  "hasher (modify a f s) = hasher s" "hasher (journal_append e s) = hasher s"
  "hasher (GetOrNewStateObject a s) = hasher s" "hasher (CreateAccount a s) = hasher s"
  "hasher (touch a s) = hasher s"
  by (simp_all add: modify_def journal_append_def GetOrNewStateObject_def CreateAccount_def createObject_def
      setStateObject_def touch_def dirty_def Let_def split: option.split)

lemma zeroAccount_fields [simp]:
  "Balance (zeroAccount k) = 0" "PledgedBalance (zeroAccount k) = None"
  by (simp_all add: zeroAccount_def)

lemma getter_acct:
  "GetBalance a s = Balance (acct s a)" "GetNonce a s = Nonce (acct s a)"
  "GetPledgedBalance a s = nilz (PledgedBalance (acct s a))"
  "GetExchangerBalance a s = nilz (ExchangerBalance (acct s a))"
  "GetExchangerFlag a s = ExchangerFlag (acct s a)" "GetFeeRate a s = FeeRate (acct s a)"
  "GetNFTCreator a s = Creator (NFT (acct s a))" "GetNFTRoyalty a s = Royalty (NFT (acct s a))"
  "GetNFTExchanger a s = Exchanger (NFT (acct s a))" "GetNFTMergeLevel a s = MergeLevel (NFT (acct s a))"
  "GetApproveAddress a s = ApproveAddressList (acct s a)"
  by (auto simp: acct_def zeroAccount_def noNFT_def nilz_def GetBalance_def GetNonce_def GetPledgedBalance_def GetExchangerBalance_def
      GetExchangerFlag_def GetFeeRate_def GetNFTCreator_def GetNFTRoyalty_def GetNFTExchanger_def GetNFTMergeLevel_def
      GetApproveAddress_def split: option.split)

lemma acct_bookkeeping [simp]:
  "acct (journal_append e s) = acct s" "acct (fst (Snapshot s)) = acct s"
  "acct (s\<lparr>mintDeep := md\<rparr>) = acct s" "acct (s\<lparr>SNFTExchangePool := p\<rparr>) = acct s"
  "acct (s\<lparr>PledgedTokenPool := q\<rparr>) = acct s" "acct (s\<lparr>ExchangerTokenPool := q\<rparr>) = acct s"
  "acct (s\<lparr>ActiveMinersPool := am\<rparr>) = acct s" "acct (s\<lparr>OfficialNFTPool := r\<rparr>) = acct s"
  "acct (s\<lparr>Nominated := n\<rparr>) = acct s"
  by (simp_all add: acct_def lookup_simps fun_eq_iff Snapshot_def Let_def getStateObject_def
      getDeletedStateObject_simps getDeleted_pools split: option.split)

lemma acct_GetOrNew [simp]: "acct (GetOrNewStateObject a s) = acct s"
  by (auto simp: acct_def lookup_simps fun_eq_iff split: option.split)

lemma acct_CreateAccount:
  "acct (CreateAccount a s) = (acct s)(a := (zeroAccount (hasher s))\<lparr>Balance := Balance (acct s a)\<rparr>)"
  by (auto simp: acct_def lookup_simps fun_eq_iff setBalance_def zeroAccount_def split: option.split)

lemma deref_acct: "getStateObject s a \<noteq> None \<Longrightarrow> data (deref s a) = acct s a"
  by (auto simp: acct_def deref_get)

lemma acct_modify:
  assumes "getStateObject s a \<noteq> None" and "\<And>ob. deleted (f ob) = deleted ob" and "\<And>ob. data (f ob) = g (data ob)"
  shows "acct (modify a f s) = (acct s)(a := g (acct s a))"
  using assms live_not_deleted [OF assms(1)] deref_acct [OF assms(1)]
  by (auto simp: acct_def lookup_simps fun_eq_iff split: option.split)

lemma acct_o:
  assumes "getStateObject s a \<noteq> None"
  shows "acct (o_SetBalance a v s) = (acct s)(a := (acct s a)\<lparr>Balance := v\<rparr>)"
    and "acct (o_SetNonce a n s) = (acct s)(a := (acct s a)\<lparr>Nonce := n\<rparr>)"
    and "acct (o_SetOwner a w s) = (acct s)(a := (acct s a)\<lparr>NFT := (NFT (acct s a))\<lparr>Owner := w\<rparr>\<rparr>)"
    and "acct (o_SetNFTApproveAddress a w s) = (acct s)(a := (acct s a)\<lparr>NFT := (NFT (acct s a))\<lparr>NFTApproveAddressList := w\<rparr>\<rparr>)"
    and "acct (o_SetPledgedBalance a v s) = (acct s)(a := (acct s a)\<lparr>PledgedBalance := Some v\<rparr>)"
    and "acct (o_SetExchangerBalance a v s) = (acct s)(a := (acct s a)\<lparr>ExchangerBalance := Some v\<rparr>)"
    and "acct (o_SetVoteWeight a v s) = (acct s)(a := (acct s a)\<lparr>VoteWeight := Some v\<rparr>)"
    and "acct (o_SetExchangerInfo a fl bn r nm u s) = (acct s)(a := (acct s a)\<lparr>ExchangerFlag := fl, BlockNumber := bn,
           FeeRate := r, ExchangerName := nm, ExchangerURL := u\<rparr>)"
    and "acct (o_CleanNFT a s) = (acct s)(a := (acct s a)\<lparr>NFT := (NFT (acct s a))\<lparr>Name := [], Symbol := [], Owner := 0, NFTApproveAddressList := 0,
           MergeLevel := 0, Creator := 0, Royalty := 0, Exchanger := 0, MetaURL := []\<rparr>\<rparr>)"
    and "acct (o_SetNFTInfo a nm sy p d w ap l c r x u s) = (acct s)(a := (acct s a)\<lparr>NFT := (NFT (acct s a))\<lparr>Name := nm, Symbol := sy,
           Owner := w, NFTApproveAddressList := ap, MergeLevel := l, Creator := c, Royalty := r, Exchanger := x, MetaURL := u\<rparr>\<rparr>)"
proof -
  have live: "getStateObject (journal_append e s) a \<noteq> None" for e using assms by (simp add: lookup_simps)
  note m = acct_modify [OF live]
  show "acct (o_SetBalance a v s) = (acct s)(a := (acct s a)\<lparr>Balance := v\<rparr>)"
    unfolding o_SetBalance_def by (subst m [where g = "\<lambda>d. d\<lparr>Balance := v\<rparr>"]) (simp_all add: setter_defs)
  show "acct (o_SetNonce a n s) = (acct s)(a := (acct s a)\<lparr>Nonce := n\<rparr>)"
    unfolding o_SetNonce_def by (subst m [where g = "\<lambda>d. d\<lparr>Nonce := n\<rparr>"]) (simp_all add: setter_defs)
  show "acct (o_SetOwner a w s) = (acct s)(a := (acct s a)\<lparr>NFT := (NFT (acct s a))\<lparr>Owner := w\<rparr>\<rparr>)"
    unfolding o_SetOwner_def by (subst m [where g = "\<lambda>d. d\<lparr>NFT := (NFT d)\<lparr>Owner := w\<rparr>\<rparr>"]) (simp_all add: setter_defs)
  show "acct (o_SetNFTApproveAddress a w s) = (acct s)(a := (acct s a)\<lparr>NFT := (NFT (acct s a))\<lparr>NFTApproveAddressList := w\<rparr>\<rparr>)"
    unfolding o_SetNFTApproveAddress_def
    by (subst m [where g = "\<lambda>d. d\<lparr>NFT := (NFT d)\<lparr>NFTApproveAddressList := w\<rparr>\<rparr>"]) (simp_all add: setter_defs)
  show "acct (o_SetPledgedBalance a v s) = (acct s)(a := (acct s a)\<lparr>PledgedBalance := Some v\<rparr>)"
    unfolding o_SetPledgedBalance_def by (subst m [where g = "\<lambda>d. d\<lparr>PledgedBalance := Some v\<rparr>"]) (simp_all add: setter_defs)
  show "acct (o_SetExchangerBalance a v s) = (acct s)(a := (acct s a)\<lparr>ExchangerBalance := Some v\<rparr>)"
    unfolding o_SetExchangerBalance_def by (subst m [where g = "\<lambda>d. d\<lparr>ExchangerBalance := Some v\<rparr>"]) (simp_all add: setter_defs)
  show "acct (o_SetVoteWeight a v s) = (acct s)(a := (acct s a)\<lparr>VoteWeight := Some v\<rparr>)"
    unfolding o_SetVoteWeight_def by (subst m [where g = "\<lambda>d. d\<lparr>VoteWeight := Some v\<rparr>"]) (simp_all add: setter_defs)
  show "acct (o_SetExchangerInfo a fl bn r nm u s) = (acct s)(a := (acct s a)\<lparr>ExchangerFlag := fl, BlockNumber := bn,
           FeeRate := r, ExchangerName := nm, ExchangerURL := u\<rparr>)"
    unfolding o_SetExchangerInfo_def Let_def
    by (subst m [where g = "\<lambda>d. d\<lparr>ExchangerFlag := fl, BlockNumber := bn, FeeRate := r, ExchangerName := nm, ExchangerURL := u\<rparr>"])
      (simp_all add: setter_defs)
  show "acct (o_CleanNFT a s) = (acct s)(a := (acct s a)\<lparr>NFT := (NFT (acct s a))\<lparr>Name := [], Symbol := [], Owner := 0, NFTApproveAddressList := 0,
           MergeLevel := 0, Creator := 0, Royalty := 0, Exchanger := 0, MetaURL := []\<rparr>\<rparr>)"
    unfolding o_CleanNFT_def
    by (subst m [where g = "\<lambda>d. d\<lparr>NFT := (NFT d)\<lparr>Name := [], Symbol := [], Owner := 0, NFTApproveAddressList := 0,
           MergeLevel := 0, Creator := 0, Royalty := 0, Exchanger := 0, MetaURL := []\<rparr>\<rparr>"]) (simp_all add: setter_defs)
  show "acct (o_SetNFTInfo a nm sy p d w ap l c r x u s) = (acct s)(a := (acct s a)\<lparr>NFT := (NFT (acct s a))\<lparr>Name := nm, Symbol := sy,
           Owner := w, NFTApproveAddressList := ap, MergeLevel := l, Creator := c, Royalty := r, Exchanger := x, MetaURL := u\<rparr>\<rparr>)"
    unfolding o_SetNFTInfo_def
    by (subst m [where g = "\<lambda>d. d\<lparr>NFT := (NFT d)\<lparr>Name := nm, Symbol := sy,
           Owner := w, NFTApproveAddressList := ap, MergeLevel := l, Creator := c, Royalty := r, Exchanger := x, MetaURL := u\<rparr>\<rparr>"])
      (simp_all add: setter_defs)
qed

lemma acct_o_amounts:
  assumes "getStateObject s a \<noteq> None"
  shows "acct (o_AddBalance a v s) = (acct s)(a := (acct s a)\<lparr>Balance := Balance (acct s a) + v\<rparr>)"
    and "acct (o_SubBalance a v s) = (acct s)(a := (acct s a)\<lparr>Balance := Balance (acct s a) - v\<rparr>)"
    and "acct (o_AddPledgedBalance a v s) = (acct s)(a := (acct s a)\<lparr>PledgedBalance :=
           (if v = 0 then PledgedBalance (acct s a) else Some (nilz (PledgedBalance (acct s a)) + v))\<rparr>)"
  using acct_o(1,5) [OF assms] deref_acct [OF assms]
  by (simp_all add: touch_dead o_SubBalance_def o_AddPledgedBalance_def nilz_def)

text \<open>A nil amount can be neither added to nor subtracted from.\<close>

definition nil_add :: "int option \<Rightarrow> int \<Rightarrow> int option panics" where
  "nil_add x v = (if v = 0 then Some x else do { y \<leftarrow> x; Some (Some (y + v)) })"

lemma nil_add_value: "nil_add x v = Some y \<Longrightarrow> nilz y = nilz x + v"
  by (auto simp: nil_add_def bind_Some_iff split: if_splits)

lemma acct_o_nilable:
  assumes "getStateObject s a \<noteq> None"
  shows "map_option acct (o_SubPledgedBalance a v s) =
      map_option (\<lambda>x. (acct s)(a := (acct s a)\<lparr>PledgedBalance := x\<rparr>)) (nil_add (PledgedBalance (acct s a)) (- v))"
    and "map_option acct (o_AddExchangerBalance a v s) =
      map_option (\<lambda>x. (acct s)(a := (acct s a)\<lparr>ExchangerBalance := x\<rparr>)) (nil_add (ExchangerBalance (acct s a)) v)"
    and "map_option acct (o_SubExchangerBalance a v s) =
      map_option (\<lambda>x. (acct s)(a := (acct s a)\<lparr>ExchangerBalance := x\<rparr>)) (nil_add (ExchangerBalance (acct s a)) (- v))"
    and "map_option acct (o_AddVoteWeight a v s) =
      map_option (\<lambda>x. (acct s)(a := (acct s a)\<lparr>VoteWeight := x\<rparr>)) (nil_add (VoteWeight (acct s a)) v)"
    and "map_option acct (o_SubVoteWeight a v s) =
      map_option (\<lambda>x. (acct s)(a := (acct s a)\<lparr>VoteWeight := x\<rparr>)) (nil_add (VoteWeight (acct s a)) (- v))"
  using deref_acct [OF assms]
  by (auto simp: o_SubPledgedBalance_def o_AddExchangerBalance_def o_SubExchangerBalance_def o_AddVoteWeight_def o_SubVoteWeight_def
      nil_add_def acct_o(5,6,7) [OF assms] split: Option.bind_split)

section \<open>Methods of the state database\<close>

lemma acct_methods [simp]:
  "acct (AddBalance a v s) = (acct s)(a := (acct s a)\<lparr>Balance := Balance (acct s a) + v\<rparr>)"
  "acct (SubBalance a v s) = (acct s)(a := (acct s a)\<lparr>Balance := Balance (acct s a) - v\<rparr>)"
  "acct (SetBalance a v s) = (acct s)(a := (acct s a)\<lparr>Balance := v\<rparr>)"
  "acct (SetNonce a n s) = (acct s)(a := (acct s a)\<lparr>Nonce := n\<rparr>)"
  by (simp_all add: AddBalance_def SubBalance_def SetBalance_def SetNonce_def acct_o acct_o_amounts GetOrNew_live)

lemma map_option_acctD: "map_option acct f = map_option g h \<Longrightarrow> f = Some s' \<Longrightarrow> \<exists>x. h = Some x \<and> acct s' = g x"
  by (cases h) auto

lemma acct_VoteWeight:
  "map_option acct (AddVoteWeight a v s) =
      map_option (\<lambda>x. (acct s)(a := (acct s a)\<lparr>VoteWeight := x\<rparr>)) (nil_add (VoteWeight (acct s a)) v)"
  "map_option acct (SubVoteWeight a v s) =
      map_option (\<lambda>x. (acct s)(a := (acct s a)\<lparr>VoteWeight := x\<rparr>)) (nil_add (VoteWeight (acct s a)) (- v))"
  using acct_o_nilable(4,5) [OF GetOrNew_live] by (simp_all add: AddVoteWeight_def SubVoteWeight_def)

lemma acct_PledgeToken:
  "acct (PledgeToken a v s) = (acct s)(a := (acct s a)\<lparr>Balance := Balance (acct s a) - v,
     PledgedBalance := (if v = 0 then PledgedBalance (acct s a) else Some (nilz (PledgedBalance (acct s a)) + v))\<rparr>)"
proof -
  let ?s = "(GetOrNewStateObject a s)\<lparr>PledgedTokenPool := PledgedTokenPool (GetOrNewStateObject a s) @ [\<lparr>pt_Address = a, pt_Amount = v, pt_Flag = True\<rparr>]\<rparr>"
  have live: "getStateObject ?s a \<noteq> None" using GetOrNew_live by (simp add: lookup_simps)
  show ?thesis
    unfolding PledgeToken_def Let_def acct_o_amounts(3) [OF o_live_at(2) [OF live]] acct_o_amounts(2) [OF live]
    by (simp add: fun_eq_iff)
qed

lemma acct_CancelPledgedToken:
  assumes "CancelPledgedToken a v s = Some s'"
  shows "\<exists>x. nil_add (PledgedBalance (acct s a)) (- v) = Some x
     \<and> acct s' = (acct s)(a := (acct s a)\<lparr>Balance := Balance (acct s a) + v, PledgedBalance := x\<rparr>)"
proof -
  let ?s = "(GetOrNewStateObject a s)\<lparr>PledgedTokenPool := PledgedTokenPool (GetOrNewStateObject a s) @ [\<lparr>pt_Address = a, pt_Amount = v, pt_Flag = False\<rparr>]\<rparr>"
  have live: "getStateObject ?s a \<noteq> None" using GetOrNew_live by (simp add: lookup_simps)
  from assms obtain t where t: "o_SubPledgedBalance a v ?s = Some t" "s' = o_AddBalance a v t"
    by (auto simp: CancelPledgedToken_def Let_def bind_Some_iff)
  show ?thesis
    using map_option_acctD [OF acct_o_nilable(1) [OF live] t(1)] acct_o_amounts(1) [OF o_live_nilable(1) [OF live t(1)], of v] t(2)
    by (auto simp: fun_eq_iff)
qed

lemma acct_AddExchangerToken:
  assumes "AddExchangerToken a v s = Some s'"
  shows "\<exists>x. nil_add (ExchangerBalance (acct s a)) v = Some x
     \<and> acct s' = (acct s)(a := (acct s a)\<lparr>Balance := Balance (acct s a) - v, ExchangerBalance := x\<rparr>)"
proof -
  let ?s = "(GetOrNewStateObject a s)\<lparr>ExchangerTokenPool := ExchangerTokenPool (GetOrNewStateObject a s) @ [\<lparr>pt_Address = a, pt_Amount = v, pt_Flag = True\<rparr>]\<rparr>"
  have live: "getStateObject ?s a \<noteq> None" using GetOrNew_live by (simp add: lookup_simps)
  from assms have t: "o_AddExchangerBalance a v (o_SubBalance a v ?s) = Some s'"
    by (auto simp: AddExchangerToken_def Let_def bind_Some_iff)
  show ?thesis
    using map_option_acctD [OF acct_o_nilable(2) [OF o_live_at(2) [OF live]] t] acct_o_amounts(2) [OF live, of v]
    by (auto simp: fun_eq_iff)
qed

lemma acct_SubExchangerToken:
  assumes "SubExchangerToken a v s = Some s'"
  shows "\<exists>x. nil_add (ExchangerBalance (acct s a)) (- v) = Some x
     \<and> acct s' = (acct s)(a := (acct s a)\<lparr>Balance := Balance (acct s a) + v, ExchangerBalance := x\<rparr>)"
proof -
  let ?s = "(GetOrNewStateObject a s)\<lparr>ExchangerTokenPool := ExchangerTokenPool (GetOrNewStateObject a s) @ [\<lparr>pt_Address = a, pt_Amount = v, pt_Flag = False\<rparr>]\<rparr>"
  have live: "getStateObject ?s a \<noteq> None" using GetOrNew_live by (simp add: lookup_simps)
  from assms obtain t where t: "o_SubExchangerBalance a v ?s = Some t" "s' = o_AddBalance a v t"
    by (auto simp: SubExchangerToken_def Let_def bind_Some_iff)
  show ?thesis
    using map_option_acctD [OF acct_o_nilable(3) [OF live] t(1)] acct_o_amounts(1) [OF o_live_nilable(3) [OF live t(1)], of v] t(2)
    by (auto simp: fun_eq_iff)
qed

lemma acct_OpenExchanger:
  "acct (OpenExchanger a v bn r nm u s) = (acct s)(a :=
     (let d = (acct s a)\<lparr>Balance := Balance (acct s a) - v, ExchangerBalance := Some v\<rparr>
      in if ExchangerFlag d then d else d\<lparr>ExchangerFlag := True, BlockNumber := Some bn, FeeRate := r, ExchangerName := nm, ExchangerURL := u\<rparr>))"
proof -
  let ?s = "(GetOrNewStateObject a s)\<lparr>ExchangerTokenPool := ExchangerTokenPool (GetOrNewStateObject a s) @ [\<lparr>pt_Address = a, pt_Amount = v, pt_Flag = True\<rparr>]\<rparr>"
  have live: "getStateObject ?s a \<noteq> None" using GetOrNew_live by (simp add: lookup_simps)
  let ?t = "o_SetExchangerBalance a v (o_SubBalance a v ?s)"
  have t: "acct ?t = (acct s)(a := (acct s a)\<lparr>Balance := Balance (acct s a) - v, ExchangerBalance := Some v\<rparr>)"
    unfolding acct_o(6) [OF o_live_at(2) [OF live]] acct_o_amounts(2) [OF live] by (simp add: fun_eq_iff)
  have lt: "getStateObject ?t a \<noteq> None" by (intro o_live_at live)
  show ?thesis
    unfolding OpenExchanger_def Let_def o_OpenExchanger_def deref_acct [OF lt] t
    using acct_o(8) [OF lt] t by (simp add: fun_eq_iff)
qed

lemma acct_CloseExchanger:
  assumes "CloseExchanger a bn s = Some s'"
  shows "\<exists>opened. BlockNumber (acct s a) = Some opened \<and>
     (if bn \<le> opened then acct s' = acct s
      else \<exists>v. ExchangerBalance (acct s a) = Some v \<and> acct s' = (acct s)(a :=
        (let d = (acct s a)\<lparr>Balance := Balance (acct s a) + v, ExchangerBalance := Some 0\<rparr>
         in if ExchangerFlag d then d\<lparr>ExchangerFlag := False, BlockNumber := Some 0, FeeRate := 0, ExchangerName := [], ExchangerURL := []\<rparr> else d)))"
proof -
  let ?s1 = "GetOrNewStateObject a s"
  have d: "data (deref ?s1 a) = acct s a" using deref_acct [OF GetOrNew_live, of a s] by simp
  obtain opened where op: "BlockNumber (acct s a) = Some opened" using assms d by (auto simp: CloseExchanger_def Let_def bind_Some_iff)
  show ?thesis
  proof (cases "bn \<le> opened")
    case True
    then show ?thesis using assms op d by (auto simp: CloseExchanger_def Let_def bind_Some_iff)
  next
    case False
    then obtain v where v: "ExchangerBalance (acct s a) = Some v"
      using assms op d by (auto simp: CloseExchanger_def Let_def bind_Some_iff)
    let ?s = "?s1\<lparr>ExchangerTokenPool := ExchangerTokenPool ?s1 @ [\<lparr>pt_Address = a, pt_Amount = v, pt_Flag = False\<rparr>]\<rparr>"
    have live: "getStateObject ?s a \<noteq> None" using GetOrNew_live by (simp add: lookup_simps)
    let ?t = "o_SetExchangerBalance a 0 (o_AddBalance a v ?s)"
    have t: "acct ?t = (acct s)(a := (acct s a)\<lparr>Balance := Balance (acct s a) + v, ExchangerBalance := Some 0\<rparr>)"
      unfolding acct_o(6) [OF o_live_at(1) [OF live]] acct_o_amounts(1) [OF live] by (simp add: fun_eq_iff)
    have lt: "getStateObject ?t a \<noteq> None" by (intro o_live_at live)
    have "s' = o_CloseExchanger a ?t" using False assms op v d by (simp add: CloseExchanger_def Let_def)
    then have "acct s' = (acct s)(a := (let d = (acct s a)\<lparr>Balance := Balance (acct s a) + v, ExchangerBalance := Some 0\<rparr>
         in if ExchangerFlag d then d\<lparr>ExchangerFlag := False, BlockNumber := Some 0, FeeRate := 0, ExchangerName := [], ExchangerURL := []\<rparr> else d))"
      unfolding o_CloseExchanger_def deref_acct [OF lt] using acct_o(8) [OF lt] t by (simp add: fun_eq_iff)
    then show ?thesis using op v False by simp
  qed
qed

text \<open>A user's NFT is minted at the address that the counter names; the account there is made anew.\<close>

definition mintedNFT :: "StateDB \<Rightarrow> address" where
  "mintedNFT s = BigToAddress (UserMint (mintDeep s))"

lemma acct_CreateNFTByUser:
  "acct (fst (CreateNFTByUser x w r u s)) = (acct s)(mintedNFT s := (zeroAccount (hasher s))\<lparr>Balance := Balance (acct s (mintedNFT s)),
     NFT := noNFT\<lparr>Name := [], Symbol := [], Owner := w, NFTApproveAddressList := 0, MergeLevel := 0, Creator := w, Royalty := r,
       Exchanger := x, MetaURL := u\<rparr>\<rparr>)"
  and snd_CreateNFTByUser: "snd (CreateNFTByUser x w r u s) = mintedNFT s"
  and UserMint_CreateNFTByUser: "UserMint (mintDeep (fst (CreateNFTByUser x w r u s))) = UserMint (mintDeep s) + 1"
proof -
  have NFTz: "NFT (zeroAccount k) = noNFT" for k by (simp add: zeroAccount_def)
  show "acct (fst (CreateNFTByUser x w r u s)) = (acct s)(mintedNFT s := (zeroAccount (hasher s))\<lparr>Balance := Balance (acct s (mintedNFT s)),
     NFT := noNFT\<lparr>Name := [], Symbol := [], Owner := w, NFTApproveAddressList := 0, MergeLevel := 0, Creator := w, Royalty := r,
       Exchanger := x, MetaURL := u\<rparr>\<rparr>)"
    unfolding CreateNFTByUser_def Let_def mintedNFT_def [symmetric]
    by (simp add: acct_o(10) [OF GetOrNew_live] acct_CreateAccount NFTz)
  show "snd (CreateNFTByUser x w r u s) = mintedNFT s"
    by (simp add: CreateNFTByUser_def Let_def mintedNFT_def)
  show "UserMint (mintDeep (fst (CreateNFTByUser x w r u s))) = UserMint (mintDeep s) + 1"
    by (simp add: CreateNFTByUser_def Let_def o_SetNFTInfo_def modify_def journal_append_def GetOrNewStateObject_def
        CreateAccount_def createObject_def setStateObject_def split: option.split)
qed

text \<open>The one way these methods panic: an amount other than zero and a nil field.\<close>

lemma CancelPledgedToken_panics: "CancelPledgedToken a v s = None \<longleftrightarrow> nil_add (PledgedBalance (acct s a)) (- v) = None"
  using deref_acct [OF GetOrNew_live, of a s]
  by (auto simp: CancelPledgedToken_def o_SubPledgedBalance_def nil_add_def Let_def lookup_simps split: Option.bind_split)

lemma exchanger_panics:
  "AddExchangerToken a v s = None \<longleftrightarrow> nil_add (ExchangerBalance (acct s a)) v = None"
  "SubExchangerToken a v s = None \<longleftrightarrow> nil_add (ExchangerBalance (acct s a)) (- v) = None"
proof -
  let ?s = "\<lambda>f. (GetOrNewStateObject a s)\<lparr>ExchangerTokenPool := ExchangerTokenPool (GetOrNewStateObject a s) @ [\<lparr>pt_Address = a, pt_Amount = v, pt_Flag = f\<rparr>]\<rparr>"
  have live: "getStateObject (?s f) a \<noteq> None" for f using GetOrNew_live by (simp add: lookup_simps)
  have e: "ExchangerBalance (acct (o_SubBalance a v (?s True)) a) = ExchangerBalance (acct s a)" "ExchangerBalance (acct (?s False) a) = ExchangerBalance (acct s a)"
    by (simp_all add: acct_o_amounts(2) [OF live])
  show "AddExchangerToken a v s = None \<longleftrightarrow> nil_add (ExchangerBalance (acct s a)) v = None"
    using arg_cong [OF acct_o_nilable(2) [OF o_live_at(2) [OF live [of True], of a v], of v], of "\<lambda>x. x = None"] e(1)
    by (simp add: AddExchangerToken_def Let_def)
  show "SubExchangerToken a v s = None \<longleftrightarrow> nil_add (ExchangerBalance (acct s a)) (- v) = None"
    using arg_cong [OF acct_o_nilable(3) [OF live [of False], of v], of "\<lambda>x. x = None"] e(2)
    by (simp add: SubExchangerToken_def Let_def Option.bind_eq_None_conv)
qed

text \<open>What such a method does, panics included.\<close>

lemma map_option_acctI:
  "(f = None \<longleftrightarrow> h = None) \<Longrightarrow> (\<And>s'. f = Some s' \<Longrightarrow> \<exists>x. h = Some x \<and> acct s' = g x) \<Longrightarrow> map_option acct f = map_option g h"
  by (cases f; cases h) auto

lemma acct_nilable:
  "map_option acct (CancelPledgedToken a v s) =
     map_option (\<lambda>x. (acct s)(a := (acct s a)\<lparr>Balance := Balance (acct s a) + v, PledgedBalance := x\<rparr>)) (nil_add (PledgedBalance (acct s a)) (- v))"
  "map_option acct (AddExchangerToken a v s) =
     map_option (\<lambda>x. (acct s)(a := (acct s a)\<lparr>Balance := Balance (acct s a) - v, ExchangerBalance := x\<rparr>)) (nil_add (ExchangerBalance (acct s a)) v)"
  "map_option acct (SubExchangerToken a v s) =
     map_option (\<lambda>x. (acct s)(a := (acct s a)\<lparr>Balance := Balance (acct s a) + v, ExchangerBalance := x\<rparr>)) (nil_add (ExchangerBalance (acct s a)) (- v))"
  by (rule map_option_acctI [OF CancelPledgedToken_panics acct_CancelPledgedToken], assumption)
    (rule map_option_acctI [OF exchanger_panics(1) acct_AddExchangerToken], assumption,
     rule map_option_acctI [OF exchanger_panics(2) acct_SubExchangerToken], assumption)

section \<open>NFTs move without money\<close>

definition keeps_wallet :: "(StateDB \<Rightarrow> StateDB panics) \<Rightarrow> bool" where
  "keeps_wallet f \<longleftrightarrow> (\<forall>s s'. f s = Some s' \<longrightarrow> wallet s' = wallet s)"

lemma keeps_walletI: "(\<And>s s'. f s = Some s' \<Longrightarrow> wallet s' = wallet s) \<Longrightarrow> keeps_wallet f"
  by (simp add: keeps_wallet_def)

lemma keeps_walletD: "keeps_wallet f \<Longrightarrow> f s = Some s' \<Longrightarrow> wallet s' = wallet s"
  by (simp add: keeps_wallet_def)

lemma wallet_NFT: "acct s' = (acct s)(a := (acct s a)\<lparr>NFT := n\<rparr>) \<Longrightarrow> wallet s' = wallet s"
  by (auto simp: wallet_def fun_eq_iff)

lemma wallet_acct: "acct s' = acct s \<Longrightarrow> wallet s' = wallet s"
  by (simp add: wallet_def fun_eq_iff)

lemma wallet_getters:
  assumes "wallet s' = wallet s"
  shows "GetBalance a s' = GetBalance a s" "GetPledgedBalance a s' = GetPledgedBalance a s"
    "GetExchangerBalance a s' = GetExchangerBalance a s"
    "VoteWeight (acct s' a) = VoteWeight (acct s a)" "GetExchangerFlag a s' = GetExchangerFlag a s" "GetFeeRate a s' = GetFeeRate a s"
proof -
  have e: "(acct s' a)\<lparr>NFT := noNFT\<rparr> = (acct s a)\<lparr>NFT := noNFT\<rparr>" using fun_cong [OF assms, of a] by (simp add: wallet_def)
  note f = arg_cong [OF e]
  show "GetBalance a s' = GetBalance a s" "GetPledgedBalance a s' = GetPledgedBalance a s"
    "GetExchangerBalance a s' = GetExchangerBalance a s"
    "VoteWeight (acct s' a) = VoteWeight (acct s a)" "GetExchangerFlag a s' = GetExchangerFlag a s" "GetFeeRate a s' = GetFeeRate a s"
    using f [of Balance] f [of PledgedBalance] f [of ExchangerBalance] f [of VoteWeight] f [of ExchangerFlag] f [of FeeRate]
    by (simp_all add: getter_acct)
qed

lemma keeps_for_each: "(\<And>x. keeps_wallet (f x)) \<Longrightarrow> keeps_wallet (for_each f xs)"
proof (induction xs)
  case Nil
  then show ?case by (simp add: keeps_wallet_def)
next
  case (Cons x xs)
  show ?case
  proof (rule keeps_walletI)
    fix s s' assume "for_each f (x # xs) s = Some s'"
    then obtain t where t: "f x s = Some t" "for_each f xs t = Some s'" by (auto simp: bind_Some_iff)
    then show "wallet s' = wallet s" using keeps_walletD [OF Cons.prems t(1)] keeps_walletD [OF Cons.IH [OF Cons.prems] t(2)] by simp
  qed
qed

text \<open>Writing an NFT does not need a live object: where there is none, the new one is a zero account.\<close>

lemma wallet_modify:
  assumes "\<And>ob. deleted (f ob) = deleted ob" and "\<And>ob. \<exists>n. data (f ob) = (data ob)\<lparr>NFT := n\<rparr>"
  shows "wallet (modify a f s) = wallet s"
proof (rule ext)
  fix b
  obtain n where n: "data (f (deref s a)) = (data (deref s a))\<lparr>NFT := n\<rparr>" using assms(2) by blast
  show "wallet (modify a f s) b = wallet s b"
    using assms(1) n by (auto simp: wallet_def acct_def lookup_simps deref_def getStateObject_def split: option.splits)
qed

lemma wallet_append [simp]: "wallet (journal_append e s) = wallet s"
  by (rule wallet_acct) simp

lemma wallet_GetOrNew [simp]: "wallet (GetOrNewStateObject a s) = wallet s"
  by (rule wallet_acct) simp

lemma wallet_NFT_setters:
  "wallet (o_CleanNFT a s) = wallet s" "wallet (o_SetNFTInfo a nm sy p d w ap l c r x u s) = wallet s"
  "wallet (o_SetOwner a w s) = wallet s" "wallet (o_SetNFTApproveAddress a w s) = wallet s"
  unfolding o_CleanNFT_def o_SetNFTInfo_def o_SetOwner_def o_SetNFTApproveAddress_def
  by (subst wallet_modify; (simp add: setter_defs; blast)?; simp)+

lemma wallet_o_ChangeNFTOwner: "wallet (o_ChangeNFTOwner a w s) = wallet s"
  by (simp add: o_ChangeNFTOwner_def wallet_NFT_setters)

lemma wallet_putNFT: "wallet (putNFT a n l u s) = wallet s"
proof -
  have "wallet (CreateAccount a s) = wallet s" if "\<not> Exist a s"
  proof (rule wallet_acct)
    have z: "acct s a = zeroAccount (hasher s)" using that by (simp add: Exist_def acct_def)
    show "acct (CreateAccount a s) = acct s" unfolding acct_CreateAccount z by (simp add: fun_eq_iff z zeroAccount_def)
  qed
  then show ?thesis by (simp add: putNFT_def Let_def wallet_NFT_setters)
qed

lemma keeps_splitInto: "keeps_wallet (splitInto n parts)"
proof (rule keeps_walletI)
  fix s s' assume s': "splitInto n parts s = Some s'"
  have "keeps_wallet (for_each (\<lambda>(splitAddr, level) t. do {
         metaUrl \<leftarrow> moveURL (hasher s) (MetaURL n) splitAddr;
         Some (putNFT splitAddr n level metaUrl t) }) parts)"
    by (rule keeps_for_each) (auto simp: keeps_wallet_def bind_Some_iff wallet_putNFT split: prod.splits)
  then show "wallet s' = wallet s" using s' unfolding splitInto_def by (rule keeps_walletD)
qed

lemma keeps_SplitNFT16: "keeps_wallet (SplitNFT16 a level)"
proof (rule keeps_walletI)
  fix s s' assume "SplitNFT16 a level s = Some s'"
  then have "s' = s \<or> (\<exists>n parts. splitInto n parts s = Some s')"
    unfolding SplitNFT16_def Let_def by (auto simp: bind_Some_iff split: option.splits if_splits)
  then show "wallet s' = wallet s" using keeps_walletD [OF keeps_splitInto] by auto
qed

lemma keeps_mergeSiblings: "keeps_wallet (mergeSiblings ss n p)"
proof (rule keeps_walletI)
  fix s s' assume "mergeSiblings ss n p s = Some s'"
  then obtain t u where t: "for_each (\<lambda>a. live a (\<lambda>t. Some (o_CleanNFT a t))) ss s = Some t" "s' = putNFT p n (MergeLevel n + 1) u t"
    by (auto simp: mergeSiblings_def bind_Some_iff)
  have "keeps_wallet (for_each (\<lambda>a. live a (\<lambda>t. Some (o_CleanNFT a t))) ss)"
    by (rule keeps_for_each) (auto simp: keeps_wallet_def live_def wallet_NFT_setters split: option.splits if_splits)
  then show "wallet s' = wallet s" using keeps_walletD t by (simp add: wallet_putNFT)
qed

lemma keeps_merge_loop:
  assumes "\<And>a s s' b. step a s = Some (s', b) \<Longrightarrow> wallet s' = wallet s"
  shows "merge_loop can step fuel a s = Some (Some s') \<Longrightarrow> wallet s' = wallet s"
proof (induction fuel arbitrary: a s)
  case (Suc fuel)
  then show ?case using assms by (fastforce split: option.splits if_splits)
qed simp

lemma keeps_MergeNFT16: "keeps_wallet (MergeNFT16 a)"
proof (rule keeps_walletI)
  fix s s' assume "MergeNFT16 a s = Some s'"
  then have "merge_loop IsCanMergeNFT16 mergeStep16 42 a s = Some (Some s')" by (auto simp: MergeNFT16_def split: option.splits)
  then show "wallet s' = wallet s"
    by (rule keeps_merge_loop [rotated]) (auto simp: mergeStep16_def Let_def bind_Some_iff simp del: upt_rec_numeral dest: keeps_walletD [OF keeps_mergeSiblings])
qed

lemma keeps_ChangeNFTOwner: "keeps_wallet (ChangeNFTOwner a w level)"
proof (rule keeps_walletI)
  fix s s' assume "ChangeNFTOwner a w level s = Some s'"
  then obtain t where t: "(if IsOfficialNFT a then SplitNFT16 a level (GetOrNewStateObject a s) else Some (GetOrNewStateObject a s)) = Some t"
    "(if IsOfficialNFT a then MergeNFT16 a (o_ChangeNFTOwner a w t) else Some (o_ChangeNFTOwner a w t)) = Some s'"
    by (auto simp: ChangeNFTOwner_def Let_def bind_Some_iff)
  have "wallet t = wallet s"
    using t(1) keeps_walletD [OF keeps_SplitNFT16] by (auto split: if_splits)
  moreover have "wallet (o_ChangeNFTOwner a w t) = wallet t"
    by (rule wallet_o_ChangeNFTOwner)
  moreover have "wallet s' = wallet (o_ChangeNFTOwner a w t)"
    using t(2) keeps_walletD [OF keeps_MergeNFT16] by (auto split: if_splits)
  ultimately show "wallet s' = wallet s" by simp
qed

section \<open>Money\<close>

text \<open>What an account is worth: its free balance, its pledge and its deposit as an exchanger;
  and the worth of all accounts.\<close>

definition wealth :: "StateDB \<Rightarrow> address \<Rightarrow> int" where
  "wealth s a = GetBalance a s + GetPledgedBalance a s + GetExchangerBalance a s"

definition totalSupply :: "StateDB \<Rightarrow> int" where
  "totalSupply s = (\<Sum>a\<in>UNIV. wealth s a)"

lemma sum_upd:
  fixes f :: "address \<Rightarrow> int"
  shows "(\<Sum>x\<in>UNIV. (f(a := v)) x) = (\<Sum>x\<in>UNIV. f x) - f a + v"
proof -
  have "(\<Sum>x\<in>UNIV. (f(a := v)) x) = v + (\<Sum>x\<in>UNIV - {a}. (f(a := v)) x)"
    by (subst sum.remove [of UNIV a]) auto
  also have "(\<Sum>x\<in>UNIV - {a}. (f(a := v)) x) = (\<Sum>x\<in>UNIV - {a}. f x)"
    by (rule sum.cong) auto
  also have "(\<Sum>x\<in>UNIV - {a}. f x) = (\<Sum>x\<in>UNIV. f x) - f a"
    using sum.remove [of UNIV a f] by simp
  finally show ?thesis by simp
qed

text \<open>The contract of a ledger: a credit and a debit change one account by the amount. Whatever
  moves money by credits and debits that cancel keeps the sum.\<close>

locale ledger =
  fixes bal :: "'s \<Rightarrow> address \<Rightarrow> int" and credit :: "address \<Rightarrow> int \<Rightarrow> 's \<Rightarrow> 's"
    and debit :: "address \<Rightarrow> int \<Rightarrow> 's \<Rightarrow> 's"
  assumes bal_credit: "bal (credit a v s) = (bal s)(a := bal s a + v)"
    and bal_debit: "bal (debit a v s) = (bal s)(a := bal s a - v)"
begin

lemma sum_credit: "(\<Sum>x\<in>UNIV. bal (credit a v s) x) = (\<Sum>x\<in>UNIV. bal s x) + v"
  unfolding bal_credit sum_upd by simp

lemma sum_debit: "(\<Sum>x\<in>UNIV. bal (debit a v s) x) = (\<Sum>x\<in>UNIV. bal s x) - v"
  unfolding bal_debit sum_upd by simp

lemma sum_transfer: "(\<Sum>x\<in>UNIV. bal (credit b v (debit a v s)) x) = (\<Sum>x\<in>UNIV. bal s x)"
  by (simp add: sum_credit sum_debit)

lemma bal_payments:
  "bal (fold (\<lambda>(a, v). credit a v) ps s) x = bal s x + sum_list (map snd (filter (\<lambda>(a, v). a = x) ps))"
  by (induction ps arbitrary: s) (auto simp: bal_credit)

lemma sum_payments: "(\<Sum>x\<in>UNIV. bal (fold (\<lambda>(a, v). credit a v) ps s) x) = (\<Sum>x\<in>UNIV. bal s x) + sum_list (map snd ps)"
  by (induction ps arbitrary: s) (auto simp: sum_credit)

text \<open>A purchase: the buyer is debited and the parts of the price are credited.\<close>

lemma bal_purchase:
  "bal (fold (\<lambda>(a, v). credit a v) ps (debit buyer price s)) x
     = bal s x - (if x = buyer then price else 0) + sum_list (map snd (filter (\<lambda>(a, v). a = x) ps))"
  by (simp add: bal_payments bal_debit)

lemma sum_purchase:
  "sum_list (map snd ps) = price \<Longrightarrow>
     (\<Sum>x\<in>UNIV. bal (fold (\<lambda>(a, v). credit a v) ps (debit buyer price s)) x) = (\<Sum>x\<in>UNIV. bal s x)"
  by (simp add: sum_payments sum_debit)

end

text \<open>Balances are a ledger, and so is the worth of accounts.\<close>

interpretation coins: ledger "\<lambda>s a. GetBalance a s" AddBalance SubBalance
  by unfold_locales (auto simp: getter_acct fun_eq_iff)

interpretation funds: ledger wealth AddBalance SubBalance
  by unfold_locales (auto simp: wealth_def getter_acct fun_eq_iff)

lemma supply_acct:
  assumes "acct s' = (acct s)(a := d)"
  shows "totalSupply s' = totalSupply s - wealth s a + (Balance d + nilz (PledgedBalance d) + nilz (ExchangerBalance d))"
proof -
  have "wealth s' = (wealth s)(a := Balance d + nilz (PledgedBalance d) + nilz (ExchangerBalance d))"
    using assms by (auto simp: wealth_def getter_acct fun_eq_iff)
  then show ?thesis unfolding totalSupply_def by (simp only: sum_upd)
qed

lemma wealth_wallet:
  assumes "wallet s' = wallet s"
  shows "wealth s' = wealth s"
  by (rule ext) (simp only: wealth_def wallet_getters [OF assms])

lemma supply_wallet: "wallet s' = wallet s \<Longrightarrow> totalSupply s' = totalSupply s"
  unfolding totalSupply_def by (drule wealth_wallet) simp

lemma supply_staking:
  "totalSupply (PledgeToken a v s) = totalSupply s"
  "totalSupply (OpenExchanger a v bn r nm u s) = totalSupply s - GetExchangerBalance a s"
  "CancelPledgedToken a v s = Some s' \<Longrightarrow> totalSupply s' = totalSupply s"
  "AddExchangerToken a v s = Some s' \<Longrightarrow> totalSupply s' = totalSupply s"
  "SubExchangerToken a v s = Some s' \<Longrightarrow> totalSupply s' = totalSupply s"
  "CloseExchanger a bn s = Some s' \<Longrightarrow> totalSupply s' = totalSupply s"
proof -
  show "totalSupply (PledgeToken a v s) = totalSupply s"
    using supply_acct [OF acct_PledgeToken] by (simp add: wealth_def getter_acct)
  show "totalSupply (OpenExchanger a v bn r nm u s) = totalSupply s - GetExchangerBalance a s"
    using supply_acct [OF acct_OpenExchanger] by (simp add: wealth_def getter_acct Let_def)
  show "totalSupply s' = totalSupply s" if "CancelPledgedToken a v s = Some s'"
    using acct_CancelPledgedToken [OF that] by (auto dest!: supply_acct nil_add_value simp: wealth_def getter_acct)
  show "totalSupply s' = totalSupply s" if "AddExchangerToken a v s = Some s'"
    using acct_AddExchangerToken [OF that] by (auto dest!: supply_acct nil_add_value simp: wealth_def getter_acct)
  show "totalSupply s' = totalSupply s" if "SubExchangerToken a v s = Some s'"
    using acct_SubExchangerToken [OF that] by (auto dest!: supply_acct nil_add_value simp: wealth_def getter_acct)
  show "totalSupply s' = totalSupply s" if "CloseExchanger a bn s = Some s'"
    using acct_CloseExchanger [OF that] supply_wallet [OF wallet_acct, of s' s]
    by (auto dest!: supply_acct simp: wealth_def getter_acct Let_def split: if_splits)
qed

lemma supply_CreateAccount:
  "totalSupply (CreateAccount a s) = totalSupply s - GetPledgedBalance a s - GetExchangerBalance a s"
  using supply_acct [OF acct_CreateAccount, of a s] by (simp add: wealth_def getter_acct zeroAccount_def)

section \<open>Properties\<close>

text \<open>C39: The state database refines a map from addresses to accounts. Adding to, subtracting from and setting a balance, setting a nonce, recreating an account,
  pledging and opening an exchanger change exactly the fields named of the one account, whatever is cached, created on demand or journaled underneath; recreating an account
  keeps nothing but its balance. Cancelling a pledge, adding to and taking from the deposit of an exchanger and adding to and taking from a vote weight do so as well, and panic exactly when the
  amount is not zero and the field is nil. Minting by a user makes the account at the address that the mint counter names anew, keeping its balance, with the owner as the creator and the royalty,
  exchanger and metadata given, and advances the counter.\<close>

theorem statedb_refines_accounts:
  "acct (AddBalance a v s) = (acct s)(a := (acct s a)\<lparr>Balance := Balance (acct s a) + v\<rparr>)
   \<and> acct (SubBalance a v s) = (acct s)(a := (acct s a)\<lparr>Balance := Balance (acct s a) - v\<rparr>)
   \<and> acct (SetBalance a v s) = (acct s)(a := (acct s a)\<lparr>Balance := v\<rparr>)
   \<and> acct (SetNonce a n s) = (acct s)(a := (acct s a)\<lparr>Nonce := n\<rparr>)
   \<and> acct (CreateAccount a s) = (acct s)(a := (zeroAccount (hasher s))\<lparr>Balance := Balance (acct s a)\<rparr>)
   \<and> acct (PledgeToken a v s) = (acct s)(a := (acct s a)\<lparr>Balance := Balance (acct s a) - v,
        PledgedBalance := (if v = 0 then PledgedBalance (acct s a) else Some (nilz (PledgedBalance (acct s a)) + v))\<rparr>)
   \<and> acct (OpenExchanger a v bn r nm u s) = (acct s)(a :=
        (let d = (acct s a)\<lparr>Balance := Balance (acct s a) - v, ExchangerBalance := Some v\<rparr>
         in if ExchangerFlag d then d
            else d\<lparr>ExchangerFlag := True, BlockNumber := Some bn, FeeRate := r, ExchangerName := nm, ExchangerURL := u\<rparr>))
   \<and> map_option acct (CancelPledgedToken a v s) =
        map_option (\<lambda>x. (acct s)(a := (acct s a)\<lparr>Balance := Balance (acct s a) + v, PledgedBalance := x\<rparr>)) (nil_add (PledgedBalance (acct s a)) (- v))
   \<and> map_option acct (AddExchangerToken a v s) =
        map_option (\<lambda>x. (acct s)(a := (acct s a)\<lparr>Balance := Balance (acct s a) - v, ExchangerBalance := x\<rparr>)) (nil_add (ExchangerBalance (acct s a)) v)
   \<and> map_option acct (SubExchangerToken a v s) =
        map_option (\<lambda>x. (acct s)(a := (acct s a)\<lparr>Balance := Balance (acct s a) + v, ExchangerBalance := x\<rparr>)) (nil_add (ExchangerBalance (acct s a)) (- v))
   \<and> map_option acct (AddVoteWeight a v s) = map_option (\<lambda>x. (acct s)(a := (acct s a)\<lparr>VoteWeight := x\<rparr>)) (nil_add (VoteWeight (acct s a)) v)
   \<and> map_option acct (SubVoteWeight a v s) = map_option (\<lambda>x. (acct s)(a := (acct s a)\<lparr>VoteWeight := x\<rparr>)) (nil_add (VoteWeight (acct s a)) (- v))
   \<and> acct (fst (CreateNFTByUser x w r u s)) = (acct s)(mintedNFT s := (zeroAccount (hasher s))\<lparr>Balance := Balance (acct s (mintedNFT s)),
        NFT := noNFT\<lparr>Name := [], Symbol := [], Owner := w, NFTApproveAddressList := 0, MergeLevel := 0, Creator := w, Royalty := r,
          Exchanger := x, MetaURL := u\<rparr>\<rparr>)
   \<and> snd (CreateNFTByUser x w r u s) = mintedNFT s \<and> UserMint (mintDeep (fst (CreateNFTByUser x w r u s))) = UserMint (mintDeep s) + 1"
  by (simp only: acct_methods acct_CreateAccount acct_PledgeToken acct_OpenExchanger acct_nilable acct_VoteWeight acct_CreateNFTByUser snd_CreateNFTByUser
      UserMint_CreateNFTByUser simp_thms)

text \<open>C26: Staking neither creates nor destroys money: pledging, cancelling a pledge, adding to and taking from
  the deposit of an exchanger and closing an exchanger keep the sum of all balances, pledges
  and deposits. Opening an exchanger destroys whatever deposit the account already had.\<close>

theorem staking_conserves_supply:
  "totalSupply (PledgeToken a v s) = totalSupply s
   \<and> (CancelPledgedToken a v s = Some s1 \<longrightarrow> totalSupply s1 = totalSupply s)
   \<and> (AddExchangerToken a v s = Some s2 \<longrightarrow> totalSupply s2 = totalSupply s)
   \<and> (SubExchangerToken a v s = Some s3 \<longrightarrow> totalSupply s3 = totalSupply s)
   \<and> (CloseExchanger a bn s = Some s4 \<longrightarrow> totalSupply s4 = totalSupply s)
   \<and> totalSupply (OpenExchanger a v bn r nm u s) = totalSupply s - GetExchangerBalance a s"
  by (simp add: supply_staking)

theorem staking_conserves_supply_witness:
  "let s = AddBalance 1 9 (New Map.empty (\<lambda>_ _. 0) (\<lambda>_. []) (\<lambda>_. 0)) in
   \<exists>s1. CancelPledgedToken 1 3 (PledgeToken 1 5 s) = Some s1 \<and> GetBalance 1 s1 = 7 \<and> GetPledgedBalance 1 s1 = 2
     \<and> totalSupply s1 = totalSupply s"
proof -
  let ?s = "AddBalance 1 9 (New Map.empty (\<lambda>_ _. 0) (\<lambda>_. []) (\<lambda>_. 0))"
  have "acct (New Map.empty (\<lambda>_ _. 0) (\<lambda>_. []) (\<lambda>_. 0)) 1 = zeroAccount (\<lambda>_. 0)"
    by (simp add: acct_def New_def getStateObject_def getDeletedStateObject_def)
  then have p: "PledgedBalance (acct (PledgeToken 1 5 ?s) 1) = Some 5" "Balance (acct (PledgeToken 1 5 ?s) 1) = 4"
    by (simp_all add: acct_PledgeToken)
  then obtain s1 where s1: "CancelPledgedToken 1 3 (PledgeToken 1 5 ?s) = Some s1"
    using CancelPledgedToken_panics [of 1 3 "PledgeToken 1 5 ?s"] by (auto simp: nil_add_def)
  have "totalSupply s1 = totalSupply (PledgeToken 1 5 ?s)" "totalSupply (PledgeToken 1 5 ?s) = totalSupply ?s"
    using staking_conserves_supply [of 1 5 ?s] staking_conserves_supply [of 1 3 "PledgeToken 1 5 ?s" s1] s1 by blast+
  moreover have "GetBalance 1 s1 = 7" "GetPledgedBalance 1 s1 = 2"
    using acct_CancelPledgedToken [OF s1] p by (auto simp: getter_acct nil_add_def)
  ultimately show ?thesis unfolding Let_def using s1 by auto
qed

end
