(* ===== verification/Market.thy ===== *)
theory Market
  imports Accounts
begin

text \<open>
  The trades of core/evm.go: transfers of money and of NFTs and the purchases signed off the
  chain. A handler first validates its payload against the state, which changes nothing and
  can fail with an error or panic, and then settles: it moves the money, adds the vote weight of
  the exchanger and hands over the NFT. Each handler of the model is its validation
  (\<open>check_\<close> and its name) followed by the settlement its kind shares.

  Recovery of a public key from a signature is the curve library's and a parameter of the
  model: \<open>SigToPub\<close> maps a digest and a signature to the address of the key or to an error.
\<close>

section \<open>Definitions\<close>

subsection \<open>Errors\<close>

text \<open>A Go function that returns an error or a value and may panic.\<close>

type_synonym 'a result = "(string + 'a) panics"

definition ok :: "'a \<Rightarrow> 'a result" where
  "ok x = Some (Inr x)"

definition fail :: "string \<Rightarrow> 'a result" where
  "fail e = Some (Inl e)"

definition rbind :: "'a result \<Rightarrow> ('a \<Rightarrow> 'b result) \<Rightarrow> 'b result" where
  "rbind r f = (case r of None \<Rightarrow> None | Some (Inl e) \<Rightarrow> Some (Inl e) | Some (Inr x) \<Rightarrow> f x)"

text \<open>The early return of an error under a condition.\<close>

definition fail_if :: "bool \<Rightarrow> string \<Rightarrow> unit result" where
  "fail_if c e = (if c then fail e else ok ())"

text \<open>A handler: validation, then the effects, or the error with the state as it was.\<close>

definition handler :: "'a result \<Rightarrow> ('a \<Rightarrow> StateDB \<Rightarrow> StateDB panics) \<Rightarrow> StateDB \<Rightarrow> (StateDB \<times> string option) panics" where
  "handler check effect s =
     (case check of
        None \<Rightarrow> None
      | Some (Inl e) \<Rightarrow> Some (s, Some e)
      | Some (Inr x) \<Rightarrow> map_option (\<lambda>s'. (s', None)) (effect x s))"

subsection \<open>Transfers\<close>

definition CanTransfer :: "address \<Rightarrow> int \<Rightarrow> StateDB \<Rightarrow> bool" where
  "CanTransfer a amount s = (GetBalance a s \<ge> amount)"

definition Transfer :: "address \<Rightarrow> address \<Rightarrow> int \<Rightarrow> StateDB \<Rightarrow> StateDB" where
  "Transfer sender recipient amount s = AddBalance recipient amount (SubBalance sender amount s)"

definition GetNftAddressAndLevel :: "string \<Rightarrow> string + (address \<times> nat)" where
  "GetNftAddressAndLevel nftAddress =
     (if length nftAddress > 42 then Inl ''nft address is too long''
      else if is0x nftAddress then
        (let level = 42 - length nftAddress
         in Inr (HexToAddress (nftAddress @ replicate level (CHR ''0'')), level))
      else Inl ''nft address is not to start with 0x'')"

definition VerifyNFTOwner :: "string \<Rightarrow> address \<Rightarrow> StateDB \<Rightarrow> bool" where
  "VerifyNFTOwner nftAddr owner s =
     (case GetNftAddressAndLevel nftAddr of
        Inl _ \<Rightarrow> False
      | Inr (a, _) \<Rightarrow> GetNFTOwner16 a s = owner)"

definition TransferNFT :: "string \<Rightarrow> address \<Rightarrow> StateDB \<Rightarrow> (StateDB \<times> string option) panics" where
  "TransferNFT nftAddr newOwner s =
     handler (Some (GetNftAddressAndLevel nftAddr)) (\<lambda>(a, level). ChangeNFTOwner a newOwner level) s"

definition core_ExchangeNFTToCurrency :: "address \<Rightarrow> string \<Rightarrow> int \<Rightarrow> StateDB \<Rightarrow> (StateDB \<times> string option) panics" where
  "core_ExchangeNFTToCurrency a nftaddress blocknumber s =
     handler (Some (GetNftAddressAndLevel nftaddress))
       (\<lambda>(nftAddr, level). ExchangeNFTToCurrency a nftAddr blocknumber level) s"

definition VerifyPledgedBalance :: "address \<Rightarrow> int \<Rightarrow> StateDB \<Rightarrow> bool" where
  "VerifyPledgedBalance a amount s = (GetPledgedBalance a s \<ge> amount)"

definition VerifyExchangerBalance :: "address \<Rightarrow> int \<Rightarrow> StateDB \<Rightarrow> bool" where
  "VerifyExchangerBalance a amount s = (GetExchangerBalance a s \<ge> amount)"

subsection \<open>Signatures\<close>

record crypto =
  keccak256 :: keccak
  SigToPub :: "hash \<Rightarrow> byte list \<Rightarrow> string + address"

fun decimal :: "nat \<Rightarrow> string" where
  "decimal n = (if n < 10 then [char_of (48 + n)] else decimal (n div 10) @ [char_of (48 + n mod 10)])"

declare decimal.simps [simp del]

definition hashMsg :: "keccak \<Rightarrow> string \<Rightarrow> hash \<times> string" where
  "hashMsg k d =
     (let msg = CHR 0x19 # ''Ethereum Signed Message:'' @ [CHR 0x0A] @ decimal (length d) @ d
      in (k msg, msg))"

definition recoverAddress :: "crypto \<Rightarrow> string \<Rightarrow> string \<Rightarrow> address result" where
  "recoverAddress C msg sigStr =
     (if \<not> is0x sigStr then fail ''signature must be started with 0x or 0X''
      else do {
        sigData \<leftarrow> hexutil_MustDecode sigStr;
        if length sigData \<noteq> 65 then fail ''signature must be 65 bytes long''
        else if sigData ! 64 \<noteq> 27 \<and> sigData ! 64 \<noteq> 28
        then fail ''invalid Ethereum signature (V is not 27 or 28)''
        else Some (SigToPub C (fst (hashMsg (keccak256 C) msg)) (sigData[64 := sigData ! 64 - 27])) })"

text \<open>A numeric field of the payload: the prefix, then hexadecimal digits.\<close>

definition hexField :: "string \<Rightarrow> string \<Rightarrow> int result" where
  "hexField e str =
     (if \<not> is0x str then fail e
      else case SetString16 (drop 2 str) of None \<Rightarrow> fail e | Some x \<Rightarrow> ok x)"

text \<open>The last block in which a signed offer counts.\<close>

definition notExpired :: "int \<Rightarrow> int \<Rightarrow> string \<Rightarrow> unit result" where
  "notExpired blocknumber signedNumber e = fail_if (blocknumber > signedNumber) e"

definition buyerMsg :: "Payload \<Rightarrow> string" where
  "buyerMsg p = p_Amount p @ p_NFTAddress p @ p_Exchanger p @ p_BlockNumber p @ p_Seller p"

definition seller1Msg :: "Payload \<Rightarrow> string" where
  "seller1Msg p = p_Amount p @ p_NFTAddress p @ p_Exchanger p @ p_BlockNumber p"

definition mintBuyerMsg :: "Payload \<Rightarrow> string" where
  "mintBuyerMsg p = p_Amount p @ p_Exchanger p @ p_BlockNumber p"

definition seller2Msg :: "MintSellPayload \<Rightarrow> string" where
  "seller2Msg p = m_Amount p @ m_Royalty p @ m_MetaURL p @ m_ExclusiveFlag p @ m_Exchanger p @ m_BlockNumber p"

definition exchangerMsg :: "ExchangerPayload \<Rightarrow> string" where
  "exchangerMsg p = e_ExchangerOwner p @ e_To p @ e_BlockNumber p"

subsection \<open>Sales of an existing NFT\<close>

text \<open>What a validated sale settles.\<close>

record sale =
  sl_buyer :: address
  sl_owner :: address
  sl_exchanger :: address
  sl_nft :: address
  sl_level :: nat

text \<open>The split of the price in ten-thousandths.\<close>

definition exchangerCut :: "int \<Rightarrow> u32 \<Rightarrow> int" where
  "exchangerCut amount feeRate = amount div 10000 * uint feeRate"

definition royaltyCut :: "int \<Rightarrow> u32 \<Rightarrow> int" where
  "royaltyCut amount royalty = amount div 10000 * uint royalty"

definition settleSale :: "int \<Rightarrow> sale \<Rightarrow> StateDB \<Rightarrow> StateDB panics" where
  "settleSale amount sl s =
     do { let exchangerAmount = exchangerCut amount (GetFeeRate (sl_exchanger sl) s);
          let creator = GetNFTCreator (sl_nft sl) s;
          let royaltyAmount = royaltyCut amount (GetNFTRoyalty (sl_nft sl) s);
          let feeAmount = exchangerAmount + royaltyAmount;
          let nftOwnerAmount = amount - feeAmount;
          let s1 = SubBalance (sl_buyer sl) amount s;
          let s2 = AddBalance (sl_owner sl) nftOwnerAmount s1;
          let s3 = AddBalance creator royaltyAmount s2;
          let s4 = AddBalance (sl_exchanger sl) exchangerAmount s3;
          s5 \<leftarrow> AddVoteWeight (sl_exchanger sl) amount s4;
          ChangeNFTOwner (sl_nft sl) (sl_buyer sl) (sl_level sl) s5 }"

text \<open>The exchanger that earns the fee when the owner or an approved exchanger sells.\<close>

definition beneficiaryOf :: "address \<Rightarrow> address \<Rightarrow> address \<Rightarrow> address \<Rightarrow> StateDB \<Rightarrow> address result" where
  "beneficiaryOf caller nftOwner nftAddress buyerExchanger s =
     (let exclusiveExchanger = GetNFTExchanger nftAddress s in
      if caller = nftOwner then
        (if exclusiveExchanger \<noteq> 0
         then ok (if GetExchangerFlag exclusiveExchanger s then exclusiveExchanger else buyerExchanger)
         else ok buyerExchanger)
      else if IsApproved nftAddress caller s then
        (if exclusiveExchanger \<noteq> 0
         then rbind (fail_if (caller \<noteq> exclusiveExchanger \<and> GetExchangerFlag exclusiveExchanger s)
                ''caller not same as created exclusive Exchanger!'') (\<lambda>_. ok caller)
         else rbind (fail_if (caller \<noteq> buyerExchanger) '''') (\<lambda>_. ok caller))
      else fail ''no right to sell nft'')"

definition check_BuyNFTBySellerOrExchanger ::
  "crypto \<Rightarrow> int \<Rightarrow> address \<Rightarrow> address \<Rightarrow> Wormholes \<Rightarrow> int \<Rightarrow> StateDB \<Rightarrow> sale result" where
  "check_BuyNFTBySellerOrExchanger C blocknumber caller recipient w amount s =
     (let b = w_Buyer w in
      rbind (recoverAddress C (buyerMsg b) (p_Sig b)) (\<lambda>buyer.
      rbind (hexField ''blocknumber is not string of 0x!'' (p_BlockNumber b)) (\<lambda>buyerBlockNumber.
      rbind (notExpired blocknumber buyerBlockNumber ''buyer's data is expired!'') (\<lambda>_.
      rbind (fail_if (recipient \<noteq> buyer) ''to of the tx is not buyer!'') (\<lambda>_.
      rbind (hexField ''amount is not string of 0x!'' (p_Amount b)) (\<lambda>buyerAmount.
      rbind (fail_if (amount \<noteq> buyerAmount) ''tx amount error'') (\<lambda>_.
      rbind (Some (GetNftAddressAndLevel (p_NFTAddress b))) (\<lambda>(nftAddress, level).
      let buyerExchanger = HexToAddress (p_Exchanger b);
          nftOwner = GetNFTOwner16 nftAddress s in
      rbind (fail_if (nftOwner = 0) ''Get nft owner error!'') (\<lambda>_.
      rbind (fail_if (GetBalance buyer s < amount) ''insufficient balance'') (\<lambda>_.
      rbind (beneficiaryOf caller nftOwner nftAddress buyerExchanger s) (\<lambda>beneficiaryExchanger.
      ok \<lparr>sl_buyer = buyer, sl_owner = nftOwner, sl_exchanger = beneficiaryExchanger,
          sl_nft = nftAddress, sl_level = level\<rparr>)))))))))))"

definition BuyNFTBySellerOrExchanger ::
  "crypto \<Rightarrow> int \<Rightarrow> address \<Rightarrow> address \<Rightarrow> Wormholes \<Rightarrow> int \<Rightarrow> StateDB \<Rightarrow> (StateDB \<times> string option) panics" where
  "BuyNFTBySellerOrExchanger C blocknumber caller recipient w amount s =
     handler (check_BuyNFTBySellerOrExchanger C blocknumber caller recipient w amount s) (settleSale amount) s"

definition check_BuyNFTByBuyer ::
  "crypto \<Rightarrow> int \<Rightarrow> address \<Rightarrow> address \<Rightarrow> Wormholes \<Rightarrow> int \<Rightarrow> StateDB \<Rightarrow> sale result" where
  "check_BuyNFTByBuyer C blocknumber caller recipient w amount s =
     (let p = w_Seller1 w in
      rbind (recoverAddress C (seller1Msg p) (p_Sig p)) (\<lambda>seller.
      rbind (hexField ''blocknumber is not string of 0x!'' (p_BlockNumber p)) (\<lambda>sellerBlockNumber.
      rbind (notExpired blocknumber sellerBlockNumber ''seller's data is expired!'') (\<lambda>_.
      rbind (Some (GetNftAddressAndLevel (p_NFTAddress p))) (\<lambda>(nftAddress, level).
      let nftOwner = GetNFTOwner16 nftAddress s in
      rbind (fail_if (nftOwner = 0) ''Get nft owner error!'') (\<lambda>_.
      rbind (fail_if (nftOwner \<noteq> seller) ''don't have the nft!'') (\<lambda>_.
      rbind (hexField ''amount is not string of 0x!'' (p_Amount p)) (\<lambda>sellerAmount.
      rbind (fail_if (amount \<noteq> sellerAmount) ''tx amount error'') (\<lambda>_.
      rbind (fail_if (GetBalance caller s < amount) ''insufficient balance'') (\<lambda>_.
      let sellerExchanger = HexToAddress (p_Exchanger p);
          exclusiveExchanger = GetNFTExchanger nftAddress s in
      ok \<lparr>sl_buyer = caller, sl_owner = seller,
          sl_exchanger = (if exclusiveExchanger \<noteq> 0 then exclusiveExchanger else sellerExchanger),
          sl_nft = nftAddress, sl_level = level\<rparr>))))))))))"

definition BuyNFTByBuyer ::
  "crypto \<Rightarrow> int \<Rightarrow> address \<Rightarrow> address \<Rightarrow> Wormholes \<Rightarrow> int \<Rightarrow> StateDB \<Rightarrow> (StateDB \<times> string option) panics" where
  "BuyNFTByBuyer C blocknumber caller recipient w amount s =
     handler (check_BuyNFTByBuyer C blocknumber caller recipient w amount s) (settleSale amount) s"

definition check_BuyNFTByApproveExchanger ::
  "crypto \<Rightarrow> int \<Rightarrow> address \<Rightarrow> address \<Rightarrow> Wormholes \<Rightarrow> int \<Rightarrow> StateDB \<Rightarrow> sale result" where
  "check_BuyNFTByApproveExchanger C blocknumber caller recipient w amount s =
     (let b = w_Buyer w; x = w_ExchangerAuth w in
      rbind (recoverAddress C (buyerMsg b) (p_Sig b)) (\<lambda>buyer.
      rbind (recoverAddress C (exchangerMsg x) (e_Sig x)) (\<lambda>originalExchanger.
      rbind (hexField ''buyer blocknumber is not string of 0x!'' (p_BlockNumber b)) (\<lambda>buyerBlockNumber.
      rbind (notExpired blocknumber buyerBlockNumber ''buyer's data is expired!'') (\<lambda>_.
      rbind (hexField ''exchanger blocknumber is not string of 0x!'' (e_BlockNumber x)) (\<lambda>exchangerBlockNumber.
      rbind (notExpired blocknumber exchangerBlockNumber ''exchanger's data is expired!'') (\<lambda>_.
      rbind (fail_if (recipient \<noteq> buyer) ''to of the tx is not buyer!'') (\<lambda>_.
      rbind (fail_if (HexToAddress (e_To x) \<noteq> caller) ''from of the tx is not approved!'') (\<lambda>_.
      rbind (hexField ''amount is not string of 0x!'' (p_Amount b)) (\<lambda>buyerAmount.
      rbind (fail_if (amount \<noteq> buyerAmount) ''tx amount error'') (\<lambda>_.
      rbind (Some (GetNftAddressAndLevel (p_NFTAddress b))) (\<lambda>(nftAddress, level).
      let nftOwner = GetNFTOwner16 nftAddress s in
      rbind (fail_if (nftOwner = 0) ''Get nft owner error!'') (\<lambda>_.
      rbind (fail_if (GetBalance buyer s < amount) ''insufficient balance'') (\<lambda>_.
      let exclusiveExchanger = GetNFTExchanger nftAddress s in
      rbind (fail_if (\<not> IsApproved nftAddress originalExchanger s) ''no right to sell nft'') (\<lambda>_.
      rbind (fail_if (exclusiveExchanger \<noteq> 0 \<and> originalExchanger \<noteq> exclusiveExchanger
               \<and> GetExchangerFlag exclusiveExchanger s) ''caller not same as created exclusive Exchanger!'') (\<lambda>_.
      ok \<lparr>sl_buyer = buyer, sl_owner = nftOwner, sl_exchanger = originalExchanger,
          sl_nft = nftAddress, sl_level = level\<rparr>))))))))))))))))"

definition BuyNFTByApproveExchanger ::
  "crypto \<Rightarrow> int \<Rightarrow> address \<Rightarrow> address \<Rightarrow> Wormholes \<Rightarrow> int \<Rightarrow> StateDB \<Rightarrow> (StateDB \<times> string option) panics" where
  "BuyNFTByApproveExchanger C blocknumber caller recipient w amount s =
     handler (check_BuyNFTByApproveExchanger C blocknumber caller recipient w amount s) (settleSale amount) s"

definition check_BuyNFTByExchanger ::
  "crypto \<Rightarrow> int \<Rightarrow> address \<Rightarrow> address \<Rightarrow> Wormholes \<Rightarrow> int \<Rightarrow> StateDB \<Rightarrow> sale result" where
  "check_BuyNFTByExchanger C blocknumber caller recipient w amount s =
     (let b = w_Buyer w; p = w_Seller1 w in
      rbind (recoverAddress C (seller1Msg b) (p_Sig b)) (\<lambda>buyer.
      rbind (recoverAddress C (seller1Msg p) (p_Sig p)) (\<lambda>seller.
      rbind (hexField ''buyer blocknumber is not string of 0x!'' (p_BlockNumber b)) (\<lambda>buyerBlockNumber.
      rbind (notExpired blocknumber buyerBlockNumber ''buyer's data is expired!'') (\<lambda>_.
      rbind (hexField ''seller blocknumber is not string of 0x!'' (p_BlockNumber p)) (\<lambda>sellerBlockNumber.
      rbind (notExpired blocknumber sellerBlockNumber ''seller's data is expired!'') (\<lambda>_.
      rbind (fail_if (recipient \<noteq> buyer) ''to of the tx is not buyer!'') (\<lambda>_.
      rbind (hexField ''buyer's amount is not string of 0x!'' (p_Amount b)) (\<lambda>buyerAmount.
      rbind (fail_if (amount \<noteq> buyerAmount) ''tx buyer amount error'') (\<lambda>_.
      rbind (hexField ''seller's amount is not string of 0x!'' (p_Amount p)) (\<lambda>sellerAmount.
      rbind (fail_if (amount \<noteq> sellerAmount) ''tx seller amount error'') (\<lambda>_.
      rbind (Some (GetNftAddressAndLevel (p_NFTAddress b))) (\<lambda>(buyerNftAddress, _).
      rbind (Some (GetNftAddressAndLevel (p_NFTAddress p))) (\<lambda>(sellerNftAddress, level).
      rbind (fail_if (buyerNftAddress \<noteq> sellerNftAddress)
               ''the nft address is not same from buyer and seller!'') (\<lambda>_.
      let buyerExchanger = HexToAddress (p_Exchanger b);
          sellerExchanger = HexToAddress (p_Exchanger p);
          nftOwner = GetNFTOwner16 sellerNftAddress s in
      rbind (fail_if (nftOwner = 0) ''Get nft owner error!'') (\<lambda>_.
      rbind (fail_if (GetBalance buyer s < amount) ''insufficient balance'') (\<lambda>_.
      rbind (fail_if (nftOwner \<noteq> seller) ''seller have no right to sell the nft'') (\<lambda>_.
      let exclusiveExchanger = GetNFTExchanger sellerNftAddress s in
      rbind (if exclusiveExchanger \<noteq> 0
             then fail_if (caller \<noteq> exclusiveExchanger \<and> GetExchangerFlag exclusiveExchanger s)
               ''caller not same as created exclusive Exchanger!''
             else fail_if (caller \<noteq> buyerExchanger \<and> caller \<noteq> sellerExchanger) ''exchanger err'') (\<lambda>_.
      ok \<lparr>sl_buyer = buyer, sl_owner = nftOwner, sl_exchanger = caller,
          sl_nft = sellerNftAddress, sl_level = level\<rparr>)))))))))))))))))))"

definition BuyNFTByExchanger ::
  "crypto \<Rightarrow> int \<Rightarrow> address \<Rightarrow> address \<Rightarrow> Wormholes \<Rightarrow> int \<Rightarrow> StateDB \<Rightarrow> (StateDB \<times> string option) panics" where
  "BuyNFTByExchanger C blocknumber caller recipient w amount s =
     handler (check_BuyNFTByExchanger C blocknumber caller recipient w amount s) (settleSale amount) s"

subsection \<open>Sales that mint\<close>

record mintSale =
  ms_buyer :: address
  ms_seller :: address
  ms_exchanger :: address
  ms_royalty :: u32
  ms_exclusive :: bool
  ms_url :: string

text \<open>The NFT is minted to the seller, with the exchanger as its own when the flag says so,
  paid for and handed to the buyer.\<close>

definition settleMint :: "int \<Rightarrow> mintSale \<Rightarrow> StateDB \<Rightarrow> StateDB panics" where
  "settleMint amount m s =
     do { let (s0, nftAddress) =
            CreateNFTByUser (if ms_exclusive m then ms_exchanger m else 0) (ms_seller m) (ms_royalty m) (ms_url m) s;
          let exchangerAmount = exchangerCut amount (GetFeeRate (ms_exchanger m) s0);
          let nftOwnerAmount = amount - exchangerAmount;
          let s1 = SubBalance (ms_buyer m) amount s0;
          let s2 = AddBalance (ms_seller m) nftOwnerAmount s1;
          let s3 = AddBalance (ms_exchanger m) exchangerAmount s2;
          s4 \<leftarrow> AddVoteWeight (ms_exchanger m) amount s3;
          ChangeNFTOwner nftAddress (ms_buyer m) 0 s4 }"

text \<open>The royalty and the flag of the seller's payload.\<close>

definition mintTerms :: "MintSellPayload \<Rightarrow> (u32 \<times> bool) result" where
  "mintTerms p =
     rbind (hexField ''royalty is not string of 0x!'' (m_Royalty p)) (\<lambda>sellerRoyalty.
     rbind (fail_if (sellerRoyalty \<le> 0 \<or> sellerRoyalty \<ge> 10000) ''royalty is need range of 0-10000'') (\<lambda>_.
     let exclusiveFlag = TrimSpace (m_ExclusiveFlag p) in
     rbind (fail_if (exclusiveFlag \<noteq> ''0'' \<and> exclusiveFlag \<noteq> ''1'') ''exclusiveFlag is wrong!'') (\<lambda>_.
     ok (word_of_int sellerRoyalty, exclusiveFlag = ''1''))))"

definition check_BuyAndMintNFTByBuyer ::
  "crypto \<Rightarrow> int \<Rightarrow> address \<Rightarrow> address \<Rightarrow> Wormholes \<Rightarrow> int \<Rightarrow> StateDB \<Rightarrow> mintSale result" where
  "check_BuyAndMintNFTByBuyer C blocknumber caller recipient w amount s =
     (let p = w_Seller2 w in
      rbind (recoverAddress C (seller2Msg p) (m_Sig p)) (\<lambda>seller.
      rbind (hexField ''blocknumber is not string of 0x!'' (m_BlockNumber p)) (\<lambda>sellerBlockNumber.
      rbind (notExpired blocknumber sellerBlockNumber ''seller's data is expired!'') (\<lambda>_.
      rbind (hexField ''amount is not string of 0x!'' (m_Amount p)) (\<lambda>sellerAmount.
      rbind (fail_if (amount \<noteq> sellerAmount) ''tx amount error'') (\<lambda>_.
      rbind (fail_if (GetBalance caller s < amount) ''insufficient balance'') (\<lambda>_.
      rbind (mintTerms p) (\<lambda>(royalty, exclusive).
      ok \<lparr>ms_buyer = caller, ms_seller = seller, ms_exchanger = HexToAddress (m_Exchanger p),
          ms_royalty = royalty, ms_exclusive = exclusive, ms_url = m_MetaURL p\<rparr>))))))))"

definition BuyAndMintNFTByBuyer ::
  "crypto \<Rightarrow> int \<Rightarrow> address \<Rightarrow> address \<Rightarrow> Wormholes \<Rightarrow> int \<Rightarrow> StateDB \<Rightarrow> (StateDB \<times> string option) panics" where
  "BuyAndMintNFTByBuyer C blocknumber caller recipient w amount s =
     handler (check_BuyAndMintNFTByBuyer C blocknumber caller recipient w amount s) (settleMint amount) s"

definition check_BuyAndMintNFTByExchanger ::
  "crypto \<Rightarrow> int \<Rightarrow> address \<Rightarrow> address \<Rightarrow> Wormholes \<Rightarrow> int \<Rightarrow> StateDB \<Rightarrow> mintSale result" where
  "check_BuyAndMintNFTByExchanger C blocknumber caller recipient w amount s =
     (let b = w_Buyer w; p = w_Seller2 w in
      rbind (recoverAddress C (mintBuyerMsg b) (p_Sig b)) (\<lambda>buyer.
      rbind (recoverAddress C (seller2Msg p) (m_Sig p)) (\<lambda>seller.
      rbind (fail_if (recipient \<noteq> buyer) ''to of the tx is not buyer!'') (\<lambda>_.
      rbind (hexField ''buyer blocknumber is not string of 0x!'' (p_BlockNumber b)) (\<lambda>buyerBlockNumber.
      rbind (notExpired blocknumber buyerBlockNumber ''buyer's data is expired!'') (\<lambda>_.
      rbind (hexField ''seller blocknumber is not string of 0x!'' (m_BlockNumber p)) (\<lambda>sellerBlockNumber.
      rbind (notExpired blocknumber sellerBlockNumber ''seller's data is expired!'') (\<lambda>_.
      rbind (hexField ''buyer amount is not string of 0x!'' (p_Amount b)) (\<lambda>buyerAmount.
      rbind (hexField ''seller amount is not string of 0x!'' (m_Amount p)) (\<lambda>sellerAmount.
      rbind (fail_if (amount \<noteq> buyerAmount \<or> amount < sellerAmount) ''tx amount error'') (\<lambda>_.
      rbind (fail_if (GetBalance buyer s < amount) ''insufficient balance'') (\<lambda>_.
      rbind (fail_if (\<not> GetExchangerFlag caller s) ''from is not an exchanger'') (\<lambda>_.
      rbind (fail_if (HexToAddress (p_Exchanger b) \<noteq> caller \<or> HexToAddress (m_Exchanger p) \<noteq> caller)
               ''from of tx not correct!'') (\<lambda>_.
      rbind (mintTerms p) (\<lambda>(royalty, exclusive).
      ok \<lparr>ms_buyer = buyer, ms_seller = seller, ms_exchanger = caller,
          ms_royalty = royalty, ms_exclusive = exclusive, ms_url = m_MetaURL p\<rparr>)))))))))))))))"

definition BuyAndMintNFTByExchanger ::
  "crypto \<Rightarrow> int \<Rightarrow> address \<Rightarrow> address \<Rightarrow> Wormholes \<Rightarrow> int \<Rightarrow> StateDB \<Rightarrow> (StateDB \<times> string option) panics" where
  "BuyAndMintNFTByExchanger C blocknumber caller recipient w amount s =
     handler (check_BuyAndMintNFTByExchanger C blocknumber caller recipient w amount s) (settleMint amount) s"

definition check_BuyAndMintNFTByApprovedExchanger ::
  "crypto \<Rightarrow> int \<Rightarrow> address \<Rightarrow> address \<Rightarrow> Wormholes \<Rightarrow> int \<Rightarrow> StateDB \<Rightarrow> mintSale result" where
  "check_BuyAndMintNFTByApprovedExchanger C blocknumber caller recipient w amount s =
     (let b = w_Buyer w; p = w_Seller2 w; x = w_ExchangerAuth w in
      rbind (recoverAddress C (mintBuyerMsg b) (p_Sig b)) (\<lambda>buyer.
      rbind (recoverAddress C (seller2Msg p) (m_Sig p)) (\<lambda>seller.
      rbind (recoverAddress C (exchangerMsg x) (e_Sig x)) (\<lambda>originalExchanger.
      rbind (fail_if (HexToAddress (e_To x) \<noteq> caller) ''from of the tx is not approved!'') (\<lambda>_.
      rbind (fail_if (recipient \<noteq> buyer) ''to of the tx is not buyer!'') (\<lambda>_.
      rbind (hexField ''buyer blocknumber is not string of 0x!'' (p_BlockNumber b)) (\<lambda>buyerBlockNumber.
      rbind (notExpired blocknumber buyerBlockNumber ''buyer's data is expired!'') (\<lambda>_.
      rbind (hexField ''seller blocknumber is not string of 0x!'' (m_BlockNumber p)) (\<lambda>sellerBlockNumber.
      rbind (notExpired blocknumber sellerBlockNumber ''seller's data is expired!'') (\<lambda>_.
      rbind (hexField ''exchanger blocknumber is not string of 0x!'' (e_BlockNumber x)) (\<lambda>exchangerBlockNumber.
      rbind (notExpired blocknumber exchangerBlockNumber ''exchanger's data is expired!'') (\<lambda>_.
      rbind (hexField ''buyer amount is not string of 0x!'' (p_Amount b)) (\<lambda>buyerAmount.
      rbind (hexField ''seller amount is not string of 0x!'' (m_Amount p)) (\<lambda>sellerAmount.
      rbind (fail_if (amount \<noteq> buyerAmount \<or> amount < sellerAmount) ''tx amount error'') (\<lambda>_.
      rbind (fail_if (GetBalance buyer s < amount) ''insufficient balance'') (\<lambda>_.
      rbind (fail_if (\<not> GetExchangerFlag originalExchanger s) ''originalExchanger is not an exchanger'') (\<lambda>_.
      rbind (fail_if (HexToAddress (p_Exchanger b) \<noteq> originalExchanger
               \<or> HexToAddress (m_Exchanger p) \<noteq> originalExchanger) ''exchanger not correct!'') (\<lambda>_.
      rbind (mintTerms p) (\<lambda>(royalty, exclusive).
      ok \<lparr>ms_buyer = buyer, ms_seller = seller, ms_exchanger = originalExchanger,
          ms_royalty = royalty, ms_exclusive = exclusive, ms_url = m_MetaURL p\<rparr>)))))))))))))))))))"

definition BuyAndMintNFTByApprovedExchanger ::
  "crypto \<Rightarrow> int \<Rightarrow> address \<Rightarrow> address \<Rightarrow> Wormholes \<Rightarrow> int \<Rightarrow> StateDB \<Rightarrow> (StateDB \<times> string option) panics" where
  "BuyAndMintNFTByApprovedExchanger C blocknumber caller recipient w amount s =
     handler (check_BuyAndMintNFTByApprovedExchanger C blocknumber caller recipient w amount s) (settleMint amount) s"

subsection \<open>Votes\<close>

definition check_VoteOfficialNFTByApprovedExchanger ::
  "crypto \<Rightarrow> int \<Rightarrow> address \<Rightarrow> address \<Rightarrow> Wormholes \<Rightarrow> int \<Rightarrow> StateDB \<Rightarrow> address result" where
  "check_VoteOfficialNFTByApprovedExchanger C blocknumber caller recipient w amount s =
     (let x = w_ExchangerAuth w in
      rbind (recoverAddress C (exchangerMsg x) (e_Sig x)) (\<lambda>originalExchanger.
      rbind (fail_if (originalExchanger \<noteq> HexToAddress (e_ExchangerOwner x)) ''exchangerAuth not correct!'') (\<lambda>_.
      rbind (fail_if (HexToAddress (e_To x) \<noteq> caller) ''from of the tx is not approved!'') (\<lambda>_.
      rbind (hexField ''exchanger blocknumber is not string of 0x!'' (e_BlockNumber x)) (\<lambda>exchangerBlockNumber.
      rbind (notExpired blocknumber exchangerBlockNumber ''exchanger's data is expired!'') (\<lambda>_.
      ok originalExchanger))))))"

definition VoteOfficialNFTByApprovedExchanger ::
  "crypto \<Rightarrow> int \<Rightarrow> address \<Rightarrow> address \<Rightarrow> Wormholes \<Rightarrow> int \<Rightarrow> StateDB \<Rightarrow> (StateDB \<times> string option) panics" where
  "VoteOfficialNFTByApprovedExchanger C blocknumber caller recipient w amount s =
     handler (check_VoteOfficialNFTByApprovedExchanger C blocknumber caller recipient w amount s)
       (\<lambda>originalExchanger s. Some (VoteOfficialNFT
          \<lparr>Dir = w_Dir w, StartIndex = NextIndex s, Number = 65536, io_Royalty = w_Royalty w,
            io_Creator = w_Creator w, no_Address = originalExchanger\<rparr> s)) s"

section \<open>Lemmas\<close>

subsection \<open>Results\<close>

lemma rbind_ok [simp]: "rbind r f = Some (Inr y) \<longleftrightarrow> (\<exists>x. r = Some (Inr x) \<and> f x = Some (Inr y))"
  by (auto simp: rbind_def split: option.splits sum.splits)

lemma ok_ok [simp]: "ok x = Some (Inr y) \<longleftrightarrow> x = y"
  by (simp add: ok_def)

lemma fail_ok [simp]: "fail e \<noteq> Some (Inr y)"
  by (simp add: fail_def)

lemma fail_if_ok [simp]: "fail_if c e = Some (Inr u) \<longleftrightarrow> \<not> c"
  by (simp add: fail_if_def)

lemma notExpired_ok [simp]: "notExpired bn n e = Some (Inr u) \<longleftrightarrow> bn \<le> n"
  by (auto simp: notExpired_def)

lemma hexField_ok [simp]: "hexField e str = Some (Inr x) \<longleftrightarrow> is0x str \<and> SetString16 (drop 2 str) = Some x"
  by (auto simp: hexField_def split: option.splits)

lemma rbind_simps [simp]:
  "rbind None f = None" "rbind (Some (Inl e)) f = Some (Inl e)" "rbind (Some (Inr x)) f = f x"
  "rbind (ok x) f = f x" "rbind (fail e) f = fail e"
  by (simp_all add: rbind_def ok_def fail_def)

lemma handler_ok: "handler c f s = Some (s', None) \<longleftrightarrow> (\<exists>x. c = Some (Inr x) \<and> f x s = Some s')"
  by (auto simp: handler_def split: option.splits sum.splits)

lemma handler_error: "handler c f s = Some (s', Some e) \<longleftrightarrow> c = Some (Inl e) \<and> s' = s"
  by (auto simp: handler_def split: option.splits sum.splits)

subsection \<open>Settlements\<close>

lemma settleSale_money:
  assumes "settleSale amount sl s = Some s'"
  defines "fee \<equiv> exchangerCut amount (GetFeeRate (sl_exchanger sl) s)"
    and "royalty \<equiv> royaltyCut amount (GetNFTRoyalty (sl_nft sl) s)"
  shows "wealth s' a = wealth s a - (if a = sl_buyer sl then amount else 0)
      + (if a = sl_owner sl then amount - fee - royalty else 0)
      + (if a = GetNFTCreator (sl_nft sl) s then royalty else 0)
      + (if a = sl_exchanger sl then fee else 0)"
    and "totalSupply s' = totalSupply s"
proof -
  let ?ps = "[(sl_owner sl, amount - (fee + royalty)), (GetNFTCreator (sl_nft sl) s, royalty), (sl_exchanger sl, fee)]"
  let ?s4 = "fold (\<lambda>(a, v). AddBalance a v) ?ps (SubBalance (sl_buyer sl) amount s)"
  obtain s5 where s5: "AddVoteWeight (sl_exchanger sl) amount ?s4 = Some s5"
    "ChangeNFTOwner (sl_nft sl) (sl_buyer sl) (sl_level sl) s5 = Some s'"
    using assms(1) by (auto simp: settleSale_def Let_def fee_def royalty_def bind_Some_iff)
  obtain x where x: "acct s5 = (acct ?s4)(sl_exchanger sl := (acct ?s4 (sl_exchanger sl))\<lparr>VoteWeight := x\<rparr>)"
    using map_option_acctD [OF acct_VoteWeight(1) s5(1)] by auto
  have w5: "wealth s5 = wealth ?s4"
    unfolding wealth_def getter_acct x by (auto simp: fun_eq_iff)
  have w: "wealth s' = wealth ?s4"
    using wealth_wallet [OF keeps_walletD [OF keeps_ChangeNFTOwner s5(2)]] w5 by simp
  show "wealth s' a = wealth s a - (if a = sl_buyer sl then amount else 0)
      + (if a = sl_owner sl then amount - fee - royalty else 0)
      + (if a = GetNFTCreator (sl_nft sl) s then royalty else 0)
      + (if a = sl_exchanger sl then fee else 0)"
    unfolding w funds.bal_purchase by auto
  show "totalSupply s' = totalSupply s"
    unfolding totalSupply_def w by (rule funds.sum_purchase) simp
qed

lemma mint_wealth:
  "wealth (fst (CreateNFTByUser x w r u s)) = (wealth s)(mintedNFT s := GetBalance (mintedNFT s) s)"
  "GetBalance a (fst (CreateNFTByUser x w r u s)) = GetBalance a s"
  by (auto simp: wealth_def getter_acct acct_CreateNFTByUser fun_eq_iff zeroAccount_def)

lemma settleMint_money:
  assumes "settleMint amount m s = Some s'"
  defines "fee \<equiv> exchangerCut amount (if ms_exchanger m = mintedNFT s then 0 else GetFeeRate (ms_exchanger m) s)"
  shows "GetBalance a s' = GetBalance a s - (if a = ms_buyer m then amount else 0)
      + (if a = ms_seller m then amount - fee else 0) + (if a = ms_exchanger m then fee else 0)"
    and "totalSupply s' = totalSupply s - GetPledgedBalance (mintedNFT s) s - GetExchangerBalance (mintedNFT s) s"
proof -
  let ?s0 = "fst (CreateNFTByUser (if ms_exclusive m then ms_exchanger m else 0) (ms_seller m) (ms_royalty m) (ms_url m) s)"
  let ?ps = "[(ms_seller m, amount - fee), (ms_exchanger m, fee)]"
  let ?s3 = "fold (\<lambda>(a, v). AddBalance a v) ?ps (SubBalance (ms_buyer m) amount ?s0)"
  have fee: "exchangerCut amount (GetFeeRate (ms_exchanger m) ?s0) = fee"
    by (simp add: fee_def getter_acct acct_CreateNFTByUser zeroAccount_def)
  obtain s4 where s4: "AddVoteWeight (ms_exchanger m) amount ?s3 = Some s4"
    "ChangeNFTOwner (mintedNFT s) (ms_buyer m) 0 s4 = Some s'"
    using assms(1) by (auto simp: settleMint_def Let_def case_prod_beta snd_CreateNFTByUser fee bind_Some_iff)
  obtain x where x: "acct s4 = (acct ?s3)(ms_exchanger m := (acct ?s3 (ms_exchanger m))\<lparr>VoteWeight := x\<rparr>)"
    using map_option_acctD [OF acct_VoteWeight(1) s4(1)] by auto
  note wal = keeps_walletD [OF keeps_ChangeNFTOwner s4(2)]
  have w4: "wealth s4 = wealth ?s3" and b4: "GetBalance a s4 = GetBalance a ?s3"
    unfolding wealth_def getter_acct x by (auto simp: fun_eq_iff)
  have "GetBalance a s' = GetBalance a ?s3"
    using wallet_getters(1) [OF wal] b4 by simp
  also have "\<dots> = GetBalance a ?s0 - (if a = ms_buyer m then amount else 0)
      + sum_list (map snd (filter (\<lambda>(b, v). b = a) ?ps))"
    by (rule coins.bal_purchase)
  finally show "GetBalance a s' = GetBalance a s - (if a = ms_buyer m then amount else 0)
      + (if a = ms_seller m then amount - fee else 0) + (if a = ms_exchanger m then fee else 0)"
    by (auto simp: mint_wealth)
  have w: "wealth s' = wealth ?s3"
    using wealth_wallet [OF wal] w4 by simp
  have "totalSupply s' = totalSupply ?s0"
    unfolding totalSupply_def w by (rule funds.sum_purchase) simp
  also have "\<dots> = totalSupply s - wealth s (mintedNFT s) + GetBalance (mintedNFT s) s"
    unfolding totalSupply_def mint_wealth by (rule sum_upd)
  finally show "totalSupply s' = totalSupply s - GetPledgedBalance (mintedNFT s) s - GetExchangerBalance (mintedNFT s) s"
    by (simp add: wealth_def)
qed

subsection \<open>User NFTs\<close>

lemma owner_acct:
  assumes "Owner (NFT (acct s a)) \<noteq> 0" and "MergeLevel (NFT (acct s a)) = 0"
  shows "GetNFTOwner16 a s = Owner (NFT (acct s a))"
  using assms by (cases "getStateObject s a") (simp_all add: GetNFTOwner16_def GetNFTStoreAddress16.simps acct_def QUERYDEPTHLIMIT16_def noNFT_def zeroAccount_def)

lemma acct_ChangeNFTOwner_user:
  assumes "\<not> IsOfficialNFT a" and "ChangeNFTOwner a w level s = Some s'"
  shows "NFT (acct s' a) = (NFT (acct s a))\<lparr>Owner := w,
     NFTApproveAddressList := if Owner (NFT (acct s a)) = w then NFTApproveAddressList (NFT (acct s a)) else 0\<rparr>"
proof -
  have s': "s' = o_ChangeNFTOwner a w (GetOrNewStateObject a s)" using assms by (simp add: ChangeNFTOwner_def)
  have d: "data (deref (GetOrNewStateObject a s) a) = acct s a"
    using deref_acct [OF GetOrNew_live [of a s]] by simp
  have lv: "getStateObject (GetOrNewStateObject a s) a \<noteq> None" by (rule GetOrNew_live)
  then have lv': "getStateObject (o_SetOwner a w (GetOrNewStateObject a s)) a \<noteq> None"
    unfolding o_SetOwner_def by (rule live_modify) (simp add: setter_defs)
  show ?thesis
    unfolding s' o_ChangeNFTOwner_def d by (simp add: acct_o(3) [OF lv] acct_o(4) [OF lv'])
qed

lemma settleMint_delivers:
  assumes "settleMint amount m s = Some s'" and "\<not> IsOfficialNFT (mintedNFT s)"
  shows "NFT (acct s' (mintedNFT s)) = noNFT\<lparr>Name := [], Symbol := [], Owner := ms_buyer m, NFTApproveAddressList := 0, MergeLevel := 0,
     Creator := ms_seller m, Royalty := ms_royalty m, Exchanger := (if ms_exclusive m then ms_exchanger m else 0), MetaURL := ms_url m\<rparr>"
proof -
  let ?z = "fst (CreateNFTByUser (if ms_exclusive m then ms_exchanger m else 0) (ms_seller m) (ms_royalty m) (ms_url m) s)"
  obtain fee s4 where s4: "AddVoteWeight (ms_exchanger m) amount (AddBalance (ms_exchanger m) fee (AddBalance (ms_seller m) (amount - fee)
      (SubBalance (ms_buyer m) amount ?z))) = Some s4" "ChangeNFTOwner (mintedNFT s) (ms_buyer m) 0 s4 = Some s'"
    using assms(1) by (auto simp: settleMint_def Let_def case_prod_beta snd_CreateNFTByUser bind_Some_iff)
  obtain x where "acct s4 = (\<lambda>f. f(ms_exchanger m := (f (ms_exchanger m))\<lparr>VoteWeight := x\<rparr>)) (acct (AddBalance (ms_exchanger m) fee
      (AddBalance (ms_seller m) (amount - fee) (SubBalance (ms_buyer m) amount ?z))))"
    using map_option_acctD [OF acct_VoteWeight(1) s4(1)] by auto
  then have "NFT (acct s4 a) = NFT (acct ?z a)" for a by auto
  then show ?thesis
    using acct_ChangeNFTOwner_user [OF assms(2) s4(2)] by (simp add: acct_CreateNFTByUser)
qed

subsection \<open>What the checks establish\<close>

text \<open>A signed payload field by field: who signed, until when, for how much and for which NFT.\<close>

definition signed :: "crypto \<Rightarrow> string \<Rightarrow> string \<Rightarrow> address \<Rightarrow> bool" where
  "signed C msg sig a \<longleftrightarrow> recoverAddress C msg sig = Some (Inr a)"

definition amountField :: "string \<Rightarrow> int \<Rightarrow> bool" where
  "amountField str x \<longleftrightarrow> is0x str \<and> SetString16 (drop 2 str) = Some x"

definition validUntil :: "string \<Rightarrow> int \<Rightarrow> bool" where
  "validUntil str bn \<longleftrightarrow> (\<exists>n. amountField str n \<and> bn \<le> n)"

lemmas signed_defs = signed_def amountField_def validUntil_def

lemma check_SellerOrExchanger_ok:
  assumes "check_BuyNFTBySellerOrExchanger C bn caller recipient w v s = Some (Inr sl)"
  shows "signed C (buyerMsg (w_Buyer w)) (p_Sig (w_Buyer w)) recipient" "sl_buyer sl = recipient"
    "GetNftAddressAndLevel (p_NFTAddress (w_Buyer w)) = Inr (sl_nft sl, sl_level sl)"
    "validUntil (p_BlockNumber (w_Buyer w)) bn" "amountField (p_Amount (w_Buyer w)) v" "v \<le> GetBalance recipient s"
    "sl_owner sl = GetNFTOwner16 (sl_nft sl) s" "sl_owner sl \<noteq> 0"
    "caller = sl_owner sl \<or> IsApproved (sl_nft sl) caller s"
    "sl_exchanger sl = (if caller \<noteq> sl_owner sl then caller
       else if GetNFTExchanger (sl_nft sl) s \<noteq> 0 \<and> GetExchangerFlag (GetNFTExchanger (sl_nft sl) s) s
       then GetNFTExchanger (sl_nft sl) s else HexToAddress (p_Exchanger (w_Buyer w)))"
  using assms
  by (auto simp: check_BuyNFTBySellerOrExchanger_def Let_def signed_defs beneficiaryOf_def split: prod.splits if_splits)

lemma check_Buyer_ok:
  assumes "check_BuyNFTByBuyer C bn caller recipient w v s = Some (Inr sl)"
  shows "signed C (seller1Msg (w_Seller1 w)) (p_Sig (w_Seller1 w)) (sl_owner sl)" "sl_buyer sl = caller"
    "GetNftAddressAndLevel (p_NFTAddress (w_Seller1 w)) = Inr (sl_nft sl, sl_level sl)"
    "validUntil (p_BlockNumber (w_Seller1 w)) bn" "amountField (p_Amount (w_Seller1 w)) v" "v \<le> GetBalance caller s"
    "sl_owner sl = GetNFTOwner16 (sl_nft sl) s" "sl_owner sl \<noteq> 0"
    "sl_exchanger sl = (if GetNFTExchanger (sl_nft sl) s \<noteq> 0 then GetNFTExchanger (sl_nft sl) s else HexToAddress (p_Exchanger (w_Seller1 w)))"
  using assms by (auto simp: check_BuyNFTByBuyer_def Let_def signed_defs split: prod.splits)

lemma check_ApproveExchanger_ok:
  assumes "check_BuyNFTByApproveExchanger C bn caller recipient w v s = Some (Inr sl)"
  shows "signed C (buyerMsg (w_Buyer w)) (p_Sig (w_Buyer w)) recipient" "sl_buyer sl = recipient"
    "signed C (exchangerMsg (w_ExchangerAuth w)) (e_Sig (w_ExchangerAuth w)) (sl_exchanger sl)"
    "HexToAddress (e_To (w_ExchangerAuth w)) = caller" "validUntil (e_BlockNumber (w_ExchangerAuth w)) bn"
    "GetNftAddressAndLevel (p_NFTAddress (w_Buyer w)) = Inr (sl_nft sl, sl_level sl)"
    "validUntil (p_BlockNumber (w_Buyer w)) bn" "amountField (p_Amount (w_Buyer w)) v" "v \<le> GetBalance recipient s"
    "sl_owner sl = GetNFTOwner16 (sl_nft sl) s" "sl_owner sl \<noteq> 0" "IsApproved (sl_nft sl) (sl_exchanger sl) s"
  using assms by (auto simp: check_BuyNFTByApproveExchanger_def Let_def signed_defs split: prod.splits)

lemma check_Exchanger_ok:
  assumes "check_BuyNFTByExchanger C bn caller recipient w v s = Some (Inr sl)"
  shows "signed C (seller1Msg (w_Buyer w)) (p_Sig (w_Buyer w)) recipient" "sl_buyer sl = recipient"
    "signed C (seller1Msg (w_Seller1 w)) (p_Sig (w_Seller1 w)) (sl_owner sl)"
    "\<exists>l. GetNftAddressAndLevel (p_NFTAddress (w_Buyer w)) = Inr (sl_nft sl, l)"
    "GetNftAddressAndLevel (p_NFTAddress (w_Seller1 w)) = Inr (sl_nft sl, sl_level sl)"
    "validUntil (p_BlockNumber (w_Buyer w)) bn" "validUntil (p_BlockNumber (w_Seller1 w)) bn"
    "amountField (p_Amount (w_Buyer w)) v" "amountField (p_Amount (w_Seller1 w)) v" "v \<le> GetBalance recipient s"
    "sl_owner sl = GetNFTOwner16 (sl_nft sl) s" "sl_owner sl \<noteq> 0" "sl_exchanger sl = caller"
  using assms by (auto simp: check_BuyNFTByExchanger_def Let_def signed_defs split: prod.splits if_splits)

subsection \<open>Settlements that succeed\<close>

lemma AddVoteWeight_panics: "AddVoteWeight a v s = None \<longleftrightarrow> nil_add (VoteWeight (acct s a)) v = None"
  using deref_acct [OF GetOrNew_live, of a s]
  by (auto simp: AddVoteWeight_def o_AddVoteWeight_def nil_add_def split: Option.bind_split)

lemma settleSale_succeeds:
  assumes "VoteWeight (acct s (sl_exchanger sl)) \<noteq> None" and "\<not> IsOfficialNFT (sl_nft sl)"
  shows "\<exists>s'. settleSale v sl s = Some s'"
proof -
  define s4 where "s4 = AddBalance (sl_exchanger sl) (exchangerCut v (GetFeeRate (sl_exchanger sl) s))
    (AddBalance (GetNFTCreator (sl_nft sl) s) (royaltyCut v (GetNFTRoyalty (sl_nft sl) s))
    (AddBalance (sl_owner sl) (v - (exchangerCut v (GetFeeRate (sl_exchanger sl) s) + royaltyCut v (GetNFTRoyalty (sl_nft sl) s)))
    (SubBalance (sl_buyer sl) v s)))"
  have "VoteWeight (acct s4 (sl_exchanger sl)) = VoteWeight (acct s (sl_exchanger sl))" by (simp add: s4_def)
  then have "nil_add (VoteWeight (acct s4 (sl_exchanger sl))) v \<noteq> None" using assms(1) by (auto simp: nil_add_def)
  then obtain s5 where "AddVoteWeight (sl_exchanger sl) v s4 = Some s5"
    using AddVoteWeight_panics [of "sl_exchanger sl" v s4] by (cases "AddVoteWeight (sl_exchanger sl) v s4") auto
  then show ?thesis using assms(2) by (simp add: settleSale_def Let_def s4_def ChangeNFTOwner_def)
qed

subsection \<open>An example\<close>

text \<open>A user NFT at address 1 owned by account 7 and created by account 8, an exchanger at
  address 2 and a buyer at address 9. The signature scheme takes every signature for
  one of account 7.\<close>

definition exTrie :: "address \<rightharpoonup> Account" where
  "exTrie = (let z = zeroAccount (\<lambda>_. 0) in
     [1 \<mapsto> z\<lparr>NFT := noNFT\<lparr>Owner := 7, Creator := 8, Royalty := 100, MetaURL := ''/ipfs/x''\<rparr>\<rparr>,
      2 \<mapsto> z\<lparr>ExchangerFlag := True, FeeRate := 200\<rparr>,
      9 \<mapsto> z\<lparr>Balance := 5000000\<rparr>])"

definition exState :: StateDB where
  "exState = New exTrie (\<lambda>_ _. 0) (\<lambda>_. []) (\<lambda>_. 0)"

definition exCrypto :: "address \<Rightarrow> crypto" where
  "exCrypto a = \<lparr>keccak256 = (\<lambda>_. 0), SigToPub = (\<lambda>_ _. Inr a)\<rparr>"

definition exSig :: string where
  "exSig = ''0x'' @ replicate 128 (CHR ''0'') @ ''1b''"

definition exNFT :: string where
  "exNFT = ''0x'' @ replicate 38 (CHR ''0'') @ ''01''"

definition exPayload :: Payload where
  "exPayload = \<lparr>p_Amount = ''0xf4240'', p_NFTAddress = exNFT, p_Exchanger = ''0x02'', p_BlockNumber = ''0x10'',
     p_Seller = ''0x07'', p_Sig = exSig\<rparr>"

definition exMint :: MintSellPayload where
  "exMint = \<lparr>m_Amount = ''0xf4240'', m_Royalty = ''0x64'', m_MetaURL = ''/ipfs/y'', m_ExclusiveFlag = ''1'',
     m_Exchanger = ''0x02'', m_BlockNumber = ''0x10'', m_Sig = exSig\<rparr>"

definition exWormholes :: Wormholes where
  "exWormholes = \<lparr>w_Type = 15, w_NFTAddress = exNFT, w_Exchanger = [], w_Royalty = 0, w_MetaURL = [], w_FeeRate = 0,
     w_Name = [], w_Url = [], w_Dir = [], w_StartIndex = [], w_Number = 0, w_Buyer = exPayload, w_Seller1 = exPayload,
     w_Seller2 = exMint, w_ExchangerAuth = \<lparr>e_ExchangerOwner = [], e_To = [], e_BlockNumber = [], e_Sig = []\<rparr>,
     w_Creator = [], w_Version = []\<rparr>"


lemma DecodeString_zeros:
  "DecodeString (replicate (2 * n) (CHR ''0'') @ r) = (replicate n 0 @ fst (DecodeString r), snd (DecodeString r))"
  by (induction n) (simp_all add: fromHexChar_def case_prod_beta Let_def)

lemma bytes_value_zeros: "bytes_value (replicate n 0 @ r) = bytes_value r"
proof -
  have "foldl (\<lambda>acc b. acc * 256 + unat b) 0 (replicate n (0::byte)) = 0" by (induction n) simp_all
  then show ?thesis by (simp add: bytes_value_def)
qed

lemma ex_fields:
  "recoverAddress (exCrypto a) msg exSig = Some (Inr a)"
  "hexField e ''0xf4240'' = ok 1000000" "hexField e ''0x10'' = ok 16" "hexField e ''0x64'' = ok 100"
  "GetNftAddressAndLevel exNFT = Inr (1, 0)" "HexToAddress ''0x02'' = 2"
proof -
  have "hexutil_MustDecode exSig = Some (replicate 64 0 @ [27])" "is0x exSig"
    using DecodeString_zeros [of 64 "''1b''"]
    by (simp_all add: hexutil_MustDecode_def hexutil_Decode_def exSig_def has0xPrefix_def fromHexChar_def is0x_def HasPrefix_def)
  then show "recoverAddress (exCrypto a) msg exSig = Some (Inr a)"
    by (simp add: recoverAddress_def exCrypto_def nth_append)
  have "SetString16 ''f4240'' = Some 1000000" "SetString16 ''10'' = Some 16" "SetString16 ''64'' = Some 100"
    by (simp_all add: SetString16_def hex_digits_def isHexCharacter_def hexval_def fromHexChar_def)
  then show "hexField e ''0xf4240'' = ok 1000000" "hexField e ''0x10'' = ok 16" "hexField e ''0x64'' = ok 100"
    by (simp_all add: hexField_def is0x_def HasPrefix_def)
  have "Hex2Bytes (replicate 38 (CHR ''0'') @ ''01'') = replicate 19 0 @ [1]"
    using DecodeString_zeros [of 19 "''01''"] by (simp add: Hex2Bytes_def fromHexChar_def)
  then have "HexToAddress exNFT = 1"
    by (simp add: HexToAddress_def FromHex_def exNFT_def has0xPrefix_def BytesToAddress_def bytes_value_zeros)
      (simp add: bytes_value_def)
  then show "GetNftAddressAndLevel exNFT = Inr (1, 0)"
    by (simp add: GetNftAddressAndLevel_def is0x_def HasPrefix_def) (simp add: exNFT_def)
  show "HexToAddress ''0x02'' = 2"
    by (simp add: HexToAddress_def FromHex_def has0xPrefix_def Hex2Bytes_def fromHexChar_def BytesToAddress_def bytes_value_def)
qed

lemma ex_acct:
  "acct exState 1 = decodeAccount (the (exTrie 1))" "acct exState 2 = decodeAccount (the (exTrie 2))"
  "acct exState 9 = decodeAccount (the (exTrie 9))" "a \<notin> {1, 2, 9} \<Longrightarrow> acct exState a = zeroAccount (\<lambda>_. 0)"
  by (auto simp: acct_def exState_def New_def getStateObject_def getDeletedStateObject_def exTrie_def Let_def newObject_def)

lemma ex_owner: "GetNFTOwner16 1 exState = 7"
  by (simp add: GetNFTOwner16_def GetNFTStoreAddress16.simps QUERYDEPTHLIMIT16_def exState_def New_def getStateObject_def
      getDeletedStateObject_def exTrie_def Let_def newObject_def decodeAccount_def noNFT_def)

lemma ex_sale: "\<exists>s'. BuyNFTByBuyer (exCrypto 7) 10 9 0 exWormholes 1000000 exState = Some (s', None)"
proof -
  let ?sl = "\<lparr>sl_buyer = 9, sl_owner = 7, sl_exchanger = 2, sl_nft = 1, sl_level = 0\<rparr>"
  have "GetBalance 9 exState = 5000000" "GetNFTExchanger 1 exState = 0"
    by (simp_all add: getter_acct ex_acct exTrie_def Let_def decodeAccount_def noNFT_def)
  then have c: "check_BuyNFTByBuyer (exCrypto 7) 10 9 0 exWormholes 1000000 exState = Some (Inr ?sl)"
    by (simp add: check_BuyNFTByBuyer_def exWormholes_def exPayload_def ex_fields ex_owner notExpired_def fail_if_def)
  have "\<not> IsOfficialNFT 1" by (simp add: IsOfficialNFT_def Address_Bytes_def)
  moreover have "VoteWeight (acct exState 2) \<noteq> None" by (simp add: ex_acct exTrie_def Let_def decodeAccount_def)
  ultimately show ?thesis
    using settleSale_succeeds [of exState ?sl 1000000] by (simp add: BuyNFTByBuyer_def handler_ok c)
qed

subsection \<open>The four sales\<close>

text \<open>A transaction sells an existing NFT on the owner's or an approved exchanger's order, on the
  buyer's, on that of an exchanger's delegate, or on that of an exchanger that matches two offers.\<close>

datatype saleTx = SoldByOwner | SoldToSender | SoldByDelegate | SoldByMatch

primrec runSale :: "saleTx \<Rightarrow> crypto \<Rightarrow> int \<Rightarrow> address \<Rightarrow> address \<Rightarrow> Wormholes \<Rightarrow> int \<Rightarrow> StateDB \<Rightarrow> (StateDB \<times> string option) panics" where
  "runSale SoldByOwner = BuyNFTBySellerOrExchanger"
| "runSale SoldToSender = BuyNFTByBuyer"
| "runSale SoldByDelegate = BuyNFTByApproveExchanger"
| "runSale SoldByMatch = BuyNFTByExchanger"

text \<open>The offer that names the NFT, the party that buys, and the exchanger that earns the fee.\<close>

primrec saleOffer :: "saleTx \<Rightarrow> Wormholes \<Rightarrow> Payload" where
  "saleOffer SoldByOwner = w_Buyer"
| "saleOffer SoldToSender = w_Seller1"
| "saleOffer SoldByDelegate = w_Buyer"
| "saleOffer SoldByMatch = w_Seller1"

primrec saleBuyer :: "saleTx \<Rightarrow> address \<Rightarrow> address \<Rightarrow> address" where
  "saleBuyer SoldByOwner caller recipient = recipient"
| "saleBuyer SoldToSender caller recipient = caller"
| "saleBuyer SoldByDelegate caller recipient = recipient"
| "saleBuyer SoldByMatch caller recipient = recipient"

primrec earnsFee :: "saleTx \<Rightarrow> crypto \<Rightarrow> address \<Rightarrow> Wormholes \<Rightarrow> address \<Rightarrow> StateDB \<Rightarrow> address \<Rightarrow> bool" where
  "earnsFee SoldByOwner C caller w nft s exch \<longleftrightarrow>
     exch = (if caller \<noteq> GetNFTOwner16 nft s then caller
             else if GetNFTExchanger nft s \<noteq> 0 \<and> GetExchangerFlag (GetNFTExchanger nft s) s then GetNFTExchanger nft s
             else HexToAddress (p_Exchanger (w_Buyer w)))"
| "earnsFee SoldToSender C caller w nft s exch \<longleftrightarrow>
     exch = (if GetNFTExchanger nft s \<noteq> 0 then GetNFTExchanger nft s else HexToAddress (p_Exchanger (w_Seller1 w)))"
| "earnsFee SoldByDelegate C caller w nft s exch \<longleftrightarrow> signed C (exchangerMsg (w_ExchangerAuth w)) (e_Sig (w_ExchangerAuth w)) exch"
| "earnsFee SoldByMatch C caller w nft s exch \<longleftrightarrow> exch = caller"

lemmas sale_handlers = BuyNFTBySellerOrExchanger_def BuyNFTByBuyer_def BuyNFTByApproveExchanger_def BuyNFTByExchanger_def

lemma runSale_cases:
  assumes "runSale tx C bn caller recipient w v s = Some (s', None)"
  obtains sl where "tx = SoldByOwner" "check_BuyNFTBySellerOrExchanger C bn caller recipient w v s = Some (Inr sl)" "settleSale v sl s = Some s'"
    | sl where "tx = SoldToSender" "check_BuyNFTByBuyer C bn caller recipient w v s = Some (Inr sl)" "settleSale v sl s = Some s'"
    | sl where "tx = SoldByDelegate" "check_BuyNFTByApproveExchanger C bn caller recipient w v s = Some (Inr sl)" "settleSale v sl s = Some s'"
    | sl where "tx = SoldByMatch" "check_BuyNFTByExchanger C bn caller recipient w v s = Some (Inr sl)" "settleSale v sl s = Some s'"
  using assms
  by (cases tx) (auto simp: sale_handlers handler_ok)

lemma sale_validated:
  assumes "runSale tx C bn caller recipient w v s = Some (s', None)"
  obtains sl where "settleSale v sl s = Some s'" "sl_buyer sl = saleBuyer tx caller recipient" "v \<le> GetBalance (sl_buyer sl) s"
    "GetNftAddressAndLevel (p_NFTAddress (saleOffer tx w)) = Inr (sl_nft sl, sl_level sl)"
    "earnsFee tx C caller w (sl_nft sl) s (sl_exchanger sl)" "sl_owner sl = GetNFTOwner16 (sl_nft sl) s" "sl_owner sl \<noteq> 0"
  using assms
proof (cases rule: runSale_cases)
  case (1 sl)
  show thesis by (rule that [OF 1(3)]) (use 1(1) check_SellerOrExchanger_ok [OF 1(2)] in simp_all)
next
  case (2 sl)
  show thesis by (rule that [OF 2(3)]) (use 2(1) check_Buyer_ok [OF 2(2)] in simp_all)
next
  case (3 sl)
  show thesis by (rule that [OF 3(3)]) (use 3(1) check_ApproveExchanger_ok [OF 3(2)] in simp_all)
next
  case (4 sl)
  show thesis by (rule that [OF 4(3)]) (use 4(1) check_Exchanger_ok [OF 4(2)] in simp_all)
qed

lemma settleSale_delivers:
  assumes "settleSale v sl s = Some s'" and "\<not> IsOfficialNFT (sl_nft sl)"
  shows "Owner (NFT (acct s' (sl_nft sl))) = sl_buyer sl"
  using assms(1) acct_ChangeNFTOwner_user [OF assms(2)] by (auto simp: settleSale_def Let_def bind_Some_iff)

section \<open>Properties\<close>

text \<open>C9: A sale of an existing NFT, by whichever of the four transactions, moves exactly the price for the NFT
  that the offer of its payload names: the buyer, who is the sender when the transaction is the buyer's and its recipient
  otherwise, could afford the price and pays it; the exchanger gets its fee rate and the creator the
  royalty in ten-thousandths of the price, the owner of the NFT the rest; no other account
  changes in worth and the sum of all balances, pledges and deposits stays the same. The exchanger is the one the case
  prescribes: the sender, the signer of the delegation, the exclusive one of the NFT or the one the offer
  names. An NFT outside the official range has the buyer as its owner afterwards.\<close>

theorem sales_settle_the_price:
  assumes "runSale tx C bn caller recipient w v s = Some (s', None)"
  shows "\<exists>nft level exch. GetNftAddressAndLevel (p_NFTAddress (saleOffer tx w)) = Inr (nft, level) \<and> earnsFee tx C caller w nft s exch
    \<and> v \<le> GetBalance (saleBuyer tx caller recipient) s \<and> GetNFTOwner16 nft s \<noteq> 0
    \<and> (\<forall>a. wealth s' a = wealth s a - (if a = saleBuyer tx caller recipient then v else 0)
         + (if a = GetNFTOwner16 nft s then v - v div 10000 * uint (GetFeeRate exch s) - v div 10000 * uint (GetNFTRoyalty nft s) else 0)
         + (if a = GetNFTCreator nft s then v div 10000 * uint (GetNFTRoyalty nft s) else 0)
         + (if a = exch then v div 10000 * uint (GetFeeRate exch s) else 0))
    \<and> totalSupply s' = totalSupply s
    \<and> (\<not> IsOfficialNFT nft \<longrightarrow> Owner (NFT (acct s' nft)) = saleBuyer tx caller recipient)"
  using assms
proof (rule sale_validated)
  fix sl
  assume sl: "settleSale v sl s = Some s'" "sl_buyer sl = saleBuyer tx caller recipient" "v \<le> GetBalance (sl_buyer sl) s"
    "GetNftAddressAndLevel (p_NFTAddress (saleOffer tx w)) = Inr (sl_nft sl, sl_level sl)"
    "earnsFee tx C caller w (sl_nft sl) s (sl_exchanger sl)" "sl_owner sl = GetNFTOwner16 (sl_nft sl) s" "sl_owner sl \<noteq> 0"
  note m = settleSale_money [OF sl(1), unfolded exchangerCut_def royaltyCut_def sl(2,6)]
  show ?thesis
    using sl(4,5) sl(3)[unfolded sl(2)] sl(7)[unfolded sl(6)] m settleSale_delivers [OF sl(1), unfolded sl(2)] by blast
qed

theorem sales_settle_the_price_witness:
  "\<exists>s'. BuyNFTByBuyer (exCrypto 7) 10 9 0 exWormholes 1000000 exState = Some (s', None)
     \<and> wealth s' 9 = 4000000 \<and> wealth s' 7 = 970000 \<and> wealth s' 8 = 10000 \<and> wealth s' 2 = 20000
     \<and> totalSupply s' = totalSupply exState \<and> Owner (NFT (acct s' 1)) = 9"
proof -
  obtain s' where s': "BuyNFTByBuyer (exCrypto 7) 10 9 0 exWormholes 1000000 exState = Some (s', None)"
    using ex_sale by blast
  have n: "GetNftAddressAndLevel (p_NFTAddress (saleOffer SoldToSender exWormholes)) = Inr (1, 0)"
    "HexToAddress (p_Exchanger (w_Seller1 exWormholes)) = 2" "\<not> IsOfficialNFT 1"
    by (simp_all add: exWormholes_def exPayload_def ex_fields IsOfficialNFT_def Address_Bytes_def)
  have g: "GetNFTExchanger 1 exState = 0" "uint (GetFeeRate 2 exState) = 200" "uint (GetNFTRoyalty 1 exState) = 100" "GetNFTCreator 1 exState = 8"
    by (simp_all add: getter_acct ex_acct exTrie_def Let_def decodeAccount_def noNFT_def)
  have w: "wealth exState 9 = 5000000" "wealth exState 7 = 0" "wealth exState 8 = 0" "wealth exState 2 = 0"
    by (simp_all add: wealth_def getter_acct ex_acct exTrie_def Let_def decodeAccount_def zeroAccount_def)
  show ?thesis
    using s' sales_settle_the_price [of SoldToSender "exCrypto 7" 10 9 0 exWormholes 1000000 exState s'] n g w ex_owner by auto
qed




text \<open>What a sale leaves the seller lies within the price on either side: with a fee rate and a
  royalty below 10000 each, as opening an exchanger and minting demand, the seller, when no other party to the
  sale, gains at most the price and loses less than it. The seller loses money exactly when the two
  rates exceed 10000 together by enough to eat the part of the price not divisible by 10000.\<close>

theorem seller_share_bounds:
  assumes "settleSale v sl s = Some s'" and "0 < v"
    and "uint (GetFeeRate (sl_exchanger sl) s) < 10000" and "uint (GetNFTRoyalty (sl_nft sl) s) < 10000"
    and "sl_owner sl \<notin> {sl_buyer sl, sl_exchanger sl, GetNFTCreator (sl_nft sl) s}"
  shows "- v < wealth s' (sl_owner sl) - wealth s (sl_owner sl) \<and> wealth s' (sl_owner sl) - wealth s (sl_owner sl) \<le> v
    \<and> (wealth s' (sl_owner sl) < wealth s (sl_owner sl) \<longleftrightarrow>
         v mod 10000 < v div 10000 * (uint (GetFeeRate (sl_exchanger sl) s) + uint (GetNFTRoyalty (sl_nft sl) s) - 10000))"
proof -
  define f r q where "f = uint (GetFeeRate (sl_exchanger sl) s)" and "r = uint (GetNFTRoyalty (sl_nft sl) s)" and "q = v div 10000"
  have w: "wealth s' (sl_owner sl) = wealth s (sl_owner sl) + (v - q * f - q * r)"
    using settleSale_money(1) [OF assms(1), of "sl_owner sl"] assms(5)
    by (simp add: exchangerCut_def royaltyCut_def f_def r_def q_def)
  have v: "v = q * 10000 + v mod 10000" and m: "0 \<le> v mod 10000" and q: "0 \<le> q"
    using assms(2) by (simp_all add: q_def pos_imp_zdiv_nonneg_iff)
  have b: "0 \<le> q * f" "0 \<le> q * r" "q * f \<le> q * 9999" "q * r \<le> q * 9999"
    using q assms(3,4) by (auto simp: f_def r_def intro!: mult_left_mono)
  have "q * (f + r - 10000) = q * f + q * r - q * 10000" by (simp add: algebra_simps)
  then show ?thesis
    unfolding w f_def [symmetric] r_def [symmetric] q_def [symmetric]
    using v m b assms(2) by linarith
qed

theorem seller_share_bounds_witness:
  "\<exists>s'. settleSale 1000000 \<lparr>sl_buyer = 9, sl_owner = 7, sl_exchanger = 2, sl_nft = 1, sl_level = 0\<rparr> exState = Some s'
     \<and> wealth s' 7 - wealth exState 7 \<le> 1000000"
proof -
  let ?sl = "\<lparr>sl_buyer = 9, sl_owner = 7, sl_exchanger = 2, sl_nft = 1, sl_level = 0\<rparr>"
  have "\<not> IsOfficialNFT 1" "VoteWeight (acct exState 2) \<noteq> None"
    by (simp_all add: IsOfficialNFT_def Address_Bytes_def ex_acct exTrie_def Let_def decodeAccount_def)
  then obtain s' where s': "settleSale 1000000 ?sl exState = Some s'"
    using settleSale_succeeds [of exState ?sl 1000000] by auto
  have "uint (GetFeeRate 2 exState) = 200" "uint (GetNFTRoyalty 1 exState) = 100" "GetNFTCreator 1 exState = 8"
    by (simp_all add: getter_acct ex_acct exTrie_def Let_def decodeAccount_def)
  then show ?thesis using s' seller_share_bounds [OF s'] by simp
qed


lemma SetString16_snoc: "SetString16 ds = Some x \<Longrightarrow> SetString16 (ds @ ''0'') = Some (16 * x)"
  by (cases ds) (auto simp: SetString16_def hex_digits_def hexval_def isHexCharacter_def fromHexChar_def split: if_splits)

lemma hexField_snoc: "amountField str n \<Longrightarrow> hexField e str = ok n \<and> hexField e (str @ ''0'') = ok (16 * n)"
proof -
  assume a: "amountField str n"
  then have "2 \<le> length str" by (auto simp: amountField_def is0x_def HasPrefix_def)
  moreover have "is0x (str @ ''0'')" using a by (auto simp: amountField_def is0x_def HasPrefix_def)
  ultimately show ?thesis
    using a SetString16_snoc [of "drop 2 str" n] by (simp add: amountField_def hexField_def)
qed

text \<open>C37: The message a buyer signs joins its fields without separators, and the seller field
  at its end is used for nothing else: whoever submits the offer may move a zero from the front of the seller
  to the end of the block number. The altered offer carries the same signature and stays valid for sixteen times as many blocks: up to
  there the sale runs exactly as the original offer did within its own limit.\<close>

theorem buyer_offer_outlives_its_expiry:
  assumes "p_Seller (w_Buyer w) = CHR ''0'' # r" and "amountField (p_BlockNumber (w_Buyer w)) n" and "bn \<le> n" and "bn' \<le> 16 * n"
  defines "w' \<equiv> w\<lparr>w_Buyer := (w_Buyer w)\<lparr>p_BlockNumber := p_BlockNumber (w_Buyer w) @ ''0'', p_Seller := r\<rparr>\<rparr>"
  shows "BuyNFTBySellerOrExchanger C bn' caller recipient w' v s = BuyNFTBySellerOrExchanger C bn caller recipient w v s"
proof -
  have m: "buyerMsg (w_Buyer w') = buyerMsg (w_Buyer w)" using assms(1) by (simp add: buyerMsg_def w'_def)
  have o: "p_Sig (w_Buyer w') = p_Sig (w_Buyer w)" "p_BlockNumber (w_Buyer w') = p_BlockNumber (w_Buyer w) @ ''0''"
    "p_Amount (w_Buyer w') = p_Amount (w_Buyer w)" "p_NFTAddress (w_Buyer w') = p_NFTAddress (w_Buyer w)"
    "p_Exchanger (w_Buyer w') = p_Exchanger (w_Buyer w)" by (simp_all add: w'_def)
  have n: "notExpired bn n e = ok ()" "notExpired bn' (16 * n) e = ok ()" for e
    using assms(3,4) by (simp_all add: notExpired_def fail_if_def)
  show ?thesis
    unfolding BuyNFTBySellerOrExchanger_def check_BuyNFTBySellerOrExchanger_def Let_def m o
    using hexField_snoc [OF assms(2)] by (simp add: n)
qed

theorem buyer_offer_outlives_its_expiry_witness:
  "BuyNFTBySellerOrExchanger (exCrypto 9) 200 7 9
     (exWormholes\<lparr>w_Buyer := exPayload\<lparr>p_BlockNumber := ''0x100'', p_Seller := ''x07''\<rparr>\<rparr>) 1000000 exState
   = BuyNFTBySellerOrExchanger (exCrypto 9) 10 7 9 exWormholes 1000000 exState"
proof -
  have "amountField ''0x10'' 16"
    using ex_fields(3) [of "[]"] by (simp add: amountField_def hexField_def ok_def fail_def split: if_splits option.splits)
  then show ?thesis
    using buyer_offer_outlives_its_expiry [of exWormholes "''x07''" 16 10 200 "exCrypto 9" 7 9 1000000 exState]
    by (simp add: exWormholes_def exPayload_def)
qed


subsection \<open>Sales that mint\<close>

lemmas mint_handlers = BuyAndMintNFTByBuyer_def BuyAndMintNFTByExchanger_def BuyAndMintNFTByApprovedExchanger_def
lemmas mint_checks = check_BuyAndMintNFTByBuyer_def check_BuyAndMintNFTByExchanger_def check_BuyAndMintNFTByApprovedExchanger_def

text \<open>A transaction mints and sells on the buyer's order, on an exchanger's, or on that of an exchanger's delegate.\<close>

datatype mintTx = MintToSender | MintByExchanger | MintByDelegate

primrec runMint :: "mintTx \<Rightarrow> crypto \<Rightarrow> int \<Rightarrow> address \<Rightarrow> address \<Rightarrow> Wormholes \<Rightarrow> int \<Rightarrow> StateDB \<Rightarrow> (StateDB \<times> string option) panics" where
  "runMint MintToSender = BuyAndMintNFTByBuyer"
| "runMint MintByExchanger = BuyAndMintNFTByExchanger"
| "runMint MintByDelegate = BuyAndMintNFTByApprovedExchanger"

primrec mintBuyer :: "mintTx \<Rightarrow> address \<Rightarrow> address \<Rightarrow> address" where
  "mintBuyer MintToSender caller recipient = caller"
| "mintBuyer MintByExchanger caller recipient = recipient"
| "mintBuyer MintByDelegate caller recipient = recipient"

lemma mintTerms_ok:
  "mintTerms p = Some (Inr (r, x)) \<Longrightarrow>
     amountField (m_Royalty p) (uint r) \<and> 0 < uint r \<and> uint r < 10000 \<and> x = (TrimSpace (m_ExclusiveFlag p) = ''1'')"
  by (auto simp: mintTerms_def Let_def take_bit_int_eq_self unsigned_of_int amountField_def)

text \<open>What the checks of a sale that mints establish of its terms.\<close>

definition mintAgreed :: "mintTx \<Rightarrow> crypto \<Rightarrow> int \<Rightarrow> address \<Rightarrow> address \<Rightarrow> Wormholes \<Rightarrow> int \<Rightarrow> StateDB \<Rightarrow> mintSale \<Rightarrow> bool" where
  "mintAgreed tx C bn caller recipient w v s m \<longleftrightarrow>
     ms_buyer m = mintBuyer tx caller recipient \<and> v \<le> GetBalance (ms_buyer m) s
   \<and> signed C (seller2Msg (w_Seller2 w)) (m_Sig (w_Seller2 w)) (ms_seller m) \<and> validUntil (m_BlockNumber (w_Seller2 w)) bn
   \<and> (\<exists>n. amountField (m_Amount (w_Seller2 w)) n \<and> (if tx = MintToSender then n = v else n \<le> v))
   \<and> (tx \<noteq> MintToSender \<longrightarrow> signed C (mintBuyerMsg (w_Buyer w)) (p_Sig (w_Buyer w)) (ms_buyer m)
        \<and> validUntil (p_BlockNumber (w_Buyer w)) bn \<and> amountField (p_Amount (w_Buyer w)) v)
   \<and> amountField (m_Royalty (w_Seller2 w)) (uint (ms_royalty m)) \<and> 0 < uint (ms_royalty m) \<and> uint (ms_royalty m) < 10000
   \<and> ms_exclusive m = (TrimSpace (m_ExclusiveFlag (w_Seller2 w)) = ''1'')
   \<and> ms_exchanger m = HexToAddress (m_Exchanger (w_Seller2 w)) \<and> ms_url m = m_MetaURL (w_Seller2 w)"

lemma mint_validated:
  assumes "runMint tx C bn caller recipient w v s = Some (s', None)"
  obtains m where "settleMint v m s = Some s'" "mintAgreed tx C bn caller recipient w v s m"
proof -
  have "\<exists>m. settleMint v m s = Some s' \<and> mintAgreed tx C bn caller recipient w v s m"
  proof (cases tx)
    case MintToSender
    show ?thesis using assms unfolding MintToSender runMint.simps mint_handlers handler_ok mint_checks
      by (auto simp: mintAgreed_def signed_defs Let_def dest!: mintTerms_ok split: prod.splits)
  next
    case MintByExchanger
    show ?thesis using assms unfolding MintByExchanger runMint.simps mint_handlers handler_ok mint_checks
      by (auto simp: mintAgreed_def signed_defs Let_def dest!: mintTerms_ok split: prod.splits)
  next
    case MintByDelegate
    show ?thesis using assms unfolding MintByDelegate runMint.simps mint_handlers handler_ok mint_checks
      by (auto simp: mintAgreed_def signed_defs Let_def dest!: mintTerms_ok split: prod.splits)
  qed
  then show thesis using that by blast
qed


lemma mintDeep_bookkeeping [simp]:
  "mintDeep (GetOrNewStateObject a s) = mintDeep s" "mintDeep (modify a f s) = mintDeep s" "mintDeep (journal_append e s) = mintDeep s"
  "mintDeep (AddBalance a v s) = mintDeep s" "mintDeep (SubBalance a v s) = mintDeep s"
proof -
  show g: "mintDeep (GetOrNewStateObject a s) = mintDeep s" "mintDeep (modify a f s) = mintDeep s" "mintDeep (journal_append e s) = mintDeep s"
    for a f e s
    by (auto simp: GetOrNewStateObject_def createObject_def setStateObject_def modify_def journal_append_def Let_def split: option.split)
  show "mintDeep (AddBalance a v s) = mintDeep s" "mintDeep (SubBalance a v s) = mintDeep s"
    by (simp_all add: g AddBalance_def SubBalance_def touch_dead o_SubBalance_def o_SetBalance_def)
qed

lemma mintDeep_VoteWeight: "AddVoteWeight a v s = Some s' \<Longrightarrow> mintDeep s' = mintDeep s"
  by (auto simp: AddVoteWeight_def o_AddVoteWeight_def o_SetVoteWeight_def split: if_splits option.splits Option.bind_splits)

lemma mintDeep_ChangeNFTOwner_user: "\<not> IsOfficialNFT a \<Longrightarrow> ChangeNFTOwner a w level s = Some s' \<Longrightarrow> mintDeep s' = mintDeep s"
  by (auto simp: ChangeNFTOwner_def Let_def o_ChangeNFTOwner_def o_SetNFTApproveAddress_def o_SetOwner_def)

lemma settleMint_counts:
  assumes "settleMint v m s = Some s'" and "\<not> IsOfficialNFT (mintedNFT s)"
  shows "UserMint (mintDeep s') = UserMint (mintDeep s) + 1"
  using assms
  by (auto simp: settleMint_def Let_def case_prod_beta bind_Some_iff snd_CreateNFTByUser UserMint_CreateNFTByUser
      dest!: mintDeep_VoteWeight mintDeep_ChangeNFTOwner_user [rotated])

lemma GetNFTMetaURL_acct: "GetNFTMetaURL a s = MetaURL (NFT (acct s a))"
  by (auto simp: GetNFTMetaURL_def acct_def zeroAccount_def noNFT_def split: option.split)

text \<open>C35: A sale that mints, by any of its three transactions, delivers what was agreed: the
  seller signed the offer, it had not expired and its amount is the price when the buyer sends the transaction and at most the price
  otherwise, where the buyer signed for exactly this price and a block not yet reached. The NFT at the address
  the mint counter names then belongs to the buyer, who could afford it, has the signer of the offer as its creator and the
  royalty, metadata and, where its flag says so, exclusive exchanger of the offer; the buyer has paid the price, the exchanger that the
  offer names has received its fee rate in ten-thousandths of it and the seller the rest; and the counter moves on by one.
  The mint counter is taken to name an address outside the official range, which is not the exchanger's own, and the buyer not to be
  the zero address.\<close>

theorem mint_sale_delivers:
  assumes "runMint tx C bn caller recipient w v s = Some (s', None)"
    and "\<not> IsOfficialNFT (mintedNFT s)" and "HexToAddress (m_Exchanger (w_Seller2 w)) \<noteq> mintedNFT s" and "mintBuyer tx caller recipient \<noteq> 0"
  shows "\<exists>seller. (let buyer = mintBuyer tx caller recipient; exch = HexToAddress (m_Exchanger (w_Seller2 w)); nft = mintedNFT s;
       fee = v div 10000 * uint (GetFeeRate exch s) in
      v \<le> GetBalance buyer s
    \<and> signed C (seller2Msg (w_Seller2 w)) (m_Sig (w_Seller2 w)) seller \<and> validUntil (m_BlockNumber (w_Seller2 w)) bn
    \<and> (\<exists>n. amountField (m_Amount (w_Seller2 w)) n \<and> (if tx = MintToSender then n = v else n \<le> v))
    \<and> (tx \<noteq> MintToSender \<longrightarrow> signed C (mintBuyerMsg (w_Buyer w)) (p_Sig (w_Buyer w)) buyer
         \<and> validUntil (p_BlockNumber (w_Buyer w)) bn \<and> amountField (p_Amount (w_Buyer w)) v)
    \<and> GetNFTOwner16 nft s' = buyer \<and> GetNFTCreator nft s' = seller
    \<and> amountField (m_Royalty (w_Seller2 w)) (uint (GetNFTRoyalty nft s'))
    \<and> 0 < uint (GetNFTRoyalty nft s') \<and> uint (GetNFTRoyalty nft s') < 10000
    \<and> GetNFTExchanger nft s' = (if TrimSpace (m_ExclusiveFlag (w_Seller2 w)) = ''1'' then exch else 0)
    \<and> GetNFTMetaURL nft s' = m_MetaURL (w_Seller2 w)
    \<and> (\<forall>a. GetBalance a s' = GetBalance a s - (if a = buyer then v else 0)
         + (if a = seller then v - fee else 0) + (if a = exch then fee else 0))
    \<and> UserMint (mintDeep s') = UserMint (mintDeep s) + 1)"
proof -
  obtain m where m: "settleMint v m s = Some s'" "mintAgreed tx C bn caller recipient w v s m"
    using assms(1) by (rule mint_validated)
  have p: "ms_buyer m = mintBuyer tx caller recipient" "ms_exchanger m = HexToAddress (m_Exchanger (w_Seller2 w))"
    using m(2) by (simp_all add: mintAgreed_def)
  note d = settleMint_delivers [OF m(1) assms(2)]
  have o: "GetNFTOwner16 (mintedNFT s) s' = ms_buyer m" using owner_acct [of s' "mintedNFT s"] d assms(4) p(1) by simp
  have g: "GetNFTCreator (mintedNFT s) s' = ms_seller m" "GetNFTRoyalty (mintedNFT s) s' = ms_royalty m"
    "GetNFTExchanger (mintedNFT s) s' = (if ms_exclusive m then ms_exchanger m else 0)" "GetNFTMetaURL (mintedNFT s) s' = ms_url m"
    using d by (simp_all add: getter_acct GetNFTMetaURL_acct)
  have b: "GetBalance a s' = GetBalance a s - (if a = ms_buyer m then v else 0)
      + (if a = ms_seller m then v - v div 10000 * uint (GetFeeRate (ms_exchanger m) s) else 0)
      + (if a = ms_exchanger m then v div 10000 * uint (GetFeeRate (ms_exchanger m) s) else 0)" for a
    using settleMint_money(1) [OF m(1), of a] assms(3) p(2) by (simp add: exchangerCut_def)
  show ?thesis
    by (rule exI [of _ "ms_seller m"], unfold Let_def p [symmetric] o g b settleMint_counts [OF m(1) assms(2)])
      (use m(2) in \<open>auto simp: mintAgreed_def\<close>)
qed


lemma settleMint_succeeds:
  assumes "VoteWeight (acct s (ms_exchanger m)) \<noteq> None" and "ms_exchanger m \<noteq> mintedNFT s" and "\<not> IsOfficialNFT (mintedNFT s)"
  shows "\<exists>s'. settleMint v m s = Some s'"
proof -
  define s0 where "s0 = fst (CreateNFTByUser (if ms_exclusive m then ms_exchanger m else 0) (ms_seller m) (ms_royalty m) (ms_url m) s)"
  define s3 where "s3 = AddBalance (ms_exchanger m) (exchangerCut v (GetFeeRate (ms_exchanger m) s0))
    (AddBalance (ms_seller m) (v - exchangerCut v (GetFeeRate (ms_exchanger m) s0)) (SubBalance (ms_buyer m) v s0))"
  have "VoteWeight (acct s3 (ms_exchanger m)) = VoteWeight (acct s (ms_exchanger m))"
    using assms(2) by (simp add: s3_def s0_def acct_CreateNFTByUser)
  then have "nil_add (VoteWeight (acct s3 (ms_exchanger m))) v \<noteq> None" using assms(1) by (auto simp: nil_add_def)
  then obtain s4 where "AddVoteWeight (ms_exchanger m) v s3 = Some s4"
    using AddVoteWeight_panics [of "ms_exchanger m" v s3] by (cases "AddVoteWeight (ms_exchanger m) v s3") auto
  then show ?thesis using assms(3)
    by (simp add: settleMint_def Let_def case_prod_beta snd_CreateNFTByUser s3_def s0_def ChangeNFTOwner_def)
qed

lemma ex_mint: "\<not> IsOfficialNFT (mintedNFT exState)"
  "\<exists>s'. BuyAndMintNFTByBuyer (exCrypto 7) 10 9 5 exWormholes 1000000 exState = Some (s', None)"
proof -
  let ?m = "\<lparr>ms_buyer = 9, ms_seller = 7, ms_exchanger = 2, ms_royalty = 100, ms_exclusive = True, ms_url = ''/ipfs/y''\<rparr>"
  have n: "mintedNFT exState = 0" by (simp add: mintedNFT_def exState_def New_def BigToAddress_nat [of 0, simplified])
  then show o: "\<not> IsOfficialNFT (mintedNFT exState)" by (simp add: IsOfficialNFT_def Address_Bytes_def)
  have tr: "TrimSpace ''1'' = ''1''" by code_simp
  have "GetBalance 9 exState = 5000000" by (simp add: getter_acct ex_acct exTrie_def Let_def decodeAccount_def)
  then have c: "check_BuyAndMintNFTByBuyer (exCrypto 7) 10 9 5 exWormholes 1000000 exState = Some (Inr ?m)"
    by (simp add: check_BuyAndMintNFTByBuyer_def mintTerms_def exWormholes_def exMint_def ex_fields notExpired_def fail_if_def tr)
  have "VoteWeight (acct exState 2) \<noteq> None" by (simp add: ex_acct exTrie_def Let_def decodeAccount_def)
  then show "\<exists>s'. BuyAndMintNFTByBuyer (exCrypto 7) 10 9 5 exWormholes 1000000 exState = Some (s', None)"
    using settleMint_succeeds [of exState ?m 1000000] o n by (simp add: BuyAndMintNFTByBuyer_def handler_ok c)
qed

theorem mint_sale_delivers_witness:
  "\<exists>s'. BuyAndMintNFTByBuyer (exCrypto 7) 10 9 5 exWormholes 1000000 exState = Some (s', None)
     \<and> GetNFTOwner16 (mintedNFT exState) s' = 9 \<and> GetNFTCreator (mintedNFT exState) s' = 7 \<and> GetNFTExchanger (mintedNFT exState) s' = 2
     \<and> GetBalance 9 s' = 4000000 \<and> GetBalance 7 s' = 980000 \<and> GetBalance 2 s' = 20000
     \<and> UserMint (mintDeep s') = UserMint (mintDeep exState) + 1"
proof -
  obtain s' where s': "BuyAndMintNFTByBuyer (exCrypto 7) 10 9 5 exWormholes 1000000 exState = Some (s', None)"
    using ex_mint(2) by blast
  have n: "mintedNFT exState = 0" by (simp add: mintedNFT_def exState_def New_def BigToAddress_nat [of 0, simplified])
  have e: "HexToAddress (m_Exchanger (w_Seller2 exWormholes)) = 2" "m_ExclusiveFlag (w_Seller2 exWormholes) = ''1''"
    by (simp_all add: exWormholes_def exMint_def ex_fields)
  have tr: "TrimSpace ''1'' = ''1''" by code_simp
  have sg: "signed (exCrypto 7) msg (m_Sig (w_Seller2 exWormholes)) a \<longleftrightarrow> a = 7" for msg a
    by (auto simp: signed_def exWormholes_def exMint_def ex_fields)
  have g: "uint (GetFeeRate 2 exState) = 200" "GetBalance 9 exState = 5000000" "GetBalance 7 exState = 0" "GetBalance 2 exState = 0"
    by (simp_all add: getter_acct ex_acct exTrie_def Let_def decodeAccount_def zeroAccount_def)
  show ?thesis
    using s' mint_sale_delivers [of MintToSender "exCrypto 7" 10 9 5 exWormholes 1000000 exState s'] ex_mint(1)
    by (auto simp: n e tr sg g Let_def)
qed

lemma check_mint_again:
  assumes "check_BuyAndMintNFTByExchanger C bn caller recipient w v s = Some (Inr m)"
    and "v \<le> GetBalance recipient s'" and "GetExchangerFlag caller s'"
  shows "check_BuyAndMintNFTByExchanger C bn caller recipient w v s' = Some (Inr m)"
  using assms by (auto simp: check_BuyAndMintNFTByExchanger_def Let_def split: prod.splits)

lemma check_mint_parties:
  assumes "check_BuyAndMintNFTByExchanger C bn caller recipient w v s = Some (Inr m)"
  shows "ms_buyer m = recipient" "ms_exchanger m = caller"
    "signed C (seller2Msg (w_Seller2 w)) (m_Sig (w_Seller2 w)) (ms_seller m)"
  using assms by (auto simp: check_BuyAndMintNFTByExchanger_def Let_def signed_def split: prod.splits)

lemma settleMint_VoteWeight:
  assumes "settleMint v m s = Some s'" and "v \<noteq> 0"
  shows "VoteWeight (acct s' (ms_exchanger m)) \<noteq> None"
proof -
  obtain s3 s4 where s4: "AddVoteWeight (ms_exchanger m) v s3 = Some s4" "ChangeNFTOwner (mintedNFT s) (ms_buyer m) 0 s4 = Some s'"
    using assms(1) by (auto simp: settleMint_def Let_def case_prod_beta snd_CreateNFTByUser bind_Some_iff)
  have "VoteWeight (acct s4 (ms_exchanger m)) \<noteq> None"
    using map_option_acctD [OF acct_VoteWeight(1) s4(1)] assms(2) by (auto simp: nil_add_def bind_Some_iff)
  moreover have "VoteWeight (acct s' a) = VoteWeight (acct s4 a)" for a
    using fun_cong [OF keeps_walletD [OF keeps_ChangeNFTOwner s4(2)], of a] by (auto simp: wallet_def dest: arg_cong [of _ _ VoteWeight])
  ultimately show ?thesis by simp
qed

text \<open>C36: Nothing in a signed offer to buy a freshly minted NFT, neither a nonce nor the state, says
  that it was used: as long as its block number has not passed and the buyer can pay, the exchanger
  may submit the same payload again, and each time another NFT is minted and the buyer pays the price again.\<close>

theorem mint_offer_replays:
  assumes "BuyAndMintNFTByExchanger C bn caller recipient w v s = Some (s', None)" and "0 < v"
    and "v \<le> GetBalance recipient s'" and "GetExchangerFlag caller s'" and "caller \<noteq> mintedNFT s'" and "\<not> IsOfficialNFT (mintedNFT s')"
    and "signed C (seller2Msg (w_Seller2 w)) (m_Sig (w_Seller2 w)) seller" and "recipient \<notin> {seller, caller}"
  shows "\<exists>s''. BuyAndMintNFTByExchanger C bn caller recipient w v s' = Some (s'', None)
     \<and> UserMint (mintDeep s'') = UserMint (mintDeep s') + 1 \<and> GetBalance recipient s'' = GetBalance recipient s - 2 * v"
proof -
  obtain m where c: "check_BuyAndMintNFTByExchanger C bn caller recipient w v s = Some (Inr m)" and m: "settleMint v m s = Some s'"
    using assms(1) by (auto simp: BuyAndMintNFTByExchanger_def handler_ok)
  note p = check_mint_parties [OF c]
  have v: "v \<noteq> 0" using assms(2) by simp
  have x: "ms_seller m = seller" using p(3) assms(7) by (simp add: signed_def)
  obtain s'' where s'': "settleMint v m s' = Some s''"
    using settleMint_succeeds [of s' m v] settleMint_VoteWeight [OF m v] assms(5,6) p(2) by auto
  have "BuyAndMintNFTByExchanger C bn caller recipient w v s' = Some (s'', None)"
    using check_mint_again [OF c assms(3,4)] s'' by (simp add: BuyAndMintNFTByExchanger_def handler_ok)
  moreover have "GetBalance recipient s'' = GetBalance recipient s - 2 * v"
    using settleMint_money(1) [OF m, of recipient] settleMint_money(1) [OF s'', of recipient] p(1,2) x assms(8) by simp
  ultimately show ?thesis using settleMint_counts [OF s'' assms(6)] by blast
qed


lemma settleMint_flag:
  assumes "settleMint v m s = Some s'" and "a \<noteq> mintedNFT s"
  shows "GetExchangerFlag a s' = GetExchangerFlag a s"
proof -
  let ?z = "fst (CreateNFTByUser (if ms_exclusive m then ms_exchanger m else 0) (ms_seller m) (ms_royalty m) (ms_url m) s)"
  obtain fee s4 where s4: "AddVoteWeight (ms_exchanger m) v (AddBalance (ms_exchanger m) fee (AddBalance (ms_seller m) (v - fee)
      (SubBalance (ms_buyer m) v ?z))) = Some s4" "ChangeNFTOwner (mintedNFT s) (ms_buyer m) 0 s4 = Some s'"
    using assms(1) by (auto simp: settleMint_def Let_def case_prod_beta snd_CreateNFTByUser bind_Some_iff)
  obtain x where "acct s4 = (\<lambda>f. f(ms_exchanger m := (f (ms_exchanger m))\<lparr>VoteWeight := x\<rparr>)) (acct (AddBalance (ms_exchanger m) fee
      (AddBalance (ms_seller m) (v - fee) (SubBalance (ms_buyer m) v ?z))))"
    using map_option_acctD [OF acct_VoteWeight(1) s4(1)] by auto
  then have "ExchangerFlag (acct s4 a) = ExchangerFlag (acct ?z a)" by auto
  moreover have "ExchangerFlag (acct s' a) = ExchangerFlag (acct s4 a)"
    using fun_cong [OF keeps_walletD [OF keeps_ChangeNFTOwner s4(2)], of a] by (auto simp: wallet_def dest: arg_cong [of _ _ ExchangerFlag])
  ultimately show ?thesis using assms(2) by (simp add: getter_acct acct_CreateNFTByUser)
qed

text \<open>A scheme with two keys: the last byte of the signature tells whose it is.\<close>

definition exSig2 :: string where
  "exSig2 = ''0x'' @ replicate 128 (CHR ''0'') @ ''1c''"

definition exCrypto2 :: crypto where
  "exCrypto2 = \<lparr>keccak256 = (\<lambda>_. 0), SigToPub = (\<lambda>_ sig. Inr (if sig ! 64 = 0 then 7 else 9))\<rparr>"

definition exOffer :: Wormholes where
  "exOffer = exWormholes\<lparr>w_Buyer := exPayload\<lparr>p_Sig := exSig2\<rparr>\<rparr>"

lemma ex_two_keys:
  "recoverAddress exCrypto2 msg exSig = Some (Inr 7)" "recoverAddress exCrypto2 msg exSig2 = Some (Inr 9)"
proof -
  have "hexutil_MustDecode exSig = Some (replicate 64 0 @ [27])" "is0x exSig"
    "hexutil_MustDecode exSig2 = Some (replicate 64 0 @ [28])" "is0x exSig2"
    using DecodeString_zeros [of 64 "''1b''"] DecodeString_zeros [of 64 "''1c''"]
    by (simp_all add: hexutil_MustDecode_def hexutil_Decode_def exSig_def exSig2_def has0xPrefix_def fromHexChar_def is0x_def HasPrefix_def)
  then show "recoverAddress exCrypto2 msg exSig = Some (Inr 7)" "recoverAddress exCrypto2 msg exSig2 = Some (Inr 9)"
    by (simp_all add: recoverAddress_def exCrypto2_def nth_append)
qed

lemma ex_mint_offer:
  assumes "m = \<lparr>ms_buyer = 9, ms_seller = 7, ms_exchanger = 2, ms_royalty = 100, ms_exclusive = True, ms_url = ''/ipfs/y''\<rparr>"
  shows "check_BuyAndMintNFTByExchanger exCrypto2 10 2 9 exOffer 1000000 exState = Some (Inr m)"
    and "\<exists>s'. settleMint 1000000 m exState = Some s'" and "mintedNFT exState = 0"
proof -
  have tr: "TrimSpace ''1'' = ''1''" by code_simp
  have "GetBalance 9 exState = 5000000" "GetExchangerFlag 2 exState"
    by (simp_all add: getter_acct ex_acct exTrie_def Let_def decodeAccount_def)
  then show "check_BuyAndMintNFTByExchanger exCrypto2 10 2 9 exOffer 1000000 exState = Some (Inr m)"
    by (simp add: check_BuyAndMintNFTByExchanger_def mintTerms_def exOffer_def exPayload_def exWormholes_def exMint_def ex_fields
        ex_two_keys notExpired_def fail_if_def tr assms)
  show n: "mintedNFT exState = 0" by (simp add: mintedNFT_def exState_def New_def BigToAddress_nat [of 0, simplified])
  have "VoteWeight (acct exState 2) \<noteq> None" by (simp add: ex_acct exTrie_def Let_def decodeAccount_def)
  then show "\<exists>s'. settleMint 1000000 m exState = Some s'"
    using settleMint_succeeds [of exState m 1000000] ex_mint(1) n by (simp add: assms)
qed

theorem mint_offer_replays_witness:
  "\<exists>s' s''. BuyAndMintNFTByExchanger exCrypto2 10 2 9 exOffer 1000000 exState = Some (s', None)
     \<and> BuyAndMintNFTByExchanger exCrypto2 10 2 9 exOffer 1000000 s' = Some (s'', None) \<and> GetBalance 9 s'' = 3000000"
proof -
  define m where "m = \<lparr>ms_buyer = 9, ms_seller = 7, ms_exchanger = 2, ms_royalty = 100, ms_exclusive = True, ms_url = ''/ipfs/y''\<rparr>"
  obtain s' where s': "settleMint 1000000 m exState = Some s'" using ex_mint_offer(2) [OF m_def] by blast
  have h: "BuyAndMintNFTByExchanger exCrypto2 10 2 9 exOffer 1000000 exState = Some (s', None)"
    using s' ex_mint_offer(1) [OF m_def] by (simp add: BuyAndMintNFTByExchanger_def handler_ok)
  have b: "GetBalance 9 exState = 5000000" "GetExchangerFlag 2 exState"
    by (simp_all add: getter_acct ex_acct exTrie_def Let_def decodeAccount_def)
  have n: "mintedNFT s' = 1"
    using settleMint_counts [OF s' ex_mint(1)] BigToAddress_nat [of 1] by (simp add: mintedNFT_def exState_def New_def)
  have "GetBalance 9 s' = 4000000" using settleMint_money(1) [OF s', of 9] b by (simp add: m_def)
  moreover have "GetExchangerFlag 2 s'" using settleMint_flag [OF s', of 2] b ex_mint_offer(3) [OF m_def] by simp
  moreover have "\<not> IsOfficialNFT 1" by (simp add: IsOfficialNFT_def Address_Bytes_def)
  moreover have "signed exCrypto2 (seller2Msg (w_Seller2 exOffer)) (m_Sig (w_Seller2 exOffer)) 7"
    by (simp add: signed_def exOffer_def exWormholes_def exMint_def ex_two_keys)
  ultimately show ?thesis
    using h mint_offer_replays [OF h, of 7] b n by auto
qed


text \<open>C38: An exchanger that matches two offers compares the addresses of the NFT and not the merge
  levels: the offers of a buyer for a merged NFT and for the one part at the same address are interchangeable. With
  the same signer and otherwise the same terms the transaction does exactly the same, so a buyer who
  signed for the merged NFT pays the price for the part the seller offers.\<close>

theorem match_ignores_buyer_level:
  assumes "GetNftAddressAndLevel (p_NFTAddress b) = Inr (nft, l)" and "GetNftAddressAndLevel (p_NFTAddress b') = Inr (nft, l')"
    and "recoverAddress C (seller1Msg b') (p_Sig b') = recoverAddress C (seller1Msg b) (p_Sig b)"
    and "p_Amount b' = p_Amount b" and "p_Exchanger b' = p_Exchanger b" and "p_BlockNumber b' = p_BlockNumber b"
  shows "BuyNFTByExchanger C bn caller recipient (w\<lparr>w_Buyer := b'\<rparr>) v s = BuyNFTByExchanger C bn caller recipient (w\<lparr>w_Buyer := b\<rparr>) v s"
proof -
  have r: "w_Buyer (w\<lparr>w_Buyer := x\<rparr>) = x" "w_Seller1 (w\<lparr>w_Buyer := x\<rparr>) = w_Seller1 w" for x by simp_all
  show ?thesis
    unfolding BuyNFTByExchanger_def check_BuyNFTByExchanger_def Let_def r assms(3-6) by (simp add: assms(1,2))
qed


text \<open>An NFT at address 16, the first of the sixteen parts of the merged one named by leaving out the last digit.\<close>

definition exPart :: string where
  "exPart = ''0x'' @ replicate 38 (CHR ''0'') @ ''10''"

definition exMerged :: string where
  "exMerged = ''0x'' @ replicate 38 (CHR ''0'') @ ''1''"

definition exState16 :: StateDB where
  "exState16 = New (exTrie(16 \<mapsto> the (exTrie 1))) (\<lambda>_ _. 0) (\<lambda>_. []) (\<lambda>_. 0)"

lemma ex_levels: "GetNftAddressAndLevel exPart = Inr (16, 0)" "GetNftAddressAndLevel exMerged = Inr (16, 1)"
proof -
  have "Hex2Bytes (replicate 38 (CHR ''0'') @ ''10'') = replicate 19 0 @ [16]"
    using DecodeString_zeros [of 19 "''10''"] by (simp add: Hex2Bytes_def fromHexChar_def)
  then have h: "HexToAddress exPart = 16"
    by (simp add: HexToAddress_def FromHex_def exPart_def has0xPrefix_def BytesToAddress_def bytes_value_zeros)
      (simp add: bytes_value_def)
  then show "GetNftAddressAndLevel exPart = Inr (16, 0)"
    by (simp add: GetNftAddressAndLevel_def is0x_def HasPrefix_def) (simp add: exPart_def)
  have "exMerged @ ''0'' = exPart" "length exMerged = 41" "is0x exMerged"
    by (simp_all add: exMerged_def exPart_def is0x_def HasPrefix_def)
  with h show "GetNftAddressAndLevel exMerged = Inr (16, 1)"
    by (simp add: GetNftAddressAndLevel_def)
qed

lemma ex_match:
  "\<exists>s'. BuyNFTByExchanger exCrypto2 10 2 9 (exOffer\<lparr>w_Seller1 := exPayload\<lparr>p_NFTAddress := exPart\<rparr>,
      w_Buyer := exPayload\<lparr>p_NFTAddress := exPart, p_Sig := exSig2\<rparr>\<rparr>) 1000000 exState16 = Some (s', None)"
proof -
  let ?w = "exOffer\<lparr>w_Seller1 := exPayload\<lparr>p_NFTAddress := exPart\<rparr>, w_Buyer := exPayload\<lparr>p_NFTAddress := exPart, p_Sig := exSig2\<rparr>\<rparr>"
  let ?sl = "\<lparr>sl_buyer = 9, sl_owner = 7, sl_exchanger = 2, sl_nft = 16, sl_level = 0\<rparr>"
  have a: "acct exState16 16 = decodeAccount (the (exTrie 1))" "acct exState16 2 = decodeAccount (the (exTrie 2))"
    "acct exState16 9 = decodeAccount (the (exTrie 9))"
    by (auto simp: acct_def exState16_def New_def getStateObject_def getDeletedStateObject_def exTrie_def Let_def newObject_def)
  have o: "GetNFTOwner16 16 exState16 = 7"
    by (simp add: GetNFTOwner16_def GetNFTStoreAddress16.simps QUERYDEPTHLIMIT16_def exState16_def New_def getStateObject_def
      getDeletedStateObject_def exTrie_def Let_def newObject_def decodeAccount_def noNFT_def)
  have "GetBalance 9 exState16 = 5000000" "GetNFTExchanger 16 exState16 = 0"
    by (simp_all add: getter_acct a exTrie_def Let_def decodeAccount_def noNFT_def)
  then have c: "check_BuyNFTByExchanger exCrypto2 10 2 9 ?w 1000000 exState16 = Some (Inr ?sl)"
    by (simp add: check_BuyNFTByExchanger_def exPayload_def ex_fields ex_two_keys ex_levels o notExpired_def fail_if_def)
  have "\<not> IsOfficialNFT 16" "VoteWeight (acct exState16 2) \<noteq> None"
    by (simp_all add: IsOfficialNFT_def Address_Bytes_def a exTrie_def Let_def decodeAccount_def)
  then show ?thesis
    using settleSale_succeeds [of exState16 ?sl 1000000] by (simp add: BuyNFTByExchanger_def handler_ok c)
qed

theorem match_ignores_buyer_level_witness:
  "\<exists>s'. BuyNFTByExchanger exCrypto2 10 2 9 (exOffer\<lparr>w_Seller1 := exPayload\<lparr>p_NFTAddress := exPart\<rparr>,
      w_Buyer := exPayload\<lparr>p_NFTAddress := exMerged, p_Sig := exSig2\<rparr>\<rparr>) 1000000 exState16 = Some (s', None)"
  using ex_match match_ignores_buyer_level [of "exPayload\<lparr>p_NFTAddress := exPart, p_Sig := exSig2\<rparr>" 16 0
      "exPayload\<lparr>p_NFTAddress := exMerged, p_Sig := exSig2\<rparr>" 1 exCrypto2 10 2 9 "exOffer\<lparr>w_Seller1 := exPayload\<lparr>p_NFTAddress := exPart\<rparr>\<rparr>" 1000000 exState16]
  by (simp add: ex_levels ex_two_keys)


end
