(* ===== verification/StateOps.thy ===== *)
theory StateOps
  imports Accounts
begin

text \<open>
  All journaled operations of the state database as one datatype, and call frames over them:
  a frame is an operation, a call that succeeds, or a call that fails and is reverted, nested
  to any depth. Every frame is undone by the journal, so a revert to the snapshot taken before
  any of them succeeds and restores every account, and only the pools keep what was done.
\<close>

section \<open>Definitions\<close>

datatype (plugins only: size) stateOp =
    opCreateAccount address
  | opAddBalance address int
  | opSubBalance address int
  | opSetBalance address int
  | opSetNonce address u64
  | opSetCode address string
  | opSetState address hash hash
  | opSuicide address
  | opAddLog Log
  | opAddPreimage hash string
  | opAddRefund u64
  | opSubRefund u64
  | opAddAddressToAccessList address
  | opAddSlotToAccessList address hash
  | opChangeNFTOwner address address nat
  | opSplitNFT16 address nat
  | opSplitNFT address nat
  | opMergeNFT16 address
  | opMergeNFT address
  | opInjectOfficialNFT string "int option" u64 u32 string
  | opCreateNFTByOfficial "address list" int
  | opCreateNFTByOfficial16 "address list" int
  | opCreateNFTByUser address address u32 string
  | opChangeApproveAddress address address
  | opCancelApproveAddress address address
  | opChangeNFTApproveAddress address address
  | opCancelNFTApproveAddress address address
  | opExchangeNFTToCurrency address address int nat
  | opPledgeToken address int
  | opCancelPledgedToken address int
  | opAddOrUpdateActiveMiner address int u64
  | opOpenExchanger address int int u32 string string
  | opCloseExchanger address int
  | opAddExchangerToken address int
  | opSubExchangerToken address int
  | opVoteOfficialNFT NominatedOfficialNFT
  | opElectNominatedOfficialNFT
  | opAddVoteWeight address int
  | opSubVoteWeight address int

fun run :: "stateOp \<Rightarrow> StateDB \<Rightarrow> StateDB panics" where
  "run (opCreateAccount a) s = Some (CreateAccount a s)"
| "run (opAddBalance a v) s = Some (AddBalance a v s)"
| "run (opSubBalance a v) s = Some (SubBalance a v s)"
| "run (opSetBalance a v) s = Some (SetBalance a v s)"
| "run (opSetNonce a n) s = Some (SetNonce a n s)"
| "run (opSetCode a c) s = Some (SetCode a c s)"
| "run (opSetState a k v) s = Some (SetState a k v s)"
| "run (opSuicide a) s = Some (fst (Suicide a s))"
| "run (opAddLog l) s = Some (AddLog l s)"
| "run (opAddPreimage h p) s = Some (AddPreimage h p s)"
| "run (opAddRefund g) s = Some (AddRefund g s)"
| "run (opSubRefund g) s = SubRefund g s"
| "run (opAddAddressToAccessList a) s = Some (AddAddressToAccessList a s)"
| "run (opAddSlotToAccessList a k) s = AddSlotToAccessList a k s"
| "run (opChangeNFTOwner a w level) s = ChangeNFTOwner a w level s"
| "run (opSplitNFT16 a level) s = SplitNFT16 a level s"
| "run (opSplitNFT a level) s = SplitNFT a level s"
| "run (opMergeNFT16 a) s = MergeNFT16 a s"
| "run (opMergeNFT a) s = MergeNFT a s"
| "run (opInjectOfficialNFT d st n r c) s = InjectOfficialNFT d st n r c s"
| "run (opCreateNFTByOfficial ws bn) s = CreateNFTByOfficial ws bn s"
| "run (opCreateNFTByOfficial16 ws bn) s = CreateNFTByOfficial16 ws bn s"
| "run (opCreateNFTByUser ex w r u) s = Some (fst (CreateNFTByUser ex w r u s))"
| "run (opChangeApproveAddress a w) s = Some (ChangeApproveAddress a w s)"
| "run (opCancelApproveAddress a w) s = Some (CancelApproveAddress a w s)"
| "run (opChangeNFTApproveAddress a w) s = Some (ChangeNFTApproveAddress a w s)"
| "run (opCancelNFTApproveAddress a w) s = Some (CancelNFTApproveAddress a w s)"
| "run (opExchangeNFTToCurrency a nft bn level) s = ExchangeNFTToCurrency a nft bn level s"
| "run (opPledgeToken a v) s = Some (PledgeToken a v s)"
| "run (opCancelPledgedToken a v) s = CancelPledgedToken a v s"
| "run (opAddOrUpdateActiveMiner a b h) s = Some (AddOrUpdateActiveMiner a b h s)"
| "run (opOpenExchanger a v bn r n u) s = Some (OpenExchanger a v bn r n u s)"
| "run (opCloseExchanger a bn) s = CloseExchanger a bn s"
| "run (opAddExchangerToken a v) s = AddExchangerToken a v s"
| "run (opSubExchangerToken a v) s = SubExchangerToken a v s"
| "run (opVoteOfficialNFT n) s = Some (VoteOfficialNFT n s)"
| "run opElectNominatedOfficialNFT s = ElectNominatedOfficialNFT s"
| "run (opAddVoteWeight a v) s = AddVoteWeight a v s"
| "run (opSubVoteWeight a v) s = SubVoteWeight a v s"

text \<open>A call takes a snapshot and runs its body; when it fails it reverts to the snapshot.\<close>

datatype frame = Do stateOp | CallOk "frame list" | CallFail "frame list"

fun exec :: "frame \<Rightarrow> StateDB \<Rightarrow> StateDB panics"
  and execs :: "frame list \<Rightarrow> StateDB \<Rightarrow> StateDB panics" where
  "exec (Do p) s = run p s"
| "exec (CallOk fs) s = execs fs (fst (Snapshot s))"
| "exec (CallFail fs) s = Option.bind (execs fs (fst (Snapshot s))) (RevertToSnapshot (snd (Snapshot s)))"
| "execs [] s = Some s"
| "execs (f # fs) s = Option.bind (exec f s) (execs fs)"

text \<open>The observable state without the bookkeeping of revisions.\<close>

definition core :: "StateDB \<Rightarrow> StateDB" where
  "core s = (view s)\<lparr>validRevisions := [], nextRevisionId := 0\<rparr>"

text \<open>What a frame owes: it appends entries to the journal whose undoing restores what was
  observable, and only appends revisions.\<close>

definition framed :: "(StateDB \<Rightarrow> StateDB panics) \<Rightarrow> bool" where
  "framed f \<longleftrightarrow> (\<forall>s s'. wf_state s \<longrightarrow> f s = Some s' \<longrightarrow>
     wf_state s' \<and> nextRevisionId s \<le> nextRevisionId s' \<and> (\<exists>vr. validRevisions s' = validRevisions s @ vr)
     \<and> (\<exists>es t. entries s' = entries s @ es \<and> for_each revert_one (rev es) s' = Some t \<and> core t = core s))"

section \<open>Lemmas\<close>

lemma run_undoable: "journal.undoable (run p)"
proof -
  have eta: "journal.undoable (\<lambda>s. run p s)"
    by (cases p; simp only: run.simps; rule undo_intros undo_CreateAccount)
  then show ?thesis by simp
qed

subsection \<open>The journal without the revisions\<close>

lemma core_eq_iff: "core s = core t \<longleftrightarrow> view s = view (t\<lparr>validRevisions := validRevisions s, nextRevisionId := nextRevisionId s\<rparr>)"
proof
  assume c: "core s = core t"
  have "view s = (core s)\<lparr>validRevisions := validRevisions s, nextRevisionId := nextRevisionId s\<rparr>"
    by (simp add: core_def view_def)
  also have "\<dots> = view (t\<lparr>validRevisions := validRevisions s, nextRevisionId := nextRevisionId s\<rparr>)"
    unfolding c by (simp add: core_def view_def getDeletedStateObject_simps)
  finally show "view s = view (t\<lparr>validRevisions := validRevisions s, nextRevisionId := nextRevisionId s\<rparr>)" .
next
  assume v: "view s = view (t\<lparr>validRevisions := validRevisions s, nextRevisionId := nextRevisionId s\<rparr>)"
  show "core s = core t"
    unfolding core_def v by (simp add: view_def getDeletedStateObject_simps)
qed

lemma view_core: "view s = view t \<Longrightarrow> core s = core t"
  by (simp add: core_def)

lemma revert_revisions:
  "revert e (s\<lparr>validRevisions := vr, nextRevisionId := n\<rparr>) = map_option (\<lambda>t. t\<lparr>validRevisions := vr, nextRevisionId := n\<rparr>) (revert e s)"
proof -
  have g: "getDeletedStateObject (s\<lparr>validRevisions := vr, nextRevisionId := n\<rparr>) = getDeletedStateObject s"
    by (simp add: fun_eq_iff getDeletedStateObject_simps)
  have "getStateObject (s\<lparr>validRevisions := vr, nextRevisionId := n\<rparr>) = getStateObject s"
    "deref (s\<lparr>validRevisions := vr, nextRevisionId := n\<rparr>) = deref s"
    by (simp_all add: fun_eq_iff getStateObject_def deref_def g split: option.split)
  then have "on_object a f (s\<lparr>validRevisions := vr, nextRevisionId := n\<rparr>)
      = map_option (\<lambda>t. t\<lparr>validRevisions := vr, nextRevisionId := n\<rparr>) (on_object a f s)"
    "modify a f (s\<lparr>validRevisions := vr, nextRevisionId := n\<rparr>) = (modify a f s)\<lparr>validRevisions := vr, nextRevisionId := n\<rparr>"
    "getStateObject (s\<lparr>validRevisions := vr, nextRevisionId := n\<rparr>) = getStateObject s" for a f
    by (simp_all add: on_object_def modify_def split: option.split)
  then show ?thesis
    by (cases e) (simp_all add: setStateObject_def split: option.split Option.bind_split)
qed

lemma revert_one_revisions:
  "revert_one e (s\<lparr>validRevisions := vr, nextRevisionId := n\<rparr>) = map_option (\<lambda>t. t\<lparr>validRevisions := vr, nextRevisionId := n\<rparr>) (revert_one e s)"
  by (cases "revert e s") (simp_all add: revert_one_def revert_revisions split: option.split)

text \<open>The journal is an undo log for the state without the revisions too.\<close>

interpretation frames: undo_log revert_one entries core "\<lambda>_. True"
proof
  fix s t s' e assume c: "core s = core t" and s': "revert_one e s = Some s'"
  let ?t = "t\<lparr>validRevisions := validRevisions s, nextRevisionId := nextRevisionId s\<rparr>"
  obtain u where u: "revert_one e ?t = Some u" "view u = view s'"
    using journal.rev1_view [OF c [unfolded core_eq_iff] s'] by blast
  then obtain t' where "revert_one e t = Some t'" "u = t'\<lparr>validRevisions := validRevisions s, nextRevisionId := nextRevisionId s\<rparr>"
    unfolding revert_one_revisions by auto
  moreover have "core (t'\<lparr>validRevisions := vr, nextRevisionId := n\<rparr>) = core t'" for t' vr n
    by (simp add: core_def view_def getDeletedStateObject_simps)
  ultimately show "\<exists>t'. revert_one e t = Some t' \<and> core t' = core s'"
    using view_core [OF u(2)] by metis
qed

subsection \<open>Frames\<close>

lemma revert_one_next: "revert_one e s = Some t \<Longrightarrow> nextRevisionId t = nextRevisionId s"
proof -
  have "revert e s = Some u \<Longrightarrow> nextRevisionId u = nextRevisionId s" for u
    by (cases e) (auto simp: on_object_def modify_def setStateObject_def bind_Some_iff split: option.splits if_splits)
  then show "revert_one e s = Some t \<Longrightarrow> nextRevisionId t = nextRevisionId s"
    by (auto simp: revert_one_def bind_Some_iff split: option.splits)
qed

lemma undo_next: "for_each revert_one es s = Some t \<Longrightarrow> nextRevisionId t = nextRevisionId s"
  by (induction es arbitrary: s) (auto simp: bind_Some_iff dest!: revert_one_next)

lemma find_first_append: "find_first P xs = Some r \<Longrightarrow> find_first P (xs @ ys) = Some r"
  by (induction xs arbitrary: r) (auto split: if_splits)

lemma framedI:
  assumes "\<And>s s'. wf_state s \<Longrightarrow> f s = Some s' \<Longrightarrow>
     wf_state s' \<and> nextRevisionId s \<le> nextRevisionId s' \<and> (\<exists>vr. validRevisions s' = validRevisions s @ vr)
     \<and> (\<exists>es t. entries s' = entries s @ es \<and> for_each revert_one (rev es) s' = Some t \<and> core t = core s)"
  shows "framed f"
  using assms unfolding framed_def by blast

lemma framedE:
  assumes "framed f" and "wf_state s" and "f s = Some s'"
  obtains vr es t where "wf_state s'" "nextRevisionId s \<le> nextRevisionId s'" "validRevisions s' = validRevisions s @ vr"
    "entries s' = entries s @ es" "for_each revert_one (rev es) s' = Some t" "core t = core s"
  using assms unfolding framed_def by blast

lemma undoable_framed: "journal.undoable f \<Longrightarrow> framed f"
proof (rule framedI)
  fix s s' assume u: "journal.undoable f" and wf: "wf_state s" and f: "f s = Some s'"
  obtain es t where es: "wf_state s'" "entries s' = entries s @ es" "for_each revert_one (rev es) s' = Some t" "view t = view s"
    using journal.undoableD [OF u wf [unfolded wf_state_def] f] unfolding wf_state_def by blast
  have "nextRevisionId t = nextRevisionId s'" by (rule undo_next [OF es(3)])
  then have n: "nextRevisionId s \<le> nextRevisionId s'" and v: "\<exists>vr. validRevisions s' = validRevisions s @ vr"
    using undo_frame [OF es(3)] es(4) by (simp_all add: view_eq_iff)
  show "wf_state s' \<and> nextRevisionId s \<le> nextRevisionId s' \<and> (\<exists>vr. validRevisions s' = validRevisions s @ vr)
     \<and> (\<exists>es t. entries s' = entries s @ es \<and> for_each revert_one (rev es) s' = Some t \<and> core t = core s)"
    using es(1-3) n v view_core [OF es(4)] by blast
qed

lemma framed_Some: "framed Some"
proof (rule framedI)
  fix s s' :: StateDB assume "wf_state s" "Some s = Some s'"
  moreover have "for_each revert_one (rev []) s = Some s" "validRevisions s = validRevisions s @ []" "entries s = entries s @ []"
    by simp_all
  ultimately show "wf_state s' \<and> nextRevisionId s \<le> nextRevisionId s' \<and> (\<exists>vr. validRevisions s' = validRevisions s @ vr)
     \<and> (\<exists>es t. entries s' = entries s @ es \<and> for_each revert_one (rev es) s' = Some t \<and> core t = core s)"
    by blast
qed

lemma framed_bind:
  assumes "framed f" and "framed g"
  shows "framed (\<lambda>s. Option.bind (f s) g)"
proof (rule framedI)
  fix s s'' assume wf: "wf_state s" and "Option.bind (f s) g = Some s''"
  then obtain s' where f: "f s = Some s'" and g: "g s' = Some s''" by (auto simp: bind_Some_iff)
  from framedE [OF assms(1) wf f] obtain vr es t where 1: "wf_state s'" "nextRevisionId s \<le> nextRevisionId s'"
    "validRevisions s' = validRevisions s @ vr" "entries s' = entries s @ es" "for_each revert_one (rev es) s' = Some t"
    "core t = core s" .
  from framedE [OF assms(2) 1(1) g] obtain vr' es' t' where 2: "wf_state s''" "nextRevisionId s' \<le> nextRevisionId s''"
    "validRevisions s'' = validRevisions s' @ vr'" "entries s'' = entries s' @ es'"
    "for_each revert_one (rev es') s'' = Some t'" "core t' = core s'" .
  obtain t'' where 3: "for_each revert_one (rev es) t' = Some t''" "core t'' = core t"
    using frames.undo_view [OF 2(6) [symmetric] 1(5)] by blast
  have e: "for_each revert_one (rev (es @ es')) s'' = Some t''" "entries s'' = entries s @ (es @ es')" "core t'' = core s"
    using 1(4,6) 2(4,5) 3 by (simp_all add: for_each_append)
  have v: "nextRevisionId s \<le> nextRevisionId s''" "validRevisions s'' = validRevisions s @ (vr @ vr')"
    using 1(2,3) 2(2,3) by simp_all
  show "wf_state s'' \<and> nextRevisionId s \<le> nextRevisionId s'' \<and> (\<exists>vr. validRevisions s'' = validRevisions s @ vr)
     \<and> (\<exists>es t. entries s'' = entries s @ es \<and> for_each revert_one (rev es) s'' = Some t \<and> core t = core s)"
    using 2(1) e v by blast
qed

lemma Snapshot_fields:
  "validRevisions (fst (Snapshot s)) = validRevisions s @ [(nextRevisionId s, length (entries s))]"
  "nextRevisionId (fst (Snapshot s)) = nextRevisionId s + 1" "entries (fst (Snapshot s)) = entries s"
  "core (fst (Snapshot s)) = core s" "snd (Snapshot s) = nextRevisionId s"
  by (simp_all add: Snapshot_def Let_def core_def view_def getDeletedStateObject_simps)

lemma framed_Snapshot: "framed (\<lambda>s. Some (fst (Snapshot s)))"
proof (rule framedI)
  fix s s' assume "wf_state s" "Some (fst (Snapshot s)) = Some s'"
  then have "wf_state s'" "nextRevisionId s \<le> nextRevisionId s'" "core s' = core s" "entries s' = entries s @ []"
    "validRevisions s' = validRevisions s @ [(nextRevisionId s, length (entries s))]"
    by (auto simp: Snapshot_fields Snapshot_wf)
  moreover have "for_each revert_one (rev []) s' = Some s'" by simp
  ultimately show "wf_state s' \<and> nextRevisionId s \<le> nextRevisionId s' \<and> (\<exists>vr. validRevisions s' = validRevisions s @ vr)
     \<and> (\<exists>es t. entries s' = entries s @ es \<and> for_each revert_one (rev es) s' = Some t \<and> core t = core s)"
    by blast
qed

text \<open>Reverting to a snapshot after anything framed.\<close>

lemma revert_framed:
  assumes "framed f" and wf: "wf_state s" and f: "f (fst (Snapshot s)) = Some s'"
  shows "\<exists>t. RevertToSnapshot (snd (Snapshot s)) s' = Some t \<and> core t = core s \<and> entries t = entries s
     \<and> validRevisions t = validRevisions s \<and> nextRevisionId s \<le> nextRevisionId t \<and> pools t = pools s'"
proof -
  let ?n = "nextRevisionId s"
  from framedE [OF assms(1) Snapshot_wf [OF wf] f] obtain vr es u where 1:
    "nextRevisionId (fst (Snapshot s)) \<le> nextRevisionId s'"
    "validRevisions s' = validRevisions (fst (Snapshot s)) @ vr" "entries s' = entries (fst (Snapshot s)) @ es"
    "for_each revert_one (rev es) s' = Some u" "core u = core (fst (Snapshot s))" .
  note fr = undo_frame [OF 1(4)]
  have vr: "validRevisions s' = (validRevisions s @ [(?n, length (entries s))]) @ vr" using 1(2) by (simp add: Snapshot_fields)
  have "\<forall>r \<in> set (validRevisions s). \<not> fst r \<ge> ?n" using wf by (auto simp: wf_state_iff revs_ok_def)
  then have "find_first (\<lambda>r. fst r \<ge> ?n) (validRevisions s @ [(?n, length (entries s))])
      = Some (length (validRevisions s), (?n, length (entries s)))"
    by (rule find_first_append_last) simp
  then have ff: "find_first (\<lambda>r. fst r \<ge> ?n) (validRevisions s') = Some (length (validRevisions s), (?n, length (entries s)))"
    unfolding vr by (rule find_first_append)
  have "entries s' = entries s @ es" using 1(3) by (simp add: Snapshot_fields)
  then have "RevertToSnapshot ?n s' = Some (u\<lparr>entries := entries s, validRevisions := validRevisions s\<rparr>)"
    using 1(4) ff vr fr by (simp add: RevertToSnapshot_def journal_revert_def)
  moreover have "core (u\<lparr>entries := entries s, validRevisions := validRevisions s\<rparr>) = core s"
    using 1(5) by (simp add: Snapshot_fields) (simp add: core_def view_def getDeletedStateObject_simps)
  moreover have "nextRevisionId u = nextRevisionId s'" using undo_next [OF 1(4)] .
  ultimately show ?thesis
    using fr 1(1) by (auto simp: Snapshot_fields pools_def)
qed

lemma wf_core:
  assumes "core t = core s" and "wf_state s" and "revs_ok (validRevisions t) (nextRevisionId t)"
  shows "wf_state t"
proof -
  have "view t = (view s)\<lparr>validRevisions := validRevisions t, nextRevisionId := nextRevisionId t\<rparr>"
    using assms(1) by (simp add: core_eq_iff) (simp add: view_def getDeletedStateObject_simps)
  then show ?thesis using assms(2,3) by (simp add: wf_state_def view_ok_def)
qed

lemma revs_ok_mono: "revs_ok vr n \<Longrightarrow> n \<le> m \<Longrightarrow> revs_ok vr m"
  by (auto simp: revs_ok_def)

lemma framed_CallFail:
  assumes "framed f"
  shows "framed (\<lambda>s. Option.bind (f (fst (Snapshot s))) (RevertToSnapshot (snd (Snapshot s))))"
proof (rule framedI)
  fix s t assume wf: "wf_state s" and "Option.bind (f (fst (Snapshot s))) (RevertToSnapshot (snd (Snapshot s))) = Some t"
  then obtain s' where s': "f (fst (Snapshot s)) = Some s'" "RevertToSnapshot (snd (Snapshot s)) s' = Some t"
    by (auto simp: bind_Some_iff)
  then have t: "core t = core s" "entries t = entries s @ []" "validRevisions t = validRevisions s @ []"
    "nextRevisionId s \<le> nextRevisionId t"
    using revert_framed [OF assms wf s'(1)] by auto
  moreover have "wf_state t"
    using wf_core [OF t(1) wf] t(3) revs_ok_mono [OF _ t(4)] wf by (simp add: wf_state_iff)
  moreover have "for_each revert_one (rev []) t = Some t" by simp
  ultimately show "wf_state t \<and> nextRevisionId s \<le> nextRevisionId t \<and> (\<exists>vr. validRevisions t = validRevisions s @ vr)
     \<and> (\<exists>es u. entries t = entries s @ es \<and> for_each revert_one (rev es) t = Some u \<and> core u = core s)"
    by blast
qed

lemma exec_framed: "framed (exec f)"
proof (induction f)
  have list: "framed (execs fs)" if "\<And>g. g \<in> set fs \<Longrightarrow> framed (exec g)" for fs
    using that
  proof (induction fs)
    case Nil
    have "execs [] = Some" by (simp add: fun_eq_iff)
    then show ?case using framed_Some by simp
  next
    case (Cons g fs)
    have "execs (g # fs) = (\<lambda>s. Option.bind (exec g s) (execs fs))" by (simp add: fun_eq_iff)
    then show ?case using framed_bind [of "exec g" "execs fs"] Cons by simp
  qed
  {
    case (Do p)
    have "exec (Do p) = run p" by (simp add: fun_eq_iff)
    then show ?case using undoable_framed [OF run_undoable] by simp
  next
    case (CallOk fs)
    have "exec (CallOk fs) = (\<lambda>s. Option.bind (Some (fst (Snapshot s))) (execs fs))" by (simp add: fun_eq_iff)
    then show ?case using framed_bind [OF framed_Snapshot list [OF CallOk]] by simp
  next
    case (CallFail fs)
    have "exec (CallFail fs) = (\<lambda>s. Option.bind (execs fs (fst (Snapshot s))) (RevertToSnapshot (snd (Snapshot s))))"
      by (simp add: fun_eq_iff)
    then show ?case using framed_CallFail [OF list [OF CallFail]] by simp
  }
qed

lemma execs_framed: "framed (execs fs)"
proof (induction fs)
  case Nil
  have "execs [] = Some" by (simp add: fun_eq_iff)
  then show ?case using framed_Some by simp
next
  case (Cons g fs)
  have "execs (g # fs) = (\<lambda>s. Option.bind (exec g s) (execs fs))" by (simp add: fun_eq_iff)
  then show ?case using framed_bind [OF exec_framed Cons] by simp
qed

lemma framed_wf: "framed f \<Longrightarrow> wf_state s \<Longrightarrow> f s = Some s' \<Longrightarrow> wf_state s'"
  by (auto simp: framed_def)

lemma framed_for_each: "(\<And>x. x \<in> set xs \<Longrightarrow> framed (f x)) \<Longrightarrow> framed (for_each f xs)"
proof (induction xs)
  case Nil
  have "for_each f [] = Some" by (simp add: fun_eq_iff)
  then show ?case using framed_Some by simp
next
  case (Cons x xs)
  have "for_each f (x # xs) = (\<lambda>s. Option.bind (f x s) (for_each f xs))" by (simp add: fun_eq_iff)
  then show ?case using framed_bind [of "f x" "for_each f xs"] Cons by simp
qed

section \<open>Reachable states\<close>

text \<open>The states a block goes through: opened on a trie, then transactions made of frames, with
  the preparation before and the finalisation after each.\<close>

inductive reach :: "StateDB \<Rightarrow> bool" where
  reach_New: "reach (New tr st c k)"
| reach_exec: "reach s \<Longrightarrow> exec f s = Some s' \<Longrightarrow> reach s'"
| reach_Snapshot: "reach s \<Longrightarrow> reach (fst (Snapshot s))"
| reach_Prepare: "reach s \<Longrightarrow> reach (Prepare h i s)"
| reach_PrepareAccessList: "reach s \<Longrightarrow> PrepareAccessList sender dst pre al s = Some s' \<Longrightarrow> reach s'"
| reach_Finalise: "reach s \<Longrightarrow> reach (Finalise d s)"


lemma wf_New: "wf_state (New tr st c k)"
  by (auto simp: wf_state_iff New_def getDeletedStateObject_def newObject_def obj_ok_def al_ok_new revs_ok_def split: option.splits)

lemma wf_Prepare: "wf_state s \<Longrightarrow> wf_state (Prepare h i s)"
  by (auto simp: wf_state_iff Prepare_def getDeletedStateObject_def al_ok_new split: option.splits)


lemma wf_Finalise: "wf_state s \<Longrightarrow> wf_state (Finalise d s)"
proof -
  assume wf: "wf_state s"
  have "obj_ok a ob'" if "getDeletedStateObject (Finalise d s) a = Some ob'" for a ob'
  proof -
    have "\<exists>ob. getDeletedStateObject s a = Some ob \<and> obj_address ob' = obj_address ob \<and> fakeStorage ob' = fakeStorage ob"
      using that by (auto simp: getDeletedStateObject_def Finalise_def clearJournalAndRefund_def Let_def obj_finalise_def
          split: option.splits if_splits)
    then show ?thesis using wf_objD [OF wf] by (auto simp: obj_ok_def)
  qed
  moreover have "accessLst (Finalise d s) = accessLst s" "validRevisions (Finalise d s) = []"
    by (simp_all add: Finalise_def clearJournalAndRefund_def Let_def)
  ultimately show ?thesis using wf by (simp add: wf_state_iff revs_ok_def)
qed


lemma undo_fold:
  assumes "\<And>x. journal.undoable (\<lambda>s. Some (g x s))"
  shows "journal.undoable (\<lambda>s. Some (fold g xs s))"
proof -
  have "for_each (\<lambda>x s. Some (g x s)) xs s = Some (fold g xs s)" for s
    by (induction xs arbitrary: s) simp_all
  then have "for_each (\<lambda>x s. Some (g x s)) xs = (\<lambda>s. Some (fold g xs s))" by (rule ext)
  then show ?thesis using journal.undoable_for_each [of "\<lambda>x s. Some (g x s)" xs] assms by simp
qed

lemma undo_PrepareAccessList: "journal.undoable (PrepareAccessList sender dst pre al)"
proof -
  let ?add = AddAddressToAccessList
  let ?keys = "\<lambda>(a, keys) t. for_each (AddSlotToAccessList a) keys (?add a t)"
  note undo_add = undo_AddAddressToAccessList
  have keys: "journal.undoable (for_each ?keys al)"
  proof (rule journal.undoable_for_each)
    fix x :: "address \<times> hash list"
    have "journal.undoable (\<lambda>t. for_each (AddSlotToAccessList (fst x)) (snd x) (?add (fst x) t))"
      by (rule undo_then [OF undo_add journal.undoable_for_each [OF undo_AddSlotToAccessList]])
    then show "journal.undoable (?keys x)" by (simp add: case_prod_beta')
  qed
  have pre: "journal.undoable (\<lambda>s. for_each ?keys al (fold ?add pre s))"
    by (rule undo_then [OF undo_fold [OF undo_add] keys])
  have dst: "journal.undoable (\<lambda>s. for_each ?keys al (fold ?add pre (case dst of Some d \<Rightarrow> ?add d s | None \<Rightarrow> s)))"
    using pre undo_then [OF undo_add pre] by (cases dst) simp_all
  show ?thesis
    using undo_then [OF undo_add dst, of sender] by (simp add: PrepareAccessList_def [abs_def] Let_def)
qed

lemma wf_PrepareAccessList: "wf_state s \<Longrightarrow> PrepareAccessList sender dst pre al s = Some s' \<Longrightarrow> wf_state s'"
  using framed_wf [OF undoable_framed [OF undo_PrepareAccessList]] by blast


lemma reach_wf: "reach s \<Longrightarrow> wf_state s"
proof (induction rule: reach.induct)
  case (reach_exec s f s')
  then show ?case using framed_wf [OF exec_framed] by blast
qed (simp_all add: wf_New wf_Prepare wf_Finalise wf_PrepareAccessList Snapshot_wf)

section \<open>What a revert restores\<close>

lemma core_fields:
  assumes "core s = core t"
  shows "hasher s = hasher t" "codeDB s = codeDB t" "storageTries s = storageTries t" "refund s = refund t"
    "logs s = logs t" "accessLst s = accessLst t"
    "map_option (normObj (hasher s) (codeDB s) (storageTries s)) (getDeletedStateObject s a)
       = map_option (normObj (hasher s) (codeDB s) (storageTries s)) (getDeletedStateObject t a)"
proof -
  have v: "view s = view (t\<lparr>validRevisions := validRevisions s, nextRevisionId := nextRevisionId s\<rparr>)"
    using assms by (simp add: core_eq_iff)
  show "hasher s = hasher t" "codeDB s = codeDB t" "storageTries s = storageTries t" "refund s = refund t"
    "logs s = logs t" "accessLst s = accessLst t"
    using arg_cong [OF v, of hasher] arg_cong [OF v, of codeDB] arg_cong [OF v, of storageTries]
      arg_cong [OF v, of refund] arg_cong [OF v, of logs] arg_cong [OF v, of accessLst]
    by (simp_all add: view_def)
  then show "map_option (normObj (hasher s) (codeDB s) (storageTries s)) (getDeletedStateObject s a)
       = map_option (normObj (hasher s) (codeDB s) (storageTries s)) (getDeletedStateObject t a)"
    using fun_cong [OF arg_cong [OF v, of stateObjects], of a] by (simp add: view_def getDeletedStateObject_simps)
qed

lemma core_objects:
  assumes "core s = core t"
  shows "rel_option (\<lambda>x y. normObj (hasher s) (codeDB s) (storageTries s) x = normObj (hasher s) (codeDB s) (storageTries s) y)
    (getStateObject s a) (getStateObject t a)"
proof -
  have del: "deleted x = deleted y" if "normObj k c f x = normObj k c f y" for k c f x y
    using arg_cong [OF that, of deleted] by (simp add: normObj_def)
  show ?thesis
    using core_fields(7) [OF assms, of a]
    by (cases "getDeletedStateObject s a"; cases "getDeletedStateObject t a")
      (auto simp: getStateObject_def dest: del)
qed

lemma core_nodes:
  assumes "core s = core t"
  shows "nodes s = nodes t"
proof (rule ext)
  fix a
  show "nodes s a = nodes t a"
    using core_objects [OF assms, of a]
    by (cases "getStateObject s a"; cases "getStateObject t a")
      (auto simp: nodes_def normObj_eq_iff normData_eq_iff)
qed

lemma nodes_owner:
  assumes "nodes s = nodes t"
  shows "GetNFTOwner16 a s = GetNFTOwner16 a t"
proof -
  have eq: "(case getStateObject u st of None \<Rightarrow> 0 | Some ob \<Rightarrow> Owner (NFT (data ob)))
      = (case nodes u st of None \<Rightarrow> 0 | Some (w, l) \<Rightarrow> w)" for u st
    by (simp add: nodes_def split: option.split)
  show ?thesis unfolding GetNFTOwner16_def store_search eq assms ..
qed

lemma core_getters:
  assumes "core s = core t"
  shows "GetBalance a s = GetBalance a t" "GetNonce a s = GetNonce a t" "GetCode a s = GetCode a t"
    "GetState a k s = GetState a k t" "Exist a s = Exist a t" "HasSuicided a s = HasSuicided a t"
    "GetNFTOwner16 a s = GetNFTOwner16 a t"
proof -
  note obj = core_objects [OF assms, of a] and flds = core_fields(1-6) [OF assms]
  show "GetBalance a s = GetBalance a t" "GetNonce a s = GetNonce a t" "Exist a s = Exist a t"
    "HasSuicided a s = HasSuicided a t" "GetCode a s = GetCode a t" "GetState a k s = GetState a k t"
    using obj
    by (cases "getStateObject s a"; cases "getStateObject t a";
        auto simp: GetBalance_def GetNonce_def GetCode_def GetState_def Exist_def HasSuicided_def
          normObj_eq_iff normData_eq_iff flds fun_eq_iff)+
  show "GetNFTOwner16 a s = GetNFTOwner16 a t" by (rule nodes_owner [OF core_nodes [OF assms]])
qed

section \<open>Properties\<close>

text \<open>C2: In every reachable state, a call whose body is any sequence of operations of the state
  database and of nested calls, whether these succeed or are reverted themselves, can be
  reverted: the revert to the snapshot taken before the body never panics, balances, nonces,
  code, storage, NFT owners, existence and suicide flags of all accounts, the refund, the logs and the access list are
  those before the call, the journal and the revisions are those before the call, and only the pools
  keep what the body did to them.\<close>

theorem RevertToSnapshot_restores:
  assumes "reach s" and "execs fs (fst (Snapshot s)) = Some s'"
  shows "\<exists>t. RevertToSnapshot (snd (Snapshot s)) s' = Some t
    \<and> (\<forall>a k. GetBalance a t = GetBalance a s \<and> GetNonce a t = GetNonce a s \<and> GetCode a t = GetCode a s
         \<and> GetState a k t = GetState a k s \<and> Exist a t = Exist a s \<and> HasSuicided a t = HasSuicided a s
         \<and> GetNFTOwner16 a t = GetNFTOwner16 a s)
    \<and> GetRefund t = GetRefund s \<and> logs t = logs s \<and> accessLst t = accessLst s
    \<and> entries t = entries s \<and> validRevisions t = validRevisions s \<and> pools t = pools s'"
proof -
  from revert_framed [OF execs_framed reach_wf [OF assms(1)] assms(2)]
  obtain t where t: "RevertToSnapshot (snd (Snapshot s)) s' = Some t" "core t = core s" "entries t = entries s"
    "validRevisions t = validRevisions s" "pools t = pools s'" by blast
  then show ?thesis using core_getters [OF t(2)] core_fields [OF t(2)] by (simp add: GetRefund_def)
qed

theorem RevertToSnapshot_restores_witness:
  "let s = New Map.empty (\<lambda>_ _. 0) (\<lambda>_. []) (\<lambda>_. 0);
       fs = [Do (opAddBalance 1 5), CallOk [Do (opSubBalance 1 2)], CallFail [Do (opAddBalance 1 90)]] in
   \<exists>s' t. execs fs (fst (Snapshot s)) = Some s' \<and> GetBalance 1 s' = 3 \<and> RevertToSnapshot 0 s' = Some t
     \<and> GetBalance 1 t = 0"
proof -
  let ?s = "New Map.empty (\<lambda>_ _. 0) (\<lambda>_. []) (\<lambda>_. 0)"
  let ?u = "SubBalance 1 2 (fst (Snapshot (AddBalance 1 5 (fst (Snapshot ?s)))))"
  let ?fs = "[Do (opAddBalance 1 5), CallOk [Do (opSubBalance 1 2)], CallFail [Do (opAddBalance 1 90)]]"
  have "acct ?s 1 = zeroAccount (\<lambda>_. 0)" by (simp add: acct_def New_def getStateObject_def getDeletedStateObject_def)
  then have b: "GetBalance 1 ?s = 0" "GetBalance 1 ?u = 3" by (simp_all add: getter_acct)
  have e: "exec (Do (opAddBalance 1 5)) (fst (Snapshot ?s)) = Some (AddBalance 1 5 (fst (Snapshot ?s)))"
    "exec (CallOk [Do (opSubBalance 1 2)]) (AddBalance 1 5 (fst (Snapshot ?s))) = Some ?u" by simp_all
  have u: "reach ?u" by (rule reach_exec [OF reach_exec [OF reach_Snapshot [OF reach_New] e(1)] e(2)])
  have inner: "execs [Do (opAddBalance 1 90)] (fst (Snapshot ?u)) = Some (AddBalance 1 90 (fst (Snapshot ?u)))" by simp
  from RevertToSnapshot_restores [OF u inner] obtain s' where "RevertToSnapshot (snd (Snapshot ?u)) (AddBalance 1 90 (fst (Snapshot ?u))) = Some s'" "GetBalance 1 s' = 3"
    unfolding b(2) [symmetric] by blast
  then have s': "execs ?fs (fst (Snapshot ?s)) = Some s'" "GetBalance 1 s' = 3" by simp_all
  have z: "snd (Snapshot ?s) = 0" by (simp add: Snapshot_def New_def)
  obtain t where "RevertToSnapshot 0 s' = Some t" "GetBalance 1 t = 0"
    using RevertToSnapshot_restores [OF reach_New s'(1)] unfolding z b(1) [symmetric] by blast
  then show ?thesis unfolding Let_def using s' by blast
qed

text \<open>The states a block goes through are well formed: from an opened trie, through any operations, calls,
  snapshots, preparations and finalisations, every object is filed under its own address
  without the debugging storage, the access list's slot indices are consistent, and
  the identifiers of the open revisions ascend and lie below the next one.\<close>

theorem reachable_states_well_formed:
  assumes "reach s"
  shows "(\<forall>a ob. getDeletedStateObject s a = Some ob \<longrightarrow> obj_address ob = a \<and> fakeStorage ob = None)
    \<and> al_ok (accessLst s)
    \<and> sorted_wrt (<) (map fst (validRevisions s)) \<and> (\<forall>r \<in> set (validRevisions s). fst r < nextRevisionId s)"
  using reach_wf [OF assms] by (simp add: wf_state_iff obj_ok_def revs_ok_def)

theorem reachable_states_well_formed_witness:
  "let s = fst (Snapshot (AddBalance 7 1 (fst (Snapshot (New Map.empty (\<lambda>_ _. 0) (\<lambda>_. []) (\<lambda>_. 0)))))) in
   length (validRevisions s) = 2 \<and> sorted_wrt (<) (map fst (validRevisions s))"
proof -
  let ?z = "New Map.empty (\<lambda>_ _. 0) (\<lambda>_. []) (\<lambda>_. 0)"
  let ?s = "fst (Snapshot (AddBalance 7 1 (fst (Snapshot ?z))))"
  have e: "exec (Do (opAddBalance 7 1)) (fst (Snapshot ?z)) = Some (AddBalance 7 1 (fst (Snapshot ?z)))" by simp
  have "reach ?s" by (rule reach_Snapshot [OF reach_exec [OF reach_Snapshot [OF reach_New] e]])
  then have "sorted_wrt (<) (map fst (validRevisions ?s))" using reachable_states_well_formed by blast
  moreover have "length (validRevisions ?s) = 2"
    by (simp add: Snapshot_fields New_def AddBalance_def touch_dead o_SetBalance_def modify_def journal_append_def
        GetOrNewStateObject_def createObject_def setStateObject_def Let_def split: option.split)
  ultimately show ?thesis by (simp add: Let_def)
qed

end
