(* ===== verification/Evm.thy ===== *)
theory Evm
  imports Market StateOps
begin

text \<open>
  core/vm/evm.go: the NFT transactions of \<open>HandleNFT\<close>, one definition per transaction type, and \<open>Call\<close>,
  which decodes a payload that starts with \<open>wormholes:\<close>, hands it to \<open>HandleNFT\<close> or transfers
  the value, and then runs the precompiled contract or the code of the recipient.

  The contract interpreter, the precompiled contracts and the JSON decoder are fields of the
  environment: the interpreter is a function on states whose changes the journal can undo.
\<close>

section \<open>Definitions\<close>

subsection \<open>Errors\<close>

definition ErrDepth :: string where "ErrDepth = ''max call depth exceeded''"
definition ErrInsufficientBalance :: string where "ErrInsufficientBalance = ''insufficient balance for transfer''"
definition ErrExecutionReverted :: string where "ErrExecutionReverted = ''execution reverted''"
definition ErrNotOwner :: string where "ErrNotOwner = ''not the owner of the nft''"
definition ErrNotExistNFTType :: string where "ErrNotExistNFTType = ''not exist nft type''"
definition ErrInsufficientPledgedBalance :: string where "ErrInsufficientPledgedBalance = ''not sufficient pledged balance''"
definition ErrStartIndex :: string where "ErrStartIndex = ''StartIndex is not string of 0x!''"
definition ErrNotExchanger :: string where "ErrNotExchanger = ''not exchanger''"
definition ErrWormholesFormat :: string where "ErrWormholesFormat = ''wormholes format error, can't unmarshal''"
definition ErrInsufficientExchangerBalance :: string where "ErrInsufficientExchangerBalance = ''insufficient exchanger balance for transfer''"
definition ErrNotMoreThan100ERB :: string where "ErrNotMoreThan100ERB = ''not more than 100 ERB''"
definition ErrTooCloseWithOpenExchanger :: string where "ErrTooCloseWithOpenExchanger = ''too close with openexchanger''"
definition ErrRoyaltyNotMoreThan0 :: string where "ErrRoyaltyNotMoreThan0 = ''royalty not more than 0''"
definition ErrRoyaltyNotLessthan10000 :: string where "ErrRoyaltyNotLessthan10000 = ''royalty not less than 10000''"
definition ErrFeeRateNotMoreThan0 :: string where "ErrFeeRateNotMoreThan0 = ''feerate not more than 0''"
definition ErrFeeRateNotLessThan10000 :: string where "ErrFeeRateNotLessThan10000 = ''feerate not less than 10000''"
definition ErrNotMintByOfficial :: string where "ErrNotMintByOfficial = ''not mint by official''"
definition ErrTransAmount :: string where "ErrTransAmount = ''trans amount must be larger than 0''"
definition ErrNotMoreThan100000ERB :: string where "ErrNotMoreThan100000ERB = ''not more than 100000 ERB''"
definition ErrNotAllowedOfficialNFT :: string where "ErrNotAllowedOfficialNFT = ''not allowed approve official nft''"
definition ErrExchangerFormat :: string where "ErrExchangerFormat = ''exchanger format error''"

subsection \<open>The environment\<close>

text \<open>What a call depends on besides the state. \<open>runPrecompiled\<close> gives the output, the gas left
  and the error of a precompiled contract; \<open>interpreter\<close> the state after the contract code,
  its output, the gas left and the error.\<close>

record evm =
  crypto_of :: crypto
  BlockNumber_of :: int
  unmarshal :: "string \<Rightarrow> Wormholes option"
  NoRecursion :: bool
  depth :: int
  precompile :: "address \<Rightarrow> bool"
  runPrecompiled :: "address \<Rightarrow> string \<Rightarrow> u64 \<Rightarrow> string \<times> u64 \<times> string option"
  interpreter :: "address \<Rightarrow> address \<Rightarrow> string \<Rightarrow> string \<Rightarrow> u64 \<Rightarrow> int \<Rightarrow> StateDB \<Rightarrow>
    (StateDB \<times> string \<times> u64 \<times> string option) panics"

type_synonym outcome = "(StateDB \<times> string option) panics"

subsection \<open>NFT transactions\<close>

text \<open>The royalty must lie strictly between 0 and 10000.\<close>

definition royaltyInRange :: "u32 \<Rightarrow> unit result" where
  "royaltyInRange royalty =
     rbind (fail_if (royalty \<le> 0) ErrRoyaltyNotMoreThan0) (\<lambda>_.
     fail_if (royalty \<ge> 10000) ErrRoyaltyNotLessthan10000)"

text \<open>Type 0: mint by a user.\<close>

definition handleMint :: "address \<Rightarrow> Wormholes \<Rightarrow> StateDB \<Rightarrow> outcome" where
  "handleMint addr w s =
     handler (rbind (royaltyInRange (w_Royalty w)) (\<lambda>_.
              if length (w_Exchanger w) > 2
              then rbind (fail_if (\<not> is0x (w_Exchanger w)) ErrExchangerFormat) (\<lambda>_. ok (HexToAddress (w_Exchanger w)))
              else ok 0))
       (\<lambda>exchanger s. Some (fst (CreateNFTByUser exchanger addr (w_Royalty w) (w_MetaURL w) s))) s"

text \<open>Type 1: transfer. The account of the NFT is created before the transfer when there is none.\<close>

definition handleTransferNFT :: "address \<Rightarrow> address \<Rightarrow> Wormholes \<Rightarrow> StateDB \<Rightarrow> outcome" where
  "handleTransferNFT caller addr w s =
     (case GetNftAddressAndLevel (w_NFTAddress w) of
        Inl e \<Rightarrow> Some (s, Some e)
      | Inr (nftAddress, _) \<Rightarrow>
          if VerifyNFTOwner (w_NFTAddress w) caller s
          then TransferNFT (w_NFTAddress w) addr (if Exist nftAddress s then s else CreateAccount nftAddress s)
          else Some (s, Some ErrNotOwner))"

text \<open>Types 2 and 3: approval of one NFT, and its cancellation.\<close>

definition handleApproveNFT :: "address \<Rightarrow> address \<Rightarrow> Wormholes \<Rightarrow> StateDB \<Rightarrow> outcome" where
  "handleApproveNFT caller addr w s =
     handler (rbind (fail_if (\<not> GetExchangerFlag addr s) ErrNotExchanger) (\<lambda>_.
              rbind (Some (GetNftAddressAndLevel (w_NFTAddress w))) (\<lambda>(nftAddress, _).
              rbind (fail_if (IsOfficialNFT nftAddress) ErrNotAllowedOfficialNFT) (\<lambda>_.
              rbind (fail_if (GetNFTOwner16 nftAddress s \<noteq> caller) ErrNotOwner) (\<lambda>_. ok nftAddress)))))
       (\<lambda>nftAddress s. Some (ChangeNFTApproveAddress nftAddress addr s)) s"

definition handleCancelApproveNFT :: "address \<Rightarrow> address \<Rightarrow> Wormholes \<Rightarrow> StateDB \<Rightarrow> outcome" where
  "handleCancelApproveNFT caller addr w s =
     handler (rbind (Some (GetNftAddressAndLevel (w_NFTAddress w))) (\<lambda>(nftAddress, _).
              rbind (fail_if (GetNFTOwner16 nftAddress s \<noteq> caller) ErrNotOwner) (\<lambda>_. ok nftAddress)))
       (\<lambda>nftAddress s. Some (CancelNFTApproveAddress nftAddress addr s)) s"

text \<open>Types 4 and 5: approval for all NFTs, and its cancellation.\<close>

definition handleApproveAll :: "address \<Rightarrow> address \<Rightarrow> StateDB \<Rightarrow> outcome" where
  "handleApproveAll caller addr s =
     handler (fail_if (\<not> GetExchangerFlag addr s) ErrNotExchanger)
       (\<lambda>_ s. Some (ChangeApproveAddress caller addr s)) s"

definition handleCancelApproveAll :: "address \<Rightarrow> address \<Rightarrow> StateDB \<Rightarrow> outcome" where
  "handleCancelApproveAll caller addr s = Some (CancelApproveAddress caller addr s, None)"

text \<open>Type 6: exchange for currency. The error of the exchange is ignored.\<close>

definition handleExchange :: "evm \<Rightarrow> address \<Rightarrow> Wormholes \<Rightarrow> StateDB \<Rightarrow> outcome" where
  "handleExchange E caller w s =
     handler (rbind (Some (GetNftAddressAndLevel (w_NFTAddress w))) (\<lambda>(nftAddress, _).
              rbind (fail_if (\<not> IsOfficialNFT nftAddress) ErrNotMintByOfficial) (\<lambda>_.
              fail_if (GetNFTOwner16 nftAddress s \<noteq> caller) ErrNotOwner)))
       (\<lambda>_ s. map_option fst (core_ExchangeNFTToCurrency caller (w_NFTAddress w) (BlockNumber_of E) s)) s"

definition ERB :: int where
  "ERB = 1000000000000000000"

text \<open>Types 9 and 10: pledge of tokens, and its cancellation.\<close>

definition handlePledge :: "address \<Rightarrow> int \<Rightarrow> StateDB \<Rightarrow> outcome" where
  "handlePledge caller v s =
     handler (rbind (fail_if (v < 100000 * ERB) ErrNotMoreThan100000ERB) (\<lambda>_.
              fail_if (\<not> CanTransfer caller v s) ErrInsufficientBalance))
       (\<lambda>_ s. Some (PledgeToken caller v s)) s"

definition handleCancelPledge :: "address \<Rightarrow> int \<Rightarrow> StateDB \<Rightarrow> outcome" where
  "handleCancelPledge caller v s =
     handler (fail_if (\<not> VerifyPledgedBalance caller v s) ErrInsufficientPledgedBalance)
       (\<lambda>_. CancelPledgedToken caller v) s"

text \<open>Types 11 and 12: opening and closing an exchanger. The time of opening is nil for an
  account created in the same block, which the subtraction panics on.\<close>

definition handleOpenExchanger :: "evm \<Rightarrow> address \<Rightarrow> Wormholes \<Rightarrow> int \<Rightarrow> StateDB \<Rightarrow> outcome" where
  "handleOpenExchanger E caller w v s =
     handler (rbind (fail_if (v < 100 * ERB) ErrNotMoreThan100ERB) (\<lambda>_.
              rbind (fail_if (w_FeeRate w \<le> 0) ErrFeeRateNotMoreThan0) (\<lambda>_.
              rbind (fail_if (w_FeeRate w \<ge> 10000) ErrFeeRateNotLessThan10000) (\<lambda>_.
              fail_if (\<not> CanTransfer caller v s) ErrInsufficientBalance))))
       (\<lambda>_ s. Some (OpenExchanger caller v (BlockNumber_of E) (w_FeeRate w) (w_Name w) (w_Url w) s)) s"

definition CloseExchangerInterval :: int where
  "CloseExchangerInterval = 3 * 24"

definition handleCloseExchanger :: "evm \<Rightarrow> address \<Rightarrow> StateDB \<Rightarrow> outcome" where
  "handleCloseExchanger E caller s =
     do { openExchangerTime \<leftarrow> GetOpenExchangerTime caller s;
          handler (fail_if (CloseExchangerInterval > BlockNumber_of E - openExchangerTime) ErrTooCloseWithOpenExchanger)
            (\<lambda>_. CloseExchanger caller (BlockNumber_of E)) s }"

text \<open>Type 13: injection of official metadata. A start index that does not parse is nil.\<close>

definition handleInject :: "Wormholes \<Rightarrow> StateDB \<Rightarrow> outcome" where
  "handleInject w s =
     handler (fail_if (\<not> is0x (w_StartIndex w)) ErrStartIndex)
       (\<lambda>_. InjectOfficialNFT (w_Dir w) (SetString16 (drop 2 (w_StartIndex w))) (w_Number w) (w_Royalty w) (w_Creator w)) s"

text \<open>Types 14 to 20: the trades, for a positive value.\<close>

type_synonym trade = "crypto \<Rightarrow> int \<Rightarrow> address \<Rightarrow> address \<Rightarrow> Wormholes \<Rightarrow> int \<Rightarrow> StateDB \<Rightarrow> outcome"

definition handleTrade :: "trade \<Rightarrow> evm \<Rightarrow> address \<Rightarrow> address \<Rightarrow> Wormholes \<Rightarrow> int \<Rightarrow> StateDB \<Rightarrow> outcome" where
  "handleTrade trade E caller addr w v s =
     (if v \<le> 0 then Some (s, Some ErrTransAmount)
      else trade (crypto_of E) (BlockNumber_of E) caller addr w v s)"

text \<open>Types 21 and 22: the deposit of an exchanger, of which 100 ERB must stay.\<close>

definition handleAddExchangerToken :: "address \<Rightarrow> int \<Rightarrow> StateDB \<Rightarrow> outcome" where
  "handleAddExchangerToken caller v s =
     handler (fail_if (\<not> CanTransfer caller v s) ErrInsufficientBalance) (\<lambda>_. AddExchangerToken caller v) s"

definition handleSubExchangerToken :: "address \<Rightarrow> int \<Rightarrow> StateDB \<Rightarrow> outcome" where
  "handleSubExchangerToken caller v s =
     handler (fail_if (\<not> VerifyExchangerBalance caller (v + 100 * ERB) s) ErrInsufficientExchangerBalance)
       (\<lambda>_. SubExchangerToken caller v) s"

text \<open>Type 30: a liveness transaction.\<close>

definition handleLiveness :: "evm \<Rightarrow> address \<Rightarrow> address \<Rightarrow> int \<Rightarrow> StateDB \<Rightarrow> outcome" where
  "handleLiveness E caller addr v s =
     handler (fail_if (\<not> CanTransfer caller v s) ErrInsufficientBalance)
       (\<lambda>_ s. Some (AddOrUpdateActiveMiner caller v (word_of_int (BlockNumber_of E)) (Transfer caller addr v s))) s"

text \<open>Types 23 and 24: votes for official metadata.\<close>

definition handleVote :: "address \<Rightarrow> Wormholes \<Rightarrow> StateDB \<Rightarrow> outcome" where
  "handleVote caller w s =
     handler (royaltyInRange (w_Royalty w))
       (\<lambda>_ s. Some (VoteOfficialNFT \<lparr>Dir = w_Dir w, StartIndex = NextIndex s, Number = 65536,
          io_Royalty = w_Royalty w, io_Creator = w_Creator w, no_Address = caller\<rparr> s)) s"

definition handleVoteApproved :: "evm \<Rightarrow> address \<Rightarrow> address \<Rightarrow> Wormholes \<Rightarrow> int \<Rightarrow> StateDB \<Rightarrow> outcome" where
  "handleVoteApproved E caller addr w v s =
     (case royaltyInRange (w_Royalty w) of
        None \<Rightarrow> None
      | Some (Inl e) \<Rightarrow> Some (s, Some e)
      | Some (Inr _) \<Rightarrow> VoteOfficialNFTByApprovedExchanger (crypto_of E) (BlockNumber_of E) caller addr w v s)"

text \<open>The dispatch on the type. Types 7 and 8 do nothing. The gas is returned as it came.\<close>

definition HandleNFT :: "evm \<Rightarrow> address \<Rightarrow> address \<Rightarrow> Wormholes \<Rightarrow> u64 \<Rightarrow> int \<Rightarrow> StateDB \<Rightarrow>
    (StateDB \<times> string \<times> u64 \<times> string option) panics" where
  "HandleNFT E caller addr w gas v s =
     map_option (\<lambda>(s', err). (s', [], gas, err))
      (let t = w_Type w in
       if t = 0 then handleMint addr w s
       else if t = 1 then handleTransferNFT caller addr w s
       else if t = 2 then handleApproveNFT caller addr w s
       else if t = 3 then handleCancelApproveNFT caller addr w s
       else if t = 4 then handleApproveAll caller addr s
       else if t = 5 then handleCancelApproveAll caller addr s
       else if t = 6 then handleExchange E caller w s
       else if t = 7 \<or> t = 8 then Some (s, None)
       else if t = 9 then handlePledge caller v s
       else if t = 10 then handleCancelPledge caller v s
       else if t = 11 then handleOpenExchanger E caller w v s
       else if t = 12 then handleCloseExchanger E caller s
       else if t = 13 then handleInject w s
       else if t = 14 then handleTrade BuyNFTBySellerOrExchanger E caller addr w v s
       else if t = 15 then handleTrade BuyNFTByBuyer E caller addr w v s
       else if t = 16 then handleTrade BuyAndMintNFTByBuyer E caller addr w v s
       else if t = 17 then handleTrade BuyAndMintNFTByExchanger E caller addr w v s
       else if t = 18 then handleTrade BuyNFTByApproveExchanger E caller addr w v s
       else if t = 19 then handleTrade BuyAndMintNFTByApprovedExchanger E caller addr w v s
       else if t = 20 then handleTrade BuyNFTByExchanger E caller addr w v s
       else if t = 21 then handleAddExchangerToken caller v s
       else if t = 22 then handleSubExchangerToken caller v s
       else if t = 30 then handleLiveness E caller addr v s
       else if t = 23 then handleVote caller w s
       else if t = 24 then handleVoteApproved E caller addr w v s
       else Some (s, Some ErrNotExistNFTType))"

subsection \<open>Calls\<close>

definition CallCreateDepth :: int where
  "CallCreateDepth = 1024"

text \<open>The code of the recipient, after the value moved or the NFT transaction was handled.\<close>

definition runRecipient :: "evm \<Rightarrow> address \<Rightarrow> address \<Rightarrow> string \<Rightarrow> u64 \<Rightarrow> int \<Rightarrow> StateDB \<Rightarrow>
    (StateDB \<times> string \<times> u64 \<times> string option) panics" where
  "runRecipient E caller addr input gas v s =
     (if precompile E addr then Some (s, runPrecompiled E addr input gas)
      else (let c = (case GetCode addr s of None \<Rightarrow> [] | Some c \<Rightarrow> c)
            in if length c = 0 then Some (s, [], gas, None)
               else interpreter E caller addr c input gas v s))"

text \<open>What comes before the code: a payload that starts with \<open>wormholes:\<close> is decoded and handled as an
  NFT transaction, otherwise the value moves.\<close>

definition payCall :: "evm \<Rightarrow> address \<Rightarrow> address \<Rightarrow> string \<Rightarrow> u64 \<Rightarrow> int \<Rightarrow> StateDB \<Rightarrow>
    (StateDB \<times> string \<times> u64 \<times> string option) panics" where
  "payCall E caller addr input gas v s =
     (if length input > 10 \<and> take 10 input = ''wormholes:'' then
        (case unmarshal E (drop 10 input) of
           None \<Rightarrow> Some (s, [], gas, Some ErrWormholesFormat)
         | Some w \<Rightarrow> HandleNFT E caller addr w gas v s)
      else Some (Transfer caller addr v s, [], gas, None))"

definition Call :: "evm \<Rightarrow> address \<Rightarrow> address \<Rightarrow> string \<Rightarrow> u64 \<Rightarrow> int \<Rightarrow> StateDB \<Rightarrow>
    (StateDB \<times> string \<times> u64 \<times> string option) panics" where
  "Call E caller addr input gas v s =
     (if NoRecursion E \<and> depth E > 0 then Some (s, [], gas, None)
      else if depth E > CallCreateDepth then Some (s, [], gas, Some ErrDepth)
      else if v \<noteq> 0 \<and> \<not> CanTransfer caller v s then Some (s, [], gas, Some ErrInsufficientBalance)
      else do {
        let (s0, snapshot) = Snapshot s;
        (s1, ret1, gas1, err1) \<leftarrow> payCall E caller addr input gas v s0;
        if err1 \<noteq> None then Some (s1, ret1, gas1, err1)
        else do {
          (s2, ret2, gas2, err2) \<leftarrow> runRecipient E caller addr input gas1 v s1;
          if err2 = None then Some (s2, ret2, gas2, None)
          else do {
            s3 \<leftarrow> RevertToSnapshot snapshot s2;
            Some (s3, ret2, if err2 \<noteq> Some ErrExecutionReverted then 0 else gas2, err2) } } })"

section \<open>Lemmas\<close>

subsection \<open>Transactions as operations of the state database\<close>

text \<open>Whatever a transaction does to the state, it does by operations of the state database and calls
  over them.\<close>

definition acts :: "StateDB \<Rightarrow> StateDB \<Rightarrow> bool" where
  "acts s s' \<longleftrightarrow> (\<exists>fs. execs fs s = Some s')"

lemma execs_append: "execs (fs @ gs) s = Option.bind (execs fs s) (execs gs)"
  by (induction fs arbitrary: s) (simp_all split: Option.bind_split)

lemma acts_refl: "acts s s"
  unfolding acts_def by (rule exI [of _ "[]"]) simp

lemma acts_trans: "acts s t \<Longrightarrow> acts t u \<Longrightarrow> acts s u"
  unfolding acts_def by (metis execs_append bind.bind_lunit)

lemma acts_exec: "exec f s = Some s' \<Longrightarrow> acts s s'"
  unfolding acts_def by (rule exI [of _ "[f]"]) simp

lemma acts_run: "run p s = Some s' \<Longrightarrow> acts s s'"
  by (rule acts_exec [of "Do p"]) simp

lemma acts_reach: "reach s \<Longrightarrow> acts s s' \<Longrightarrow> reach s'"
proof -
  have "execs fs s = Some s' \<Longrightarrow> reach s \<Longrightarrow> reach s'" for fs
  proof (induction fs arbitrary: s)
    case (Cons f fs)
    then obtain t where t: "exec f s = Some t" "execs fs t = Some s'" by (auto simp: bind_Some_iff)
    show ?case by (rule Cons.IH [OF t(2) reach_exec [OF Cons.prems(2) t(1)]])
  qed simp
  then show "reach s \<Longrightarrow> acts s s' \<Longrightarrow> reach s'" by (auto simp: acts_def)
qed

lemma acts_steps:
  "acts s (CreateAccount a s)" "acts s (AddBalance a v s)" "acts s (SubBalance a v s)"
  "acts s (fst (CreateNFTByUser x w r u s))" "acts s (ChangeApproveAddress a b s)" "acts s (CancelApproveAddress a b s)"
  "acts s (ChangeNFTApproveAddress a b s)" "acts s (CancelNFTApproveAddress a b s)" "acts s (PledgeToken a v s)"
  "acts s (OpenExchanger a v bn fr nm u s)" "acts s (AddOrUpdateActiveMiner a v h s)" "acts s (VoteOfficialNFT n s)"
  "ChangeNFTOwner a w l s = Some s' \<Longrightarrow> acts s s'" "ExchangeNFTToCurrency a b bn l s = Some s' \<Longrightarrow> acts s s'"
  "CancelPledgedToken a v s = Some s' \<Longrightarrow> acts s s'" "CloseExchanger a bn s = Some s' \<Longrightarrow> acts s s'"
  "InjectOfficialNFT d st k r u s = Some s' \<Longrightarrow> acts s s'" "AddExchangerToken a v s = Some s' \<Longrightarrow> acts s s'"
  "SubExchangerToken a v s = Some s' \<Longrightarrow> acts s s'" "AddVoteWeight a v s = Some s' \<Longrightarrow> acts s s'"
  using acts_run [of "opCreateAccount a"] acts_run [of "opAddBalance a v"] acts_run [of "opSubBalance a v"]
    acts_run [of "opCreateNFTByUser x w r u"] acts_run [of "opChangeApproveAddress a b"] acts_run [of "opCancelApproveAddress a b"]
    acts_run [of "opChangeNFTApproveAddress a b"] acts_run [of "opCancelNFTApproveAddress a b"] acts_run [of "opPledgeToken a v"]
    acts_run [of "opOpenExchanger a v bn fr nm u"] acts_run [of "opAddOrUpdateActiveMiner a v h"] acts_run [of "opVoteOfficialNFT n"]
    acts_run [of "opChangeNFTOwner a w l"] acts_run [of "opExchangeNFTToCurrency a b bn l"] acts_run [of "opCancelPledgedToken a v"]
    acts_run [of "opCloseExchanger a bn"] acts_run [of "opInjectOfficialNFT d st k r u"] acts_run [of "opAddExchangerToken a v"]
    acts_run [of "opSubExchangerToken a v"] acts_run [of "opAddVoteWeight a v"]
  by simp_all

lemma acts_Transfer: "acts s (Transfer a b v s)"
  unfolding Transfer_def by (rule acts_trans [OF acts_steps(3) acts_steps(2)])

lemma acts_payout:
  assumes "AddVoteWeight x v s = Some t" and "ChangeNFTOwner a w l t = Some s'"
  shows "acts s s'"
  by (rule acts_trans [OF acts_steps(20) [OF assms(1)] acts_steps(13) [OF assms(2)]])

lemma acts_settleSale: "settleSale v sl s = Some s' \<Longrightarrow> acts s s'"
proof -
  assume "settleSale v sl s = Some s'"
  then obtain x y z t where "AddVoteWeight (sl_exchanger sl) v (AddBalance (sl_exchanger sl) x (AddBalance (GetNFTCreator (sl_nft sl) s) y
      (AddBalance (sl_owner sl) z (SubBalance (sl_buyer sl) v s)))) = Some t"
    "ChangeNFTOwner (sl_nft sl) (sl_buyer sl) (sl_level sl) t = Some s'"
    by (auto simp: settleSale_def Let_def bind_Some_iff)
  note p = acts_payout [OF this]
  show ?thesis
    by (rule acts_trans [OF acts_steps(3) acts_trans [OF acts_steps(2) acts_trans [OF acts_steps(2) acts_trans [OF acts_steps(2) p]]]])
qed

lemma acts_settleMint: "settleMint v m s = Some s' \<Longrightarrow> acts s s'"
proof -
  assume "settleMint v m s = Some s'"
  then obtain x y t where "AddVoteWeight (ms_exchanger m) v (AddBalance (ms_exchanger m) x (AddBalance (ms_seller m) y (SubBalance (ms_buyer m) v
      (fst (CreateNFTByUser (if ms_exclusive m then ms_exchanger m else 0) (ms_seller m) (ms_royalty m) (ms_url m) s))))) = Some t"
    "ChangeNFTOwner (mintedNFT s) (ms_buyer m) 0 t = Some s'"
    by (auto simp: settleMint_def Let_def case_prod_beta snd_CreateNFTByUser bind_Some_iff)
  note p = acts_payout [OF this]
  show ?thesis
    by (rule acts_trans [OF acts_steps(4) acts_trans [OF acts_steps(3) acts_trans [OF acts_steps(2) acts_trans [OF acts_steps(2) p]]]])
qed

lemma acts_handler:
  assumes "handler c f s = Some (s', err)" and "\<And>x. c = Some (Inr x) \<Longrightarrow> f x s = Some s' \<Longrightarrow> acts s s'"
  shows "acts s s'"
  using assms by (auto simp: handler_def acts_refl split: option.splits sum.splits)


subsection \<open>The dispatch\<close>

lemma HandleNFT_cases [consumes 1, case_names mint transfer approve unapprove approveAll unapproveAll exchange idle pledge unpledge
    openX closeX inject trade addToken subToken live vote voteApproved unknown]:
  assumes "HandleNFT E caller addr w gas v s = Some (s', ret, g, err)"
  obtains "w_Type w = 0" "handleMint addr w s = Some (s', err)"
  | "w_Type w = 1" "handleTransferNFT caller addr w s = Some (s', err)"
  | "w_Type w = 2" "handleApproveNFT caller addr w s = Some (s', err)"
  | "w_Type w = 3" "handleCancelApproveNFT caller addr w s = Some (s', err)"
  | "w_Type w = 4" "handleApproveAll caller addr s = Some (s', err)"
  | "w_Type w = 5" "handleCancelApproveAll caller addr s = Some (s', err)"
  | "w_Type w = 6" "handleExchange E caller w s = Some (s', err)"
  | "w_Type w \<in> {7, 8}" "s' = s" "err = None"
  | "w_Type w = 9" "handlePledge caller v s = Some (s', err)"
  | "w_Type w = 10" "handleCancelPledge caller v s = Some (s', err)"
  | "w_Type w = 11" "handleOpenExchanger E caller w v s = Some (s', err)"
  | "w_Type w = 12" "handleCloseExchanger E caller s = Some (s', err)"
  | "w_Type w = 13" "handleInject w s = Some (s', err)"
  | h where "(w_Type w, h) \<in> {(14, BuyNFTBySellerOrExchanger), (15, BuyNFTByBuyer), (16, BuyAndMintNFTByBuyer), (17, BuyAndMintNFTByExchanger),
      (18, BuyNFTByApproveExchanger), (19, BuyAndMintNFTByApprovedExchanger), (20, BuyNFTByExchanger)}"
      "handleTrade h E caller addr w v s = Some (s', err)"
  | "w_Type w = 21" "handleAddExchangerToken caller v s = Some (s', err)"
  | "w_Type w = 22" "handleSubExchangerToken caller v s = Some (s', err)"
  | "w_Type w = 30" "handleLiveness E caller addr v s = Some (s', err)"
  | "w_Type w = 23" "handleVote caller w s = Some (s', err)"
  | "w_Type w = 24" "handleVoteApproved E caller addr w v s = Some (s', err)"
  | "w_Type w \<notin> {0, 1, 2, 3, 4, 5, 6, 7, 8, 9, 10, 11, 12, 13, 14, 15, 16, 17, 18, 19, 20, 21, 22, 23, 24, 30}" "s' = s" "err = Some ErrNotExistNFTType"
  using assms unfolding HandleNFT_def Let_def by (auto split: if_split_asm intro: that)


lemmas handle_defs = handleMint_def handleApproveNFT_def handleCancelApproveNFT_def handleApproveAll_def
  handleExchange_def handlePledge_def handleCancelPledge_def handleOpenExchanger_def handleInject_def handleAddExchangerToken_def
  handleSubExchangerToken_def handleLiveness_def handleVote_def

lemma handler_outcome:
  assumes "handler c f s = Some (s', err)" and "\<And>x. f x s = Some s' \<Longrightarrow> acts s s'"
  shows "acts s s' \<and> (err \<noteq> None \<longrightarrow> s' = s)"
  using assms acts_handler [OF assms(1)] by (cases err) (auto simp: handler_error)

lemma trade_outcome:
  assumes "(t, h) \<in> {(14, BuyNFTBySellerOrExchanger), (15, BuyNFTByBuyer), (16, BuyAndMintNFTByBuyer), (17, BuyAndMintNFTByExchanger),
      (18, BuyNFTByApproveExchanger), (19, BuyAndMintNFTByApprovedExchanger), (20, BuyNFTByExchanger)}"
    and "handleTrade h E caller addr w v s = Some (s', err)"
  shows "acts s s' \<and> (err \<noteq> None \<longrightarrow> s' = s)"
proof (cases "v \<le> 0")
  case True
  then show ?thesis using assms(2) by (simp add: handleTrade_def acts_refl)
next
  case False
  then have "h (crypto_of E) (BlockNumber_of E) caller addr w v s = Some (s', err)" using assms(2) by (simp add: handleTrade_def)
  then show ?thesis
    using assms(1)
    by (auto simp: sale_handlers mint_handlers simp del: not_None_eq elim!: handler_outcome [THEN conjunct1] handler_outcome [THEN conjunct2, rule_format]
        intro: acts_settleSale acts_settleMint)
qed

lemma acts_liveness: "acts s (AddOrUpdateActiveMiner a v h (Transfer a b v s))"
  by (rule acts_trans [OF acts_Transfer acts_steps(11)])

lemma acts_exchange: "core_ExchangeNFTToCurrency a u bn s = Some (s', e) \<Longrightarrow> acts s s'"
  by (auto simp: core_ExchangeNFTToCurrency_def dest!: handler_outcome intro: acts_steps(14))

lemma handle_outcome:
  "handleMint addr w s = Some (s', err) \<Longrightarrow> acts s s' \<and> (err \<noteq> None \<longrightarrow> s' = s)"
  "handleTransferNFT caller addr w s = Some (s', err) \<Longrightarrow> acts s s' \<and> (err \<noteq> None \<longrightarrow> s' = s)"
  "handleApproveNFT caller addr w s = Some (s', err) \<Longrightarrow> acts s s' \<and> (err \<noteq> None \<longrightarrow> s' = s)"
  "handleCancelApproveNFT caller addr w s = Some (s', err) \<Longrightarrow> acts s s' \<and> (err \<noteq> None \<longrightarrow> s' = s)"
  "handleApproveAll caller addr s = Some (s', err) \<Longrightarrow> acts s s' \<and> (err \<noteq> None \<longrightarrow> s' = s)"
  "handleCancelApproveAll caller addr s = Some (s', err) \<Longrightarrow> acts s s' \<and> (err \<noteq> None \<longrightarrow> s' = s)"
  "handleExchange E caller w s = Some (s', err) \<Longrightarrow> acts s s' \<and> (err \<noteq> None \<longrightarrow> s' = s)"
  "handlePledge caller v s = Some (s', err) \<Longrightarrow> acts s s' \<and> (err \<noteq> None \<longrightarrow> s' = s)"
  "handleCancelPledge caller v s = Some (s', err) \<Longrightarrow> acts s s' \<and> (err \<noteq> None \<longrightarrow> s' = s)"
  "handleOpenExchanger E caller w v s = Some (s', err) \<Longrightarrow> acts s s' \<and> (err \<noteq> None \<longrightarrow> s' = s)"
  "handleCloseExchanger E caller s = Some (s', err) \<Longrightarrow> acts s s' \<and> (err \<noteq> None \<longrightarrow> s' = s)"
  "handleInject w s = Some (s', err) \<Longrightarrow> acts s s' \<and> (err \<noteq> None \<longrightarrow> s' = s)"
  "handleAddExchangerToken caller v s = Some (s', err) \<Longrightarrow> acts s s' \<and> (err \<noteq> None \<longrightarrow> s' = s)"
  "handleSubExchangerToken caller v s = Some (s', err) \<Longrightarrow> acts s s' \<and> (err \<noteq> None \<longrightarrow> s' = s)"
  "handleLiveness E caller addr v s = Some (s', err) \<Longrightarrow> acts s s' \<and> (err \<noteq> None \<longrightarrow> s' = s)"
  "handleVote caller w s = Some (s', err) \<Longrightarrow> acts s s' \<and> (err \<noteq> None \<longrightarrow> s' = s)"
  "handleVoteApproved E caller addr w v s = Some (s', err) \<Longrightarrow> acts s s' \<and> (err \<noteq> None \<longrightarrow> s' = s)"
proof -
  show "handleTransferNFT caller addr w s = Some (s', err) \<Longrightarrow> acts s s' \<and> (err \<noteq> None \<longrightarrow> s' = s)"
    by (auto simp: handleTransferNFT_def TransferNFT_def handler_def acts_refl split: sum.splits if_splits
        intro: acts_steps(13) acts_trans [OF acts_steps(1) acts_steps(13)])
  show "handleVoteApproved E caller addr w v s = Some (s', err) \<Longrightarrow> acts s s' \<and> (err \<noteq> None \<longrightarrow> s' = s)"
    unfolding handleVoteApproved_def VoteOfficialNFTByApprovedExchanger_def
    by (auto simp: acts_refl handler_def split: option.splits sum.splits intro: acts_steps(12))
  show "handleCloseExchanger E caller s = Some (s', err) \<Longrightarrow> acts s s' \<and> (err \<noteq> None \<longrightarrow> s' = s)"
    by (auto simp: handleCloseExchanger_def bind_Some_iff simp del: not_None_eq dest!: handler_outcome intro: acts_steps(16))
  show "handleCancelApproveAll caller addr s = Some (s', err) \<Longrightarrow> acts s s' \<and> (err \<noteq> None \<longrightarrow> s' = s)"
    by (auto simp: handleCancelApproveAll_def acts_steps(6))
qed (unfold handle_defs, (erule handler_outcome; auto intro: acts_steps acts_liveness acts_exchange)+)


lemma HandleNFT_outcome:
  assumes "HandleNFT E caller addr w gas v s = Some (s', ret, g, err)"
  shows "acts s s' \<and> (err \<noteq> None \<longrightarrow> s' = s)" and "ret = []" and "g = gas"
proof -
  show "acts s s' \<and> (err \<noteq> None \<longrightarrow> s' = s)"
    using assms
  proof (cases rule: HandleNFT_cases)
    case (trade h)
    then show ?thesis by (rule trade_outcome)
  qed (use handle_outcome acts_refl in \<open>simp_all del: not_None_eq\<close>)
  show "ret = []" "g = gas" using assms by (auto simp: HandleNFT_def)
qed

subsection \<open>Calls\<close>

text \<open>What the contract interpreter is relied on for: it changes the state only by the
  operations of the state database and by further calls.\<close>

definition sandboxed :: "evm \<Rightarrow> bool" where
  "sandboxed E \<longleftrightarrow> (\<forall>caller addr c input gas v s s' ret g err.
     interpreter E caller addr c input gas v s = Some (s', ret, g, err) \<longrightarrow> acts s s')"

lemma sandboxedD: "sandboxed E \<Longrightarrow> interpreter E caller addr c input gas v s = Some (s', ret, g, err) \<Longrightarrow> acts s s'"
  unfolding sandboxed_def by blast

lemma acts_runRecipient:
  assumes "sandboxed E" and "runRecipient E caller addr input gas v s = Some (s', ret, g, err)"
  shows "acts s s'"
  using assms(2) by (auto simp: runRecipient_def acts_refl Let_def split: if_splits intro: sandboxedD [OF assms(1)])

lemma acts_payCall:
  assumes "payCall E caller addr input gas v s = Some (s', ret, g, err)"
  shows "acts s s'" and "err \<noteq> None \<Longrightarrow> s' = s"
proof -
  have "acts s s' \<and> (err \<noteq> None \<longrightarrow> s' = s)"
    using assms HandleNFT_outcome(1) [of E caller addr _ gas v s s' ret g err] acts_refl acts_Transfer
    unfolding payCall_def by (auto simp del: not_None_eq split: option.split_asm if_split_asm)
  then show "acts s s'" and "err \<noteq> None \<Longrightarrow> s' = s" by blast+
qed

text \<open>The ways a call ends: before any effect, with an error of the payment, after the code, or reverted.\<close>

lemma Call_cases [consumes 1, case_names early refused finished reverted]:
  assumes "Call E caller addr input gas v s = Some (s', ret, g, err)"
  obtains "s' = s" "ret = []" "g = gas"
  | "payCall E caller addr input gas v (fst (Snapshot s)) = Some (s', ret, g, err)" "err \<noteq> None"
  | s1 ret1 g1 where "payCall E caller addr input gas v (fst (Snapshot s)) = Some (s1, ret1, g1, None)"
      "runRecipient E caller addr input g1 v s1 = Some (s', ret, g, None)" "err = None"
  | s1 ret1 g1 s2 g2 where "payCall E caller addr input gas v (fst (Snapshot s)) = Some (s1, ret1, g1, None)"
      "runRecipient E caller addr input g1 v s1 = Some (s2, ret, g2, err)" "err \<noteq> None"
      "RevertToSnapshot (snd (Snapshot s)) s2 = Some s'" "g = (if err = Some ErrExecutionReverted then g2 else 0)"
proof (cases "NoRecursion E \<and> depth E > 0 \<or> depth E > CallCreateDepth \<or> (v \<noteq> 0 \<and> \<not> CanTransfer caller v s)")
  case True
  then have "\<exists>e. Call E caller addr input gas v s = Some (s, [], gas, e)" by (auto simp: Call_def)
  then show thesis using assms that(1) by auto
next
  case False
  let ?rest = "\<lambda>ret2 gas2 err2 s2. Option.bind (RevertToSnapshot (snd (Snapshot s)) s2)
    (\<lambda>s3. Some (s3, ret2, if err2 \<noteq> Some ErrExecutionReverted then 0 else gas2, err2))"
  let ?run = "\<lambda>gas1 s1. Option.bind (runRecipient E caller addr input gas1 v s1)
    (\<lambda>(s2, ret2, gas2, err2). if err2 = None then Some (s2, ret2, gas2, None) else ?rest ret2 gas2 err2 s2)"
  have call: "Call E caller addr input gas v s = Option.bind (payCall E caller addr input gas v (fst (Snapshot s)))
      (\<lambda>(s1, ret1, gas1, err1). if err1 \<noteq> None then Some (s1, ret1, gas1, err1) else ?run gas1 s1)"
  proof -
    have c: "\<not> (NoRecursion E \<and> depth E > 0)" "\<not> depth E > CallCreateDepth" "\<not> (v \<noteq> 0 \<and> \<not> CanTransfer caller v s)"
      using False by blast+
    show ?thesis unfolding Call_def if_not_P [OF c(1)] if_not_P [OF c(2)] if_not_P [OF c(3)] by (simp add: case_prod_beta)
  qed
  obtain s1 ret1 g1 err1 where p: "payCall E caller addr input gas v (fst (Snapshot s)) = Some (s1, ret1, g1, err1)"
    using assms unfolding call by (cases "payCall E caller addr input gas v (fst (Snapshot s))") auto
  show thesis
  proof (cases err1)
    case (Some e)
    then show thesis using p assms unfolding call by (intro that(2)) auto
  next
    case None
    then have "?run g1 s1 = Some (s', ret, g, err)" using assms unfolding call p by simp
    then obtain s2 ret2 g2 err2 where r: "runRecipient E caller addr input g1 v s1 = Some (s2, ret2, g2, err2)"
      and c: "(if err2 = None then Some (s2, ret2, g2, None) else ?rest ret2 g2 err2 s2) = Some (s', ret, g, err)"
      by (cases "runRecipient E caller addr input g1 v s1") auto
    show thesis
    proof (cases err2)
      case None
      then show thesis using p r c \<open>err1 = None\<close> by (intro that(3)) auto
    next
      case (Some e)
      then show thesis using p r c \<open>err1 = None\<close> by (intro that(4) [of s1 ret1 g1 s2 g2]) (auto simp: bind_Some_iff split: if_splits)
    qed
  qed
qed


lemma acts_framed: "acts s s' \<Longrightarrow> \<exists>f. framed f \<and> f s = Some s'"
  unfolding acts_def using execs_framed by blast

lemma failed_call_core:
  assumes "wf_state s" and "sandboxed E" and "Call E caller addr input gas v s = Some (s', ret, g, Some e)"
  shows "core s' = core s"
  using assms(3)
proof (cases rule: Call_cases)
  case early
  then show ?thesis by simp
next
  case refused
  then have "s' = fst (Snapshot s)" using acts_payCall(2) by blast
  then show ?thesis by (simp add: Snapshot_fields)
next
  case (reverted s1 ret1 g1 s2 g2)
  have "acts (fst (Snapshot s)) s2"
    by (rule acts_trans [OF acts_payCall(1) [OF reverted(1)] acts_runRecipient [OF assms(2) reverted(2)]])
  then show ?thesis using acts_framed revert_framed [OF _ assms(1)] reverted(4) by fastforce
qed simp

lemma call_reach:
  assumes "reach s" and "sandboxed E" and "Call E caller addr input gas v s = Some (s', ret, g, err)"
  shows "reach s'"
  using assms(3)
proof (cases rule: Call_cases)
  case early
  then show ?thesis using assms(1) by simp
next
  case refused
  then show ?thesis using acts_payCall(1) acts_reach [OF reach_Snapshot [OF assms(1)]] by blast
next
  case (finished s1 ret1 g1)
  have "acts (fst (Snapshot s)) s'"
    by (rule acts_trans [OF acts_payCall(1) [OF finished(1)] acts_runRecipient [OF assms(2) finished(2)]])
  then show ?thesis by (rule acts_reach [OF reach_Snapshot [OF assms(1)]])
next
  case (reverted s1 ret1 g1 s2 g2)
  have "acts (fst (Snapshot s)) s2"
    by (rule acts_trans [OF acts_payCall(1) [OF reverted(1)] acts_runRecipient [OF assms(2) reverted(2)]])
  then obtain fs where "execs fs (fst (Snapshot s)) = Some s2" by (auto simp: acts_def)
  then have "exec (CallFail fs) s = Some s'" using reverted(4) by simp
  then show ?thesis by (rule reach_exec [OF assms(1)])
qed

text \<open>A call panics only where its parts do: the revert always finds its snapshot.\<close>

lemma call_returns:
  assumes "wf_state s" and "sandboxed E" and "\<And>t. payCall E caller addr input gas v t \<noteq> None"
    and "\<And>t g. runRecipient E caller addr input g v t \<noteq> None"
  shows "Call E caller addr input gas v s \<noteq> None"
proof -
  obtain s1 ret1 g1 err1 where p: "payCall E caller addr input gas v (fst (Snapshot s)) = Some (s1, ret1, g1, err1)"
    using assms(3) by (metis not_None_eq prod_cases4)
  obtain s2 ret2 g2 err2 where r: "runRecipient E caller addr input g1 v s1 = Some (s2, ret2, g2, err2)"
    using assms(4) by (metis not_None_eq prod_cases4)
  have "acts (fst (Snapshot s)) s2"
    by (rule acts_trans [OF acts_payCall(1) [OF p] acts_runRecipient [OF assms(2) r]])
  then obtain t where "RevertToSnapshot (snd (Snapshot s)) s2 = Some t"
    using acts_framed revert_framed [OF _ assms(1)] by blast
  then show ?thesis using p r by (cases err1; cases err2) (auto simp: Call_def case_prod_beta)
qed

subsection \<open>An example\<close>

text \<open>An environment in which every payload decodes to the transaction given, the account 6 is a
  precompiled contract that rejects its input, and contract code does nothing.\<close>

definition exEvm :: "Wormholes \<Rightarrow> evm" where
  "exEvm w = \<lparr>crypto_of = exCrypto 7, BlockNumber_of = 10, unmarshal = (\<lambda>_. Some w), NoRecursion = False, depth = 0,
     precompile = (\<lambda>a. a = 6), runPrecompiled = (\<lambda>_ _ _. ([], 0, Some ''malformed point'')),
     interpreter = (\<lambda>_ _ _ _ gas _ s. Some (s, [], gas, None))\<rparr>"

definition exInput :: string where
  "exInput = ''wormholes:{}''"

definition richState :: StateDB where
  "richState = AddBalance 9 (200000 * ERB) (New Map.empty (\<lambda>_ _. 0) (\<lambda>_. []) (\<lambda>_. 0))"

lemma ex_sandboxed: "sandboxed (exEvm w)"
  by (auto simp: sandboxed_def exEvm_def acts_refl)

lemma ex_env: "\<not> NoRecursion (exEvm w)" "depth (exEvm w) = 0"
  by (simp_all add: exEvm_def)

lemma ex_rich: "reach richState" "GetBalance 9 richState = 200000 * ERB"
proof -
  have "exec (Do (opAddBalance 9 (200000 * ERB))) (New Map.empty (\<lambda>_ _. 0) (\<lambda>_. []) (\<lambda>_. 0)) = Some richState"
    by (simp add: richState_def)
  then show "reach richState" by (rule reach_exec [OF reach_New])
  have "acct (New Map.empty (\<lambda>_ _. 0) (\<lambda>_. []) (\<lambda>_. 0)) 9 = zeroAccount (\<lambda>_. 0)"
    by (simp add: acct_def New_def getStateObject_def getDeletedStateObject_def)
  then show "GetBalance 9 richState = 200000 * ERB" by (simp add: richState_def getter_acct)
qed

lemma pledge_pool: "PledgedTokenPool (PledgeToken a v s) = PledgedTokenPool s @ [\<lparr>pt_Address = a, pt_Amount = v, pt_Flag = True\<rparr>]"
proof -
  have g: "PledgedTokenPool (GetOrNewStateObject a s) = PledgedTokenPool s" "PledgedTokenPool (modify a f s) = PledgedTokenPool s"
    "PledgedTokenPool (journal_append e s) = PledgedTokenPool s" for f e s
    by (auto simp: GetOrNewStateObject_def createObject_def setStateObject_def modify_def journal_append_def Let_def split: option.split)
  show ?thesis
    by (simp add: PledgeToken_def Let_def g touch_dead o_SubBalance_def o_SetBalance_def o_AddPledgedBalance_def o_SetPledgedBalance_def
        split: option.split)
qed

lemma core_wealth:
  assumes "core s = core t"
  shows "wealth s a = wealth t a"
proof -
  have n: "nz x = nz y \<longleftrightarrow> nilz x = nilz y" for x y by (cases x; cases y) (auto simp: nz_def nilz_def)
  have d: "GetBalance a u = Balance (data x)" "GetPledgedBalance a u = nilz (PledgedBalance (data x))"
    "GetExchangerBalance a u = nilz (ExchangerBalance (data x))" if "getStateObject u a = Some x" for u x
    using that by (simp_all add: getter_acct acct_def)
  have z: "GetBalance a u = 0" "GetPledgedBalance a u = 0" "GetExchangerBalance a u = 0" if "getStateObject u a = None" for u
    using that by (simp_all add: GetBalance_def GetPledgedBalance_def GetExchangerBalance_def)
  show ?thesis
    using core_objects [OF assms, of a]
    by (cases "getStateObject s a"; cases "getStateObject t a") (simp_all add: wealth_def d z normObj_eq_iff normData_eq_iff n)
qed

lemma phantom_pledge:
  assumes wf: "wf_state s" and E: "sandboxed E" "\<not> NoRecursion E" "depth E \<le> CallCreateDepth"
    and w: "length input > 10" "take 10 input = ''wormholes:''" "unmarshal E (drop 10 input) = Some w" "w_Type w = 9"
    and v: "100000 * ERB \<le> v" "v \<le> GetBalance caller s"
    and r: "runRecipient E caller addr input gas v (PledgeToken caller v (fst (Snapshot s))) = Some (s2, ret, g2, Some e)"
      "PledgedTokenPool s2 = PledgedTokenPool (PledgeToken caller v (fst (Snapshot s)))"
  shows "\<exists>s' g. Call E caller addr input gas v s = Some (s', ret, g, Some e) \<and> core s' = core s
     \<and> PledgedTokenPool s' = PledgedTokenPool s @ [\<lparr>pt_Address = caller, pt_Amount = v, pt_Flag = True\<rparr>]"
proof -
  let ?s1 = "PledgeToken caller v (fst (Snapshot s))"
  have "CanTransfer caller v s" "CanTransfer caller v (fst (Snapshot s))"
    using v(2) by (simp_all add: CanTransfer_def getter_acct)
  moreover from this have "HandleNFT E caller addr w gas v (fst (Snapshot s)) = Some (?s1, [], gas, None)"
    using v(1) w(4) by (simp add: HandleNFT_def handlePledge_def handler_def fail_if_def ok_def)
  ultimately have p: "payCall E caller addr input gas v (fst (Snapshot s)) = Some (?s1, [], gas, None)" "CanTransfer caller v s"
    using w(1-3) by (simp_all add: payCall_def)
  have "acts (fst (Snapshot s)) s2"
    by (rule acts_trans [OF acts_payCall(1) [OF p(1)] acts_runRecipient [OF E(1) r(1)]])
  then obtain t where t: "RevertToSnapshot (snd (Snapshot s)) s2 = Some t" "core t = core s" "pools t = pools s2"
    using acts_framed revert_framed [OF _ wf] by blast
  have "PledgedTokenPool (fst (Snapshot s)) = PledgedTokenPool s" by (simp add: Snapshot_def Let_def)
  then have "PledgedTokenPool t = PledgedTokenPool s @ [\<lparr>pt_Address = caller, pt_Amount = v, pt_Flag = True\<rparr>]"
    using t(3) r(2) by (simp add: pools_def pledge_pool)
  moreover have "Call E caller addr input gas v s = Some (t, ret, if e \<noteq> ErrExecutionReverted then 0 else g2, Some e)"
    using E(2,3) p r(1) t(1) by (simp add: Call_def case_prod_beta)
  ultimately show ?thesis using t(2) by blast
qed

section \<open>Properties\<close>

text \<open>C31: An NFT transaction that fails has no effect at all: whenever the handler of any transaction
  type returns an error, the whole state is the one it got, down to the journal, and the gas and
  the empty output are returned as they came.\<close>

theorem HandleNFT_error_changes_nothing:
  assumes "HandleNFT E caller addr w gas v s = Some (s', ret, g, Some e)"
  shows "s' = s \<and> ret = [] \<and> g = gas"
  using HandleNFT_outcome [OF assms] by simp

theorem HandleNFT_error_changes_nothing_witness:
  "\<exists>s'. HandleNFT (exEvm exWormholes) 9 8 (exWormholes\<lparr>w_Type := 25\<rparr>) 21000 5 richState = Some (s', [], 21000, Some ErrNotExistNFTType)
     \<and> s' = richState"
proof -
  have "HandleNFT (exEvm exWormholes) 9 8 (exWormholes\<lparr>w_Type := 25\<rparr>) 21000 5 richState = Some (richState, [], 21000, Some ErrNotExistNFTType)"
    by (simp add: HandleNFT_def)
  then show ?thesis using HandleNFT_error_changes_nothing [of "exEvm exWormholes" 9 8 "exWormholes\<lparr>w_Type := 25\<rparr>" 21000 5 richState] by blast
qed

text \<open>A call that returns an error, for whatever reason, leaves all accounts as they were: in a reachable
  state, if the contract interpreter acts only through the state database, balances, nonces, code, storage and NFT
  owners of every account, the refund and the logs after a failed call are those before it.\<close>

theorem failed_calls_change_no_account:
  assumes "reach s" and "sandboxed E" and "Call E caller addr input gas v s = Some (s', ret, g, Some e)"
  shows "GetBalance a s' = GetBalance a s \<and> GetNonce a s' = GetNonce a s \<and> GetCode a s' = GetCode a s \<and> GetState a k s' = GetState a k s
    \<and> Exist a s' = Exist a s \<and> GetNFTOwner16 a s' = GetNFTOwner16 a s \<and> GetRefund s' = GetRefund s \<and> logs s' = logs s"
  using core_getters [OF failed_call_core [OF reach_wf [OF assms(1)] assms(2,3)]]
    core_fields [OF failed_call_core [OF reach_wf [OF assms(1)] assms(2,3)]]
  by (simp add: GetRefund_def)

theorem failed_calls_change_no_account_witness:
  "\<exists>s' ret g e. Call (exEvm exWormholes) 9 6 [] 21000 5 richState = Some (s', ret, g, Some e) \<and> GetBalance 9 s' = 200000 * ERB"
proof -
  have "payCall (exEvm exWormholes) 9 6 [] 21000 5 (fst (Snapshot richState)) = Some (Transfer 9 6 5 (fst (Snapshot richState)), [], 21000, None)"
    "runRecipient (exEvm exWormholes) 9 6 [] 21000 5 (Transfer 9 6 5 (fst (Snapshot richState)))
       = Some (Transfer 9 6 5 (fst (Snapshot richState)), [], 0, Some ''malformed point'')"
    by (simp_all add: payCall_def runRecipient_def exEvm_def)
  moreover obtain f where "framed f" "f (fst (Snapshot richState)) = Some (Transfer 9 6 5 (fst (Snapshot richState)))"
    using acts_framed [OF acts_Transfer] by blast
  moreover from this obtain t where t: "RevertToSnapshot (snd (Snapshot richState)) (Transfer 9 6 5 (fst (Snapshot richState))) = Some t"
    using revert_framed [OF _ reach_wf [OF ex_rich(1)]] by blast
  moreover have "CanTransfer 9 5 richState" using ex_rich(2) by (simp add: CanTransfer_def ERB_def)
  ultimately have c: "Call (exEvm exWormholes) 9 6 [] 21000 5 richState = Some (t, [], 0, Some ''malformed point'')"
    using ex_env [of exWormholes] by (simp add: Call_def case_prod_beta ErrExecutionReverted_def CallCreateDepth_def)
  show ?thesis using c failed_calls_change_no_account [OF ex_rich(1) ex_sandboxed c, of 9] ex_rich(2) by auto
qed

text \<open>Calls keep the state well formed: from a reachable state, a call, however it ends, leads to a reachable
  state, so that all that holds of reachable states holds after any number of transactions.\<close>

theorem calls_stay_reachable:
  assumes "reach s" and "sandboxed E" and "Call E caller addr input gas v s = Some (s', ret, g, err)"
  shows "reach s'"
  by (rule call_reach [OF assms])

theorem calls_stay_reachable_witness:
  "\<exists>s' ret g err. Call (exEvm exWormholes) 9 8 [] 21000 0 richState = Some (s', ret, g, err) \<and> reach s'"
proof -
  have "payCall (exEvm exWormholes) 9 8 [] 21000 0 t \<noteq> None" for t by (simp add: payCall_def)
  moreover have "runRecipient (exEvm exWormholes) 9 8 [] g 0 t \<noteq> None" for g t by (simp add: runRecipient_def exEvm_def Let_def)
  ultimately have "Call (exEvm exWormholes) 9 8 [] 21000 0 richState \<noteq> None"
    using call_returns [OF reach_wf [OF ex_rich(1)] ex_sandboxed] by blast
  then obtain s' ret g err where c: "Call (exEvm exWormholes) 9 8 [] 21000 0 richState = Some (s', ret, g, err)"
    by (metis not_None_eq prod_cases4)
  show ?thesis using c calls_stay_reachable [OF ex_rich(1) ex_sandboxed c] by blast
qed

text \<open>A call always returns: in a reachable state, unless the NFT transaction or the recipient's code itself
  panics, the call ends with a result, an error included; the revert it may need never
  fails to find its snapshot.\<close>

theorem calls_return:
  assumes "reach s" and "sandboxed E" and "\<forall>t. payCall E caller addr input gas v t \<noteq> None"
    and "\<forall>t g. runRecipient E caller addr input g v t \<noteq> None"
  shows "\<exists>s' ret g err. Call E caller addr input gas v s = Some (s', ret, g, err)"
proof -
  have "Call E caller addr input gas v s \<noteq> None"
    by (rule call_returns [OF reach_wf [OF assms(1)] assms(2)]) (use assms(3,4) in blast)+
  then show ?thesis by (metis not_None_eq prod_cases4)
qed

theorem calls_return_witness:
  "\<exists>s' ret g err. Call (exEvm exWormholes) 9 6 [] 21000 5 richState = Some (s', ret, g, err)"
  by (rule calls_return [OF ex_rich(1) ex_sandboxed]) (simp_all add: payCall_def runRecipient_def exEvm_def Let_def)

end
