(* ===== verification/ChainConfig.thy ===== *)
theory ChainConfig
  imports Prelude
begin

text \<open>
  params/config.go: the blocks at which the forks of the protocol start, the check of their order when a
  configuration is loaded, and the rules in force at a block. An accepted configuration starts the forks in order.
\<close>

section \<open>Definitions\<close>

record ChainConfig =
  cfg_ChainID :: "int option"
  HomesteadBlock :: "int option"
  DAOForkBlock :: "int option"
  EIP150Block :: "int option"
  EIP155Block :: "int option"
  EIP158Block :: "int option"
  ByzantiumBlock :: "int option"
  ConstantinopleBlock :: "int option"
  PetersburgBlock :: "int option"
  IstanbulBlock :: "int option"
  MuirGlacierBlock :: "int option"
  BerlinBlock :: "int option"
  LondonBlock :: "int option"
  CatalystBlock :: "int option"

record Rules =
  ChainID :: int
  IsHomestead :: bool
  IsEIP150 :: bool
  IsEIP155 :: bool
  IsEIP158 :: bool
  IsByzantium :: bool
  IsConstantinople :: bool
  IsPetersburg :: bool
  IsIstanbul :: bool
  IsBerlin :: bool
  IsLondon :: bool
  IsCatalyst :: bool

definition isForked :: "int option \<Rightarrow> int \<Rightarrow> bool" where
  "isForked s head = (case s of None \<Rightarrow> False | Some b \<Rightarrow> b \<le> head)"

definition rulesAt :: "ChainConfig \<Rightarrow> int \<Rightarrow> Rules" where
  "rulesAt c num = \<lparr>ChainID = (case cfg_ChainID c of None \<Rightarrow> 0 | Some i \<Rightarrow> i),
     IsHomestead = isForked (HomesteadBlock c) num,
     IsEIP150 = isForked (EIP150Block c) num,
     IsEIP155 = isForked (EIP155Block c) num,
     IsEIP158 = isForked (EIP158Block c) num,
     IsByzantium = isForked (ByzantiumBlock c) num,
     IsConstantinople = isForked (ConstantinopleBlock c) num,
     IsPetersburg = (isForked (PetersburgBlock c) num \<or> PetersburgBlock c = None \<and> isForked (ConstantinopleBlock c) num),
     IsIstanbul = isForked (IstanbulBlock c) num,
     IsBerlin = isForked (BerlinBlock c) num,
     IsLondon = isForked (LondonBlock c) num,
     IsCatalyst = isForked (CatalystBlock c) num\<rparr>"

datatype forkOrderError =
    notEnabled string string int
  | outOfOrder string int string int

text \<open>The loop over the forks with the last one that was set or may not be skipped: name, block and whether it is optional.\<close>

fun forkOrder :: "(string \<times> int option) option \<Rightarrow> (string \<times> int option \<times> bool) list \<Rightarrow> forkOrderError option" where
  "forkOrder prev [] = None"
| "forkOrder prev ((name, block, optional) # forks) =
     (let next = forkOrder (if \<not> optional \<or> block \<noteq> None then Some (name, block) else prev) forks in
      case prev of None \<Rightarrow> next
      | Some (prevName, prevBlock) \<Rightarrow>
          (case (prevBlock, block) of
             (None, Some b) \<Rightarrow> Some (notEnabled prevName name b)
           | (Some a, Some b) \<Rightarrow> if a > b then Some (outOfOrder prevName a name b) else next
           | _ \<Rightarrow> next))"

definition CheckConfigForkOrder :: "ChainConfig \<Rightarrow> forkOrderError option" where
  "CheckConfigForkOrder c = forkOrder None
     [(''homesteadBlock'', HomesteadBlock c, False),
      (''daoForkBlock'', DAOForkBlock c, True),
      (''eip150Block'', EIP150Block c, False),
      (''eip155Block'', EIP155Block c, False),
      (''eip158Block'', EIP158Block c, False),
      (''byzantiumBlock'', ByzantiumBlock c, False),
      (''constantinopleBlock'', ConstantinopleBlock c, False),
      (''petersburgBlock'', PetersburgBlock c, False),
      (''istanbulBlock'', IstanbulBlock c, False),
      (''muirGlacierBlock'', MuirGlacierBlock c, True),
      (''berlinBlock'', BerlinBlock c, False),
      (''londonBlock'', LondonBlock c, False)]"

section \<open>Lemmas\<close>

text \<open>A chain of forks: each active only when the one before it is.\<close>

definition forksOrdered :: "Rules \<Rightarrow> bool" where
  "forksOrdered R \<longleftrightarrow> (IsLondon R \<longrightarrow> IsBerlin R) \<and> (IsBerlin R \<longrightarrow> IsIstanbul R) \<and> (IsIstanbul R \<longrightarrow> IsPetersburg R)
     \<and> (IsPetersburg R \<longrightarrow> IsConstantinople R) \<and> (IsConstantinople R \<longrightarrow> IsByzantium R) \<and> (IsByzantium R \<longrightarrow> IsEIP158 R)
     \<and> (IsEIP158 R \<longrightarrow> IsEIP155 R) \<and> (IsEIP155 R \<longrightarrow> IsEIP150 R) \<and> (IsEIP150 R \<longrightarrow> IsHomestead R)"

text \<open>What an accepted list says of the fork before: every later fork that is set starts no earlier.\<close>

lemma forkOrder_later:
  assumes "forkOrder (Some (nm, b)) forks = None" and "(n', Some b', opt) \<in> set forks"
  shows "\<exists>a. b = Some a \<and> a \<le> b'"
  using assms
proof (induction forks arbitrary: nm b)
  case (Cons f forks)
  obtain n1 b1 o1 where f: "f = (n1, b1, o1)" by (cases f) auto
  show ?case
  proof (cases "f = (n', Some b', opt)")
    case True
    then show ?thesis using Cons.prems(1) by (auto simp: Let_def split: option.splits if_splits)
  next
    case False
    then have m: "(n', Some b', opt) \<in> set forks" using Cons.prems(2) by simp
    show ?thesis
    proof (cases b1)
      case None
      then show ?thesis
        using Cons.prems(1) Cons.IH [OF _ m] unfolding f by (cases o1; cases b) (auto simp: Let_def)
    next
      case (Some c)
      then obtain a where "b = Some a" "a \<le> c" and n: "forkOrder (Some (n1, Some c)) forks = None"
        using Cons.prems(1) unfolding f by (auto simp: Let_def split: option.splits if_splits)
      then show ?thesis using Cons.IH [OF n m] by auto
    qed
  qed
qed simp

lemma forkOrder_suffix:
  assumes "forkOrder prev (xs @ ys) = None"
  shows "\<exists>prev'. forkOrder prev' ys = None"
  using assms
proof (induction xs arbitrary: prev)
  case Nil
  then show ?case by auto
next
  case (Cons x xs)
  obtain n b opt where "x = (n, b, opt)" by (cases x) auto
  then have "forkOrder (if \<not> opt \<or> b \<noteq> None then Some (n, b) else prev) (xs @ ys) = None"
    using Cons.prems by (auto simp: Let_def split: option.splits if_splits)
  then show ?case by (rule Cons.IH)
qed

lemma forkOrder_active:
  assumes "forkOrder prev fs = None" and "i < j" "j < length fs" "fst (snd (fs ! i)) = b" "\<not> snd (snd (fs ! i))"
    "fst (snd (fs ! j)) = b'" and "isForked b' num"
  shows "isForked b num"
proof -
  obtain n n' opt where nth: "fs ! i = (n, b, False)" "fs ! j = (n', b', opt)"
    using assms(4-6) by (cases "fs ! i"; cases "fs ! j") auto
  have d: "fs = take i fs @ (n, b, False) # drop (Suc i) fs"
    using assms(2,3) nth(1) id_take_nth_drop [of i fs] by simp
  then obtain prev' where "forkOrder prev' ((n, b, False) # drop (Suc i) fs) = None"
    using assms(1) forkOrder_suffix [of prev "take i fs" "(n, b, False) # drop (Suc i) fs"] by auto
  then have t: "forkOrder (Some (n, b)) (drop (Suc i) fs) = None"
    by (auto simp: Let_def split: option.splits if_splits)
  have m: "(n', b', opt) \<in> set (drop (Suc i) fs)"
    unfolding nth(2) [symmetric] using assms(2,3) nth_mem [of "j - Suc i" "drop (Suc i) fs"] by simp
  obtain x where x: "b' = Some x" "x \<le> num" using assms(7) by (auto simp: isForked_def split: option.splits)
  then show ?thesis using forkOrder_later [OF t] m by (force simp: isForked_def)
qed

lemma accepted_forksOrdered:
  assumes "CheckConfigForkOrder c = None"
  shows "forksOrdered (rulesAt c num)"
proof -
  note active = forkOrder_active [OF assms [unfolded CheckConfigForkOrder_def]]
  have "isForked (LondonBlock c) num \<Longrightarrow> isForked (BerlinBlock c) num" by (rule active [of 10 11]) simp_all
  moreover have "isForked (BerlinBlock c) num \<Longrightarrow> isForked (IstanbulBlock c) num" by (rule active [of 8 10]) simp_all
  moreover have "isForked (IstanbulBlock c) num \<Longrightarrow> isForked (PetersburgBlock c) num" by (rule active [of 7 8]) simp_all
  moreover have "isForked (PetersburgBlock c) num \<Longrightarrow> isForked (ConstantinopleBlock c) num" by (rule active [of 6 7]) simp_all
  moreover have "isForked (ConstantinopleBlock c) num \<Longrightarrow> isForked (ByzantiumBlock c) num" by (rule active [of 5 6]) simp_all
  moreover have "isForked (ByzantiumBlock c) num \<Longrightarrow> isForked (EIP158Block c) num" by (rule active [of 4 5]) simp_all
  moreover have "isForked (EIP158Block c) num \<Longrightarrow> isForked (EIP155Block c) num" by (rule active [of 3 4]) simp_all
  moreover have "isForked (EIP155Block c) num \<Longrightarrow> isForked (EIP150Block c) num" by (rule active [of 2 3]) simp_all
  moreover have "isForked (EIP150Block c) num \<Longrightarrow> isForked (HomesteadBlock c) num" by (rule active [of 0 2]) simp_all
  ultimately show ?thesis unfolding forksOrdered_def rulesAt_def by auto
qed

end
