(* ===== verification/VM.thy ===== *)
theory VM
  imports Evm ChainConfig
begin

text \<open>
  The data of the virtual machine, core/vm: its 256-bit numbers, the contract and the context of a
  call, stack.go, memory.go, common.go, gas.go, the jump destination analysis of analysis.go and contract.go.

  A \<open>vm\<close> is the state of one run of the interpreter: program counter, stack (its top first), memory,
  the gas of the contract, the data the last call returned and the state database.
\<close>

unbundle bit_operations_syntax

section \<open>Definitions\<close>

subsection \<open>256-bit numbers\<close>

type_synonym uint256 = "256 word"

text \<open>Arithmetic on the stack is done by the package \<open>uint256\<close>; its methods are parameters.\<close>

record uint256_lib =
  u_Add :: "uint256 \<Rightarrow> uint256 \<Rightarrow> uint256"
  u_Sub :: "uint256 \<Rightarrow> uint256 \<Rightarrow> uint256"
  u_Mul :: "uint256 \<Rightarrow> uint256 \<Rightarrow> uint256"
  u_Div :: "uint256 \<Rightarrow> uint256 \<Rightarrow> uint256"
  u_SDiv :: "uint256 \<Rightarrow> uint256 \<Rightarrow> uint256"
  u_Mod :: "uint256 \<Rightarrow> uint256 \<Rightarrow> uint256"
  u_SMod :: "uint256 \<Rightarrow> uint256 \<Rightarrow> uint256"
  u_Exp :: "uint256 \<Rightarrow> uint256 \<Rightarrow> uint256"
  u_ExtendSign :: "uint256 \<Rightarrow> uint256 \<Rightarrow> uint256"
  u_AddMod :: "uint256 \<Rightarrow> uint256 \<Rightarrow> uint256 \<Rightarrow> uint256"
  u_MulMod :: "uint256 \<Rightarrow> uint256 \<Rightarrow> uint256 \<Rightarrow> uint256"
  u_Not :: "uint256 \<Rightarrow> uint256"
  u_And :: "uint256 \<Rightarrow> uint256 \<Rightarrow> uint256"
  u_Or :: "uint256 \<Rightarrow> uint256 \<Rightarrow> uint256"
  u_Xor :: "uint256 \<Rightarrow> uint256 \<Rightarrow> uint256"
  u_Lt :: "uint256 \<Rightarrow> uint256 \<Rightarrow> bool"
  u_Gt :: "uint256 \<Rightarrow> uint256 \<Rightarrow> bool"
  u_Eq :: "uint256 \<Rightarrow> uint256 \<Rightarrow> bool"
  u_Slt :: "uint256 \<Rightarrow> uint256 \<Rightarrow> bool"
  u_Sgt :: "uint256 \<Rightarrow> uint256 \<Rightarrow> bool"
  u_Byte :: "uint256 \<Rightarrow> uint256 \<Rightarrow> uint256"
  u_Lsh :: "uint256 \<Rightarrow> nat \<Rightarrow> uint256"
  u_Rsh :: "uint256 \<Rightarrow> nat \<Rightarrow> uint256"
  u_SRsh :: "uint256 \<Rightarrow> nat \<Rightarrow> uint256"

text \<open>The conversions between a number, its low words and its 32 bytes.\<close>

definition IsUint64 :: "uint256 \<Rightarrow> bool" where
  "IsUint64 x \<longleftrightarrow> x \<le> 0xFFFFFFFFFFFFFFFF"

definition Uint64 :: "uint256 \<Rightarrow> u64" where
  "Uint64 x = ucast x"

definition SetUint64 :: "u64 \<Rightarrow> uint256" where
  "SetUint64 x = ucast x"

definition Bytes20 :: "uint256 \<Rightarrow> address" where
  "Bytes20 x = ucast x"

definition SetAddress :: "address \<Rightarrow> uint256" where
  "SetAddress a = ucast a"

definition Bytes32 :: "uint256 \<Rightarrow> string" where
  "Bytes32 x = map (\<lambda>i. char_of (unat x div 256 ^ (31 - i))) [0..<32]"

definition SetBytes :: "string \<Rightarrow> uint256" where
  "SetBytes bs = of_nat (foldl (\<lambda>acc c. acc * 256 + of_char c) 0 bs)"

definition FromBig :: "int \<Rightarrow> uint256" where
  "FromBig b = word_of_int b"

fun bit_length :: "nat \<Rightarrow> nat" where
  "bit_length n = (if n = 0 then 0 else Suc (bit_length (n div 2)))"

declare bit_length.simps [simp del]

definition BitLen :: "uint256 \<Rightarrow> nat" where
  "BitLen x = bit_length (unat x)"

subsection \<open>Go slices\<close>

text \<open>\<open>xs[i:j]\<close> for a slice whose backing array has room for \<open>c\<close> elements, zero beyond the length.\<close>

definition slice :: "nat \<Rightarrow> int \<Rightarrow> int \<Rightarrow> string \<Rightarrow> string panics" where
  "slice c i j xs =
     (if 0 \<le> i \<and> i \<le> j \<and> j \<le> int (max c (length xs))
      then Some (take (nat (j - i)) (drop (nat i) (xs @ replicate (nat j - length xs) (CHR 0x00))))
      else None)"

text \<open>\<open>make([]byte, n)\<close> panics when the size is negative or beyond the address space.\<close>

definition maxAlloc :: int where
  "maxAlloc = 2 ^ 48"

definition make_bytes :: "int \<Rightarrow> string panics" where
  "make_bytes n = (if 0 \<le> n \<and> n \<le> maxAlloc then Some (replicate (nat n) (CHR 0x00)) else None)"

text \<open>\<open>copy(dst[off:], src)\<close> where the destination is long enough.\<close>

definition copy_at :: "nat \<Rightarrow> string \<Rightarrow> string \<Rightarrow> string" where
  "copy_at off src dst = take off dst @ src @ drop (off + length src) dst"

definition RightPadBytes :: "string \<Rightarrow> int \<Rightarrow> string" where
  "RightPadBytes sl l = (if l \<le> int (length sl) then sl else sl @ replicate (nat l - length sl) (CHR 0x00))"

subsection \<open>Contracts and the machine\<close>

record Contract =
  CallerAddress :: address
  self :: address
  Code :: string
  Input :: string
  callvalue :: int

record vm =
  pc :: u64
  stack :: "uint256 list"
  store :: string
  lastGasCost :: u64
  Gas :: u64
  returnData :: string
  callGasTemp :: u64
  db :: StateDB

record PrecompiledContract =
  RequiredGas :: "string \<Rightarrow> u64"
  Run_precompiled :: "string \<Rightarrow> string \<times> string option"

text \<open>The block and transaction context. \<open>host\<close> holds what \<open>HandleNFT\<close> needs; its depth, precompiled contracts and interpreter
  are set per call. \<open>capacity\<close> is the capacity Go gives the memory of a given length, which it leaves open.\<close>

record vmctx =
  host :: evm
  lib :: uint256_lib
  precompiles :: "address \<Rightarrow> PrecompiledContract option"
  chainConfig :: ChainConfig
  Origin :: address
  GasPrice :: int
  Coinbase :: address
  GasLimit :: u64
  Time :: int
  Difficulty :: int
  BaseFee :: "int option"
  GetHash :: "u64 \<Rightarrow> hash"
  EnablePreimageRecording :: bool
  capacity :: "nat \<Rightarrow> nat"

text \<open>The rules of the block, fixed when the machine is made.\<close>

definition chainRules :: "'a vmctx_scheme \<Rightarrow> Rules" where
  "chainRules C = rulesAt (chainConfig C) (BlockNumber_of (host C))"

text \<open>What a run of code returns: the state, the output, the gas left and the error.\<close>

type_synonym runResult = "(StateDB \<times> string \<times> u64 \<times> string option) panics"

text \<open>\<open>EVMInterpreter.Run\<close> as the operations that call other contracts see it: call depth, the read-only flag of the
  interpreter, the contract, the input, the read-only request and the gas.\<close>

type_synonym runner = "int \<Rightarrow> bool \<Rightarrow> Contract \<Rightarrow> string \<Rightarrow> bool \<Rightarrow> u64 \<Rightarrow> StateDB \<Rightarrow> runResult"

record env = vmctx +
  run_of :: runner
  depth_of :: int
  readOnly :: bool

subsection \<open>stack.go\<close>

definition push :: "uint256 \<Rightarrow> vm \<Rightarrow> vm" where
  "push d m = m\<lparr>stack := d # stack m\<rparr>"

definition pop :: "vm \<Rightarrow> (uint256 \<times> vm) panics" where
  "pop m = (case stack m of [] \<Rightarrow> None | x # xs \<Rightarrow> Some (x, m\<lparr>stack := xs\<rparr>))"

definition Back :: "nat \<Rightarrow> vm \<Rightarrow> uint256 panics" where
  "Back n m = (if n < length (stack m) then Some (stack m ! n) else None)"

definition peek :: "vm \<Rightarrow> uint256 panics" where
  "peek m = Back 0 m"

text \<open>A write through the pointer that \<open>peek\<close> returns.\<close>

definition set_peek :: "uint256 \<Rightarrow> vm \<Rightarrow> vm" where
  "set_peek x m = m\<lparr>stack := (stack m)[0 := x]\<rparr>"

definition dup :: "nat \<Rightarrow> vm \<Rightarrow> vm panics" where
  "dup n m = (if 0 < n \<and> n \<le> length (stack m) then Some (push (stack m ! (n - 1)) m) else None)"

definition swap :: "nat \<Rightarrow> vm \<Rightarrow> vm panics" where
  "swap n m =
     (if 0 < n \<and> n \<le> length (stack m)
      then Some (m\<lparr>stack := (stack m)[n - 1 := stack m ! 0, 0 := stack m ! (n - 1)]\<rparr>) else None)"

subsection \<open>memory.go\<close>

text \<open>Offsets and sizes of type \<open>int64\<close> are given by their 64 bits.\<close>

definition mem_Len :: "vm \<Rightarrow> u64" where
  "mem_Len m = of_nat (length (store m))"

definition mem_Set :: "u64 \<Rightarrow> u64 \<Rightarrow> string \<Rightarrow> vm \<Rightarrow> vm panics" where
  "mem_Set offset sz val m =
     (if sz > 0 then
        if offset + sz > mem_Len m then None
        else if offset > offset + sz then None
        else Some (m\<lparr>store := copy_at (unat offset) (take (unat sz) val) (store m)\<rparr>)
      else Some m)"

definition mem_Set32 :: "u64 \<Rightarrow> uint256 \<Rightarrow> vm \<Rightarrow> vm panics" where
  "mem_Set32 offset val m =
     (if offset + 32 > mem_Len m then None
      else if offset > offset + 32 then None
      else Some (m\<lparr>store := copy_at (unat offset) (Bytes32 val) (store m)\<rparr>))"

definition Resize :: "u64 \<Rightarrow> vm \<Rightarrow> vm panics" where
  "Resize sz m =
     (if mem_Len m < sz
      then do { z \<leftarrow> make_bytes (sint (sz - mem_Len m)); Some (m\<lparr>store := store m @ z\<rparr>) }
      else Some m)"

definition GetPtr :: "env \<Rightarrow> u64 \<Rightarrow> u64 \<Rightarrow> vm \<Rightarrow> string panics" where
  "GetPtr E offset sz m =
     (if sz = 0 then Some []
      else if int (length (store m)) > sint offset
      then slice (capacity E (length (store m))) (sint offset) (sint (offset + sz)) (store m)
      else Some [])"

definition GetCopy :: "env \<Rightarrow> u64 \<Rightarrow> u64 \<Rightarrow> vm \<Rightarrow> string panics" where
  "GetCopy E offset sz m =
     (if sz = 0 then Some []
      else if int (length (store m)) > sint offset
      then do { cpy \<leftarrow> make_bytes (sint sz);
                src \<leftarrow> slice (capacity E (length (store m))) (sint offset) (sint (offset + sz)) (store m);
                Some (copy_at 0 src cpy) }
      else Some [])"


subsection \<open>common.go\<close>

definition calcMemSize64WithUint :: "uint256 \<Rightarrow> u64 \<Rightarrow> u64 \<times> bool" where
  "calcMemSize64WithUint off length64 =
     (if length64 = 0 then (0, False)
      else if \<not> IsUint64 off then (0, True)
      else let offset64 = Uint64 off; val = offset64 + length64 in (val, val < offset64))"

definition calcMemSize64 :: "uint256 \<Rightarrow> uint256 \<Rightarrow> u64 \<times> bool" where
  "calcMemSize64 off l = (if \<not> IsUint64 l then (0, True) else calcMemSize64WithUint off (Uint64 l))"

definition getData :: "string \<Rightarrow> u64 \<Rightarrow> u64 \<Rightarrow> string panics" where
  "getData dat start sz =
     (let len = of_nat (length dat);
          start' = (if start > len then len else start);
          fin = start' + sz;
          fin' = (if fin > len then len else fin)
      in if fin' < start' then None
         else Some (RightPadBytes (take (unat fin' - unat start') (drop (unat start') dat)) (sint sz)))"

definition toWordSize :: "u64 \<Rightarrow> u64" where
  "toWordSize sz = (if sz > 0xFFFFFFFFFFFFFFFF - 31 then 0xFFFFFFFFFFFFFFFF div 32 + 1 else (sz + 31) div 32)"

subsection \<open>math.SafeAdd and math.SafeMul\<close>

definition SafeAdd :: "u64 \<Rightarrow> u64 \<Rightarrow> u64 \<times> bool" where
  "SafeAdd x y = (x + y, unat x + unat y \<ge> 2 ^ 64)"

definition SafeMul :: "u64 \<Rightarrow> u64 \<Rightarrow> u64 \<times> bool" where
  "SafeMul x y = (x * y, unat x * unat y \<ge> 2 ^ 64)"

subsection \<open>gas.go\<close>

definition GasQuickStep :: u64 where "GasQuickStep = 2"
definition GasFastestStep :: u64 where "GasFastestStep = 3"
definition GasFastStep :: u64 where "GasFastStep = 5"
definition GasMidStep :: u64 where "GasMidStep = 8"
definition GasSlowStep :: u64 where "GasSlowStep = 10"
definition GasExtStep :: u64 where "GasExtStep = 20"

definition ErrGasUintOverflow :: string where "ErrGasUintOverflow = ''gas uint64 overflow''"

text \<open>The gas of a call, or none when the request does not fit.\<close>

definition callGas :: "bool \<Rightarrow> u64 \<Rightarrow> u64 \<Rightarrow> uint256 \<Rightarrow> u64 option" where
  "callGas isEip150 availableGas base callCost =
     (let available = availableGas - base; gas = available - available div 64
      in if isEip150 \<and> (\<not> IsUint64 callCost \<or> gas < Uint64 callCost) then Some gas
         else if \<not> IsUint64 callCost then None
         else Some (Uint64 callCost))"

subsection \<open>contract.go\<close>

definition UseGas :: "u64 \<Rightarrow> vm \<Rightarrow> vm \<times> bool" where
  "UseGas gas m = (if Gas m < gas then (m, False) else (m\<lparr>Gas := Gas m - gas\<rparr>, True))"

definition GetOp :: "string \<Rightarrow> u64 \<Rightarrow> u8" where
  "GetOp c n = (if n < of_nat (length c) then of_char (c ! unat n) else 0)"

subsection \<open>analysis.go\<close>

type_synonym bitvec = "byte list"

definition JUMPDEST :: u8 where "JUMPDEST = 0x5b"
definition PUSH1 :: u8 where "PUSH1 = 0x60"
definition PUSH32 :: u8 where "PUSH32 = 0x7f"

definition or_byte :: "nat \<Rightarrow> byte \<Rightarrow> bitvec \<Rightarrow> bitvec" where
  "or_byte i b bits = bits[i := (bits ! i) OR b]"

definition set1 :: "nat \<Rightarrow> bitvec \<Rightarrow> bitvec" where
  "set1 pos bits = or_byte (pos div 8) (drop_bit (pos mod 8) 0x80) bits"

definition setN :: "16 word \<Rightarrow> nat \<Rightarrow> bitvec \<Rightarrow> bitvec" where
  "setN flag pos bits =
     (let a = drop_bit (pos mod 8) flag;
          bits1 = or_byte (pos div 8) (ucast (drop_bit 8 a)) bits;
          b = (ucast a :: byte)
      in if b \<noteq> 0 then bits1[pos div 8 + 1 := b] else bits1)"

definition set8 :: "nat \<Rightarrow> bitvec \<Rightarrow> bitvec" where
  "set8 pos bits =
     (let a = drop_bit (pos mod 8) (0xFF :: byte)
      in (or_byte (pos div 8) a bits)[pos div 8 + 1 := NOT a])"

definition set16 :: "nat \<Rightarrow> bitvec \<Rightarrow> bitvec" where
  "set16 pos bits =
     (let a = drop_bit (pos mod 8) (0xFF :: byte)
      in (or_byte (pos div 8) a bits)[pos div 8 + 1 := 0xFF, pos div 8 + 2 := NOT a])"

definition codeSegment :: "bitvec \<Rightarrow> nat \<Rightarrow> bool" where
  "codeSegment bits pos = ((bits ! (pos div 8)) AND drop_bit (pos mod 8) 0x80 = 0)"

text \<open>The masks \<open>set2BitsMask\<close> to \<open>set7BitsMask\<close>.\<close>

definition setBitsMask :: "nat \<Rightarrow> 16 word" where
  "setBitsMask n = [0, 0, 0xC000, 0xE000, 0xF000, 0xF800, 0xFC00, 0xFE00] ! n"

text \<open>The bits of the data of one push: two loops in steps of 16 and 8, then the rest.\<close>

fun set16s :: "nat \<Rightarrow> nat \<Rightarrow> bitvec \<Rightarrow> nat \<times> nat \<times> bitvec" where
  "set16s numbits p bits =
     (if numbits \<ge> 16 then set16s (numbits - 16) (p + 16) (set16 p bits) else (numbits, p, bits))"

fun set8s :: "nat \<Rightarrow> nat \<Rightarrow> bitvec \<Rightarrow> nat \<times> nat \<times> bitvec" where
  "set8s numbits p bits =
     (if numbits \<ge> 8 then set8s (numbits - 8) (p + 8) (set8 p bits) else (numbits, p, bits))"

declare set16s.simps [simp del] set8s.simps [simp del]

definition setData :: "nat \<Rightarrow> nat \<Rightarrow> bitvec \<Rightarrow> nat \<times> bitvec" where
  "setData numbits p bits =
     (let (n1, p1, bits1) = set16s numbits p bits;
          (n2, p2, bits2) = set8s n1 p1 bits1
      in if n2 = 0 then (p2, bits2)
         else if n2 = 1 then (p2 + 1, set1 p2 bits2)
         else (p2 + n2, setN (setBitsMask n2) p2 bits2))"

lemma set16s_advances: "set16s n p bs = (n', p', bs') \<Longrightarrow> p' + n' = p + n"
  by (induction n p bs rule: set16s.induct) (subst (asm) (2) set16s.simps, auto split: if_splits)

lemma set8s_advances: "set8s n p bs = (n', p', bs') \<Longrightarrow> p' + n' = p + n"
  by (induction n p bs rule: set8s.induct) (subst (asm) (2) set8s.simps, auto split: if_splits)

lemma setData_advances: "(p', bs') = setData n p bs \<Longrightarrow> p' = p + n"
  by (auto simp: setData_def Let_def split: prod.splits if_splits dest!: set16s_advances set8s_advances)

lemma setData_fst: "fst (setData n p bs) = p + n"
  using setData_advances [of "fst (setData n p bs)" "snd (setData n p bs)"] by simp

function codeBitmapInternal :: "string \<Rightarrow> nat \<Rightarrow> bitvec \<Rightarrow> bitvec" where
  "codeBitmapInternal c p bits =
     (if p < length c then
        let op = (of_char (c ! p) :: u8) in
        if op < PUSH1 \<or> op > PUSH32 then codeBitmapInternal c (p + 1) bits
        else let (p', bits') = setData (unat (op - PUSH1 + 1)) (p + 1) bits
             in codeBitmapInternal c p' bits'
      else bits)"
  by pat_completeness auto
termination by (relation "measure (\<lambda>(c, p, bits). length c - p)") (auto simp: setData_fst case_prod_beta)

declare codeBitmapInternal.simps [simp del]

definition codeBitmap :: "string \<Rightarrow> bitvec" where
  "codeBitmap c = codeBitmapInternal c 0 (replicate (length c div 8 + 1 + 4) 0)"

text \<open>The analysis is kept per code hash; here it is made anew for the code at hand.\<close>

definition validJumpdest :: "string \<Rightarrow> uint256 \<Rightarrow> bool" where
  "validJumpdest c dest =
     (if \<not> IsUint64 dest \<or> Uint64 dest \<ge> of_nat (length c) then False
      else if (of_char (c ! unat (Uint64 dest)) :: u8) \<noteq> JUMPDEST then False
      else codeSegment (codeBitmap c) (unat (Uint64 dest)))"

end
