(* ===== verification/VMGas.thy ===== *)
theory VMGas
  imports VM
begin

text \<open>
  The dynamic gas of the operations: memory_table.go, gas_table.go and operations_acl.go of core/vm. A gas
  function returns the machine it changed (access list, refund, cost of the memory, gas set aside for a call), the
  gas and an error.
\<close>

section \<open>Definitions\<close>

type_synonym gasResult = "(vm \<times> u64 \<times> string option) panics"
type_synonym gasFunc = "env \<Rightarrow> Contract \<Rightarrow> u64 \<Rightarrow> vm \<Rightarrow> gasResult"
type_synonym memorySizeFunc = "vm \<Rightarrow> (u64 \<times> bool) panics"

definition ErrOutOfGas :: string where "ErrOutOfGas = ''out of gas''"

definition gas_ok :: "u64 \<Rightarrow> vm \<Rightarrow> gasResult" where
  "gas_ok g m = Some (m, g, None)"

definition gas_err :: "string \<Rightarrow> vm \<Rightarrow> gasResult" where
  "gas_err e m = Some (m, 0, Some e)"

text \<open>\<open>if err != nil { return 0, err }\<close> after a gas function, and \<open>if overflow\<close> after a computation.\<close>

definition gas_then :: "gasResult \<Rightarrow> (u64 \<Rightarrow> vm \<Rightarrow> gasResult) \<Rightarrow> gasResult" where
  "gas_then r f = (case r of None \<Rightarrow> None | Some (m, g, None) \<Rightarrow> f g m | Some (m, g, Some e) \<Rightarrow> gas_err e m)"

definition no_overflow :: "u64 \<times> bool \<Rightarrow> (u64 \<Rightarrow> vm \<Rightarrow> gasResult) \<Rightarrow> vm \<Rightarrow> gasResult" where
  "no_overflow r f m = (if snd r then gas_err ErrGasUintOverflow m else f (fst r) m)"

subsection \<open>memory_table.go\<close>

text \<open>The memory an operation needs, from the stack positions of its offset and its size.\<close>

definition memoryArea :: "nat \<Rightarrow> nat \<Rightarrow> memorySizeFunc" where
  "memoryArea i j m = do { off \<leftarrow> Back i m; l \<leftarrow> Back j m; Some (calcMemSize64 off l) }"

definition memoryFixed :: "u64 \<Rightarrow> memorySizeFunc" where
  "memoryFixed l m = do { off \<leftarrow> Back 0 m; Some (calcMemSize64WithUint off l) }"

text \<open>The larger of two areas: that of the result and that of the arguments of a call.\<close>

definition memoryAreas :: "nat \<Rightarrow> nat \<Rightarrow> nat \<Rightarrow> nat \<Rightarrow> memorySizeFunc" where
  "memoryAreas i j k l m =
     do { (x, ov) \<leftarrow> memoryArea i j m;
          if ov then Some (0, True)
          else do { (y, ov') \<leftarrow> memoryArea k l m;
                    if ov' then Some (0, True) else Some (if x > y then x else y, False) } }"

definition memorySha3 :: memorySizeFunc where "memorySha3 = memoryArea 0 1"
definition memoryCallDataCopy :: memorySizeFunc where "memoryCallDataCopy = memoryArea 0 2"
definition memoryReturnDataCopy :: memorySizeFunc where "memoryReturnDataCopy = memoryArea 0 2"
definition memoryCodeCopy :: memorySizeFunc where "memoryCodeCopy = memoryArea 0 2"
definition memoryExtCodeCopy :: memorySizeFunc where "memoryExtCodeCopy = memoryArea 1 3"
definition memoryMLoad :: memorySizeFunc where "memoryMLoad = memoryFixed 32"
definition memoryMStore8 :: memorySizeFunc where "memoryMStore8 = memoryFixed 1"
definition memoryMStore :: memorySizeFunc where "memoryMStore = memoryFixed 32"
definition memoryCreate :: memorySizeFunc where "memoryCreate = memoryArea 1 2"
definition memoryCreate2 :: memorySizeFunc where "memoryCreate2 = memoryArea 1 2"
definition memoryCall :: memorySizeFunc where "memoryCall = memoryAreas 5 6 3 4"
definition memoryDelegateCall :: memorySizeFunc where "memoryDelegateCall = memoryAreas 4 5 2 3"
definition memoryStaticCall :: memorySizeFunc where "memoryStaticCall = memoryAreas 4 5 2 3"
definition memoryReturn :: memorySizeFunc where "memoryReturn = memoryArea 0 1"
definition memoryRevert :: memorySizeFunc where "memoryRevert = memoryArea 0 1"
definition memoryLog :: memorySizeFunc where "memoryLog = memoryArea 0 1"

subsection \<open>gas_table.go\<close>

definition memoryGasCost :: "u64 \<Rightarrow> vm \<Rightarrow> gasResult" where
  "memoryGasCost newMemSize m =
     (if newMemSize = 0 then gas_ok 0 m
      else if newMemSize > 0x1FFFFFFFE0 then gas_err ErrGasUintOverflow m
      else let newMemSizeWords = toWordSize newMemSize
           in if newMemSizeWords * 32 > mem_Len m
              then let newTotalFee = newMemSizeWords * 3 + newMemSizeWords * newMemSizeWords div 512
                   in gas_ok (newTotalFee - lastGasCost m) (m\<lparr>lastGasCost := newTotalFee\<rparr>)
              else gas_ok 0 m)"

text \<open>Gas per word of the data whose size is at a stack position, on top of the memory.\<close>

definition perWord :: "nat \<Rightarrow> u64 \<Rightarrow> gasFunc" where
  "perWord pos price E K memorySize m =
     gas_then (memoryGasCost memorySize m) (\<lambda>gas m.
       case Back pos m of None \<Rightarrow> None | Some w \<Rightarrow>
       no_overflow (Uint64 w, \<not> IsUint64 w) (\<lambda>words.
       no_overflow (SafeMul (toWordSize words) price) (\<lambda>words.
       no_overflow (SafeAdd gas words) gas_ok)) m)"

definition memoryCopierGas :: "nat \<Rightarrow> gasFunc" where
  "memoryCopierGas stackpos = perWord stackpos 3"

definition gasCallDataCopy :: gasFunc where "gasCallDataCopy = memoryCopierGas 2"
definition gasCodeCopy :: gasFunc where "gasCodeCopy = memoryCopierGas 2"
definition gasExtCodeCopy :: gasFunc where "gasExtCodeCopy = memoryCopierGas 3"
definition gasReturnDataCopy :: gasFunc where "gasReturnDataCopy = memoryCopierGas 2"

text \<open>A change of the refund counter before the gas is returned.\<close>

definition refunded :: "(StateDB \<Rightarrow> StateDB panics) \<Rightarrow> vm \<Rightarrow> vm panics" where
  "refunded f m = do { s \<leftarrow> f (db m); Some (m\<lparr>db := s\<rparr>) }"

text \<open>The refunds of net gas metering for a slot that was changed before in the transaction: its clearing is
  refunded or taken back, and a reset to the original value is refunded.\<close>

definition dirtyRefunds :: "u64 \<Rightarrow> u64 \<Rightarrow> u64 \<Rightarrow> hash \<Rightarrow> hash \<Rightarrow> hash \<Rightarrow> vm \<Rightarrow> vm panics" where
  "dirtyRefunds clearRefund resetClearRefund resetRefund original current val m =
     do { m1 \<leftarrow> (if original \<noteq> 0
                 then if current = 0 then refunded (SubRefund clearRefund) m
                      else if val = 0 then refunded (\<lambda>s. Some (AddRefund clearRefund s)) m else Some m
                 else Some m);
          if original = val
          then refunded (\<lambda>s. Some (AddRefund (if original = 0 then resetClearRefund else resetRefund) s)) m1
          else Some m1 }"

definition gasSStore :: gasFunc where
  "gasSStore E K memorySize m =
     do { y \<leftarrow> Back 1 m; x \<leftarrow> Back 0 m;
          let current = GetState (self K) x (db m);
          if IsPetersburg (chainRules E) \<or> \<not> IsConstantinople (chainRules E) then
            if current = 0 \<and> y \<noteq> 0 then gas_ok 20000 m
            else if current \<noteq> 0 \<and> y = 0 then gas_ok 5000 (m\<lparr>db := AddRefund 15000 (db m)\<rparr>)
            else gas_ok 5000 m
          else if current = y then gas_ok 200 m
          else let original = GetCommittedState (self K) x (db m) in
            if original = current then
              if original = 0 then gas_ok 20000 m
              else gas_ok 5000 (if y = 0 then m\<lparr>db := AddRefund 15000 (db m)\<rparr> else m)
            else do { m1 \<leftarrow> dirtyRefunds 15000 19800 4800 original current y m; gas_ok 200 m1 } }"

definition ErrSentry :: string where "ErrSentry = ''not enough gas for reentrancy sentry''"

definition gasSStoreEIP2200 :: gasFunc where
  "gasSStoreEIP2200 E K memorySize m =
     (if Gas m \<le> 2300 then gas_err ErrSentry m
      else do { y \<leftarrow> Back 1 m; x \<leftarrow> Back 0 m;
          let current = GetState (self K) x (db m);
          if current = y then gas_ok 800 m
          else let original = GetCommittedState (self K) x (db m) in
            if original = current then
              if original = 0 then gas_ok 20000 m
              else gas_ok 5000 (if y = 0 then m\<lparr>db := AddRefund 15000 (db m)\<rparr> else m)
            else do { m1 \<leftarrow> dirtyRefunds 15000 (20000 - 800) (5000 - 800) original current y m; gas_ok 800 m1 } })"

definition makeGasLog :: "u64 \<Rightarrow> gasFunc" where
  "makeGasLog n E K memorySize m =
     do { sz \<leftarrow> Back 1 m;
          no_overflow (Uint64 sz, \<not> IsUint64 sz) (\<lambda>requestedSize m.
            gas_then (memoryGasCost memorySize m) (\<lambda>gas.
            no_overflow (SafeAdd gas 375) (\<lambda>gas.
            no_overflow (SafeAdd gas (n * 375)) (\<lambda>gas.
            no_overflow (SafeMul requestedSize 8) (\<lambda>memorySizeGas.
            no_overflow (SafeAdd gas memorySizeGas) gas_ok))))) m }"

definition gasSha3 :: gasFunc where
  "gasSha3 = perWord 1 6"

definition pureMemoryGascost :: gasFunc where
  "pureMemoryGascost E K memorySize m = memoryGasCost memorySize m"

definition gasCreate2 :: gasFunc where
  "gasCreate2 = perWord 2 6"

text \<open>Gas per byte of the exponent, in the two price lists.\<close>

definition gasExp :: "u64 \<Rightarrow> gasFunc" where
  "gasExp expByte E K memorySize m =
     do { x \<leftarrow> Back 1 m;
          no_overflow (SafeAdd (of_nat ((BitLen x + 7) div 8) * expByte) 10) gas_ok m }"

definition gasExpFrontier :: gasFunc where "gasExpFrontier = gasExp 10"
definition gasExpEIP158 :: gasFunc where "gasExpEIP158 = gasExp 50"

text \<open>The gas a call takes with it is set aside in \<open>callGasTemp\<close> and added to the cost.\<close>

definition withCallGas :: "env \<Rightarrow> u64 \<Rightarrow> vm \<Rightarrow> gasResult" where
  "withCallGas E gas m =
     do { x \<leftarrow> Back 0 m;
          case callGas (IsEIP150 (chainRules E)) (Gas m) gas x of
            None \<Rightarrow> gas_err ErrGasUintOverflow (m\<lparr>callGasTemp := 0\<rparr>)
          | Some t \<Rightarrow> no_overflow (SafeAdd gas t) gas_ok (m\<lparr>callGasTemp := t\<rparr>) }"

definition gasCall :: gasFunc where
  "gasCall E K memorySize m =
     do { v \<leftarrow> Back 2 m; a \<leftarrow> Back 1 m;
          let transfersValue = (v \<noteq> 0);
          let address = Bytes20 a;
          let gas1 = (if IsEIP158 (chainRules E)
                      then if transfersValue \<and> Empty address (db m) then 25000 else 0
                      else if \<not> Exist address (db m) then 25000 else (0 :: u64));
          let gas2 = (if transfersValue then gas1 + 9000 else gas1);
          gas_then (memoryGasCost memorySize m) (\<lambda>memoryGas. no_overflow (SafeAdd gas2 memoryGas) (withCallGas E)) }"

definition gasCallCode :: gasFunc where
  "gasCallCode E K memorySize m =
     gas_then (memoryGasCost memorySize m) (\<lambda>memoryGas m.
       do { v \<leftarrow> Back 2 m;
            no_overflow (SafeAdd (if v \<noteq> 0 then 9000 else 0) memoryGas) (withCallGas E) m })"

definition gasDelegateCall :: gasFunc where
  "gasDelegateCall E K memorySize m = gas_then (memoryGasCost memorySize m) (withCallGas E)"

definition gasStaticCall :: gasFunc where
  "gasStaticCall E K memorySize m = gas_then (memoryGasCost memorySize m) (withCallGas E)"

definition gasSelfdestruct :: gasFunc where
  "gasSelfdestruct E K memorySize m =
     do { x \<leftarrow> (if IsEIP150 (chainRules E) then Back 0 m else Some 0);
          let address = Bytes20 x;
          let gas = (if IsEIP150 (chainRules E) then
                       if IsEIP158 (chainRules E)
                       then if Empty address (db m) \<and> GetBalance (self K) (db m) \<noteq> 0 then 5000 + 25000 else 5000
                       else if \<not> Exist address (db m) then 5000 + 25000 else 5000
                     else (0 :: u64));
          gas_ok gas (if \<not> HasSuicided (self K) (db m) then m\<lparr>db := AddRefund 24000 (db m)\<rparr> else m) }"

subsection \<open>operations_acl.go\<close>

definition ColdAccountAccessCostEIP2929 :: u64 where "ColdAccountAccessCostEIP2929 = 2600"
definition ColdSloadCostEIP2929 :: u64 where "ColdSloadCostEIP2929 = 2100"
definition WarmStorageReadCostEIP2929 :: u64 where "WarmStorageReadCostEIP2929 = 100"

definition makeGasSStoreFunc :: "u64 \<Rightarrow> gasFunc" where
  "makeGasSStoreFunc clearingRefund E K memorySize m =
     (if Gas m \<le> 2300 then gas_err ErrSentry m
      else do {
        y \<leftarrow> Back 1 m; slot \<leftarrow> peek m;
        let current = GetState (self K) slot (db m);
        (addrPresent, slotPresent) \<leftarrow> SlotInAccessList (self K) slot (db m);
        (cost, m) \<leftarrow> (if \<not> slotPresent
            then do { s \<leftarrow> AddSlotToAccessList (self K) slot (db m);
                      if \<not> addrPresent then None else Some (ColdSloadCostEIP2929, m\<lparr>db := s\<rparr>) }
            else Some (0, m));
        if current = y then gas_ok (cost + WarmStorageReadCostEIP2929) m
        else let original = GetCommittedState (self K) slot (db m) in
          if original = current then
            if original = 0 then gas_ok (cost + 20000) m
            else gas_ok (cost + (5000 - ColdSloadCostEIP2929))
                   (if y = 0 then m\<lparr>db := AddRefund clearingRefund (db m)\<rparr> else m)
          else do {
            m1 \<leftarrow> dirtyRefunds clearingRefund (20000 - WarmStorageReadCostEIP2929)
                   ((5000 - ColdSloadCostEIP2929) - WarmStorageReadCostEIP2929) original current y m;
            gas_ok (cost + WarmStorageReadCostEIP2929) m1 } })"

definition gasSStoreEIP2929 :: gasFunc where
  "gasSStoreEIP2929 = makeGasSStoreFunc 15000"

definition gasSStoreEIP3529 :: gasFunc where
  "gasSStoreEIP3529 = makeGasSStoreFunc (5000 - ColdSloadCostEIP2929 + 1900)"

definition gasSLoadEIP2929 :: gasFunc where
  "gasSLoadEIP2929 E K memorySize m =
     do { slot \<leftarrow> peek m;
          (_, slotPresent) \<leftarrow> SlotInAccessList (self K) slot (db m);
          if \<not> slotPresent
          then do { s \<leftarrow> AddSlotToAccessList (self K) slot (db m); gas_ok ColdSloadCostEIP2929 (m\<lparr>db := s\<rparr>) }
          else gas_ok WarmStorageReadCostEIP2929 m }"

text \<open>\<open>AddAddressToAccessList\<close> on the state of the machine.\<close>

definition warm :: "address \<Rightarrow> vm \<Rightarrow> vm" where
  "warm a m = m\<lparr>db := AddAddressToAccessList a (db m)\<rparr>"

definition gasExtCodeCopyEIP2929 :: gasFunc where
  "gasExtCodeCopyEIP2929 E K memorySize m =
     gas_then (gasExtCodeCopy E K memorySize m) (\<lambda>gas m.
       do { a \<leftarrow> peek m;
            if \<not> AddressInAccessList (Bytes20 a) (db m)
            then no_overflow (SafeAdd gas (ColdAccountAccessCostEIP2929 - WarmStorageReadCostEIP2929)) gas_ok (warm (Bytes20 a) m)
            else gas_ok gas m })"

definition gasEip2929AccountCheck :: gasFunc where
  "gasEip2929AccountCheck E K memorySize m =
     do { a \<leftarrow> peek m;
          if \<not> AddressInAccessList (Bytes20 a) (db m)
          then gas_ok (ColdAccountAccessCostEIP2929 - WarmStorageReadCostEIP2929) (warm (Bytes20 a) m)
          else gas_ok 0 m }"

definition makeCallVariantGasCallEIP2929 :: "gasFunc \<Rightarrow> gasFunc" where
  "makeCallVariantGasCallEIP2929 oldCalculator E K memorySize m =
     do { a \<leftarrow> Back 1 m;
          let coldCost = ColdAccountAccessCostEIP2929 - WarmStorageReadCostEIP2929;
          if AddressInAccessList (Bytes20 a) (db m) then oldCalculator E K memorySize m
          else let (m1, paid) = UseGas coldCost (warm (Bytes20 a) m) in
            if \<not> paid then gas_err ErrOutOfGas m1
            else do { (m2, gas, err) \<leftarrow> oldCalculator E K memorySize m1;
                      if err \<noteq> None then Some (m2, gas, err)
                      else gas_ok (gas + coldCost) (m2\<lparr>Gas := Gas m2 + coldCost\<rparr>) } }"

definition gasCallEIP2929 :: gasFunc where "gasCallEIP2929 = makeCallVariantGasCallEIP2929 gasCall"
definition gasDelegateCallEIP2929 :: gasFunc where "gasDelegateCallEIP2929 = makeCallVariantGasCallEIP2929 gasDelegateCall"
definition gasStaticCallEIP2929 :: gasFunc where "gasStaticCallEIP2929 = makeCallVariantGasCallEIP2929 gasStaticCall"
definition gasCallCodeEIP2929 :: gasFunc where "gasCallCodeEIP2929 = makeCallVariantGasCallEIP2929 gasCallCode"

definition makeSelfdestructGasFn :: "bool \<Rightarrow> gasFunc" where
  "makeSelfdestructGasFn refundsEnabled E K memorySize m =
     do { a \<leftarrow> peek m;
          let address = Bytes20 a;
          let cold = (\<not> AddressInAccessList address (db m));
          let m1 = (if cold then warm address m else m);
          let gas1 = (if cold then ColdAccountAccessCostEIP2929 else 0);
          let gas2 = (if Empty address (db m1) \<and> GetBalance (self K) (db m1) \<noteq> 0 then gas1 + 25000 else gas1);
          gas_ok gas2 (if refundsEnabled \<and> \<not> HasSuicided (self K) (db m1) then m1\<lparr>db := AddRefund 24000 (db m1)\<rparr> else m1) }"

definition gasSelfdestructEIP2929 :: gasFunc where "gasSelfdestructEIP2929 = makeSelfdestructGasFn True"
definition gasSelfdestructEIP3529 :: gasFunc where "gasSelfdestructEIP3529 = makeSelfdestructGasFn False"

end
