(* ===== verification/VMCalls.thy ===== *)
theory VMCalls
  imports VMGas
begin

text \<open>
  The ways code reaches other code, core/vm/evm.go: \<open>CallCode\<close>, \<open>DelegateCall\<close>, \<open>StaticCall\<close> and the creation of contracts,
  beside \<open>Call\<close>, and \<open>RunPrecompiledContract\<close> of contracts.go. They take the environment of the running contract, whose field \<open>run_of\<close> is the interpreter.
\<close>

section \<open>Definitions\<close>

subsection \<open>Precompiled contracts\<close>

definition RunPrecompiledContract :: "PrecompiledContract \<Rightarrow> string \<Rightarrow> u64 \<Rightarrow> string \<times> u64 \<times> string option" where
  "RunPrecompiledContract p input suppliedGas =
     (if suppliedGas < RequiredGas p input then ([], 0, Some ErrOutOfGas)
      else case Run_precompiled p input of (output, err) \<Rightarrow> (output, suppliedGas - RequiredGas p input, err))"

text \<open>The environment as \<open>Call\<close> sees it.\<close>

definition evm_at :: "env \<Rightarrow> evm" where
  "evm_at E = (host E)\<lparr>depth := depth_of E,
     precompile := (\<lambda>a. precompiles E a \<noteq> None),
     runPrecompiled := (\<lambda>a input gas. case precompiles E a of
        None \<Rightarrow> ([], gas, None) | Some p \<Rightarrow> RunPrecompiledContract p input gas),
     interpreter := (\<lambda>caller addr c input gas v s. run_of E (depth_of E) (readOnly E)
        \<lparr>CallerAddress = caller, self = addr, Code = c, Input = [], callvalue = v\<rparr> input False gas s)\<rparr>"

subsection \<open>Calls that keep the context\<close>

definition codeOf :: "address \<Rightarrow> StateDB \<Rightarrow> string" where
  "codeOf a s = (case GetCode a s of None \<Rightarrow> [] | Some c \<Rightarrow> c)"

text \<open>What the three calls share: the precompiled contract or the code, and the revert when it fails.\<close>

definition runOrRevert :: "env \<Rightarrow> address \<Rightarrow> Contract \<Rightarrow> string \<Rightarrow> bool \<Rightarrow> u64 \<Rightarrow> int \<Rightarrow> StateDB \<Rightarrow> runResult" where
  "runOrRevert E addr K input readonly gas snapshot s =
     do { (s1, ret, gas1, err) \<leftarrow> (case precompiles E addr of
            Some p \<Rightarrow> Some (s, RunPrecompiledContract p input gas)
          | None \<Rightarrow> run_of E (depth_of E) (readOnly E) K input readonly gas s);
          if err = None then Some (s1, ret, gas1, None)
          else do { s2 \<leftarrow> RevertToSnapshot snapshot s1;
                    Some (s2, ret, if err \<noteq> Some ErrExecutionReverted then 0 else gas1, err) } }"

definition CallCode :: "env \<Rightarrow> Contract \<Rightarrow> address \<Rightarrow> string \<Rightarrow> u64 \<Rightarrow> int \<Rightarrow> StateDB \<Rightarrow> runResult" where
  "CallCode E caller addr input gas v s =
     (if NoRecursion (host E) \<and> depth_of E > 0 then Some (s, [], gas, None)
      else if depth_of E > CallCreateDepth then Some (s, [], gas, Some ErrDepth)
      else if \<not> CanTransfer (self caller) v s then Some (s, [], gas, Some ErrInsufficientBalance)
      else let (s0, snapshot) = Snapshot s in
        runOrRevert E addr \<lparr>CallerAddress = self caller, self = self caller, Code = codeOf addr s0, Input = [], callvalue = v\<rparr>
          input False gas snapshot s0)"

text \<open>The caller of the caller and its value are kept.\<close>

definition DelegateCall :: "env \<Rightarrow> Contract \<Rightarrow> address \<Rightarrow> string \<Rightarrow> u64 \<Rightarrow> StateDB \<Rightarrow> runResult" where
  "DelegateCall E caller addr input gas s =
     (if NoRecursion (host E) \<and> depth_of E > 0 then Some (s, [], gas, None)
      else if depth_of E > CallCreateDepth then Some (s, [], gas, Some ErrDepth)
      else let (s0, snapshot) = Snapshot s in
        runOrRevert E addr \<lparr>CallerAddress = CallerAddress caller, self = self caller, Code = codeOf addr s0, Input = [],
            callvalue = callvalue caller\<rparr> input False gas snapshot s0)"

definition StaticCall :: "env \<Rightarrow> Contract \<Rightarrow> address \<Rightarrow> string \<Rightarrow> u64 \<Rightarrow> StateDB \<Rightarrow> runResult" where
  "StaticCall E caller addr input gas s =
     (if NoRecursion (host E) \<and> depth_of E > 0 then Some (s, [], gas, None)
      else if depth_of E > CallCreateDepth then Some (s, [], gas, Some ErrDepth)
      else let (s0, snapshot) = Snapshot s; s1 = AddBalance addr 0 s0 in
        runOrRevert E addr \<lparr>CallerAddress = self caller, self = addr, Code = codeOf addr s1, Input = [], callvalue = 0\<rparr>
          input True gas snapshot s1)"

subsection \<open>Creation of contracts\<close>

definition bytes :: "byte list \<Rightarrow> string" where
  "bytes bs = map (\<lambda>b. char_of (unat b)) bs"

text \<open>The RLP encoding of a number, and of the pair of an address and a number.\<close>

definition rlp_uint :: "u64 \<Rightarrow> string" where
  "rlp_uint n =
     (if n = 0 then [CHR 0x80]
      else let bs = bytes (big_Bytes (unat n))
           in if n < 0x80 then bs else char_of (0x80 + length bs) # bs)"

definition rlp_created :: "address \<Rightarrow> u64 \<Rightarrow> string" where
  "rlp_created b nonce =
     (let content = CHR 0x94 # bytes (Address_Bytes b) @ rlp_uint nonce
      in char_of (0xC0 + length content) # content)"

definition CreateAddress :: "keccak \<Rightarrow> address \<Rightarrow> u64 \<Rightarrow> address" where
  "CreateAddress k b nonce = Bytes20 (k (rlp_created b nonce))"

definition CreateAddress2 :: "keccak \<Rightarrow> address \<Rightarrow> uint256 \<Rightarrow> hash \<Rightarrow> address" where
  "CreateAddress2 k b salt inithash =
     Bytes20 (k (CHR 0xFF # bytes (Address_Bytes b) @ Bytes32 salt @ Bytes32 inithash))"

definition ErrContractAddressCollision :: string where "ErrContractAddressCollision = ''contract address collision''"
definition ErrMaxCodeSizeExceeded :: string where "ErrMaxCodeSizeExceeded = ''max code size exceeded''"
definition ErrInvalidCode :: string where "ErrInvalidCode = ''invalid code: must not begin with 0xef''"
definition ErrCodeStoreOutOfGas :: string where "ErrCodeStoreOutOfGas = ''contract creation code storage out of gas''"

definition MaxCodeSize :: nat where "MaxCodeSize = 24576"
definition CreateDataGas :: u64 where "CreateDataGas = 200"

type_synonym createResult = "(StateDB \<times> string \<times> address \<times> u64 \<times> string option) panics"

text \<open>The checks on the code that the constructor returned, in their order.\<close>

definition deployError :: "Rules \<Rightarrow> string \<Rightarrow> string option \<Rightarrow> string option" where
  "deployError R ret err =
     (let err1 = (if err = None \<and> IsEIP158 R \<and> length ret > MaxCodeSize then Some ErrMaxCodeSizeExceeded else err)
      in if err1 = None \<and> length ret \<ge> 1 \<and> ret ! 0 = CHR 0xEF \<and> IsLondon R then Some ErrInvalidCode else err1)"

text \<open>Payment for the code and its storage.\<close>

definition deploy :: "Rules \<Rightarrow> address \<Rightarrow> string \<Rightarrow> u64 \<Rightarrow> string option \<Rightarrow> StateDB \<Rightarrow> StateDB \<times> u64 \<times> string option" where
  "deploy R address ret gas err s =
     (case deployError R ret err of
        Some e \<Rightarrow> (s, gas, Some e)
      | None \<Rightarrow> let createDataGas = of_nat (length ret) * CreateDataGas in
          if gas < createDataGas then (s, gas, Some ErrCodeStoreOutOfGas)
          else (SetCode address ret s, gas - createDataGas, None))"

definition create :: "env \<Rightarrow> address \<Rightarrow> string \<Rightarrow> u64 \<Rightarrow> int \<Rightarrow> address \<Rightarrow> StateDB \<Rightarrow> createResult" where
  "create E caller c gas v address s =
     (if depth_of E > CallCreateDepth then Some (s, [], 0, gas, Some ErrDepth)
      else if \<not> CanTransfer caller v s then Some (s, [], 0, gas, Some ErrInsufficientBalance)
      else
        let R = chainRules E;
            s1 = SetNonce caller (GetNonce caller s + 1) s;
            s2 = (if IsBerlin R then AddAddressToAccessList address s1 else s1);
            contractHash = GetCodeHash address s2 in
        if GetNonce address s2 \<noteq> 0 \<or> (contractHash \<noteq> 0 \<and> contractHash \<noteq> emptyCodeHash (hasher s2))
        then Some (s2, [], 0, 0, Some ErrContractAddressCollision)
        else
          let (s3, snapshot) = Snapshot s2;
              s4 = CreateAccount address s3;
              s5 = (if IsEIP158 R then SetNonce address 1 s4 else s4);
              s6 = Transfer caller address v s5 in
          if NoRecursion (host E) \<and> depth_of E > 0 then Some (s6, [], address, gas, None)
          else do {
            (s7, ret, gas1, err) \<leftarrow> run_of E (depth_of E) (readOnly E)
               \<lparr>CallerAddress = caller, self = address, Code = c, Input = [], callvalue = v\<rparr> [] False gas s6;
            let (s8, gas2, err1) = deploy R address ret gas1 err s7;
            if err1 \<noteq> None \<and> (IsHomestead R \<or> err1 \<noteq> Some ErrCodeStoreOutOfGas)
            then do { s9 \<leftarrow> RevertToSnapshot snapshot s8;
                      Some (s9, ret, address, if err1 \<noteq> Some ErrExecutionReverted then 0 else gas2, err1) }
            else Some (s8, ret, address, gas2, err1) })"

definition Create :: "env \<Rightarrow> address \<Rightarrow> string \<Rightarrow> u64 \<Rightarrow> int \<Rightarrow> StateDB \<Rightarrow> createResult" where
  "Create E caller c gas v s = create E caller c gas v (CreateAddress (hasher s) caller (GetNonce caller s)) s"

definition Create2 :: "env \<Rightarrow> address \<Rightarrow> string \<Rightarrow> u64 \<Rightarrow> int \<Rightarrow> uint256 \<Rightarrow> StateDB \<Rightarrow> createResult" where
  "Create2 E caller c gas endowment salt s =
     create E caller c gas endowment (CreateAddress2 (hasher s) caller salt (hasher s c)) s"

end
