(* ===== verification/Instructions.thy ===== *)
theory Instructions
  imports VMCalls
begin

text \<open>
  The operations of the virtual machine, core/vm/instructions.go and eips.go, one definition each. An operation takes the
  environment, the contract and the machine, and returns the machine, the data it returns and an error; a panic is \<open>None\<close>.
\<close>

section \<open>Definitions\<close>

type_synonym execution = "(vm \<times> string \<times> string option) panics"
type_synonym executionFunc = "env \<Rightarrow> Contract \<Rightarrow> vm \<Rightarrow> execution"

definition op_ok :: "vm \<Rightarrow> execution" where
  "op_ok m = Some (m, [], None)"

definition ErrInvalidJump :: string where "ErrInvalidJump = ''invalid jump destination''"
definition ErrReturnDataOutOfBounds :: string where "ErrReturnDataOutOfBounds = ''return data out of bounds''"

subsection \<open>Arithmetic, comparison and bits\<close>

text \<open>The shapes of the operations on the stack: the last operand is overwritten by the result.\<close>

definition unop :: "(uint256 \<Rightarrow> uint256) \<Rightarrow> vm \<Rightarrow> execution" where
  "unop f m = do { x \<leftarrow> peek m; op_ok (set_peek (f x) m) }"

definition binop :: "(uint256 \<Rightarrow> uint256 \<Rightarrow> uint256) \<Rightarrow> vm \<Rightarrow> execution" where
  "binop f m = do { (x, m) \<leftarrow> pop m; y \<leftarrow> peek m; op_ok (set_peek (f x y) m) }"

definition terop :: "(uint256 \<Rightarrow> uint256 \<Rightarrow> uint256 \<Rightarrow> uint256) \<Rightarrow> vm \<Rightarrow> execution" where
  "terop f m = do { (x, m) \<leftarrow> pop m; (y, m) \<leftarrow> pop m; z \<leftarrow> peek m; op_ok (set_peek (f x y z) m) }"

definition truth :: "bool \<Rightarrow> uint256" where
  "truth b = (if b then 1 else 0)"

definition opAdd :: executionFunc where "opAdd E K = binop (u_Add (lib E))"
definition opSub :: executionFunc where "opSub E K = binop (u_Sub (lib E))"
definition opMul :: executionFunc where "opMul E K = binop (u_Mul (lib E))"
definition opDiv :: executionFunc where "opDiv E K = binop (u_Div (lib E))"
definition opSdiv :: executionFunc where "opSdiv E K = binop (u_SDiv (lib E))"
definition opMod :: executionFunc where "opMod E K = binop (u_Mod (lib E))"
definition opSmod :: executionFunc where "opSmod E K = binop (u_SMod (lib E))"
definition opExp :: executionFunc where "opExp E K = binop (u_Exp (lib E))"
definition opSignExtend :: executionFunc where "opSignExtend E K = binop (\<lambda>back num. u_ExtendSign (lib E) num back)"
definition opNot :: executionFunc where "opNot E K = unop (u_Not (lib E))"
definition opLt :: executionFunc where "opLt E K = binop (\<lambda>x y. truth (u_Lt (lib E) x y))"
definition opGt :: executionFunc where "opGt E K = binop (\<lambda>x y. truth (u_Gt (lib E) x y))"
definition opSlt :: executionFunc where "opSlt E K = binop (\<lambda>x y. truth (u_Slt (lib E) x y))"
definition opSgt :: executionFunc where "opSgt E K = binop (\<lambda>x y. truth (u_Sgt (lib E) x y))"
definition opEq :: executionFunc where "opEq E K = binop (\<lambda>x y. truth (u_Eq (lib E) x y))"
definition opIszero :: executionFunc where "opIszero E K = unop (\<lambda>x. truth (x = 0))"
definition opAnd :: executionFunc where "opAnd E K = binop (u_And (lib E))"
definition opOr :: executionFunc where "opOr E K = binop (u_Or (lib E))"
definition opXor :: executionFunc where "opXor E K = binop (u_Xor (lib E))"
definition opByte :: executionFunc where "opByte E K = binop (\<lambda>th val. u_Byte (lib E) val th)"
definition opAddmod :: executionFunc where "opAddmod E K = terop (\<lambda>x y z. if z = 0 then 0 else u_AddMod (lib E) x y z)"
definition opMulmod :: executionFunc where "opMulmod E K = terop (u_MulMod (lib E))"
definition opSHL :: executionFunc where
  "opSHL E K = binop (\<lambda>shift v. if shift < 256 then u_Lsh (lib E) v (unat (Uint64 shift)) else 0)"
definition opSHR :: executionFunc where
  "opSHR E K = binop (\<lambda>shift v. if shift < 256 then u_Rsh (lib E) v (unat (Uint64 shift)) else 0)"
definition opSAR :: executionFunc where
  "opSAR E K = binop (\<lambda>shift v. if shift > 256 then if sint v \<ge> 0 then 0 else -1 else u_SRsh (lib E) v (unat (Uint64 shift)))"

definition opSha3 :: executionFunc where
  "opSha3 E K m =
     do { (offset, m) \<leftarrow> pop m; sz \<leftarrow> peek m;
          dat \<leftarrow> GetPtr E (Uint64 offset) (Uint64 sz) m;
          let h = hasher (db m) dat;
          let m1 = (if EnablePreimageRecording E then m\<lparr>db := AddPreimage h dat (db m)\<rparr> else m);
          op_ok (set_peek h m1) }"

subsection \<open>Context\<close>

definition opAddress :: executionFunc where "opAddress E K m = op_ok (push (SetAddress (self K)) m)"
definition opBalance :: executionFunc where "opBalance E K m = unop (\<lambda>slot. FromBig (GetBalance (Bytes20 slot) (db m))) m"
definition opOrigin :: executionFunc where "opOrigin E K m = op_ok (push (SetAddress (Origin E)) m)"
definition opCaller :: executionFunc where "opCaller E K m = op_ok (push (SetAddress (CallerAddress K)) m)"
definition opCallValue :: executionFunc where "opCallValue E K m = op_ok (push (FromBig (callvalue K)) m)"

definition opCallDataLoad :: executionFunc where
  "opCallDataLoad E K m =
     do { x \<leftarrow> peek m;
          if IsUint64 x then do { dat \<leftarrow> getData (Input K) (Uint64 x) 32; op_ok (set_peek (SetBytes dat) m) }
          else op_ok (set_peek 0 m) }"

definition opCallDataSize :: executionFunc where
  "opCallDataSize E K m = op_ok (push (SetUint64 (of_nat (length (Input K)))) m)"

text \<open>An offset that does not fit into 64 bits reads as the largest one.\<close>

definition offset64 :: "uint256 \<Rightarrow> u64" where
  "offset64 x = (if IsUint64 x then Uint64 x else 0xFFFFFFFFFFFFFFFF)"

definition copyToMemory :: "string \<Rightarrow> vm \<Rightarrow> execution" where
  "copyToMemory dat m =
     do { (memOffset, m) \<leftarrow> pop m; (dataOffset, m) \<leftarrow> pop m; (len, m) \<leftarrow> pop m;
          dataCopy \<leftarrow> getData dat (offset64 dataOffset) (Uint64 len);
          m \<leftarrow> mem_Set (Uint64 memOffset) (Uint64 len) dataCopy m;
          op_ok m }"

definition opCallDataCopy :: executionFunc where "opCallDataCopy E K = copyToMemory (Input K)"

definition opReturnDataSize :: executionFunc where
  "opReturnDataSize E K m = op_ok (push (SetUint64 (of_nat (length (returnData m)))) m)"

definition opReturnDataCopy :: executionFunc where
  "opReturnDataCopy E K m =
     do { (memOffset, m) \<leftarrow> pop m; (dataOffset, m) \<leftarrow> pop m; (len, m) \<leftarrow> pop m;
          let fin = u_Add (lib E) dataOffset len;
          if \<not> IsUint64 dataOffset then Some (m, [], Some ErrReturnDataOutOfBounds)
          else if \<not> IsUint64 fin \<or> of_nat (length (returnData m)) < Uint64 fin
          then Some (m, [], Some ErrReturnDataOutOfBounds)
          else do { src \<leftarrow> slice 0 (uint (Uint64 dataOffset)) (uint (Uint64 fin)) (returnData m);
                    m \<leftarrow> mem_Set (Uint64 memOffset) (Uint64 len) src m;
                    op_ok m } }"

definition opExtCodeSize :: executionFunc where
  "opExtCodeSize E K m = unop (\<lambda>slot. SetUint64 (of_nat (GetCodeSize (Bytes20 slot) (db m)))) m"

definition opCodeSize :: executionFunc where
  "opCodeSize E K m = op_ok (push (SetUint64 (of_nat (length (Code K)))) m)"

definition opCodeCopy :: executionFunc where "opCodeCopy E K = copyToMemory (Code K)"

definition opExtCodeCopy :: executionFunc where
  "opExtCodeCopy E K m = do { (a, m) \<leftarrow> pop m; copyToMemory (codeOf (Bytes20 a) (db m)) m }"

definition opExtCodeHash :: executionFunc where
  "opExtCodeHash E K m =
     unop (\<lambda>slot. if Empty (Bytes20 slot) (db m) then 0 else GetCodeHash (Bytes20 slot) (db m)) m"

definition opGasprice :: executionFunc where "opGasprice E K m = op_ok (push (FromBig (GasPrice E)) m)"

definition opBlockhash :: executionFunc where
  "opBlockhash E K =
     unop (\<lambda>num. if \<not> IsUint64 num then 0
       else let upper = (word_of_int (BlockNumber_of (host E)) :: u64);
                lower = (if upper < 257 then 0 else upper - 256)
            in if Uint64 num \<ge> lower \<and> Uint64 num < upper then GetHash E (Uint64 num) else 0)"

definition opCoinbase :: executionFunc where "opCoinbase E K m = op_ok (push (SetAddress (Coinbase E)) m)"
definition opTimestamp :: executionFunc where "opTimestamp E K m = op_ok (push (FromBig (Time E)) m)"
definition opNumber :: executionFunc where "opNumber E K m = op_ok (push (FromBig (BlockNumber_of (host E))) m)"
definition opDifficulty :: executionFunc where "opDifficulty E K m = op_ok (push (FromBig (Difficulty E)) m)"
definition opGasLimit :: executionFunc where "opGasLimit E K m = op_ok (push (SetUint64 (GasLimit E)) m)"
definition opSelfBalance :: executionFunc where "opSelfBalance E K m = op_ok (push (FromBig (GetBalance (self K) (db m))) m)"
definition opChainID :: executionFunc where "opChainID E K m = do { i \<leftarrow> cfg_ChainID (chainConfig E); op_ok (push (FromBig i) m) }"
definition opBaseFee :: executionFunc where "opBaseFee E K m = do { f \<leftarrow> BaseFee E; op_ok (push (FromBig f) m) }"

subsection \<open>Stack, memory, storage and jumps\<close>

definition opPop :: executionFunc where "opPop E K m = do { (_, m) \<leftarrow> pop m; op_ok m }"

definition opMload :: executionFunc where
  "opMload E K m = do { v \<leftarrow> peek m; dat \<leftarrow> GetPtr E (Uint64 v) 32 m; op_ok (set_peek (SetBytes dat) m) }"

definition opMstore :: executionFunc where
  "opMstore E K m = do { (mStart, m) \<leftarrow> pop m; (val, m) \<leftarrow> pop m; m \<leftarrow> mem_Set32 (Uint64 mStart) val m; op_ok m }"

definition opMstore8 :: executionFunc where
  "opMstore8 E K m =
     do { (off, m) \<leftarrow> pop m; (val, m) \<leftarrow> pop m;
          if unat (Uint64 off) < length (store m)
          then op_ok (m\<lparr>store := (store m)[unat (Uint64 off) := char_of (unat (Uint64 val))]\<rparr>) else None }"

definition opSload :: executionFunc where
  "opSload E K m = unop (\<lambda>loc. GetState (self K) loc (db m)) m"

definition opSstore :: executionFunc where
  "opSstore E K m =
     do { (loc, m) \<leftarrow> pop m; (val, m) \<leftarrow> pop m; op_ok (m\<lparr>db := SetState (self K) loc val (db m)\<rparr>) }"

definition opJump :: executionFunc where
  "opJump E K m =
     do { (pos, m) \<leftarrow> pop m;
          if \<not> validJumpdest (Code K) pos then Some (m, [], Some ErrInvalidJump)
          else op_ok (m\<lparr>pc := Uint64 pos\<rparr>) }"

definition opJumpi :: executionFunc where
  "opJumpi E K m =
     do { (pos, m) \<leftarrow> pop m; (cond, m) \<leftarrow> pop m;
          if cond \<noteq> 0 then
            if \<not> validJumpdest (Code K) pos then Some (m, [], Some ErrInvalidJump)
            else op_ok (m\<lparr>pc := Uint64 pos\<rparr>)
          else op_ok (m\<lparr>pc := pc m + 1\<rparr>) }"

definition opJumpdest :: executionFunc where "opJumpdest E K m = op_ok m"
definition opPc :: executionFunc where "opPc E K m = op_ok (push (SetUint64 (pc m)) m)"
definition opMsize :: executionFunc where "opMsize E K m = op_ok (push (SetUint64 (mem_Len m)) m)"
definition opGas :: executionFunc where "opGas E K m = op_ok (push (SetUint64 (Gas m)) m)"

definition opPush1 :: executionFunc where
  "opPush1 E K m =
     (let p = pc m + 1; m1 = m\<lparr>pc := p\<rparr>
      in op_ok (push (if p < of_nat (length (Code K)) then of_char (Code K ! unat p) else 0) m1))"

definition makePush :: "nat \<Rightarrow> nat \<Rightarrow> executionFunc" where
  "makePush sz pushByteSize E K m =
     (let codeLen = int (length (Code K));
          startMin = (if sint (pc m + 1) < codeLen then sint (pc m + 1) else codeLen);
          endMin = (if startMin + int pushByteSize < codeLen then startMin + int pushByteSize else codeLen)
      in do { dat \<leftarrow> slice 0 startMin endMin (Code K);
              let m1 = push (SetBytes (RightPadBytes dat (int pushByteSize))) m;
              op_ok (m1\<lparr>pc := pc m1 + of_nat sz\<rparr>) })"

definition makeDup :: "nat \<Rightarrow> executionFunc" where
  "makeDup sz E K m = do { m \<leftarrow> dup sz m; op_ok m }"

definition makeSwap :: "nat \<Rightarrow> executionFunc" where
  "makeSwap sz E K m = do { m \<leftarrow> swap (sz + 1) m; op_ok m }"

fun pop_topics :: "nat \<Rightarrow> vm \<Rightarrow> (hash list \<times> vm) panics" where
  "pop_topics 0 m = Some ([], m)"
| "pop_topics (Suc n) m = do { (t, m) \<leftarrow> pop m; (ts, m) \<leftarrow> pop_topics n m; Some (t # ts, m) }"

definition makeLog :: "nat \<Rightarrow> executionFunc" where
  "makeLog sz E K m =
     do { (mStart, m) \<leftarrow> pop m; (mSize, m) \<leftarrow> pop m; (topics, m) \<leftarrow> pop_topics sz m;
          d \<leftarrow> GetCopy E (Uint64 mStart) (Uint64 mSize) m;
          op_ok (m\<lparr>db := AddLog \<lparr>log_Address = self K, log_Topics = topics, log_Data = d, log_TxHash = 0, log_TxIndex = 0,
            log_Index = 0\<rparr> (db m)\<rparr>) }"

subsection \<open>Calls\<close>

definition CallStipend :: u64 where "CallStipend = 2300"

text \<open>After a creation: the address or zero is pushed, and the gas that is left comes back.\<close>

definition finishCreate :: "bool \<Rightarrow> createResult \<Rightarrow> vm \<Rightarrow> execution" where
  "finishCreate clears r m =
     do { (s, res, addr, returnGas, suberr) \<leftarrow> r;
          let m1 = push (if clears \<and> suberr = Some ErrCodeStoreOutOfGas then 0
                         else if suberr \<noteq> None \<and> suberr \<noteq> Some ErrCodeStoreOutOfGas then 0 else SetAddress addr) (m\<lparr>db := s\<rparr>);
          let m2 = m1\<lparr>Gas := Gas m1 + returnGas\<rparr>;
          Some (m2, if suberr = Some ErrExecutionReverted then res else [], None) }"

definition opCreate :: executionFunc where
  "opCreate E K m =
     do { (v, m) \<leftarrow> pop m; (offset, m) \<leftarrow> pop m; (sz, m) \<leftarrow> pop m;
          input \<leftarrow> GetCopy E (Uint64 offset) (Uint64 sz) m;
          let gas = (if IsEIP150 (chainRules E) then Gas m - Gas m div 64 else Gas m);
          let m = fst (UseGas gas m);
          finishCreate (IsHomestead (chainRules E)) (Create E (self K) input gas (uint v) (db m)) m }"

definition opCreate2 :: executionFunc where
  "opCreate2 E K m =
     do { (endowment, m) \<leftarrow> pop m; (offset, m) \<leftarrow> pop m; (sz, m) \<leftarrow> pop m; (salt, m) \<leftarrow> pop m;
          input \<leftarrow> GetCopy E (Uint64 offset) (Uint64 sz) m;
          let gas = Gas m - Gas m div 64;
          let m = fst (UseGas gas m);
          finishCreate True (Create2 E (self K) input gas (uint endowment) salt (db m)) m }"

text \<open>After a call: one or zero is pushed, the output goes to memory unless the call failed with an error other than a
  revert, and the gas that is left comes back.\<close>

definition finishCall :: "uint256 \<Rightarrow> uint256 \<Rightarrow> runResult \<Rightarrow> vm \<Rightarrow> execution" where
  "finishCall retOffset retSize r m =
     do { (s, ret, returnGas, err) \<leftarrow> r;
          let m1 = push (truth (err = None)) (m\<lparr>db := s\<rparr>);
          m2 \<leftarrow> (if err = None \<or> err = Some ErrExecutionReverted then mem_Set (Uint64 retOffset) (Uint64 retSize) ret m1 else Some m1);
          Some (m2\<lparr>Gas := Gas m2 + returnGas\<rparr>, ret, None) }"

text \<open>The gas, with the stipend when value is transferred.\<close>

definition stipend :: "uint256 \<Rightarrow> u64 \<Rightarrow> u64" where
  "stipend v gas = (if v \<noteq> 0 then gas + CallStipend else gas)"

definition opCall :: executionFunc where
  "opCall E K m =
     do { (_, m) \<leftarrow> pop m; (addr, m) \<leftarrow> pop m; (v, m) \<leftarrow> pop m; (inOffset, m) \<leftarrow> pop m; (inSize, m) \<leftarrow> pop m;
          (retOffset, m) \<leftarrow> pop m; (retSize, m) \<leftarrow> pop m;
          args \<leftarrow> GetPtr E (Uint64 inOffset) (Uint64 inSize) m;
          finishCall retOffset retSize
            (Call (evm_at E) (self K) (Bytes20 addr) args (stipend v (callGasTemp m)) (uint v) (db m)) m }"

definition opCallCode :: executionFunc where
  "opCallCode E K m =
     do { (_, m) \<leftarrow> pop m; (addr, m) \<leftarrow> pop m; (v, m) \<leftarrow> pop m; (inOffset, m) \<leftarrow> pop m; (inSize, m) \<leftarrow> pop m;
          (retOffset, m) \<leftarrow> pop m; (retSize, m) \<leftarrow> pop m;
          args \<leftarrow> GetPtr E (Uint64 inOffset) (Uint64 inSize) m;
          finishCall retOffset retSize
            (CallCode E K (Bytes20 addr) args (stipend v (callGasTemp m)) (uint v) (db m)) m }"

definition opDelegateCall :: executionFunc where
  "opDelegateCall E K m =
     do { (_, m) \<leftarrow> pop m; (addr, m) \<leftarrow> pop m; (inOffset, m) \<leftarrow> pop m; (inSize, m) \<leftarrow> pop m;
          (retOffset, m) \<leftarrow> pop m; (retSize, m) \<leftarrow> pop m;
          args \<leftarrow> GetPtr E (Uint64 inOffset) (Uint64 inSize) m;
          finishCall retOffset retSize (DelegateCall E K (Bytes20 addr) args (callGasTemp m) (db m)) m }"

definition opStaticCall :: executionFunc where
  "opStaticCall E K m =
     do { (_, m) \<leftarrow> pop m; (addr, m) \<leftarrow> pop m; (inOffset, m) \<leftarrow> pop m; (inSize, m) \<leftarrow> pop m;
          (retOffset, m) \<leftarrow> pop m; (retSize, m) \<leftarrow> pop m;
          args \<leftarrow> GetPtr E (Uint64 inOffset) (Uint64 inSize) m;
          finishCall retOffset retSize (StaticCall E K (Bytes20 addr) args (callGasTemp m) (db m)) m }"

definition opReturn :: executionFunc where
  "opReturn E K m =
     do { (offset, m) \<leftarrow> pop m; (sz, m) \<leftarrow> pop m;
          ret \<leftarrow> GetPtr E (Uint64 offset) (Uint64 sz) m; Some (m, ret, None) }"

definition opRevert :: executionFunc where
  "opRevert E K m =
     do { (offset, m) \<leftarrow> pop m; (sz, m) \<leftarrow> pop m;
          ret \<leftarrow> GetPtr E (Uint64 offset) (Uint64 sz) m; Some (m, ret, None) }"

definition opStop :: executionFunc where "opStop E K m = op_ok m"

definition opSelfdestruct :: executionFunc where
  "opSelfdestruct E K m =
     do { (beneficiary, m) \<leftarrow> pop m;
          let balance = GetBalance (self K) (db m);
          op_ok (m\<lparr>db := fst (Suicide (self K) (AddBalance (Bytes20 beneficiary) balance (db m)))\<rparr>) }"

subsection \<open>NFT operations\<close>

text \<open>The selector of \<open>Error(string)\<close>, then the string by its offset, its length and its bytes padded to words.\<close>

definition makeRevertRet :: "string \<Rightarrow> string" where
  "makeRevertRet reason =
     [CHR 0x08, CHR 0xC3, CHR 0x79, CHR 0xA0] @ Bytes32 0x20 @ Bytes32 (of_nat (length reason)) @
     RightPadBytes reason (int ((length reason + 31) div 32 * 32))"

definition opNBalanceOf :: executionFunc where
  "opNBalanceOf E K m = unop (\<lambda>slot. SetUint64 (GetNFTBalance (Bytes20 slot) (db m))) m"

definition opNOwnerOf :: executionFunc where
  "opNOwnerOf E K m = unop (\<lambda>slot. SetAddress (GetNFTOwner16 (Bytes20 slot) (db m))) m"

definition opNTransferFrom :: executionFunc where
  "opNTransferFrom E K m =
     do { (id, m) \<leftarrow> pop m; (to, m) \<leftarrow> pop m; (frm, m) \<leftarrow> pop m;
          let nftAddr = Bytes20 id;
          let fromAddr = Bytes20 frm;
          let toAddr = Bytes20 to;
          let owner = GetNFTOwner16 nftAddr (db m);
          let caller = CallerAddress K;
          if owner = fromAddr \<and> owner = caller \<or> IsApproved nftAddr fromAddr (db m)
          then do { s \<leftarrow> ChangeNFTOwner nftAddr toAddr 0 (db m); op_ok (m\<lparr>db := s\<rparr>) }
          else Some (m, makeRevertRet ''NFT Transfer Failed: caller Not owner or approved'', Some ErrExecutionReverted) }"

definition opNApprove :: executionFunc where
  "opNApprove E K m =
     do { (to, m) \<leftarrow> pop m; (id, m) \<leftarrow> pop m;
          if CallerAddress K = GetNFTOwner16 (Bytes20 id) (db m)
          then op_ok (m\<lparr>db := ChangeNFTApproveAddress (Bytes20 id) (Bytes20 to) (db m)\<rparr>)
          else Some (m, makeRevertRet ''NFT Approve Failed: Caller is not owner'', Some ErrExecutionReverted) }"

definition opNSetApprovalForAll :: executionFunc where
  "opNSetApprovalForAll E K m =
     do { (approved, m) \<leftarrow> pop m; (to, m) \<leftarrow> pop m;
          op_ok (m\<lparr>db := (if approved = 0 then CancelApproveAddress (CallerAddress K) (Bytes20 to) (db m)
                          else ChangeApproveAddress (CallerAddress K) (Bytes20 to) (db m))\<rparr>) }"

definition opNGetApproved :: executionFunc where
  "opNGetApproved E K m = unop (\<lambda>slot. SetAddress (GetNFTApproveAddress (Bytes20 slot) (db m))) m"

definition opNIsApprovedForAll :: executionFunc where
  "opNIsApprovedForAll E K m =
     do { (to, m) \<leftarrow> pop m; (owner, m) \<leftarrow> pop m;
          op_ok (push (truth (IsApprovedForAll (Bytes20 owner) (Bytes20 to) (db m))) m) }"

text \<open>A string is returned at the free memory pointer kept at 0x40, which moves behind it.\<close>

definition returnString :: "env \<Rightarrow> string \<Rightarrow> vm \<Rightarrow> execution" where
  "returnString E dat m =
     (let len = (of_nat (length dat) :: u64) in
      do { p \<leftarrow> GetPtr E 0x40 32 m;
           let offset = Uint64 (SetBytes p);
           let freeOffset = offset + (len div 32 + 2) * 32;
           m \<leftarrow> Resize freeOffset m;
           m \<leftarrow> mem_Set32 offset (SetUint64 len) m;
           m \<leftarrow> mem_Set (offset + 32) len dat m;
           m \<leftarrow> mem_Set32 0x40 (SetUint64 freeOffset) m;
           op_ok (set_peek (SetUint64 offset) m) })"

definition opNTokenURI :: executionFunc where
  "opNTokenURI E K m = do { v \<leftarrow> peek m; returnString E (GetNFTMetaURL (Bytes20 v) (db m)) m }"

definition opNMint :: executionFunc where
  "opNMint E K m =
     do { (uri, m) \<leftarrow> pop m; (royalty, m) \<leftarrow> pop m; to \<leftarrow> peek m;
          if GetExchangerFlag (CallerAddress K) (db m)
          then do { let offset = Uint64 uri;
                    p \<leftarrow> GetPtr E offset 32 m;
                    let len = Uint64 (SetBytes p);
                    uriStr \<leftarrow> GetCopy E (offset + 32) len m;
                    let (s, nftAddr) = CreateNFTByUser (CallerAddress K) (Bytes20 to) (ucast (Uint64 royalty)) uriStr (db m);
                    op_ok (set_peek (SetAddress nftAddr) (m\<lparr>db := s\<rparr>)) }
          else Some (m, makeRevertRet ''NFT Mint Failed: caller Not exchanger'', Some ErrExecutionReverted) }"

definition opNName :: executionFunc where
  "opNName E K m = do { v \<leftarrow> peek m; returnString E (GetNFTName (Bytes20 v) (db m)) m }"

definition opNSymbol :: executionFunc where
  "opNSymbol E K m = do { v \<leftarrow> peek m; returnString E (GetNFTSymbol (Bytes20 v) (db m)) m }"

definition opNCreator :: executionFunc where
  "opNCreator E K m = unop (\<lambda>slot. SetAddress (GetNFTCreator (Bytes20 slot) (db m))) m"

definition opNIsExist :: executionFunc where
  "opNIsExist E K m = unop (\<lambda>slot. truth (IsExistNFT (Bytes20 slot) (db m))) m"

definition opNRoyaltyRatio :: executionFunc where
  "opNRoyaltyRatio E K m = unop (\<lambda>slot. SetUint64 (ucast (GetNFTRoyalty (Bytes20 slot) (db m)))) m"

end
