(* ===== verification/JumpTable.thy ===== *)
theory JumpTable
  imports Instructions
begin

text \<open>
  The table of operations, core/vm/jump_table.go, with the changes of eips.go and stack_table.go, and the names of opcodes.go: for every fork
  the operations by opcode with their gas, the stack they need and leave, and how they end.
\<close>

section \<open>Definitions\<close>

record operation =
  execute :: executionFunc
  constantGas :: u64
  dynamicGas :: "gasFunc option"
  minStk :: int
  maxStk :: int
  memorySize :: "memorySizeFunc option"
  halts :: bool
  jumps :: bool
  writes :: bool
  reverts :: bool
  returns :: bool

type_synonym JumpTable = "u8 \<Rightarrow> operation option"

text \<open>The zero value of an operation, whose missing function panics.\<close>

definition nil_op :: operation where
  "nil_op = \<lparr>execute = (\<lambda>_ _ _. None), constantGas = 0, dynamicGas = None, minStk = 0, maxStk = 0, memorySize = None,
     halts = False, jumps = False, writes = False, reverts = False, returns = False\<rparr>"

subsection \<open>stack_table.go\<close>

definition StackLimit :: int where "StackLimit = 1024"

definition minStack :: "int \<Rightarrow> int \<Rightarrow> int" where "minStack p q = p"
definition maxStack :: "int \<Rightarrow> int \<Rightarrow> int" where "maxStack p q = StackLimit + p - q"
definition minDupStack :: "int \<Rightarrow> int" where "minDupStack n = minStack n (n + 1)"
definition maxDupStack :: "int \<Rightarrow> int" where "maxDupStack n = maxStack n (n + 1)"
definition minSwapStack :: "int \<Rightarrow> int" where "minSwapStack n = minStack n n"
definition maxSwapStack :: "int \<Rightarrow> int" where "maxSwapStack n = maxStack n n"

subsection \<open>The operations of the first release\<close>

text \<open>STOP to SIGNEXTEND.\<close>

definition arithmeticOps :: "(u8 \<times> operation) list" where
  "arithmeticOps =
    [(0x00, nil_op\<lparr>execute := opStop, minStk := minStack 0 0, maxStk := maxStack 0 0, halts := True\<rparr>),
     (0x01, nil_op\<lparr>execute := opAdd, constantGas := GasFastestStep, minStk := minStack 2 1, maxStk := maxStack 2 1\<rparr>),
     (0x02, nil_op\<lparr>execute := opMul, constantGas := GasFastStep, minStk := minStack 2 1, maxStk := maxStack 2 1\<rparr>),
     (0x03, nil_op\<lparr>execute := opSub, constantGas := GasFastestStep, minStk := minStack 2 1, maxStk := maxStack 2 1\<rparr>),
     (0x04, nil_op\<lparr>execute := opDiv, constantGas := GasFastStep, minStk := minStack 2 1, maxStk := maxStack 2 1\<rparr>),
     (0x05, nil_op\<lparr>execute := opSdiv, constantGas := GasFastStep, minStk := minStack 2 1, maxStk := maxStack 2 1\<rparr>),
     (0x06, nil_op\<lparr>execute := opMod, constantGas := GasFastStep, minStk := minStack 2 1, maxStk := maxStack 2 1\<rparr>),
     (0x07, nil_op\<lparr>execute := opSmod, constantGas := GasFastStep, minStk := minStack 2 1, maxStk := maxStack 2 1\<rparr>),
     (0x08, nil_op\<lparr>execute := opAddmod, constantGas := GasMidStep, minStk := minStack 3 1, maxStk := maxStack 3 1\<rparr>),
     (0x09, nil_op\<lparr>execute := opMulmod, constantGas := GasMidStep, minStk := minStack 3 1, maxStk := maxStack 3 1\<rparr>),
     (0x0a, nil_op\<lparr>execute := opExp, dynamicGas := Some gasExpFrontier, minStk := minStack 2 1, maxStk := maxStack 2 1\<rparr>),
     (0x0b, nil_op\<lparr>execute := opSignExtend, constantGas := GasFastStep, minStk := minStack 2 1, maxStk := maxStack 2 1\<rparr>)]"

text \<open>LT to BYTE, SHA3.\<close>

definition comparisonOps :: "(u8 \<times> operation) list" where
  "comparisonOps =
    [(0x10, nil_op\<lparr>execute := opLt, constantGas := GasFastestStep, minStk := minStack 2 1, maxStk := maxStack 2 1\<rparr>),
     (0x11, nil_op\<lparr>execute := opGt, constantGas := GasFastestStep, minStk := minStack 2 1, maxStk := maxStack 2 1\<rparr>),
     (0x12, nil_op\<lparr>execute := opSlt, constantGas := GasFastestStep, minStk := minStack 2 1, maxStk := maxStack 2 1\<rparr>),
     (0x13, nil_op\<lparr>execute := opSgt, constantGas := GasFastestStep, minStk := minStack 2 1, maxStk := maxStack 2 1\<rparr>),
     (0x14, nil_op\<lparr>execute := opEq, constantGas := GasFastestStep, minStk := minStack 2 1, maxStk := maxStack 2 1\<rparr>),
     (0x15, nil_op\<lparr>execute := opIszero, constantGas := GasFastestStep, minStk := minStack 1 1, maxStk := maxStack 1 1\<rparr>),
     (0x16, nil_op\<lparr>execute := opAnd, constantGas := GasFastestStep, minStk := minStack 2 1, maxStk := maxStack 2 1\<rparr>),
     (0x18, nil_op\<lparr>execute := opXor, constantGas := GasFastestStep, minStk := minStack 2 1, maxStk := maxStack 2 1\<rparr>),
     (0x17, nil_op\<lparr>execute := opOr, constantGas := GasFastestStep, minStk := minStack 2 1, maxStk := maxStack 2 1\<rparr>),
     (0x19, nil_op\<lparr>execute := opNot, constantGas := GasFastestStep, minStk := minStack 1 1, maxStk := maxStack 1 1\<rparr>),
     (0x1a, nil_op\<lparr>execute := opByte, constantGas := GasFastestStep, minStk := minStack 2 1, maxStk := maxStack 2 1\<rparr>),
     (0x20, nil_op\<lparr>execute := opSha3, constantGas := 30, dynamicGas := Some gasSha3, minStk := minStack 2 1, maxStk := maxStack 2 1, memorySize := Some memorySha3\<rparr>)]"

text \<open>ADDRESS to GASLIMIT.\<close>

definition contextOps :: "(u8 \<times> operation) list" where
  "contextOps =
    [(0x30, nil_op\<lparr>execute := opAddress, constantGas := GasQuickStep, minStk := minStack 0 1, maxStk := maxStack 0 1\<rparr>),
     (0x31, nil_op\<lparr>execute := opBalance, constantGas := 20, minStk := minStack 1 1, maxStk := maxStack 1 1\<rparr>),
     (0x32, nil_op\<lparr>execute := opOrigin, constantGas := GasQuickStep, minStk := minStack 0 1, maxStk := maxStack 0 1\<rparr>),
     (0x33, nil_op\<lparr>execute := opCaller, constantGas := GasQuickStep, minStk := minStack 0 1, maxStk := maxStack 0 1\<rparr>),
     (0x34, nil_op\<lparr>execute := opCallValue, constantGas := GasQuickStep, minStk := minStack 0 1, maxStk := maxStack 0 1\<rparr>),
     (0x35, nil_op\<lparr>execute := opCallDataLoad, constantGas := GasFastestStep, minStk := minStack 1 1, maxStk := maxStack 1 1\<rparr>),
     (0x36, nil_op\<lparr>execute := opCallDataSize, constantGas := GasQuickStep, minStk := minStack 0 1, maxStk := maxStack 0 1\<rparr>),
     (0x37, nil_op\<lparr>execute := opCallDataCopy, constantGas := GasFastestStep, dynamicGas := Some gasCallDataCopy, minStk := minStack 3 0, maxStk := maxStack 3 0, memorySize := Some memoryCallDataCopy\<rparr>),
     (0x38, nil_op\<lparr>execute := opCodeSize, constantGas := GasQuickStep, minStk := minStack 0 1, maxStk := maxStack 0 1\<rparr>),
     (0x39, nil_op\<lparr>execute := opCodeCopy, constantGas := GasFastestStep, dynamicGas := Some gasCodeCopy, minStk := minStack 3 0, maxStk := maxStack 3 0, memorySize := Some memoryCodeCopy\<rparr>),
     (0x3a, nil_op\<lparr>execute := opGasprice, constantGas := GasQuickStep, minStk := minStack 0 1, maxStk := maxStack 0 1\<rparr>),
     (0x3b, nil_op\<lparr>execute := opExtCodeSize, constantGas := 20, minStk := minStack 1 1, maxStk := maxStack 1 1\<rparr>),
     (0x3c, nil_op\<lparr>execute := opExtCodeCopy, constantGas := 20, dynamicGas := Some gasExtCodeCopy, minStk := minStack 4 0, maxStk := maxStack 4 0, memorySize := Some memoryExtCodeCopy\<rparr>),
     (0x40, nil_op\<lparr>execute := opBlockhash, constantGas := GasExtStep, minStk := minStack 1 1, maxStk := maxStack 1 1\<rparr>),
     (0x41, nil_op\<lparr>execute := opCoinbase, constantGas := GasQuickStep, minStk := minStack 0 1, maxStk := maxStack 0 1\<rparr>),
     (0x42, nil_op\<lparr>execute := opTimestamp, constantGas := GasQuickStep, minStk := minStack 0 1, maxStk := maxStack 0 1\<rparr>),
     (0x43, nil_op\<lparr>execute := opNumber, constantGas := GasQuickStep, minStk := minStack 0 1, maxStk := maxStack 0 1\<rparr>),
     (0x44, nil_op\<lparr>execute := opDifficulty, constantGas := GasQuickStep, minStk := minStack 0 1, maxStk := maxStack 0 1\<rparr>),
     (0x45, nil_op\<lparr>execute := opGasLimit, constantGas := GasQuickStep, minStk := minStack 0 1, maxStk := maxStack 0 1\<rparr>)]"

text \<open>POP to JUMPDEST.\<close>

definition storageOps :: "(u8 \<times> operation) list" where
  "storageOps =
    [(0x50, nil_op\<lparr>execute := opPop, constantGas := GasQuickStep, minStk := minStack 1 0, maxStk := maxStack 1 0\<rparr>),
     (0x51, nil_op\<lparr>execute := opMload, constantGas := GasFastestStep, dynamicGas := Some pureMemoryGascost, minStk := minStack 1 1, maxStk := maxStack 1 1, memorySize := Some memoryMLoad\<rparr>),
     (0x52, nil_op\<lparr>execute := opMstore, constantGas := GasFastestStep, dynamicGas := Some pureMemoryGascost, minStk := minStack 2 0, maxStk := maxStack 2 0, memorySize := Some memoryMStore\<rparr>),
     (0x53, nil_op\<lparr>execute := opMstore8, constantGas := GasFastestStep, dynamicGas := Some pureMemoryGascost, minStk := minStack 2 0, maxStk := maxStack 2 0, memorySize := Some memoryMStore8\<rparr>),
     (0x54, nil_op\<lparr>execute := opSload, constantGas := 50, minStk := minStack 1 1, maxStk := maxStack 1 1\<rparr>),
     (0x55, nil_op\<lparr>execute := opSstore, dynamicGas := Some gasSStore, minStk := minStack 2 0, maxStk := maxStack 2 0, writes := True\<rparr>),
     (0x56, nil_op\<lparr>execute := opJump, constantGas := GasMidStep, minStk := minStack 1 0, maxStk := maxStack 1 0, jumps := True\<rparr>),
     (0x57, nil_op\<lparr>execute := opJumpi, constantGas := GasSlowStep, minStk := minStack 2 0, maxStk := maxStack 2 0, jumps := True\<rparr>),
     (0x58, nil_op\<lparr>execute := opPc, constantGas := GasQuickStep, minStk := minStack 0 1, maxStk := maxStack 0 1\<rparr>),
     (0x59, nil_op\<lparr>execute := opMsize, constantGas := GasQuickStep, minStk := minStack 0 1, maxStk := maxStack 0 1\<rparr>),
     (0x5a, nil_op\<lparr>execute := opGas, constantGas := GasQuickStep, minStk := minStack 0 1, maxStk := maxStack 0 1\<rparr>),
     (0x5b, nil_op\<lparr>execute := opJumpdest, constantGas := 1, minStk := minStack 0 0, maxStk := maxStack 0 0\<rparr>)]"

text \<open>LOG0 to LOG4.\<close>

definition logOps :: "(u8 \<times> operation) list" where
  "logOps =
    [(0xa0, nil_op\<lparr>execute := makeLog 0, dynamicGas := Some (makeGasLog 0), minStk := minStack 2 0, maxStk := maxStack 2 0, memorySize := Some memoryLog, writes := True\<rparr>),
     (0xa1, nil_op\<lparr>execute := makeLog 1, dynamicGas := Some (makeGasLog 1), minStk := minStack 3 0, maxStk := maxStack 3 0, memorySize := Some memoryLog, writes := True\<rparr>),
     (0xa2, nil_op\<lparr>execute := makeLog 2, dynamicGas := Some (makeGasLog 2), minStk := minStack 4 0, maxStk := maxStack 4 0, memorySize := Some memoryLog, writes := True\<rparr>),
     (0xa3, nil_op\<lparr>execute := makeLog 3, dynamicGas := Some (makeGasLog 3), minStk := minStack 5 0, maxStk := maxStack 5 0, memorySize := Some memoryLog, writes := True\<rparr>),
     (0xa4, nil_op\<lparr>execute := makeLog 4, dynamicGas := Some (makeGasLog 4), minStk := minStack 6 0, maxStk := maxStack 6 0, memorySize := Some memoryLog, writes := True\<rparr>)]"

text \<open>NBALANCEOF to NROALTYRATIO.\<close>

definition nftOps :: "(u8 \<times> operation) list" where
  "nftOps =
    [(0xb6, nil_op\<lparr>execute := opNBalanceOf, constantGas := GasExtStep, minStk := minStack 1 1, maxStk := maxStack 1 1\<rparr>),
     (0xb7, nil_op\<lparr>execute := opNOwnerOf, constantGas := GasExtStep, minStk := minStack 1 1, maxStk := maxStack 1 1\<rparr>),
     (0xb8, nil_op\<lparr>execute := opNTransferFrom, constantGas := GasExtStep, minStk := minStack 3 0, maxStk := maxStack 3 0\<rparr>),
     (0xb9, nil_op\<lparr>execute := opNApprove, constantGas := GasExtStep, minStk := minStack 2 0, maxStk := maxStack 2 0\<rparr>),
     (0xba, nil_op\<lparr>execute := opNSetApprovalForAll, constantGas := GasExtStep, minStk := minStack 2 1, maxStk := maxStack 2 1\<rparr>),
     (0xbb, nil_op\<lparr>execute := opNGetApproved, constantGas := GasExtStep, minStk := minStack 1 1, maxStk := maxStack 1 1\<rparr>),
     (0xbc, nil_op\<lparr>execute := opNIsApprovedForAll, constantGas := GasExtStep, minStk := minStack 1 1, maxStk := maxStack 1 1\<rparr>),
     (0xbd, nil_op\<lparr>execute := opNTokenURI, constantGas := GasExtStep, minStk := minStack 1 1, maxStk := maxStack 1 1\<rparr>),
     (0xbe, nil_op\<lparr>execute := opNMint, constantGas := GasExtStep, minStk := minStack 3 0, maxStk := maxStack 3 0\<rparr>),
     (0xbf, nil_op\<lparr>execute := opNName, constantGas := GasExtStep, minStk := minStack 1 1, maxStk := maxStack 1 1\<rparr>),
     (0xc0, nil_op\<lparr>execute := opNSymbol, constantGas := GasExtStep, minStk := minStack 1 1, maxStk := maxStack 1 1\<rparr>),
     (0xc1, nil_op\<lparr>execute := opNCreator, constantGas := GasExtStep, minStk := minStack 1 1, maxStk := maxStack 1 1\<rparr>),
     (0xc2, nil_op\<lparr>execute := opNIsExist, constantGas := GasExtStep, minStk := minStack 1 1, maxStk := maxStack 1 1\<rparr>),
     (0xc3, nil_op\<lparr>execute := opNRoyaltyRatio, constantGas := GasExtStep, minStk := minStack 1 1, maxStk := maxStack 1 1\<rparr>)]"

text \<open>CREATE to SELFDESTRUCT.\<close>

definition closureOps :: "(u8 \<times> operation) list" where
  "closureOps =
    [(0xf0, nil_op\<lparr>execute := opCreate, constantGas := 32000, dynamicGas := Some pureMemoryGascost, minStk := minStack 3 1, maxStk := maxStack 3 1, memorySize := Some memoryCreate, writes := True, returns := True\<rparr>),
     (0xf1, nil_op\<lparr>execute := opCall, constantGas := 40, dynamicGas := Some gasCall, minStk := minStack 7 1, maxStk := maxStack 7 1, memorySize := Some memoryCall, returns := True\<rparr>),
     (0xf2, nil_op\<lparr>execute := opCallCode, constantGas := 40, dynamicGas := Some gasCallCode, minStk := minStack 7 1, maxStk := maxStack 7 1, memorySize := Some memoryCall, returns := True\<rparr>),
     (0xf3, nil_op\<lparr>execute := opReturn, dynamicGas := Some pureMemoryGascost, minStk := minStack 2 0, maxStk := maxStack 2 0, memorySize := Some memoryReturn, halts := True\<rparr>),
     (0xff, nil_op\<lparr>execute := opSelfdestruct, dynamicGas := Some gasSelfdestruct, minStk := minStack 1 0, maxStk := maxStack 1 0, halts := True, writes := True\<rparr>)]"

text \<open>PUSH1 to SWAP16.\<close>

definition pushOps :: "(u8 \<times> operation) list" where
  "pushOps =
    (PUSH1, nil_op\<lparr>execute := opPush1, constantGas := GasFastestStep, minStk := minStack 0 1, maxStk := maxStack 0 1\<rparr>) #
    map (\<lambda>n. (PUSH1 + of_nat (n - 1),
      nil_op\<lparr>execute := makePush n n, constantGas := GasFastestStep, minStk := minStack 0 1, maxStk := maxStack 0 1\<rparr>)) [2..<33] @
    map (\<lambda>n. (0x80 + of_nat (n - 1),
      nil_op\<lparr>execute := makeDup n, constantGas := GasFastestStep, minStk := minDupStack (int n), maxStk := maxDupStack (int n)\<rparr>)) [1..<17] @
    map (\<lambda>n. (0x90 + of_nat (n - 1),
      nil_op\<lparr>execute := makeSwap n, constantGas := GasFastestStep, minStk := minSwapStack (int n + 1), maxStk := maxSwapStack (int n + 1)\<rparr>)) [1..<17]"

definition newFrontierInstructionSet :: JumpTable where
  "newFrontierInstructionSet =
     map_of (arithmeticOps @ comparisonOps @ contextOps @ storageOps @ pushOps @ logOps @ nftOps @ closureOps)"

subsection \<open>The later releases\<close>

text \<open>A change of the fields of an operation that is there.\<close>

definition on_op :: "u8 \<Rightarrow> (operation \<Rightarrow> operation) \<Rightarrow> JumpTable \<Rightarrow> JumpTable" where
  "on_op c f jt = jt(c := map_option f (jt c))"

text \<open>The price of an operation, and its price with a new gas function.\<close>

definition priced :: "u64 \<Rightarrow> operation \<Rightarrow> operation" where
  "priced g x = x\<lparr>constantGas := g\<rparr>"

definition metered :: "gasFunc \<Rightarrow> operation \<Rightarrow> operation" where
  "metered f x = x\<lparr>dynamicGas := Some f\<rparr>"

definition newHomesteadInstructionSet :: JumpTable where
  "newHomesteadInstructionSet = newFrontierInstructionSet(
      0xf4 \<mapsto> nil_op\<lparr>execute := opDelegateCall, constantGas := 40, dynamicGas := Some gasDelegateCall, minStk := minStack 6 1, maxStk := maxStack 6 1, memorySize := Some memoryDelegateCall, returns := True\<rparr>)"

definition newTangerineWhistleInstructionSet :: JumpTable where
  "newTangerineWhistleInstructionSet =
     (on_op 0xf4 (priced 700) (on_op 0xf2 (priced 700) (on_op 0xf1 (priced 700) (on_op 0x3c (priced 700)
      (on_op 0x54 (priced 200) (on_op 0x3b (priced 700) (on_op 0x31 (priced 400) newHomesteadInstructionSet)))))))"

definition newSpuriousDragonInstructionSet :: JumpTable where
  "newSpuriousDragonInstructionSet = on_op 0x0a (metered gasExpEIP158) newTangerineWhistleInstructionSet"

definition newByzantiumInstructionSet :: JumpTable where
  "newByzantiumInstructionSet = newSpuriousDragonInstructionSet(
      0xfa \<mapsto> nil_op\<lparr>execute := opStaticCall, constantGas := 700, dynamicGas := Some gasStaticCall, minStk := minStack 6 1, maxStk := maxStack 6 1, memorySize := Some memoryStaticCall, returns := True\<rparr>,
      0x3d \<mapsto> nil_op\<lparr>execute := opReturnDataSize, constantGas := GasQuickStep, minStk := minStack 0 1, maxStk := maxStack 0 1\<rparr>,
      0x3e \<mapsto> nil_op\<lparr>execute := opReturnDataCopy, constantGas := GasFastestStep, dynamicGas := Some gasReturnDataCopy, minStk := minStack 3 0, maxStk := maxStack 3 0, memorySize := Some memoryReturnDataCopy\<rparr>,
      0xfd \<mapsto> nil_op\<lparr>execute := opRevert, dynamicGas := Some pureMemoryGascost, minStk := minStack 2 0, maxStk := maxStack 2 0, memorySize := Some memoryRevert, reverts := True, returns := True\<rparr>)"

definition newConstantinopleInstructionSet :: JumpTable where
  "newConstantinopleInstructionSet = newByzantiumInstructionSet(
      0x1b \<mapsto> nil_op\<lparr>execute := opSHL, constantGas := GasFastestStep, minStk := minStack 2 1, maxStk := maxStack 2 1\<rparr>,
      0x1c \<mapsto> nil_op\<lparr>execute := opSHR, constantGas := GasFastestStep, minStk := minStack 2 1, maxStk := maxStack 2 1\<rparr>,
      0x1d \<mapsto> nil_op\<lparr>execute := opSAR, constantGas := GasFastestStep, minStk := minStack 2 1, maxStk := maxStack 2 1\<rparr>,
      0x3f \<mapsto> nil_op\<lparr>execute := opExtCodeHash, constantGas := 400, minStk := minStack 1 1, maxStk := maxStack 1 1\<rparr>,
      0xf5 \<mapsto> nil_op\<lparr>execute := opCreate2, constantGas := 32000, dynamicGas := Some gasCreate2, minStk := minStack 4 1, maxStk := maxStack 4 1, memorySize := Some memoryCreate2, writes := True, returns := True\<rparr>)"

subsection \<open>eips.go\<close>

definition enable1344 :: "JumpTable \<Rightarrow> JumpTable" where
  "enable1344 jt = jt(0x46 \<mapsto> nil_op\<lparr>execute := opChainID, constantGas := GasQuickStep, minStk := minStack 0 1, maxStk := maxStack 0 1\<rparr>)"

definition enable1884 :: "JumpTable \<Rightarrow> JumpTable" where
  "enable1884 jt = (on_op 0x3f (priced 700) (on_op 0x31 (priced 700) (on_op 0x54 (priced 800) jt)))
     (0x47 \<mapsto> nil_op\<lparr>execute := opSelfBalance, constantGas := GasFastStep, minStk := minStack 0 1, maxStk := maxStack 0 1\<rparr>)"

definition enable2200 :: "JumpTable \<Rightarrow> JumpTable" where
  "enable2200 jt = on_op 0x55 (metered gasSStoreEIP2200) (on_op 0x54 (priced 800) jt)"

definition enable2929 :: "JumpTable \<Rightarrow> JumpTable" where
  "enable2929 jt =
     on_op 0xff (metered gasSelfdestructEIP2929 \<circ> priced 5000)
     (on_op 0xf4 (metered gasDelegateCallEIP2929 \<circ> priced WarmStorageReadCostEIP2929)
     (on_op 0xfa (metered gasStaticCallEIP2929 \<circ> priced WarmStorageReadCostEIP2929)
     (on_op 0xf2 (metered gasCallCodeEIP2929 \<circ> priced WarmStorageReadCostEIP2929)
     (on_op 0xf1 (metered gasCallEIP2929 \<circ> priced WarmStorageReadCostEIP2929)
     (on_op 0x31 (metered gasEip2929AccountCheck \<circ> priced WarmStorageReadCostEIP2929)
     (on_op 0x3f (metered gasEip2929AccountCheck \<circ> priced WarmStorageReadCostEIP2929)
     (on_op 0x3b (metered gasEip2929AccountCheck \<circ> priced WarmStorageReadCostEIP2929)
     (on_op 0x3c (metered gasExtCodeCopyEIP2929 \<circ> priced WarmStorageReadCostEIP2929)
     (on_op 0x54 (metered gasSLoadEIP2929 \<circ> priced 0)
     (on_op 0x55 (metered gasSStoreEIP2929) jt))))))))))"

definition enable3529 :: "JumpTable \<Rightarrow> JumpTable" where
  "enable3529 jt = on_op 0xff (metered gasSelfdestructEIP3529) (on_op 0x55 (metered gasSStoreEIP3529) jt)"

definition enable3198 :: "JumpTable \<Rightarrow> JumpTable" where
  "enable3198 jt = jt(0x48 \<mapsto> nil_op\<lparr>execute := opBaseFee, constantGas := GasQuickStep, minStk := minStack 0 1, maxStk := maxStack 0 1\<rparr>)"

definition newIstanbulInstructionSet :: JumpTable where
  "newIstanbulInstructionSet = enable2200 (enable1884 (enable1344 newConstantinopleInstructionSet))"

definition newBerlinInstructionSet :: JumpTable where
  "newBerlinInstructionSet = enable2929 newIstanbulInstructionSet"

definition newLondonInstructionSet :: JumpTable where
  "newLondonInstructionSet = enable3198 (enable3529 newBerlinInstructionSet)"

text \<open>The choice of \<open>NewEVMInterpreter\<close>.\<close>

definition instructionSet :: "Rules \<Rightarrow> JumpTable" where
  "instructionSet R =
     (if IsLondon R then newLondonInstructionSet
      else if IsBerlin R then newBerlinInstructionSet
      else if IsIstanbul R then newIstanbulInstructionSet
      else if IsConstantinople R then newConstantinopleInstructionSet
      else if IsByzantium R then newByzantiumInstructionSet
      else if IsEIP158 R then newSpuriousDragonInstructionSet
      else if IsEIP150 R then newTangerineWhistleInstructionSet
      else if IsHomestead R then newHomesteadInstructionSet
      else newFrontierInstructionSet)"

subsection \<open>opcodes.go\<close>

definition opCodeToString :: "u8 \<Rightarrow> string option" where
  "opCodeToString = map_of
    [(0x00, ''STOP''), (0x01, ''ADD''), (0x02, ''MUL''), (0x03, ''SUB''), (0x04, ''DIV''), (0x05, ''SDIV''),
     (0x06, ''MOD''), (0x07, ''SMOD''), (0x08, ''ADDMOD''), (0x09, ''MULMOD''), (0x0a, ''EXP''), (0x0b, ''SIGNEXTEND''),
     (0x10, ''LT''), (0x11, ''GT''), (0x12, ''SLT''), (0x13, ''SGT''), (0x14, ''EQ''), (0x15, ''ISZERO''),
     (0x16, ''AND''), (0x17, ''OR''), (0x18, ''XOR''), (0x19, ''NOT''), (0x1a, ''BYTE''), (0x1b, ''SHL''),
     (0x1c, ''SHR''), (0x1d, ''SAR''), (0x20, ''SHA3''), (0x30, ''ADDRESS''), (0x31, ''BALANCE''), (0x32, ''ORIGIN''),
     (0x33, ''CALLER''), (0x34, ''CALLVALUE''), (0x35, ''CALLDATALOAD''), (0x36, ''CALLDATASIZE''), (0x37, ''CALLDATACOPY''), (0x38, ''CODESIZE''),
     (0x39, ''CODECOPY''), (0x3a, ''GASPRICE''), (0x3b, ''EXTCODESIZE''), (0x3c, ''EXTCODECOPY''), (0x3d, ''RETURNDATASIZE''), (0x3e, ''RETURNDATACOPY''),
     (0x3f, ''EXTCODEHASH''), (0x40, ''BLOCKHASH''), (0x41, ''COINBASE''), (0x42, ''TIMESTAMP''), (0x43, ''NUMBER''), (0x44, ''DIFFICULTY''),
     (0x45, ''GASLIMIT''), (0x46, ''CHAINID''), (0x47, ''SELFBALANCE''), (0x48, ''BASEFEE''), (0x50, ''POP''), (0x51, ''MLOAD''),
     (0x52, ''MSTORE''), (0x53, ''MSTORE8''), (0x54, ''SLOAD''), (0x55, ''SSTORE''), (0x56, ''JUMP''), (0x57, ''JUMPI''),
     (0x58, ''PC''), (0x59, ''MSIZE''), (0x5a, ''GAS''), (0x5b, ''JUMPDEST''), (0x60, ''PUSH1''), (0x61, ''PUSH2''),
     (0x62, ''PUSH3''), (0x63, ''PUSH4''), (0x64, ''PUSH5''), (0x65, ''PUSH6''), (0x66, ''PUSH7''), (0x67, ''PUSH8''),
     (0x68, ''PUSH9''), (0x69, ''PUSH10''), (0x6a, ''PUSH11''), (0x6b, ''PUSH12''), (0x6c, ''PUSH13''), (0x6d, ''PUSH14''),
     (0x6e, ''PUSH15''), (0x6f, ''PUSH16''), (0x70, ''PUSH17''), (0x71, ''PUSH18''), (0x72, ''PUSH19''), (0x73, ''PUSH20''),
     (0x74, ''PUSH21''), (0x75, ''PUSH22''), (0x76, ''PUSH23''), (0x77, ''PUSH24''), (0x78, ''PUSH25''), (0x79, ''PUSH26''),
     (0x7a, ''PUSH27''), (0x7b, ''PUSH28''), (0x7c, ''PUSH29''), (0x7d, ''PUSH30''), (0x7e, ''PUSH31''), (0x7f, ''PUSH32''),
     (0x80, ''DUP1''), (0x81, ''DUP2''), (0x82, ''DUP3''), (0x83, ''DUP4''), (0x84, ''DUP5''), (0x85, ''DUP6''),
     (0x86, ''DUP7''), (0x87, ''DUP8''), (0x88, ''DUP9''), (0x89, ''DUP10''), (0x8a, ''DUP11''), (0x8b, ''DUP12''),
     (0x8c, ''DUP13''), (0x8d, ''DUP14''), (0x8e, ''DUP15''), (0x8f, ''DUP16''), (0x90, ''SWAP1''), (0x91, ''SWAP2''),
     (0x92, ''SWAP3''), (0x93, ''SWAP4''), (0x94, ''SWAP5''), (0x95, ''SWAP6''), (0x96, ''SWAP7''), (0x97, ''SWAP8''),
     (0x98, ''SWAP9''), (0x99, ''SWAP10''), (0x9a, ''SWAP11''), (0x9b, ''SWAP12''), (0x9c, ''SWAP13''), (0x9d, ''SWAP14''),
     (0x9e, ''SWAP15''), (0x9f, ''SWAP16''), (0xa0, ''LOG0''), (0xa1, ''LOG1''), (0xa2, ''LOG2''), (0xa3, ''LOG3''),
     (0xa4, ''LOG4''), (0xb0, ''PUSH''), (0xb1, ''DUP''), (0xb2, ''SWAP''), (0xb6, ''NBALANCEOF''), (0xb7, ''NBALANCEOF''),
     (0xb8, ''NTRANSFERFROM''), (0xb9, ''NAPPROVE''), (0xba, ''NSETAPPROVALFORALL''), (0xbb, ''NGETAPPROVED''), (0xbc, ''NISAPPROVEDFORALL''), (0xbd, ''NTOKENURI''),
     (0xbe, ''NMINT''), (0xbf, ''NNAME''), (0xc0, ''NSYMBOL''), (0xc1, ''NCREATOR''), (0xc2, ''NISEXIST''), (0xc3, ''NROALTYRATIO''),
     (0xf0, ''CREATE''), (0xf1, ''CALL''), (0xf2, ''CALLCODE''), (0xf3, ''RETURN''), (0xf4, ''DELEGATECALL''), (0xf5, ''CREATE2''),
     (0xfa, ''STATICCALL''), (0xfd, ''REVERT''), (0xff, ''SELFDESTRUCT'')]"

definition OpCode_String :: "u8 \<Rightarrow> string" where
  "OpCode_String c =
     (case opCodeToString c of Some str \<Rightarrow> str
      | None \<Rightarrow> ''opcode 0x'' @
          (if c < 16 then [hexdigit (unat c)] else [hexdigit (unat c div 16), hexdigit (unat c mod 16)]) @ '' not defined'')"

end
