(* ===== verification/Interpreter.thy ===== *)
theory Interpreter
  imports JumpTable
begin

text \<open>
  core/vm/interpreter.go: one turn of the loop of \<open>EVMInterpreter.Run\<close> as \<open>step\<close>, the loop with the calls nested in it as \<open>interp\<close>, and \<open>Run\<close>.

  The loop takes fuel, and a result for the case that the fuel runs out. Every turn that goes on takes gas, and so does every nested run, so
  one more than the gas is always enough: the lemmas show that with that much fuel neither the fuel nor the result for its end matters. Tracing and
  the cancellation of a run from outside are left out.
\<close>

section \<open>Definitions\<close>

definition ErrWriteProtection :: string where "ErrWriteProtection = ''write protection''"

definition ErrInvalidOpCode :: "u8 \<Rightarrow> string" where
  "ErrInvalidOpCode c = ''invalid opcode: '' @ OpCode_String c"

definition ErrStackUnderflow :: "int \<Rightarrow> int \<Rightarrow> string" where
  "ErrStackUnderflow stackLen required = ''stack underflow ('' @ decimal (nat stackLen) @ '' <=> '' @ decimal (nat required) @ '')''"

definition ErrStackOverflow :: "int \<Rightarrow> int \<Rightarrow> string" where
  "ErrStackOverflow stackLen limit = ''stack limit reached '' @ decimal (nat stackLen) @ '' ('' @ decimal (nat limit) @ '')''"

datatype progress = Next vm | Done vm string "string option"

text \<open>In read-only mode, operations that write and calls that transfer value are refused.\<close>

definition writeProtected :: "env \<Rightarrow> u8 \<Rightarrow> operation \<Rightarrow> vm \<Rightarrow> bool panics" where
  "writeProtected E c oper m =
     (if readOnly E \<and> IsByzantium (chainRules E) then
        if writes oper then Some True
        else if c = 0xf1 then do { v \<leftarrow> Back 2 m; Some (v \<noteq> 0) }
        else Some False
      else Some False)"

text \<open>The memory the operation needs, in whole words.\<close>

definition operationMemory :: "operation \<Rightarrow> vm \<Rightarrow> u64 result" where
  "operationMemory oper m =
     (case memorySize oper of
        None \<Rightarrow> ok 0
      | Some f \<Rightarrow> do { (memSize, overflow) \<leftarrow> f m;
          if overflow then fail ErrGasUintOverflow
          else let (sz, ov) = SafeMul (toWordSize memSize) 32 in
            if ov then fail ErrGasUintOverflow else ok sz })"

text \<open>The dynamic gas, and whether it could be paid.\<close>

definition payDynamic :: "env \<Rightarrow> Contract \<Rightarrow> operation \<Rightarrow> u64 \<Rightarrow> vm \<Rightarrow> (vm \<times> bool) panics" where
  "payDynamic E K oper sz m =
     (case dynamicGas oper of
        None \<Rightarrow> Some (m, True)
      | Some f \<Rightarrow> do { (m1, dynamicCost, err) \<leftarrow> f E K sz m;
          Some (if err \<noteq> None then (m1, False) else UseGas dynamicCost m1) })"

text \<open>The execution and what follows from it.\<close>

definition perform :: "env \<Rightarrow> Contract \<Rightarrow> operation \<Rightarrow> vm \<Rightarrow> progress panics" where
  "perform E K oper m =
     do { (m1, res, err) \<leftarrow> execute oper E K m;
          let m2 = (if returns oper then m1\<lparr>returnData := res\<rparr> else m1);
          Some (if err \<noteq> None then Done m2 res err
                else if reverts oper then Done m2 res (Some ErrExecutionReverted)
                else if halts oper then Done m2 res None
                else if \<not> jumps oper then Next (m2\<lparr>pc := pc m2 + 1\<rparr>)
                else Next m2) }"

text \<open>Payment for an operation, then its execution.\<close>

definition payAndPerform :: "env \<Rightarrow> Contract \<Rightarrow> operation \<Rightarrow> vm \<Rightarrow> progress panics" where
  "payAndPerform E K oper m =
     (let (m1, paid) = UseGas (constantGas oper) m in
      if \<not> paid then Some (Done m1 [] (Some ErrOutOfGas))
      else do {
        r \<leftarrow> operationMemory oper m1;
        case r of Inl e \<Rightarrow> Some (Done m1 [] (Some e))
        | Inr sz \<Rightarrow> do {
            (m2, paid2) \<leftarrow> payDynamic E K oper sz m1;
            if \<not> paid2 then Some (Done m2 [] (Some ErrOutOfGas))
            else do {
              m3 \<leftarrow> (if sz > 0 then Resize sz m2 else Some m2);
              perform E K oper m3 } } })"

definition step :: "env \<Rightarrow> Contract \<Rightarrow> vm \<Rightarrow> progress panics" where
  "step E K m =
     (let c = GetOp (Code K) (pc m) in
      case instructionSet (chainRules E) c of
        None \<Rightarrow> Some (Done m [] (Some (ErrInvalidOpCode c)))
      | Some oper \<Rightarrow>
          let sLen = int (length (stack m)) in
          if sLen < minStk oper then Some (Done m [] (Some (ErrStackUnderflow sLen (minStk oper))))
          else if sLen > maxStk oper then Some (Done m [] (Some (ErrStackOverflow sLen (maxStk oper))))
          else do {
            protected \<leftarrow> writeProtected E c oper m;
            if protected then Some (Done m [] (Some ErrWriteProtection))
            else payAndPerform E K oper m })"

text \<open>The machine at the start of a run.\<close>

definition newVM :: "u64 \<Rightarrow> StateDB \<Rightarrow> vm" where
  "newVM gas s = \<lparr>pc = 0, stack = [], store = [], lastGasCost = 0, Gas = gas, returnData = [], callGasTemp = 0, db = s\<rparr>"

text \<open>\<open>Run\<close> around its loop: the depth grows, and the read-only flag stays once it is set.\<close>

definition runWith :: "(int \<Rightarrow> bool \<Rightarrow> Contract \<Rightarrow> vm \<Rightarrow> runResult) \<Rightarrow> runner" where
  "runWith loop d ro K input readonly gas s =
     (if length (Code K) = 0 then Some (s, [], gas, None)
      else loop (d + 1) (ro \<or> readonly) (K\<lparr>Input := input\<rparr>) (newVM gas s))"

definition envAt :: "vmctx \<Rightarrow> runner \<Rightarrow> int \<Rightarrow> bool \<Rightarrow> env" where
  "envAt C r d ro = vmctx.extend C (env.fields r d ro)"

primrec interp :: "vmctx \<Rightarrow> runResult \<Rightarrow> nat \<Rightarrow> int \<Rightarrow> bool \<Rightarrow> Contract \<Rightarrow> vm \<Rightarrow> runResult" where
  "interp C stuck 0 = (\<lambda>d ro K m. stuck)"
| "interp C stuck (Suc n) = (\<lambda>d ro K m.
     case step (envAt C (runWith (interp C stuck n)) d ro) K m of
       None \<Rightarrow> None
     | Some (Done m' ret err) \<Rightarrow> Some (db m', ret, Gas m', err)
     | Some (Next m') \<Rightarrow> interp C stuck n d ro K m')"

definition Run :: "vmctx \<Rightarrow> runner" where
  "Run C d ro K input readonly gas s = runWith (interp C None (Suc (unat gas))) d ro K input readonly gas s"

text \<open>The machine as a transaction starts it.\<close>

definition topEnv :: "vmctx \<Rightarrow> env" where
  "topEnv C = envAt C (Run C) 0 False"

end
