(* ===== verification/VMFacts.thy ===== *)
theory VMFacts
  imports Interpreter
begin

text \<open>
  What every operation and every gas function of the virtual machine keeps: the state changes only by operations of the
  state database, the price paid for the memory stays within what its size costs, and only calls depend on the interpreter.
\<close>

section \<open>Lemmas\<close>

subsection \<open>Effects of an operation\<close>

text \<open>The memory only grows, and stays addressable.\<close>

definition grows :: "vm \<Rightarrow> vm \<Rightarrow> bool" where
  "grows m m' \<longleftrightarrow> (length (store m) < 2 ^ 64 \<longrightarrow> length (store m) \<le> length (store m') \<and> length (store m') < 2 ^ 64)"

definition calm :: "vm \<Rightarrow> vm \<Rightarrow> bool" where
  "calm m m' \<longleftrightarrow> Gas m' = Gas m \<and> lastGasCost m' = lastGasCost m \<and> grows m m' \<and> acts (db m) (db m')"

definition quiet :: "executionFunc \<Rightarrow> bool" where
  "quiet f \<longleftrightarrow> (\<forall>E K m m' r e. f E K m = Some (m', r, e) \<longrightarrow> calm m m') \<and> (\<forall>E r K m. f (E\<lparr>run_of := r\<rparr>) K m = f E K m)"

lemma quietI:
  assumes "\<And>E K m m' r e. f E K m = Some (m', r, e) \<Longrightarrow> calm m m'" and "\<And>E r K m. f (E\<lparr>run_of := r\<rparr>) K m = f E K m"
  shows "quiet f"
  using assms unfolding quiet_def by blast

lemma calm_refl: "calm m m"
  by (simp add: calm_def grows_def acts_refl)

lemma calm_trans: "calm m m1 \<Longrightarrow> calm m1 m2 \<Longrightarrow> calm m m2"
  unfolding calm_def grows_def by (auto intro: acts_trans)

text \<open>Changes of the stack, the program counter, the return data and the gas set aside are calm.\<close>

lemma calm_fields:
  "calm m (m\<lparr>stack := st\<rparr>)" "calm m (m\<lparr>pc := p\<rparr>)" "calm m (m\<lparr>returnData := d\<rparr>)" "calm m (m\<lparr>callGasTemp := t\<rparr>)"
  "calm m (push x m)" "calm m (set_peek x m)"
  by (simp_all add: calm_def grows_def acts_refl push_def set_peek_def)

lemma calm_db: "acts (db m) s \<Longrightarrow> calm m (m\<lparr>db := s\<rparr>)"
  by (simp add: calm_def grows_def)

lemma calm_pop: "pop m = Some (x, m') \<Longrightarrow> calm m m'"
  by (auto simp: pop_def calm_fields split: list.splits)

lemma calm_dup_swap: "dup n m = Some m' \<Longrightarrow> calm m m'" "swap n m = Some m' \<Longrightarrow> calm m m'"
  by (auto simp: dup_def swap_def calm_fields split: if_splits)

lemma length_copy_at: "off + length src \<le> length dst \<Longrightarrow> length (copy_at off src dst) = length dst"
  by (simp add: copy_at_def)

lemma calm_mem_Set: "mem_Set off sz val m = Some m' \<Longrightarrow> calm m m'"
proof -
  assume s: "mem_Set off sz val m = Some m'"
  have "unat off + unat sz \<le> length (store m)" if "\<not> off + sz > mem_Len m" "\<not> off > off + sz" "length (store m) < 2 ^ 64"
  proof -
    have "unat (off + sz) = unat off + unat sz" using that(2) by (simp add: not_less unat_plus_simple)
    moreover have "unat (mem_Len m) = length (store m)" using that(3) by (simp add: mem_Len_def unat_of_nat)
    ultimately show ?thesis using that(1) by (simp add: not_less word_le_nat_alt)
  qed
  then show "calm m m'"
    using s by (auto simp: mem_Set_def calm_def grows_def acts_refl length_copy_at split: if_splits)
qed

lemma sint_nonneg:
  assumes "0 \<le> sint (w :: 64 word)"
  shows "sint w = uint w"
proof -
  have "sint w = take_bit 64 (uint w) - 2 ^ 64 * of_bool (bit (uint w) 63)"
    by (simp add: sint_uint signed_take_bit_eq_take_bit_minus)
  moreover have "take_bit 64 (uint w) = uint w" "uint w < 2 ^ 64"
    using unsigned_less [of w, where ?'a = int] by (simp_all add: take_bit_int_eq_self)
  ultimately show ?thesis using assms by (cases "bit (uint w) 63") auto
qed

lemma mem_range:
  assumes "\<not> off + sz > mem_Len m" "\<not> off > off + sz" "length (store m) < 2 ^ 64"
  shows "unat off + unat sz \<le> length (store m)"
proof -
  have "unat (off + sz) = unat off + unat sz" using assms(2) by (simp add: not_less unat_plus_simple)
  moreover have "unat (mem_Len m) = length (store m)" using assms(3) by (simp add: mem_Len_def unat_of_nat)
  ultimately show ?thesis using assms(1) by (simp add: not_less word_le_nat_alt)
qed

lemma length_Bytes32: "length (Bytes32 x) = 32"
  by (simp add: Bytes32_def)

lemma calm_mem_Set32: "mem_Set32 off val m = Some m' \<Longrightarrow> calm m m'"
  using mem_range [where off = off and sz = 32 and m = m]
  by (auto simp: mem_Set32_def calm_def grows_def acts_refl length_copy_at length_Bytes32 split: if_splits)

lemma unat_mem_Len: "length (store m) < 2 ^ 64 \<Longrightarrow> unat (mem_Len m) = length (store m)"
  by (simp add: mem_Len_def unat_of_nat)

lemma Resize_length:
  assumes "Resize sz m = Some m'" and "length (store m) < 2 ^ 64"
  shows "length (store m') = max (length (store m)) (unat sz)"
proof (cases "mem_Len m < sz")
  case True
  then have m: "m' = m\<lparr>store := store m @ replicate (nat (sint (sz - mem_Len m))) (CHR 0x00)\<rparr>" "0 \<le> sint (sz - mem_Len m)"
    using assms(1) by (auto simp: Resize_def make_bytes_def bind_Some_iff split: if_splits)
  have "nat (sint (sz - mem_Len m)) = unat (sz - mem_Len m)"
    unfolding sint_nonneg [OF m(2)] by (rule nat_uint_eq)
  also have "\<dots> = unat sz - length (store m)"
    using True unat_mem_Len [OF assms(2)] by (simp add: unat_sub word_le_nat_alt word_less_nat_alt)
  finally show ?thesis using m(1) True unat_mem_Len [OF assms(2)] by (simp add: word_less_nat_alt)
next
  case False
  then show ?thesis using assms unat_mem_Len [OF assms(2)] by (auto simp: Resize_def word_less_nat_alt)
qed

lemma calm_Resize: "Resize sz m = Some m' \<Longrightarrow> calm m m'"
proof -
  assume r: "Resize sz m = Some m'"
  have "grows m m'"
    unfolding grows_def using Resize_length [OF r] unsigned_less [of sz, where ?'a = nat] by auto
  then show "calm m m'"
    using r by (auto simp: calm_def Resize_def acts_refl bind_Some_iff split: if_splits)
qed


subsection \<open>The operations\<close>

lemma quiet_unop: "(\<And>E r. g (E\<lparr>run_of := r\<rparr>) = g E) \<Longrightarrow> quiet (\<lambda>E K m. unop (g E K m) m)"
  by (rule quietI) (auto simp: unop_def op_ok_def bind_Some_iff calm_fields)

lemma quiet_binop: "(\<And>E r. g (E\<lparr>run_of := r\<rparr>) = g E) \<Longrightarrow> quiet (\<lambda>E K m. binop (g E K m) m)"
  by (rule quietI) (auto simp: binop_def op_ok_def bind_Some_iff dest!: calm_pop intro: calm_trans calm_fields)

lemma quiet_terop: "(\<And>E r. g (E\<lparr>run_of := r\<rparr>) = g E) \<Longrightarrow> quiet (\<lambda>E K m. terop (g E K m) m)"
  by (rule quietI) (auto simp: terop_def op_ok_def bind_Some_iff dest!: calm_pop intro: calm_trans calm_fields)

lemma quiet_push: "(\<And>E r. g (E\<lparr>run_of := r\<rparr>) = g E) \<Longrightarrow> quiet (\<lambda>E K m. op_ok (push (g E K m) m))"
  by (rule quietI) (auto simp: op_ok_def calm_fields)

lemma quiet_arithmetic:
  "quiet opAdd" "quiet opSub" "quiet opMul" "quiet opDiv" "quiet opSdiv" "quiet opMod" "quiet opSmod" "quiet opExp"
  "quiet opSignExtend" "quiet opNot" "quiet opLt" "quiet opGt" "quiet opSlt" "quiet opSgt" "quiet opEq" "quiet opIszero"
  "quiet opAnd" "quiet opOr" "quiet opXor" "quiet opByte" "quiet opAddmod" "quiet opMulmod" "quiet opSHL" "quiet opSHR" "quiet opSAR"
  unfolding opAdd_def opSub_def opMul_def opDiv_def opSdiv_def opMod_def opSmod_def opExp_def opSignExtend_def opNot_def opLt_def
    opGt_def opSlt_def opSgt_def opEq_def opIszero_def opAnd_def opOr_def opXor_def opByte_def opAddmod_def opMulmod_def opSHL_def
    opSHR_def opSAR_def
  by (rule quiet_binop quiet_unop quiet_terop, simp add: fun_eq_iff)+


lemma quiet_readers:
  "quiet opAddress" "quiet opBalance" "quiet opOrigin" "quiet opCaller" "quiet opCallValue" "quiet opCallDataSize"
  "quiet opReturnDataSize" "quiet opExtCodeSize" "quiet opCodeSize" "quiet opExtCodeHash" "quiet opGasprice" "quiet opBlockhash"
  "quiet opCoinbase" "quiet opTimestamp" "quiet opNumber" "quiet opDifficulty" "quiet opGasLimit" "quiet opSelfBalance" "quiet opSload"
  "quiet opPc" "quiet opMsize" "quiet opGas" "quiet opNBalanceOf" "quiet opNOwnerOf" "quiet opNGetApproved" "quiet opNCreator"
  "quiet opNIsExist" "quiet opNRoyaltyRatio"
  unfolding opAddress_def opBalance_def opOrigin_def opCaller_def opCallValue_def opCallDataSize_def
    opReturnDataSize_def opExtCodeSize_def opCodeSize_def opExtCodeHash_def opGasprice_def opBlockhash_def opCoinbase_def opTimestamp_def
    opNumber_def opDifficulty_def opGasLimit_def opSelfBalance_def opSload_def opPc_def opMsize_def opGas_def opNBalanceOf_def opNOwnerOf_def
    opNGetApproved_def opNCreator_def opNIsExist_def opNRoyaltyRatio_def
  by (rule quiet_unop quiet_push, simp add: fun_eq_iff Let_def)+


lemma quiet_CallDataLoad: "quiet opCallDataLoad"
  by (rule quietI) (auto simp: opCallDataLoad_def op_ok_def bind_Some_iff calm_fields split: if_splits)

lemma acts_machine:
  "acts s (SetState a k v s)" "acts s (AddLog l s)" "acts s (AddPreimage h d s)" "acts s (fst (Suicide a s))" "acts s (AddRefund g s)"
  "acts s (SetNonce a n s)" "acts s (SetCode a c s)" "acts s (AddAddressToAccessList a s)" "SubRefund g s = Some s' \<Longrightarrow> acts s s'"
  "AddSlotToAccessList a k s = Some s' \<Longrightarrow> acts s s'"
  using acts_run [of "opSetState a k v"] acts_run [of "opAddLog l"] acts_run [of "opAddPreimage h d"] acts_run [of "opSuicide a"]
    acts_run [of "opAddRefund g"] acts_run [of "opSetNonce a n"] acts_run [of "opSetCode a c"] acts_run [of "opAddAddressToAccessList a"]
    acts_run [of "opSubRefund g"] acts_run [of "opAddSlotToAccessList a k"]
  by simp_all



lemma reads_run_of [simp]:
  "GetPtr (E\<lparr>run_of := r\<rparr>) = GetPtr E" "GetCopy (E\<lparr>run_of := r\<rparr>) = GetCopy E" "chainRules (E\<lparr>run_of := r\<rparr>) = chainRules E"
  by (simp_all add: GetPtr_def GetCopy_def chainRules_def fun_eq_iff)

text \<open>Operations are chains of pops, reads and writes, each of them calm.\<close>

definition settles :: "vm \<Rightarrow> execution \<Rightarrow> bool" where
  "settles m x \<longleftrightarrow> (\<forall>m' r e. x = Some (m', r, e) \<longrightarrow> calm m m')"

lemma settles_pop: "(\<And>x m1. settles m1 (f x m1)) \<Longrightarrow> settles m (Option.bind (pop m) (\<lambda>(x, m1). f x m1))"
  by (fastforce simp: settles_def bind_Some_iff dest: calm_pop intro: calm_trans)

lemma settles_topics: "(\<And>x m1. settles m1 (f x m1)) \<Longrightarrow> settles m (Option.bind (pop_topics n m) (\<lambda>(x, m1). f x m1))"
proof -
  have "pop_topics n m = Some (ts, m') \<Longrightarrow> calm m m'" for m' ts
    by (induction n arbitrary: m ts) (auto simp: bind_Some_iff calm_refl dest!: calm_pop intro: calm_trans)
  then show "(\<And>x m1. settles m1 (f x m1)) \<Longrightarrow> settles m (Option.bind (pop_topics n m) (\<lambda>(x, m1). f x m1))"
    by (fastforce simp: settles_def bind_Some_iff intro: calm_trans)
qed

lemma settles_change:
  "(\<And>m1. settles m1 (f m1)) \<Longrightarrow> settles m (Option.bind (mem_Set off sz v m) f)"
  "(\<And>m1. settles m1 (f m1)) \<Longrightarrow> settles m (Option.bind (mem_Set32 off w m) f)"
  "(\<And>m1. settles m1 (f m1)) \<Longrightarrow> settles m (Option.bind (Resize sz m) f)"
  "(\<And>m1. settles m1 (f m1)) \<Longrightarrow> settles m (Option.bind (dup n m) f)"
  "(\<And>m1. settles m1 (f m1)) \<Longrightarrow> settles m (Option.bind (swap n m) f)"
  by (fastforce simp: settles_def bind_Some_iff dest: calm_mem_Set calm_mem_Set32 calm_Resize calm_dup_swap intro: calm_trans)+

lemma settles_if: "(b \<Longrightarrow> settles m x) \<Longrightarrow> (\<not> b \<Longrightarrow> settles m y) \<Longrightarrow> settles m (if b then x else y)"
  by simp

lemma settles_read: "(\<And>x. a = Some x \<Longrightarrow> settles m (f x)) \<Longrightarrow> settles m (Option.bind a f)"
  by (auto simp: settles_def bind_Some_iff)

lemma settles_ok: "calm m m' \<Longrightarrow> settles m (op_ok m')" "calm m m' \<Longrightarrow> settles m (Some (m', r, e))" "settles m None"
  by (auto simp: settles_def op_ok_def)

lemmas settles_rules = settles_if settles_pop settles_topics settles_change settles_read settles_ok

lemma quiet_settles:
  assumes "\<And>E K m. settles m (f E K m)" and "\<And>E r K m. f (E\<lparr>run_of := r\<rparr>) K m = f E K m"
  shows "quiet f"
  using assms unfolding settles_def by (intro quietI) blast+

lemma calm_then:
  "calm m n \<Longrightarrow> calm m (n\<lparr>stack := st\<rparr>)" "calm m n \<Longrightarrow> calm m (n\<lparr>pc := p\<rparr>)" "calm m n \<Longrightarrow> calm m (n\<lparr>returnData := d\<rparr>)"
  "calm m n \<Longrightarrow> calm m (push x n)" "calm m n \<Longrightarrow> calm m (set_peek x n)" "acts (db n) s \<Longrightarrow> calm m n \<Longrightarrow> calm m (n\<lparr>db := s\<rparr>)"
  by (blast intro: calm_trans calm_fields calm_db)+

lemma calm_if: "calm m x \<Longrightarrow> calm m y \<Longrightarrow> calm m (if b then x else y)" "acts s t \<Longrightarrow> acts s u \<Longrightarrow> acts s (if b then t else u)"
  by simp_all

lemmas calm_all = calm_refl calm_if calm_then

lemma settles_copyToMemory: "settles m (copyToMemory d m)"
  unfolding copyToMemory_def by (rule settles_rules calm_all)+



lemma calm_store: "length (st :: string) = length (store m) \<Longrightarrow> calm m (m\<lparr>store := st\<rparr>)"
  by (simp add: calm_def grows_def acts_refl)

lemma quiet_memory:
  "quiet opCallDataCopy" "quiet opCodeCopy" "quiet opExtCodeCopy" "quiet opReturnDataCopy" "quiet opMload" "quiet opMstore" "quiet opMstore8"
  "quiet opReturn" "quiet opRevert"
  by (rule quiet_settles; simp add: opCallDataCopy_def opCodeCopy_def opExtCodeCopy_def opReturnDataCopy_def opMload_def opMstore_def
       opMstore8_def opReturn_def opRevert_def Let_def; (intro conjI impI settles_rules settles_copyToMemory calm_all calm_store; simp)?)+

lemma quiet_jumps:
  "quiet opPop" "quiet opJump" "quiet opJumpi" "quiet opJumpdest" "quiet opStop" "quiet opPush1" "quiet (makePush n b)" "quiet (makeDup n)"
  "quiet (makeSwap n)" "quiet opChainID" "quiet opBaseFee" "quiet opNIsApprovedForAll"
  by (rule quiet_settles; simp add: opPop_def opJump_def opJumpi_def opJumpdest_def opStop_def opPush1_def makePush_def makeDup_def
       makeSwap_def opChainID_def opBaseFee_def opNIsApprovedForAll_def Let_def; (intro conjI impI settles_rules calm_all; simp)?)+

lemma settles_returnString: "settles m (returnString E d m)"
  unfolding returnString_def Let_def by (intro settles_rules calm_all)

lemma quiet_writers:
  "quiet opSha3" "quiet opSstore" "quiet (makeLog n)" "quiet opSelfdestruct" "quiet opNTransferFrom" "quiet opNApprove"
  "quiet opNSetApprovalForAll"
  by (rule quiet_settles; simp add: opSha3_def opSstore_def makeLog_def opSelfdestruct_def opNTransferFrom_def opNApprove_def
       opNSetApprovalForAll_def Let_def;
      (intro conjI impI settles_rules calm_all acts_trans [OF acts_steps(2) acts_machine(4)] acts_machine(1-8) acts_steps(1-13); assumption?)?)+

lemma quiet_NMint: "quiet opNMint"
  unfolding opNMint_def Let_def case_prod_beta [of _ "CreateNFTByUser _ _ _ _ _"]
  by (rule quiet_settles, rule settles_pop, rule settles_pop, intro settles_rules calm_all acts_steps(4), simp cong: if_cong)

lemma quiet_strings: "quiet opNTokenURI" "quiet opNName" "quiet opNSymbol"
proof -
  have r: "returnString (E\<lparr>run_of := r\<rparr>) = returnString E" for E r by (simp add: returnString_def fun_eq_iff)
  show "quiet opNTokenURI" "quiet opNName" "quiet opNSymbol"
    unfolding opNTokenURI_def opNName_def opNSymbol_def
    by (rule quiet_settles, intro settles_rules settles_returnString, simp add: r)+
qed


subsection \<open>The price of the memory\<close>

definition memFee :: "nat \<Rightarrow> nat" where
  "memFee w = 3 * w + w * w div 512"

lemma memFee_mono: "v \<le> w \<Longrightarrow> memFee v \<le> memFee w"
  unfolding memFee_def by (intro add_mono mult_le_mono div_le_mono) auto

text \<open>The memory is addressable, and no more was paid for it than its size costs.\<close>

definition mem_ok :: "vm \<Rightarrow> bool" where
  "mem_ok m \<longleftrightarrow> length (store m) < 2 ^ 64 \<and> unat (lastGasCost m) \<le> memFee (length (store m) div 32)"

lemma mem_ok_calm: "calm m m' \<Longrightarrow> mem_ok m \<Longrightarrow> mem_ok m'"
  unfolding calm_def grows_def mem_ok_def
  using order_trans [OF _ memFee_mono [OF div_le_mono [of "length (store m)" "length (store m')" 32]]] by simp

lemma mem_ok_new: "mem_ok (newVM g s)"
  by (simp add: mem_ok_def newVM_def)

lemma unat_toWordSize: "ms \<le> 0x1FFFFFFFE0 \<Longrightarrow> unat (toWordSize ms) = (unat ms + 31) div 32"
proof -
  assume "ms \<le> 0x1FFFFFFFE0"
  then have "unat ms \<le> 0x1FFFFFFFE0" by (simp add: word_le_nat_alt)
  moreover from this have "unat (ms + 31) = unat ms + 31" using unat_add_lem [of ms 31] by simp
  ultimately show ?thesis by (simp add: toWordSize_def word_less_nat_alt unat_div)
qed

lemma unat_wordFee:
  assumes "unat w < 2 ^ 32"
  shows "unat (w * 3 + w * w div 512 :: u64) = memFee (unat w)" "memFee (unat w) < 2 ^ 56"
proof -
  have sq: "unat w * unat w < 2 ^ 32 * 2 ^ 32" using assms by (intro mult_strict_mono) auto
  then have "unat (w * w) = unat w * unat w" using unat_mult_lem [of w w] by simp
  then have d: "unat (w * w div 512) = unat w * unat w div 512" by (simp add: unat_div)
  have m: "unat (w * 3) = unat w * 3" using assms unat_mult_lem [of w 3] by simp
  have b: "unat w * unat w div 512 < 2 ^ 55" using sq by simp
  show "memFee (unat w) < 2 ^ 56" using b assms by (simp add: memFee_def)
  show "unat (w * 3 + w * w div 512) = memFee (unat w)"
    unfolding memFee_def using d m b assms unat_add_lem [of "w * 3" "w * w div 512"] by simp
qed


lemma memoryGasCost_cases:
  assumes "memoryGasCost ms m = Some (m', c, e)"
  obtains (same) "m' = m" "c = 0"
    | (grown) "ms \<le> 0x1FFFFFFFE0" "e = None" "m' = m\<lparr>lastGasCost := c + lastGasCost m\<rparr>"
      "mem_Len m < toWordSize ms * 32" "unat (lastGasCost m') = memFee ((unat ms + 31) div 32)" "unat (lastGasCost m') < 2 ^ 56"
proof (cases "m' = m \<and> c = 0")
  case False
  let ?w = "toWordSize ms"
  from False assms have f: "ms \<le> 0x1FFFFFFFE0" "e = None" "mem_Len m < ?w * 32" "c = ?w * 3 + ?w * ?w div 512 - lastGasCost m"
    "m' = m\<lparr>lastGasCost := ?w * 3 + ?w * ?w div 512\<rparr>"
    by (auto simp: memoryGasCost_def gas_ok_def gas_err_def Let_def not_less split: if_splits)
  have w: "unat ?w = (unat ms + 31) div 32" by (rule unat_toWordSize [OF f(1)])
  moreover have "unat ms \<le> 0x1FFFFFFFE0" using f(1) by (simp add: word_le_nat_alt)
  ultimately have "unat ?w < 2 ^ 32" by simp
  from unat_wordFee [OF this] show ?thesis using f w by (intro grown) simp_all
qed (blast intro: same)

lemma memoryGasCost_bound: "memoryGasCost ms m = Some (m', c, e) \<Longrightarrow> mem_ok m \<Longrightarrow> unat c < 2 ^ 56"
proof (erule memoryGasCost_cases)
  assume ok: "mem_ok m" and g: "ms \<le> 0x1FFFFFFFE0" "m' = m\<lparr>lastGasCost := c + lastGasCost m\<rparr>" "mem_Len m < toWordSize ms * 32"
    "unat (lastGasCost m') = memFee ((unat ms + 31) div 32)" "unat (lastGasCost m') < 2 ^ 56"
  have w: "unat (toWordSize ms) = (unat ms + 31) div 32" by (rule unat_toWordSize [OF g(1)])
  moreover have "unat ms \<le> 0x1FFFFFFFE0" using g(1) by (simp add: word_le_nat_alt)
  moreover from this have "(unat ms + 31) div 32 < 576460752303423488" by simp
  ultimately have "unat (toWordSize ms * 32) = (unat ms + 31) div 32 * 32" using unat_mult_lem [of "toWordSize ms" 32] by simp
  then have "length (store m) div 32 \<le> (unat ms + 31) div 32"
    using g(3) unat_mem_Len [of m] ok by (simp add: mem_ok_def word_less_nat_alt)
  from memFee_mono [OF this] have "unat (lastGasCost m) \<le> unat (lastGasCost m')" using ok g(4) by (simp add: mem_ok_def)
  then have "unat (lastGasCost m' - lastGasCost m) = unat (lastGasCost m') - unat (lastGasCost m)" by (simp add: unat_sub word_le_nat_alt)
  moreover have "lastGasCost m' - lastGasCost m = c" using g(2) by simp
  ultimately show ?thesis using g(5) by simp
qed simp


subsection \<open>The gas functions\<close>

text \<open>A gas function changes the state by operations of the state database, the gas only with an error, and what was paid
  for the memory only to the price of the size it is asked for.\<close>

definition billed :: "u64 \<Rightarrow> vm \<Rightarrow> vm \<Rightarrow> string option \<Rightarrow> bool" where
  "billed ms m m' e \<longleftrightarrow> acts (db m) (db m') \<and> store m' = store m \<and> stack m' = stack m \<and> Gas m' \<le> Gas m \<and> (e = None \<longrightarrow> Gas m' = Gas m) \<and>
     (lastGasCost m' = lastGasCost m \<or> ms \<le> 0x1FFFFFFFE0 \<and> unat (lastGasCost m') = memFee ((unat ms + 31) div 32))"

definition bills :: "u64 \<Rightarrow> vm \<Rightarrow> gasResult \<Rightarrow> bool" where
  "bills ms m x \<longleftrightarrow> (\<forall>m' c e. x = Some (m', c, e) \<longrightarrow> billed ms m m' e)"

definition tame :: "gasFunc \<Rightarrow> bool" where
  "tame g \<longleftrightarrow> (\<forall>E K ms m. bills ms m (g E K ms m)) \<and> (\<forall>E r K ms m. g (E\<lparr>run_of := r\<rparr>) K ms m = g E K ms m)"

lemma tameI:
  assumes "\<And>E K ms m. bills ms m (g E K ms m)" and "\<And>E r K ms m. g (E\<lparr>run_of := r\<rparr>) K ms m = g E K ms m"
  shows "tame g"
  using assms unfolding tame_def by blast

lemma billed_refl: "billed ms m m e"
  by (simp add: billed_def acts_refl)

lemma billed_trans: "billed ms m n None \<Longrightarrow> billed ms n k e \<Longrightarrow> billed ms m k e"
  unfolding billed_def by (auto intro: acts_trans)

lemma billed_fields:
  "billed ms m n e \<Longrightarrow> billed ms m (n\<lparr>callGasTemp := t\<rparr>) e" "acts (db n) s \<Longrightarrow> billed ms m n e \<Longrightarrow> billed ms m (n\<lparr>db := s\<rparr>) e"
  "billed ms m n e \<Longrightarrow> billed ms m (warm a n) e" "billed ms m x e \<Longrightarrow> billed ms m y e \<Longrightarrow> billed ms m (if b then x else y) e"
  using acts_machine(8) by (auto simp: billed_def warm_def intro: acts_trans)

lemma bills_then: "bills ms m x \<Longrightarrow> (\<And>g m1. bills ms m1 (f g m1)) \<Longrightarrow> bills ms m (gas_then x f)"
proof -
  assume x: "bills ms m x" and f: "\<And>g m1. bills ms m1 (f g m1)"
  show "bills ms m (gas_then x f)"
  proof (cases x)
    case (Some r)
    obtain n c e where r: "r = (n, c, e)" by (cases r)
    have b: "billed ms m n e" using x Some r by (simp add: bills_def)
    show ?thesis
    proof (cases e)
      case None
      then show ?thesis using f [of n c] b Some r by (auto simp: bills_def gas_then_def intro: billed_trans)
    next
      case e: (Some s)
      then show ?thesis using b Some r by (simp add: bills_def gas_then_def gas_err_def)
    qed
  qed (simp add: gas_then_def bills_def)
qed

lemma bills_no_overflow: "(\<And>g. bills ms m (f g m)) \<Longrightarrow> bills ms m (no_overflow r f m)"
  by (simp add: no_overflow_def gas_err_def bills_def billed_refl)

lemma bills_read:
  "(\<And>x. bills ms m (f x)) \<Longrightarrow> bills ms m (Option.bind a f)"
  "(\<And>x. bills ms m (f x)) \<Longrightarrow> bills ms m (case a of None \<Rightarrow> None | Some x \<Rightarrow> f x)"
  by (auto simp: bills_def bind_Some_iff split: option.splits)

lemma bills_if: "(b \<Longrightarrow> bills ms m x) \<Longrightarrow> (\<not> b \<Longrightarrow> bills ms m y) \<Longrightarrow> bills ms m (if b then x else y)"
  by simp

lemma bills_ok:
  "billed ms m n None \<Longrightarrow> bills ms m (gas_ok g n)" "billed ms m n (Some e) \<Longrightarrow> bills ms m (gas_err e n)" "bills ms m None"
  by (auto simp: bills_def gas_ok_def gas_err_def)

lemma bills_memory: "bills ms m (memoryGasCost ms m)"
  unfolding bills_def by (auto elim!: memoryGasCost_cases simp: billed_refl) (simp_all add: billed_def acts_refl)



lemma bills_bind_machine: "(\<And>n. a = Some n \<Longrightarrow> billed ms m n None) \<Longrightarrow> (\<And>n. bills ms n (f n)) \<Longrightarrow> bills ms m (Option.bind a f)"
  by (auto simp: bills_def bind_Some_iff intro: billed_trans)

lemma billed_refunded:
  "refunded (\<lambda>s. Some (AddRefund g s)) m = Some n \<Longrightarrow> billed ms m n None" "refunded (SubRefund g) m = Some n \<Longrightarrow> billed ms m n None"
  by (auto simp: refunded_def bind_Some_iff acts_machine billed_refl intro!: billed_fields)

lemma billed_dirtyRefunds: "dirtyRefunds a b c og cu v m = Some n \<Longrightarrow> billed ms m n None"
  unfolding dirtyRefunds_def bind_Some_iff
  by (elim exE conjE) (auto split: if_splits dest!: billed_refunded [where ms = ms] intro: billed_trans billed_refl)

lemma bills_withCallGas: "bills ms m (withCallGas E g m)"
proof -
  have "bills ms m (no_overflow r gas_ok (m\<lparr>callGasTemp := t\<rparr>))" for r t
    by (auto simp: no_overflow_def bills_def gas_ok_def gas_err_def intro!: billed_fields billed_refl)
  moreover have "bills ms m (gas_err e (m\<lparr>callGasTemp := t\<rparr>))" for e t by (intro bills_ok billed_fields billed_refl)
  ultimately show ?thesis unfolding withCallGas_def by (intro bills_read) (simp split: option.split)
qed

lemmas bills_rules = bills_then bills_memory bills_if bills_no_overflow bills_bind_machine [OF billed_dirtyRefunds] bills_read bills_ok bills_withCallGas
  billed_fields billed_refl acts_machine(5)

lemma reads_withCallGas [simp]: "withCallGas (E\<lparr>run_of := r\<rparr>) = withCallGas E"
  by (simp add: withCallGas_def fun_eq_iff)

lemma tame_perWord: "tame (perWord pos p)"
  unfolding perWord_def by (rule tameI, intro bills_rules, simp)

lemma tame_simple:
  "tame gasCallDataCopy" "tame gasCodeCopy" "tame gasExtCodeCopy" "tame gasReturnDataCopy" "tame gasSha3" "tame gasCreate2"
  unfolding gasCallDataCopy_def gasCodeCopy_def gasExtCodeCopy_def gasReturnDataCopy_def memoryCopierGas_def gasSha3_def gasCreate2_def
  by (rule tame_perWord)+

lemma tame_table:
  "tame gasSStore" "tame gasSStoreEIP2200" "tame (makeGasLog n)" "tame pureMemoryGascost" "tame gasExpFrontier" "tame gasExpEIP158"
  "tame gasSelfdestruct"
  unfolding gasSStore_def gasSStoreEIP2200_def makeGasLog_def pureMemoryGascost_def gasExpFrontier_def gasExpEIP158_def gasExp_def
    gasSelfdestruct_def Let_def
  by (rule tameI, (intro bills_rules; simp), simp cong: if_cong)+

lemma tame_calls: "tame gasCall" "tame gasCallCode" "tame gasDelegateCall" "tame gasStaticCall"
  unfolding gasCall_def gasCallCode_def gasDelegateCall_def gasStaticCall_def Let_def
  by (rule tameI, (intro bills_rules; simp), simp cong: if_cong)+


lemma bills_slot:
  "(\<And>s. acts (db m) s \<Longrightarrow> bills ms m (f s)) \<Longrightarrow> bills ms m (Option.bind (AddSlotToAccessList a k (db m)) f)"
  by (auto simp: bills_def bind_Some_iff dest: acts_machine(10))

lemma tame_SStoreFunc: "tame (makeGasSStoreFunc n)"
proof (rule tameI)
  let ?add = "\<lambda>a k m p. (Option.bind (AddSlotToAccessList a k (db m)) (\<lambda>s. if \<not> p then None else Some (ColdSloadCostEIP2929, m\<lparr>db := s\<rparr>)))"
  have slot: "bills ms m (Option.bind (if \<not> q then ?add a k m p else Some (0, m)) (\<lambda>(c, m). f c m))"
    if "\<And>c m. bills ms m (f c m)" for ms m a k p q f
    using that by (auto simp: bills_def bind_Some_iff split: if_splits dest!: acts_machine(10) intro: billed_trans [OF billed_fields(2) [OF _ billed_refl]])
  show "bills ms m (makeGasSStoreFunc n E K ms m)" for E K ms m
    unfolding makeGasSStoreFunc_def Let_def case_prod_beta [of _ "_ :: bool \<times> bool"]
    by (intro bills_if bills_ok billed_refl bills_read slot bills_rules)
qed (simp add: makeGasSStoreFunc_def)

lemma tame_acl:
  "tame gasSStoreEIP2929" "tame gasSStoreEIP3529" "tame gasSLoadEIP2929" "tame gasExtCodeCopyEIP2929" "tame gasEip2929AccountCheck"
  "tame gasSelfdestructEIP2929" "tame gasSelfdestructEIP3529"
proof -
  show "tame gasSStoreEIP2929" "tame gasSStoreEIP3529"
    unfolding gasSStoreEIP2929_def gasSStoreEIP3529_def by (rule tame_SStoreFunc)+
  show "tame gasSLoadEIP2929"
    unfolding gasSLoadEIP2929_def case_prod_beta
    by (rule tameI, (intro bills_read(1) bills_if bills_slot bills_ok billed_fields billed_refl; assumption), simp)
  show "tame gasEip2929AccountCheck"
    unfolding gasEip2929AccountCheck_def by (rule tameI, intro bills_rules, simp)
  show "tame gasSelfdestructEIP2929" "tame gasSelfdestructEIP3529"
    unfolding gasSelfdestructEIP2929_def gasSelfdestructEIP3529_def makeSelfdestructGasFn_def Let_def
    by (rule tameI, intro bills_rules, simp)+
  have "bills ms m (no_overflow r gas_ok (warm a m))" for ms m r a
    by (auto simp: no_overflow_def bills_def gas_ok_def gas_err_def intro!: billed_fields billed_refl)
  moreover have "bills ms m (gasExtCodeCopy E K ms m)" "gasExtCodeCopy (E\<lparr>run_of := r\<rparr>) K ms m = gasExtCodeCopy E K ms m" for E r K ms m
    using tame_simple(3) by (simp_all add: tame_def)
  ultimately show "tame gasExtCodeCopyEIP2929"
    unfolding gasExtCodeCopyEIP2929_def by (intro tameI bills_then bills_read(1) bills_if bills_ok billed_refl) simp_all
qed


text \<open>The cold access of a call: the gas is taken away, the call is priced, and the gas is given back to be part of the price.\<close>

lemma callVariant_cases:
  assumes "makeCallVariantGasCallEIP2929 g E K ms m = Some (m', c, e)"
  obtains (warm) "g E K ms m = Some (m', c, e)"
    | (poor) a where "m' = warm a m" "e = Some ErrOutOfGas" "Gas m < 2500"
    | (cold) a n b d where "2500 \<le> Gas m" "g E K ms ((warm a m)\<lparr>Gas := Gas m - 2500\<rparr>) = Some (n, b, d)"
      "if d = None then e = None \<and> c = b + 2500 \<and> m' = n\<lparr>Gas := Gas n + 2500\<rparr> else e = d \<and> c = b \<and> m' = n"
proof -
  obtain a where a: "Back 1 m = Some a" using assms by (auto simp: makeCallVariantGasCallEIP2929_def bind_Some_iff)
  show ?thesis
  proof (cases "AddressInAccessList (Bytes20 a) (db m)")
    case True
    then show ?thesis using a assms by (intro warm) (simp add: makeCallVariantGasCallEIP2929_def)
  next
    case False
    have p: "Gas (warm x m) = Gas m" for x by (simp add: warm_def)
    show ?thesis
    proof (cases "Gas m < 2500")
      case True
      then show ?thesis using False a assms
        by (intro poor) (auto simp: makeCallVariantGasCallEIP2929_def UseGas_def gas_err_def p ColdAccountAccessCostEIP2929_def
          WarmStorageReadCostEIP2929_def)
    next
      case False': False
      then show ?thesis using False a assms
        by (auto simp: makeCallVariantGasCallEIP2929_def UseGas_def gas_ok_def p ColdAccountAccessCostEIP2929_def
          WarmStorageReadCostEIP2929_def bind_Some_iff not_less split: if_splits intro!: cold)
    qed
  qed
qed

lemma tame_callVariant:
  assumes g: "tame g"
  shows "tame (makeCallVariantGasCallEIP2929 g)"
proof (rule tameI)
  fix E K ms and m :: vm
  have t: "billed ms n n' e" if "g E K ms n = Some (n', c, e)" for n n' c e using g that by (auto simp: tame_def bills_def)
  have le: "Gas m - 2500 \<le> Gas m" if "2500 \<le> Gas m" using that by (simp add: word_sub_le)
  show "bills ms m (makeCallVariantGasCallEIP2929 g E K ms m)"
    unfolding bills_def
  proof (intro allI impI)
    fix m' c e
    assume "makeCallVariantGasCallEIP2929 g E K ms m = Some (m', c, e)"
    then show "billed ms m m' e"
    proof (cases rule: callVariant_cases)
      case (cold a n b d)
      have a: "acts (db m) (db (warm a m))" "store (warm a m) = store m" "stack (warm a m) = stack m" "lastGasCost (warm a m) = lastGasCost m"
        by (simp_all add: warm_def acts_machine)
      show ?thesis using t [OF cold(2)] cold(3) le [OF cold(1)] a
        by (cases d) (auto simp: billed_def intro: acts_trans order_trans)
    qed (auto dest: t intro: billed_fields billed_refl)
  qed
next
  have "g (E\<lparr>run_of := r\<rparr>) = g E" for E r using g by (simp add: tame_def fun_eq_iff)
  then show "makeCallVariantGasCallEIP2929 g (E\<lparr>run_of := r\<rparr>) K ms m = makeCallVariantGasCallEIP2929 g E K ms m" for E r K ms m
    by (simp only: makeCallVariantGasCallEIP2929_def)
qed

lemma tame_callVariants: "tame gasCallEIP2929" "tame gasDelegateCallEIP2929" "tame gasStaticCallEIP2929" "tame gasCallCodeEIP2929"
  unfolding gasCallEIP2929_def gasDelegateCallEIP2929_def gasStaticCallEIP2929_def gasCallCodeEIP2929_def
  by (rule tame_callVariant tame_calls)+

lemmas tame_all = tame_simple tame_table tame_calls tame_acl tame_callVariants


text \<open>The operations with no constant price have a dynamic one.\<close>

definition charges :: "gasFunc \<Rightarrow> bool" where
  "charges g \<longleftrightarrow> (\<forall>E K ms m m' c. g E K ms m = Some (m', c, None) \<longrightarrow> 0 < c)"

lemma SafeAdd_unat: "\<not> snd (SafeAdd x y) \<Longrightarrow> unat (fst (SafeAdd x y)) = unat x + unat y"
  using unat_add_lem [of x y] by (simp add: SafeAdd_def)

lemma SafeAdd_positive: "\<not> snd (SafeAdd x y) \<Longrightarrow> 0 < x \<or> 0 < y \<Longrightarrow> 0 < fst (SafeAdd x y)"
  using SafeAdd_unat [of x y] by (auto simp: word_less_nat_alt)

lemma no_overflow_ok: "no_overflow r f m = Some (m', c, None) \<longleftrightarrow> \<not> snd r \<and> f (fst r) m = Some (m', c, None)"
  by (simp add: no_overflow_def gas_err_def)

lemma gas_then_ok: "gas_then x f = Some (m', c, None) \<longleftrightarrow> (\<exists>n g. x = Some (n, g, None) \<and> f g n = Some (m', c, None))"
  by (auto simp: gas_then_def gas_err_def split: option.splits)

lemma gas_ok_ok: "gas_ok g m = Some (m', c, None) \<longleftrightarrow> m' = m \<and> c = g"
  by (auto simp: gas_ok_def)

lemma gas_err_ok: "gas_err e m \<noteq> Some (m', c, None)"
  by (simp add: gas_err_def)

definition positive :: "gasResult \<Rightarrow> bool" where
  "positive x \<longleftrightarrow> (\<forall>m c. x = Some (m, c, None) \<longrightarrow> 0 < c)"

lemma positive_rules:
  "positive y \<Longrightarrow> positive z \<Longrightarrow> positive (if b then y else z)" "(\<And>x. positive (f x)) \<Longrightarrow> positive (Option.bind a f)"
  "0 < c \<Longrightarrow> positive (gas_ok c m)" "positive (gas_err e m)" "(\<And>c n. positive (h c n)) \<Longrightarrow> positive (gas_then r h)"
  "(\<And>c. c = fst p \<Longrightarrow> \<not> snd p \<Longrightarrow> positive (h c m)) \<Longrightarrow> positive (no_overflow p h m)"
  by (auto simp: positive_def bind_Some_iff gas_ok_ok gas_err_ok gas_then_ok no_overflow_ok)

lemma charges_all:
  "charges gasExpFrontier" "charges gasExpEIP158" "charges gasSStore" "charges gasSStoreEIP2200" "charges (makeGasLog n)"
  "charges gasSStoreEIP2929" "charges gasSStoreEIP3529" "charges gasSLoadEIP2929"
proof -
  have c: "(\<And>E K ms m. positive (g E K ms m)) \<Longrightarrow> charges g" for g by (auto simp: charges_def positive_def)
  show "charges gasExpFrontier" "charges gasExpEIP158" "charges (makeGasLog n)"
    unfolding gasExpFrontier_def gasExpEIP158_def gasExp_def makeGasLog_def
    by (rule c, (intro positive_rules), simp add: SafeAdd_positive)+
  show "charges gasSStore" "charges gasSStoreEIP2200" "charges gasSLoadEIP2929"
    unfolding gasSStore_def gasSStoreEIP2200_def gasSLoadEIP2929_def ColdSloadCostEIP2929_def WarmStorageReadCostEIP2929_def
      Let_def case_prod_beta
    by (rule c, (intro positive_rules; simp))+
  have two: "positive (Option.bind (if q then Option.bind a (\<lambda>s. if p then None else Some (2100, h s)) else Some (0, m)) (\<lambda>(c, n). f c n))"
    if "\<And>n. positive (f 0 n)" "\<And>n. positive (f 2100 n)" for p q a h m f
    using that by (auto simp: positive_def bind_Some_iff)
  show "charges gasSStoreEIP2929" "charges gasSStoreEIP3529"
    unfolding gasSStoreEIP2929_def gasSStoreEIP3529_def makeGasSStoreFunc_def ColdSloadCostEIP2929_def WarmStorageReadCostEIP2929_def
      Let_def case_prod_beta [of _ "_ :: bool \<times> bool"]
    by (rule c, (intro two positive_rules; simp))+
qed


subsection \<open>The gas of a call\<close>

text \<open>The price of a call covers the gas it takes along, and the transfer of value. A price of a call leaves room for the
  price of a cold access where the gas is capped by what is available.\<close>

definition callPrice :: "bool \<Rightarrow> gasFunc \<Rightarrow> bool" where
  "callPrice wv g \<longleftrightarrow> (\<forall>E K ms m m' c. mem_ok m \<longrightarrow> g E K ms m = Some (m', c, None) \<longrightarrow>
     unat (callGasTemp m') + (if wv \<and> stack m ! 2 \<noteq> 0 then 9000 else 0) \<le> unat c \<and>
     (IsEIP150 (chainRules E) \<and> unat (Gas m) + 2500 < 2 ^ 64 \<longrightarrow> unat c + 2500 < 2 ^ 64))"

lemma capped:
  assumes "unat base < 2 ^ 57" and "unat gas + 2500 < 2 ^ 64" and "t \<le> (gas - base) - (gas - base) div 64" and "unat base + unat t < 2 ^ 64"
  shows "unat base + unat (t :: u64) + 2500 < 2 ^ 64"
proof -
  define a where "a = unat (gas - base)"
  have "unat ((gas - base) - (gas - base) div 64) = a - a div 64"
    by (subst unat_sub) (simp_all add: a_def unat_div word_le_nat_alt)
  then have t: "unat t \<le> a - a div 64" using assms(3) by (simp add: word_le_nat_alt)
  show ?thesis
  proof (cases "base \<le> gas")
    case True
    then have "a = unat gas - unat base" "unat base \<le> unat gas" by (simp_all add: a_def unat_sub word_le_nat_alt)
    then show ?thesis using t assms(2) by simp
  next
    case False
    then have "unat gas < unat base" by (simp add: word_le_nat_alt)
    then have "a = 2 ^ 64 + unat gas - unat base" unfolding a_def by (simp add: unat_sub_if')
    then show ?thesis using t assms(1) \<open>unat gas < unat base\<close> by simp
  qed
qed

lemma callGas_capped: "callGas True gas base x = Some t \<Longrightarrow> t \<le> (gas - base) - (gas - base) div 64"
  by (auto simp: callGas_def Let_def not_less split: if_splits)

lemma withCallGas_price:
  assumes "withCallGas E g m = Some (m', c, None)"
  shows "unat c = unat g + unat (callGasTemp m')" "m' = m\<lparr>callGasTemp := callGasTemp m'\<rparr>"
    "IsEIP150 (chainRules E) \<Longrightarrow> unat g < 2 ^ 57 \<Longrightarrow> unat (Gas m) + 2500 < 2 ^ 64 \<Longrightarrow> unat c + 2500 < 2 ^ 64"
proof -
  obtain x t where x: "callGas (IsEIP150 (chainRules E)) (Gas m) g x = Some t" "\<not> snd (SafeAdd g t)" "c = fst (SafeAdd g t)"
    "m' = m\<lparr>callGasTemp := t\<rparr>"
    using assms by (auto simp: withCallGas_def bind_Some_iff gas_err_ok no_overflow_ok gas_ok_ok split: option.splits)
  have s: "unat c = unat g + unat t" using SafeAdd_unat [OF x(2)] x(3) by simp
  show "unat c = unat g + unat (callGasTemp m')" "m' = m\<lparr>callGasTemp := callGasTemp m'\<rparr>" using s x(4) by simp_all
  assume "IsEIP150 (chainRules E)" "unat g < 2 ^ 57" "unat (Gas m) + 2500 < 2 ^ 64"
  moreover have "unat g + unat t < 2 ^ 64" using x(2) by (simp add: SafeAdd_def)
  ultimately show "unat c + 2500 < 2 ^ 64" using capped [of g "Gas m" t] callGas_capped x(1) s by simp
qed


lemma memoryGasCost_Gas: "memoryGasCost ms m = Some (n, c, e) \<Longrightarrow> Gas n = Gas m \<and> stack n = stack m"
  by (auto elim!: memoryGasCost_cases)

text \<open>A base price that is small, the memory, and the gas taken along.\<close>

lemma callPrice_base:
  assumes "mem_ok m" and "memoryGasCost ms m = Some (n, v, None)" and "unat b \<le> 34000" and "\<not> snd (SafeAdd b v)"
    and "withCallGas E (fst (SafeAdd b v)) n = Some (m', c, None)"
  shows "unat (callGasTemp m') + unat b \<le> unat c" "IsEIP150 (chainRules E) \<Longrightarrow> unat (Gas m) + 2500 < 2 ^ 64 \<Longrightarrow> unat c + 2500 < 2 ^ 64"
proof -
  have v: "unat v < 2 ^ 56" by (rule memoryGasCost_bound [OF assms(2,1)])
  have s: "unat (fst (SafeAdd b v)) = unat b + unat v" by (rule SafeAdd_unat [OF assms(4)])
  show "unat (callGasTemp m') + unat b \<le> unat c" using withCallGas_price(1) [OF assms(5)] s by simp
  show "IsEIP150 (chainRules E) \<Longrightarrow> unat (Gas m) + 2500 < 2 ^ 64 \<Longrightarrow> unat c + 2500 < 2 ^ 64"
    using withCallGas_price(3) [OF assms(5)] s v assms(3) memoryGasCost_Gas [OF assms(2)] by simp
qed

lemma SafeAdd_zero: "SafeAdd 0 v = (v, False)"
  using unsigned_less [of v, where ?'a = nat] by (simp add: SafeAdd_def not_le)

lemma callPrice_calls: "callPrice True gasCall" "callPrice True gasCallCode" "callPrice False gasDelegateCall" "callPrice False gasStaticCall"
proof -
  have price: "(transfers \<longrightarrow> 9000 \<le> unat (if transfers then g + 9000 else g)) \<and> unat (if transfers then g + 9000 else g) \<le> 34000"
    if "g = 0 \<or> g = (25000 :: u64)" for g transfers
    using that by auto
  show "callPrice True gasCall"
    unfolding callPrice_def
  proof (intro allI impI)
    fix E K ms m m' c
    assume ok: "mem_ok m" and c: "gasCall E K ms m = Some (m', c, None)"
    obtain v a where va: "Back 2 m = Some v" "Back 1 m = Some a" using c by (auto simp: gasCall_def bind_Some_iff)
    define g where "g = (if IsEIP158 (chainRules E) then if v \<noteq> 0 \<and> Empty (Bytes20 a) (db m) then 25000 else 0
      else if \<not> Exist (Bytes20 a) (db m) then 25000 else (0 :: u64))"
    define b where "b = (if v \<noteq> 0 then g + 9000 else g)"
    obtain n w where n: "memoryGasCost ms m = Some (n, w, None)" "\<not> snd (SafeAdd b w)"
      "withCallGas E (fst (SafeAdd b w)) n = Some (m', c, None)"
      using c va unfolding gasCall_def Let_def by (simp only: bind.bind_lunit flip: g_def b_def) (auto simp: gas_then_ok no_overflow_ok)
    have "g = 0 \<or> g = 25000" by (simp add: g_def)
    note p = price [OF this, of "v \<noteq> 0", folded b_def]
    have v: "v = stack m ! 2" using va by (simp add: Back_def split: if_splits)
    show "unat (callGasTemp m') + (if True \<and> stack m ! 2 \<noteq> 0 then 9000 else 0) \<le> unat c \<and>
      (IsEIP150 (chainRules E) \<and> unat (Gas m) + 2500 < 2 ^ 64 \<longrightarrow> unat c + 2500 < 2 ^ 64)"
      using callPrice_base [OF ok n(1) _ n(2,3)] p v by auto
  qed
  show "callPrice True gasCallCode"
    unfolding callPrice_def
  proof (intro allI impI)
    fix E K ms m m' c
    assume ok: "mem_ok m" and c: "gasCallCode E K ms m = Some (m', c, None)"
    then obtain n w v where n: "memoryGasCost ms m = Some (n, w, None)" and v: "Back 2 n = Some v"
      and s: "\<not> snd (SafeAdd (if v \<noteq> 0 then 9000 else 0) w)" "withCallGas E (fst (SafeAdd (if v \<noteq> 0 then 9000 else 0) w)) n = Some (m', c, None)"
      by (auto simp: gasCallCode_def gas_then_ok no_overflow_ok bind_Some_iff)
    have "v = stack m ! 2" using v memoryGasCost_Gas [OF n] by (simp add: Back_def split: if_splits)
    then show "unat (callGasTemp m') + (if True \<and> stack m ! 2 \<noteq> 0 then 9000 else 0) \<le> unat c \<and>
      (IsEIP150 (chainRules E) \<and> unat (Gas m) + 2500 < 2 ^ 64 \<longrightarrow> unat c + 2500 < 2 ^ 64)"
      using callPrice_base [OF ok n _ s] by auto
  qed
  have "mem_ok m \<Longrightarrow> gas_then (memoryGasCost ms m) (withCallGas E) = Some (m', c, None) \<Longrightarrow> unat (callGasTemp m') \<le> unat c \<and>
      (IsEIP150 (chainRules E) \<and> unat (Gas m) + 2500 < 2 ^ 64 \<longrightarrow> unat c + 2500 < 2 ^ 64)" for E ms m m' c
    using callPrice_base [where b = 0 and E = E and m = m and m' = m' and c = c and ms = ms] by (auto simp: gas_then_ok SafeAdd_zero)
  then show "callPrice False gasDelegateCall" "callPrice False gasStaticCall"
    by (simp_all add: callPrice_def gasDelegateCall_def gasStaticCall_def)
qed


definition callSound :: "Rules \<Rightarrow> bool \<Rightarrow> gasFunc \<Rightarrow> bool" where
  "callSound R wv g \<longleftrightarrow> (\<forall>E K ms m m' c. chainRules E = R \<longrightarrow> mem_ok m \<longrightarrow> g E K ms m = Some (m', c, None) \<longrightarrow>
     unat (callGasTemp m') + (if wv \<and> stack m ! 2 \<noteq> 0 then 9000 else 0) \<le> unat c)"

lemma callSound_price: "callPrice wv g \<Longrightarrow> callSound R wv g"
  by (auto simp: callPrice_def callSound_def)

lemma callSound_variant:
  assumes g: "callPrice wv g" and R: "IsEIP150 R"
  shows "callSound R wv (makeCallVariantGasCallEIP2929 g)"
  unfolding callSound_def
proof (intro allI impI)
  fix E K ms m m' c
  assume E: "chainRules E = R" and ok: "mem_ok m" and c: "makeCallVariantGasCallEIP2929 g E K ms m = Some (m', c, None)"
  from c show "unat (callGasTemp m') + (if wv \<and> stack m ! 2 \<noteq> 0 then 9000 else 0) \<le> unat c"
  proof (cases rule: callVariant_cases)
    case warm
    then show ?thesis using g ok by (auto simp: callPrice_def)
  next
    case (cold a n b d)
    let ?m1 = "(warm a m)\<lparr>Gas := Gas m - 2500\<rparr>"
    have d: "d = None" "c = b + 2500" "m' = n\<lparr>Gas := Gas n + 2500\<rparr>" using cold(3) by (cases d; simp)+
    have m1: "mem_ok ?m1" "stack ?m1 = stack m" using ok by (simp_all add: mem_ok_def warm_def)
    have "unat (Gas ?m1) + 2500 = unat (Gas m)" using cold(1) by (simp add: unat_sub word_le_nat_alt)
    then have gas: "unat (Gas ?m1) + 2500 < 2 ^ 64" using unsigned_less [of "Gas m", where ?'a = nat] by simp
    have p: "unat (callGasTemp n) + (if wv \<and> stack m ! 2 \<noteq> 0 then 9000 else 0) \<le> unat b" "unat b + 2500 < 2 ^ 64"
      using g m1 gas cold(2) R E unfolding callPrice_def d(1) by (metis (no_types, lifting))+
    from p(2) have "unat (b + 2500) = unat b + 2500" using unat_add_lem [of b 2500] by simp
    then show ?thesis using p(1) d by simp
  qed simp
qed

lemma callSound_calls:
  "callSound R True gasCall" "callSound R True gasCallCode" "callSound R False gasDelegateCall" "callSound R False gasStaticCall"
  by (rule callSound_price callPrice_calls)+

lemma callSound_variants:
  assumes "IsEIP150 R"
  shows "callSound R True gasCallEIP2929" "callSound R True gasCallCodeEIP2929" "callSound R False gasDelegateCallEIP2929"
    "callSound R False gasStaticCallEIP2929"
  unfolding gasCallEIP2929_def gasCallCodeEIP2929_def gasDelegateCallEIP2929_def gasStaticCallEIP2929_def
  by (rule callSound_variant callPrice_calls assms)+

end
