(* ===== verification/Execution.thy ===== *)
theory Execution
  imports VMFacts
begin

text \<open>
  What the interpreter guarantees: the operations of every release are priced so that each turn of the loop takes gas, the gas left never
  exceeds the gas given, the fuel of the loop does not matter, and a run changes the state only by operations of the state database.
\<close>

section \<open>Lemmas\<close>

subsection \<open>The table\<close>

definition tame_opt :: "gasFunc option \<Rightarrow> bool" where
  "tame_opt f \<longleftrightarrow> (case f of None \<Rightarrow> True | Some g \<Rightarrow> tame g)"

definition charged :: "gasFunc option \<Rightarrow> bool" where
  "charged f \<longleftrightarrow> (case f of None \<Rightarrow> False | Some g \<Rightarrow> charges g)"

definition callCharged :: "Rules \<Rightarrow> bool \<Rightarrow> gasFunc option \<Rightarrow> bool" where
  "callCharged R wv f \<longleftrightarrow> (case f of None \<Rightarrow> False | Some g \<Rightarrow> callSound R wv g)"

text \<open>An operation under its opcode: a call, a creation, or one that does not call and that is paid for or ends the run.\<close>

definition wf_at :: "Rules \<Rightarrow> u8 \<Rightarrow> operation \<Rightarrow> bool" where
  "wf_at R c x \<longleftrightarrow> tame_opt (dynamicGas x) \<and>
     (if c = 0xf1 \<or> c = 0xf2 then execute x \<in> {opCall, opCallCode} \<and> 0 < constantGas x \<and> callCharged R True (dynamicGas x)
      else if c = 0xf4 \<or> c = 0xfa then execute x \<in> {opDelegateCall, opStaticCall} \<and> 0 < constantGas x \<and> callCharged R False (dynamicGas x)
      else if c = 0xf0 \<or> c = 0xf5 then execute x \<in> {opCreate, opCreate2} \<and> 0 < constantGas x
      else quiet (execute x) \<and> (c = 0xff \<longrightarrow> halts x) \<and> (0 < constantGas x \<or> charged (dynamicGas x) \<or> halts x \<or> reverts x))"

definition wf_table :: "Rules \<Rightarrow> JumpTable \<Rightarrow> bool" where
  "wf_table R jt \<longleftrightarrow> (\<forall>c x. jt c = Some x \<longrightarrow> wf_at R c x)"

lemma wf_map_of: "list_all (\<lambda>(c, x). wf_at R c x) l \<Longrightarrow> wf_table R (map_of l)"
  unfolding wf_table_def list_all_iff by (auto dest: map_of_SomeD)

lemma wf_upd: "wf_table R jt \<Longrightarrow> wf_at R c x \<Longrightarrow> wf_table R (jt(c \<mapsto> x))"
  by (simp add: wf_table_def)

lemma wf_on_op: "wf_table R jt \<Longrightarrow> (\<And>x. wf_at R c x \<Longrightarrow> wf_at R c (f x)) \<Longrightarrow> wf_table R (on_op c f jt)"
  by (auto simp: wf_table_def on_op_def)

lemmas quiet_all = quiet_arithmetic quiet_readers quiet_CallDataLoad quiet_memory quiet_jumps quiet_writers quiet_NMint quiet_strings

lemmas wf_eval = wf_at_def tame_opt_def charged_def callCharged_def nil_op_def priced_def metered_def quiet_all tame_all charges_all callSound_calls
  GasQuickStep_def GasFastestStep_def GasFastStep_def GasMidStep_def GasSlowStep_def GasExtStep_def WarmStorageReadCostEIP2929_def

lemma wf_frontier: "wf_table R newFrontierInstructionSet"
proof -
  have a: "list_all (\<lambda>(c, x). wf_at R c x) arithmeticOps" by (simp add: arithmeticOps_def wf_eval)
  have b: "list_all (\<lambda>(c, x). wf_at R c x) comparisonOps" by (simp add: comparisonOps_def wf_eval)
  have c: "list_all (\<lambda>(c, x). wf_at R c x) contextOps" by (simp add: contextOps_def wf_eval)
  have d: "list_all (\<lambda>(c, x). wf_at R c x) storageOps" by (simp add: storageOps_def wf_eval)
  have e: "list_all (\<lambda>(c, x). wf_at R c x) logOps" by (simp add: logOps_def wf_eval)
  have f: "list_all (\<lambda>(c, x). wf_at R c x) nftOps" by (simp add: nftOps_def wf_eval)
  have g: "list_all (\<lambda>(c, x). wf_at R c x) closureOps" by (simp add: closureOps_def wf_eval)
  have h: "list_all (\<lambda>(c, x). wf_at R c x) pushOps" by (simp add: pushOps_def upt_rec PUSH1_def wf_eval)
  show ?thesis unfolding newFrontierInstructionSet_def by (rule wf_map_of) (simp add: a b c d e f g h)
qed

lemma wf_later:
  "wf_table R newHomesteadInstructionSet" "wf_table R newTangerineWhistleInstructionSet" "wf_table R newSpuriousDragonInstructionSet"
  "wf_table R newByzantiumInstructionSet" "wf_table R newConstantinopleInstructionSet" "wf_table R newIstanbulInstructionSet"
proof -
  show h: "wf_table R newHomesteadInstructionSet"
    unfolding newHomesteadInstructionSet_def by (intro wf_upd wf_frontier) (simp add: wf_eval)
  show t: "wf_table R newTangerineWhistleInstructionSet"
    unfolding newTangerineWhistleInstructionSet_def by (intro wf_on_op h) (auto simp: wf_eval)
  show s: "wf_table R newSpuriousDragonInstructionSet"
    unfolding newSpuriousDragonInstructionSet_def by (intro wf_on_op t) (auto simp: wf_eval)
  show b: "wf_table R newByzantiumInstructionSet"
    unfolding newByzantiumInstructionSet_def by (intro wf_upd s) (simp_all add: wf_eval)
  show c: "wf_table R newConstantinopleInstructionSet"
    unfolding newConstantinopleInstructionSet_def by (intro wf_upd b) (simp_all add: wf_eval)
  show i: "wf_table R newIstanbulInstructionSet"
    unfolding newIstanbulInstructionSet_def enable2200_def enable1884_def enable1344_def by (intro wf_on_op wf_upd c) (auto simp: wf_eval)
qed

lemma wf_berlin:
  assumes "IsEIP150 R"
  shows "wf_table R newBerlinInstructionSet" "wf_table R newLondonInstructionSet"
proof -
  note v = callSound_variants [OF assms]
  show b: "wf_table R newBerlinInstructionSet"
    unfolding newBerlinInstructionSet_def enable2929_def by (intro wf_on_op wf_later) (auto simp: wf_eval v)
  show "wf_table R newLondonInstructionSet"
    unfolding newLondonInstructionSet_def enable3198_def enable3529_def by (intro wf_on_op wf_upd b) (auto simp: wf_eval)
qed

lemma wf_instructionSet:
  assumes "forksOrdered R"
  shows "wf_table R (instructionSet R)"
proof -
  have "IsBerlin R \<or> IsLondon R \<longrightarrow> IsEIP150 R" using assms unfolding forksOrdered_def by blast
  then show ?thesis unfolding instructionSet_def by (simp add: wf_frontier wf_later wf_berlin)
qed


subsection \<open>Calls\<close>

text \<open>A run changes the state by operations of the state database and leaves at most the gas it was given.\<close>

definition spends :: "StateDB \<Rightarrow> u64 \<Rightarrow> runResult \<Rightarrow> bool" where
  "spends s g x \<longleftrightarrow> (\<forall>s' ret g' e. x = Some (s', ret, g', e) \<longrightarrow> acts s s' \<and> g' \<le> g)"

definition soundRunner :: "nat \<Rightarrow> runner \<Rightarrow> bool" where
  "soundRunner N r \<longleftrightarrow> (\<forall>d ro K i rd g s. unat g < N \<longrightarrow> spends s g (r d ro K i rd g s))"

lemma soundRunnerD: "soundRunner N r \<Longrightarrow> unat g < N \<Longrightarrow> r d ro K i rd g s = Some (s', ret, g', e) \<Longrightarrow> acts s s' \<and> g' \<le> g"
  unfolding soundRunner_def spends_def by blast

lemma precompiled_gas: "RunPrecompiledContract p i g = (out, g', e) \<Longrightarrow> g' \<le> g"
  by (auto simp: RunPrecompiledContract_def not_less word_sub_le split: if_splits prod.splits)

text \<open>A call in a frame of its own, kept or taken back.\<close>

lemma acts_ok: "acts (fst (Snapshot s)) s' \<Longrightarrow> acts s s'"
  unfolding acts_def using acts_exec [of "CallOk _" s s', unfolded acts_def] by auto

lemma acts_fail:
  assumes "acts (fst (Snapshot s)) t" and "RevertToSnapshot (snd (Snapshot s)) t = Some s'"
  shows "acts s s'"
proof -
  obtain fs where "execs fs (fst (Snapshot s)) = Some t" using assms(1) by (auto simp: acts_def)
  then show ?thesis by (intro acts_exec [of "CallFail fs"]) (simp add: assms(2))
qed

lemma payCall_gas: "payCall E a b i g v s = Some (s', ret, g', e) \<Longrightarrow> g' = g"
  using HandleNFT_outcome(3) [of E a b _ g v s s' ret g' e] by (auto simp: payCall_def split: if_splits option.splits)

lemma spends_recipient:
  assumes "soundRunner N (run_of E)" and "unat g < N" and "runRecipient (evm_at E) a b i g v s = Some (s', ret, g', e)"
  shows "acts s s' \<and> g' \<le> g"
  using assms(3) soundRunnerD [OF assms(1,2)]
  by (auto simp: runRecipient_def evm_at_def acts_refl Let_def split: if_splits option.splits dest: precompiled_gas)

lemma spends_Call:
  assumes "soundRunner N (run_of E)" and "unat g < N"
  shows "spends s g (Call (evm_at E) a b i g v s)"
  unfolding spends_def
proof (intro allI impI)
  fix s' ret g' e
  assume "Call (evm_at E) a b i g v s = Some (s', ret, g', e)"
  then show "acts s s' \<and> g' \<le> g"
  proof (cases rule: Call_cases)
    case refused
    then show ?thesis using payCall_gas [OF refused(1)] acts_ok [OF acts_payCall(1) [OF refused(1)]] by simp
  next
    case (finished s1 ret1 g1)
    have g: "g1 = g" by (rule payCall_gas [OF finished(1)])
    have r: "acts s1 s' \<and> g' \<le> g" using spends_recipient [OF assms] finished(2) g by blast
    then show ?thesis using acts_ok [OF acts_trans [OF acts_payCall(1) [OF finished(1)]]] by blast
  next
    case (reverted s1 ret1 g1 s2 g2)
    have g: "g1 = g" by (rule payCall_gas [OF reverted(1)])
    have r: "acts s1 s2 \<and> g2 \<le> g" using spends_recipient [OF assms] reverted(2) g by blast
    then show ?thesis using acts_fail [OF acts_trans [OF acts_payCall(1) [OF reverted(1)]] reverted(4)] reverted(5) by auto
  qed (simp add: acts_refl)
qed

lemma spends_runOrRevert:
  assumes "soundRunner N (run_of E)" and "unat g < N" and "acts (fst (Snapshot s)) s1"
  shows "spends s g (runOrRevert E addr K i rd g (snd (Snapshot s)) s1)"
  unfolding spends_def
proof (intro allI impI)
  fix s' ret g' e
  assume "runOrRevert E addr K i rd g (snd (Snapshot s)) s1 = Some (s', ret, g', e)"
  then obtain s2 r2 g2 e2 where r: "(case precompiles E addr of Some p \<Rightarrow> Some (s1, RunPrecompiledContract p i g)
      | None \<Rightarrow> run_of E (depth_of E) (readOnly E) K i rd g s1) = Some (s2, r2, g2, e2)"
    and q: "if e2 = None then s' = s2 \<and> g' = g2 else RevertToSnapshot (snd (Snapshot s)) s2 = Some s' \<and> (g' = g2 \<or> g' = 0)"
    by (auto simp: runOrRevert_def bind_Some_iff split: if_splits)
  have "acts s1 s2 \<and> g2 \<le> g"
    using r soundRunnerD [OF assms(1,2)] by (cases "precompiles E addr") (auto dest: precompiled_gas simp: acts_refl)
  then show "acts s s' \<and> g' \<le> g"
    using q acts_ok [OF acts_trans [OF assms(3)]] acts_fail [OF acts_trans [OF assms(3)]] by (auto split: if_splits)
qed

lemma spends_refl: "spends s g (Some (s, r, g, e))"
  by (simp add: spends_def acts_refl)

lemma spends_calls:
  assumes "soundRunner N (run_of E)" and "unat g < N"
  shows "spends s g (CallCode E K addr i g v s)" "spends s g (DelegateCall E K addr i g s)" "spends s g (StaticCall E K addr i g s)"
  unfolding CallCode_def DelegateCall_def StaticCall_def
  using spends_runOrRevert [OF assms acts_refl] spends_runOrRevert [OF assms acts_steps(2)]
  by (simp_all add: spends_refl case_prod_beta Let_def)


lemma deploy_gas: "deploy R a ret g err s = (s', g', err') \<Longrightarrow> acts s s' \<and> g' \<le> g"
  by (auto simp: deploy_def acts_refl acts_machine word_sub_le not_less Let_def split: option.splits if_splits)

text \<open>What happens before the constructor runs.\<close>

lemma acts_prepare:
  "acts s (if b then AddAddressToAccessList addr (SetNonce a n s) else SetNonce a n s)"
  "acts s (Transfer a addr v (if b then SetNonce addr 1 (CreateAccount addr s) else CreateAccount addr s))"
  using acts_trans [OF acts_machine(6) acts_machine(8)] acts_machine(6)
    acts_trans [OF acts_steps(1) acts_Transfer] acts_trans [OF acts_trans [OF acts_steps(1) acts_machine(6)] acts_Transfer]
  by simp_all

definition bumped :: "Rules \<Rightarrow> address \<Rightarrow> address \<Rightarrow> StateDB \<Rightarrow> StateDB" where
  "bumped R a addr s = (if IsBerlin R then AddAddressToAccessList addr (SetNonce a (GetNonce a s + 1) s) else SetNonce a (GetNonce a s + 1) s)"

definition endowed :: "Rules \<Rightarrow> address \<Rightarrow> address \<Rightarrow> int \<Rightarrow> StateDB \<Rightarrow> StateDB" where
  "endowed R a addr v s = Transfer a addr v (if IsEIP158 R then SetNonce addr 1 (CreateAccount addr s) else CreateAccount addr s)"

lemma create_folded:
  "create E a cd g v addr s = (let s2 = bumped (chainRules E) a addr s; s6 = endowed (chainRules E) a addr v (fst (Snapshot s2)) in
     if depth_of E > CallCreateDepth then Some (s, [], 0, g, Some ErrDepth)
     else if \<not> CanTransfer a v s then Some (s, [], 0, g, Some ErrInsufficientBalance)
     else if GetNonce addr s2 \<noteq> 0 \<or> (GetCodeHash addr s2 \<noteq> 0 \<and> GetCodeHash addr s2 \<noteq> emptyCodeHash (hasher s2))
     then Some (s2, [], 0, 0, Some ErrContractAddressCollision)
     else if NoRecursion (host E) \<and> depth_of E > 0 then Some (s6, [], addr, g, None)
     else Option.bind (run_of E (depth_of E) (readOnly E) \<lparr>CallerAddress = a, self = addr, Code = cd, Input = [], callvalue = v\<rparr> [] False g s6)
       (\<lambda>(s7, ret, gas1, err). case deploy (chainRules E) addr ret gas1 err s7 of (s8, gas2, err1) \<Rightarrow>
          if err1 \<noteq> None \<and> (IsHomestead (chainRules E) \<or> err1 \<noteq> Some ErrCodeStoreOutOfGas)
          then Option.bind (RevertToSnapshot (snd (Snapshot s2)) s8) (\<lambda>s9. Some (s9, ret, addr, if err1 \<noteq> Some ErrExecutionReverted then 0 else gas2, err1))
          else Some (s8, ret, addr, gas2, err1)))"
  unfolding create_def Let_def case_prod_beta [of _ "Snapshot _"] endowed_def bumped_def by (rule refl)

text \<open>The ways a creation ends: before any effect, at an address in use, without a run, or after the constructor.\<close>

lemma create_cases [consumes 1, case_names same collision norun ran]:
  assumes c: "create E a cd g v addr s = Some (s', ret, na, g', e)"
  obtains "depth_of E > CallCreateDepth \<or> \<not> CanTransfer a v s" "s' = s" "g' = g"
  | "s' = bumped (chainRules E) a addr s" "g' = 0"
  | "s' = endowed (chainRules E) a addr v (fst (Snapshot (bumped (chainRules E) a addr s)))" "g' = g" "e = None"
  | s7 ret1 g1 e1 s8 g2 where
      "run_of E (depth_of E) (readOnly E) \<lparr>CallerAddress = a, self = addr, Code = cd, Input = [], callvalue = v\<rparr> [] False g
         (endowed (chainRules E) a addr v (fst (Snapshot (bumped (chainRules E) a addr s)))) = Some (s7, ret1, g1, e1)"
      "deploy (chainRules E) addr ret1 g1 e1 s7 = (s8, g2, e)"
      "if e \<noteq> None \<and> (IsHomestead (chainRules E) \<or> e \<noteq> Some ErrCodeStoreOutOfGas)
       then RevertToSnapshot (snd (Snapshot (bumped (chainRules E) a addr s))) s8 = Some s' \<and> (g' = g2 \<or> g' = 0) else s' = s8 \<and> g' = g2"
proof -
  define s2 where "s2 = bumped (chainRules E) a addr s"
  define s6 where "s6 = endowed (chainRules E) a addr v (fst (Snapshot s2))"
  define run where "run = run_of E (depth_of E) (readOnly E) \<lparr>CallerAddress = a, self = addr, Code = cd, Input = [], callvalue = v\<rparr> [] False g s6"
  define finish where "finish = (\<lambda>(s7, ret, gas1, err). case deploy (chainRules E) addr ret gas1 err s7 of (s8, gas2, err1) \<Rightarrow>
    if err1 \<noteq> None \<and> (IsHomestead (chainRules E) \<or> err1 \<noteq> Some ErrCodeStoreOutOfGas)
    then Option.bind (RevertToSnapshot (snd (Snapshot s2)) s8) (\<lambda>s9. Some (s9, ret, addr, if err1 \<noteq> Some ErrExecutionReverted then 0 else gas2, err1))
    else Some (s8, ret, addr, gas2, err1))"
  have d: "create E a cd g v addr s = (if depth_of E > CallCreateDepth then Some (s, [], 0, g, Some ErrDepth)
    else if \<not> CanTransfer a v s then Some (s, [], 0, g, Some ErrInsufficientBalance)
    else if GetNonce addr s2 \<noteq> 0 \<or> (GetCodeHash addr s2 \<noteq> 0 \<and> GetCodeHash addr s2 \<noteq> emptyCodeHash (hasher s2))
    then Some (s2, [], 0, 0, Some ErrContractAddressCollision)
    else if NoRecursion (host E) \<and> depth_of E > 0 then Some (s6, [], addr, g, None) else Option.bind run finish)"
    unfolding create_folded Let_def finish_def run_def s6_def s2_def by (rule refl)
  have f: "\<exists>s8 g2. deploy (chainRules E) addr ret1 g1 e1 s7 = (s8, g2, e) \<and>
      (if e \<noteq> None \<and> (IsHomestead (chainRules E) \<or> e \<noteq> Some ErrCodeStoreOutOfGas)
       then RevertToSnapshot (snd (Snapshot s2)) s8 = Some s' \<and> (g' = g2 \<or> g' = 0) else s' = s8 \<and> g' = g2)"
    if "finish (s7, ret1, g1, e1) = Some (s', ret, na, g', e)" for s7 ret1 g1 e1
    using that by (cases "deploy (chainRules E) addr ret1 g1 e1 s7") (auto simp: finish_def bind_Some_iff split: if_splits)
  show thesis
  proof (cases run)
    case None
    then show thesis using c [unfolded d] that(1-3) by (auto split: if_splits simp flip: s2_def s6_def)
  next
    case (Some r)
    then obtain s7 ret1 g1 e1 where r: "run = Some (s7, ret1, g1, e1)" by (cases r) auto
    show thesis
    proof (cases "finish (s7, ret1, g1, e1) = Some (s', ret, na, g', e)")
      case True
      from f [OF this] obtain s8 g2 where "deploy (chainRules E) addr ret1 g1 e1 s7 = (s8, g2, e)"
        "if e \<noteq> None \<and> (IsHomestead (chainRules E) \<or> e \<noteq> Some ErrCodeStoreOutOfGas)
         then RevertToSnapshot (snd (Snapshot s2)) s8 = Some s' \<and> (g' = g2 \<or> g' = 0) else s' = s8 \<and> g' = g2" by blast
      then show thesis using that(4) r unfolding run_def s6_def s2_def by blast
    next
      case False
      then show thesis using c [unfolded d r] that(1-3) by (auto split: if_splits simp flip: s2_def s6_def)
    qed
  qed
qed

lemma spends_create:
  assumes r: "soundRunner N (run_of E)" "unat g < N" and c: "create E a cd g v addr s = Some (s', ret, na, g', e)"
  shows "acts s s' \<and> g' \<le> g"
proof -
  have s2: "acts s (bumped R a addr s)" for R unfolding bumped_def by (rule acts_prepare)
  have s6: "acts t (endowed R a addr v t)" for R t unfolding endowed_def by (rule acts_prepare)
  from c show ?thesis
  proof (cases rule: create_cases)
    case (ran s7 ret1 g1 e1 s8 g2)
    have a: "acts (endowed (chainRules E) a addr v (fst (Snapshot (bumped (chainRules E) a addr s)))) s7" "g1 \<le> g"
      using soundRunnerD [OF r ran(1)] by blast+
    have d: "acts s7 s8" "g2 \<le> g1" using deploy_gas [OF ran(2)] by blast+
    have s8: "acts (fst (Snapshot (bumped (chainRules E) a addr s))) s8" by (rule acts_trans [OF acts_trans [OF s6 a(1)] d(1)])
    then have "acts (bumped (chainRules E) a addr s) s'" using ran(3) acts_ok [OF s8] acts_fail [OF s8] by (auto split: if_splits)
    moreover have "g' \<le> g" using ran(3) a(2) d(2) by (auto split: if_splits)
    ultimately show ?thesis using acts_trans [OF s2] by blast
  qed (simp_all add: s2 acts_refl acts_trans [OF s2 acts_ok [OF s6]])
qed

lemma creation_undone:
  assumes r: "soundRunner N (run_of E)" "unat g < N" and s: "reach s" and h: "IsHomestead (chainRules E) \<or> e \<noteq> ErrCodeStoreOutOfGas"
    and c: "create E a cd g v addr s = Some (s', ret, na, g', Some e)"
  shows "core s' = core (if depth_of E > CallCreateDepth \<or> \<not> CanTransfer a v s then s else bumped (chainRules E) a addr s)"
proof (cases "depth_of E > CallCreateDepth \<or> \<not> CanTransfer a v s")
  case True
  then show ?thesis using c by (auto simp: create_def split: if_splits)
next
  case False
  from c have "core s' = core (bumped (chainRules E) a addr s)"
  proof (cases rule: create_cases)
    case (ran s7 ret1 g1 e1 s8 g2)
    let ?s2 = "bumped (chainRules E) a addr s"
    have "acts s ?s2" unfolding bumped_def by (rule acts_prepare)
    then have wf: "wf_state ?s2" by (rule reach_wf [OF acts_reach [OF s]])
    have "acts (fst (Snapshot ?s2)) (endowed (chainRules E) a addr v (fst (Snapshot ?s2)))" unfolding endowed_def by (rule acts_prepare)
    from acts_trans [OF acts_trans [OF this] conjunct1 [OF deploy_gas [OF ran(2)]]]
    have "acts (fst (Snapshot ?s2)) s8" using soundRunnerD [OF r ran(1)] by blast
    then show "core s' = core ?s2" using ran(3) h acts_framed revert_framed [OF _ wf] by fastforce
  qed (use False in simp_all)
  then show ?thesis using False by simp
qed

subsection \<open>The operations that call\<close>

text \<open>An operation ran, and at most the given gas came back to the contract.\<close>

definition ran :: "nat \<Rightarrow> vm \<Rightarrow> vm \<Rightarrow> bool" where
  "ran b m m' \<longleftrightarrow> acts (db m) (db m') \<and> grows m m' \<and> lastGasCost m' = lastGasCost m \<and> unat (Gas m') \<le> unat (Gas m) + b"

lemma ran_calm: "calm m m' \<Longrightarrow> ran 0 m m'"
  by (simp add: ran_def calm_def)

lemma ran_mem_ok: "ran b m m' \<Longrightarrow> mem_ok m \<Longrightarrow> mem_ok m'"
  unfolding ran_def grows_def mem_ok_def
  using order_trans [OF _ memFee_mono [OF div_le_mono [of "length (store m)" "length (store m')" 32]]] by simp

lemma unat_add_le: "unat (a + b) \<le> unat a + unat (b :: u64)"
  by (simp add: unat_word_ariths)

lemma finishCall_ran:
  assumes "spends (db m) g x" and "finishCall ro rs x m = Some (m', ret, e)"
  shows "ran (unat g) m m'"
proof -
  obtain s ret g' err where x: "x = Some (s, ret, g', err)"
    using assms(2) by (cases x) (auto simp: finishCall_def)
  let ?m1 = "push (truth (err = None)) (m\<lparr>db := s\<rparr>)"
  from assms(2) obtain m2 where m2': "(if err = None \<or> err = Some ErrExecutionReverted then mem_Set (Uint64 ro) (Uint64 rs) ret ?m1 else Some ?m1) = Some m2"
    and m': "m' = m2\<lparr>Gas := Gas m2 + g'\<rparr>" unfolding x finishCall_def Let_def by (auto simp: bind_Some_iff)
  from m2' have m2: "calm ?m1 m2" by (auto simp: calm_refl split: if_splits dest: calm_mem_Set)
  have s: "acts (db m) s" "g' \<le> g" using assms(1) x by (auto simp: spends_def)
  have "unat (Gas m + g') \<le> unat (Gas m) + unat g" using unat_add_le [of "Gas m" g'] s(2) by (simp add: word_le_nat_alt)
  then show ?thesis using m2 s(1) unfolding m' by (auto simp: ran_def calm_def grows_def push_def intro: acts_trans)
qed

lemma ran_stack: "ran b (m\<lparr>stack := st\<rparr>) m' \<Longrightarrow> ran b m m'"
  by (simp add: ran_def grows_def)

lemma opCall_ran:
  assumes r: "soundRunner N (run_of E)" and g: "unat (stipend (stack m ! 2) (callGasTemp m)) < N"
    and e: "ex \<in> {opCall, opCallCode}" "ex E K m = Some (m', ret, err)"
  shows "ran (unat (stipend (stack m ! 2) (callGasTemp m))) m m'"
proof -
  obtain x0 x1 x2 x3 x4 x5 x6 xs where st: "stack m = x0 # x1 # x2 # x3 # x4 # x5 # x6 # xs"
    using e by (auto simp: opCall_def opCallCode_def pop_def split: list.splits)
  let ?m = "m\<lparr>stack := xs\<rparr>"
  have g': "unat (stipend x2 (callGasTemp m)) < N" using g st by simp
  have "(\<exists>args. finishCall x5 x6 (Call (evm_at E) (self K) (Bytes20 x1) args (stipend x2 (callGasTemp m)) (uint x2) (db ?m)) ?m = Some (m', ret, err)) \<or>
      (\<exists>args. finishCall x5 x6 (CallCode E K (Bytes20 x1) args (stipend x2 (callGasTemp m)) (uint x2) (db ?m)) ?m = Some (m', ret, err))"
    using e st by (auto simp: opCall_def opCallCode_def pop_def bind_Some_iff)
  then have "ran (unat (stipend x2 (callGasTemp m))) ?m m'"
    using finishCall_ran [OF spends_Call [OF r g']] finishCall_ran [OF spends_calls(1) [OF r g']] by blast
  then show ?thesis using st by (simp add: ran_stack)
qed

lemma opDelegateCall_ran:
  assumes r: "soundRunner N (run_of E)" and g: "unat (callGasTemp m) < N"
    and e: "ex \<in> {opDelegateCall, opStaticCall}" "ex E K m = Some (m', ret, err)"
  shows "ran (unat (callGasTemp m)) m m'"
proof -
  obtain x0 x1 x2 x3 x4 x5 xs where st: "stack m = x0 # x1 # x2 # x3 # x4 # x5 # xs"
    using e by (auto simp: opDelegateCall_def opStaticCall_def pop_def split: list.splits)
  let ?m = "m\<lparr>stack := xs\<rparr>"
  have "(\<exists>args. finishCall x4 x5 (DelegateCall E K (Bytes20 x1) args (callGasTemp m) (db ?m)) ?m = Some (m', ret, err)) \<or>
      (\<exists>args. finishCall x4 x5 (StaticCall E K (Bytes20 x1) args (callGasTemp m) (db ?m)) ?m = Some (m', ret, err))"
    using e st by (auto simp: opDelegateCall_def opStaticCall_def pop_def bind_Some_iff)
  then have "ran (unat (callGasTemp m)) ?m m'"
    using finishCall_ran [OF spends_calls(2) [OF r g]] finishCall_ran [OF spends_calls(3) [OF r g]] by blast
  then show ?thesis by (simp add: ran_stack)
qed


lemma db_UseGas: "db (fst (UseGas g m)) = db m"
  by (simp add: UseGas_def)

lemma finishCreate_ran:
  assumes "g \<le> Gas m" and "\<And>s' r a g' e. x = Some (s', r, a, g', e) \<Longrightarrow> acts (db m) s' \<and> g' \<le> g"
    and "finishCreate cl x (fst (UseGas g m)) = Some (m', ret, err)"
  shows "ran 0 m m'"
proof -
  obtain s r a g' e where x: "x = Some (s, r, a, g', e)" using assms(3) by (cases x) (auto simp: finishCreate_def)
  have s: "acts (db m) s" "g' \<le> g" using assms(2) [OF x] by blast+
  have u: "fst (UseGas g m) = m\<lparr>Gas := Gas m - g\<rparr>" using assms(1) by (simp add: UseGas_def not_less)
  obtain y where m': "m' = (push y (m\<lparr>Gas := Gas m - g, db := s\<rparr>))\<lparr>Gas := Gas m - g + g'\<rparr>"
    using assms(3) unfolding u x finishCreate_def Let_def by (auto simp: push_def)
  have "unat (Gas m - g + g') \<le> unat (Gas m - g) + unat g'" by (rule unat_add_le)
  also have "\<dots> \<le> unat (Gas m)" using assms(1) s(2) by (simp add: unat_sub word_le_nat_alt)
  finally show ?thesis using s(1) unfolding m' by (simp add: ran_def push_def grows_def)
qed

lemma opCreate_ran:
  assumes r: "soundRunner N (run_of E)" and g: "unat (Gas m) < N"
    and e: "ex \<in> {opCreate, opCreate2}" "ex E K m = Some (m', ret, err)"
  shows "ran 0 m m'"
proof -
  obtain x0 x1 x2 xs where st: "stack m = x0 # x1 # x2 # xs"
    using e by (auto simp: opCreate_def opCreate2_def pop_def split: list.splits)
  have d: "g - g div 64 \<le> g" for g :: u64 by (rule word_sub_le) (simp add: word_le_nat_alt unat_div)
  have c: "acts s s' \<and> g' \<le> h" if "create E a cd h v ad s = Some (s', r1, na, g', er)" "h \<le> Gas m" for a cd h v ad s s' r1 na g' er
    using spends_create [OF r _ that(1)] g that(2) by (simp add: word_le_nat_alt)
  consider (one) "ex = opCreate" | (two) "ex = opCreate2" using e(1) by blast
  then show ?thesis
  proof cases
    case one
    let ?g = "if IsEIP150 (chainRules E) then Gas m - Gas m div 64 else Gas m"
    have le: "?g \<le> Gas m" using d by simp
    let ?m = "m\<lparr>stack := xs\<rparr>"
    obtain input where "finishCreate (IsHomestead (chainRules E)) (Create E (self K) input ?g (uint x0) (db ?m)) (fst (UseGas ?g ?m)) = Some (m', ret, err)"
      using e(2) st unfolding one opCreate_def Let_def by (auto simp: pop_def bind_Some_iff db_UseGas cong: if_cong)
    then have "ran 0 ?m m'" by (rule finishCreate_ran [rotated 2]) (use le c [OF _ le] in \<open>auto simp: Create_def\<close>)
    then show ?thesis by (rule ran_stack)
  next
    case two
    obtain x3 ys where xs: "xs = x3 # ys" using e(2) st unfolding two by (auto simp: opCreate2_def pop_def split: list.splits)
    let ?g = "Gas m - Gas m div 64" and ?m = "m\<lparr>stack := ys\<rparr>"
    obtain input where "finishCreate True (Create2 E (self K) input ?g (uint x0) x3 (db ?m)) (fst (UseGas ?g ?m)) = Some (m', ret, err)"
      using e(2) st xs unfolding two opCreate2_def Let_def by (auto simp: pop_def bind_Some_iff db_UseGas cong: if_cong)
    then have "ran 0 ?m m'" by (rule finishCreate_ran [rotated 2]) (use d c [OF _ d] in \<open>auto simp: Create2_def\<close>)
    then show ?thesis by (rule ran_stack)
  qed
qed


subsection \<open>One turn of the loop\<close>

lemma payDynamic_paid:
  assumes "tame_opt (dynamicGas x)" and "payDynamic E K x sz m = Some (n, b)"
  shows "acts (db m) (db n)" "Gas n \<le> Gas m" "store n = store m" "stack n = stack m"
    "lastGasCost n = lastGasCost m \<or> sz \<le> 0x1FFFFFFFE0 \<and> unat (lastGasCost n) = memFee ((unat sz + 31) div 32)"
    "b \<Longrightarrow> dynamicGas x = Some g \<Longrightarrow> \<exists>k c. g E K sz m = Some (k, c, None) \<and> c \<le> Gas m \<and> n = k\<lparr>Gas := Gas m - c\<rparr>"
proof -
  have t: "billed sz m k e" if "dynamicGas x = Some h" "h E K sz m = Some (k, c, e)" for h k c e
    using assms(1) that by (auto simp: tame_opt_def tame_def bills_def)
  have p: "n = m \<and> dynamicGas x = None \<or> (\<exists>h k c e. dynamicGas x = Some h \<and> h E K sz m = Some (k, c, e) \<and>
      (if b then e = None \<and> c \<le> Gas k \<and> n = k\<lparr>Gas := Gas k - c\<rparr> else n = k))"
    using assms(2) by (cases "dynamicGas x") (auto simp: payDynamic_def UseGas_def bind_Some_iff not_less split: if_splits)
  then show "acts (db m) (db n)" "store n = store m" "stack n = stack m"
    "lastGasCost n = lastGasCost m \<or> sz \<le> 0x1FFFFFFFE0 \<and> unat (lastGasCost n) = memFee ((unat sz + 31) div 32)"
    by (auto simp: acts_refl dest!: t split: if_splits simp: billed_def)
  from p show "Gas n \<le> Gas m" by (auto dest!: t split: if_splits simp: billed_def word_sub_le)
  show "\<exists>k c. g E K sz m = Some (k, c, None) \<and> c \<le> Gas m \<and> n = k\<lparr>Gas := Gas m - c\<rparr>" if "b" "dynamicGas x = Some g"
    using p that t [of g] by (fastforce simp: billed_def)
qed

text \<open>The memory an operation asks for is a whole number of words.\<close>

lemma operationMemory_words:
  assumes "operationMemory x m = Some (Inr sz)"
  shows "32 dvd unat sz"
proof (cases "memorySize x")
  case (Some f)
  then obtain ms where s: "sz = toWordSize ms * 32" "\<not> snd (SafeMul (toWordSize ms) 32)"
    using assms by (auto simp: operationMemory_def ok_def fail_def bind_Some_iff SafeMul_def Let_def split: if_splits)
  then have "unat sz = unat (toWordSize ms) * 32" using unat_mult_lem [of "toWordSize ms" 32] by (simp add: SafeMul_def)
  then show ?thesis by simp
qed (use assms in \<open>simp add: operationMemory_def ok_def\<close>)

lemma resized_mem_ok:
  assumes m: "mem_ok m" and n: "store n = store m" "32 dvd unat sz"
    "lastGasCost n = lastGasCost m \<or> sz \<le> 0x1FFFFFFFE0 \<and> unat (lastGasCost n) = memFee ((unat sz + 31) div 32)"
    and k: "(if sz > 0 then Resize sz n else Some n) = Some k"
  shows "mem_ok k" "calm n k"
proof -
  show c: "calm n k" using k by (auto split: if_splits simp: calm_refl dest: calm_Resize)
  have l: "length (store n) < 2 ^ 64" using m n(1) by (simp add: mem_ok_def)
  have len: "length (store k) = max (length (store n)) (unat sz)"
    using k Resize_length [OF _ l] by (auto simp: word_gt_0 unat_eq_0 split: if_splits)
  have w: "(unat sz + 31) div 32 = unat sz div 32" using n(2) by (auto elim!: dvdE)
  have "unat (lastGasCost k) \<le> memFee (length (store k) div 32)"
    using c n(3) m memFee_mono [OF div_le_mono, of "length (store n)" "length (store k)" 32]
      memFee_mono [OF div_le_mono, of "unat sz" "length (store k)" 32] unfolding len n(1) w by (auto simp: calm_def mem_ok_def)
  then show "mem_ok k" using c l by (auto simp: mem_ok_def calm_def grows_def)
qed


lemma Resize_fields: "(if sz > 0 then Resize sz n else Some n) = Some k \<Longrightarrow> stack k = stack n \<and> callGasTemp k = callGasTemp n"
  by (auto simp: Resize_def bind_Some_iff split: if_splits)

lemma stipend_le: "unat (stipend v t) \<le> unat t + (if v \<noteq> 0 then 2300 else 0)"
  using unat_add_le [of t CallStipend] by (simp add: stipend_def CallStipend_def)

text \<open>What was paid for an operation covers the gas a call takes along.\<close>

lemma paid_bounds:
  assumes x: "wf_at R c x" "chainRules E = R" and m: "mem_ok m"
    and m1: "constantGas x \<le> Gas m" "m1 = m\<lparr>Gas := Gas m - constantGas x\<rparr>"
    and m2: "payDynamic E K x sz m1 = Some (m2, True)" and m3: "(if sz > 0 then Resize sz m2 else Some m2) = Some m3" "calm m2 m3"
  obtains (paying) "execute x \<in> {opCall, opCallCode}" "unat (Gas m3) + unat (stipend (stack m3 ! 2) (callGasTemp m3)) < unat (Gas m)"
    | (plain) "execute x \<in> {opDelegateCall, opStaticCall}" "unat (Gas m3) + unat (callGasTemp m3) < unat (Gas m)"
    | (creating) "execute x \<in> {opCreate, opCreate2}" "unat (Gas m3) < unat (Gas m)"
    | (quiet) "quiet (execute x)" "unat (Gas m3) \<le> unat (Gas m)" "\<not> halts x \<Longrightarrow> \<not> reverts x \<Longrightarrow> unat (Gas m3) < unat (Gas m)"
proof -
  have t: "tame_opt (dynamicGas x)" using x(1) by (simp add: wf_at_def)
  note paid = payDynamic_paid [OF t m2]
  have g1: "unat (Gas m1) = unat (Gas m) - unat (constantGas x)" "unat (constantGas x) \<le> unat (Gas m)"
    using m1 by (simp_all add: unat_sub word_le_nat_alt)
  have g3: "Gas m3 = Gas m2" using m3(2) by (simp add: calm_def)
  have g2: "unat (Gas m2) \<le> unat (Gas m1)" using paid(2) by (simp add: word_le_nat_alt)
  have f3: "stack m3 = stack m1" "callGasTemp m3 = callGasTemp m2" using Resize_fields [OF m3(1)] paid(4) by simp_all
  have mok1: "mem_ok m1" using m m1(2) by (simp add: mem_ok_def)
  have call: "unat (callGasTemp m3) + (if wv \<and> stack m3 ! 2 \<noteq> 0 then 9000 else 0) + unat (Gas m3) \<le> unat (Gas m1)"
    if "callCharged R wv (dynamicGas x)" for wv
  proof -
    obtain g where g: "dynamicGas x = Some g" "callSound R wv g" using \<open>callCharged R wv (dynamicGas x)\<close> by (auto simp: callCharged_def split: option.splits)
    obtain k d where k: "g E K sz m1 = Some (k, d, None)" "d \<le> Gas m1" "m2 = k\<lparr>Gas := Gas m1 - d\<rparr>" using paid(6) [OF _ g(1)] by blast
    have "unat (callGasTemp k) + (if wv \<and> stack m1 ! 2 \<noteq> 0 then 9000 else 0) \<le> unat d"
      using g(2) k(1) mok1 x(2) unfolding callSound_def by blast
    moreover have "unat (Gas m2) = unat (Gas m1) - unat d" "unat d \<le> unat (Gas m1)" using k(2,3) by (simp_all add: unat_sub word_le_nat_alt)
    ultimately show ?thesis using f3 k(3) g3 by simp
  qed
  have dyn: "unat (Gas m2) < unat (Gas m1)" if "charged (dynamicGas x)"
  proof -
    obtain g where g: "dynamicGas x = Some g" "charges g" using \<open>charged (dynamicGas x)\<close> by (auto simp: charged_def split: option.splits)
    obtain k d where k: "g E K sz m1 = Some (k, d, None)" "d \<le> Gas m1" "m2 = k\<lparr>Gas := Gas m1 - d\<rparr>" using paid(6) [OF _ g(1)] by blast
    then have "0 < d" using g(2) unfolding charges_def by blast
    then show ?thesis using k(2,3) by (simp add: unat_sub word_le_nat_alt word_less_nat_alt)
  qed
  consider (v) "execute x \<in> {opCall, opCallCode}" "0 < constantGas x" "callCharged R True (dynamicGas x)"
    | (n) "execute x \<in> {opDelegateCall, opStaticCall}" "0 < constantGas x" "callCharged R False (dynamicGas x)"
    | (c) "execute x \<in> {opCreate, opCreate2}" "0 < constantGas x"
    | (q) "quiet (execute x)" "0 < constantGas x \<or> charged (dynamicGas x) \<or> halts x \<or> reverts x"
    using x(1) unfolding wf_at_def by (auto split: if_splits)
  then show thesis
  proof cases
    case v
    then show thesis using call [OF v(3)] stipend_le [of "stack m3 ! 2" "callGasTemp m3"] g1
      by (intro paying) (auto simp: word_less_nat_alt split: if_splits)
  next
    case n
    then show thesis using call [OF n(3)] g1 by (intro plain) (auto simp: word_less_nat_alt)
  next
    case c
    then show thesis using g1 g2 g3 by (intro creating) (auto simp: word_less_nat_alt)
  next
    case q
    then show thesis using g1 g2 g3 dyn by (intro quiet) (auto simp: word_less_nat_alt)
  qed
qed

lemma executed:
  assumes x: "wf_at R c x" "chainRules E = R" and m: "mem_ok m" "mem_ok m3" and sr: "soundRunner (unat (Gas m)) (run_of E)"
    and m1: "constantGas x \<le> Gas m" "m1 = m\<lparr>Gas := Gas m - constantGas x\<rparr>"
    and m2: "payDynamic E K x sz m1 = Some (m2, True)" and m3: "(if sz > 0 then Resize sz m2 else Some m2) = Some m3" "calm m2 m3"
    and ex: "execute x E K m3 = Some (m4, res, err)"
  shows "acts (db m3) (db m4) \<and> mem_ok m4 \<and> Gas m4 \<le> Gas m \<and> (\<not> halts x \<longrightarrow> \<not> reverts x \<longrightarrow> Gas m4 < Gas m)"
proof -
  have conclude: ?thesis
    if "ran b m3 m4" "unat (Gas m3) + b \<le> unat (Gas m)" "\<not> halts x \<Longrightarrow> \<not> reverts x \<Longrightarrow> unat (Gas m3) + b < unat (Gas m)" for b
    using that ran_mem_ok [OF that(1) m(2)] by (auto simp: ran_def word_le_nat_alt word_less_nat_alt)
  from x m(1) m1 m2 m3 show ?thesis
  proof (cases rule: paid_bounds)
    case paying
    then show ?thesis using conclude [OF opCall_ran [OF sr _ paying(1) ex]] by simp
  next
    case plain
    then show ?thesis using conclude [OF opDelegateCall_ran [OF sr _ plain(1) ex]] by simp
  next
    case creating
    then show ?thesis using conclude [OF opCreate_ran [OF sr _ creating(1) ex]] by simp
  next
    case quiet
    moreover have "calm m3 m4" using quiet(1) ex unfolding quiet_def by blast
    ultimately show ?thesis using conclude [OF ran_calm] by simp
  qed
qed

definition progresses :: "vm \<Rightarrow> progress \<Rightarrow> bool" where
  "progresses m p \<longleftrightarrow> (case p of
     Next m' \<Rightarrow> acts (db m) (db m') \<and> mem_ok m' \<and> Gas m' < Gas m
   | Done m' _ _ \<Rightarrow> acts (db m) (db m') \<and> Gas m' \<le> Gas m)"

lemma payAndPerform_progresses:
  assumes x: "wf_at R c x" "chainRules E = R" and m: "mem_ok m" and sr: "soundRunner (unat (Gas m)) (run_of E)"
    and p: "payAndPerform E K x m = Some p"
  shows "progresses m p"
proof (cases "Gas m < constantGas x")
  case True
  then show ?thesis using p by (auto simp: payAndPerform_def UseGas_def progresses_def acts_refl)
next
  case False
  define m1 where "m1 = m\<lparr>Gas := Gas m - constantGas x\<rparr>"
  have le: "constantGas x \<le> Gas m" "Gas m1 \<le> Gas m" using False by (simp_all add: m1_def not_less word_sub_le)
  have ok1: "mem_ok m1" "db m1 = db m" using m by (simp_all add: m1_def mem_ok_def)
  from p False obtain r where r: "operationMemory x m1 = Some r"
    and p1: "(case r of Inl e \<Rightarrow> Some (Done m1 [] (Some e)) | Inr sz \<Rightarrow> Option.bind (payDynamic E K x sz m1) (\<lambda>(m2, paid2).
      if \<not> paid2 then Some (Done m2 [] (Some ErrOutOfGas))
      else Option.bind (if sz > 0 then Resize sz m2 else Some m2) (perform E K x))) = Some p"
    by (auto simp: payAndPerform_def UseGas_def bind_Some_iff simp flip: m1_def)
  show ?thesis
  proof (cases r)
    case (Inl e)
    then show ?thesis using p1 le(2) by (auto simp: progresses_def m1_def acts_refl)
  next
    case (Inr sz)
    with p1 obtain m2 b where m2: "payDynamic E K x sz m1 = Some (m2, b)"
      and p2: "(if \<not> b then Some (Done m2 [] (Some ErrOutOfGas)) else Option.bind (if sz > 0 then Resize sz m2 else Some m2) (perform E K x)) = Some p"
      by (cases "payDynamic E K x sz m1") auto
    have t: "tame_opt (dynamicGas x)" using x(1) by (simp add: wf_at_def)
    note paid = payDynamic_paid [OF t m2]
    show ?thesis
    proof (cases b)
      case False
      then show ?thesis using p2 paid(1,2) le(2) ok1(2) by (auto simp: progresses_def)
    next
      case True
      with p2 obtain m3 where m3: "(if sz > 0 then Resize sz m2 else Some m2) = Some m3" and p3: "perform E K x m3 = Some p"
        by (auto simp: bind_Some_iff)
      have r3: "mem_ok m3" "calm m2 m3"
        using resized_mem_ok [OF ok1(1) paid(3) operationMemory_words paid(5) m3] r Inr by simp_all
      obtain m4 res err where ex: "execute x E K m3 = Some (m4, res, err)" using p3 by (auto simp: perform_def bind_Some_iff)
      have a: "acts (db m3) (db m4) \<and> mem_ok m4 \<and> Gas m4 \<le> Gas m \<and> (\<not> halts x \<longrightarrow> \<not> reverts x \<longrightarrow> Gas m4 < Gas m)"
        using executed [OF x m r3(1) sr le(1) m1_def _ m3 r3(2) ex] m2 True by simp
      have "acts (db m) (db m4)" using a paid(1) ok1(2) r3(2) by (auto simp: calm_def intro: acts_trans)
      moreover have "mem_ok (m4\<lparr>returnData := rd\<rparr>)" "mem_ok (m4\<lparr>pc := q\<rparr>)" "mem_ok (m4\<lparr>returnData := rd, pc := q\<rparr>)" for rd q
        using a by (simp_all add: mem_ok_def)
      ultimately show ?thesis using p3 ex a by (auto simp: perform_def progresses_def Let_def split: if_splits)
    qed
  qed
qed

lemma step_progresses:
  assumes "forksOrdered (chainRules E)" and "mem_ok m" and "soundRunner (unat (Gas m)) (run_of E)" and "step E K m = Some p"
  shows "progresses m p"
proof (cases "instructionSet (chainRules E) (GetOp (Code K) (pc m))")
  case (Some x)
  have "wf_at (chainRules E) (GetOp (Code K) (pc m)) x" using wf_instructionSet [OF assms(1)] Some by (auto simp: wf_table_def)
  from payAndPerform_progresses [OF this refl assms(2,3)] show ?thesis
    using assms(4) Some by (auto simp: step_def Let_def bind_Some_iff progresses_def acts_refl split: if_splits)
qed (use assms(4) in \<open>auto simp: step_def progresses_def acts_refl\<close>)


subsection \<open>The loop\<close>

lemma envAt_fields [simp]:
  "chainRules (envAt C r d ro) = chainRules C" "run_of (envAt C r d ro) = r" "depth_of (envAt C r d ro) = d" "readOnly (envAt C r d ro) = ro"
  "host (envAt C r d ro) = host C" "precompiles (envAt C r d ro) = precompiles C" "capacity (envAt C r d ro) = capacity C"
  "lib (envAt C r d ro) = lib C" "chainConfig (envAt C r d ro) = chainConfig C"
  by (simp_all add: envAt_def vmctx.defs env.defs chainRules_def)

lemma runWith_sound:
  assumes "\<And>d ro K m. mem_ok m \<Longrightarrow> unat (Gas m) < N \<Longrightarrow> spends (db m) (Gas m) (loop d ro K m)"
  shows "soundRunner N (runWith loop)"
  unfolding soundRunner_def
proof (intro allI impI)
  fix d ro K i rd g s
  assume "unat (g :: u64) < N"
  then show "spends s g (runWith loop d ro K i rd g s)"
    using assms [of "newVM g s" "d + 1" "ro \<or> rd" "K\<lparr>Input := i\<rparr>"] mem_ok_new [of g s]
    by (auto simp: runWith_def spends_refl) (simp_all add: newVM_def)
qed

lemma interp_spends:
  assumes "forksOrdered (chainRules C)" and "mem_ok m" and "unat (Gas m) < n"
  shows "spends (db m) (Gas m) (interp C stuck n d ro K m)"
  using assms(2,3)
proof (induction n arbitrary: d ro K m)
  case (Suc n)
  define E where "E = envAt C (runWith (interp C stuck n)) d ro"
  have "soundRunner n (run_of E)" unfolding E_def envAt_fields by (rule runWith_sound) (rule Suc.IH)
  then have sr: "soundRunner (unat (Gas m)) (run_of E)" using Suc.prems(2) unfolding soundRunner_def by auto
  have fo: "forksOrdered (chainRules E)" using assms(1) by (simp add: E_def)
  show ?case
  proof (cases "step E K m")
    case (Some p)
    note pr = step_progresses [OF fo Suc.prems(1) sr Some]
    show ?thesis
    proof (cases p)
      case (Next m')
      then have m': "acts (db m) (db m')" "mem_ok m'" "Gas m' < Gas m" using pr by (auto simp: progresses_def)
      then have "unat (Gas m') < n" using Suc.prems(2) by (simp add: word_less_nat_alt)
      from Suc.IH [OF m'(2) this] have "spends (db m') (Gas m') (interp C stuck n d ro K m')" .
      then show ?thesis using Some Next m' by (auto simp: spends_def E_def intro: acts_trans)
    next
      case (Done m' ret err)
      then show ?thesis using pr Some by (simp add: spends_def E_def progresses_def)
    qed
  qed (simp add: spends_def E_def)
qed simp

lemma Run_sound: "forksOrdered (chainRules C) \<Longrightarrow> soundRunner N (Run C)"
proof -
  assume "forksOrdered (chainRules C)"
  then have "soundRunner n (runWith (interp C None n))" for n by (intro runWith_sound interp_spends)
  then show ?thesis unfolding soundRunner_def Run_def by (meson lessI)
qed

text \<open>The interpreter does what the calls rely on.\<close>

lemma topEnv_sandboxed:
  assumes "forksOrdered (chainRules C)"
  shows "sandboxed (evm_at (envAt C (Run C) d ro))"
  using soundRunnerD [OF Run_sound [OF assms] lessI] by (auto simp: sandboxed_def evm_at_def)


subsection \<open>The fuel does not matter\<close>

text \<open>Two interpreters that agree below a given gas.\<close>

definition agree :: "nat \<Rightarrow> runner \<Rightarrow> runner \<Rightarrow> bool" where
  "agree N r r' \<longleftrightarrow> (\<forall>d ro K i rd g s. unat g < N \<longrightarrow> r d ro K i rd g s = r' d ro K i rd g s)"

lemma agreeD: "agree N r r' \<Longrightarrow> unat g < N \<Longrightarrow> r d ro K i rd g s = r' d ro K i rd g s"
  by (simp add: agree_def)

lemma payCall_interpreter: "payCall (V\<lparr>interpreter := f\<rparr>) = payCall V"
proof -
  have h: "HandleNFT (V\<lparr>interpreter := f\<rparr>) = HandleNFT V"
  proof -
    have "handleExchange (V\<lparr>interpreter := f\<rparr>) = handleExchange V" "handleOpenExchanger (V\<lparr>interpreter := f\<rparr>) = handleOpenExchanger V"
      "handleCloseExchanger (V\<lparr>interpreter := f\<rparr>) = handleCloseExchanger V" "handleTrade t (V\<lparr>interpreter := f\<rparr>) = handleTrade t V"
      "handleLiveness (V\<lparr>interpreter := f\<rparr>) = handleLiveness V" "handleVoteApproved (V\<lparr>interpreter := f\<rparr>) = handleVoteApproved V" for t
      by (simp_all add: handleExchange_def handleOpenExchanger_def handleCloseExchanger_def handleTrade_def handleLiveness_def
        handleVoteApproved_def fun_eq_iff split: option.split sum.split)
    then show ?thesis by (intro ext) (simp only: HandleNFT_def)
  qed
  show ?thesis by (intro ext) (simp add: payCall_def h cong: if_cong option.case_cong)
qed

lemma Call_interpreter:
  assumes "\<And>a b c i v s. f a b c i g v s = interpreter V a b c i g v s"
  shows "Call (V\<lparr>interpreter := f\<rparr>) a b i g v s = Call V a b i g v s"
proof -
  have r: "runRecipient (V\<lparr>interpreter := f\<rparr>) a b i g v s = runRecipient V a b i g v s" for s
    using assms by (simp add: runRecipient_def Let_def)
  have "Option.bind (payCall V a b i g v t) (\<lambda>(s1, ret1, gas1, err1). if err1 \<noteq> None then Some (s1, ret1, gas1, err1)
      else Option.bind (runRecipient (V\<lparr>interpreter := f\<rparr>) a b i gas1 v s1) (h s1))
    = Option.bind (payCall V a b i g v t) (\<lambda>(s1, ret1, gas1, err1). if err1 \<noteq> None then Some (s1, ret1, gas1, err1)
      else Option.bind (runRecipient V a b i gas1 v s1) (h s1))" for t and h :: "StateDB \<Rightarrow> _ \<Rightarrow> runResult"
    by (rule Option.bind_cong [OF refl]) (auto dest!: payCall_gas simp: r)
  from this [of "fst (Snapshot s)" "\<lambda>s1 (s2, ret2, gas2, err2). if err2 = None then Some (s2, ret2, gas2, None)
      else Option.bind (RevertToSnapshot (snd (Snapshot s)) s2) (\<lambda>s3. Some (s3, ret2, if err2 \<noteq> Some ErrExecutionReverted then 0 else gas2, err2))"]
  show ?thesis unfolding Call_def payCall_interpreter Let_def case_prod_beta [of _ "Snapshot s"] by (simp cong: if_cong)
qed

lemma agree_calls:
  assumes "agree N r (run_of E)" and "unat g < N"
  shows "Call (evm_at (E\<lparr>run_of := r\<rparr>)) a b i g v s = Call (evm_at E) a b i g v s"
    "CallCode (E\<lparr>run_of := r\<rparr>) K ad i g v s = CallCode E K ad i g v s" "DelegateCall (E\<lparr>run_of := r\<rparr>) K ad i g s = DelegateCall E K ad i g s"
    "StaticCall (E\<lparr>run_of := r\<rparr>) K ad i g s = StaticCall E K ad i g s" "create (E\<lparr>run_of := r\<rparr>) a i g v ad s = create E a i g v ad s"
proof -
  have "evm_at (E\<lparr>run_of := r\<rparr>) = (evm_at E)\<lparr>interpreter := (\<lambda>caller addr c input gas v s. r (depth_of E) (readOnly E)
        \<lparr>CallerAddress = caller, self = addr, Code = c, Input = [], callvalue = v\<rparr> input False gas s)\<rparr>"
    by (simp add: evm_at_def)
  moreover have "Call ((evm_at E)\<lparr>interpreter := (\<lambda>caller addr c input gas v s. r (depth_of E) (readOnly E)
        \<lparr>CallerAddress = caller, self = addr, Code = c, Input = [], callvalue = v\<rparr> input False gas s)\<rparr>) a b i g v s = Call (evm_at E) a b i g v s"
    by (rule Call_interpreter) (simp add: evm_at_def agreeD [OF assms])
  ultimately show "Call (evm_at (E\<lparr>run_of := r\<rparr>)) a b i g v s = Call (evm_at E) a b i g v s" by simp
  have "runOrRevert (E\<lparr>run_of := r\<rparr>) ad K i rd g sn s = runOrRevert E ad K i rd g sn s" for K rd sn s
    using agreeD [OF assms] by (simp add: runOrRevert_def cong: option.case_cong)
  then show "CallCode (E\<lparr>run_of := r\<rparr>) K ad i g v s = CallCode E K ad i g v s" "DelegateCall (E\<lparr>run_of := r\<rparr>) K ad i g s = DelegateCall E K ad i g s"
    "StaticCall (E\<lparr>run_of := r\<rparr>) K ad i g s = StaticCall E K ad i g s"
    by (simp_all add: CallCode_def DelegateCall_def StaticCall_def)
  show "create (E\<lparr>run_of := r\<rparr>) a i g v ad s = create E a i g v ad s"
    using agreeD [OF assms] by (simp add: create_def cong: if_cong)
qed


lemma agree_ops:
  assumes a: "agree N r (run_of E)"
  shows "unat (stipend (stack m ! 2) (callGasTemp m)) < N \<Longrightarrow> ex \<in> {opCall, opCallCode} \<Longrightarrow> ex (E\<lparr>run_of := r\<rparr>) K m = ex E K m"
    "unat (callGasTemp m) < N \<Longrightarrow> ex \<in> {opDelegateCall, opStaticCall} \<Longrightarrow> ex (E\<lparr>run_of := r\<rparr>) K m = ex E K m"
    "unat (Gas m) < N \<Longrightarrow> ex \<in> {opCreate, opCreate2} \<Longrightarrow> ex (E\<lparr>run_of := r\<rparr>) K m = ex E K m"
proof -
  note calls = agree_calls [OF a]
  have p: "callGasTemp m' = callGasTemp m \<and> Gas m' = Gas m \<and> stack m = x # stack m'" if "pop m = Some (x, m')" for m m' x
    using that by (auto simp: pop_def split: list.splits)
  have u: "db (fst (UseGas g m)) = db m" for g m by (rule db_UseGas)
  have d: "unat (g - g div 64) \<le> unat g" for g :: u64 by (subst unat_sub) (simp_all add: word_le_nat_alt unat_div)
  show "unat (stipend (stack m ! 2) (callGasTemp m)) < N \<Longrightarrow> ex \<in> {opCall, opCallCode} \<Longrightarrow> ex (E\<lparr>run_of := r\<rparr>) K m = ex E K m"
    by (auto simp: opCall_def opCallCode_def intro!: Option.bind_cong dest!: p simp: calls)
  show "unat (callGasTemp m) < N \<Longrightarrow> ex \<in> {opDelegateCall, opStaticCall} \<Longrightarrow> ex (E\<lparr>run_of := r\<rparr>) K m = ex E K m"
    by (auto simp: opDelegateCall_def opStaticCall_def intro!: Option.bind_cong dest!: p simp: calls)
  show "unat (Gas m) < N \<Longrightarrow> ex \<in> {opCreate, opCreate2} \<Longrightarrow> ex (E\<lparr>run_of := r\<rparr>) K m = ex E K m"
    by (auto simp: opCreate_def opCreate2_def Create_def Create2_def Let_def u intro!: Option.bind_cong dest!: p
      simp: calls order.strict_trans1 [OF d])
qed

lemma agree_payAndPerform:
  assumes x: "wf_at R c x" "chainRules E = R" and m: "mem_ok m" and a: "agree (unat (Gas m)) r (run_of E)"
  shows "payAndPerform (E\<lparr>run_of := r\<rparr>) K x m = payAndPerform E K x m"
proof (cases "Gas m < constantGas x")
  case False
  define m1 where "m1 = m\<lparr>Gas := Gas m - constantGas x\<rparr>"
  have le: "constantGas x \<le> Gas m" using False by simp
  have ok1: "mem_ok m1" using m by (simp add: m1_def mem_ok_def)
  have t: "tame_opt (dynamicGas x)" using x(1) by (simp add: wf_at_def)
  have pd: "payDynamic (E\<lparr>run_of := r\<rparr>) K x sz m1 = payDynamic E K x sz m1" for sz
    using t by (auto simp: payDynamic_def tame_opt_def tame_def split: option.splits)
  have pf: "perform (E\<lparr>run_of := r\<rparr>) K x m3 = perform E K x m3"
    if "operationMemory x m1 = Some (Inr sz)" "payDynamic E K x sz m1 = Some (m2, True)" "(if sz > 0 then Resize sz m2 else Some m2) = Some m3" for sz m2 m3
  proof -
    note paid = payDynamic_paid [OF t that(2)]
    have r3: "mem_ok m3" "calm m2 m3" using resized_mem_ok [OF ok1 paid(3) operationMemory_words [OF that(1)] paid(5) that(3)] by simp_all
    from x m le m1_def that(2,3) r3(2) have "execute x (E\<lparr>run_of := r\<rparr>) K m3 = execute x E K m3"
    proof (cases rule: paid_bounds)
      case quiet
      then show ?thesis unfolding quiet_def by blast
    qed (rule agree_ops [OF a]; simp)+
    then show ?thesis by (simp add: perform_def)
  qed
  show ?thesis using False
    by (auto simp: payAndPerform_def UseGas_def pd pf simp flip: m1_def intro!: Option.bind_cong split: sum.split)
qed (simp add: payAndPerform_def UseGas_def)

lemma agree_step:
  assumes "forksOrdered (chainRules E)" and "mem_ok m" and "agree (unat (Gas m)) r (run_of E)"
  shows "step (E\<lparr>run_of := r\<rparr>) K m = step E K m"
proof (cases "instructionSet (chainRules E) (GetOp (Code K) (pc m))")
  case (Some x)
  have "wf_at (chainRules E) (GetOp (Code K) (pc m)) x" using wf_instructionSet [OF assms(1)] Some by (auto simp: wf_table_def)
  from agree_payAndPerform [OF this refl assms(2,3)] show ?thesis
    using Some by (simp add: step_def Let_def writeProtected_def cong: if_cong)
qed (simp add: step_def)

lemma runWith_agree:
  assumes "\<And>d ro K m. mem_ok m \<Longrightarrow> unat (Gas m) < N \<Longrightarrow> loop d ro K m = loop' d ro K m"
  shows "agree N (runWith loop) (runWith loop')"
  unfolding agree_def
proof (intro allI impI)
  fix d ro K i rd g s
  assume "unat (g :: u64) < N"
  then show "runWith loop d ro K i rd g s = runWith loop' d ro K i rd g s"
    using assms [of "newVM g s" "d + 1" "ro \<or> rd" "K\<lparr>Input := i\<rparr>"] mem_ok_new [of g s]
    by (auto simp: runWith_def newVM_def)
qed

lemma envAt_run_of: "(envAt C r d ro)\<lparr>run_of := r'\<rparr> = envAt C r' d ro"
  by (simp add: envAt_def vmctx.defs env.defs)

lemma interp_fuel:
  assumes "forksOrdered (chainRules C)" and "mem_ok m" and "unat (Gas m) < n" and "unat (Gas m) < n'"
  shows "interp C st n d ro K m = interp C st' n' d ro K m"
  using assms(2-)
proof (induction n arbitrary: n' d ro K m)
  case (Suc n)
  then obtain k where n': "n' = Suc k" by (cases n') auto
  define E where "E = envAt C (runWith (interp C st n)) d ro"
  have sr: "soundRunner (unat (Gas m)) (run_of E)"
    unfolding E_def envAt_fields using Suc.prems(2) by (intro runWith_sound interp_spends assms(1)) auto
  have "agree (unat (Gas m)) (runWith (interp C st' k)) (run_of E)"
    unfolding E_def envAt_fields using Suc.prems(2,3) n' by (intro runWith_agree Suc.IH [symmetric]) auto
  from agree_step [OF _ Suc.prems(1) this, of K] have s: "step (envAt C (runWith (interp C st' k)) d ro) K m = step E K m"
    using assms(1) by (simp add: E_def envAt_run_of)
  have "interp C st n d ro K m' = interp C st' k d ro K m'" if "step E K m = Some (Next m')" for m'
  proof (rule Suc.IH)
    have "progresses m (Next m')" using step_progresses [OF _ Suc.prems(1) sr that] assms(1) by (simp add: E_def)
    then show "mem_ok m'" "unat (Gas m') < n" "unat (Gas m') < k"
      using Suc.prems(2,3) n' by (auto simp: progresses_def word_less_nat_alt)
  qed
  then show ?case using s by (auto simp: n' E_def split: option.split progress.split)
qed simp


subsection \<open>The ways of running code\<close>

text \<open>What \<open>Call\<close>, \<open>CallCode\<close>, \<open>DelegateCall\<close> and \<open>StaticCall\<close> promise on a chain whose forks are in order: they act on
  the state through its operations, leave at most the gas they got, and undo what they did when they fail.\<close>

locale code_call =
  fixes call :: "vmctx \<Rightarrow> u64 \<Rightarrow> StateDB \<Rightarrow> runResult"
  assumes spends: "forksOrdered (chainRules C) \<Longrightarrow> spends s g (call C g s)"
    and undoes: "forksOrdered (chainRules C) \<Longrightarrow> wf_state s \<Longrightarrow> call C g s = Some (s', ret, g', Some e) \<Longrightarrow> core s' = core s"
begin

lemma reachable: "forksOrdered (chainRules C) \<Longrightarrow> reach s \<Longrightarrow> call C g s = Some (s', ret, g', err) \<Longrightarrow> reach s'"
  using spends [of C s g] acts_reach unfolding spends_def by blast

lemma gas_left: "forksOrdered (chainRules C) \<Longrightarrow> call C g s = Some (s', ret, g', err) \<Longrightarrow> g' \<le> g"
  using spends [of C s g] unfolding spends_def by blast

lemma failure_unseen:
  assumes "forksOrdered (chainRules C)" and "reach s" and "call C g s = Some (s', ret, g', Some e)"
  shows "GetBalance a s' = GetBalance a s \<and> GetNonce a s' = GetNonce a s \<and> GetCode a s' = GetCode a s \<and> GetState a k s' = GetState a k s
    \<and> Exist a s' = Exist a s \<and> GetNFTOwner16 a s' = GetNFTOwner16 a s \<and> GetRefund s' = GetRefund s \<and> logs s' = logs s"
proof -
  have c: "core s' = core s" by (rule undoes [OF assms(1) reach_wf [OF assms(2)] assms(3)])
  show ?thesis using core_getters [OF c] core_fields [OF c] by (simp add: GetRefund_def)
qed

end

text \<open>The environment of code that runs at a given depth.\<close>

definition envRun :: "vmctx \<Rightarrow> int \<Rightarrow> bool \<Rightarrow> env" where
  "envRun C d ro = envAt C (Run C) d ro"

lemma envRun_sound:
  assumes "forksOrdered (chainRules C)"
  shows "soundRunner N (run_of (envRun C d ro))" "sandboxed (evm_at (envRun C d ro))"
  using Run_sound [OF assms] topEnv_sandboxed [OF assms] by (simp_all add: envRun_def)

lemma runOrRevert_undoes:
  assumes "soundRunner N (run_of E)" and "unat g < N" and "acts (fst (Snapshot s)) s1" and "wf_state s"
    and "runOrRevert E addr K i rd g (snd (Snapshot s)) s1 = Some (s', ret, g', Some e)"
  shows "core s' = core s"
proof -
  obtain s2 r2 g2 e2 where r: "(case precompiles E addr of Some p \<Rightarrow> Some (s1, RunPrecompiledContract p i g)
      | None \<Rightarrow> run_of E (depth_of E) (readOnly E) K i rd g s1) = Some (s2, r2, g2, e2)"
    and q: "RevertToSnapshot (snd (Snapshot s)) s2 = Some s'"
    using assms(5) by (auto simp: runOrRevert_def bind_Some_iff split: if_splits)
  have "acts s1 s2" using r soundRunnerD [OF assms(1,2)] by (cases "precompiles E addr") (auto simp: acts_refl)
  then have "acts (fst (Snapshot s)) s2" using assms(3) by (rule acts_trans [rotated])
  then show ?thesis using acts_framed revert_framed [OF _ assms(4)] q by fastforce
qed

lemma calls_undo:
  assumes "soundRunner N (run_of E)" and "unat g < N" and "wf_state s"
  shows "CallCode E K addr i g v s = Some (s', ret, g', Some e) \<Longrightarrow> core s' = core s"
    "DelegateCall E K addr i g s = Some (s', ret, g', Some e) \<Longrightarrow> core s' = core s"
    "StaticCall E K addr i g s = Some (s', ret, g', Some e) \<Longrightarrow> core s' = core s"
  using runOrRevert_undoes [OF assms(1,2) acts_refl assms(3)] runOrRevert_undoes [OF assms(1,2) acts_steps(2) assms(3)]
  by (auto simp: CallCode_def DelegateCall_def StaticCall_def case_prod_beta Let_def split: if_splits)

interpretation plain_call: code_call "\<lambda>C g s. Call (evm_at (envRun C d ro)) caller addr input g v s" for d ro caller addr input v
  using spends_Call [OF envRun_sound(1) lessI] failed_call_core [OF _ envRun_sound(2)] by unfold_locales blast+

interpretation code_call_code: code_call "\<lambda>C g s. CallCode (envRun C d ro) K addr input g v s" for d ro K addr input v
  using spends_calls(1) [OF envRun_sound(1) lessI] calls_undo(1) [OF envRun_sound(1) lessI] by unfold_locales blast+

interpretation delegate_call: code_call "\<lambda>C g s. DelegateCall (envRun C d ro) K addr input g s" for d ro K addr input
  using spends_calls(2) [OF envRun_sound(1) lessI] calls_undo(2) [OF envRun_sound(1) lessI] by unfold_locales blast+

interpretation static_call: code_call "\<lambda>C g s. StaticCall (envRun C d ro) K addr input g s" for d ro K addr input
  using spends_calls(3) [OF envRun_sound(1) lessI] calls_undo(3) [OF envRun_sound(1) lessI] by unfold_locales blast+


subsection \<open>The NFT operations\<close>

text \<open>No later release changes these operations.\<close>

lemma instructionSet_frontier:
  assumes "c = 0xb8 \<or> c = 0xbc \<or> c = 0x60"
  shows "instructionSet R c = newFrontierInstructionSet c"
proof -
  have o: "on_op a f t c = t c" if "a \<noteq> c" for a f and t :: JumpTable using that by (simp add: on_op_def)
  have n: "k \<noteq> c" if "k \<notin> {0xb8, 0xbc, 0x60}" for k using that assms by auto
  note lookup = o [OF n] fun_upd_other [OF not_sym [OF n]]
  have h: "newHomesteadInstructionSet c = newFrontierInstructionSet c" by (simp del: fun_upd_apply add: newHomesteadInstructionSet_def lookup)
  have t: "newTangerineWhistleInstructionSet c = newFrontierInstructionSet c" by (simp del: fun_upd_apply add: newTangerineWhistleInstructionSet_def lookup h)
  have s: "newSpuriousDragonInstructionSet c = newFrontierInstructionSet c" by (simp del: fun_upd_apply add: newSpuriousDragonInstructionSet_def lookup t)
  have b: "newByzantiumInstructionSet c = newFrontierInstructionSet c" by (simp del: fun_upd_apply add: newByzantiumInstructionSet_def lookup s)
  have k: "newConstantinopleInstructionSet c = newFrontierInstructionSet c" by (simp del: fun_upd_apply add: newConstantinopleInstructionSet_def lookup b)
  have i: "newIstanbulInstructionSet c = newFrontierInstructionSet c"
    by (simp del: fun_upd_apply add: newIstanbulInstructionSet_def enable1344_def enable1884_def enable2200_def lookup k)
  have e: "newBerlinInstructionSet c = newFrontierInstructionSet c" by (simp del: fun_upd_apply add: newBerlinInstructionSet_def enable2929_def lookup i)
  have l: "newLondonInstructionSet c = newFrontierInstructionSet c"
    by (simp del: fun_upd_apply add: newLondonInstructionSet_def enable3198_def enable3529_def lookup e)
  show ?thesis unfolding instructionSet_def by (simp add: h t s b k i e l)
qed

lemma instructionSet_nft:
  "instructionSet R 0xb8 = Some (nil_op\<lparr>execute := opNTransferFrom, constantGas := GasExtStep, minStk := minStack 3 0, maxStk := maxStack 3 0\<rparr>)"
  "instructionSet R 0xbc = Some (nil_op\<lparr>execute := opNIsApprovedForAll, constantGas := GasExtStep, minStk := minStack 1 1, maxStk := maxStack 1 1\<rparr>)"
  "instructionSet R 0x60 = Some (nil_op\<lparr>execute := opPush1, constantGas := GasFastestStep, minStk := minStack 0 1, maxStk := maxStack 0 1\<rparr>)"
proof -
  have none: "c \<notin> fst ` set l \<Longrightarrow> map_of (l @ k) c = map_of k c" for c :: u8 and l k :: "(u8 \<times> operation) list"
    by (simp add: map_add_dom_app_simps(3) dom_map_of_conv_image_fst map_add_def split: option.split) (metis map_of_eq_None_iff not_None_eq)
  have p: "(0xb8 :: u8) \<notin> fst ` set pushOps" "(0xbc :: u8) \<notin> fst ` set pushOps" by (simp_all add: pushOps_def PUSH1_def upt_rec)
  have a: "c \<notin> fst ` set (arithmeticOps @ comparisonOps @ contextOps @ storageOps)" if "c = 0xb8 \<or> c = 0xbc \<or> c = 0x60" for c
    using that by (auto simp: arithmeticOps_def comparisonOps_def contextOps_def storageOps_def)
  have f: "newFrontierInstructionSet = map_of ((arithmeticOps @ comparisonOps @ contextOps @ storageOps) @ pushOps @ logOps @ nftOps @ closureOps)"
    by (simp add: newFrontierInstructionSet_def)
  have l: "(0xb8 :: u8) \<notin> fst ` set logOps" "(0xbc :: u8) \<notin> fst ` set logOps" by (simp_all add: logOps_def)
  have b8: "newFrontierInstructionSet 0xb8 = map_of (nftOps @ closureOps) 0xb8"
    unfolding f none [OF a [OF disjI1 [OF refl]]] none [OF p(1)] none [OF l(1)] by (rule refl)
  have bc: "newFrontierInstructionSet 0xbc = map_of (nftOps @ closureOps) 0xbc"
    unfolding f none [OF a [OF disjI2 [OF disjI1 [OF refl]]]] none [OF p(2)] none [OF l(2)] by (rule refl)
  have b60: "newFrontierInstructionSet 0x60 = map_of (pushOps @ logOps @ nftOps @ closureOps) 0x60"
    unfolding f none [OF a [OF disjI2 [OF disjI2 [OF refl]]]] by (rule refl)
  show "instructionSet R 0xb8 = Some (nil_op\<lparr>execute := opNTransferFrom, constantGas := GasExtStep, minStk := minStack 3 0, maxStk := maxStack 3 0\<rparr>)"
    "instructionSet R 0xbc = Some (nil_op\<lparr>execute := opNIsApprovedForAll, constantGas := GasExtStep, minStk := minStack 1 1, maxStk := maxStack 1 1\<rparr>)"
    "instructionSet R 0x60 = Some (nil_op\<lparr>execute := opPush1, constantGas := GasFastestStep, minStk := minStack 0 1, maxStk := maxStack 0 1\<rparr>)"
    by (simp_all add: instructionSet_frontier b8 bc b60 nftOps_def pushOps_def PUSH1_def)
qed


lemma step_nft:
  assumes "instructionSet (chainRules E) (GetOp (Code K) (pc m)) = Some (nil_op\<lparr>execute := f, constantGas := g, minStk := minStack p q, maxStk := maxStack p q\<rparr>)"
    and "GetOp (Code K) (pc m) \<noteq> 0xf1" and "p \<le> int (length (stack m))" and "int (length (stack m)) \<le> 1024 + p - q" and "g \<le> Gas m"
  shows "step E K m = (case f E K (m\<lparr>Gas := Gas m - g\<rparr>) of None \<Rightarrow> None
     | Some (m', res, None) \<Rightarrow> Some (Next (m'\<lparr>pc := pc m' + 1\<rparr>)) | Some (m', res, Some e) \<Rightarrow> Some (Done m' res (Some e)))"
  using assms by (auto simp: step_def writeProtected_def nil_op_def minStack_def maxStack_def StackLimit_def payAndPerform_def UseGas_def
    operationMemory_def ok_def payDynamic_def perform_def split: option.split)

lemma Bytes20_SetAddress [simp]: "Bytes20 (SetAddress a) = a"
  unfolding Bytes20_def SetAddress_def by transfer (simp add: min_def)

text \<open>The loop of \<open>Run\<close> from a given machine.\<close>

definition runLoop :: "vmctx \<Rightarrow> int \<Rightarrow> bool \<Rightarrow> Contract \<Rightarrow> vm \<Rightarrow> runResult" where
  "runLoop C d ro K m = interp C None (Suc (unat (Gas m))) d ro K m"

lemma runWith_interp:
  assumes "forksOrdered (chainRules C)" and "unat g < n"
  shows "runWith (interp C stuck n) d ro K i rd g s = Run C d ro K i rd g s"
proof -
  have "interp C stuck n d ro K (newVM g s) = interp C None (Suc (unat g)) d ro K (newVM g s)" for d ro K
    by (rule interp_fuel [OF assms(1) mem_ok_new]) (use assms(2) in \<open>simp_all add: newVM_def\<close>)
  then show ?thesis by (simp add: Run_def runWith_def)
qed

lemma runLoop_step:
  assumes f: "forksOrdered (chainRules C)" and m: "mem_ok m"
  shows "runLoop C d ro K m = (case step (envRun C d ro) K m of None \<Rightarrow> None
     | Some (Done m' ret err) \<Rightarrow> Some (db m', ret, Gas m', err) | Some (Next m') \<Rightarrow> runLoop C d ro K m')"
proof -
  let ?E = "envAt C (runWith (interp C None (unat (Gas m)))) d ro"
  have "agree (unat (Gas m)) (runWith (interp C None (unat (Gas m)))) (run_of (envRun C d ro))"
    unfolding agree_def envRun_def envAt_fields by (simp add: runWith_interp [OF f])
  from agree_step [OF _ m this, of K] have s: "step ?E K m = step (envRun C d ro) K m"
    using f by (simp add: envRun_def envAt_run_of)
  have "interp C None (unat (Gas m)) d ro K m' = runLoop C d ro K m'" if "step (envRun C d ro) K m = Some (Next m')" for m'
  proof -
    have "progresses m (Next m')" using step_progresses [OF _ m envRun_sound(1) [OF f] that] f by (simp add: envRun_def)
    then have "mem_ok m'" "unat (Gas m') < unat (Gas m)" by (simp_all add: progresses_def word_less_nat_alt)
    then show ?thesis unfolding runLoop_def by (intro interp_fuel [OF f]) simp_all
  qed
  then show ?thesis unfolding runLoop_def using s by (auto split: option.split progress.split simp: runLoop_def)
qed

subsection \<open>An example\<close>

text \<open>An example: a chain with all forks from its first block, with the arithmetic of machine words and one precompiled contract, which rejects its input.\<close>

definition exConfig :: ChainConfig where
  "exConfig = \<lparr>cfg_ChainID = Some 51888, HomesteadBlock = Some 0, DAOForkBlock = None, EIP150Block = Some 0, EIP155Block = Some 0, EIP158Block = Some 0,
     ByzantiumBlock = Some 0, ConstantinopleBlock = Some 0, PetersburgBlock = Some 0, IstanbulBlock = Some 0, MuirGlacierBlock = None,
     BerlinBlock = Some 0, LondonBlock = Some 0, CatalystBlock = None\<rparr>"

definition exLib :: uint256_lib where
  "exLib = \<lparr>u_Add = (+), u_Sub = (-), u_Mul = (*), u_Div = (\<lambda>x y. if y = 0 then 0 else x div y), u_SDiv = (\<lambda>x y. if y = 0 then 0 else word_of_int (sgn (sint x) * sgn (sint y) * (\<bar>sint x\<bar> div \<bar>sint y\<bar>))),
     u_Mod = (\<lambda>x y. if y = 0 then 0 else x mod y), u_SMod = (\<lambda>x y. if y = 0 then 0 else word_of_int (sgn (sint x) * (\<bar>sint x\<bar> mod \<bar>sint y\<bar>))),
     u_Exp = (\<lambda>x y. x ^ unat y), u_ExtendSign = (\<lambda>x b. if b < 31 then word_of_int (signed_take_bit (8 * unat b + 7) (uint x)) else x),
     u_AddMod = (\<lambda>x y z. if z = 0 then 0 else word_of_int ((uint x + uint y) mod uint z)),
     u_MulMod = (\<lambda>x y z. if z = 0 then 0 else word_of_int ((uint x * uint y) mod uint z)),
     u_Not = (\<lambda>x. - x - 1), u_And = and, u_Or = or, u_Xor = xor, u_Lt = (<), u_Gt = (\<lambda>x y. y < x), u_Eq = (=), u_Slt = (\<lambda>x y. sint x < sint y),
     u_Sgt = (\<lambda>x y. sint y < sint x), u_Byte = (\<lambda>x n. if n < 32 then word_of_int (uint x div 256 ^ (31 - unat n) mod 256) else 0),
     u_Lsh = (\<lambda>x n. push_bit n x), u_Rsh = (\<lambda>x n. drop_bit n x), u_SRsh = (\<lambda>x n. word_of_int (sint x div 2 ^ n))\<rparr>"

definition exCtx :: vmctx where
  "exCtx = \<lparr>host = exEvm exWormholes, lib = exLib, 
     precompiles = (\<lambda>a. if a = 6 then Some \<lparr>RequiredGas = (\<lambda>_. 150), Run_precompiled = (\<lambda>_. ([], Some ''malformed point''))\<rparr> else None),
     chainConfig = exConfig, Origin = 9, GasPrice = 1, Coinbase = 5,
     GasLimit = 10000000, Time = 1000, Difficulty = 1, BaseFee = Some 1, GetHash = (\<lambda>_. 0), EnablePreimageRecording = False, capacity = (\<lambda>n. n)\<rparr>"

lemma exCtx_accepted: "CheckConfigForkOrder (chainConfig exCtx) = None"
  by (simp add: exCtx_def exConfig_def CheckConfigForkOrder_def)

lemma accepted: "CheckConfigForkOrder (chainConfig C) = None \<Longrightarrow> forksOrdered (chainRules C)"
  unfolding chainRules_def by (rule accepted_forksOrdered)

text \<open>A call to the precompiled contract fails, and the value it moved is back.\<close>

lemma exCtx_rejects:
  "\<exists>t. Call (evm_at (envRun exCtx 0 False)) 9 6 [] 21000 5 richState = Some (t, [], 0, Some ''malformed point'')"
proof -
  let ?E = "evm_at (envRun exCtx 0 False)" and ?s = "fst (Snapshot richState)"
  have p: "payCall ?E 9 6 [] 21000 5 ?s = Some (Transfer 9 6 5 ?s, [], 21000, None)" by (simp add: payCall_def)
  have r: "runRecipient ?E 9 6 [] 21000 5 (Transfer 9 6 5 ?s) = Some (Transfer 9 6 5 ?s, [], 20850, Some ''malformed point'')"
    by (simp add: runRecipient_def evm_at_def envRun_def exCtx_def RunPrecompiledContract_def)
  obtain t where t: "RevertToSnapshot (snd (Snapshot richState)) (Transfer 9 6 5 ?s) = Some t"
    using acts_framed [OF acts_Transfer] revert_framed [OF _ reach_wf [OF ex_rich(1)]] by blast
  have "CanTransfer 9 5 richState" using ex_rich(2) by (simp add: CanTransfer_def ERB_def)
  moreover have "\<not> NoRecursion ?E" "depth ?E = 0" by (simp_all add: evm_at_def envRun_def exCtx_def exEvm_def)
  ultimately show ?thesis using p r t by (simp add: Call_def case_prod_beta ErrExecutionReverted_def CallCreateDepth_def)
qed

lemma acct_AddAddress: "acct (AddAddressToAccessList b s) = acct s"
  by (simp add: AddAddressToAccessList_def case_prod_beta acct_def [abs_def] getStateObject_def getDeletedStateObject_def journal_append_def
    cong: option.case_cong)

text \<open>A contract with the code given.\<close>

definition exCode :: "string \<Rightarrow> Contract" where
  "exCode c = \<lparr>CallerAddress = 66, self = 77, Code = c, Input = [], callvalue = 0\<rparr>"

text \<open>The interpreter is the loop of the source: \<open>Run\<close> starts the loop on a new machine, and each turn, taken in an environment
  in which calls run \<open>Run\<close> itself, ends the run or goes on with the machine it made. The invariant that no more was paid for the memory than its
  size costs holds at the start and after every turn.\<close>

lemma Run_is_the_loop:
  assumes "CheckConfigForkOrder (chainConfig C) = None"
  shows "Run C d ro K input readonly gas s = (if Code K = [] then Some (s, [], gas, None)
      else runLoop C (d + 1) (ro \<or> readonly) (K\<lparr>Input := input\<rparr>) (newVM gas s)) \<and> mem_ok (newVM gas s)
    \<and> (mem_ok m \<longrightarrow> runLoop C d ro K m = (case step (envRun C d ro) K m of
          None \<Rightarrow> None
        | Some (Done m' ret err) \<Rightarrow> Some (db m', ret, Gas m', err)
        | Some (Next m') \<Rightarrow> runLoop C d ro K m'))
    \<and> (mem_ok m \<longrightarrow> step (envRun C d ro) K m = Some (Next m1) \<longrightarrow> mem_ok m1)"
proof -
  note f = accepted [OF assms]
  have "mem_ok m1" if "mem_ok m" "step (envRun C d ro) K m = Some (Next m1)"
    using step_progresses [OF _ that(1) envRun_sound(1) [OF f] that(2)] f by (simp add: envRun_def progresses_def)
  then show ?thesis using runLoop_step [OF f, of m d ro K] mem_ok_new
    by (auto simp: Run_def runWith_def runLoop_def newVM_def simp del: interp.simps)
qed

section \<open>Properties\<close>

text \<open>C20: Anyone can take any NFT minted by a user. The operation NTRANSFERFROM compares the address it is given as the present holder,
  not the caller, with the approved address of the NFT, and an NFT without an approval has the zero address there. Whoever runs code with the
  operation, in a read-only call as well, becomes the owner, or makes whom they like the owner, for twenty gas.\<close>

theorem any_NFT_can_be_taken:
  assumes "getStateObject (db m) nft = Some ob" and "\<not> IsOfficialNFT nft" and "MergeLevel (NFT (data ob)) = 0" and "to \<noteq> 0"
    and "GetOp (Code K) (pc m) = 0xb8" and "20 \<le> Gas m" and "length (stack m) \<le> 1024"
    and "stack m = SetAddress nft # SetAddress to # SetAddress (NFTApproveAddressList (NFT (data ob))) # rest"
  shows "\<exists>m'. step E K m = Some (Next m') \<and> GetNFTOwner16 nft (db m') = to"
proof -
  have ap: "IsApproved nft (NFTApproveAddressList (NFT (data ob))) (db m)"
    by (simp add: IsApproved_def IsApprovedOne_def IsNFTApproveAddress_def assms(1))
  obtain s' where s': "ChangeNFTOwner nft to 0 (db m) = Some s'" using assms(2) by (simp add: ChangeNFTOwner_def)
  have "NFT (acct (db m) nft) = NFT (data ob)" by (simp add: acct_def assms(1))
  then have "Owner (NFT (acct s' nft)) = to" "MergeLevel (NFT (acct s' nft)) = 0"
    using acct_ChangeNFTOwner_user [OF assms(2) s'] assms(3) by simp_all
  then have "GetNFTOwner16 nft s' = to" using owner_acct [of s' nft] assms(4) by simp
  moreover have "opNTransferFrom E K (m\<lparr>Gas := Gas m - GasExtStep\<rparr>) = Some (m\<lparr>Gas := Gas m - GasExtStep, stack := rest, db := s'\<rparr>, [], None)"
    using assms(8) s' ap by (simp add: opNTransferFrom_def pop_def op_ok_def)
  ultimately show ?thesis
    using step_nft [where E = E and K = K and m = m and f = opNTransferFrom and p = 3 and q = 0] assms(5-8)
    by (simp add: instructionSet_nft GasExtStep_def)
qed



theorem any_NFT_can_be_taken_witness:
  "\<exists>s m'. ChangeNFTOwner 5 9 0 (New Map.empty (\<lambda>_ _. 0) (\<lambda>_. []) (\<lambda>_. 0)) = Some s \<and> GetNFTOwner16 5 s = 9
     \<and> step (envRun exCtx 1 True) (exCode [CHR 0xB8])
         ((newVM 21000 s)\<lparr>stack := [SetAddress 5, SetAddress 66, SetAddress 0]\<rparr>) = Some (Next m') \<and> GetNFTOwner16 5 (db m') = 66"
proof -
  let ?z = "New Map.empty (\<lambda>_ _. 0) (\<lambda>_. []) (\<lambda>_. 0)"
  have no: "\<not> IsOfficialNFT 5" by (simp add: IsOfficialNFT_def Address_Bytes_def)
  obtain s where s: "ChangeNFTOwner 5 9 0 ?z = Some s" using no by (simp add: ChangeNFTOwner_def)
  have z: "acct ?z 5 = zeroAccount (\<lambda>_. 0)" by (simp add: acct_def New_def getStateObject_def getDeletedStateObject_def)
  have n: "NFT (acct s 5) = noNFT\<lparr>Owner := 9, NFTApproveAddressList := 0\<rparr>"
    using acct_ChangeNFTOwner_user [OF no s] by (simp add: z zeroAccount_def noNFT_def)
  then have "acct s 5 \<noteq> zeroAccount (hasher s)" by (auto simp: zeroAccount_def noNFT_def)
  then obtain ob where ob: "getStateObject s 5 = Some ob" "data ob = acct s 5" by (auto simp: acct_def split: option.splits)
  have o: "GetNFTOwner16 5 s = 9" using owner_acct [of s 5] n by (simp add: noNFT_def)
  let ?m = "(newVM 21000 s)\<lparr>stack := [SetAddress 5, SetAddress 66, SetAddress 0]\<rparr>"
  have "\<exists>m'. step (envRun exCtx 1 True) (exCode [CHR 0xB8]) ?m = Some (Next m') \<and> GetNFTOwner16 5 (db m') = 66"
    by (rule any_NFT_can_be_taken [of ?m 5 ob 66 _ "[]"])
      (use no n ob in \<open>simp_all add: newVM_def exCode_def GetOp_def noNFT_def\<close>)
  then show ?thesis using s o by blast
qed

text \<open>C11: Every run of the interpreter ends, within as many turns and nested runs as it has gas: on a chain whose configuration was accepted, with
  more fuel than gas the result is that of \<open>Run\<close>, whatever would be returned where the fuel ends. Every turn that goes on takes gas, and what a call
  brings back never exceeds what was paid for it, the stipend included.\<close>

theorem interpreter_terminates:
  assumes "CheckConfigForkOrder (chainConfig C) = None" and "unat gas < n"
  shows "runWith (interp C stuck n) d ro K input readonly gas s = Run C d ro K input readonly gas s"
  by (rule runWith_interp [OF accepted [OF assms(1)] assms(2)])

theorem interpreter_terminates_witness:
  "let K = exCode [CHR 0x5B, CHR 0x60, CHR 0x00, CHR 0x56] in
   runWith (interp exCtx (Some (richState, ''stuck'', 7, None)) 21001) 0 False K [] False 21000 richState = Run exCtx 0 False K [] False 21000 richState"
  unfolding Let_def by (rule interpreter_terminates [OF exCtx_accepted]) simp

text \<open>C12: No gas is made: on a chain whose configuration was accepted, whatever code, precompiled contracts and NFT transactions do, the gas
  that comes back from \<open>Call\<close>, \<open>CallCode\<close>, \<open>DelegateCall\<close>, \<open>StaticCall\<close>, the creation of a contract and a run of the interpreter is at
  most the gas that went in.\<close>

theorem no_gas_is_made:
  assumes "CheckConfigForkOrder (chainConfig C) = None"
  shows "(Call (evm_at (envRun C d ro)) caller addr input gas v s = Some (s', ret, g, err) \<longrightarrow> g \<le> gas)
    \<and> (CallCode (envRun C d ro) K addr input gas v s = Some (s', ret, g, err) \<longrightarrow> g \<le> gas)
    \<and> (DelegateCall (envRun C d ro) K addr input gas s = Some (s', ret, g, err) \<longrightarrow> g \<le> gas)
    \<and> (StaticCall (envRun C d ro) K addr input gas s = Some (s', ret, g, err) \<longrightarrow> g \<le> gas)
    \<and> (create (envRun C d ro) caller c gas v addr s = Some (s', ret, na, g, err) \<longrightarrow> g \<le> gas)
    \<and> (Run C d ro K input readonly gas s = Some (s', ret, g, err) \<longrightarrow> g \<le> gas)"
proof -
  note f = accepted [OF assms]
  show ?thesis
    by (intro conjI impI; (erule plain_call.gas_left [OF f] code_call_code.gas_left [OF f] delegate_call.gas_left [OF f] static_call.gas_left [OF f]
      | drule spends_create [OF envRun_sound(1) [OF f] lessI] soundRunnerD [OF Run_sound [OF f] lessI], erule conjunct2))
qed

theorem no_gas_is_made_witness:
  "\<exists>s' ret g err. Call (evm_at (envRun exCtx 0 False)) 9 6 [] 21000 5 richState = Some (s', ret, g, err) \<and> g \<le> 21000"
proof -
  obtain t where c: "Call (evm_at (envRun exCtx 0 False)) 9 6 [] 21000 5 richState = Some (t, [], 0, Some ''malformed point'')"
    using exCtx_rejects by blast
  then show ?thesis using no_gas_is_made [OF exCtx_accepted] by blast
qed

text \<open>C8: Code that fails leaves no trace in the accounts. However deep the calls nest and whatever NFT transactions they carry, when \<open>Call\<close>,
  \<open>CallCode\<close>, \<open>DelegateCall\<close> or \<open>StaticCall\<close> returns an error, from a reachable state and on a chain whose configuration was accepted, the balances, nonces,
  code, storage, existence and NFT owners of all accounts, the refund and the logs are those before the call.\<close>

theorem failed_code_changes_no_account:
  assumes "CheckConfigForkOrder (chainConfig C) = None" and "reach s"
    and "Call (evm_at (envRun C d ro)) caller addr input gas v s = Some (s', ret, g, Some e)
      \<or> CallCode (envRun C d ro) K addr input gas v s = Some (s', ret, g, Some e)
      \<or> DelegateCall (envRun C d ro) K addr input gas s = Some (s', ret, g, Some e)
      \<or> StaticCall (envRun C d ro) K addr input gas s = Some (s', ret, g, Some e)"
  shows "GetBalance a s' = GetBalance a s \<and> GetNonce a s' = GetNonce a s \<and> GetCode a s' = GetCode a s \<and> GetState a k s' = GetState a k s
    \<and> Exist a s' = Exist a s \<and> GetNFTOwner16 a s' = GetNFTOwner16 a s \<and> GetRefund s' = GetRefund s \<and> logs s' = logs s"
  using assms(3)
  by (elim disjE) (erule plain_call.failure_unseen [OF accepted [OF assms(1)] assms(2)] code_call_code.failure_unseen [OF accepted [OF assms(1)] assms(2)]
    delegate_call.failure_unseen [OF accepted [OF assms(1)] assms(2)] static_call.failure_unseen [OF accepted [OF assms(1)] assms(2)])+

theorem failed_code_changes_no_account_witness:
  "\<exists>s' ret g e. Call (evm_at (envRun exCtx 0 False)) 9 6 [] 21000 5 richState = Some (s', ret, g, Some e) \<and> GetBalance 9 s' = 200000 * ERB"
proof -
  obtain t where c: "Call (evm_at (envRun exCtx 0 False)) 9 6 [] 21000 5 richState = Some (t, [], 0, Some ''malformed point'')"
    using exCtx_rejects by blast
  from failed_code_changes_no_account [OF exCtx_accepted ex_rich(1) disjI1 [OF c], of 9] have "GetBalance 9 t = 200000 * ERB"
    using ex_rich(2) by simp
  then show ?thesis using c by blast
qed

text \<open>C29: A creation that fails keeps only the nonce. When the creation of a contract, from a reachable state and on a chain whose configuration was
  accepted, returns an error, the state is untouched if the calls nest too deep or the creator cannot pay; in all other cases the nonce of the creator has grown by
  one and, from Berlin on, the new address is in the access list, while the balances and all else that can be observed of the state are those
  before it. The one exception is a chain before Homestead, where running out of gas for storing the code is not undone: there the claim is for
  the other errors.\<close>

theorem failed_creation_keeps_only_the_nonce:
  assumes "CheckConfigForkOrder (chainConfig C) = None" and "reach s"
    and "create (envRun C d ro) caller c gas v address s = Some (s', ret, na, g, Some e)"
    and "IsHomestead (chainRules C) \<or> e \<noteq> ErrCodeStoreOutOfGas"
  shows "core s' = core (if d > CallCreateDepth \<or> \<not> CanTransfer caller v s then s
        else let s1 = SetNonce caller (GetNonce caller s + 1) s in if IsBerlin (chainRules C) then AddAddressToAccessList address s1 else s1)
    \<and> GetBalance a s' = GetBalance a s
    \<and> GetNonce a s' = GetNonce a s + (if a = caller \<and> d \<le> CallCreateDepth \<and> CanTransfer caller v s then 1 else 0)"
proof -
  have c: "core s' = core (if d > CallCreateDepth \<or> \<not> CanTransfer caller v s then s else bumped (chainRules C) caller address s)"
    using creation_undone [OF envRun_sound(1) [OF accepted [OF assms(1)]] lessI assms(2) _ assms(3)] assms(4) by (simp add: envRun_def)
  have b: "GetBalance a (bumped R x b s) = GetBalance a s" "GetNonce a (bumped R x b s) = (if a = x then GetNonce a s + 1 else GetNonce a s)" for R x b a
    by (simp_all add: bumped_def getter_acct acct_AddAddress)
  show ?thesis
    unfolding Let_def bumped_def [symmetric] core_getters(1,2) [OF c, of a] using c by (auto simp: b)
qed

text \<open>A constructor that takes three words off the empty stack.\<close>

lemma ex_create:
  "\<exists>s'. create (envRun exCtx 0 False) 9 [CHR 0xB8] 60000 5 8 richState = Some (s', [], 8, 0, Some (ErrStackUnderflow 0 3))"
proof -
  let ?R = "chainRules exCtx" and ?E = "envRun exCtx 0 False" and ?K = "\<lparr>CallerAddress = 9, self = 8, Code = [CHR 0xB8], Input = [], callvalue = 5\<rparr>"
  let ?s2 = "bumped ?R 9 8 richState" let ?s6 = "endowed ?R 9 8 5 (fst (Snapshot ?s2))"
  have st: "step E ?K (newVM 60000 s) = Some (Done (newVM 60000 s) [] (Some (ErrStackUnderflow 0 3)))" for E s
    by (simp add: step_def newVM_def GetOp_def instructionSet_nft minStack_def nil_op_def)
  have run: "Run exCtx 0 False ?K [] False 60000 ?s6 = Some (?s6, [], 60000, Some (ErrStackUnderflow 0 3))"
    unfolding Run_def runWith_def interp.simps by (simp add: st) (simp add: newVM_def)
  have "acts richState ?s2" "acts (fst (Snapshot ?s2)) ?s6" unfolding bumped_def endowed_def by (rule acts_prepare)+
  then obtain t where t: "RevertToSnapshot (snd (Snapshot ?s2)) ?s6 = Some t"
    using acts_framed revert_framed [OF _ reach_wf [OF acts_reach [OF ex_rich(1)]]] by blast
  have z: "acct ?s2 8 = zeroAccount (\<lambda>_. 0)"
    by (simp add: bumped_def acct_AddAddress richState_def) (simp add: acct_def New_def getStateObject_def getDeletedStateObject_def)
  have n: "GetNonce 8 ?s2 = 0" "GetCodeHash 8 ?s2 = 0"
    using z by (auto simp: getter_acct zeroAccount_def GetCodeHash_def acct_def emptyCodeHash_def split: option.splits)
  have "CanTransfer 9 5 richState" using ex_rich(2) by (simp add: CanTransfer_def ERB_def)
  moreover have "\<not> NoRecursion (host ?E)" "depth_of ?E = 0" "chainRules ?E = ?R" "run_of ?E = Run exCtx" "\<not> readOnly ?E" "IsHomestead ?R"
    by (simp_all add: envRun_def exCtx_def exEvm_def chainRules_def rulesAt_def exConfig_def isForked_def)
  ultimately show ?thesis
    using t run n unfolding create_folded Let_def
    by (simp add: CallCreateDepth_def deploy_def deployError_def ErrStackUnderflow_def ErrExecutionReverted_def)
qed

theorem failed_creation_keeps_only_the_nonce_witness:
  "\<exists>s' ret na g e. create (envRun exCtx 0 False) 9 [CHR 0xB8] 60000 5 8 richState = Some (s', ret, na, g, Some e)
     \<and> GetBalance 9 s' = 200000 * ERB \<and> GetNonce 9 s' = GetNonce 9 richState + 1"
proof -
  obtain s' where c: "create (envRun exCtx 0 False) 9 [CHR 0xB8] 60000 5 8 richState = Some (s', [], 8, 0, Some (ErrStackUnderflow 0 3))"
    using ex_create by blast
  have h: "IsHomestead (chainRules exCtx)" by (simp add: chainRules_def rulesAt_def exCtx_def exConfig_def exEvm_def isForked_def)
  have "CanTransfer 9 5 richState" using ex_rich(2) by (simp add: CanTransfer_def ERB_def)
  then have "GetBalance 9 s' = 200000 * ERB" "GetNonce 9 s' = GetNonce 9 richState + 1"
    using failed_creation_keeps_only_the_nonce [OF exCtx_accepted ex_rich(1) c disjI1 [OF h], of 9] ex_rich(2) by (simp_all add: CallCreateDepth_def)
  then show ?thesis using c by blast
qed

text \<open>C30: Three bytes of code stop a node. NISAPPROVEDFORALL takes two words off the stack but is listed as needing one; run with one word on the
  stack it reads before the start of the stack, a panic that nothing on the way from the block recovers from. Whatever the configuration, the depth and
  the state, code that starts with PUSH1, any byte and NISAPPROVEDFORALL panics, given twenty-three gas.\<close>

theorem three_bytes_panic:
  assumes "Code K = CHR 0x60 # x # CHR 0xBC # rest" and "23 \<le> gas" and "length (Code K) < 2 ^ 63"
  shows "Run C d ro K input readonly gas s = None"
proof -
  let ?K = "K\<lparr>Input := input\<rparr>"
  obtain n where n: "Suc (unat gas) = Suc (Suc n)" using assms(2) by (cases "unat gas") (auto simp: word_le_nat_alt)
  have len: "(0 :: u64) < of_nat (length (Code K))" "(1 :: u64) < of_nat (length (Code K))" "(2 :: u64) < of_nat (length (Code K))"
  proof -
    have "unat (of_nat (length (Code K)) :: u64) = length (Code K)" using assms(3) by (simp add: unat_of_nat)
    moreover have "2 < length (Code K)" by (simp add: assms(1))
    ultimately show "(0 :: u64) < of_nat (length (Code K))" "(1 :: u64) < of_nat (length (Code K))" "(2 :: u64) < of_nat (length (Code K))"
      by (auto simp: word_less_nat_alt)
  qed
  let ?m = "\<lparr>pc = 2, stack = [of_char x], store = [], lastGasCost = 0, Gas = gas - 3, returnData = [], callGasTemp = 0, db = s\<rparr>"
  have one: "step E ?K (newVM gas s) = Some (Next ?m)" for E
    using step_nft [where E = E and K = ?K and m = "newVM gas s" and f = opPush1 and p = 0 and q = 1] assms(1,2) len
    by (simp add: instructionSet_nft GetOp_def newVM_def opPush1_def op_ok_def push_def GasFastestStep_def word_le_nat_alt)
  have two: "step E ?K ?m = None" for E
    using step_nft [where E = E and K = ?K and m = ?m and f = opNIsApprovedForAll and p = 1 and q = 1] assms(1,2) len
    by (simp add: instructionSet_nft GetOp_def opNIsApprovedForAll_def pop_def GasExtStep_def word_le_nat_alt unat_sub)
  show ?thesis unfolding Run_def runWith_def n using assms(1) by (cases n) (simp_all add: one two)
qed

theorem three_bytes_panic_witness:
  "Run exCtx 0 False (exCode [CHR 0x60, CHR 0x00, CHR 0xBC]) [] False 21000 richState = None"
  by (rule three_bytes_panic) (simp_all add: exCode_def)

end
