(* ===== verification/Supply.thy ===== *)
theory Supply
  imports Evm
begin

text \<open>
  The money supply under the NFT transactions: the sum of all balances, pledges and deposits
  after any transaction, in terms of the sum before it.
\<close>

section \<open>Lemmas\<close>

lemma supply_modify:
  assumes "\<And>ob. deleted (f ob) = deleted ob"
    and "\<And>ob. Balance (data (f ob)) = Balance (data ob)" and "\<And>ob. PledgedBalance (data (f ob)) = PledgedBalance (data ob)"
    and "\<And>ob. ExchangerBalance (data (f ob)) = ExchangerBalance (data ob)"
  shows "totalSupply (modify a f s) = totalSupply s"
proof -
  have "wealth (modify a f s) b = wealth s b" for b
    using assms by (auto simp: wealth_def getter_acct acct_def lookup_simps deref_def getStateObject_def split: option.splits)
  then show ?thesis by (simp add: totalSupply_def)
qed

lemma supply_bookkeeping:
  "totalSupply (GetOrNewStateObject a s) = totalSupply s" "totalSupply (journal_append e s) = totalSupply s"
  "totalSupply (fst (Snapshot s)) = totalSupply s" "totalSupply (s\<lparr>SNFTExchangePool := p\<rparr>) = totalSupply s"
  "totalSupply (s\<lparr>ActiveMinersPool := am\<rparr>) = totalSupply s" "totalSupply (s\<lparr>OfficialNFTPool := r\<rparr>) = totalSupply s"
  "totalSupply (s\<lparr>Nominated := n\<rparr>) = totalSupply s"
  by (rule supply_wallet, rule wallet_acct, simp)+

lemma supply_approvals:
  "totalSupply (ChangeApproveAddress a b s) = totalSupply s" "totalSupply (CancelApproveAddress a b s) = totalSupply s"
  "totalSupply (ChangeNFTApproveAddress a b s) = totalSupply s" "totalSupply (CancelNFTApproveAddress a b s) = totalSupply s"
  by (simp_all add: ChangeApproveAddress_def o_ChangeApproveAddress_def CancelApproveAddress_def o_CancelApproveAddress_def
      ChangeNFTApproveAddress_def o_ChangeNFTApproveAddress_def o_SetNFTApproveAddress_def
      CancelNFTApproveAddress_def o_CancelNFTApproveAddress_def supply_bookkeeping supply_modify setter_defs
      setApproveAddress_def removeApproveAddress_def removeNFTApproveAddress_def Let_def)

lemma supply_votes:
  "totalSupply (VoteOfficialNFT n s) = totalSupply s" "InjectOfficialNFT d st k r c s = Some s' \<Longrightarrow> totalSupply s' = totalSupply s"
  "totalSupply (AddOrUpdateActiveMiner a v h s) = totalSupply s"
  by (auto simp: VoteOfficialNFT_def Let_def InjectOfficialNFT_def AddOrUpdateActiveMiner_def supply_bookkeeping bind_Some_iff split: option.splits)

lemma supply_ChangeNFTOwner: "ChangeNFTOwner a w l s = Some s' \<Longrightarrow> totalSupply s' = totalSupply s"
  by (rule supply_wallet [OF keeps_walletD [OF keeps_ChangeNFTOwner]])

lemma supply_Transfer: "totalSupply (Transfer a b v s) = totalSupply s"
  unfolding Transfer_def totalSupply_def by (rule funds.sum_transfer)

lemma supply_CreateAccount_new: "\<not> Exist a s \<Longrightarrow> totalSupply (CreateAccount a s) = totalSupply s"
  by (simp add: supply_CreateAccount GetPledgedBalance_def GetExchangerBalance_def Exist_def)

lemma supply_mint:
  "totalSupply (fst (CreateNFTByUser x w r u s)) = totalSupply s - GetPledgedBalance (mintedNFT s) s - GetExchangerBalance (mintedNFT s) s"
  unfolding totalSupply_def mint_wealth sum_upd by (simp add: wealth_def)

lemma supply_Exchange:
  assumes "ExchangeNFTToCurrency a nft bn level s = Some s'"
  shows "\<exists>l. totalSupply s' = totalSupply s + calculateExchangeAmount l"
proof -
  obtain s1 where s1: "SplitNFT16 nft level s = Some s1"
    and s': "\<exists>p l. s' = o_AddBalance a (calculateExchangeAmount l)
      (o_CleanNFT nft ((GetOrNewStateObject a (GetOrNewStateObject nft s1))\<lparr>SNFTExchangePool := p\<rparr>))"
    using assms by (auto simp: ExchangeNFTToCurrency_def Let_def bind_Some_iff)
  obtain p l where s': "s' = o_AddBalance a (calculateExchangeAmount l)
      (o_CleanNFT nft ((GetOrNewStateObject a (GetOrNewStateObject nft s1))\<lparr>SNFTExchangePool := p\<rparr>))" using s' by blast
  let ?t = "o_CleanNFT nft ((GetOrNewStateObject a (GetOrNewStateObject nft s1))\<lparr>SNFTExchangePool := p\<rparr>)"
  have "getStateObject ((GetOrNewStateObject a (GetOrNewStateObject nft s1))\<lparr>SNFTExchangePool := p\<rparr>) a \<noteq> None"
    using GetOrNew_live by (simp add: lookup_simps)
  then have live: "getStateObject ?t a \<noteq> None" by (rule o_live_at(3))
  have "wallet ?t = wallet s1" unfolding wallet_NFT_setters by (rule wallet_acct) simp
  then have "totalSupply ?t = totalSupply s"
    using supply_wallet keeps_walletD [OF keeps_SplitNFT16 s1] by metis
  moreover have "totalSupply s' = totalSupply ?t + calculateExchangeAmount l"
    using supply_acct [OF acct_o_amounts(1) [OF live]] unfolding s' by (simp add: wealth_def getter_acct)
  ultimately show ?thesis by auto
qed

lemma supply_handlers:
  "handleMint addr w s = Some (s', None) \<Longrightarrow>
     totalSupply s' = totalSupply s - GetPledgedBalance (mintedNFT s) s - GetExchangerBalance (mintedNFT s) s"
  "handleTransferNFT caller addr w s = Some (s', None) \<Longrightarrow> totalSupply s' = totalSupply s"
  "handleApproveNFT caller addr w s = Some (s', None) \<Longrightarrow> totalSupply s' = totalSupply s"
  "handleCancelApproveNFT caller addr w s = Some (s', None) \<Longrightarrow> totalSupply s' = totalSupply s"
  "handleApproveAll caller addr s = Some (s', None) \<Longrightarrow> totalSupply s' = totalSupply s"
  "handleCancelApproveAll caller addr s = Some (s', None) \<Longrightarrow> totalSupply s' = totalSupply s"
  "handleExchange E caller w s = Some (s', None) \<Longrightarrow> \<exists>l. totalSupply s' = totalSupply s + calculateExchangeAmount l"
  "handlePledge caller v s = Some (s', None) \<Longrightarrow> totalSupply s' = totalSupply s"
  "handleCancelPledge caller v s = Some (s', None) \<Longrightarrow> totalSupply s' = totalSupply s"
  "handleOpenExchanger E caller w v s = Some (s', None) \<Longrightarrow> totalSupply s' = totalSupply s - GetExchangerBalance caller s"
  "handleCloseExchanger E caller s = Some (s', None) \<Longrightarrow> totalSupply s' = totalSupply s"
  "handleInject w s = Some (s', None) \<Longrightarrow> totalSupply s' = totalSupply s"
  "handleAddExchangerToken caller v s = Some (s', None) \<Longrightarrow> totalSupply s' = totalSupply s"
  "handleSubExchangerToken caller v s = Some (s', None) \<Longrightarrow> totalSupply s' = totalSupply s"
  "handleLiveness E caller addr v s = Some (s', None) \<Longrightarrow> totalSupply s' = totalSupply s"
  "handleVote caller w s = Some (s', None) \<Longrightarrow> totalSupply s' = totalSupply s"
  "handleVoteApproved E caller addr w v s = Some (s', None) \<Longrightarrow> totalSupply s' = totalSupply s"
proof -
  show "handleTransferNFT caller addr w s = Some (s', None) \<Longrightarrow> totalSupply s' = totalSupply s"
    by (auto simp: handleTransferNFT_def TransferNFT_def handler_ok supply_CreateAccount_new
        split: sum.splits if_splits dest!: supply_ChangeNFTOwner)
  show "handleVoteApproved E caller addr w v s = Some (s', None) \<Longrightarrow> totalSupply s' = totalSupply s"
    by (auto simp: handleVoteApproved_def VoteOfficialNFTByApprovedExchanger_def handler_ok supply_votes split: option.splits sum.splits)
  show "handleCloseExchanger E caller s = Some (s', None) \<Longrightarrow> totalSupply s' = totalSupply s"
    by (auto simp: handleCloseExchanger_def handler_ok bind_Some_iff intro: supply_staking(6))
  show "handleCancelApproveAll caller addr s = Some (s', None) \<Longrightarrow> totalSupply s' = totalSupply s"
    by (auto simp: handleCancelApproveAll_def supply_approvals)
  show "\<exists>l. totalSupply s' = totalSupply s + calculateExchangeAmount l" if ex: "handleExchange E caller w s = Some (s', None)"
  proof -
    obtain e where h: "core_ExchangeNFTToCurrency caller (w_NFTAddress w) (BlockNumber_of E) s = Some (s', e)"
      and "\<exists>x. Some (GetNftAddressAndLevel (w_NFTAddress w)) = Some (Inr x)"
      using ex by (auto simp: handleExchange_def handler_ok)
    then obtain a l where "GetNftAddressAndLevel (w_NFTAddress w) = Inr (a, l)" by auto
    with h have "ExchangeNFTToCurrency caller a (BlockNumber_of E) l s = Some s'"
      by (auto simp: core_ExchangeNFTToCurrency_def handler_def)
    then show ?thesis by (rule supply_Exchange)
  qed
qed (auto simp: handle_defs handler_ok supply_mint supply_approvals supply_staking supply_votes supply_Transfer)

lemma supply_trades:
  assumes "handleTrade h E caller addr w v s = Some (s', None)"
  shows "h \<in> {BuyNFTBySellerOrExchanger, BuyNFTByBuyer, BuyNFTByApproveExchanger, BuyNFTByExchanger} \<Longrightarrow> totalSupply s' = totalSupply s"
    and "h \<in> {BuyAndMintNFTByBuyer, BuyAndMintNFTByExchanger, BuyAndMintNFTByApprovedExchanger} \<Longrightarrow>
      totalSupply s' = totalSupply s - GetPledgedBalance (mintedNFT s) s - GetExchangerBalance (mintedNFT s) s"
proof -
  have h: "h (crypto_of E) (BlockNumber_of E) caller addr w v s = Some (s', None)"
    using assms by (auto simp: handleTrade_def split: if_splits)
  show "totalSupply s' = totalSupply s"
    if m: "h \<in> {BuyNFTBySellerOrExchanger, BuyNFTByBuyer, BuyNFTByApproveExchanger, BuyNFTByExchanger}"
  proof -
    obtain tx where "h = runSale tx" using m by (elim insertE emptyE) (metis runSale.simps)+
    from sale_validated [OF h [unfolded this]] show ?thesis using settleSale_money(2) by metis
  qed
  show "totalSupply s' = totalSupply s - GetPledgedBalance (mintedNFT s) s - GetExchangerBalance (mintedNFT s) s"
    if m: "h \<in> {BuyAndMintNFTByBuyer, BuyAndMintNFTByExchanger, BuyAndMintNFTByApprovedExchanger}"
  proof -
    obtain tx where "h = runMint tx" using m by (elim insertE emptyE) (metis runMint.simps)+
    from mint_validated [OF h [unfolded this]] show ?thesis using settleMint_money(2) by metis
  qed
qed

section \<open>Properties\<close>

text \<open>C25: The money supply, the sum of all balances, pledges and deposits, changes with an NFT transaction
  only where the protocol pays for an official NFT: a successful exchange of type 6 creates the amount of
  some merge level. All other transactions conserve it, with two exceptions that destroy money:
  opening an exchanger (type 11) loses the deposit the account already had, and minting
  (types 0, 16, 17 and 19) loses what is pledged or deposited at the address of the new NFT.\<close>

theorem NFT_transactions_and_supply:
  assumes "HandleNFT E caller addr w gas v s = Some (s', ret, g, None)"
  shows "(w_Type w = 6 \<longrightarrow> (\<exists>l. totalSupply s' = totalSupply s + calculateExchangeAmount l))
    \<and> (w_Type w = 11 \<longrightarrow> totalSupply s' = totalSupply s - GetExchangerBalance caller s)
    \<and> (w_Type w \<in> {0, 16, 17, 19} \<longrightarrow>
         totalSupply s' = totalSupply s - GetPledgedBalance (mintedNFT s) s - GetExchangerBalance (mintedNFT s) s)
    \<and> (w_Type w \<notin> {0, 6, 11, 16, 17, 19} \<longrightarrow> totalSupply s' = totalSupply s)"
  using assms
proof (cases rule: HandleNFT_cases)
  case (trade h)
  then show ?thesis using supply_trades [OF trade(2)] by auto
qed (use supply_handlers in auto)


theorem NFT_transactions_and_supply_witness:
  "\<exists>s'. HandleNFT (exEvm exWormholes) 9 8 (exWormholes\<lparr>w_Type := 9\<rparr>) 21000 (150000 * ERB) richState = Some (s', [], 21000, None)
     \<and> totalSupply s' = totalSupply richState"
proof -
  have "HandleNFT (exEvm exWormholes) 9 8 (exWormholes\<lparr>w_Type := 9\<rparr>) 21000 (150000 * ERB) richState
      = Some (PledgeToken 9 (150000 * ERB) richState, [], 21000, None)"
    using ex_rich(2) by (simp add: HandleNFT_def handlePledge_def handler_def fail_if_def ok_def CanTransfer_def ERB_def)
  then show ?thesis
    using NFT_transactions_and_supply [of "exEvm exWormholes" 9 8 "exWormholes\<lparr>w_Type := 9\<rparr>" 21000 "150000 * ERB" richState] by auto
qed

text \<open>C34: An official NFT can be exchanged for currency again and again. To split a merged NFT the code compares
  the checksummed spelling of the address of the merged NFT with that of the part, letter case included; when the
  spellings differ in their common digits, the split does nothing. An exchange of the part then pays the owner and
  leaves the owner of every NFT, and all that made the exchange possible, as before.\<close>

theorem exchange_pays_again:
  assumes "GetNFTStoreAddress16 nft 0 s = Some (st, w)" and "nodes s st = Some (w, l)" and "level < unat l"
    and "take (42 - unat l) (Address_String (hasher s) st) \<noteq> take (42 - unat l) (Address_String (hasher s) nft)"
    and "nodes s nft = Some (0, 0)" and "nodes s a \<noteq> None"
  shows "\<exists>s'. ExchangeNFTToCurrency a nft bn level s = Some s' \<and> GetBalance a s' = GetBalance a s + 100000000000000000
    \<and> (\<forall>x. GetNFTOwner16 x s' = GetNFTOwner16 x s) \<and> nodes s' = nodes s \<and> hasher s' = hasher s"
proof -
  obtain ob obn where ob: "getStateObject s a = Some ob" "getStateObject s nft = Some obn" "Owner (NFT (data obn)) = 0" "MergeLevel (NFT (data obn)) = 0"
    using assms(5,6) by (auto simp: nodes_def)
  have g: "GetOrNewStateObject a (GetOrNewStateObject nft s) = s" using ob by (simp add: GetOrNewStateObject_def)
  obtain p where e: "ExchangeNFTToCurrency a nft bn level s
      = Some (o_AddBalance a (calculateExchangeAmount 0) (o_CleanNFT nft (s\<lparr>SNFTExchangePool := p\<rparr>)))"
    using SplitNFT16_case_mismatch [OF assms(1-4)] ob
    by (auto simp: ExchangeNFTToCurrency_def Let_def g deref_get)
  let ?s1 = "s\<lparr>SNFTExchangePool := p\<rparr>" and ?s2 = "o_CleanNFT nft (s\<lparr>SNFTExchangePool := p\<rparr>)"
  have l1: "getStateObject ?s1 a \<noteq> None" "getStateObject ?s1 nft \<noteq> None" using ob by (simp_all add: lookup_simps)
  have l2: "getStateObject ?s2 a \<noteq> None" by (rule o_live_at(3) [OF l1(1)])
  have n0: "nodes ?s1 = nodes s" by (simp add: nodes_def lookup_simps fun_eq_iff)
  have n1: "nodes ?s2 = nodes s"
    using nodes_CleanNFT [OF l1(2)] assms(5) by (simp add: n0 fun_upd_idem)
  have n2: "nodes (modify a (setBalance v) (journal_append e ?s2)) = nodes ?s2" for v e
    using l2 live_not_deleted [OF l2] by (auto simp: nodes_def fun_eq_iff lookup_simps setter_defs deref_get split: option.splits)
  have n: "nodes (o_AddBalance a v ?s2) = nodes s" for v
    using n1 n2 by (simp add: touch_dead o_SetBalance_def)
  have b: "GetBalance a (o_AddBalance a v ?s2) = GetBalance a s + v" for v
    using acct_o_amounts(1) [OF l2] acct_o(9) [OF l1(2)] by (simp add: getter_acct)
  have "hasher (o_AddBalance a v ?s2) = hasher s" for v
    by (simp add: touch_dead o_SetBalance_def o_CleanNFT_def)
  moreover have "calculateExchangeAmount 0 = 100000000000000000" by (simp add: calculateExchangeAmount_def)
  ultimately show ?thesis using e n b nodes_owner [OF n] by auto
qed


text \<open>A merged pair of addresses whose spellings differ in the letter case of their second digit.\<close>

definition caseHash :: keccak where
  "caseHash msg = (if last msg = CHR ''3'' then 15 * 256 ^ 31 else 0)"

definition mergedAt :: address where
  "mergedAt = 0x8a00000000000000000000000000000000000000"

definition caseState :: StateDB where
  "caseState = New (\<lambda>b. if clr 1 b = mergedAt then Some (if b = mergedAt then holder 5 1 ''/ipfs/d'' else holder 0 0 [])
     else if b = 5 then Some (zeroAccount caseHash) else None) (\<lambda>_ _. 0) (\<lambda>_. []) caseHash"

lemma Address_String_third:
  "Address_String k a ! 3 =
     (let c = hexdigit (unat a div 16 ^ 38 mod 16)
      in if of_char c > (57 :: nat) \<and> Hash_byte (k (map hexdigit (nibs a))) 0 mod 16 > 7 then char_of (of_char c - (32 :: nat)) else c)"
proof -
  have "Address_hex a = ''0x'' @ map hexdigit (nibs a)" "length (nibs a) = 40" "nibs a ! 1 = unat a div 16 ^ 38 mod 16"
    by (simp_all add: Address_hex_def EncodeToString_Address nibs_def nibble_def)
  then show ?thesis
    by (simp add: Address_String_def checksumHex_def Let_def nth_append)
qed

lemma case_spellings: "take 41 (Address_String caseHash mergedAt) \<noteq> take 41 (Address_String caseHash (mergedAt + 3))"
proof -
  have l: "last (map hexdigit (nibs a)) = hexdigit (unat a mod 16)" for a
    by (simp add: nibs_def last_map last_upt nibble_def)
  have "Address_String caseHash mergedAt ! 3 = CHR ''a''"
    by (simp add: Address_String_third caseHash_def l mergedAt_def hexdigit_def Hash_byte_def char_of_eq_iff Let_def)
  moreover have "Address_String caseHash (mergedAt + 3) ! 3 = CHR ''A''"
    by (simp add: Address_String_third caseHash_def l mergedAt_def hexdigit_def Hash_byte_def char_of_eq_iff Let_def)
  ultimately have "take 41 (Address_String caseHash mergedAt) ! 3 \<noteq> take 41 (Address_String caseHash (mergedAt + 3)) ! 3" by simp
  then show ?thesis by metis
qed

lemma case_state:
  "nodes caseState mergedAt = Some (5, 1)" "nodes caseState (mergedAt + 3) = Some (0, 0)" "nodes caseState 5 \<noteq> None"
  "hasher caseState = caseHash" "GetNFTStoreAddress16 (mergedAt + 3) 0 caseState = Some (mergedAt, 5)" "GetBalance 5 caseState = 0"
proof -
  have c: "clr 1 mergedAt = mergedAt" "clr 1 (mergedAt + 3) = mergedAt" "clr 0 (mergedAt + 3) = mergedAt + 3" "mergedAt + 3 \<noteq> mergedAt" "clr 1 5 \<noteq> mergedAt"
    by (simp_all add: clr_def mergedAt_def)
  show n: "nodes caseState mergedAt = Some (5, 1)" "nodes caseState (mergedAt + 3) = Some (0, 0)" "nodes caseState 5 \<noteq> None"
    "hasher caseState = caseHash"
    using c by (simp_all add: caseState_def nodes_New holder_def noNFT_def) (simp add: New_def)
  have u: "[0..<7] = 0 # 1 # [2..<7]" by (simp add: upt_conv_Cons)
  show "GetNFTStoreAddress16 (mergedAt + 3) 0 caseState = Some (mergedAt, 5)"
    unfolding store_search u using c n by (simp del: upt_rec_numeral)
  show "GetBalance 5 caseState = 0"
    using c(5) by (simp add: caseState_def New_def GetBalance_def getStateObject_def getDeletedStateObject_def newObject_def decodeAccount_def split: option.split)
qed

theorem exchange_pays_again_witness:
  "\<exists>s' s''. ExchangeNFTToCurrency 5 (mergedAt + 3) 10 0 caseState = Some s' \<and> ExchangeNFTToCurrency 5 (mergedAt + 3) 10 0 s' = Some s''
     \<and> GetBalance 5 s'' = 200000000000000000 \<and> GetNFTOwner16 (mergedAt + 3) s'' = GetNFTOwner16 (mergedAt + 3) caseState"
proof -
  have step: "\<exists>s'. ExchangeNFTToCurrency 5 (mergedAt + 3) 10 0 s = Some s' \<and> GetBalance 5 s' = GetBalance 5 s + 100000000000000000
      \<and> (\<forall>x. GetNFTOwner16 x s' = GetNFTOwner16 x s) \<and> nodes s' = nodes s \<and> hasher s' = hasher s"
    if "nodes s = nodes caseState" "hasher s = caseHash" for s
    by (rule exchange_pays_again [where st = mergedAt and w = 5 and l = 1])
      (use that case_state case_spellings in \<open>simp_all add: store_search del: upt_rec_numeral\<close>)
  obtain s' where s': "ExchangeNFTToCurrency 5 (mergedAt + 3) 10 0 caseState = Some s'" "GetBalance 5 s' = 100000000000000000"
    "\<forall>x. GetNFTOwner16 x s' = GetNFTOwner16 x caseState" "nodes s' = nodes caseState" "hasher s' = caseHash"
    using step [of caseState] case_state(4,6) by auto
  then show ?thesis using step [of s'] by auto
qed

end
