(* ===== verification/StateTransition.thy ===== *)
theory StateTransition
  imports Execution Supply
begin

text \<open>
  core/state_transition.go and gaspool.go: a message is checked, buys its gas, runs, gets back what it did not use, and its fee is paid.
\<close>

section \<open>Definitions\<close>

subsection \<open>gaspool.go\<close>

definition AddGas :: "u64 \<Rightarrow> u64 \<Rightarrow> u64 panics" where
  "AddGas amount gp = (if gp > 0xFFFFFFFFFFFFFFFF - amount then None else Some (gp + amount))"

definition SubGas :: "u64 \<Rightarrow> u64 \<Rightarrow> u64 option" where
  "SubGas amount gp = (if gp < amount then None else Some (gp - amount))"

subsection \<open>Messages and errors\<close>

type_synonym accessTuples = "(address \<times> hash list) list"

record Message =
  From :: address
  To :: "address option"
  msg_GasPrice :: int
  GasFeeCap :: "int option"
  GasTipCap :: "int option"
  msg_Gas :: u64
  msg_Value :: int
  msg_Nonce :: u64
  IsFake :: bool
  msg_Data :: string
  AccessTuples :: accessTuples

datatype txError =
    ErrNonceTooHigh address u64 u64
  | ErrNonceTooLow address u64 u64
  | ErrSenderNoEOA address hash
  | ErrFeeCapVeryHigh address nat
  | ErrTipVeryHigh address nat
  | ErrTipAboveFeeCap address int int
  | ErrFeeCapTooLow address int int
  | ErrInsufficientFunds address int int
  | ErrGasLimitReached
  | ErrIntrinsicGasOverflow
  | ErrIntrinsicGas u64 u64
  | ErrInsufficientFundsForTransfer address

record ExecutionResult =
  UsedGas :: u64
  Err :: "string option"
  ReturnData :: string

definition Failed :: "ExecutionResult \<Rightarrow> bool" where
  "Failed r = (Err r \<noteq> None)"

definition Return :: "ExecutionResult \<Rightarrow> string" where
  "Return r = (if Err r \<noteq> None then [] else ReturnData r)"

definition Revert :: "ExecutionResult \<Rightarrow> string" where
  "Revert r = (if Err r \<noteq> Some ErrExecutionReverted then [] else ReturnData r)"

subsection \<open>Intrinsic gas\<close>

definition TxGas :: u64 where "TxGas = 21000"
definition TxGasContractCreation :: u64 where "TxGasContractCreation = 53000"
definition TxDataZeroGas :: u64 where "TxDataZeroGas = 4"
definition TxDataNonZeroGasFrontier :: u64 where "TxDataNonZeroGasFrontier = 68"
definition TxDataNonZeroGasEIP2028 :: u64 where "TxDataNonZeroGasEIP2028 = 16"
definition TxAccessListAddressGas :: u64 where "TxAccessListAddressGas = 2400"
definition TxAccessListStorageKeyGas :: u64 where "TxAccessListStorageKeyGas = 1900"
definition MaxUint64 :: u64 where "MaxUint64 = 0xFFFFFFFFFFFFFFFF"

definition StorageKeys :: "accessTuples \<Rightarrow> nat" where
  "StorageKeys al = sum_list (map (\<lambda>(_, keys). length keys) al)"

text \<open>The gas of the data, on top of that of the transaction.\<close>

definition dataGas :: "string \<Rightarrow> bool \<Rightarrow> u64 \<Rightarrow> u64 option" where
  "dataGas dat isEIP2028 gas =
     (if length dat > 0 then
        let nz = of_nat (length (filter (\<lambda>b. b \<noteq> CHR 0x00) dat));
            nonZeroGas = (if isEIP2028 then TxDataNonZeroGasEIP2028 else TxDataNonZeroGasFrontier)
        in if (MaxUint64 - gas) div nonZeroGas < nz then None
           else let gas1 = gas + nz * nonZeroGas; z = of_nat (length dat) - nz
                in if (MaxUint64 - gas1) div TxDataZeroGas < z then None else Some (gas1 + z * TxDataZeroGas)
      else Some gas)"

definition IntrinsicGas :: "string \<Rightarrow> accessTuples \<Rightarrow> bool \<Rightarrow> bool \<Rightarrow> bool \<Rightarrow> txError + u64" where
  "IntrinsicGas dat al isContractCreation isHomestead isEIP2028 =
     (case dataGas dat isEIP2028 (if isContractCreation \<and> isHomestead then TxGasContractCreation else TxGas) of
        None \<Rightarrow> Inl ErrIntrinsicGasOverflow
      | Some gas \<Rightarrow> Inr (gas + of_nat (length al) * TxAccessListAddressGas + of_nat (StorageKeys al) * TxAccessListStorageKeyGas))"

subsection \<open>Buying gas\<close>

record StateTransition =
  gp :: u64
  st_gas :: u64
  initialGas :: u64
  state :: StateDB

definition NewStateTransition :: "u64 \<Rightarrow> StateDB \<Rightarrow> StateTransition" where
  "NewStateTransition g s = \<lparr>gp = g, st_gas = 0, initialGas = 0, state = s\<rparr>"

definition buyGas :: "Message \<Rightarrow> StateTransition \<Rightarrow> StateTransition \<times> txError option" where
  "buyGas msg st =
     (let mgval = uint (msg_Gas msg) * msg_GasPrice msg;
          balanceCheck = (case GasFeeCap msg of None \<Rightarrow> mgval | Some cap \<Rightarrow> uint (msg_Gas msg) * cap + msg_Value msg);
          have = GetBalance (From msg) (state st)
      in if have < balanceCheck then (st, Some (ErrInsufficientFunds (From msg) have balanceCheck))
         else case SubGas (msg_Gas msg) (gp st) of
           None \<Rightarrow> (st, Some ErrGasLimitReached)
         | Some g \<Rightarrow> (st\<lparr>gp := g, st_gas := st_gas st + msg_Gas msg, initialGas := msg_Gas msg,
             state := SubBalance (From msg) mgval (state st)\<rparr>, None))"

definition bigBitLen :: "int \<Rightarrow> nat" where
  "bigBitLen x = bit_length (nat \<bar>x\<bar>)"

text \<open>The checks of nonce and sender, and those of the fees from London on; a missing fee panics.\<close>

definition senderCheck :: "Message \<Rightarrow> StateDB \<Rightarrow> txError option" where
  "senderCheck msg s =
     (if \<not> IsFake msg then
        let stNonce = GetNonce (From msg) s; codeHash = GetCodeHash (From msg) s
        in if stNonce < msg_Nonce msg then Some (ErrNonceTooHigh (From msg) (msg_Nonce msg) stNonce)
           else if stNonce > msg_Nonce msg then Some (ErrNonceTooLow (From msg) (msg_Nonce msg) stNonce)
           else if codeHash \<noteq> emptyCodeHash (hasher s) \<and> codeHash \<noteq> 0 then Some (ErrSenderNoEOA (From msg) codeHash)
           else None
      else None)"

definition feeCheck :: "bool \<Rightarrow> vmctx \<Rightarrow> Message \<Rightarrow> txError option panics" where
  "feeCheck noBaseFee C msg =
     (if IsLondon (chainRules C) then do {
        cap \<leftarrow> GasFeeCap msg;
        checked \<leftarrow> (if \<not> noBaseFee \<or> bigBitLen cap > 0 then Some True else do { tip \<leftarrow> GasTipCap msg; Some (bigBitLen tip > 0) });
        if \<not> checked then Some None
        else if bigBitLen cap > 256 then Some (Some (ErrFeeCapVeryHigh (From msg) (bigBitLen cap)))
        else do {
          tip \<leftarrow> GasTipCap msg;
          if bigBitLen tip > 256 then Some (Some (ErrTipVeryHigh (From msg) (bigBitLen tip)))
          else if cap < tip then Some (Some (ErrTipAboveFeeCap (From msg) tip cap))
          else do { base \<leftarrow> BaseFee C; Some (if cap < base then Some (ErrFeeCapTooLow (From msg) cap base) else None) } } }
      else Some None)"

definition preCheck :: "bool \<Rightarrow> vmctx \<Rightarrow> Message \<Rightarrow> StateTransition \<Rightarrow> (StateTransition \<times> txError option) panics" where
  "preCheck noBaseFee C msg st =
     (case senderCheck msg (state st) of
        Some e \<Rightarrow> Some (st, Some e)
      | None \<Rightarrow> do { fee \<leftarrow> feeCheck noBaseFee C msg;
                    Some (case fee of Some e \<Rightarrow> (st, Some e) | None \<Rightarrow> buyGas msg st) })"

subsection \<open>The transition\<close>

definition gasUsed :: "StateTransition \<Rightarrow> u64" where
  "gasUsed st = initialGas st - st_gas st"

definition refundGas :: "u64 \<Rightarrow> Message \<Rightarrow> StateTransition \<Rightarrow> StateTransition panics" where
  "refundGas refundQuotient msg st =
     (let refund = min (gasUsed st div refundQuotient) (GetRefund (state st));
          gas = st_gas st + refund
      in do { g \<leftarrow> AddGas gas (gp st);
              Some (st\<lparr>gp := g, st_gas := gas, state := AddBalance (From msg) (uint gas * msg_GasPrice msg) (state st)\<rparr>) })"

definition IsWormholesNFTTx :: "string \<Rightarrow> bool" where
  "IsWormholesNFTTx dat = (length dat > 10 \<and> take 10 dat = ''wormholes:'')"

text \<open>The type of the NFT transaction, or zero when the payload does not decode.\<close>

definition GetWormholesType :: "vmctx \<Rightarrow> string \<Rightarrow> u8" where
  "GetWormholesType C dat =
     (if IsWormholesNFTTx dat then case unmarshal (host C) (drop 10 dat) of Some w \<Rightarrow> w_Type w | None \<Rightarrow> 0 else 0)"

text \<open>Who gets the fee: the coinbase, or the sender for an exchange that succeeded, and for a liveness transaction both.\<close>

definition payFee :: "vmctx \<Rightarrow> Message \<Rightarrow> string option \<Rightarrow> int \<Rightarrow> StateDB \<Rightarrow> StateDB" where
  "payFee C msg vmerr fee s =
     (if IsWormholesNFTTx (msg_Data msg) then
        let txType = GetWormholesType C (msg_Data msg);
            s1 = (if txType = 6 \<and> vmerr = None then AddBalance (From msg) fee s else AddBalance (Coinbase C) fee s)
        in if txType = 30 then AddBalance (From msg) fee s1 else s1
      else AddBalance (Coinbase C) fee s)"

definition ActivePrecompiles :: "Rules \<Rightarrow> address list" where
  "ActivePrecompiles R =
     (if IsBerlin R \<or> IsIstanbul R then [1, 2, 3, 4, 5, 6, 7, 8, 9]
      else if IsByzantium R then [1, 2, 3, 4, 5, 6, 7, 8] else [1, 2, 3, 4])"

text \<open>The run: a creation, or a call after the nonce of the sender was raised.\<close>

definition runMessage :: "vmctx \<Rightarrow> Message \<Rightarrow> u64 \<Rightarrow> StateDB \<Rightarrow> runResult" where
  "runMessage C msg gas s =
     (case To msg of
        None \<Rightarrow> do { (s', ret, _, g, err) \<leftarrow> Create (topEnv C) (From msg) (msg_Data msg) gas (msg_Value msg) s; Some (s', ret, g, err) }
      | Some to \<Rightarrow> Call (evm_at (topEnv C)) (From msg) to (msg_Data msg) gas (msg_Value msg)
          (SetNonce (From msg) (GetNonce (From msg) s + 1) s))"

definition TransitionDb :: "bool \<Rightarrow> vmctx \<Rightarrow> Message \<Rightarrow> StateTransition \<Rightarrow> (StateTransition \<times> (txError + ExecutionResult)) panics" where
  "TransitionDb noBaseFee C msg st =
     do { (st, err) \<leftarrow> preCheck noBaseFee C msg st;
          let R = chainRules C;
          case err of Some e \<Rightarrow> Some (st, Inl e) | None \<Rightarrow>
          case IntrinsicGas (msg_Data msg) (AccessTuples msg) (To msg = None) (IsHomestead R) (IsIstanbul R) of
            Inl e \<Rightarrow> Some (st, Inl e)
          | Inr gas \<Rightarrow>
            if st_gas st < gas then Some (st, Inl (ErrIntrinsicGas (st_gas st) gas))
            else let st = st\<lparr>st_gas := st_gas st - gas\<rparr> in
            if msg_Value msg > 0 \<and> \<not> CanTransfer (From msg) (msg_Value msg) (state st)
            then Some (st, Inl (ErrInsufficientFundsForTransfer (From msg)))
            else do {
              s1 \<leftarrow> (if IsBerlin R then PrepareAccessList (From msg) (To msg) (ActivePrecompiles R) (AccessTuples msg) (state st)
                     else Some (state st));
              (s2, ret, gas, vmerr) \<leftarrow> runMessage C msg (st_gas st) s1;
              st \<leftarrow> refundGas (if \<not> IsLondon R then 2 else 5) msg (st\<lparr>st_gas := gas, state := s2\<rparr>);
              let st = st\<lparr>state := payFee C msg vmerr (uint (gasUsed st) * msg_GasPrice msg) (state st)\<rparr>;
              Some (st, Inr \<lparr>UsedGas = gasUsed st, Err = vmerr, ReturnData = ret\<rparr>) } }"

definition ApplyMessage :: "bool \<Rightarrow> vmctx \<Rightarrow> Message \<Rightarrow> u64 \<Rightarrow> StateDB \<Rightarrow> (StateTransition \<times> (txError + ExecutionResult)) panics" where
  "ApplyMessage noBaseFee C msg g s = TransitionDb noBaseFee C msg (NewStateTransition g s)"

section \<open>Lemmas\<close>

subsection \<open>The access list\<close>

lemma for_each_acts: "(\<And>x s s'. f x s = Some s' \<Longrightarrow> acts s s') \<Longrightarrow> for_each f xs s = Some s' \<Longrightarrow> acts s s'"
proof (induction xs arbitrary: s)
  case (Cons x xs)
  from Cons.prems(2) obtain t where t: "f x s = Some t" "for_each f xs t = Some s'" by (auto simp: bind_Some_iff)
  show ?case by (rule acts_trans [OF Cons.prems(1) [OF t(1)] Cons.IH [OF Cons.prems(1) t(2)]])
qed (simp add: acts_refl)

lemma for_each_keeps: "(\<And>x s s'. f x s = Some s' \<Longrightarrow> g s' = g s) \<Longrightarrow> for_each f xs s = Some s' \<Longrightarrow> g s' = g s"
  by (induction xs arbitrary: s) (auto simp: bind_Some_iff)

lemma acct_AddSlot: "AddSlotToAccessList a k s = Some s' \<Longrightarrow> acct s' = acct s"
  by (auto simp: AddSlotToAccessList_def Let_def bind_Some_iff acct_def fun_eq_iff getStateObject_def getDeletedStateObject_def journal_append_def
    cong: option.case_cong)

lemma acts_fold_AddAddress: "acts s (fold AddAddressToAccessList l s)"
  by (induction l arbitrary: s) (auto simp: acts_refl intro: acts_trans [OF acts_machine(8)])

lemma acct_fold_AddAddress: "acct (fold AddAddressToAccessList l s) = acct s"
  by (induction l arbitrary: s) (simp_all add: acct_AddAddress)

lemma PrepareAccessList_accounts:
  assumes "PrepareAccessList a b pre al s = Some s'"
  shows "acts s s'" "acct s' = acct s"
proof -
  let ?keys = "\<lambda>(a, keys) t. for_each (AddSlotToAccessList a) keys (AddAddressToAccessList a t)"
  let ?s = "fold AddAddressToAccessList (a # (case b of None \<Rightarrow> [] | Some d \<Rightarrow> [d]) @ pre) s"
  have s': "for_each ?keys al ?s = Some s'" using assms by (simp add: PrepareAccessList_def Let_def split: option.splits)
  have keys: "acts t t'" "acct t' = acct t" if "?keys x t = Some t'" for x t t'
  proof -
    obtain a keys where x: "x = (a, keys)" by (cases x)
    have k: "for_each (AddSlotToAccessList a) keys (AddAddressToAccessList a t) = Some t'" using that by (simp add: x)
    show "acts t t'" by (rule acts_trans [OF acts_machine(8) for_each_acts [OF acts_machine(10) k]])
    show "acct t' = acct t" using for_each_keeps [where g = acct, OF acct_AddSlot k] by (simp add: acct_AddAddress)
  qed
  show "acts s s'" by (rule acts_trans [OF acts_fold_AddAddress for_each_acts [OF keys(1) s']])
  show "acct s' = acct s" using for_each_keeps [where g = acct, OF keys(2) s'] by (simp only: acct_fold_AddAddress)
qed

subsection \<open>What a message that was not rejected went through\<close>

lemma envRun_top: "envRun C 0 False = topEnv C"
  by (simp add: envRun_def topEnv_def)

lemma buyGas_ok:
  assumes "buyGas msg st = (st', None)"
  shows "msg_Gas msg \<le> gp st"
    "st' = st\<lparr>gp := gp st - msg_Gas msg, st_gas := st_gas st + msg_Gas msg, initialGas := msg_Gas msg,
       state := SubBalance (From msg) (uint (msg_Gas msg) * msg_GasPrice msg) (state st)\<rparr>"
  using assms by (auto simp: buyGas_def Let_def SubGas_def split: if_splits)

lemma preCheck_ok: "preCheck nb C msg st = Some (st', None) \<Longrightarrow> buyGas msg st = (st', None)"
  by (auto simp: preCheck_def bind_Some_iff split: option.splits)

text \<open>The state the run starts from: from Berlin on the access list is filled.\<close>

definition prepared :: "vmctx \<Rightarrow> Message \<Rightarrow> StateDB \<Rightarrow> StateDB panics" where
  "prepared C msg s = (if IsBerlin (chainRules C) then PrepareAccessList (From msg) (To msg) (ActivePrecompiles (chainRules C)) (AccessTuples msg) s
     else Some s)"

lemma ApplyMessage_ran:
  assumes "ApplyMessage nb C msg g s = Some (st, Inr r)"
  obtains i s1 s2 gas st' where
    "IntrinsicGas (msg_Data msg) (AccessTuples msg) (To msg = None) (IsHomestead (chainRules C)) (IsIstanbul (chainRules C)) = Inr i"
    "i \<le> msg_Gas msg" "msg_Gas msg \<le> g" "acts s s1" "acct s1 = acct (SubBalance (From msg) (uint (msg_Gas msg) * msg_GasPrice msg) s)"
    "runMessage C msg (msg_Gas msg - i) s1 = Some (s2, ReturnData r, gas, Err r)"
    "refundGas (if \<not> IsLondon (chainRules C) then 2 else 5) msg
       \<lparr>gp = g - msg_Gas msg, st_gas = gas, initialGas = msg_Gas msg, state = s2\<rparr> = Some st'"
    "UsedGas r = gasUsed st'" "st = st'\<lparr>state := payFee C msg (Err r) (uint (UsedGas r) * msg_GasPrice msg) (state st')\<rparr>"
    "prepared C msg (SubBalance (From msg) (uint (msg_Gas msg) * msg_GasPrice msg) s) = Some s1"
proof -
  let ?b = "\<lparr>gp = g - msg_Gas msg, st_gas = msg_Gas msg, initialGas = msg_Gas msg,
    state = SubBalance (From msg) (uint (msg_Gas msg) * msg_GasPrice msg) s\<rparr>"
  obtain t err where t: "preCheck nb C msg (NewStateTransition g s) = Some (t, err)"
    using assms by (auto simp: ApplyMessage_def TransitionDb_def bind_Some_iff)
  have err: "err = None" using assms t by (cases err) (auto simp: ApplyMessage_def TransitionDb_def)
  have b: "msg_Gas msg \<le> g" "t = ?b"
    using buyGas_ok [OF preCheck_ok [OF t [unfolded err]]] by (simp_all add: NewStateTransition_def)
  obtain i where i: "IntrinsicGas (msg_Data msg) (AccessTuples msg) (To msg = None) (IsHomestead (chainRules C)) (IsIstanbul (chainRules C)) = Inr i"
    "i \<le> msg_Gas msg"
    using assms t err b(2) by (auto simp: ApplyMessage_def TransitionDb_def Let_def split: sum.splits if_splits)
  obtain s1 s2 ret gas vmerr st' where
    s1: "(if IsBerlin (chainRules C) then PrepareAccessList (From msg) (To msg) (ActivePrecompiles (chainRules C)) (AccessTuples msg) (state ?b)
      else Some (state ?b)) = Some s1" and run: "runMessage C msg (msg_Gas msg - i) s1 = Some (s2, ret, gas, vmerr)"
    and st': "refundGas (if \<not> IsLondon (chainRules C) then 2 else 5) msg
       \<lparr>gp = g - msg_Gas msg, st_gas = gas, initialGas = msg_Gas msg, state = s2\<rparr> = Some st'"
    and st: "st = st'\<lparr>state := payFee C msg vmerr (uint (gasUsed st') * msg_GasPrice msg) (state st')\<rparr>"
    and r: "r = \<lparr>UsedGas = gasUsed st, Err = vmerr, ReturnData = ret\<rparr>"
    using assms t err b(2) i by (auto simp: ApplyMessage_def TransitionDb_def bind_Some_iff Let_def split: if_splits)
  have u: "UsedGas r = gasUsed st'" "ReturnData r = ret" "Err r = vmerr" using r st by (simp_all add: gasUsed_def)
  have a: "acts s s1" "acct s1 = acct (SubBalance (From msg) (uint (msg_Gas msg) * msg_GasPrice msg) s)"
    using s1 acts_trans [OF acts_steps(3) PrepareAccessList_accounts(1)] PrepareAccessList_accounts(2) acts_steps(3) by (auto split: if_splits)
  have "prepared C msg (SubBalance (From msg) (uint (msg_Gas msg) * msg_GasPrice msg) s) = Some s1"
    using s1 unfolding prepared_def StateTransition.select_convs .
  then show ?thesis using that [OF i b(1) a run [folded u(2,3)] st' u(1)] st u by simp
qed

lemma runMessage_spends:
  assumes "forksOrdered (chainRules C)" and "runMessage C msg gas s = Some (s', ret, gas', err)"
  shows "acts s s' \<and> gas' \<le> gas"
proof (cases "To msg")
  case None
  then show ?thesis using assms(2) spends_create [OF envRun_sound(1) [OF assms(1), of _ 0 False] lessI, unfolded envRun_top]
    by (auto simp: runMessage_def Create_def bind_Some_iff)
next
  case (Some to)
  let ?s = "SetNonce (From msg) (GetNonce (From msg) s + 1) s"
  have "acts ?s s' \<and> gas' \<le> gas"
    using assms(2) Some spends_Call [OF envRun_sound(1) [OF assms(1), of _ 0 False] lessI, unfolded envRun_top spends_def]
    by (simp add: runMessage_def) blast
  then show ?thesis using acts_trans [OF acts_machine(6)] by blast
qed

text \<open>The refund: at most a half of what was used comes back, and the block gets back what the message did not use.\<close>

lemma refundGas_spec:
  assumes "gas \<le> L - i" and "i \<le> L" and "L \<le> G" and "q = 2 \<or> q = 5"
  obtains st' where "refundGas q msg \<lparr>gp = G - L, st_gas = gas, initialGas = L, state = s\<rparr> = Some st'"
    "gasUsed st' \<le> L" "unat (gp st') + unat (gasUsed st') = unat G" "unat i \<le> 2 * unat (gasUsed st')"
    "state st' = AddBalance (From msg) (uint (L - gasUsed st') * msg_GasPrice msg) s"
proof -
  let ?refund = "min ((L - gas) div q) (GetRefund s)"
  have le: "unat gas + unat i \<le> unat L" "gas \<le> L"
    using assms(1,2) unat_sub [OF assms(2)] by (auto simp: word_le_nat_alt)
  define u where "u = unat L - unat gas"
  have u: "unat (L - gas) = u" "unat i \<le> u" "unat gas + u = unat L" using le unat_sub [OF le(2)] by (auto simp: u_def)
  have q: "unat ((L - gas) div q) \<le> u div 2" using assms(4) u(1) by (auto simp: unat_div intro: div_le_mono2)
  then have r: "unat ?refund \<le> u div 2" by (auto simp: min_def word_le_nat_alt)
  have g: "unat (gas + ?refund) = unat gas + unat ?refund"
    using r u(3) unsigned_less [of L, where ?'a = nat] by (intro unat_add_lem [THEN iffD1]) simp
  have "gas + ?refund \<le> L" using g r u(3) by (simp add: word_le_nat_alt)
  from unat_sub [OF this] have used: "unat (L - (gas + ?refund)) = u - unat ?refund" using g u(3) by simp
  have b: "unat (gas + ?refund) \<le> unat L" "unat L \<le> unat G" using g r u(3) assms(3) by (simp_all add: word_le_nat_alt)
  have m: "unat (0xFFFFFFFFFFFFFFFF - x) = 2 ^ 64 - 1 - unat x" for x :: u64
    using unat_sub [of x "0xFFFFFFFFFFFFFFFF"] by (simp add: word_le_nat_alt) (use unsigned_less [of x, where ?'a = nat] in simp)
  have room: "\<not> G - L > 0xFFFFFFFFFFFFFFFF - (gas + ?refund)"
    using b unat_sub [OF assms(3)] unsigned_less [of G, where ?'a = nat] by (simp add: word_less_nat_alt m)
  have gp: "unat (G - L + (gas + ?refund)) = unat G - unat L + (unat gas + unat ?refund)"
    using g b unat_sub [OF assms(3)] unsigned_less [of G, where ?'a = nat] by (subst unat_add_lem [THEN iffD1]) simp_all
  let ?st = "\<lparr>gp = G - L + (gas + ?refund), st_gas = gas + ?refund, initialGas = L,
    state = AddBalance (From msg) (uint (gas + ?refund) * msg_GasPrice msg) s\<rparr>"
  show ?thesis
  proof (rule that [of ?st])
    show "refundGas q msg \<lparr>gp = G - L, st_gas = gas, initialGas = L, state = s\<rparr> = Some ?st"
      using room by (simp add: refundGas_def Let_def gasUsed_def AddGas_def)
    show "gasUsed ?st \<le> L" using used u(3) by (simp add: gasUsed_def word_le_nat_alt)
    show "unat (gp ?st) + unat (gasUsed ?st) = unat G"
      using le_trans [OF r div_le_dividend] u(3) b unfolding gasUsed_def by (simp only: StateTransition.select_convs gp used)
    show "unat i \<le> 2 * unat (gasUsed ?st)" using used r u(2) by (simp add: gasUsed_def)
    show "state ?st = AddBalance (From msg) (uint (L - gasUsed ?st) * msg_GasPrice msg) s" by (simp add: gasUsed_def)
  qed
qed

subsection \<open>Accounts and supply\<close>

lemma supply_balance: "totalSupply (AddBalance a v s) = totalSupply s + v" "totalSupply (SubBalance a v s) = totalSupply s - v"
  using supply_acct [OF acct_methods(1)] supply_acct [OF acct_methods(2)] by (simp_all add: wealth_def getter_acct)

lemma supply_nonce: "totalSupply (SetNonce a n s) = totalSupply s"
  using supply_acct [OF acct_methods(4)] by (simp add: wealth_def getter_acct)

lemma supply_accounts: "acct s' = acct s \<Longrightarrow> totalSupply s' = totalSupply s"
  by (rule supply_wallet [OF wallet_acct]) simp

definition isLiveness :: "vmctx \<Rightarrow> Message \<Rightarrow> bool" where
  "isLiveness C msg = (IsWormholesNFTTx (msg_Data msg) \<and> GetWormholesType C (msg_Data msg) = 30)"

text \<open>The account the fee goes to.\<close>

definition payee :: "vmctx \<Rightarrow> Message \<Rightarrow> string option \<Rightarrow> address" where
  "payee C msg vmerr = (if IsWormholesNFTTx (msg_Data msg) \<and> GetWormholesType C (msg_Data msg) = 6 \<and> vmerr = None then From msg else Coinbase C)"

lemma payFee_eq:
  "payFee C msg vmerr fee s = (if isLiveness C msg then AddBalance (From msg) fee else id) (AddBalance (payee C msg vmerr) fee s)"
  by (simp add: payFee_def isLiveness_def payee_def Let_def)

definition earned :: "vmctx \<Rightarrow> Message \<Rightarrow> string option \<Rightarrow> int \<Rightarrow> address \<Rightarrow> int" where
  "earned C msg vmerr fee a = (if a = payee C msg vmerr then fee else 0) + (if isLiveness C msg \<and> a = From msg then fee else 0)"

lemma payFee_balance:
  "GetBalance a (payFee C msg vmerr fee s) = GetBalance a s + earned C msg vmerr fee a"
  "totalSupply (payFee C msg vmerr fee s) = totalSupply s + (if isLiveness C msg then 2 * fee else fee)"
  by (simp_all add: payFee_eq getter_acct supply_balance earned_def)

lemma ApplyMessage_settles:
  assumes "forksOrdered (chainRules C)" and "ApplyMessage nb C msg g s = Some (st, Inr r)"
  obtains i s1 s2 gas where
    "IntrinsicGas (msg_Data msg) (AccessTuples msg) (To msg = None) (IsHomestead (chainRules C)) (IsIstanbul (chainRules C)) = Inr i"
    "i \<le> msg_Gas msg" "acts s s1" "acct s1 = acct (SubBalance (From msg) (uint (msg_Gas msg) * msg_GasPrice msg) s)"
    "runMessage C msg (msg_Gas msg - i) s1 = Some (s2, ReturnData r, gas, Err r)"
    "UsedGas r \<le> msg_Gas msg" "unat (gp st) + unat (UsedGas r) = unat g" "unat i \<le> 2 * unat (UsedGas r)"
    "state st = payFee C msg (Err r) (uint (UsedGas r) * msg_GasPrice msg)
       (AddBalance (From msg) (uint (msg_Gas msg - UsedGas r) * msg_GasPrice msg) s2)"
    "prepared C msg (SubBalance (From msg) (uint (msg_Gas msg) * msg_GasPrice msg) s) = Some s1"
    "UsedGas r = msg_Gas msg - gas - min ((msg_Gas msg - gas) div (if \<not> IsLondon (chainRules C) then 2 else 5)) (GetRefund s2)"
  using assms(2)
proof (cases rule: ApplyMessage_ran)
  case (1 i s1 s2 gas st')
  have "gas \<le> msg_Gas msg - i" using runMessage_spends [OF assms(1) 1(6)] by simp
  from refundGas_spec [OF this 1(2,3), of "if \<not> IsLondon (chainRules C) then 2 else 5" msg s2] 1(7)
  have "gasUsed st' \<le> msg_Gas msg" "unat (gp st') + unat (gasUsed st') = unat g" "unat i \<le> 2 * unat (gasUsed st')"
    "state st' = AddBalance (From msg) (uint (msg_Gas msg - gasUsed st') * msg_GasPrice msg) s2"
    by (metis option.inject)+
  moreover have "gasUsed st' = msg_Gas msg - gas - min ((msg_Gas msg - gas) div (if \<not> IsLondon (chainRules C) then 2 else 5)) (GetRefund s2)"
    using 1(7) by (auto simp: refundGas_def Let_def bind_Some_iff gasUsed_def)
  ultimately show ?thesis using that [OF 1(1,2,4,5,6)] 1(8-10) by simp
qed

text \<open>A call that failed leaves the accounts as they were, but for the nonce the message raised.\<close>

lemma failed_run:
  assumes "forksOrdered (chainRules C)" and "reach s" and "To msg = Some to" and "runMessage C msg gas s = Some (s', ret, gas', Some e)"
  shows "core s' = core (SetNonce (From msg) (GetNonce (From msg) s + 1) s)"
proof -
  let ?s = "SetNonce (From msg) (GetNonce (From msg) s + 1) s"
  have "reach ?s" by (rule acts_reach [OF assms(2) acts_machine(6)])
  moreover have "Call (evm_at (envRun C 0 False)) (From msg) to (msg_Data msg) gas (msg_Value msg) ?s = Some (s', ret, gas', Some e)"
    using assms(3,4) by (simp add: runMessage_def envRun_top)
  ultimately show ?thesis using failed_call_core reach_wf envRun_sound(2) [OF assms(1)] by blast
qed

lemma core_supply: "core s' = core s \<Longrightarrow> totalSupply s' = totalSupply s"
  unfolding totalSupply_def by (rule sum.cong [OF refl]) (rule core_wealth)

lemma fees_add_up: "u \<le> L \<Longrightarrow> uint (L - u) * p + uint u * p = uint L * (p :: int)" for L :: u64
  using uint_minus_simple_alt [of u L] by (simp add: word_le_def distrib_right [symmetric])

section \<open>Example\<close>

text \<open>A call of the precompiled contract that rejects its input.\<close>

definition exMsg :: Message where
  "exMsg = \<lparr>From = 9, To = Some 6, msg_GasPrice = 2, GasFeeCap = Some 3, GasTipCap = Some 1, msg_Gas = 50000, msg_Value = 5, msg_Nonce = 0,
     IsFake = False, msg_Data = [], AccessTuples = []\<rparr>"

lemma rejects_at:
  assumes "reach s" and "CanTransfer 9 5 s" and "150 \<le> gas"
  shows "\<exists>t. Call (evm_at (topEnv exCtx)) 9 6 [] gas 5 s = Some (t, [], 0, Some ''malformed point'')"
proof -
  let ?E = "evm_at (topEnv exCtx)" and ?s = "fst (Snapshot s)"
  have p: "payCall ?E 9 6 [] gas 5 ?s = Some (Transfer 9 6 5 ?s, [], gas, None)" by (simp add: payCall_def)
  have r: "runRecipient ?E 9 6 [] gas 5 (Transfer 9 6 5 ?s) = Some (Transfer 9 6 5 ?s, [], gas - 150, Some ''malformed point'')"
    using assms(3) leD [OF assms(3)] by (simp add: runRecipient_def evm_at_def topEnv_def exCtx_def RunPrecompiledContract_def)
  obtain t where t: "RevertToSnapshot (snd (Snapshot s)) (Transfer 9 6 5 ?s) = Some t"
    using acts_framed [OF acts_Transfer] revert_framed [OF _ reach_wf [OF assms(1)]] by blast
  have "\<not> NoRecursion ?E" "depth ?E = 0" by (simp_all add: evm_at_def topEnv_def exCtx_def exEvm_def)
  then show ?thesis using p r t assms(2) by (simp add: Call_def case_prod_beta ErrExecutionReverted_def CallCreateDepth_def)
qed

lemma exCtx_rules: "IsBerlin (chainRules exCtx)" "IsLondon (chainRules exCtx)" "IsHomestead (chainRules exCtx)" "IsIstanbul (chainRules exCtx)"
  by (simp_all add: chainRules_def rulesAt_def exCtx_def exConfig_def exEvm_def isForked_def)

lemma exMsg_bought:
  assumes "msg_Gas msg \<le> 50000" and "msg = exMsg\<lparr>msg_Gas := msg_Gas msg\<rparr>"
  shows "preCheck False exCtx msg (NewStateTransition 1000000 richState)
      = Some (\<lparr>gp = 1000000 - msg_Gas msg, st_gas = msg_Gas msg, initialGas = msg_Gas msg,
          state = SubBalance 9 (uint (msg_Gas msg) * 2) richState\<rparr>, None)"
proof -
  have f: "From msg = 9" "msg_Nonce msg = 0" "GasFeeCap msg = Some 3" "GasTipCap msg = Some 1" "msg_GasPrice msg = 2" "msg_Value msg = 5"
    by (subst assms(2), simp add: exMsg_def)+
  have "GetNonce 9 richState = 0" "GetCodeHash 9 richState = 0" by code_simp+
  then have s: "senderCheck msg richState = None" by (simp add: senderCheck_def f)
  have "bigBitLen 3 = 2" "bigBitLen 1 = 1" by code_simp+
  then have fee: "feeCheck False exCtx msg = Some None" by (simp add: feeCheck_def f exCtx_rules) (simp add: exCtx_def)
  have "uint (msg_Gas msg) \<le> 50000" using assms(1) by (simp add: word_le_def)
  moreover have "\<not> 1000000 < msg_Gas msg" using assms(1) by (simp add: not_less word_le_nat_alt)
  ultimately have b: "buyGas msg (NewStateTransition 1000000 richState) = (\<lparr>gp = 1000000 - msg_Gas msg, st_gas = msg_Gas msg, initialGas = msg_Gas msg,
      state = SubBalance 9 (uint (msg_Gas msg) * 2) richState\<rparr>, None)"
    using ex_rich(2) by (auto simp: buyGas_def f NewStateTransition_def SubGas_def ERB_def)
  show ?thesis using s fee b by (simp add: preCheck_def) (simp add: NewStateTransition_def)
qed

lemma exMsg_runs:
  "\<exists>st r. ApplyMessage False exCtx exMsg 1000000 richState = Some (st, Inr r) \<and> Err r = Some ''malformed point''"
proof -
  let ?b = "SubBalance 9 100000 richState"
  have pre: "preCheck False exCtx exMsg (NewStateTransition 1000000 richState)
      = Some (\<lparr>gp = 950000, st_gas = 50000, initialGas = 50000, state = ?b\<rparr>, None)"
    using exMsg_bought [of exMsg] by (simp add: exMsg_def)
  have ig: "IntrinsicGas [] [] False True True = Inr 21000" by (simp add: IntrinsicGas_def dataGas_def TxGas_def StorageKeys_def)
  have ct: "CanTransfer 9 5 ?b" using ex_rich(2) by (simp add: CanTransfer_def getter_acct ERB_def)
  obtain s1 where s1: "PrepareAccessList 9 (Some 6) (ActivePrecompiles (chainRules exCtx)) [] ?b = Some s1" by (simp add: PrepareAccessList_def)
  note a = PrepareAccessList_accounts [OF s1]
  let ?n = "SetNonce 9 (GetNonce 9 s1 + 1) s1"
  have "reach ?n" by (rule acts_reach [OF ex_rich(1) acts_trans [OF acts_trans [OF acts_steps(3) a(1)] acts_machine(6)]])
  moreover have "CanTransfer 9 5 ?n" using ct by (simp add: CanTransfer_def getter_acct a(2))
  ultimately obtain s2 where "Call (evm_at (topEnv exCtx)) 9 6 [] 29000 5 ?n = Some (s2, [], 0, Some ''malformed point'')"
    using rejects_at by fastforce
  then have run: "runMessage exCtx exMsg 29000 s1 = Some (s2, [], 0, Some ''malformed point'')" by (simp add: runMessage_def exMsg_def)
  obtain st' where "refundGas 5 exMsg \<lparr>gp = 1000000 - 50000, st_gas = 0, initialGas = 50000, state = s2\<rparr> = Some st'"
    by (rule refundGas_spec [of 0 50000 21000 1000000 5]) simp_all
  then show ?thesis using pre ig ct s1 run
    by (simp add: ApplyMessage_def TransitionDb_def exCtx_rules) (simp add: exMsg_def Let_def exCtx_rules)
qed

section \<open>Properties\<close>

text \<open>C14: The gas of a message adds up. On a chain whose configuration was accepted, a message that is not rejected uses at most the gas it bought
  and, after all refunds, at least half of its intrinsic gas, and the gas pool of the block ends with what it had less what the message used.\<close>

theorem message_gas_adds_up:
  assumes "CheckConfigForkOrder (chainConfig C) = None" and "ApplyMessage nb C msg g s = Some (st, Inr r)"
  shows "UsedGas r \<le> msg_Gas msg \<and> unat (gp st) + unat (UsedGas r) = unat g
    \<and> (\<exists>i. IntrinsicGas (msg_Data msg) (AccessTuples msg) (To msg = None) (IsHomestead (chainRules C)) (IsIstanbul (chainRules C)) = Inr i
        \<and> i \<le> msg_Gas msg \<and> unat i \<le> 2 * unat (UsedGas r))"
  using ApplyMessage_settles [OF accepted [OF assms(1)] assms(2)] by metis

theorem message_gas_adds_up_witness:
  "\<exists>st r. ApplyMessage False exCtx exMsg 1000000 richState = Some (st, Inr r) \<and> UsedGas r \<le> 50000 \<and> unat (gp st) + unat (UsedGas r) = 1000000"
proof -
  obtain st r where "ApplyMessage False exCtx exMsg 1000000 richState = Some (st, Inr r)" using exMsg_runs by blast
  then show ?thesis using message_gas_adds_up [OF exCtx_accepted, of False exMsg 1000000 richState st r] by (simp add: exMsg_def)
qed

text \<open>C13: A failed transaction pays its fee and does nothing else. When the call a message makes fails, from a reachable state and on a chain whose
  configuration was accepted, the sender has paid the gas used at the gas price, the coinbase has received it, the nonce of the sender is one
  higher, every other balance and nonce is what it was, and so is the supply of coins. Only a liveness transaction differs: the fee is
  paid to the coinbase and to the sender, so that the sender pays nothing and the supply of coins grows by the fee.\<close>

theorem failed_message_pays_its_fee:
  assumes "CheckConfigForkOrder (chainConfig C) = None" and "reach s" and "To msg = Some to"
    and "ApplyMessage nb C msg g s = Some (st, Inr r)" and "Err r = Some e"
  shows "let fee = uint (UsedGas r) * msg_GasPrice msg in
      GetBalance a (state st) = GetBalance a s - (if a = From msg \<and> \<not> isLiveness C msg then fee else 0) + (if a = Coinbase C then fee else 0)
    \<and> GetNonce a (state st) = (if a = From msg then GetNonce a s + 1 else GetNonce a s)
    \<and> totalSupply (state st) = totalSupply s + (if isLiveness C msg then fee else 0)"
  using ApplyMessage_settles [OF accepted [OF assms(1)] assms(4)]
proof cases
  case (1 i s1 s2 gas)
  let ?n = "SetNonce (From msg) (GetNonce (From msg) s1 + 1) s1"
  have c: "core s2 = core ?n"
    using failed_run [OF accepted [OF assms(1)] acts_reach [OF assms(2) 1(3)] assms(3)] 1(5) assms(5) by simp
  have p: "payee C msg (Err r) = Coinbase C" by (simp add: payee_def assms(5))
  let ?fee = "uint (UsedGas r) * msg_GasPrice msg"
  note f = fees_add_up [OF 1(6), of "msg_GasPrice msg"]
  have "GetBalance a (state st) = GetBalance a s - (if a = From msg \<and> \<not> isLiveness C msg then ?fee else 0) + (if a = Coinbase C then ?fee else 0)"
    unfolding 1(9) payFee_balance earned_def p using f core_getters(1) [OF c, of a] by (auto simp: 1(4) getter_acct)
  moreover have "GetNonce a (state st) = (if a = From msg then GetNonce a s + 1 else GetNonce a s)"
    unfolding 1(9) payFee_eq using core_getters(2) [OF c, of a] by (auto simp: 1(4) getter_acct)
  moreover have "totalSupply (state st) = totalSupply s + (if isLiveness C msg then ?fee else 0)"
    unfolding 1(9) payFee_balance supply_balance
    using f core_supply [OF c] supply_accounts [OF 1(4)] supply_nonce [of "From msg" "GetNonce (From msg) s1 + 1" s1]
    by (auto simp: supply_balance mult.commute)
  ultimately show ?thesis by (simp add: Let_def)
qed

theorem failed_message_pays_its_fee_witness:
  "\<exists>st r. ApplyMessage False exCtx exMsg 1000000 richState = Some (st, Inr r) \<and> Err r = Some ''malformed point''
     \<and> GetBalance 9 (state st) = 200000 * ERB - uint (UsedGas r) * 2 \<and> totalSupply (state st) = totalSupply richState"
proof -
  obtain st r where r: "ApplyMessage False exCtx exMsg 1000000 richState = Some (st, Inr r)" "Err r = Some ''malformed point''" using exMsg_runs by blast
  have "To exMsg = Some 6" "From exMsg = 9" "\<not> isLiveness exCtx exMsg" "Coinbase exCtx = 5" "msg_GasPrice exMsg = 2"
    by (simp_all add: exMsg_def isLiveness_def IsWormholesNFTTx_def exCtx_def)
  then show ?thesis using r ex_rich(2) failed_message_pays_its_fee [OF exCtx_accepted ex_rich(1) _ r, of 6 9] by (simp add: Let_def)
qed

text \<open>C27: What happens to the coins around the run. Whatever the message, on a chain whose configuration was accepted: one run of it, with the gas that is
  left after the intrinsic gas, starts from the state with the price of all the gas taken from the sender and no other balance changed (and, from Berlin on,
  the access list filled). The gas used is what the run took, with the intrinsic gas, less the refund: at most half of it, or a fifth from London on.
  Afterwards, for every account at once, the sender gets back the price of the unused gas, and the fee goes to the coinbase, or to the sender
  when an exchange of an NFT for coins succeeded; a liveness transaction has it paid to the sender a second time. The supply of
  coins changes by what the run did, and grows by the fee of a liveness transaction.\<close>

theorem fees_around_the_run:
  assumes "CheckConfigForkOrder (chainConfig C) = None" and "ApplyMessage nb C msg g s = Some (st, Inr r)"
  shows "\<exists>i s1 s2 left.
      IntrinsicGas (msg_Data msg) (AccessTuples msg) (To msg = None) (IsHomestead (chainRules C)) (IsIstanbul (chainRules C)) = Inr i
    \<and> i \<le> msg_Gas msg
    \<and> prepared C msg (SubBalance (From msg) (uint (msg_Gas msg) * msg_GasPrice msg) s) = Some s1
    \<and> runMessage C msg (msg_Gas msg - i) s1 = Some (s2, ReturnData r, left, Err r)
    \<and> UsedGas r = msg_Gas msg - left - min ((msg_Gas msg - left) div (if IsLondon (chainRules C) then 5 else 2)) (GetRefund s2)
    \<and> (\<forall>a. GetBalance a s1 = GetBalance a s - (if a = From msg then uint (msg_Gas msg) * msg_GasPrice msg else 0)
         \<and> GetBalance a (state st) = GetBalance a s2 + (if a = From msg then uint (msg_Gas msg - UsedGas r) * msg_GasPrice msg else 0)
             + earned C msg (Err r) (uint (UsedGas r) * msg_GasPrice msg) a)
    \<and> totalSupply (state st) - totalSupply s = totalSupply s2 - totalSupply s1
        + (if isLiveness C msg then uint (UsedGas r) * msg_GasPrice msg else 0)"
  using ApplyMessage_settles [OF accepted [OF assms(1)] assms(2)]
proof cases
  case (1 i s1 s2 gas)
  have "GetBalance a s1 = GetBalance a s - (if a = From msg then uint (msg_Gas msg) * msg_GasPrice msg else 0)" for a
    by (simp add: getter_acct 1(4))
  moreover have "GetBalance a (state st) = GetBalance a s2 + (if a = From msg then uint (msg_Gas msg - UsedGas r) * msg_GasPrice msg else 0)
      + earned C msg (Err r) (uint (UsedGas r) * msg_GasPrice msg) a" for a
    unfolding 1(9) payFee_balance by (simp add: getter_acct)
  moreover have "totalSupply (state st) - totalSupply s = totalSupply s2 - totalSupply s1
      + (if isLiveness C msg then uint (UsedGas r) * msg_GasPrice msg else 0)"
    unfolding 1(9) payFee_balance supply_balance
    using fees_add_up [OF 1(6), of "msg_GasPrice msg"] supply_accounts [OF 1(4)] by (auto simp: supply_balance mult.commute)
  moreover have "UsedGas r = msg_Gas msg - gas - min ((msg_Gas msg - gas) div (if IsLondon (chainRules C) then 5 else 2)) (GetRefund s2)"
    using 1(11) by simp
  ultimately show ?thesis using 1(1,2,5,10) by blast
qed

theorem fees_around_the_run_witness:
  "\<exists>st r s1 s2 left. ApplyMessage False exCtx exMsg 1000000 richState = Some (st, Inr r)
     \<and> runMessage exCtx exMsg 29000 s1 = Some (s2, ReturnData r, left, Err r) \<and> GetBalance 9 s1 = 200000 * ERB - 100000
     \<and> GetBalance 5 (state st) = GetBalance 5 s2 + 2 * uint (UsedGas r)
     \<and> totalSupply (state st) - totalSupply richState = totalSupply s2 - totalSupply s1"
proof -
  obtain st r where r: "ApplyMessage False exCtx exMsg 1000000 richState = Some (st, Inr r)" using exMsg_runs by blast
  have f: "From exMsg = 9" "\<not> isLiveness exCtx exMsg" "msg_GasPrice exMsg = 2" "msg_Gas exMsg = 50000" "payee exCtx exMsg e = 5"
    "msg_Data exMsg = []" "AccessTuples exMsg = []" "To exMsg = Some 6" for e
    by (simp_all add: exMsg_def isLiveness_def payee_def IsWormholesNFTTx_def) (simp add: exCtx_def)
  have ig: "IntrinsicGas [] [] False True True = Inr 21000" by (simp add: IntrinsicGas_def dataGas_def TxGas_def StorageKeys_def)
  obtain s1 s2 left where "runMessage exCtx exMsg 29000 s1 = Some (s2, ReturnData r, left, Err r)"
    "\<forall>a. GetBalance a s1 = GetBalance a richState - (if a = 9 then 100000 else 0)
       \<and> GetBalance a (state st) = GetBalance a s2 + (if a = 9 then uint (50000 - UsedGas r) * 2 else 0)
           + earned exCtx exMsg (Err r) (uint (UsedGas r) * 2) a"
    "totalSupply (state st) - totalSupply richState = totalSupply s2 - totalSupply s1"
    using fees_around_the_run [OF exCtx_accepted r] by (auto simp: f ig exCtx_rules)
  then show ?thesis using r ex_rich(2) by (fastforce simp: earned_def f)
qed

text \<open>The errors that come after the gas was bought.\<close>

fun gasBought :: "txError \<Rightarrow> bool" where
  "gasBought ErrIntrinsicGasOverflow = True"
| "gasBought (ErrIntrinsicGas _ _) = True"
| "gasBought (ErrInsufficientFundsForTransfer _) = True"
| "gasBought _ = False"

lemma preCheck_errors: "preCheck nb C msg st = Some (st', Some e) \<Longrightarrow> st' = st \<and> \<not> gasBought e"
  by (auto simp: preCheck_def senderCheck_def feeCheck_def bind_Some_iff buyGas_def Let_def split: option.splits if_splits)

text \<open>C28: What a rejected message leaves behind. A message rejected for its intrinsic gas or for a value it cannot transfer has bought its gas, which neither the
  sender nor the pool gets back; a message rejected for any other reason has changed neither the state nor the gas pool.\<close>

theorem rejected_messages:
  assumes "ApplyMessage nb C msg g s = Some (st, Inl e)"
  shows "if gasBought e then state st = SubBalance (From msg) (uint (msg_Gas msg) * msg_GasPrice msg) s \<and> msg_Gas msg \<le> g \<and> gp st = g - msg_Gas msg
    else state st = s \<and> gp st = g"
proof -
  obtain t err where t: "preCheck nb C msg (NewStateTransition g s) = Some (t, err)"
    using assms by (auto simp: ApplyMessage_def TransitionDb_def bind_Some_iff)
  show ?thesis
  proof (cases err)
    case (Some x)
    have "st = t" "e = x" using assms t Some by (simp_all add: ApplyMessage_def TransitionDb_def Let_def)
    then show ?thesis using preCheck_errors [OF t [unfolded Some]] by (simp add: NewStateTransition_def)
  next
    case None
    note b = buyGas_ok [OF preCheck_ok [OF t [unfolded None]]]
    have "gasBought e" "state st = state t" "gp st = gp t" using assms t None b
      by (auto simp: ApplyMessage_def TransitionDb_def Let_def bind_Some_iff NewStateTransition_def split: sum.splits if_splits)
        (auto simp: IntrinsicGas_def split: option.splits)
    then show ?thesis using b by (simp add: NewStateTransition_def)
  qed
qed

theorem rejected_messages_witness:
  "\<exists>st. ApplyMessage False exCtx (exMsg\<lparr>msg_Gas := 20000\<rparr>) 1000000 richState = Some (st, Inl (ErrIntrinsicGas 20000 21000))
     \<and> state st = SubBalance 9 40000 richState \<and> gp st = 980000"
proof -
  let ?m = "exMsg\<lparr>msg_Gas := 20000\<rparr>" and ?t = "\<lparr>gp = 980000, st_gas = 20000, initialGas = 20000, state = SubBalance 9 40000 richState\<rparr>"
  have pre: "preCheck False exCtx ?m (NewStateTransition 1000000 richState) = Some (?t, None)" using exMsg_bought [of ?m] by simp
  have ig: "IntrinsicGas [] [] False True True = Inr 21000" by (simp add: IntrinsicGas_def dataGas_def TxGas_def StorageKeys_def)
  have c: "ApplyMessage False exCtx ?m 1000000 richState = Some (?t, Inl (ErrIntrinsicGas 20000 21000))"
    using pre ig by (simp add: ApplyMessage_def TransitionDb_def exCtx_rules) (simp add: exMsg_def Let_def exCtx_rules)
  show ?thesis using c rejected_messages [OF c] by (simp add: exMsg_def)
qed

end
