(* ===== verification/JumpDest.thy ===== *)
theory JumpDest
  imports VM
begin

text \<open>
  The jump destination analysis, core/vm/analysis.go, against its specification: the bit vector that is filled in steps
  of sixteen, eight and fewer bits marks exactly the bytes that are data of a push, that is, those no instruction starts at.
\<close>

section \<open>Definitions\<close>

text \<open>Where instructions start: at the first byte, and after each instruction with its data.\<close>

inductive instructionStart :: "string \<Rightarrow> nat \<Rightarrow> bool" for c :: string where
  first: "instructionStart c 0"
| after: "instructionStart c p \<Longrightarrow> p < length c \<Longrightarrow> (of_char (c ! p) :: u8) < PUSH1 \<or> (of_char (c ! p) :: u8) > PUSH32
     \<Longrightarrow> instructionStart c (p + 1)"
| after_push: "instructionStart c p \<Longrightarrow> p < length c \<Longrightarrow> PUSH1 \<le> (of_char (c ! p) :: u8) \<Longrightarrow> (of_char (c ! p) :: u8) \<le> PUSH32
     \<Longrightarrow> instructionStart c (p + 1 + unat ((of_char (c ! p) :: u8) - PUSH1 + 1))"

section \<open>Lemmas\<close>

subsection \<open>Bits\<close>

text \<open>The bit of a position, the first position of a byte at its highest bit.\<close>

definition dataBit :: "bitvec \<Rightarrow> nat \<Rightarrow> bool" where
  "dataBit bits i = bit (bits ! (i div 8)) (7 - i mod 8)"

lemma bit_numerals: "bit (0x80 :: byte) i \<longleftrightarrow> i = 7" "bit (0xFF :: byte) i \<longleftrightarrow> i < 8"
proof -
  have "(0x80 :: byte) = 2 ^ 7" "(0xFF :: byte) = mask 8" by (simp_all add: mask_eq_exp_minus_1)
  then show "bit (0x80 :: byte) i \<longleftrightarrow> i = 7" "bit (0xFF :: byte) i \<longleftrightarrow> i < 8"
    by (auto simp only: bit_exp_iff bit_mask_iff possible_bit_word) simp_all
qed

lemma bit_single: "bit (drop_bit k 0x80 :: byte) i \<longleftrightarrow> i + k = 7"
  unfolding bit_drop_bit_eq comp_def bit_numerals by auto

lemma codeSegment_dataBit: "codeSegment bits i \<longleftrightarrow> \<not> dataBit bits i"
proof -
  have "i mod 8 < 8" by simp
  then have "(drop_bit (i mod 8) 0x80 :: byte) = 2 ^ (7 - i mod 8)"
    by (intro bit_word_eqI) (simp only: bit_single bit_exp_iff possible_bit_word, auto)
  then show ?thesis by (simp add: codeSegment_def dataBit_def and_exp_eq_0_iff_not_bit)
qed

lemma bit_ones: "bit (drop_bit k 0xFF :: byte) i \<longleftrightarrow> i + k < 8"
  unfolding bit_drop_bit_eq comp_def bit_numerals by auto

lemma bit_setBitsMask:
  assumes "2 \<le> n" "n < 8"
  shows "bit (setBitsMask n) i \<longleftrightarrow> 16 - n \<le> i \<and> i < 16"
proof -
  have "n \<in> {2, 3, 4, 5, 6, 7}" using assms by auto
  then have "setBitsMask n = NOT (mask (16 - n))" by (auto simp: setBitsMask_def mask_eq_exp_minus_1)
  then show ?thesis by (auto simp: bit_not_iff bit_mask_iff)
qed

text \<open>Where the bits from a position on are clear, setting data bits marks exactly the positions given.\<close>

definition clearFrom :: "nat \<Rightarrow> bitvec \<Rightarrow> bool" where
  "clearFrom p bits \<longleftrightarrow> (\<forall>i\<ge>p. i div 8 < length bits \<longrightarrow> \<not> dataBit bits i)"

definition marks :: "nat \<Rightarrow> nat \<Rightarrow> bitvec \<Rightarrow> bitvec \<Rightarrow> bool" where
  "marks p n bits bits' \<longleftrightarrow> length bits' = length bits \<and>
     (\<forall>i. i div 8 < length bits \<longrightarrow> (dataBit bits' i \<longleftrightarrow> dataBit bits i \<or> p \<le> i \<and> i < p + n))"

lemma marks_clear: "marks p n bits bits' \<Longrightarrow> clearFrom p bits \<Longrightarrow> clearFrom (p + n) bits'"
  by (auto simp: marks_def clearFrom_def)

lemma marks_trans: "marks p n x y \<Longrightarrow> marks (p + n) k y z \<Longrightarrow> marks p (n + k) x z"
  by (auto simp: marks_def)

lemma position: "(p :: nat) = 8 * (p div 8) + p mod 8" "p mod 8 < 8"
  by simp_all

lemma set1_marks: "p div 8 < length bits \<Longrightarrow> marks p 1 bits (set1 p bits)"
proof -
  assume len: "p div 8 < length bits"
  have "bit (drop_bit (p mod 8) 0x80 :: byte) (7 - i mod 8) \<longleftrightarrow> i mod 8 = p mod 8" for i
  proof -
    have "i mod 8 < 8" "p mod 8 < 8" by simp_all
    then show ?thesis unfolding bit_single by auto
  qed
  moreover have "p \<le> i \<and> i < p + 1 \<longleftrightarrow> i div 8 = p div 8 \<and> i mod 8 = p mod 8" for i
    using position(1) [of i] position(1) [of p] by (metis Suc_eq_plus1 le_less_Suc_eq less_Suc_eq_le order_refl)
  ultimately show ?thesis using len
    by (auto simp: marks_def set1_def or_byte_def dataBit_def nth_list_update bit_or_iff)
qed

text \<open>Overlaying a byte and overwriting the ones behind it, which were clear.\<close>

lemma marks_bytes:
  assumes clear: "clearFrom p bits" and len: "p div 8 + length bs < length bits"
    and first: "\<And>v. v < 8 \<Longrightarrow> bit a (7 - v) \<longleftrightarrow> p mod 8 \<le> v \<and> v < p mod 8 + n"
    and rest: "\<And>j v. j < length bs \<Longrightarrow> v < 8 \<Longrightarrow> bit (bs ! j) (7 - v) \<longleftrightarrow> 8 * Suc j + v < p mod 8 + n"
    and n: "p mod 8 + n \<le> 8 * Suc (length bs)"
    and bits': "length bits' = length bits" "bits' ! (p div 8) = (bits ! (p div 8)) OR a"
      "\<And>j. j < length bs \<Longrightarrow> bits' ! (p div 8 + Suc j) = bs ! j" "\<And>u. u < p div 8 \<or> u > p div 8 + length bs \<Longrightarrow> bits' ! u = bits ! u"
  shows "marks p n bits bits'"
  unfolding marks_def
proof (intro conjI allI impI bits'(1))
  fix i
  assume i: "i div 8 < length bits"
  define u v q k where uvqk: "u = i div 8" "v = i mod 8" "q = p div 8" "k = p mod 8"
  have u: "u = i div 8" "v = i mod 8" "i = 8 * u + v" "v < 8" and q: "q = p div 8" "k = p mod 8" "p = 8 * q + k" "k < 8"
    unfolding uvqk by simp_all
  have db: "dataBit b i = bit (b ! u) (7 - v)" for b by (simp add: dataBit_def u(1,2))
  show "dataBit bits' i \<longleftrightarrow> dataBit bits i \<or> p \<le> i \<and> i < p + n"
  proof (cases u q rule: linorder_cases)
    case less
    then have "\<not> p \<le> i" using u(3,4) q(3) by linarith
    then show ?thesis using bits'(4) less q(1) by (simp add: db)
  next
    case equal
    then have "dataBit bits' i \<longleftrightarrow> dataBit bits i \<or> k \<le> v \<and> v < k + n"
      using bits'(2) first [OF u(4)] q(1,2) by (simp add: db bit_or_iff)
    moreover have "k \<le> v \<and> v < k + n \<longleftrightarrow> p \<le> i \<and> i < p + n" using equal u(3) q(3) by simp
    ultimately show ?thesis by simp
  next
    case greater
    then have p: "p \<le> i" using u(3,4) q(3,4) by linarith
    then have c: "\<not> dataBit bits i" using clear i by (simp add: clearFrom_def)
    define j where "j = u - q - 1"
    have j: "u = q + Suc j" using greater by (simp add: j_def)
    show ?thesis
    proof (cases "j < length bs")
      case True
      then have "dataBit bits' i \<longleftrightarrow> 8 * Suc j + v < k + n" using bits'(3) j rest [OF _ u(4)] q(1,2) by (simp add: db)
      moreover have "8 * Suc j + v < k + n \<longleftrightarrow> i < p + n" using u(3) q(3) j by (simp add: add.assoc)
      ultimately show ?thesis using c p by simp
    next
      case False
      then have "8 * Suc (length bs) \<le> 8 * Suc j" by simp
      then have "\<not> i < p + n" using u(3) q(2,3) j n by simp
      then show ?thesis using bits'(4) [of u] j False q(1) by (simp add: db)
    qed
  qed
qed

lemma bit_edges:
  assumes "v < 8" and "k < (8 :: nat)"
  shows "bit (drop_bit k 0xFF :: byte) (7 - v) \<longleftrightarrow> k \<le> v" "bit (NOT (drop_bit k 0xFF) :: byte) (7 - v) \<longleftrightarrow> v < k" "bit (0xFF :: byte) (7 - v)"
proof -
  show b: "bit (drop_bit k 0xFF :: byte) (7 - v) \<longleftrightarrow> k \<le> v" unfolding bit_ones using assms by linarith
  show "bit (NOT (drop_bit k 0xFF) :: byte) (7 - v) \<longleftrightarrow> v < k" unfolding bit_not_iff b by (simp, use assms in linarith)
  show "bit (0xFF :: byte) (7 - v)" unfolding bit_numerals using assms by linarith
qed

lemma set8_marks:
  assumes "clearFrom p bits" and "p div 8 + 1 < length bits"
  shows "marks p 8 bits (set8 p bits)"
proof (rule marks_bytes [where bs = "[NOT (drop_bit (p mod 8) 0xFF)]" and a = "drop_bit (p mod 8) 0xFF"])
  show "bit (drop_bit (p mod 8) 0xFF :: byte) (7 - v) \<longleftrightarrow> p mod 8 \<le> v \<and> v < p mod 8 + 8" if "v < 8" for v
    using bit_edges(1) [OF that, of "p mod 8"] that by auto
  show "bit ([NOT (drop_bit (p mod 8) 0xFF)] ! j :: byte) (7 - v) \<longleftrightarrow> 8 * Suc j + v < p mod 8 + 8"
    if "j < length [NOT (drop_bit (p mod 8) 0xFF :: byte)]" "v < 8" for j v
    using bit_edges(2) [OF that(2), of "p mod 8"] that by auto
qed (use assms in \<open>auto simp: set8_def or_byte_def Let_def nth_list_update less_Suc_eq\<close>)

lemma set16_marks:
  assumes "clearFrom p bits" and "p div 8 + 2 < length bits"
  shows "marks p 16 bits (set16 p bits)"
proof (rule marks_bytes [where bs = "[0xFF, NOT (drop_bit (p mod 8) 0xFF)]" and a = "drop_bit (p mod 8) 0xFF"])
  show "bit (drop_bit (p mod 8) 0xFF :: byte) (7 - v) \<longleftrightarrow> p mod 8 \<le> v \<and> v < p mod 8 + 16" if "v < 8" for v
    using bit_edges(1) [OF that, of "p mod 8"] that by auto
  show "bit ([0xFF, NOT (drop_bit (p mod 8) 0xFF)] ! j :: byte) (7 - v) \<longleftrightarrow> 8 * Suc j + v < p mod 8 + 16"
    if "j < length [0xFF, NOT (drop_bit (p mod 8) 0xFF :: byte)]" "v < 8" for j v
    using bit_edges(2,3) [OF that(2), of "p mod 8"] that by (cases j) (auto simp: less_Suc_eq)
qed (use assms in \<open>auto simp: set16_def or_byte_def Let_def nth_list_update less_Suc_eq\<close>)


lemma setN_marks:
  assumes n: "2 \<le> n" "n < 8" and "clearFrom p bits" and len: "(p + n) div 8 < length bits"
  shows "marks p n bits (setN (setBitsMask n) p bits)"
proof -
  let ?k = "p mod 8"
  let ?a = "drop_bit ?k (setBitsMask n)"
  have k: "?k < 8" by simp
  have hi: "bit (ucast (drop_bit 8 ?a) :: byte) (7 - v) \<longleftrightarrow> ?k \<le> v \<and> v < ?k + n" if "v < 8" for v
    unfolding bit_ucast_iff bit_drop_bit_eq comp_def bit_setBitsMask [OF n] using that n k by auto
  have lo: "bit (ucast ?a :: byte) (7 - v) \<longleftrightarrow> 8 + v < ?k + n" if "v < 8" for v
    unfolding bit_ucast_iff bit_drop_bit_eq comp_def bit_setBitsMask [OF n] using that n k by auto
  show ?thesis
  proof (cases "(ucast ?a :: byte) = 0")
    case True
    have "\<not> 8 + 0 < ?k + n" using lo [of 0] True by simp
    moreover have "p div 8 < length bits" using len div_le_mono [of p "p + n" 8] by simp
    ultimately show ?thesis
      using assms True hi
      by (intro marks_bytes [where bs = "[]" and a = "ucast (drop_bit 8 ?a)"]) (auto simp: setN_def or_byte_def Let_def nth_list_update)
  next
    case False
    then obtain v where "v < 8" "bit (ucast ?a :: byte) (7 - v)"
    proof -
      obtain j where "bit (ucast ?a :: byte) j" using False by (auto simp: bit_eq_iff)
      moreover from this have "j < 8" using bit_imp_le_length [of "ucast ?a :: byte" j] by simp
      ultimately show thesis using that [of "7 - j"] by simp
    qed
    then have "8 < ?k + n" using lo by fastforce
    then have "8 * (q + 1) \<le> (8 * q + ?k) + n" for q by (simp add: add.assoc)
    from this [of "p div 8"] have "(8 * (p div 8 + 1)) div 8 \<le> (p + n) div 8" unfolding mult_div_mod_eq by (rule div_le_mono)
    then have "p div 8 + 1 < length bits" using len by simp
    then show ?thesis
      using assms False hi lo
      by (intro marks_bytes [where bs = "[ucast ?a]" and a = "ucast (drop_bit 8 ?a)"]) (auto simp: setN_def or_byte_def Let_def nth_list_update)
  qed
qed


lemma marks_refl: "marks p 0 bits bits"
  by (auto simp: marks_def)

lemma set16s_marks:
  "set16s n p bits = (n', p', bits') \<Longrightarrow> clearFrom p bits \<Longrightarrow> (p + n) div 8 < length bits \<Longrightarrow>
     marks p (n - n') bits bits' \<and> n' < 16 \<and> n' \<le> n \<and> p' = p + (n - n')"
proof (induction n p bits rule: set16s.induct)
  case (1 n p bits)
  show ?case
  proof (cases "16 \<le> n")
    case True
    have "(p + 16) div 8 \<le> (p + n) div 8" using True by (intro div_le_mono) simp
    then have m: "marks p 16 bits (set16 p bits)" using "1.prems"(2,3) by (intro set16_marks) simp_all
    have "set16s (n - 16) (p + 16) (set16 p bits) = (n', p', bits')" using "1.prems"(1) True by (simp add: set16s.simps [of n])
    moreover have "clearFrom (p + 16) (set16 p bits)" by (rule marks_clear [OF m "1.prems"(2)])
    moreover have "(p + 16 + (n - 16)) div 8 < length (set16 p bits)" using "1.prems"(3) True m by (simp add: marks_def)
    ultimately have r: "marks (p + 16) (n - 16 - n') (set16 p bits) bits'" "n' < 16" "n' \<le> n - 16" "p' = p + 16 + (n - 16 - n')"
      using "1.IH" [OF True] by blast+
    have "marks p (16 + (n - 16 - n')) bits bits'" by (rule marks_trans [OF m r(1)])
    moreover have "16 + (n - 16 - n') = n - n'" using r(3) True by simp
    ultimately show ?thesis using r True by simp
  qed (use "1.prems" marks_refl in \<open>simp add: set16s.simps [of n]\<close>)
qed

lemma set8s_marks:
  "set8s n p bits = (n', p', bits') \<Longrightarrow> clearFrom p bits \<Longrightarrow> (p + n) div 8 < length bits \<Longrightarrow>
     marks p (n - n') bits bits' \<and> n' < 8 \<and> n' \<le> n \<and> p' = p + (n - n')"
proof (induction n p bits rule: set8s.induct)
  case (1 n p bits)
  show ?case
  proof (cases "8 \<le> n")
    case True
    have "(p + 8) div 8 \<le> (p + n) div 8" using True by (intro div_le_mono) simp
    then have m: "marks p 8 bits (set8 p bits)" using "1.prems"(2,3) by (intro set8_marks) simp_all
    have "set8s (n - 8) (p + 8) (set8 p bits) = (n', p', bits')" using "1.prems"(1) True by (simp add: set8s.simps [of n])
    moreover have "clearFrom (p + 8) (set8 p bits)" by (rule marks_clear [OF m "1.prems"(2)])
    moreover have "(p + 8 + (n - 8)) div 8 < length (set8 p bits)" using "1.prems"(3) True m by (simp add: marks_def)
    ultimately have r: "marks (p + 8) (n - 8 - n') (set8 p bits) bits'" "n' < 8" "n' \<le> n - 8" "p' = p + 8 + (n - 8 - n')"
      using "1.IH" [OF True] by blast+
    have "marks p (8 + (n - 8 - n')) bits bits'" by (rule marks_trans [OF m r(1)])
    moreover have "8 + (n - 8 - n') = n - n'" using r(3) True by simp
    ultimately show ?thesis using r True by simp
  qed (use "1.prems" marks_refl in \<open>simp add: set8s.simps [of n]\<close>)
qed

lemma setData_marks:
  assumes c: "clearFrom p bits" and len: "(p + n) div 8 < length bits"
  shows "marks p n bits (snd (setData n p bits))"
proof -
  obtain n1 p1 b1 where s1: "set16s n p bits = (n1, p1, b1)" by (cases "set16s n p bits") auto
  obtain n2 p2 b2 where s2: "set8s n1 p1 b1 = (n2, p2, b2)" by (cases "set8s n1 p1 b1") auto
  note m1 = set16s_marks [OF s1 c len]
  have c1: "clearFrom p1 b1" using marks_clear [of p "n - n1" bits b1] m1 c by simp
  have "(p1 + n1) div 8 < length b1" using m1 len by (simp add: marks_def)
  note m2 = set8s_marks [OF s2 c1 this]
  have c2: "clearFrom p2 b2" using marks_clear [of p1 "n1 - n2" b1 b2] m2 c1 by simp
  have l2: "(p2 + n2) div 8 < length b2" using m1 m2 len by (simp add: marks_def)
  have m12: "marks p (n - n2) bits b2"
    using marks_trans [of p "n - n1" bits b1 "n1 - n2" b2] m1 m2 by (simp add: le_add_diff_inverse)
  have p2: "p2 = p + (n - n2)" "n2 \<le> n" using m1 m2 by simp_all
  have rest: "marks p2 n2 b2 b3 \<Longrightarrow> marks p n bits b3" for b3
    using marks_trans [OF m12, of n2 b3] p2 by simp
  consider "n2 = 0" | "n2 = 1" | "2 \<le> n2" by linarith
  then show ?thesis
  proof cases
    case 1
    then show ?thesis using m12 by (simp add: setData_def s1 s2)
  next
    case 2
    have "p2 div 8 < length b2" using l2 div_le_mono [of p2 "p2 + n2" 8] by simp
    then show ?thesis using 2 rest set1_marks [of p2 b2] by (simp add: setData_def s1 s2)
  next
    case 3
    then show ?thesis using rest setN_marks [of n2 p2 b2] m2 c2 l2 by (simp add: setData_def s1 s2)
  qed
qed


subsection \<open>The scan\<close>

definition nextOp :: "string \<Rightarrow> nat \<Rightarrow> nat" where
  "nextOp c p = (if (of_char (c ! p) :: u8) < PUSH1 \<or> (of_char (c ! p) :: u8) > PUSH32 then p + 1
     else p + 1 + unat ((of_char (c ! p) :: u8) - PUSH1 + 1))"

lemma nextOp_gt: "p < nextOp c p"
  by (simp add: nextOp_def)

lemma start_nextOp: "instructionStart c p \<Longrightarrow> p < length c \<Longrightarrow> instructionStart c (nextOp c p)"
  using instructionStart.after [of c p] instructionStart.after_push [of c p] by (auto simp: nextOp_def not_less)

lemma start_iterate: "instructionStart c p \<Longrightarrow> \<exists>k. p = (nextOp c ^^ k) 0"
proof (induction rule: instructionStart.induct)
  case first
  then show ?case by (rule exI [of _ 0]) simp
next
  case (after p)
  then obtain k where "p = (nextOp c ^^ k) 0" by blast
  then have "(nextOp c ^^ Suc k) 0 = p + 1" using after by (simp add: nextOp_def)
  then show ?case by metis
next
  case (after_push p)
  then obtain k where "p = (nextOp c ^^ k) 0" by blast
  then have "(nextOp c ^^ Suc k) 0 = p + 1 + unat ((of_char (c ! p) :: u8) - PUSH1 + 1)" using after_push by (auto simp: nextOp_def not_less)
  then show ?case by metis
qed

text \<open>No instruction starts inside another.\<close>

lemma starts_apart:
  assumes "instructionStart c p" and "instructionStart c q" and "p < q"
  shows "nextOp c p \<le> q"
proof -
  have step: "(nextOp c ^^ k) 0 < (nextOp c ^^ Suc k) 0" for k by (simp add: nextOp_gt)
  have mono: "strict_mono (\<lambda>k. (nextOp c ^^ k) 0)" using step by (rule strict_mono_Suc_iff [THEN iffD2, rule_format])
  obtain i j where ij: "p = (nextOp c ^^ i) 0" "q = (nextOp c ^^ j) 0" using start_iterate assms(1,2) by blast
  then have "i < j" using assms(3) strict_mono_less [OF mono] by blast
  then have "(nextOp c ^^ Suc i) 0 \<le> (nextOp c ^^ j) 0" using strict_mono_less_eq [OF mono] by (metis Suc_leI)
  then show ?thesis using ij by simp
qed

lemma push_size: "PUSH1 \<le> (w :: u8) \<Longrightarrow> w \<le> PUSH32 \<Longrightarrow> unat (w - PUSH1 + 1) \<le> 32"
proof -
  assume "PUSH1 \<le> w" "w \<le> PUSH32"
  then have "0x60 \<le> unat w" "unat w \<le> 0x7f" by (simp_all add: PUSH1_def PUSH32_def word_le_nat_alt)
  moreover from this have "unat (w - PUSH1) = unat w - 0x60" by (simp add: PUSH1_def unat_sub word_le_nat_alt)
  ultimately show ?thesis using unat_word_ariths(1) [of "w - PUSH1" 1] by simp
qed

lemma codeBitmapInternal_spec:
  assumes "instructionStart c p" and "clearFrom p bits" and "length bits = length c div 8 + 5"
    and "\<forall>i<p. i < length c \<longrightarrow> (dataBit bits i \<longleftrightarrow> \<not> instructionStart c i)" and "i < length c"
  shows "dataBit (codeBitmapInternal c p bits) i \<longleftrightarrow> \<not> instructionStart c i"
  using assms
proof (induction c p bits rule: codeBitmapInternal.induct)
  case (1 c p bits)
  have inb: "j div 8 < length bits" if "j < length c" for j using that "1.prems"(3) div_le_mono [of j "length c" 8] by simp
  show ?case
  proof (cases "p < length c")
    case True
    let ?op = "of_char (c ! p) :: u8" and ?p' = "nextOp c p"
    have s': "instructionStart c ?p'" by (rule start_nextOp [OF "1.prems"(1) True])
    have inside: "\<not> instructionStart c j" if "p < j" "j < ?p'" for j using starts_apart [OF "1.prems"(1)] that by fastforce
    have here: "\<not> dataBit bits p" using "1.prems"(2) inb [OF True] by (simp add: clearFrom_def)
    show ?thesis
    proof (cases "?op < PUSH1 \<or> ?op > PUSH32")
      case plain: True
      then have n: "?p' = p + 1" by (auto simp: nextOp_def)
      have "clearFrom (p + 1) bits" using "1.prems"(2) by (simp add: clearFrom_def)
      moreover have "\<forall>j<p + 1. j < length c \<longrightarrow> (dataBit bits j \<longleftrightarrow> \<not> instructionStart c j)"
        using "1.prems"(1,4) here by (auto simp: less_Suc_eq)
      ultimately show ?thesis using "1.IH"(1) [OF True refl plain] s' n "1.prems"(3,5) True plain
        by (simp add: codeBitmapInternal.simps [of c p])
    next
      case push: False
      let ?n = "unat (?op - PUSH1 + 1)"
      have n: "?p' = p + 1 + ?n" using push by (simp add: nextOp_def)
      have "(p + 1 + ?n) div 8 \<le> (length c + 32) div 8" using True push_size [of ?op] push by (intro div_le_mono) (simp add: not_less)
      then have len: "(p + 1 + ?n) div 8 < length bits" using "1.prems"(3) by simp
      have c1: "clearFrom (p + 1) bits" using "1.prems"(2) by (simp add: clearFrom_def)
      obtain b' where b': "setData ?n (p + 1) bits = (p + 1 + ?n, b')" using setData_fst [of ?n "p + 1" bits] by (metis prod.collapse)
      have m: "marks (p + 1) ?n bits b'" using setData_marks [OF c1 len] b' by simp
      have cl: "clearFrom (p + 1 + ?n) b'" by (rule marks_clear [OF m c1])
      have "dataBit b' j \<longleftrightarrow> \<not> instructionStart c j" if "j < p + 1 + ?n" "j < length c" for j
      proof -
        have d: "dataBit b' j \<longleftrightarrow> dataBit bits j \<or> p + 1 \<le> j \<and> j < p + 1 + ?n" using m inb [OF that(2)] by (simp add: marks_def)
        consider "j < p" | "j = p" | "p < j" by linarith
        then show ?thesis
        proof cases
          case 3
          then show ?thesis using d that inside n by simp
        qed (use d "1.prems"(1,4) here that in auto)
      qed
      moreover have "codeBitmapInternal c p bits = codeBitmapInternal c (p + 1 + ?n) b'"
        using True push b' by (simp add: codeBitmapInternal.simps [of c p] Let_def)
      ultimately show ?thesis
        using "1.IH"(2) [OF True refl push b' [symmetric] refl] cl s' n m "1.prems"(3,5) by (simp add: marks_def)
    qed
  next
    case False
    then show ?thesis using "1.prems"(4,5) by (simp add: codeBitmapInternal.simps [of c p])
  qed
qed


section \<open>Properties\<close>

text \<open>C19: The jump destination analysis is exact: the bit vector, filled in steps of sixteen, eight and fewer bits, marks a byte of the code as code
  exactly if an instruction starts there, and a jump is allowed exactly to the positions of a JUMPDEST instruction, never to a byte that is data of a push.\<close>

theorem jumps_go_to_instructions:
  assumes "length c < 2 ^ 64"
  shows "(\<forall>i<length c. codeSegment (codeBitmap c) i \<longleftrightarrow> instructionStart c i)
    \<and> (validJumpdest c dest \<longleftrightarrow> IsUint64 dest \<and> unat (Uint64 dest) < length c \<and> (of_char (c ! unat (Uint64 dest)) :: u8) = JUMPDEST
        \<and> instructionStart c (unat (Uint64 dest)))"
proof -
  let ?z = "replicate (length c div 8 + 1 + 4) 0"
  have z: "clearFrom 0 ?z" "length ?z = length c div 8 + 5" by (simp_all add: clearFrom_def dataBit_def)
  have m: "\<forall>i<length c. codeSegment (codeBitmap c) i \<longleftrightarrow> instructionStart c i"
    unfolding codeSegment_dataBit codeBitmap_def using codeBitmapInternal_spec [OF instructionStart.first z] by blast
  have "Uint64 dest < of_nat (length c) \<longleftrightarrow> unat (Uint64 dest) < length c" using assms by (simp add: word_less_nat_alt unat_of_nat)
  then show ?thesis using m by (auto simp: validJumpdest_def not_le)
qed

theorem jumps_go_to_instructions_witness:
  "let c = [CHR 0x60, CHR 0x5B, CHR 0x5B] in validJumpdest c 2 \<and> \<not> validJumpdest c 1"
proof -
  let ?c = "[CHR 0x60, CHR 0x5B, CHR 0x5B]"
  have n: "nextOp ?c 0 = 2" by (simp add: nextOp_def PUSH1_def PUSH32_def)
  have two: "instructionStart ?c 2" using start_nextOp [OF instructionStart.first, of ?c] n by simp
  have one: "\<not> instructionStart ?c 1" using starts_apart [OF instructionStart.first, of ?c 1] n by auto
  show ?thesis
    using jumps_go_to_instructions [of ?c 1] jumps_go_to_instructions [of ?c 2] one two
    by (simp add: Let_def IsUint64_def Uint64_def JUMPDEST_def)
qed

end
