(* ===== verification/Validators.thy ===== *)
theory Validators
  imports GoCommon "HOL-Library.AList"
begin

text \<open>
  consensus/istanbul/validator/default.go with the parts of validator.go and config.go it uses: a set of validators, its order, its proposer, and
  how many of them may be faulty. The quorum of the consensus is here as well, with the lemmas on how quorums meet.
\<close>

section \<open>Definitions\<close>

definition Sticky :: u64 where "Sticky = 1"

text \<open>The policy: which selector to use, and which of two validators comes first.\<close>

record ProposerPolicy =
  Id :: u64
  By :: "address \<Rightarrow> address \<Rightarrow> bool"

datatype ProposalSelector = RoundRobinProposer | StickyProposer

record defaultSet =
  validators :: "address list"
  policy :: ProposerPolicy
  proposer :: "address option"
  selector :: ProposalSelector

text \<open>Sorting by a strict order; two validators that it does not tell apart are the same address.\<close>

primrec insertBy :: "(address \<Rightarrow> address \<Rightarrow> bool) \<Rightarrow> address \<Rightarrow> address list \<Rightarrow> address list" where
  "insertBy before a [] = [a]"
| "insertBy before a (b # bs) = (if before b a then b # insertBy before a bs else a # b # bs)"

definition SortValidators :: "(address \<Rightarrow> address \<Rightarrow> bool) \<Rightarrow> address list \<Rightarrow> address list" where
  "SortValidators before l = foldr (insertBy before) l []"

definition Size :: "defaultSet \<Rightarrow> nat" where
  "Size vs = length (validators vs)"

definition GetByIndex :: "u64 \<Rightarrow> defaultSet \<Rightarrow> address option" where
  "GetByIndex i vs = (if i < of_nat (Size vs) then Some (validators vs ! unat i) else None)"

text \<open>The position of an address among the validators, with the validator, or minus one and nil.\<close>

definition GetByAddress :: "address \<Rightarrow> defaultSet \<Rightarrow> int \<times> address option" where
  "GetByAddress a vs = (if a \<in> set (validators vs) then (int (length (takeWhile (\<lambda>v. v \<noteq> a) (validators vs))), Some a) else (- 1, None))"

definition IsProposer :: "address \<Rightarrow> defaultSet \<Rightarrow> bool" where
  "IsProposer a vs = (proposer vs = snd (GetByAddress a vs))"

definition calcSeed :: "defaultSet \<Rightarrow> address \<Rightarrow> u64 \<Rightarrow> u64" where
  "calcSeed vs prop round = (case GetByAddress prop vs of (idx, Some _) \<Rightarrow> word_of_int idx | _ \<Rightarrow> 0) + round"

definition emptyAddress :: "address \<Rightarrow> bool" where
  "emptyAddress a = (a = 0)"

definition roundRobinProposer :: "defaultSet \<Rightarrow> address \<Rightarrow> u64 \<Rightarrow> address option" where
  "roundRobinProposer vs prop round =
     (if Size vs = 0 then None
      else let seed = (if emptyAddress prop then round else calcSeed vs prop round + 1)
           in GetByIndex (seed mod of_nat (Size vs)) vs)"

definition stickyProposer :: "defaultSet \<Rightarrow> address \<Rightarrow> u64 \<Rightarrow> address option" where
  "stickyProposer vs prop round =
     (if Size vs = 0 then None
      else let seed = (if emptyAddress prop then round else calcSeed vs prop round)
           in GetByIndex (seed mod of_nat (Size vs)) vs)"

definition CalcProposer :: "address \<Rightarrow> u64 \<Rightarrow> defaultSet \<Rightarrow> defaultSet" where
  "CalcProposer lastProposer round vs =
     vs\<lparr>proposer := (case selector vs of RoundRobinProposer \<Rightarrow> roundRobinProposer vs lastProposer round
                     | StickyProposer \<Rightarrow> stickyProposer vs lastProposer round)\<rparr>"

definition NewSet :: "address list \<Rightarrow> ProposerPolicy \<Rightarrow> defaultSet" where
  "NewSet addrs pol =
     (let vals = SortValidators (By pol) addrs
      in \<lparr>validators = vals, policy = pol, proposer = (case vals of [] \<Rightarrow> None | v # _ \<Rightarrow> Some v),
          selector = (if Id pol = Sticky then StickyProposer else RoundRobinProposer)\<rparr>)"

definition vs_AddValidator :: "address \<Rightarrow> defaultSet \<Rightarrow> defaultSet \<times> bool" where
  "vs_AddValidator a vs =
     (if a \<in> set (validators vs) then (vs, False)
      else (vs\<lparr>validators := SortValidators (By (policy vs)) (validators vs @ [a])\<rparr>, True))"

definition vs_RemoveValidator :: "address \<Rightarrow> defaultSet \<Rightarrow> defaultSet \<times> bool" where
  "vs_RemoveValidator a vs =
     (if a \<in> set (validators vs) then (vs\<lparr>validators := remove1 a (validators vs)\<rparr>, True) else (vs, False))"

definition vs_Copy :: "defaultSet \<Rightarrow> defaultSet" where
  "vs_Copy vs = NewSet (validators vs) (policy vs)"

text \<open>A third of the validators rounded up, before one; and two thirds rounded up.\<close>

definition F :: "defaultSet \<Rightarrow> int" where
  "F vs = (int (Size vs) + 2) div 3 - 1"

definition ceil2Nby3 :: "defaultSet \<Rightarrow> int" where
  "ceil2Nby3 vs = (2 * int (Size vs) + 2) div 3"

section \<open>Lemmas\<close>

lemma set_insertBy [simp]: "set (insertBy before a l) = insert a (set l)"
  by (induction l) auto

lemma set_SortValidators [simp]: "set (SortValidators before l) = set l"
  by (induction l) (simp_all add: SortValidators_def)

lemma distinct_insertBy: "distinct (insertBy before a l) = (a \<notin> set l \<and> distinct l)"
  by (induction l) auto

lemma distinct_SortValidators [simp]: "distinct (SortValidators before l) = distinct l"
  by (induction l) (simp_all add: SortValidators_def distinct_insertBy set_SortValidators [unfolded SortValidators_def])

lemma NewSet_validators: "set (validators (NewSet l pol)) = set l" "distinct (validators (NewSet l pol)) = distinct l"
  by (simp_all add: NewSet_def Let_def)

lemma GetByAddress_iff [simp]: "(snd (GetByAddress a vs) = None) = (a \<notin> set (validators vs))"
  by (simp add: GetByAddress_def)

lemma CalcProposer_validators [simp]: "validators (CalcProposer p r vs) = validators vs"
  by (simp add: CalcProposer_def)

text \<open>Two quorums of two thirds share a validator that is not faulty, if no more than \<open>F\<close> are.\<close>

lemma quorums_meet:
  assumes "distinct (validators vs)" and "A \<subseteq> set (validators vs)" and "B \<subseteq> set (validators vs)"
    and "ceil2Nby3 vs \<le> int (card A)" and "ceil2Nby3 vs \<le> int (card B)" and "int (card (faulty \<inter> set (validators vs))) \<le> F vs"
  shows "\<exists>h \<in> A \<inter> B. h \<notin> faulty"
proof (rule ccontr)
  let ?V = "set (validators vs)"
  assume "\<not> ?thesis"
  then have sub: "A \<inter> B \<subseteq> faulty \<inter> ?V" using assms(2) by auto
  have fin: "finite A" "finite B" using assms(2,3) finite_subset by auto
  have "card (A \<inter> B) \<le> card (faulty \<inter> ?V)" by (rule card_mono [OF _ sub]) simp
  moreover have "card (A \<union> B) \<le> card ?V" by (rule card_mono) (use assms(2,3) in auto)
  moreover have "card ?V = Size vs" using assms(1) by (simp add: Size_def distinct_card)
  moreover have "card A + card B = card (A \<union> B) + card (A \<inter> B)" by (rule card_Un_Int [OF fin])
  ultimately have "2 * ceil2Nby3 vs \<le> int (Size vs) + F vs" using assms(4-6) by linarith
  then show False unfolding ceil2Nby3_def F_def by presburger
qed

definition two_thirds :: "defaultSet \<Rightarrow> address set \<Rightarrow> bool" where
  "two_thirds vs A \<longleftrightarrow> A \<subseteq> set (validators vs) \<and> ceil2Nby3 vs \<le> int (card A)"

definition tolerated :: "defaultSet \<Rightarrow> address set \<Rightarrow> bool" where
  "tolerated vs faulty \<longleftrightarrow> distinct (validators vs) \<and> int (card (faulty \<inter> set (validators vs))) \<le> F vs"

text \<open>What a vote relies on: two quorums share a voter that is not faulty. Voters that are not faulty and vote once then cannot support two choices.\<close>

locale quorum_system =
  fixes quorum :: "'s \<Rightarrow> 'v set \<Rightarrow> bool" and tolerates :: "'s \<Rightarrow> 'v set \<Rightarrow> bool"
  assumes meet: "quorum s A \<Longrightarrow> quorum s B \<Longrightarrow> tolerates s faulty \<Longrightarrow> \<exists>h \<in> A \<inter> B. h \<notin> faulty"
begin

lemma one_decision:
  assumes "tolerates s faulty" and "quorum s A" and "quorum s B" and "\<And>h x y. h \<notin> faulty \<Longrightarrow> x \<in> votes h \<Longrightarrow> y \<in> votes h \<Longrightarrow> x = y"
    and "\<And>h. h \<in> A \<Longrightarrow> h \<notin> faulty \<Longrightarrow> x \<in> votes h" and "\<And>h. h \<in> B \<Longrightarrow> h \<notin> faulty \<Longrightarrow> y \<in> votes h"
  shows "x = y"
  using meet [OF assms(2,3,1)] assms(4-6) by blast

end

interpretation ibft_quorums: quorum_system two_thirds tolerated
  by unfold_locales (use quorums_meet in \<open>auto simp: two_thirds_def tolerated_def\<close>)

end
