(* ===== verification/IBFT.thy ===== *)
theory IBFT
  imports Validators
begin

text \<open>
  consensus/istanbul/ibft/core: the state of one validator and its handlers for requests, messages, timeouts and committed blocks.

  What a handler does to the outside is appended to the list \<open>effects\<close> of the state: messages broadcast, blocks handed to the backend, messages and requests put
  aside for later, the points at which those are looked through again, and timers. The queues for what is put aside are an imported package; what is
  taken out of them comes back as an event of its own. The backend is the interface of the source, as a record of functions; with it come the encodings of the messages.
  Logging is left out, but not the panics its arguments can cause.
\<close>

section \<open>Definitions\<close>

subsection \<open>Views, proposals and messages\<close>

record View =
  Round :: int
  Sequence :: int

definition View_Cmp :: "View \<Rightarrow> View \<Rightarrow> int" where
  "View_Cmp v y =
     (if Sequence v \<noteq> Sequence y then (if Sequence v < Sequence y then - 1 else 1)
      else if Round v \<noteq> Round y then (if Round v < Round y then - 1 else 1)
      else 0)"

text \<open>Of a block the consensus reads its number, hash and parent.\<close>

record Proposal =
  p_Number :: int
  p_Hash :: hash
  p_ParentHash :: hash

record Preprepare =
  pp_View :: View
  pp_Proposal :: Proposal

record Subject =
  sub_View :: View
  Digest :: hash

record Message =
  Code :: u64
  Msg :: string
  msg_Address :: address
  Signature :: string
  CommittedSeal :: string

definition MsgPreprepare :: u64 where "MsgPreprepare = 0"
definition MsgPrepare :: u64 where "MsgPrepare = 1"
definition MsgCommit :: u64 where "MsgCommit = 2"
definition MsgRoundChange :: u64 where "MsgRoundChange = 3"

datatype ibftError =
    ErrFutureMessage | ErrOldMessage | ErrInvalidMessage | ErrNotFromProposer | ErrInconsistentSubject | ErrIgnored | ErrUnauthorizedAddress
  | ErrFailedDecodePreprepare | ErrFailedDecodePrepare | ErrFailedDecodeCommit | ErrFutureBlock | ErrBackend string

text \<open>The interface \<open>istanbul.Backend\<close>, with the encodings and signatures the core uses. A result of \<open>None\<close> where a validator set is asked for is a panic.\<close>

record Backend =
  LastProposal :: "Proposal option \<times> address"
  Validators :: "Proposal \<Rightarrow> defaultSet panics"
  ParentValidators :: "Proposal \<Rightarrow> defaultSet panics"
  GetProposer :: "u64 \<Rightarrow> address"
  HasPropsal :: "hash \<Rightarrow> int \<Rightarrow> bool"
  HasBadProposal :: "hash \<Rightarrow> bool"
  Verify :: "Proposal \<Rightarrow> ibftError option"
  Commit :: "Proposal \<Rightarrow> string list \<Rightarrow> bool"
  Sign :: "string \<Rightarrow> string option"
  IsQBFTConsensusAt :: "int \<Rightarrow> bool"
  encodePreprepare :: "Preprepare \<Rightarrow> string"
  encodeSubject :: "Subject \<Rightarrow> string"
  decodePreprepare :: "string \<Rightarrow> Preprepare option"
  decodeSubject :: "string \<Rightarrow> Subject option"
  PayloadNoSig :: "Message \<Rightarrow> string"
  Payload :: "Message \<Rightarrow> string"
  FromPayload :: "address list \<Rightarrow> string \<Rightarrow> ibftError + Message"

subsection \<open>message_set.go\<close>

record messageSet =
  messages :: "(address \<times> Message) list"
  ms_valSet :: defaultSet

definition newMessageSet :: "defaultSet \<Rightarrow> messageSet" where
  "newMessageSet vs = \<lparr>messages = [], ms_valSet = vs\<rparr>"

definition ms_Size :: "messageSet \<Rightarrow> int" where
  "ms_Size ms = int (length (messages ms))"

definition ms_Get :: "address \<Rightarrow> messageSet \<Rightarrow> Message option" where
  "ms_Get a ms = map_of (messages ms) a"

definition ms_Add :: "Message \<Rightarrow> messageSet \<Rightarrow> messageSet \<times> ibftError option" where
  "ms_Add m ms =
     (if snd (GetByAddress (msg_Address m) (ms_valSet ms)) = None then (ms, Some ErrUnauthorizedAddress)
      else (ms\<lparr>messages := AList.update (msg_Address m) m (messages ms)\<rparr>, None))"

subsection \<open>roundstate.go\<close>

record roundState =
  round :: int
  sequence :: int
  Preprepare_of :: "Preprepare option"
  Prepares :: messageSet
  Commits :: messageSet
  lockedHash :: hash
  pendingRequest :: "Proposal option"

definition newRoundState :: "View \<Rightarrow> defaultSet \<Rightarrow> hash \<Rightarrow> Preprepare option \<Rightarrow> Proposal option \<Rightarrow> roundState" where
  "newRoundState view vs locked pp pending =
     \<lparr>round = Round view, sequence = Sequence view, Preprepare_of = pp, Prepares = newMessageSet vs, Commits = newMessageSet vs,
      lockedHash = locked, pendingRequest = pending\<rparr>"

definition GetPrepareOrCommitSize :: "roundState \<Rightarrow> int" where
  "GetPrepareOrCommitSize r =
     ms_Size (Prepares r) + ms_Size (Commits r)
     - int (length (filter (\<lambda>(_, m). ms_Get (msg_Address m) (Commits r) \<noteq> None) (messages (Prepares r))))"

definition Subject_of :: "roundState \<Rightarrow> Subject option" where
  "Subject_of r = (case Preprepare_of r of None \<Rightarrow> None
     | Some pp \<Rightarrow> Some \<lparr>sub_View = \<lparr>Round = round r, Sequence = sequence r\<rparr>, Digest = p_Hash (pp_Proposal pp)\<rparr>)"

definition Proposal_of :: "roundState \<Rightarrow> Proposal option" where
  "Proposal_of r = map_option pp_Proposal (Preprepare_of r)"

definition LockHash :: "roundState \<Rightarrow> roundState" where
  "LockHash r = (case Preprepare_of r of Some pp \<Rightarrow> r\<lparr>lockedHash := p_Hash (pp_Proposal pp)\<rparr> | None \<Rightarrow> r)"

definition UnlockHash :: "roundState \<Rightarrow> roundState" where
  "UnlockHash r = r\<lparr>lockedHash := 0\<rparr>"

definition IsHashLocked :: "Backend \<Rightarrow> roundState \<Rightarrow> bool" where
  "IsHashLocked B r = (lockedHash r \<noteq> 0 \<and> \<not> HasBadProposal B (lockedHash r))"

subsection \<open>The state of a validator\<close>

datatype State = StateAcceptRequest | StatePreprepared | StatePrepared | StateCommitted

primrec stateRank :: "State \<Rightarrow> nat" where
  "stateRank StateAcceptRequest = 0"
| "stateRank StatePreprepared = 1"
| "stateRank StatePrepared = 2"
| "stateRank StateCommitted = 3"

datatype effect =
    Broadcast Message
  | CommitProposal View Proposal "string list"
  | StoreBacklog Message address
  | ProcessBacklog
  | StoreRequest Proposal
  | ProcessPendingRequests
  | NewRoundChangeTimer int
  | FuturePreprepareTimer Message address
  | StartQBFTConsensus
  | Gossip u64 string

text \<open>The messages for a change to a round, by the round.\<close>

record roundChangeSet =
  rc_validatorSet :: defaultSet
  roundChanges :: "(u64 \<times> messageSet) list"

definition newRoundChangeSet :: "defaultSet \<Rightarrow> roundChangeSet" where
  "newRoundChangeSet vs = \<lparr>rc_validatorSet = vs, roundChanges = []\<rparr>"

record core =
  Ceil2Nby3Block :: "int option"
  self_address :: address
  state :: State
  valSet :: defaultSet
  waitingForRoundChange :: bool
  current :: "roundState option"
  roundChanges_of :: roundChangeSet
  effects :: "effect list"

definition emit :: "effect \<Rightarrow> core \<Rightarrow> core" where
  "emit e c = c\<lparr>effects := effects c @ [e]\<rparr>"

definition currentView :: "core \<Rightarrow> View panics" where
  "currentView c = map_option (\<lambda>r. \<lparr>Round = round r, Sequence = sequence r\<rparr>) (current c)"

definition core_IsProposer :: "core \<Rightarrow> bool" where
  "core_IsProposer c = IsProposer (self_address c) (valSet c)"

definition QuorumSize :: "core \<Rightarrow> int" where
  "QuorumSize c =
     (let below = (case Ceil2Nby3Block c of None \<Rightarrow> True
                   | Some b \<Rightarrow> (case current c of None \<Rightarrow> False | Some r \<Rightarrow> sequence r < b))
      in if below then 2 * F (valSet c) + 1 else ceil2Nby3 (valSet c))"

definition Hash_Bytes :: "hash \<Rightarrow> string" where
  "Hash_Bytes h = map (\<lambda>i. char_of (uint h div 256 ^ (31 - i))) [0..<32]"

definition PrepareCommittedSeal :: "hash \<Rightarrow> string" where
  "PrepareCommittedSeal h = Hash_Bytes h @ [CHR 0x02]"

subsection \<open>Sending\<close>

text \<open>The sender and the signature are filled in; a commit message also gets the seal of the current proposal.\<close>

definition finalizeMessage :: "Backend \<Rightarrow> Message \<Rightarrow> core \<Rightarrow> Message option panics" where
  "finalizeMessage B msg c =
     do { let m1 = msg\<lparr>msg_Address := self_address c\<rparr>;
          sealed \<leftarrow> (if Code m1 = MsgCommit
             then do { r \<leftarrow> current c;
                       Some (case Proposal_of r of None \<Rightarrow> Some m1
                             | Some p \<Rightarrow> map_option (\<lambda>s. m1\<lparr>CommittedSeal := s\<rparr>) (Sign B (PrepareCommittedSeal (p_Hash p)))) }
             else Some (Some m1));
          Some (do { m2 \<leftarrow> sealed; s \<leftarrow> Sign B (PayloadNoSig B m2); Some (m2\<lparr>Signature := s\<rparr>) }) }"

definition broadcast :: "Backend \<Rightarrow> Message \<Rightarrow> core \<Rightarrow> core panics" where
  "broadcast B msg c = do { fm \<leftarrow> finalizeMessage B msg c; Some (case fm of None \<Rightarrow> c | Some m \<Rightarrow> emit (Broadcast m) c) }"

definition newMessage :: "u64 \<Rightarrow> string \<Rightarrow> Message" where
  "newMessage code m = \<lparr>Code = code, Msg = m, msg_Address = 0, Signature = [], CommittedSeal = []\<rparr>"

definition sendPreprepare :: "Backend \<Rightarrow> Proposal \<Rightarrow> core \<Rightarrow> core panics" where
  "sendPreprepare B request c =
     do { r \<leftarrow> current c;
          if sequence r = p_Number request \<and> core_IsProposer c
          then do { cv \<leftarrow> currentView c;
                    broadcast B (newMessage MsgPreprepare (encodePreprepare B \<lparr>pp_View = cv, pp_Proposal = request\<rparr>)) c }
          else Some c }"

definition sendPrepare :: "Backend \<Rightarrow> core \<Rightarrow> core panics" where
  "sendPrepare B c = do { r \<leftarrow> current c; sub \<leftarrow> Subject_of r; broadcast B (newMessage MsgPrepare (encodeSubject B sub)) c }"

definition broadcastCommit :: "Backend \<Rightarrow> Subject \<Rightarrow> core \<Rightarrow> core panics" where
  "broadcastCommit B sub c = broadcast B (newMessage MsgCommit (encodeSubject B sub)) c"

definition sendCommit :: "Backend \<Rightarrow> core \<Rightarrow> core panics" where
  "sendCommit B c = do { r \<leftarrow> current c; sub \<leftarrow> Subject_of r; broadcastCommit B sub c }"

definition sendCommitForOldBlock :: "Backend \<Rightarrow> View \<Rightarrow> hash \<Rightarrow> core \<Rightarrow> core panics" where
  "sendCommitForOldBlock B view digest c = broadcastCommit B \<lparr>sub_View = view, Digest = digest\<rparr> c"

subsection \<open>Rounds\<close>

definition rcs_Add :: "int \<Rightarrow> Message \<Rightarrow> roundChangeSet \<Rightarrow> roundChangeSet \<times> (ibftError + int)" where
  "rcs_Add r m s =
     (let k = word_of_int r;
          ms = (case map_of (roundChanges s) k of None \<Rightarrow> newMessageSet (rc_validatorSet s) | Some ms \<Rightarrow> ms);
          (ms', err) = ms_Add m ms
      in (s\<lparr>roundChanges := AList.update k ms' (roundChanges s)\<rparr>, case err of Some e \<Rightarrow> Inl e | None \<Rightarrow> Inr (ms_Size ms')))"

definition rcs_Clear :: "int \<Rightarrow> roundChangeSet \<Rightarrow> roundChangeSet" where
  "rcs_Clear r s = s\<lparr>roundChanges := filter (\<lambda>(k, ms). \<not> (messages ms = [] \<or> k < word_of_int r)) (roundChanges s)\<rparr>"

definition rcs_MaxRound :: "int \<Rightarrow> roundChangeSet \<Rightarrow> int option" where
  "rcs_MaxRound num s =
     fold (\<lambda>(k, ms) mx. if ms_Size ms < num then mx
        else case mx of None \<Rightarrow> Some (sint k) | Some r \<Rightarrow> if r < sint k then Some (sint k) else mx) (roundChanges s) None"

definition setState :: "State \<Rightarrow> core \<Rightarrow> core" where
  "setState st c =
     (let c1 = c\<lparr>state := st\<rparr>; c2 = (if st = StateAcceptRequest then emit ProcessPendingRequests c1 else c1) in emit ProcessBacklog c2)"

definition updateRoundState :: "Backend \<Rightarrow> View \<Rightarrow> bool \<Rightarrow> core \<Rightarrow> core" where
  "updateRoundState B view roundChange c =
     c\<lparr>current := Some (case current c of
        Some r \<Rightarrow>
          if roundChange then
            if IsHashLocked B r then newRoundState view (valSet c) (lockedHash r) (Preprepare_of r) (pendingRequest r)
            else newRoundState view (valSet c) 0 None (pendingRequest r)
          else newRoundState view (valSet c) 0 None None
      | None \<Rightarrow> newRoundState view (valSet c) 0 None None)\<rparr>"

definition newRoundChangeTimer :: "core \<Rightarrow> core panics" where
  "newRoundChangeTimer c = do { r \<leftarrow> current c; Some (emit (NewRoundChangeTimer (round r)) c) }"

definition catchUpRound :: "Backend \<Rightarrow> View \<Rightarrow> core \<Rightarrow> core panics" where
  "catchUpRound B view c =
     do { _ \<leftarrow> current c;
          let c1 = updateRoundState B view True (c\<lparr>waitingForRoundChange := True\<rparr>);
          newRoundChangeTimer (c1\<lparr>roundChanges_of := rcs_Clear (Round view) (roundChanges_of c1)\<rparr>) }"

definition sendRoundChange :: "Backend \<Rightarrow> int \<Rightarrow> core \<Rightarrow> core panics" where
  "sendRoundChange B r c =
     do { cv \<leftarrow> currentView c;
          if Round cv \<ge> r then Some c
          else do {
            c1 \<leftarrow> catchUpRound B \<lparr>Round = r, Sequence = Sequence cv\<rparr> c;
            cv1 \<leftarrow> currentView c1;
            broadcast B (newMessage MsgRoundChange (encodeSubject B \<lparr>sub_View = cv1, Digest = 0\<rparr>)) c1 } }"

definition sendNextRoundChange :: "Backend \<Rightarrow> core \<Rightarrow> core panics" where
  "sendNextRoundChange B c = do { cv \<leftarrow> currentView c; sendRoundChange B (Round cv + 1) c }"

text \<open>How a round is started: not at all, within the sequence, or with a new sequence.\<close>

datatype roundStart = NoRound | NextRound | NewSequence

definition roundStartOf :: "Proposal \<Rightarrow> int \<Rightarrow> core \<Rightarrow> roundStart" where
  "roundStartOf lastProposal r c =
     (case current c of
        None \<Rightarrow> NewSequence
      | Some cur \<Rightarrow>
          if p_Number lastProposal \<ge> sequence cur then NewSequence
          else if p_Number lastProposal = sint (word_of_int (sequence cur) - 1 :: 64 word) then
            if r = 0 then NoRound else if r < round cur then NoRound else NextRound
          else NoRound)"

text \<open>The new round itself: its state, its proposer, and the proposal if this is the proposer and has one.\<close>

definition enterRound :: "Backend \<Rightarrow> View \<Rightarrow> bool \<Rightarrow> core \<Rightarrow> core panics" where
  "enterRound B view roundChange c =
     do { let c1 = updateRoundState B view roundChange (c\<lparr>roundChanges_of := newRoundChangeSet (valSet c)\<rparr>);
          let c2 = c1\<lparr>valSet := CalcProposer (snd (LastProposal B)) (word_of_int (Round view)) (valSet c1)\<rparr>;
          _ \<leftarrow> proposer (valSet c2);
          let c3 = setState StateAcceptRequest (c2\<lparr>waitingForRoundChange := False\<rparr>);
          c4 \<leftarrow> (if roundChange \<and> core_IsProposer c3 then
                   do { r \<leftarrow> current c3;
                        if IsHashLocked B r then do { p \<leftarrow> Proposal_of r; sendPreprepare B p c3 }
                        else case pendingRequest r of Some p \<Rightarrow> sendPreprepare B p c3 | None \<Rightarrow> Some c3 }
                 else Some c3);
          newRoundChangeTimer c4 }"

definition startNewRound :: "Backend \<Rightarrow> int \<Rightarrow> core \<Rightarrow> core panics" where
  "startNewRound B r c =
     do { lastProposal \<leftarrow> fst (LastProposal B);
          case roundStartOf lastProposal r c of
            NoRound \<Rightarrow> Some c
          | kind \<Rightarrow>
              do { (view, c1) \<leftarrow> (if kind = NextRound
                     then do { cv \<leftarrow> currentView c; Some (\<lparr>Round = r, Sequence = Sequence cv\<rparr>, c) }
                     else do { vs \<leftarrow> Validators B lastProposal; Some (\<lparr>Round = 0, Sequence = p_Number lastProposal + 1\<rparr>, c\<lparr>valSet := vs\<rparr>) });
                   if (word_of_int r :: u64) = 0 \<and> IsQBFTConsensusAt B (Sequence view) then Some (emit StartQBFTConsensus c1)
                   else enterRound B view (kind = NextRound) c1 } }"

subsection \<open>Messages\<close>

definition checkMessage :: "u64 \<Rightarrow> View \<Rightarrow> core \<Rightarrow> ibftError option panics" where
  "checkMessage msgCode view c =
     do { cv \<leftarrow> currentView c;
          Some (if msgCode = MsgRoundChange then
                  if Sequence view > Sequence cv then Some ErrFutureMessage
                  else if View_Cmp view cv < 0 then Some ErrOldMessage else None
                else if View_Cmp view cv > 0 then Some ErrFutureMessage
                else if View_Cmp view cv < 0 then Some ErrOldMessage
                else if waitingForRoundChange c then Some ErrFutureMessage
                else if state c = StateAcceptRequest then (if msgCode > MsgPreprepare then Some ErrFutureMessage else None)
                else None) }"

definition acceptPreprepare :: "Preprepare \<Rightarrow> core \<Rightarrow> core panics" where
  "acceptPreprepare pp c = do { r \<leftarrow> current c; Some (c\<lparr>current := Some (r\<lparr>Preprepare_of := Some pp\<rparr>)\<rparr>) }"

type_synonym handled = "(core \<times> ibftError option) panics"

definition handled_ok :: "core panics \<Rightarrow> handled" where
  "handled_ok x = map_option (\<lambda>c. (c, None)) x"

text \<open>A proposal for an earlier view: a commit message is sent if the block is in the chain and came from the proposer of then.\<close>

definition oldPreprepare :: "Backend \<Rightarrow> Preprepare \<Rightarrow> address \<Rightarrow> core \<Rightarrow> handled" where
  "oldPreprepare B pp src c =
     do { vs \<leftarrow> ParentValidators B (pp_Proposal pp);
          let vs1 = CalcProposer (GetProposer B (word_of_int (p_Number (pp_Proposal pp)) - 1)) (word_of_int (Round (pp_View pp))) (vs_Copy vs);
          if IsProposer src vs1 \<and> HasPropsal B (p_Hash (pp_Proposal pp)) (p_Number (pp_Proposal pp))
          then handled_ok (sendCommitForOldBlock B (pp_View pp) (p_Hash (pp_Proposal pp)) c)
          else Some (c, Some ErrOldMessage) }"

text \<open>A verified proposal for the current view.\<close>

definition takePreprepare :: "Backend \<Rightarrow> Preprepare \<Rightarrow> core \<Rightarrow> core panics" where
  "takePreprepare B pp c =
     (if state c = StateAcceptRequest then
        do { r \<leftarrow> current c;
             if IsHashLocked B r then
               if p_Hash (pp_Proposal pp) = lockedHash r
               then do { c1 \<leftarrow> acceptPreprepare pp c; sendCommit B (setState StatePrepared c1) }
               else sendNextRoundChange B c
             else do { c1 \<leftarrow> acceptPreprepare pp c; sendPrepare B (setState StatePreprepared c1) } }
      else Some c)"

definition handlePreprepare :: "Backend \<Rightarrow> Message \<Rightarrow> address \<Rightarrow> core \<Rightarrow> handled" where
  "handlePreprepare B msg src c =
     (case decodePreprepare B (Msg msg) of
        None \<Rightarrow> Some (c, Some ErrFailedDecodePreprepare)
      | Some pp \<Rightarrow>
          do { err \<leftarrow> checkMessage MsgPreprepare (pp_View pp) c;
               case err of
                 Some e \<Rightarrow> if e = ErrOldMessage then oldPreprepare B pp src c else Some (c, Some e)
               | None \<Rightarrow>
                   if \<not> IsProposer src (valSet c) then Some (c, Some ErrNotFromProposer)
                   else case Verify B (pp_Proposal pp) of
                     Some e \<Rightarrow>
                       if e = ErrFutureBlock then Some (emit (FuturePreprepareTimer msg src) c, Some e)
                       else do { c1 \<leftarrow> sendNextRoundChange B c; Some (c1, Some e) }
                   | None \<Rightarrow> handled_ok (takePreprepare B pp c) })"

text \<open>A prepare or commit message must have the current subject.\<close>

definition verifySubject :: "Subject \<Rightarrow> core \<Rightarrow> ibftError option panics" where
  "verifySubject sub c = do { r \<leftarrow> current c; Some (if Subject_of r = Some sub then None else Some ErrInconsistentSubject) }"

definition acceptPrepare :: "Message \<Rightarrow> core \<Rightarrow> core panics" where
  "acceptPrepare msg c = do { r \<leftarrow> current c; Some (c\<lparr>current := Some (r\<lparr>Prepares := fst (ms_Add msg (Prepares r))\<rparr>)\<rparr>) }"

definition handlePrepare :: "Backend \<Rightarrow> Message \<Rightarrow> address \<Rightarrow> core \<Rightarrow> handled" where
  "handlePrepare B msg src c =
     (case decodeSubject B (Msg msg) of
        None \<Rightarrow> Some (c, Some ErrFailedDecodePrepare)
      | Some prepare \<Rightarrow>
          do { err \<leftarrow> checkMessage MsgPrepare (sub_View prepare) c;
               case err of Some e \<Rightarrow> Some (c, Some e) | None \<Rightarrow>
               do { err \<leftarrow> verifySubject prepare c;
                    case err of Some e \<Rightarrow> Some (c, Some e) | None \<Rightarrow>
                    do { c1 \<leftarrow> acceptPrepare msg c;
                         r \<leftarrow> current c1;
                         if (IsHashLocked B r \<and> Digest prepare = lockedHash r \<or> GetPrepareOrCommitSize r \<ge> QuorumSize c1)
                            \<and> stateRank (state c1) < stateRank StatePrepared
                         then handled_ok (sendCommit B (setState StatePrepared (c1\<lparr>current := Some (LockHash r)\<rparr>)))
                         else Some (c1, None) } } })"

definition IstanbulExtraSeal :: nat where "IstanbulExtraSeal = 65"

definition committedSeals :: "roundState \<Rightarrow> string list" where
  "committedSeals r = map (\<lambda>(_, m). take IstanbulExtraSeal (CommittedSeal m @ replicate IstanbulExtraSeal (CHR 0x00))) (messages (Commits r))"

definition commit :: "Backend \<Rightarrow> core \<Rightarrow> core panics" where
  "commit B c =
     do { let c1 = setState StateCommitted c;
          r \<leftarrow> current c1;
          case Proposal_of r of
            None \<Rightarrow> Some c1
          | Some p \<Rightarrow>
              let c2 = emit (CommitProposal \<lparr>Round = round r, Sequence = sequence r\<rparr> p (committedSeals r)) c1 in
              if Commit B p (committedSeals r) then Some c2
              else sendNextRoundChange B (c2\<lparr>current := Some (UnlockHash r)\<rparr>) }"

definition acceptCommit :: "Message \<Rightarrow> core \<Rightarrow> core panics" where
  "acceptCommit msg c = do { r \<leftarrow> current c; Some (c\<lparr>current := Some (r\<lparr>Commits := fst (ms_Add msg (Commits r))\<rparr>)\<rparr>) }"

definition handleCommit :: "Backend \<Rightarrow> Message \<Rightarrow> address \<Rightarrow> core \<Rightarrow> handled" where
  "handleCommit B msg src c =
     (case decodeSubject B (Msg msg) of
        None \<Rightarrow> Some (c, Some ErrFailedDecodeCommit)
      | Some sub \<Rightarrow>
          do { err \<leftarrow> checkMessage MsgCommit (sub_View sub) c;
               case err of Some e \<Rightarrow> Some (c, Some e) | None \<Rightarrow>
               do { err \<leftarrow> verifySubject sub c;
                    case err of Some e \<Rightarrow> Some (c, Some e) | None \<Rightarrow>
                    do { c1 \<leftarrow> acceptCommit msg c;
                         r \<leftarrow> current c1;
                         if ms_Size (Commits r) \<ge> QuorumSize c1 \<and> stateRank (state c1) < stateRank StateCommitted
                         then handled_ok (commit B (c1\<lparr>current := Some (LockHash r)\<rparr>))
                         else Some (c1, None) } } })"

definition handleRoundChange :: "Backend \<Rightarrow> Message \<Rightarrow> address \<Rightarrow> core \<Rightarrow> handled" where
  "handleRoundChange B msg src c =
     (case decodeSubject B (Msg msg) of
        None \<Rightarrow> Some (c, Some ErrInvalidMessage)
      | Some rc \<Rightarrow>
          do { err \<leftarrow> checkMessage MsgRoundChange (sub_View rc) c;
               case err of Some e \<Rightarrow> Some (c, Some e) | None \<Rightarrow>
               do { cv \<leftarrow> currentView c;
                    let r = Round (sub_View rc);
                    let (rcs, res) = rcs_Add r msg (roundChanges_of c);
                    let c1 = c\<lparr>roundChanges_of := rcs\<rparr>;
                    case res of Inl e \<Rightarrow> Some (c1, Some e)
                    | Inr num \<Rightarrow>
                        if waitingForRoundChange c1 \<and> num = F (valSet c1) + 1
                        then handled_ok (if Round cv < r then sendRoundChange B r c1 else Some c1)
                        else if num = QuorumSize c1 \<and> (waitingForRoundChange c1 \<or> Round cv < r) then handled_ok (startNewRound B r c1)
                        else if Round cv < r then Some (c1, Some ErrIgnored)
                        else Some (c1, None) } })"

subsection \<open>Events\<close>

definition storeBacklog :: "Message \<Rightarrow> address \<Rightarrow> core \<Rightarrow> core" where
  "storeBacklog msg src c = (if src = self_address c then c else emit (StoreBacklog msg src) c)"

definition handleCheckedMsg :: "Backend \<Rightarrow> Message \<Rightarrow> address \<Rightarrow> core \<Rightarrow> handled" where
  "handleCheckedMsg B msg src c =
     (let testBacklog = map_option (\<lambda>(c1, err). (if err = Some ErrFutureMessage then storeBacklog msg src c1 else c1, err)) in
      if Code msg = MsgPreprepare then testBacklog (handlePreprepare B msg src c)
      else if Code msg = MsgPrepare then testBacklog (handlePrepare B msg src c)
      else if Code msg = MsgCommit then testBacklog (handleCommit B msg src c)
      else if Code msg = MsgRoundChange then testBacklog (handleRoundChange B msg src c)
      else Some (c, Some ErrInvalidMessage))"

definition handleMsg :: "Backend \<Rightarrow> string \<Rightarrow> core \<Rightarrow> handled" where
  "handleMsg B payload c =
     (case FromPayload B (validators (valSet c)) payload of
        Inl e \<Rightarrow> Some (c, Some e)
      | Inr msg \<Rightarrow> case snd (GetByAddress (msg_Address msg) (valSet c)) of
          None \<Rightarrow> Some (c, Some ErrUnauthorizedAddress)
        | Some src \<Rightarrow> handleCheckedMsg B msg src c)"

definition handleTimeoutMsg :: "Backend \<Rightarrow> core \<Rightarrow> core panics" where
  "handleTimeoutMsg B c =
     do { ahead \<leftarrow> (if waitingForRoundChange c then Some None
             else case rcs_MaxRound (F (valSet c) + 1) (roundChanges_of c) of
               None \<Rightarrow> Some None
             | Some maxRound \<Rightarrow> do { r \<leftarrow> current c; Some (if maxRound > round r then Some maxRound else None) });
          case ahead of Some maxRound \<Rightarrow> sendRoundChange B maxRound c
          | None \<Rightarrow> do { lastProposal \<leftarrow> fst (LastProposal B); r \<leftarrow> current c;
              if p_Number lastProposal \<ge> sequence r then startNewRound B 0 c else sendNextRoundChange B c } }"

definition checkRequestMsg :: "Proposal option \<Rightarrow> core \<Rightarrow> ibftError option panics" where
  "checkRequestMsg request c =
     (case request of None \<Rightarrow> Some (Some ErrInvalidMessage)
      | Some p \<Rightarrow> do { r \<leftarrow> current c;
          Some (if sequence r > p_Number p then Some ErrOldMessage else if sequence r < p_Number p then Some ErrFutureMessage else None) })"

definition handleRequest :: "Backend \<Rightarrow> Proposal option \<Rightarrow> core \<Rightarrow> handled" where
  "handleRequest B request c =
     do { r \<leftarrow> current c;
          err \<leftarrow> checkRequestMsg request c;
          case err of Some e \<Rightarrow> Some (c, Some e) | None \<Rightarrow>
          do { let c1 = c\<lparr>current := Some (r\<lparr>pendingRequest := request\<rparr>)\<rparr>;
               p \<leftarrow> request;
               handled_ok (if state c1 = StateAcceptRequest then sendPreprepare B p c1 else Some c1) } }"

datatype event = Start | Stop | RequestEvent "Proposal option" | MessageEvent u64 string | BacklogEvent Message address | TimeoutEvent | FinalCommittedEvent

text \<open>When the loop over the events ends, the state of the round is gone, with the lock. A validator that never started has no set of validators, and
  asking it panics; the empty set stands for it.\<close>

definition handleEvent :: "Backend \<Rightarrow> event \<Rightarrow> core \<Rightarrow> core panics" where
  "handleEvent B ev c =
     (case ev of
        Start \<Rightarrow> startNewRound B 0 c
      | Stop \<Rightarrow> Some (c\<lparr>current := None\<rparr>)
      | RequestEvent request \<Rightarrow>
          do { (c1, err) \<leftarrow> handleRequest B request c;
               Some (case request of Some p \<Rightarrow> (if err = Some ErrFutureMessage then emit (StoreRequest p) c1 else c1) | None \<Rightarrow> c1) }
      | MessageEvent code payload \<Rightarrow>
          if validators (valSet c) = [] then None
          else if snd (GetByAddress (self_address c) (valSet c)) = None then Some (emit (Gossip code payload) c)
          else do { (c1, err) \<leftarrow> handleMsg B payload c; Some (if err = None then emit (Gossip code payload) c1 else c1) }
      | BacklogEvent msg src \<Rightarrow>
          do { (c1, err) \<leftarrow> handleCheckedMsg B msg src c; Some (if err = None then emit (Gossip (Code msg) (Payload B msg)) c1 else c1) }
      | TimeoutEvent \<Rightarrow> handleTimeoutMsg B c
      | FinalCommittedEvent \<Rightarrow> do { _ \<leftarrow> currentView c; startNewRound B 0 c })"

text \<open>A validator before it starts: no round, and empty sets where the code has none yet.\<close>

definition newCore :: "int option \<Rightarrow> address \<Rightarrow> ProposerPolicy \<Rightarrow> core" where
  "newCore ceil a pol = \<lparr>Ceil2Nby3Block = ceil, self_address = a, state = StateAcceptRequest, valSet = NewSet [] pol, waitingForRoundChange = False,
     current = None, roundChanges_of = newRoundChangeSet (NewSet [] pol), effects = []\<rparr>"

end
