(* ===== verification/IBFTAgreement.thy ===== *)
theory IBFTAgreement
  imports IBFT
begin

text \<open>
  Agreement of the validators: an invariant of one validator under all its handlers, then the network of all of them with faulty ones among them.
\<close>

section \<open>One validator\<close>

text \<open>What the validators share: the decoding of subjects, the validators of each sequence, the block from which quorums are two thirds, and the
  blocks that go bad: those that some correct validator at some time reports as bad or refuses when they are committed.\<close>

record protocol =
  dec :: "string \<Rightarrow> Subject option"
  vals :: "int \<Rightarrow> address list"
  ceilBlock :: int
  bad :: "hash set"

text \<open>What is asked of the backend: encoded subjects decode again, the validators are those of the block number, verified blocks have a hash, only
  bad blocks are reported as bad or refused when committed, and the other protocol is not enabled.\<close>

definition goodBackend :: "protocol \<Rightarrow> Backend \<Rightarrow> bool" where
  "goodBackend N B \<longleftrightarrow> decodeSubject B = dec N \<and> (\<forall>s. dec N (encodeSubject B s) = Some s)
     \<and> (\<forall>p vs. Validators B p = Some vs \<longrightarrow> validators vs = vals N (p_Number p + 1))
     \<and> (\<forall>p. Verify B p = None \<longrightarrow> p_Hash p \<noteq> 0) \<and> (\<forall>h. HasBadProposal B h \<longrightarrow> h \<in> bad N)
     \<and> (\<forall>p sl. \<not> Commit B p sl \<longrightarrow> p_Hash p \<in> bad N)
     \<and> (\<forall>n. \<not> IsQBFTConsensusAt B n)"

text \<open>The subjects a validator has sent commit messages for.\<close>

definition sentCommits :: "protocol \<Rightarrow> core \<Rightarrow> Subject set" where
  "sentCommits N c = {s. \<exists>m. Broadcast m \<in> set (effects c) \<and> Code m = MsgCommit \<and> dec N (Msg m) = Some s}"

definition goodCommit :: "protocol \<Rightarrow> (Message \<Rightarrow> bool) \<Rightarrow> Subject \<Rightarrow> address \<times> Message \<Rightarrow> bool" where
  "goodCommit N P s x \<longleftrightarrow> fst x = msg_Address (snd x) \<and> fst x \<in> set (vals N (Sequence (sub_View s))) \<and> Code (snd x) = MsgCommit \<and> P (snd x)
     \<and> dec N (Msg (snd x)) = Some s"

text \<open>A quorum of validators that sent commit messages for a subject.\<close>

definition supported :: "protocol \<Rightarrow> (Message \<Rightarrow> bool) \<Rightarrow> Subject \<Rightarrow> bool" where
  "supported N P s \<longleftrightarrow> (\<exists>l. distinct (map fst l) \<and> (\<forall>x \<in> set l. goodCommit N P s x)
     \<and> (2 * int (length (vals N (Sequence (sub_View s)))) + 2) div 3 \<le> int (length l))"

text \<open>The state of a round: the proposal, once taken, is the locked one if there is a lock, unless that one went bad; commit messages are kept only for it.\<close>

definition roundInv :: "protocol \<Rightarrow> (Message \<Rightarrow> bool) \<Rightarrow> core \<Rightarrow> roundState \<Rightarrow> bool" where
  "roundInv N P c r \<longleftrightarrow>
     (if waitingForRoundChange c \<or> state c = StateAcceptRequest then messages (Commits r) = []
      else \<exists>pp. Preprepare_of r = Some pp \<and> p_Hash (pp_Proposal pp) \<noteq> 0 \<and> (lockedHash r = 0 \<or> lockedHash r \<in> bad N \<or> lockedHash r = p_Hash (pp_Proposal pp)))
     \<and> distinct (map fst (messages (Commits r)))
     \<and> (\<forall>x \<in> set (messages (Commits r)). \<exists>s. Subject_of r = Some s \<and> goodCommit N P s x)
     \<and> validators (valSet c) = vals N (sequence r) \<and> validators (ms_valSet (Commits r)) = vals N (sequence r)"

text \<open>Of the commit messages for blocks that do not go bad, those of the present sequence are for the locked block; there are never two for the
  same sequence and different blocks.\<close>

definition goodCommits :: "protocol \<Rightarrow> core \<Rightarrow> Subject set" where
  "goodCommits N c = {s \<in> sentCommits N c. Digest s \<notin> bad N}"

definition lockInv :: "protocol \<Rightarrow> core \<Rightarrow> bool" where
  "lockInv N c \<longleftrightarrow>
     (\<forall>s \<in> goodCommits N c. \<exists>r. current c = Some r \<and> (Sequence (sub_View s) < sequence r
        \<or> Sequence (sub_View s) = sequence r \<and> lockedHash r = Digest s \<and> Digest s \<noteq> 0))
     \<and> (\<forall>s \<in> goodCommits N c. \<forall>s' \<in> goodCommits N c. Sequence (sub_View s) = Sequence (sub_View s') \<longrightarrow> Digest s = Digest s')"

definition decisionInv :: "protocol \<Rightarrow> (Message \<Rightarrow> bool) \<Rightarrow> core \<Rightarrow> bool" where
  "decisionInv N P c \<longleftrightarrow> (\<forall>v p sl. CommitProposal v p sl \<in> set (effects c) \<longrightarrow> ceilBlock N \<le> Sequence v \<longrightarrow>
     supported N P \<lparr>sub_View = v, Digest = p_Hash p\<rparr>)"

definition inv :: "protocol \<Rightarrow> (Message \<Rightarrow> bool) \<Rightarrow> core \<Rightarrow> bool" where
  "inv N P c \<longleftrightarrow> lockInv N c \<and> decisionInv N P c \<and> Ceil2Nby3Block c = Some (ceilBlock N)
     \<and> (\<forall>r. current c = Some r \<longrightarrow> roundInv N P c r)"

subsection \<open>Steps that do not matter\<close>

text \<open>Effects other than commit messages and decisions, and fields that no part of the invariant reads.\<close>

definition plain :: "effect \<Rightarrow> bool" where
  "plain e \<longleftrightarrow> (case e of Broadcast m \<Rightarrow> Code m \<noteq> MsgCommit | CommitProposal v p sl \<Rightarrow> False | _ \<Rightarrow> True)"

lemma inv_emit: "plain e \<Longrightarrow> inv N P (emit e c) = inv N P c"
proof -
  assume e: "plain e"
  have "sentCommits N (emit e c) = sentCommits N c" using e by (auto simp: sentCommits_def emit_def plain_def)
  moreover have "decisionInv N P (emit e c) = decisionInv N P c" using e by (auto simp: decisionInv_def emit_def plain_def)
  ultimately show ?thesis by (simp add: inv_def lockInv_def goodCommits_def roundInv_def emit_def)
qed

lemma inv_fields [simp]:
  "inv N P (c\<lparr>roundChanges_of := x\<rparr>) = inv N P c"
  "sentCommits N (c\<lparr>current := y\<rparr>) = sentCommits N c" "sentCommits N (c\<lparr>state := st\<rparr>) = sentCommits N c"
  "sentCommits N (c\<lparr>valSet := vs\<rparr>) = sentCommits N c" "sentCommits N (c\<lparr>waitingForRoundChange := w\<rparr>) = sentCommits N c"
  "sentCommits N (c\<lparr>roundChanges_of := x\<rparr>) = sentCommits N c"
  "decisionInv N P (c\<lparr>current := y\<rparr>) = decisionInv N P c" "decisionInv N P (c\<lparr>state := st\<rparr>) = decisionInv N P c"
  "decisionInv N P (c\<lparr>valSet := vs\<rparr>) = decisionInv N P c" "decisionInv N P (c\<lparr>waitingForRoundChange := w\<rparr>) = decisionInv N P c"
  "decisionInv N P (c\<lparr>roundChanges_of := x\<rparr>) = decisionInv N P c"
  by (simp_all add: inv_def lockInv_def goodCommits_def roundInv_def sentCommits_def decisionInv_def)

lemma goodCommits_fields [simp]:
  "goodCommits N (c\<lparr>current := y\<rparr>) = goodCommits N c" "goodCommits N (c\<lparr>state := st\<rparr>) = goodCommits N c"
  "goodCommits N (c\<lparr>valSet := vs\<rparr>) = goodCommits N c" "goodCommits N (c\<lparr>waitingForRoundChange := w\<rparr>) = goodCommits N c"
  "goodCommits N (c\<lparr>roundChanges_of := x\<rparr>) = goodCommits N c"
  by (simp_all add: goodCommits_def)

lemma finalizeMessage_keeps:
  "finalizeMessage B msg c = Some (Some m) \<Longrightarrow> Code m = Code msg \<and> Msg m = Msg msg \<and> msg_Address m = self_address c"
  by (auto simp: finalizeMessage_def Let_def bind_Some_iff split: if_splits option.splits)

lemma broadcast_cases:
  assumes "broadcast B msg c = Some c'"
  obtains "c' = c" | m where "Code m = Code msg" "Msg m = Msg msg" "msg_Address m = self_address c" "c' = emit (Broadcast m) c"
proof -
  obtain fm where fm: "finalizeMessage B msg c = Some fm" "c' = (case fm of None \<Rightarrow> c | Some m \<Rightarrow> emit (Broadcast m) c)"
    using assms by (auto simp: broadcast_def bind_Some_iff)
  show ?thesis
  proof (cases fm)
    case None
    then show ?thesis using fm(2) that(1) by simp
  next
    case (Some m)
    then show ?thesis using fm that(2) [of m] finalizeMessage_keeps [of B msg c m] by simp
  qed
qed

lemma inv_broadcast: "broadcast B msg c = Some c' \<Longrightarrow> Code msg \<noteq> MsgCommit \<Longrightarrow> inv N P c' = inv N P c"
  by (erule broadcast_cases) (simp_all add: inv_emit plain_def)

lemma codes [simp]: "MsgPreprepare \<noteq> MsgCommit" "MsgPrepare \<noteq> MsgCommit" "MsgRoundChange \<noteq> MsgCommit"
  by (simp_all add: MsgPreprepare_def MsgPrepare_def MsgCommit_def MsgRoundChange_def)

lemma inv_sendPreprepare: "sendPreprepare B p c = Some c' \<Longrightarrow> inv N P c' = inv N P c"
  by (auto simp: sendPreprepare_def bind_Some_iff newMessage_def split: if_splits dest!: inv_broadcast [where N = N and P = P])

lemma inv_sendPrepare: "sendPrepare B c = Some c' \<Longrightarrow> inv N P c' = inv N P c"
  by (auto simp: sendPrepare_def bind_Some_iff newMessage_def dest!: inv_broadcast [where N = N and P = P])

lemma inv_timer: "newRoundChangeTimer c = Some c' \<Longrightarrow> inv N P c' = inv N P c"
  by (auto simp: newRoundChangeTimer_def bind_Some_iff inv_emit plain_def)

lemma broadcast_fields:
  assumes "broadcast B msg c = Some c'"
  shows "current c' = current c" "state c' = state c" "valSet c' = valSet c" "waitingForRoundChange c' = waitingForRoundChange c"
  using assms by (auto simp: broadcast_def bind_Some_iff emit_def split: option.splits)

subsection \<open>Changes of round\<close>

definition inv0 :: "protocol \<Rightarrow> (Message \<Rightarrow> bool) \<Rightarrow> core \<Rightarrow> bool" where
  "inv0 N P c \<longleftrightarrow> lockInv N c \<and> decisionInv N P c \<and> Ceil2Nby3Block c = Some (ceilBlock N)"

lemma inv_inv0: "inv N P c \<Longrightarrow> inv0 N P c"
  by (simp add: inv_def inv0_def)

lemma inv0_fields [simp]:
  "inv0 N P (c\<lparr>state := st\<rparr>) = inv0 N P c" "inv0 N P (c\<lparr>valSet := vs\<rparr>) = inv0 N P c"
  "inv0 N P (c\<lparr>waitingForRoundChange := w\<rparr>) = inv0 N P c" "inv0 N P (c\<lparr>roundChanges_of := x\<rparr>) = inv0 N P c"
  by (simp_all add: inv0_def lockInv_def)

lemma inv_roundInv: "inv N P c \<Longrightarrow> current c = Some r \<Longrightarrow> roundInv N P c r"
  by (simp add: inv_def)

lemma inv_validators: "inv N P c \<Longrightarrow> current c = Some r \<Longrightarrow> validators (valSet c) = vals N (sequence r)"
  by (simp add: inv_def roundInv_def)

lemma invI: "inv0 N P c \<Longrightarrow> (\<And>r. current c = Some r \<Longrightarrow> roundInv N P c r) \<Longrightarrow> inv N P c"
  by (simp add: inv0_def inv_def)

text \<open>A new round keeps the lock, a new sequence starts without one.\<close>

definition enters :: "View \<Rightarrow> bool \<Rightarrow> core \<Rightarrow> bool" where
  "enters view roundChange c \<longleftrightarrow>
     (if roundChange then \<exists>r. current c = Some r \<and> Sequence view = sequence r else \<forall>r. current c = Some r \<longrightarrow> sequence r < Sequence view)"

lemma unlocked_bad: "goodBackend N B \<Longrightarrow> \<not> IsHashLocked B r \<Longrightarrow> lockedHash r = 0 \<or> lockedHash r \<in> bad N"
  by (auto simp: goodBackend_def IsHashLocked_def)

lemma updateRoundState_current:
  obtains r' where "current (updateRoundState B view rc c) = Some r'" "sequence r' = Sequence view" "messages (Commits r') = []"
    "ms_valSet (Commits r') = valSet c" "\<forall>r. rc \<longrightarrow> goodBackend N B \<longrightarrow> current c = Some r \<longrightarrow> lockedHash r = 0 \<or> lockedHash r \<in> bad N \<or> lockedHash r' = lockedHash r"
proof -
  define nr where "nr = (case current c of
      Some r \<Rightarrow> if rc then if IsHashLocked B r then newRoundState view (valSet c) (lockedHash r) (Preprepare_of r) (pendingRequest r)
                 else newRoundState view (valSet c) 0 None (pendingRequest r) else newRoundState view (valSet c) 0 None None
    | None \<Rightarrow> newRoundState view (valSet c) 0 None None)"
  have "sequence nr = Sequence view" "messages (Commits nr) = []" "ms_valSet (Commits nr) = valSet c"
    by (simp_all add: nr_def newRoundState_def newMessageSet_def split: option.splits)
  moreover have "\<forall>r. rc \<longrightarrow> goodBackend N B \<longrightarrow> current c = Some r \<longrightarrow> lockedHash r = 0 \<or> lockedHash r \<in> bad N \<or> lockedHash nr = lockedHash r"
    using unlocked_bad by (auto simp: nr_def newRoundState_def)
  moreover have "current (updateRoundState B view rc c) = Some nr" by (simp add: updateRoundState_def nr_def)
  ultimately show ?thesis using that by blast
qed

lemma inv_updateRoundState:
  assumes "goodBackend N B" and "inv0 N P c" and "enters view rc c" and "validators (valSet c) = vals N (Sequence view)"
    and "waitingForRoundChange c \<or> state c = StateAcceptRequest"
  shows "inv N P (updateRoundState B view rc c)"
proof -
  let ?c = "updateRoundState B view rc c"
  obtain r' where r': "current ?c = Some r'" "sequence r' = Sequence view" "messages (Commits r') = []" "ms_valSet (Commits r') = valSet c"
      "\<forall>r. rc \<longrightarrow> goodBackend N B \<longrightarrow> current c = Some r \<longrightarrow> lockedHash r = 0 \<or> lockedHash r \<in> bad N \<or> lockedHash r' = lockedHash r"
    by (rule updateRoundState_current [of B view rc c N])
  have f: "waitingForRoundChange ?c = waitingForRoundChange c" "state ?c = state c" "valSet ?c = valSet c" "Ceil2Nby3Block ?c = Ceil2Nby3Block c"
    "goodCommits N ?c = goodCommits N c" "decisionInv N P ?c = decisionInv N P c"
    by (simp_all add: updateRoundState_def)
  have l: "Sequence (sub_View s) < sequence r' \<or> Sequence (sub_View s) = sequence r' \<and> lockedHash r' = Digest s \<and> Digest s \<noteq> 0"
    if s: "s \<in> goodCommits N c" for s
  proof -
    obtain r where r: "current c = Some r"
      "Sequence (sub_View s) < sequence r \<or> Sequence (sub_View s) = sequence r \<and> lockedHash r = Digest s \<and> Digest s \<noteq> 0"
      using assms(2) s unfolding inv0_def lockInv_def by blast
    show ?thesis
    proof (cases rc)
      case True
      then show ?thesis using r r'(2) r'(5) [rule_format, OF True assms(1) r(1)] assms(3) s by (auto simp: enters_def goodCommits_def)
    next
      case False
      then show ?thesis using r r'(2) assms(3) by (auto simp: enters_def)
    qed
  qed
  have "lockInv N ?c"
    unfolding lockInv_def f(5)
  proof (intro conjI)
    show "\<forall>s \<in> goodCommits N c. \<exists>r. current ?c = Some r \<and> (Sequence (sub_View s) < sequence r
        \<or> Sequence (sub_View s) = sequence r \<and> lockedHash r = Digest s \<and> Digest s \<noteq> 0)"
      using l r'(1) by blast
    show "\<forall>s \<in> goodCommits N c. \<forall>s' \<in> goodCommits N c. Sequence (sub_View s) = Sequence (sub_View s') \<longrightarrow> Digest s = Digest s'"
      using assms(2) unfolding inv0_def lockInv_def by blast
  qed
  moreover have "roundInv N P ?c r'" unfolding roundInv_def r'(2,3,4) f(1,2,3) assms(4) using assms(5) by simp
  moreover have "decisionInv N P ?c" "Ceil2Nby3Block ?c = Some (ceilBlock N)" using assms(2) f(4,6) by (auto simp only: inv0_def)
  ultimately show ?thesis unfolding inv_def using r'(1) by (metis option.inject)
qed

lemma inv_catchUpRound:
  assumes "goodBackend N B" and "inv N P c" and "current c = Some r" and "Sequence view = sequence r" and "catchUpRound B view c = Some c'"
  shows "inv N P c'"
proof -
  let ?c = "updateRoundState B view True (c\<lparr>waitingForRoundChange := True\<rparr>)"
  have "inv N P ?c"
    using inv_inv0 [OF assms(2)] inv_validators [OF assms(2,3)] assms(3,4)
    by (intro inv_updateRoundState [OF assms(1)]) (simp_all add: enters_def)
  then show ?thesis using assms(5) by (auto simp: catchUpRound_def bind_Some_iff Let_def dest!: inv_timer [where N = N and P = P])
qed

lemma inv_sendRoundChange:
  assumes "goodBackend N B" and "inv N P c" and "sendRoundChange B x c = Some c'"
  shows "inv N P c'"
proof -
  obtain r where r: "current c = Some r" using assms(3) by (auto simp: sendRoundChange_def currentView_def bind_Some_iff)
  show ?thesis
  proof (cases "round r \<ge> x")
    case True
    then show ?thesis using assms(2,3) r by (auto simp: sendRoundChange_def currentView_def bind_Some_iff)
  next
    case False
    then obtain c1 cv where c1: "catchUpRound B \<lparr>Round = x, Sequence = sequence r\<rparr> c = Some c1"
      "broadcast B (newMessage MsgRoundChange (encodeSubject B \<lparr>sub_View = cv, Digest = 0\<rparr>)) c1 = Some c'"
      using assms(3) r by (auto simp: sendRoundChange_def currentView_def bind_Some_iff)
    have "inv N P c1" by (rule inv_catchUpRound [OF assms(1,2) r _ c1(1)]) simp
    then show ?thesis using inv_broadcast [OF c1(2)] by (simp add: newMessage_def)
  qed
qed

lemma inv_sendNextRoundChange: "goodBackend N B \<Longrightarrow> inv N P c \<Longrightarrow> sendNextRoundChange B c = Some c' \<Longrightarrow> inv N P c'"
  by (auto simp: sendNextRoundChange_def bind_Some_iff intro: inv_sendRoundChange)

lemma inv_setState: "inv N P (setState st c) = inv N P (c\<lparr>state := st\<rparr>)"
  by (simp add: setState_def inv_emit plain_def Let_def)

lemma inv_CalcProposer: "inv N P (c\<lparr>valSet := CalcProposer p x (valSet c)\<rparr>) = inv N P c"
  by (simp add: inv_def lockInv_def roundInv_def)

lemma enterRound_steps:
  assumes "enterRound B view rc c = Some c'"
    and "c1 = updateRoundState B view rc (c\<lparr>roundChanges_of := newRoundChangeSet (valSet c)\<rparr>)"
    and "c3 = setState StateAcceptRequest (c1\<lparr>valSet := CalcProposer (snd (LastProposal B)) (word_of_int (Round view)) (valSet c1), waitingForRoundChange := False\<rparr>)"
  shows "\<exists>c4. (c4 = c3 \<or> (\<exists>p. sendPreprepare B p c3 = Some c4)) \<and> newRoundChangeTimer c4 = Some c'"
proof -
  obtain c4 where "(if rc \<and> core_IsProposer c3 then
        do { r \<leftarrow> current c3; if IsHashLocked B r then do { p \<leftarrow> Proposal_of r; sendPreprepare B p c3 }
             else case pendingRequest r of Some p \<Rightarrow> sendPreprepare B p c3 | None \<Rightarrow> Some c3 }
      else Some c3) = Some c4" "newRoundChangeTimer c4 = Some c'"
    using assms(1) unfolding assms(2,3) by (auto simp: enterRound_def Let_def bind_Some_iff)
  then show ?thesis by (auto simp: bind_Some_iff split: if_splits option.splits)
qed

lemma inv_enterRound:
  assumes "goodBackend N B" and "inv0 N P c" and "enters view rc c" and "validators (valSet c) = vals N (Sequence view)"
    and "enterRound B view rc c = Some c'"
  shows "inv N P c'"
proof -
  let ?c0 = "c\<lparr>roundChanges_of := newRoundChangeSet (valSet c), waitingForRoundChange := False, state := StateAcceptRequest\<rparr>"
  let ?c1 = "updateRoundState B view rc (c\<lparr>roundChanges_of := newRoundChangeSet (valSet c)\<rparr>)"
  let ?c2 = "?c1\<lparr>valSet := CalcProposer (snd (LastProposal B)) (word_of_int (Round view)) (valSet ?c1)\<rparr>"
  let ?c3 = "setState StateAcceptRequest (?c2\<lparr>waitingForRoundChange := False\<rparr>)"
  have "inv N P (updateRoundState B view rc ?c0)"
    using assms(2-4) by (intro inv_updateRoundState [OF assms(1)]) (simp_all add: enters_def)
  moreover have "?c2\<lparr>waitingForRoundChange := False, state := StateAcceptRequest\<rparr> = (updateRoundState B view rc ?c0)
      \<lparr>valSet := CalcProposer (snd (LastProposal B)) (word_of_int (Round view)) (valSet (updateRoundState B view rc ?c0))\<rparr>"
    by (simp add: updateRoundState_def cong: option.case_cong if_cong)
  ultimately have i3: "inv N P ?c3" unfolding inv_setState using inv_CalcProposer by metis
  obtain c4 where c4: "c4 = ?c3 \<or> (\<exists>p. sendPreprepare B p ?c3 = Some c4)" "newRoundChangeTimer c4 = Some c'"
    using enterRound_steps [OF assms(5) refl refl] by auto
  have "inv N P c4" using c4(1) i3 inv_sendPreprepare [where N = N and P = P] by blast
  then show ?thesis using inv_timer [OF c4(2)] by simp
qed

lemma roundStart_enters:
  "roundStartOf lp x c = NextRound \<Longrightarrow> \<exists>r. current c = Some r \<and> round r \<le> x"
  "roundStartOf lp x c = NewSequence \<Longrightarrow> current c = Some r \<Longrightarrow> sequence r < p_Number lp + 1"
  by (auto simp: roundStartOf_def Let_def split: option.splits if_splits)

lemma inv_startNewRound:
  assumes "goodBackend N B" and "inv N P c" and "startNewRound B x c = Some c'"
  shows "inv N P c'"
proof -
  obtain lp where lp: "fst (LastProposal B) = Some lp" using assms(3) by (auto simp: startNewRound_def bind_Some_iff)
  have q: "\<not> IsQBFTConsensusAt B n" for n using assms(1) by (simp add: goodBackend_def)
  show ?thesis
  proof (cases "roundStartOf lp x c")
    case NoRound
    then show ?thesis using assms(2,3) lp by (simp add: startNewRound_def)
  next
    case NextRound
    then obtain r where r: "current c = Some r" using roundStart_enters(1) by blast
    have "enterRound B \<lparr>Round = x, Sequence = sequence r\<rparr> True c = Some c'"
      using assms(3) lp NextRound r q by (simp add: startNewRound_def currentView_def)
    then show ?thesis using inv_validators [OF assms(2) r] r
      by (intro inv_enterRound [OF assms(1) inv_inv0 [OF assms(2)]]) (simp_all add: enters_def)
  next
    case NewSequence
    obtain vs where vs: "Validators B lp = Some vs" "enterRound B \<lparr>Round = 0, Sequence = p_Number lp + 1\<rparr> False (c\<lparr>valSet := vs\<rparr>) = Some c'"
      using assms(3) lp NewSequence q by (auto simp: startNewRound_def bind_Some_iff)
    have "validators vs = vals N (p_Number lp + 1)" using assms(1) vs(1) by (simp add: goodBackend_def)
    then show ?thesis using inv_inv0 [OF assms(2)] roundStart_enters(2) [OF NewSequence] vs(2)
      by (intro inv_enterRound [OF assms(1)]) (simp_all add: enters_def)
  qed
qed

subsection \<open>Messages\<close>

lemma checkMessage_ok:
  assumes "checkMessage code v c = Some None" and "code \<noteq> MsgRoundChange"
  shows "\<exists>r. current c = Some r \<and> v = \<lparr>Round = round r, Sequence = sequence r\<rparr>" "\<not> waitingForRoundChange c"
    "MsgPreprepare < code \<Longrightarrow> state c \<noteq> StateAcceptRequest"
  using assms by (cases "current c"; auto simp: checkMessage_def currentView_def View_Cmp_def split: if_splits)+

text \<open>A commit message for the locked proposal.\<close>

lemma inv_sendCommit:
  assumes "goodBackend N B" and "inv N P c" and "current c = Some r" and "Preprepare_of r = Some pp" and "lockedHash r = p_Hash (pp_Proposal pp)"
    and "lockedHash r \<noteq> 0" and "sendCommit B c = Some c'"
  shows "inv N P c'"
proof -
  define s where "s = \<lparr>sub_View = \<lparr>Round = round r, Sequence = sequence r\<rparr>, Digest = p_Hash (pp_Proposal pp)\<rparr>"
  have sub: "Subject_of r = Some s" by (simp add: Subject_of_def assms(4) s_def)
  have "broadcast B (newMessage MsgCommit (encodeSubject B s)) c = Some c'"
    using assms(3,7) sub by (simp add: sendCommit_def broadcastCommit_def)
  then show ?thesis
  proof (cases rule: broadcast_cases)
    case (2 m)
    have "dec N (Msg m) = Some s" using 2(2) assms(1) by (simp add: newMessage_def goodBackend_def)
    then have "sentCommits N c' = insert s (sentCommits N c)"
      using 2(1,4) by (auto simp: sentCommits_def emit_def newMessage_def)
    then have sc: "goodCommits N c' \<subseteq> insert s (goodCommits N c)" by (auto simp: goodCommits_def)
    have old: "Sequence (sub_View t) < sequence r \<or> Sequence (sub_View t) = sequence r \<and> Digest t = Digest s" if t: "t \<in> goodCommits N c" for t
    proof -
      have "Sequence (sub_View t) < sequence r \<or> Sequence (sub_View t) = sequence r \<and> lockedHash r = Digest t"
        using assms(2,3) t unfolding inv_def lockInv_def by (metis option.inject)
      then show ?thesis using assms(5) by (auto simp: s_def)
    qed
    have "lockInv N c'"
      unfolding lockInv_def
    proof (intro conjI ballI impI)
      fix t assume "t \<in> goodCommits N c'"
      then have "t \<in> insert s (goodCommits N c)" using sc by (rule subsetD [rotated])
      then have "Sequence (sub_View t) < sequence r \<or> Sequence (sub_View t) = sequence r \<and> Digest t = Digest s" using old by (auto simp: s_def)
      then show "\<exists>r. current c' = Some r \<and> (Sequence (sub_View t) < sequence r
          \<or> Sequence (sub_View t) = sequence r \<and> lockedHash r = Digest t \<and> Digest t \<noteq> 0)"
        using assms(3,5,6) 2(4) by (auto simp: emit_def s_def)
    next
      fix t u assume in_c': "t \<in> goodCommits N c'" "u \<in> goodCommits N c'" and eq: "Sequence (sub_View t) = Sequence (sub_View u)"
      have tu: "t \<in> insert s (goodCommits N c)" "u \<in> insert s (goodCommits N c)" "Sequence (sub_View t) = Sequence (sub_View u)"
        using subsetD [OF sc] in_c' eq by blast+
      have "Digest t = Digest u" if "t \<in> goodCommits N c" "u \<in> goodCommits N c"
        using assms(2) that tu(3) unfolding inv_def lockInv_def by blast
      moreover have "Sequence (sub_View s) = sequence r" by (simp add: s_def)
      ultimately show "Digest t = Digest u" using tu old [of t] old [of u] by auto
    qed
    moreover have "decisionInv N P c'" "Ceil2Nby3Block c' = Some (ceilBlock N)"
      using assms(2) 2(4) by (auto simp: inv_def decisionInv_def emit_def)
    moreover have "roundInv N P c' r" "current c' = Some r"
      using inv_roundInv [OF assms(2,3)] assms(3) 2(4) by (simp_all add: emit_def roundInv_def)
    ultimately show ?thesis by (simp add: inv_def)
  qed (use assms(2) in simp)
qed

text \<open>A change of the round that keeps the number and the lock, or sets the lock where there is none or one on a block that goes bad.\<close>

lemma inv_current:
  assumes "inv N P c" and "current c = Some r" and "sequence r' = sequence r" and "lockedHash r = 0 \<or> lockedHash r \<in> bad N \<or> lockedHash r' = lockedHash r"
    and "roundInv N P (c\<lparr>state := st\<rparr>) r'"
  shows "inv N P (c\<lparr>current := Some r', state := st\<rparr>)"
proof -
  have "\<exists>q. current (c\<lparr>current := Some r', state := st\<rparr>) = Some q \<and> (Sequence (sub_View s) < sequence q
      \<or> Sequence (sub_View s) = sequence q \<and> lockedHash q = Digest s \<and> Digest s \<noteq> 0)" if s: "s \<in> goodCommits N c" for s
  proof -
    have "Sequence (sub_View s) < sequence r \<or> Sequence (sub_View s) = sequence r \<and> lockedHash r = Digest s \<and> Digest s \<noteq> 0"
      using assms(1,2) s unfolding inv_def lockInv_def by (metis option.inject)
    then show ?thesis using assms(3,4) s by (auto simp: goodCommits_def)
  qed
  moreover have "roundInv N P (c\<lparr>current := Some r', state := st\<rparr>) r'" using assms(5) by (simp add: roundInv_def)
  moreover have "\<forall>s \<in> goodCommits N c. \<forall>s' \<in> goodCommits N c. Sequence (sub_View s) = Sequence (sub_View s') \<longrightarrow> Digest s = Digest s'"
    "decisionInv N P c" "Ceil2Nby3Block c = Some (ceilBlock N)"
    using assms(1) unfolding inv_def lockInv_def by blast+
  moreover have "goodCommits N (c\<lparr>current := Some r', state := st\<rparr>) = goodCommits N c" "Ceil2Nby3Block (c\<lparr>current := Some r', state := st\<rparr>) = Ceil2Nby3Block c"
    "decisionInv N P (c\<lparr>current := Some r', state := st\<rparr>) = decisionInv N P c" "current (c\<lparr>current := Some r', state := st\<rparr>) = Some r'" by simp_all
  ultimately show ?thesis unfolding inv_def lockInv_def by (metis option.inject)
qed

lemma Subject_of_fields [simp]:
  "Subject_of (r\<lparr>Prepares := x\<rparr>) = Subject_of r" "Subject_of (r\<lparr>Commits := x\<rparr>) = Subject_of r" "Subject_of (r\<lparr>lockedHash := h\<rparr>) = Subject_of r"
  "Subject_of (r\<lparr>pendingRequest := p\<rparr>) = Subject_of r"
  by (simp_all add: Subject_of_def cong: option.case_cong)

lemma setState_fields [simp]:
  "current (setState st c) = current c" "valSet (setState st c) = valSet c" "state (setState st c) = st"
  "waitingForRoundChange (setState st c) = waitingForRoundChange c" "Ceil2Nby3Block (setState st c) = Ceil2Nby3Block c"
  by (simp_all add: setState_def emit_def Let_def)

lemma inv_takePreprepare:
  assumes "goodBackend N B" and "inv N P c" and "\<not> waitingForRoundChange c" and "Verify B (pp_Proposal pp) = None" and "takePreprepare B pp c = Some c'"
  shows "inv N P c'"
proof (cases "state c = StateAcceptRequest")
  case True
  then obtain r where r: "current c = Some r" using assms(5) by (auto simp: takePreprepare_def bind_Some_iff)
  have h: "p_Hash (pp_Proposal pp) \<noteq> 0" using assms(1,4) by (simp add: goodBackend_def)
  have ri: "roundInv N P c r" by (rule inv_roundInv [OF assms(2) r])
  let ?r = "r\<lparr>Preprepare_of := Some pp\<rparr>"
  have ai: "inv N P (setState st (c\<lparr>current := Some ?r\<rparr>))" if "lockedHash r = 0 \<or> lockedHash r \<in> bad N \<or> lockedHash r = p_Hash (pp_Proposal pp)" for st
    unfolding inv_setState using ri that h True by (intro inv_current [OF assms(2) r]) (auto simp: roundInv_def)
  consider (same) "lockedHash r \<noteq> 0" "p_Hash (pp_Proposal pp) = lockedHash r" "sendCommit B (setState StatePrepared (c\<lparr>current := Some ?r\<rparr>)) = Some c'"
    | (other) "sendNextRoundChange B c = Some c'"
    | (free) "lockedHash r = 0 \<or> lockedHash r \<in> bad N" "sendPrepare B (setState StatePreprepared (c\<lparr>current := Some ?r\<rparr>)) = Some c'"
    using assms(5) r True unlocked_bad [OF assms(1), of r] by (auto simp: takePreprepare_def acceptPreprepare_def IsHashLocked_def split: if_splits)
  then show ?thesis
  proof cases
    case same
    then show ?thesis using h ai by (intro inv_sendCommit [OF assms(1) ai _ _ _ _ same(3), where r = ?r and pp = pp]) simp_all
  next
    case other
    then show ?thesis by (rule inv_sendNextRoundChange [OF assms(1,2)])
  next
    case free
    then show ?thesis using inv_sendPrepare [OF free(2)] ai by blast
  qed
qed (use assms(2,5) in \<open>simp add: takePreprepare_def\<close>)

text \<open>Whether a message is a proposal of an earlier view that the validator answers with a commit message.\<close>

definition answersOld :: "Backend \<Rightarrow> Message \<Rightarrow> core \<Rightarrow> bool" where
  "answersOld B msg c =
     (Code msg = MsgPreprepare \<and> (case decodePreprepare B (Msg msg) of None \<Rightarrow> False
      | Some pp \<Rightarrow> checkMessage MsgPreprepare (pp_View pp) c = Some (Some ErrOldMessage)
          \<and> HasPropsal B (p_Hash (pp_Proposal pp)) (p_Number (pp_Proposal pp))))"

lemma inv_handlePreprepare:
  assumes "goodBackend N B" and "inv N P c" and "Code msg = MsgPreprepare" and "\<not> answersOld B msg c" and "handlePreprepare B msg src c = Some (c', err)"
  shows "inv N P c'"
proof (cases "decodePreprepare B (Msg msg)")
  case (Some pp)
  obtain e where e: "checkMessage MsgPreprepare (pp_View pp) c = Some e" using assms(5) Some by (auto simp: handlePreprepare_def bind_Some_iff)
  show ?thesis
  proof (cases e)
    case None
    have w: "\<not> waitingForRoundChange c" by (rule checkMessage_ok(2) [OF e [unfolded None]]) (simp add: MsgPreprepare_def MsgRoundChange_def)
    show ?thesis using assms(2,5) Some e None
      by (auto simp: handlePreprepare_def handled_ok_def bind_Some_iff inv_emit plain_def split: if_splits option.splits
          intro: inv_sendNextRoundChange [OF assms(1,2)] inv_takePreprepare [OF assms(1,2) w])
  next
    case (Some e')
    then show ?thesis using assms(2-5) \<open>decodePreprepare B (Msg msg) = Some pp\<close> e
      by (auto simp: handlePreprepare_def oldPreprepare_def answersOld_def bind_Some_iff Let_def split: if_splits)
  qed
qed (use assms in \<open>simp add: handlePreprepare_def\<close>)

text \<open>The checks that prepare and commit messages go through.\<close>

definition checkedSubject :: "Backend \<Rightarrow> u64 \<Rightarrow> Message \<Rightarrow> core \<Rightarrow> Subject \<Rightarrow> roundState \<Rightarrow> bool" where
  "checkedSubject B code msg c sub r \<longleftrightarrow> decodeSubject B (Msg msg) = Some sub \<and> checkMessage code (sub_View sub) c = Some None
     \<and> current c = Some r \<and> Subject_of r = Some sub"

lemma checkedSubject_cases:
  assumes "(case decodeSubject B (Msg msg) of None \<Rightarrow> Some (c, Some e0)
      | Some sub \<Rightarrow> do { err \<leftarrow> checkMessage code (sub_View sub) c;
          case err of Some e \<Rightarrow> Some (c, Some e) | None \<Rightarrow>
          do { err \<leftarrow> verifySubject sub c; case err of Some e \<Rightarrow> Some (c, Some e) | None \<Rightarrow> k sub } }) = Some (c', err)"
  shows "c' = c \<or> (\<exists>sub r. checkedSubject B code msg c sub r \<and> k sub = Some (c', err))"
proof (cases "decodeSubject B (Msg msg)")
  case (Some sub)
  show ?thesis
  proof (cases "checkMessage code (sub_View sub) c")
    case (Some e)
    then show ?thesis using assms \<open>decodeSubject B (Msg msg) = Some sub\<close>
      by (cases e; cases "current c"; simp add: verifySubject_def checkedSubject_def split: if_splits)
  qed (use assms Some in simp)
qed (use assms in simp)

lemma handlePrepare_cases:
  assumes "handlePrepare B msg src c = Some (c', err)"
  shows "c' = c \<or> (\<exists>sub r. checkedSubject B MsgPrepare msg c sub r \<and>
     (c' = c\<lparr>current := Some (r\<lparr>Prepares := fst (ms_Add msg (Prepares r))\<rparr>)\<rparr>
      \<or> sendCommit B (setState StatePrepared (c\<lparr>current := Some (LockHash (r\<lparr>Prepares := fst (ms_Add msg (Prepares r))\<rparr>))\<rparr>)) = Some c'))"
proof -
  note * = checkedSubject_cases [OF assms [unfolded handlePrepare_def]]
  show ?thesis
  proof (cases "c' = c")
    case False
    then obtain sub r where s: "checkedSubject B MsgPrepare msg c sub r"
      "(do { c1 \<leftarrow> acceptPrepare msg c; r \<leftarrow> current c1;
         if (IsHashLocked B r \<and> Digest sub = lockedHash r \<or> GetPrepareOrCommitSize r \<ge> QuorumSize c1) \<and> stateRank (state c1) < stateRank StatePrepared
         then handled_ok (sendCommit B (setState StatePrepared (c1\<lparr>current := Some (LockHash r)\<rparr>))) else Some (c1, None) }) = Some (c', err)"
      using * by blast
    then have r: "current c = Some r" by (simp add: checkedSubject_def)
    show ?thesis using s r by (auto simp: acceptPrepare_def handled_ok_def split: if_splits)
  qed simp
qed

lemma inv_handlePrepare:
  assumes "goodBackend N B" and "inv N P c" and "handlePrepare B msg src c = Some (c', err)"
  shows "inv N P c'"
proof -
  consider "c' = c"
    | sub r where "checkedSubject B MsgPrepare msg c sub r" "c' = c\<lparr>current := Some (r\<lparr>Prepares := fst (ms_Add msg (Prepares r))\<rparr>)\<rparr>"
    | sub r where "checkedSubject B MsgPrepare msg c sub r"
        "sendCommit B (setState StatePrepared (c\<lparr>current := Some (LockHash (r\<lparr>Prepares := fst (ms_Add msg (Prepares r))\<rparr>))\<rparr>)) = Some c'"
    using handlePrepare_cases [OF assms(3)] by blast
  then show ?thesis
  proof cases
    case 1
    then show ?thesis using assms(2) by simp
  next
    case (2 prepare r)
    then have c: "current c = Some r" by (simp add: checkedSubject_def)
    have "inv N P (c\<lparr>current := Some (r\<lparr>Prepares := fst (ms_Add msg (Prepares r))\<rparr>), state := state c\<rparr>)"
      using inv_roundInv [OF assms(2) c] by (intro inv_current [OF assms(2) c]) (simp_all add: roundInv_def)
    then show ?thesis using 2(2) by simp
  next
    case (3 prepare r)
    then have c: "current c = Some r" "checkMessage MsgPrepare (sub_View prepare) c = Some None" by (simp_all add: checkedSubject_def)
    have st: "\<not> waitingForRoundChange c" "state c \<noteq> StateAcceptRequest"
      using checkMessage_ok(2,3) [OF c(2)] by (simp_all add: MsgPrepare_def MsgRoundChange_def MsgPreprepare_def)
    then obtain pp where pp: "Preprepare_of r = Some pp" "p_Hash (pp_Proposal pp) \<noteq> 0"
      "lockedHash r = 0 \<or> lockedHash r \<in> bad N \<or> lockedHash r = p_Hash (pp_Proposal pp)"
      using inv_roundInv [OF assms(2) c(1)] unfolding roundInv_def by auto
    let ?r = "LockHash (r\<lparr>Prepares := fst (ms_Add msg (Prepares r))\<rparr>)"
    have r: "?r = r\<lparr>Prepares := fst (ms_Add msg (Prepares r)), lockedHash := p_Hash (pp_Proposal pp)\<rparr>" by (simp add: LockHash_def pp(1))
    have "inv N P (setState StatePrepared (c\<lparr>current := Some ?r\<rparr>))"
      unfolding inv_setState using inv_roundInv [OF assms(2) c(1)] pp st
      by (intro inv_current [OF assms(2) c(1)]) (auto simp: r roundInv_def)
    then show ?thesis using pp by (intro inv_sendCommit [OF assms(1) _ _ _ _ _ 3(2), where r = ?r and pp = pp]) (simp_all add: r)
  qed
qed

lemma handleCommit_cases:
  assumes "handleCommit B msg src c = Some (c', err)"
  shows "c' = c \<or> (\<exists>sub r c1. checkedSubject B MsgCommit msg c sub r \<and> c1 = c\<lparr>current := Some (r\<lparr>Commits := fst (ms_Add msg (Commits r))\<rparr>)\<rparr> \<and>
     (c' = c1 \<or> ms_Size (fst (ms_Add msg (Commits r))) \<ge> QuorumSize c1
        \<and> commit B (c1\<lparr>current := Some (LockHash (r\<lparr>Commits := fst (ms_Add msg (Commits r))\<rparr>))\<rparr>) = Some c'))"
proof -
  note * = checkedSubject_cases [OF assms [unfolded handleCommit_def]]
  show ?thesis
  proof (cases "c' = c")
    case False
    then obtain sub r where s: "checkedSubject B MsgCommit msg c sub r"
      "(do { c1 \<leftarrow> acceptCommit msg c; r \<leftarrow> current c1;
         if ms_Size (Commits r) \<ge> QuorumSize c1 \<and> stateRank (state c1) < stateRank StateCommitted
         then handled_ok (commit B (c1\<lparr>current := Some (LockHash r)\<rparr>)) else Some (c1, None) }) = Some (c', err)"
      using * by blast
    then have r: "current c = Some r" by (simp add: checkedSubject_def)
    show ?thesis using s r by (auto simp: acceptCommit_def handled_ok_def split: if_splits)
  qed simp
qed

text \<open>A message is kept under its sender, if that is a validator.\<close>

lemma set_AList_update: "set (AList.update k v al) \<subseteq> insert (k, v) (set al)"
  by (induction al) auto

lemma inv_acceptCommit:
  assumes "goodBackend N B" and "inv N P c" and "checkedSubject B MsgCommit msg c sub r" and "Code msg = MsgCommit" and "P msg"
  shows "inv N P (c\<lparr>current := Some (r\<lparr>Commits := fst (ms_Add msg (Commits r))\<rparr>)\<rparr>)"
proof -
  let ?r = "r\<lparr>Commits := fst (ms_Add msg (Commits r))\<rparr>"
  have c: "current c = Some r" "Subject_of r = Some sub" "decodeSubject B (Msg msg) = Some sub" "checkMessage MsgCommit (sub_View sub) c = Some None"
    using assms(3) by (simp_all add: checkedSubject_def)
  have st: "\<not> waitingForRoundChange c" "state c \<noteq> StateAcceptRequest"
    using checkMessage_ok(2,3) [OF c(4)] by (simp_all add: MsgCommit_def MsgRoundChange_def MsgPreprepare_def)
  have ri: "roundInv N P c r" by (rule inv_roundInv [OF assms(2) c(1)])
  have s: "Subject_of ?r = Some sub" using c(2) by simp
  have seq: "Sequence (sub_View sub) = sequence r" using c(2) by (auto simp: Subject_of_def split: option.splits)
  have "goodCommit N P sub x" if x: "x \<in> set (messages (Commits ?r))" for x
  proof -
    have "x \<in> set (messages (Commits r)) \<or> x = (msg_Address msg, msg) \<and> msg_Address msg \<in> set (validators (ms_valSet (Commits r)))"
      using x set_AList_update [of "msg_Address msg" msg "messages (Commits r)"] by (auto simp: ms_Add_def split: if_splits)
    moreover have "dec N (Msg msg) = Some sub" using assms(1) c(3) by (simp add: goodBackend_def)
    ultimately show ?thesis using ri c(2) assms(4,5) seq by (auto simp: roundInv_def goodCommit_def)
  qed
  moreover have "distinct (map fst (messages (Commits ?r)))"
    using ri by (auto simp: roundInv_def ms_Add_def distinct_update)
  moreover have "ms_valSet (Commits ?r) = ms_valSet (Commits r)" by (simp add: ms_Add_def)
  ultimately have "roundInv N P (c\<lparr>state := state c\<rparr>) ?r" using ri s st by (simp add: roundInv_def)
  then have "inv N P (c\<lparr>current := Some ?r, state := state c\<rparr>)" by (intro inv_current [OF assms(2) c(1)]) simp_all
  then show ?thesis by simp
qed

lemma inv_commit:
  assumes "goodBackend N B" and "inv N P c" and "current c = Some r" and "state c \<noteq> StateAcceptRequest" and "\<not> waitingForRoundChange c"
    and "ms_Size (Commits r) \<ge> QuorumSize c" and "commit B (c\<lparr>current := Some (LockHash r)\<rparr>) = Some c'"
  shows "inv N P c'"
proof -
  have ri: "roundInv N P c r" by (rule inv_roundInv [OF assms(2,3)])
  then obtain pp where pp: "Preprepare_of r = Some pp" "p_Hash (pp_Proposal pp) \<noteq> 0"
      "lockedHash r = 0 \<or> lockedHash r \<in> bad N \<or> lockedHash r = p_Hash (pp_Proposal pp)"
    using assms(4,5) unfolding roundInv_def by auto
  let ?r = "r\<lparr>lockedHash := p_Hash (pp_Proposal pp)\<rparr>" and ?v = "\<lparr>Round = round r, Sequence = sequence r\<rparr>"
  let ?c = "setState StateCommitted (c\<lparr>current := Some ?r\<rparr>)"
  let ?d = "emit (CommitProposal ?v (pp_Proposal pp) (committedSeals r)) ?c"
  have c': "if Commit B (pp_Proposal pp) (committedSeals r) then c' = ?d else sendNextRoundChange B (?d\<lparr>current := Some (UnlockHash ?r)\<rparr>) = Some c'"
    using assms(7) pp(1) by (simp add: commit_def LockHash_def Proposal_of_def committedSeals_def Let_def split: if_splits)
  have i: "inv N P ?c" unfolding inv_setState using ri pp assms(4,5)
    by (intro inv_current [OF assms(2,3)]) (auto simp: roundInv_def)
  have "supported N P \<lparr>sub_View = ?v, Digest = p_Hash (pp_Proposal pp)\<rparr>" if b: "ceilBlock N \<le> sequence r"
  proof -
    have "QuorumSize c = ceil2Nby3 (valSet c)" using assms(2,3) b by (simp add: QuorumSize_def inv_def)
    then have "(2 * int (length (vals N (sequence r))) + 2) div 3 \<le> int (length (messages (Commits r)))"
      using assms(6) ri by (simp add: ceil2Nby3_def Size_def ms_Size_def roundInv_def)
    then show ?thesis using ri pp(1) unfolding supported_def by (intro exI [of _ "messages (Commits r)"]) (simp add: roundInv_def Subject_of_def)
  qed
  then have "decisionInv N P ?d" using i by (auto simp: inv_def decisionInv_def emit_def)
  moreover have "goodCommits N ?d = goodCommits N ?c" by (auto simp: goodCommits_def sentCommits_def emit_def)
  moreover have "current ?d = current ?c" "Ceil2Nby3Block ?d = Ceil2Nby3Block ?c" "roundInv N P ?d = roundInv N P ?c"
    by (simp_all add: emit_def roundInv_def fun_eq_iff)
  ultimately have d: "inv N P ?d" using i unfolding inv_def lockInv_def by metis
  show ?thesis
  proof (cases "Commit B (pp_Proposal pp) (committedSeals r)")
    case False
    have rd: "current ?d = Some ?r" "state ?d = StateCommitted" by (simp_all add: emit_def)
    have "p_Hash (pp_Proposal pp) \<in> bad N" using False assms(1) by (auto simp: goodBackend_def)
    then have "inv N P (?d\<lparr>current := Some (UnlockHash ?r), state := StateCommitted\<rparr>)"
      using inv_roundInv [OF d rd(1)] assms(5) by (intro inv_current [OF d rd(1)]) (auto simp: UnlockHash_def roundInv_def emit_def)
    moreover have "?d\<lparr>current := Some (UnlockHash ?r), state := StateCommitted\<rparr> = ?d\<lparr>current := Some (UnlockHash ?r)\<rparr>"
      by (simp add: emit_def setState_def Let_def)
    ultimately show ?thesis using inv_sendNextRoundChange [OF assms(1)] c' False by metis
  qed (use c' d in simp)
qed

lemma inv_handleCommit:
  assumes "goodBackend N B" and "inv N P c" and "Code msg = MsgCommit" and "P msg" and "handleCommit B msg src c = Some (c', err)"
  shows "inv N P c'"
proof (cases "c' = c")
  case False
  then obtain sub r where s: "checkedSubject B MsgCommit msg c sub r"
    and r: "c' = c\<lparr>current := Some (r\<lparr>Commits := fst (ms_Add msg (Commits r))\<rparr>)\<rparr>
        \<or> ms_Size (fst (ms_Add msg (Commits r))) \<ge> QuorumSize (c\<lparr>current := Some (r\<lparr>Commits := fst (ms_Add msg (Commits r))\<rparr>)\<rparr>)
          \<and> commit B (c\<lparr>current := Some (r\<lparr>Commits := fst (ms_Add msg (Commits r))\<rparr>), current := Some (LockHash (r\<lparr>Commits := fst (ms_Add msg (Commits r))\<rparr>))\<rparr>) = Some c'"
    using handleCommit_cases [OF assms(5)] by blast
  note i = inv_acceptCommit [OF assms(1,2) s assms(3,4)]
  have "\<not> waitingForRoundChange c" "state c \<noteq> StateAcceptRequest"
    using s checkMessage_ok(2,3) [of MsgCommit "sub_View sub" c] by (simp_all add: checkedSubject_def MsgCommit_def MsgRoundChange_def MsgPreprepare_def)
  then show ?thesis using r i by (auto intro: inv_commit [OF assms(1) i])
qed (use assms(2) in simp)

lemma handleRoundChange_cases:
  assumes "handleRoundChange B msg src c = Some (c', err)"
  shows "c' = c \<or> (\<exists>rcs x. c' = c\<lparr>roundChanges_of := rcs\<rparr> \<or> sendRoundChange B x (c\<lparr>roundChanges_of := rcs\<rparr>) = Some c'
    \<or> startNewRound B x (c\<lparr>roundChanges_of := rcs\<rparr>) = Some c')"
proof (cases "decodeSubject B (Msg msg)")
  case (Some rc)
  obtain rcs res where add: "rcs_Add (Round (sub_View rc)) msg (roundChanges_of c) = (rcs, res)" by (rule prod.exhaust)
  have "c' = c \<or> c' = c\<lparr>roundChanges_of := rcs\<rparr> \<or> sendRoundChange B (Round (sub_View rc)) (c\<lparr>roundChanges_of := rcs\<rparr>) = Some c'
      \<or> startNewRound B (Round (sub_View rc)) (c\<lparr>roundChanges_of := rcs\<rparr>) = Some c'"
    using assms Some by (auto simp: handleRoundChange_def bind_Some_iff add handled_ok_def Let_def split: if_splits option.splits sum.splits)
  then show ?thesis by blast
qed (use assms in \<open>simp add: handleRoundChange_def\<close>)

lemma inv_handleRoundChange:
  assumes "goodBackend N B" and "inv N P c" and "handleRoundChange B msg src c = Some (c', err)"
  shows "inv N P c'"
proof -
  have i: "inv N P (c\<lparr>roundChanges_of := rcs\<rparr>)" for rcs using assms(2) by simp
  show ?thesis using handleRoundChange_cases [OF assms(3)] assms(2) i inv_sendRoundChange [OF assms(1) i] inv_startNewRound [OF assms(1) i] by metis
qed

subsection \<open>Events\<close>

lemma inv_handleCheckedMsg:
  assumes "goodBackend N B" and "inv N P c" and "P msg" and "\<not> answersOld B msg c" and "handleCheckedMsg B msg src c = Some (c', err)"
  shows "inv N P c'"
proof -
  let ?h = "\<lambda>h. h = Some (c', err) \<or> (\<exists>c1. h = Some (c1, err) \<and> c' = storeBacklog msg src c1)"
  have "c' = c \<or> Code msg = MsgPreprepare \<and> ?h (handlePreprepare B msg src c) \<or> ?h (handlePrepare B msg src c)
      \<or> Code msg = MsgCommit \<and> ?h (handleCommit B msg src c) \<or> ?h (handleRoundChange B msg src c)"
    using assms(5) by (auto simp: handleCheckedMsg_def Let_def split: if_splits)
  moreover have "inv N P (storeBacklog msg src c1) = inv N P c1" for c1 by (simp add: storeBacklog_def inv_emit plain_def)
  ultimately show ?thesis
    using assms(2) inv_handlePreprepare [OF assms(1,2) _ assms(4)] inv_handlePrepare [OF assms(1,2)] inv_handleCommit [OF assms(1,2) _ assms(3)]
      inv_handleRoundChange [OF assms(1,2)] by metis
qed

lemma inv_handleTimeoutMsg: "goodBackend N B \<Longrightarrow> inv N P c \<Longrightarrow> handleTimeoutMsg B c = Some c' \<Longrightarrow> inv N P c'"
  by (auto simp: handleTimeoutMsg_def bind_Some_iff split: if_splits option.splits intro: inv_sendRoundChange inv_startNewRound inv_sendNextRoundChange)

lemma inv_handleRequest:
  assumes "inv N P c" and "handleRequest B request c = Some (c', err)"
  shows "inv N P c'"
proof -
  obtain r where r: "current c = Some r" using assms(2) by (auto simp: handleRequest_def bind_Some_iff)
  let ?c = "c\<lparr>current := Some (r\<lparr>pendingRequest := request\<rparr>)\<rparr>"
  have "inv N P (c\<lparr>current := Some (r\<lparr>pendingRequest := request\<rparr>), state := state c\<rparr>)"
    using inv_roundInv [OF assms(1) r] by (intro inv_current [OF assms(1) r]) (simp_all add: roundInv_def)
  then have i: "inv N P ?c" by simp
  have "c' = c \<or> c' = ?c \<or> (\<exists>p. sendPreprepare B p ?c = Some c')"
    using assms(2) r by (auto simp: handleRequest_def bind_Some_iff handled_ok_def Let_def split: if_splits option.splits)
  then show ?thesis using assms(1) i inv_sendPreprepare by blast
qed

text \<open>The message an event brings in, if it is taken at all.\<close>

definition delivered :: "Backend \<Rightarrow> event \<Rightarrow> core \<Rightarrow> Message option" where
  "delivered B ev c =
     (case ev of MessageEvent code payload \<Rightarrow> (case FromPayload B (validators (valSet c)) payload of Inr m \<Rightarrow> Some m | Inl e \<Rightarrow> None)
      | BacklogEvent msg src \<Rightarrow> Some msg | _ \<Rightarrow> None)"

lemma inv_handleEvent:
  assumes "goodBackend N B" and "inv N P c" and "\<forall>m. delivered B ev c = Some m \<longrightarrow> P m \<and> \<not> answersOld B m c" and "handleEvent B ev c = Some c'" and "ev \<noteq> Stop"
  shows "inv N P c'"
proof (cases ev)
  case Start
  then show ?thesis using assms(4) inv_startNewRound [OF assms(1,2)] by (simp add: handleEvent_def)
next
  case Stop
  then show ?thesis using assms(5) by simp
next
  case (RequestEvent request)
  then show ?thesis using assms(2,4) inv_handleRequest [OF assms(2)]
    by (auto simp: handleEvent_def bind_Some_iff inv_emit plain_def split: option.splits if_splits)
next
  case (MessageEvent code payload)
  show ?thesis
  proof (cases "\<exists>m. delivered B ev c = Some m")
    case True
    then obtain m where m: "FromPayload B (validators (valSet c)) payload = Inr m" "P m" "\<not> answersOld B m c"
      using assms(3) MessageEvent by (auto simp: delivered_def split: sum.splits)
    then show ?thesis using assms(2,4) MessageEvent inv_handleCheckedMsg [OF assms(1,2) m(2,3)]
      by (auto simp: handleEvent_def handleMsg_def bind_Some_iff inv_emit plain_def split: option.splits if_splits)
  next
    case False
    then show ?thesis using assms(2,4) MessageEvent
      by (auto simp: handleEvent_def handleMsg_def delivered_def bind_Some_iff inv_emit plain_def split: sum.splits if_splits)
  qed
next
  case (BacklogEvent msg src)
  then have m: "P msg" "\<not> answersOld B msg c" using assms(3) by (simp_all add: delivered_def)
  then show ?thesis using assms(4) BacklogEvent inv_handleCheckedMsg [OF assms(1,2) m]
    by (auto simp: handleEvent_def bind_Some_iff inv_emit plain_def split: if_splits)
next
  case TimeoutEvent
  then show ?thesis using assms(4) inv_handleTimeoutMsg [OF assms(1,2)] by (simp add: handleEvent_def)
next
  case FinalCommittedEvent
  then show ?thesis using assms(4) inv_startNewRound [OF assms(1,2)] by (auto simp: handleEvent_def bind_Some_iff)
qed

lemma inv_newCore: "inv N P (newCore (Some (ceilBlock N)) a pol)"
  by (simp add: inv_def lockInv_def goodCommits_def decisionInv_def newCore_def sentCommits_def)

lemma inv_mono:
  assumes "inv N P c" and "\<And>m. P m \<Longrightarrow> Q m"
  shows "inv N Q c"
proof -
  have g: "goodCommit N P s x \<Longrightarrow> goodCommit N Q s x" for s x using assms(2) by (auto simp: goodCommit_def)
  then have "supported N P s \<Longrightarrow> supported N Q s" for s unfolding supported_def by blast
  then have "decisionInv N Q c" using assms(1) unfolding inv_def decisionInv_def by blast
  moreover have "roundInv N P c r \<Longrightarrow> roundInv N Q c r" for r using g unfolding roundInv_def by blast
  ultimately show ?thesis using assms(1) unfolding inv_def by blast
qed

subsection \<open>What was done stays done\<close>

definition grows :: "core \<Rightarrow> core \<Rightarrow> bool" where
  "grows c c' \<longleftrightarrow> set (effects c) \<subseteq> set (effects c')"

lemma grows_refl [simp]: "grows c c" by (simp add: grows_def)

lemma grows_trans: "grows a b \<Longrightarrow> grows b c \<Longrightarrow> grows a c" by (auto simp: grows_def)

lemma grows_emit: "grows c c' \<Longrightarrow> grows c (emit e c')" by (auto simp: grows_def emit_def)

lemma grows_fields [simp]:
  "grows c (c'\<lparr>current := x\<rparr>) = grows c c'" "grows c (c'\<lparr>roundChanges_of := y\<rparr>) = grows c c'" "grows c (c'\<lparr>valSet := z\<rparr>) = grows c c'"
  "grows c (c'\<lparr>waitingForRoundChange := w\<rparr>) = grows c c'" "grows c (updateRoundState B v rc c') = grows c c'"
  "grows (c\<lparr>current := x\<rparr>) c' = grows c c'" "grows (c\<lparr>roundChanges_of := y\<rparr>) c' = grows c c'" "grows (c\<lparr>valSet := z\<rparr>) c' = grows c c'"
  "grows (c\<lparr>waitingForRoundChange := w\<rparr>) c' = grows c c'" "grows (updateRoundState B v rc c) c' = grows c c'"
  by (simp_all add: grows_def updateRoundState_def)

lemma grows_setState: "grows (setState st c) c' \<Longrightarrow> grows c c'"
  by (auto simp: grows_def setState_def emit_def Let_def split: if_splits)

lemma grows_emitted: "grows (emit e c) c' \<Longrightarrow> grows c c'"
  by (auto simp: grows_def emit_def)

lemma grows_broadcast: "broadcast B msg c = Some c' \<Longrightarrow> grows c c'"
  by (erule broadcast_cases) (simp_all add: grows_emit)

lemma grows_send:
  "sendPreprepare B p c = Some c' \<Longrightarrow> grows c c'" "sendPrepare B c = Some c' \<Longrightarrow> grows c c'" "sendCommit B c = Some c' \<Longrightarrow> grows c c'"
  "sendCommitForOldBlock B v h c = Some c' \<Longrightarrow> grows c c'" "newRoundChangeTimer c = Some c' \<Longrightarrow> grows c c'"
  by (auto simp: sendPreprepare_def sendPrepare_def sendCommit_def sendCommitForOldBlock_def broadcastCommit_def newRoundChangeTimer_def bind_Some_iff
      grows_emit split: if_splits intro: grows_broadcast)

lemma grows_sendRoundChange: "sendRoundChange B x c = Some c' \<Longrightarrow> grows c c'"
  by (auto simp: sendRoundChange_def catchUpRound_def bind_Some_iff Let_def split: if_splits dest!: grows_broadcast grows_send(5) intro: grows_trans)

lemma grows_sendNextRoundChange: "sendNextRoundChange B c = Some c' \<Longrightarrow> grows c c'"
  by (auto simp: sendNextRoundChange_def bind_Some_iff intro: grows_sendRoundChange)

lemma grows_enterRound: "enterRound B v rc c = Some c' \<Longrightarrow> grows c c'"
proof -
  assume e: "enterRound B v rc c = Some c'"
  obtain c1 c3 where c1: "c1 = updateRoundState B v rc (c\<lparr>roundChanges_of := newRoundChangeSet (valSet c)\<rparr>)"
    and c3: "c3 = setState StateAcceptRequest (c1\<lparr>valSet := CalcProposer (snd (LastProposal B)) (word_of_int (Round v)) (valSet c1), waitingForRoundChange := False\<rparr>)"
    by blast
  have "grows c3 c'" using enterRound_steps [OF e c1 c3] grows_send(1,5) grows_trans by blast
  then show ?thesis unfolding c3 using grows_setState c1 by fastforce
qed

lemma grows_startNewRound: "startNewRound B x c = Some c' \<Longrightarrow> grows c c'"
  by (auto simp: startNewRound_def bind_Some_iff grows_emit split: if_splits roundStart.splits dest!: grows_enterRound)

lemma grows_takePreprepare: "takePreprepare B pp c = Some c' \<Longrightarrow> grows c c'"
  by (auto simp: takePreprepare_def acceptPreprepare_def bind_Some_iff split: if_splits
      dest!: grows_send(2,3) grows_setState intro: grows_sendNextRoundChange)

lemma grows_handlePreprepare: "handlePreprepare B msg src c = Some (c', err) \<Longrightarrow> grows c c'"
  by (auto simp: handlePreprepare_def oldPreprepare_def handled_ok_def bind_Some_iff Let_def grows_emit split: if_splits option.splits
      intro: grows_sendNextRoundChange grows_takePreprepare grows_send(4))

lemma grows_handlePrepare:
  assumes "handlePrepare B msg src c = Some (c', err)"
  shows "grows c c'"
proof -
  have "grows c c'" if "sendCommit B (setState StatePrepared (c\<lparr>current := r\<rparr>)) = Some c'" for r
    using grows_setState [OF grows_send(3) [OF that]] by simp
  then show ?thesis using handlePrepare_cases [OF assms] by auto
qed

lemma grows_commit: "commit B c = Some c' \<Longrightarrow> grows c c'"
  by (rule grows_setState [of StateCommitted])
    (auto simp: commit_def bind_Some_iff Let_def grows_emit split: if_splits option.splits dest!: grows_sendNextRoundChange grows_emitted)

lemma grows_handleCommit:
  assumes "handleCommit B msg src c = Some (c', err)"
  shows "grows c c'"
proof -
  have "grows c c'" if "commit B (c\<lparr>current := x, current := y\<rparr>) = Some c'" for x y
    using grows_commit [OF that] by simp
  then show ?thesis using handleCommit_cases [OF assms] by auto
qed

lemma grows_handleRoundChange: "handleRoundChange B msg src c = Some (c', err) \<Longrightarrow> grows c c'"
  by (auto dest!: handleRoundChange_cases grows_sendRoundChange grows_startNewRound)

lemma grows_handleCheckedMsg:
  assumes "handleCheckedMsg B msg src c = Some (c', err)"
  shows "grows c c'"
proof -
  let ?h = "\<lambda>h. \<exists>c1. h = Some (c1, err) \<and> (c' = c1 \<or> c' = storeBacklog msg src c1)"
  have "c' = c \<or> ?h (handlePreprepare B msg src c) \<or> ?h (handlePrepare B msg src c) \<or> ?h (handleCommit B msg src c) \<or> ?h (handleRoundChange B msg src c)"
    using assms by (auto simp: handleCheckedMsg_def Let_def split: if_splits)
  moreover have "grows c c1 \<Longrightarrow> grows c (storeBacklog msg src c1)" for c1 by (simp add: storeBacklog_def grows_emit)
  ultimately show ?thesis using grows_handlePreprepare grows_handlePrepare grows_handleCommit grows_handleRoundChange grows_refl by metis
qed

lemma grows_handleRequest: "handleRequest B request c = Some (c', err) \<Longrightarrow> grows c c'"
  by (auto simp: handleRequest_def bind_Some_iff handled_ok_def Let_def split: if_splits option.splits dest!: grows_send(1))

lemma grows_handleTimeoutMsg: "handleTimeoutMsg B c = Some c' \<Longrightarrow> grows c c'"
  by (auto simp: handleTimeoutMsg_def bind_Some_iff split: if_splits option.splits
      intro: grows_sendRoundChange grows_startNewRound grows_sendNextRoundChange)

lemma grows_handleMsg: "handleMsg B payload c = Some (c', err) \<Longrightarrow> grows c c'"
  by (auto simp: handleMsg_def split: sum.splits option.splits intro: grows_handleCheckedMsg)

lemma grows_handleEvent: "handleEvent B ev c = Some c' \<Longrightarrow> grows c c'"
proof (cases ev)
  case (RequestEvent request)
  assume "handleEvent B ev c = Some c'"
  then obtain c1 err where "handleRequest B request c = Some (c1, err)" "c' = c1 \<or> (\<exists>p. c' = emit (StoreRequest p) c1)"
    using RequestEvent by (cases request) (auto simp: handleEvent_def bind_Some_iff split: if_splits)
  then show ?thesis using grows_handleRequest grows_emit by metis
qed (auto simp: handleEvent_def bind_Some_iff split: if_splits
      intro: grows_emit grows_startNewRound grows_handleMsg grows_handleCheckedMsg grows_handleTimeoutMsg)

section \<open>The network\<close>

text \<open>
  The correct validators by their addresses, each in its own state. A message in the name of one of them was sent by it; in the name of any other
  address anything can be delivered, in any order and any number of times. A correct validator answers no proposal of an earlier view and is not stopped.
\<close>

type_synonym network = "address \<Rightarrow> core"

definition authentic :: "address list \<Rightarrow> network \<Rightarrow> Message \<Rightarrow> bool" where
  "authentic honest net m \<longleftrightarrow> (msg_Address m \<in> set honest \<longrightarrow>
     (\<exists>e \<in> set (effects (net (msg_Address m))). case e of Broadcast m' \<Rightarrow> Code m' = Code m \<and> Msg m' = Msg m | _ \<Rightarrow> False))"

definition deliverable :: "address list \<Rightarrow> network \<Rightarrow> address \<Rightarrow> Backend \<Rightarrow> event \<Rightarrow> bool" where
  "deliverable honest net a B ev \<longleftrightarrow>
     ev \<noteq> Stop \<and> (case delivered B ev (net a) of None \<Rightarrow> True | Some m \<Rightarrow> authentic honest net m \<and> \<not> answersOld B m (net a))"

inductive networks :: "protocol \<Rightarrow> address list \<Rightarrow> network \<Rightarrow> bool" for N honest where
  started: "(\<And>a. a \<in> set honest \<Longrightarrow> \<exists>pol. net a = newCore (Some (ceilBlock N)) a pol) \<Longrightarrow> networks N honest net"
| event: "networks N honest net \<Longrightarrow> a \<in> set honest \<Longrightarrow> goodBackend N B \<Longrightarrow> deliverable honest net a B ev
    \<Longrightarrow> handleEvent B ev (net a) = Some c \<Longrightarrow> networks N honest (net(a := c))"

lemma authentic_grows: "authentic honest net m \<Longrightarrow> grows (net a) c \<Longrightarrow> authentic honest (net(a := c)) m"
  by (auto simp: authentic_def grows_def)

lemma networks_inv: "networks N honest net \<Longrightarrow> a \<in> set honest \<Longrightarrow> inv N (authentic honest net) (net a)"
proof (induction arbitrary: a rule: networks.induct)
  case (started net)
  then show ?case using inv_newCore by metis
next
  case (event net b B ev c)
  have up: "authentic honest net m \<Longrightarrow> authentic honest (net(b := c)) m" for m
    using authentic_grows [where net = net and a = b and c = c] grows_handleEvent [OF event.hyps(5)] by blast
  have "inv N (authentic honest net) c"
    using event.hyps(4) by (intro inv_handleEvent [OF event.hyps(3) event.IH [OF event.hyps(2)] _ event.hyps(5)]) (auto simp: deliverable_def split: option.splits)
  then have "inv N (authentic honest net) ((net(b := c)) a)" using event.IH [OF event.prems] by simp
  then show ?case by (rule inv_mono) (rule up)
qed

section \<open>Agreement\<close>

text \<open>The blocks for which a validator sent commit messages, of a sequence and without those that go bad.\<close>

definition committed :: "protocol \<Rightarrow> network \<Rightarrow> address \<Rightarrow> int \<Rightarrow> hash set" where
  "committed N net a n = {Digest s | s. s \<in> goodCommits N (net a) \<and> Sequence (sub_View s) = n}"

lemma committed_once:
  assumes "networks N honest net" and "a \<in> set honest" and "x \<in> committed N net a n" and "y \<in> committed N net a n"
  shows "x = y"
proof -
  have "\<forall>s \<in> goodCommits N (net a). \<forall>s' \<in> goodCommits N (net a). Sequence (sub_View s) = Sequence (sub_View s') \<longrightarrow> Digest s = Digest s'"
    using networks_inv [OF assms(1,2)] unfolding inv_def lockInv_def by (elim conjE)
  then show ?thesis using assms(3,4) unfolding committed_def by fastforce
qed

lemma authentic_committed:
  assumes "goodCommit N (authentic honest net) s x" and "fst x \<in> set honest" and "Digest s \<notin> bad N"
  shows "Digest s \<in> committed N net (fst x) (Sequence (sub_View s))"
proof -
  have x: "fst x = msg_Address (snd x)" "Code (snd x) = MsgCommit" "authentic honest net (snd x)" "dec N (Msg (snd x)) = Some s"
    using assms(1) by (simp_all add: goodCommit_def)
  then obtain m where "Broadcast m \<in> set (effects (net (fst x)))" "Code m = MsgCommit" "Msg m = Msg (snd x)"
    using assms(2) by (auto simp: authentic_def split: effect.splits)
  then have "s \<in> goodCommits N (net (fst x))" using x(4) assms(3) by (auto simp: goodCommits_def sentCommits_def)
  then show ?thesis by (auto simp: committed_def)
qed

lemma decided_quorum:
  assumes "networks N honest net" and "a \<in> set honest" and "CommitProposal v p sl \<in> set (effects (net a))" and "ceilBlock N \<le> Sequence v"
    and "validators vs = vals N (Sequence v)" and "p_Hash p \<notin> bad N"
  shows "\<exists>A. two_thirds vs A \<and> (\<forall>h \<in> A. h \<in> set honest \<longrightarrow> p_Hash p \<in> committed N net h (Sequence v))"
proof -
  have "supported N (authentic honest net) \<lparr>sub_View = v, Digest = p_Hash p\<rparr>"
    using networks_inv [OF assms(1,2)] assms(3,4) unfolding inv_def decisionInv_def by blast
  then obtain l where l: "distinct (map fst l)" "\<forall>x \<in> set l. goodCommit N (authentic honest net) \<lparr>sub_View = v, Digest = p_Hash p\<rparr> x"
      "(2 * int (length (vals N (Sequence v))) + 2) div 3 \<le> int (length l)"
    unfolding supported_def by auto
  have "card (fst ` set l) = length l" using l(1) by (metis distinct_card length_map set_map)
  then have "two_thirds vs (fst ` set l)"
    using l(2,3) assms(5) by (auto simp: two_thirds_def goodCommit_def ceil2Nby3_def Size_def)
  moreover have "p_Hash p \<in> committed N net (fst x) (Sequence v)" if "x \<in> set l" "fst x \<in> set honest" for x
    using authentic_committed [of N honest net _ x] l(2) that assms(6) by fastforce
  ultimately show ?thesis by blast
qed

text \<open>C3: Correct validators of the istanbul network that decide proposals of the same sequence decide the same block, however messages are delayed, reordered,
  repeated or forged in the name of others, whatever the faulty validators send, and whichever rounds the decisions fall in. The claim is for
  sequences from \<open>Ceil2Nby3Block\<close> on in which less than a third of the validators are faulty, on whose validators the correct ones agree, and for blocks that do not go bad: a
  block that some correct validator reports as bad or refuses when it is committed loses its lock, and another block can be decided after it. It speaks of
  the sequence of the view in which a block is decided, since the code does not compare it with the number of the block. And it is for
  runs in which the correct validators are not stopped, which would lose their locks, answer no proposal of an earlier view and do not switch to the other
  protocol, with encoded subjects that decode again and verified blocks whose hash is not zero.\<close>

theorem ibft_agreement:
  assumes "networks N honest net" and "a \<in> set honest" and "b \<in> set honest"
    and "CommitProposal v p sl \<in> set (effects (net a))" and "CommitProposal w q sl' \<in> set (effects (net b))" and "Sequence v = Sequence w"
    and "p_Hash p \<notin> bad N" and "p_Hash q \<notin> bad N"
    and "ceilBlock N \<le> Sequence v" and "distinct (vals N (Sequence v))" and "3 * card (set (vals N (Sequence v)) - set honest) < length (vals N (Sequence v))"
  shows "p_Hash p = p_Hash q"
proof -
  define vs :: defaultSet where "vs = \<lparr>validators = vals N (Sequence v), policy = \<lparr>Id = 0, By = \<lambda>_ _. False\<rparr>, proposer = None, selector = RoundRobinProposer\<rparr>"
  have tol: "tolerated vs (- set honest)" using assms(10,11) by (simp add: tolerated_def vs_def F_def Size_def Diff_eq Int_commute)
  obtain A where A: "two_thirds vs A" "\<forall>h \<in> A. h \<in> set honest \<longrightarrow> p_Hash p \<in> committed N net h (Sequence v)"
    using decided_quorum [OF assms(1,2,4,9) _ assms(7), of vs] by (auto simp: vs_def)
  obtain C where C: "two_thirds vs C" "\<forall>h \<in> C. h \<in> set honest \<longrightarrow> p_Hash q \<in> committed N net h (Sequence v)"
    using decided_quorum [OF assms(1,3,5) _ _ assms(8), of vs] assms(6,9) by (auto simp: vs_def)
  show ?thesis using tol A(1) C(1)
  proof (rule ibft_quorums.one_decision [where votes = "\<lambda>h. committed N net h (Sequence v)" and A = A and B = C])
    show "x = y" if "h \<notin> - set honest" "x \<in> committed N net h (Sequence v)" "y \<in> committed N net h (Sequence v)" for h x y
      using committed_once [OF assms(1) _ that(2,3)] that(1) by simp
  qed (use A(2) C(2) in auto)
qed

end
