(* ===== verification/IBFTProgress.thy ===== *)
theory IBFTProgress
  imports IBFTAgreement
begin

text \<open>
  Progress of the consensus: in the rounds of a block every validator has its turn to propose, and commit messages of a quorum lead to a decision.
\<close>

section \<open>Turns\<close>

text \<open>The seed is counted on from the place of the last proposer.\<close>

definition seedBase :: "defaultSet \<Rightarrow> address \<Rightarrow> nat" where
  "seedBase vs p = (if emptyAddress p then 0 else if p \<in> set (validators vs) then length (takeWhile (\<lambda>v. v \<noteq> p) (validators vs)) + 1 else 1)"

lemma seedBase_le: "validators vs \<noteq> [] \<Longrightarrow> seedBase vs p \<le> Size vs + 1"
  by (auto simp: seedBase_def Size_def length_takeWhile_le)

lemma unat_u64: "n < 2 ^ 64 \<Longrightarrow> unat (of_nat n :: u64) = n"
  by (simp add: unat_of_nat take_bit_nat_eq_self)

lemma roundRobin_index:
  assumes "0 < Size vs" and "Size vs < 2 ^ 62" and "r < 2 ^ 62"
  shows "roundRobinProposer vs p (of_nat r) = Some (validators vs ! ((seedBase vs p + r) mod Size vs))"
proof -
  let ?n = "Size vs"
  have "validators vs \<noteq> []" using assms(1) by (auto simp: Size_def)
  then have lt: "seedBase vs p + r < 2 ^ 64" using seedBase_le [of vs p] assms(2,3) by simp
  have seed: "(if emptyAddress p then of_nat r else calcSeed vs p (of_nat r) + 1) = (of_nat (seedBase vs p + r) :: u64)"
    by (auto simp: seedBase_def calcSeed_def GetByAddress_def ac_simps)
  have m: "(of_nat (seedBase vs p + r) :: u64) mod of_nat ?n = of_nat ((seedBase vs p + r) mod ?n)"
    using unat_u64 [OF lt] unat_u64 [of ?n] assms(2) by (simp only: word_arith_nat_mod) simp
  have i: "(seedBase vs p + r) mod ?n < ?n" using assms(1) by simp
  have "(of_nat ((seedBase vs p + r) mod ?n) :: u64) < of_nat ?n" using i assms(2) by (simp add: word_less_nat_alt unat_u64)
  moreover have "unat (of_nat ((seedBase vs p + r) mod ?n) :: u64) = (seedBase vs p + r) mod ?n" using i assms(2) by (simp add: unat_u64)
  ultimately show ?thesis using assms(1) by (simp only: roundRobinProposer_def Let_def seed m GetByIndex_def) simp
qed

text \<open>C22: With the round robin policy every validator is the proposer of one of any \<open>n\<close> consecutive rounds, where \<open>n\<close> is the number of validators: whoever
  proposed the last block, a faulty proposer cannot keep the turn from the others.\<close>

theorem every_validator_has_a_turn:
  assumes "v \<in> set (validators vs)" and "selector vs = RoundRobinProposer" and "Size vs < 2 ^ 61" and "first < 2 ^ 61"
  shows "\<exists>r \<ge> first. r < first + Size vs \<and> proposer (CalcProposer lastProposer (of_nat r) vs) = Some v"
proof -
  let ?n = "Size vs" and ?b = "seedBase vs lastProposer + first"
  have n: "0 < ?n" using assms(1) by (auto simp: Size_def)
  obtain i where i: "i < ?n" "validators vs ! i = v" using assms(1) by (auto simp: in_set_conv_nth Size_def)
  define d where "d = (i + (?n - 1) * ?b) mod ?n"
  have d: "d < ?n" using n by (simp add: d_def)
  have "(?b + d) mod ?n = (?b + (i + (?n - 1) * ?b)) mod ?n" by (simp add: d_def mod_add_right_eq)
  also have "?b + (i + (?n - 1) * ?b) = i + ?n * ?b" using n by (cases ?n) simp_all
  finally have m: "(?b + d) mod ?n = i" using i(1) by simp
  have "first + d < 2 ^ 62" using d assms(3,4) by simp
  then have "proposer (CalcProposer lastProposer (of_nat (first + d)) vs) = Some v"
    using assms(2,3) n m i(2) roundRobin_index [of vs "first + d" lastProposer] by (simp add: CalcProposer_def add.assoc)
  then show ?thesis using d by (intro exI [of _ "first + d"]) simp
qed

definition fourValidators :: defaultSet where
  "fourValidators = NewSet [7, 8, 9, 10] \<lparr>Id = 0, By = \<lambda>a b. a < b\<rparr>"

theorem every_validator_has_a_turn_witness:
  "\<exists>r \<ge> 5. r < 9 \<and> proposer (CalcProposer 9 (of_nat r) fourValidators) = Some 8"
proof -
  have f: "validators fourValidators = [7, 8, 9, 10]" "selector fourValidators = RoundRobinProposer" by code_simp+
  then show ?thesis using every_validator_has_a_turn [of 8 fourValidators 5 9] by (simp add: Size_def)
qed

section \<open>Decisions\<close>

primrec handleEvents :: "Backend \<Rightarrow> event list \<Rightarrow> core \<Rightarrow> core panics" where
  "handleEvents B [] c = Some c"
| "handleEvents B (ev # evs) c = do { c1 \<leftarrow> handleEvent B ev c; handleEvents B evs c1 }"

text \<open>The events that leave a validator in its view: requests, and messages other than proposals and round changes, whether they can be read or not.\<close>

definition inView :: "Message \<Rightarrow> bool" where
  "inView m \<longleftrightarrow> Code m \<noteq> MsgPreprepare \<and> Code m \<noteq> MsgRoundChange"

definition viewEvent :: "Backend \<Rightarrow> address list \<Rightarrow> event \<Rightarrow> bool" where
  "viewEvent B vs ev = (case ev of RequestEvent p \<Rightarrow> True
     | MessageEvent code payload \<Rightarrow> (case FromPayload B vs payload of Inl e \<Rightarrow> True | Inr m \<Rightarrow> inView m)
     | BacklogEvent m src \<Rightarrow> inView m | _ \<Rightarrow> False)"

text \<open>The validators whose commit messages for a subject an event brings: at most one.\<close>

definition vote :: "Backend \<Rightarrow> address list \<Rightarrow> Subject \<Rightarrow> Message \<Rightarrow> address set" where
  "vote B vs sub m = (if Code m = MsgCommit \<and> decodeSubject B (Msg m) = Some sub \<and> msg_Address m \<in> set vs then {msg_Address m} else {})"

definition votes :: "Backend \<Rightarrow> address list \<Rightarrow> Subject \<Rightarrow> event \<Rightarrow> address set" where
  "votes B vs sub ev = (case ev of
       MessageEvent code payload \<Rightarrow> (case FromPayload B vs payload of Inl e \<Rightarrow> {} | Inr m \<Rightarrow> vote B vs sub m)
     | BacklogEvent m src \<Rightarrow> vote B vs sub m | _ \<Rightarrow> {})"

subsection \<open>After the decision\<close>

text \<open>The same round, proposal and lock.\<close>

definition steady :: "core \<Rightarrow> core \<Rightarrow> bool" where
  "steady c c' \<longleftrightarrow> valSet c' = valSet c \<and> self_address c' = self_address c \<and> state c' = state c \<and> waitingForRoundChange c' = waitingForRoundChange c
     \<and> set (effects c) \<subseteq> set (effects c')
     \<and> (\<exists>r r'. current c = Some r \<and> current c' = Some r' \<and> round r' = round r \<and> sequence r' = sequence r \<and> Preprepare_of r' = Preprepare_of r
          \<and> lockedHash r' = lockedHash r)"

lemma steady_refl: "current c \<noteq> None \<Longrightarrow> steady c c"
  by (auto simp: steady_def)

lemma steady_trans: "steady a b \<Longrightarrow> steady b c \<Longrightarrow> steady a c"
  by (fastforce simp: steady_def)

lemma steady_emit: "steady c c' \<Longrightarrow> steady c (emit e c')"
  by (auto simp: steady_def emit_def)

lemma steady_round:
  assumes "current c = Some r"
  shows "steady c (c\<lparr>current := Some (r\<lparr>Prepares := x\<rparr>)\<rparr>)" "steady c (c\<lparr>current := Some (r\<lparr>Commits := y\<rparr>)\<rparr>)"
    "steady c (c\<lparr>current := Some (r\<lparr>pendingRequest := z\<rparr>)\<rparr>)"
  using assms by (simp_all add: steady_def)

text \<open>A handler of a validator that has decided: it does not panic and changes nothing that counts.\<close>

lemma committed_handlers:
  assumes "current c = Some r" and "state c = StateCommitted"
  shows "\<exists>c' err. handlePrepare B m src c = Some (c', err) \<and> steady c c'" "\<exists>c' err. handleCommit B m src c = Some (c', err) \<and> steady c c'"
    "\<exists>c' err. handleRequest B req c = Some (c', err) \<and> steady c c'"
  using assms steady_refl [of c] steady_round [OF assms(1)]
  by (auto simp: handlePrepare_def handleCommit_def handleRequest_def checkRequestMsg_def checkMessage_def currentView_def verifySubject_def
      acceptPrepare_def acceptCommit_def handled_ok_def split: option.splits)

lemma handleCheckedMsg_inView:
  assumes "inView m" and "Code m = MsgPrepare \<Longrightarrow> \<exists>c' err. handlePrepare B m src c = Some (c', err) \<and> Q c'"
    and "Code m = MsgCommit \<Longrightarrow> \<exists>c' err. handleCommit B m src c = Some (c', err) \<and> Q c'"
    and "Code m \<noteq> MsgCommit \<Longrightarrow> Q c" and "\<And>c' e. Q c' \<Longrightarrow> Q (emit e c')"
  shows "\<exists>c' err. handleCheckedMsg B m src c = Some (c', err) \<and> Q c'"
proof -
  have k: "\<exists>c' err. map_option (\<lambda>(c1, err). (if err = Some ErrFutureMessage then storeBacklog m src c1 else c1, err)) h = Some (c', err) \<and> Q c'"
    if h: "\<exists>c' err. h = Some (c', err) \<and> Q c'" for h
  proof -
    obtain c1 err where c1: "h = Some (c1, err)" "Q c1" using h by blast
    then have "Q (if err = Some ErrFutureMessage then storeBacklog m src c1 else c1)" using assms(5) by (simp add: storeBacklog_def)
    then show ?thesis using c1(1) by simp
  qed
  consider "Code m = MsgPrepare" | "Code m = MsgCommit" | "Code m \<noteq> MsgPrepare" "Code m \<noteq> MsgCommit" by blast
  then show ?thesis
  proof cases
    case 1
    then show ?thesis using k [OF assms(2) [OF 1]] by (simp add: handleCheckedMsg_def MsgPrepare_def MsgPreprepare_def)
  next
    case 2
    then show ?thesis using k [OF assms(3) [OF 2]] by (simp add: handleCheckedMsg_def MsgPrepare_def MsgPreprepare_def MsgCommit_def)
  next
    case 3
    then show ?thesis using assms(1,4) by (simp add: handleCheckedMsg_def inView_def)
  qed
qed

text \<open>An event in the view, by what its handlers do.\<close>

lemma handleEvent_inView:
  assumes "viewEvent B (validators (valSet c)) ev" and "self_address c \<in> set (validators (valSet c))" and "Q {} c"
    and "\<And>A c' e. Q A c' \<Longrightarrow> Q A (emit e c')"
    and "\<And>m src. inView m \<Longrightarrow> \<exists>c' err. handleCheckedMsg B m src c = Some (c', err) \<and> Q (vote B (validators (valSet c)) sub m) c'"
    and "\<And>req. \<exists>c' err. handleRequest B req c = Some (c', err) \<and> Q {} c'"
  shows "\<exists>c'. handleEvent B ev c = Some c' \<and> Q (votes B (validators (valSet c)) sub ev) c'"
proof (cases ev)
  case (RequestEvent p)
  obtain c1 err where "handleRequest B p c = Some (c1, err)" "Q {} c1" using assms(6) by blast
  then show ?thesis using RequestEvent assms(4) by (auto simp: handleEvent_def votes_def split: option.split)
next
  case (MessageEvent code payload)
  have v: "validators (valSet c) \<noteq> []" "snd (GetByAddress (self_address c) (valSet c)) \<noteq> None" using assms(2) by (auto simp: GetByAddress_def)
  show ?thesis
  proof (cases "FromPayload B (validators (valSet c)) payload")
    case (Inl e)
    then show ?thesis using MessageEvent v assms(3) by (simp add: handleEvent_def handleMsg_def votes_def)
  next
    case (Inr m)
    have m: "inView m" using assms(1) MessageEvent Inr by (simp add: viewEvent_def)
    show ?thesis
    proof (cases "snd (GetByAddress (msg_Address m) (valSet c))")
      case None
      then have "msg_Address m \<notin> set (validators (valSet c))" by (auto simp: GetByAddress_def split: if_splits)
      moreover have "handleMsg B payload c = Some (c, Some ErrUnauthorizedAddress)" unfolding handleMsg_def Inr sum.case None by simp
      ultimately show ?thesis using MessageEvent v assms(3) Inr by (simp add: handleEvent_def votes_def vote_def)
    next
      case (Some src)
      obtain c1 err where "handleCheckedMsg B m src c = Some (c1, err)" "Q (vote B (validators (valSet c)) sub m) c1" using assms(5) [OF m] by blast
      moreover have "handleMsg B payload c = handleCheckedMsg B m src c" unfolding handleMsg_def Inr sum.case Some by simp
      ultimately show ?thesis using MessageEvent v assms(4) Inr by (simp add: handleEvent_def votes_def)
    qed
  qed
next
  case (BacklogEvent m src)
  have "inView m" using assms(1) BacklogEvent by (simp add: viewEvent_def)
  then obtain c1 err where "handleCheckedMsg B m src c = Some (c1, err)" "Q (vote B (validators (valSet c)) sub m) c1" using assms(5) by blast
  then show ?thesis using BacklogEvent assms(4) by (simp add: handleEvent_def votes_def)
qed (use assms(1) in \<open>simp_all add: viewEvent_def\<close>)

lemma committed_event:
  assumes "current c \<noteq> None" and "state c = StateCommitted" and "viewEvent B (validators (valSet c)) ev" and "self_address c \<in> set (validators (valSet c))"
  shows "\<exists>c'. handleEvent B ev c = Some c' \<and> steady c c'"
proof -
  obtain r where r: "current c = Some r" using assms(1) by blast
  note h = committed_handlers [OF r assms(2)]
  have "\<exists>c' err. handleCheckedMsg B m src c = Some (c', err) \<and> steady c c'" if "inView m" for m src
    using that h(1,2) steady_refl [OF assms(1)] by (intro handleCheckedMsg_inView) (auto intro: steady_emit)
  then show ?thesis
    using handleEvent_inView [where Q = "\<lambda>_. steady c", OF assms(3,4) steady_refl [OF assms(1)] steady_emit _ h(3)] by blast
qed

lemma committed_events:
  "current c \<noteq> None \<Longrightarrow> state c = StateCommitted \<Longrightarrow> \<forall>ev \<in> set evs. viewEvent B (validators (valSet c)) ev \<Longrightarrow> self_address c \<in> set (validators (valSet c))
     \<Longrightarrow> \<exists>c'. handleEvents B evs c = Some c' \<and> steady c c'"
proof (induction evs arbitrary: c)
  case Nil
  then show ?case by (simp add: steady_refl)
next
  case (Cons ev evs)
  then obtain c1 where c1: "handleEvent B ev c = Some c1" "steady c c1" using committed_event [of c B ev] by auto
  then obtain c2 where "handleEvents B evs c1 = Some c2" "steady c1 c2" using Cons.IH [of c1] Cons.prems by (auto simp: steady_def)
  then show ?case using c1 steady_trans by auto
qed

subsection \<open>Up to the decision\<close>

text \<open>A validator at work on a proposal, and the validators whose commit messages it has.\<close>

definition awaits :: "core \<Rightarrow> Subject \<Rightarrow> Proposal \<Rightarrow> address set \<Rightarrow> bool" where
  "awaits c sub p A \<longleftrightarrow> \<not> waitingForRoundChange c \<and> (state c = StatePreprepared \<or> state c = StatePrepared)
     \<and> self_address c \<in> set (validators (valSet c))
     \<and> (\<exists>r. current c = Some r \<and> Subject_of r = Some sub \<and> Proposal_of r = Some p \<and> validators (ms_valSet (Commits r)) = validators (valSet c)
        \<and> distinct (map fst (messages (Commits r))) \<and> fst ` set (messages (Commits r)) = A)"

text \<open>It has decided: the block went to the backend with the seals of a quorum. If that took it, the block stays locked; if not,
  the validator has given up the lock and asks for the next round.\<close>

definition decided :: "Backend \<Rightarrow> int \<Rightarrow> Subject \<Rightarrow> Proposal \<Rightarrow> core \<Rightarrow> bool" where
  "decided B q sub p c \<longleftrightarrow> state c = StateCommitted \<and> self_address c \<in> set (validators (valSet c))
     \<and> (\<exists>r sl. current c = Some r \<and> CommitProposal (sub_View sub) p sl \<in> set (effects c) \<and> q \<le> int (length sl)
        \<and> (if Commit B p sl then Subject_of r = Some sub \<and> lockedHash r = Digest sub
           else waitingForRoundChange c \<and> sequence r = Sequence (sub_View sub) \<and> round r = Round (sub_View sub) + 1 \<and> lockedHash r = 0))"

definition sameSet :: "core \<Rightarrow> core \<Rightarrow> bool" where
  "sameSet c c' \<longleftrightarrow> valSet c' = valSet c \<and> QuorumSize c' = QuorumSize c"

lemma more_effects [simp]:
  "awaits (emit e c) sub p A = awaits c sub p A" "sameSet c (emit e c') = sameSet c c'" "QuorumSize (emit e c) = QuorumSize c" "valSet (emit e c) = valSet c"
  by (simp_all add: awaits_def QuorumSize_def emit_def sameSet_def cong: option.case_cong)

lemma sameSet_refl [simp]: "sameSet c c"
  by (simp add: sameSet_def)

lemma sameSet_round:
  assumes "current c = Some r" and "current c' = Some r'" and "sequence r' = sequence r" and "Ceil2Nby3Block c' = Ceil2Nby3Block c" and "valSet c' = valSet c"
  shows "sameSet c c'"
  using assms by (simp add: sameSet_def QuorumSize_def cong: option.case_cong)

lemma broadcast_runs:
  assumes "current c \<noteq> None"
  obtains "broadcast B msg c = Some c" | m where "broadcast B msg c = Some (emit (Broadcast m) c)"
proof -
  have "finalizeMessage B msg c \<noteq> None" using assms by (auto simp: finalizeMessage_def Let_def bind_eq_None_conv)
  then obtain fm where "finalizeMessage B msg c = Some fm" by blast
  then show ?thesis using that by (cases fm) (auto simp: broadcast_def)
qed

lemma working_view:
  assumes "awaits c sub p A" and "current c = Some r"
  shows "sub_View sub = \<lparr>Round = round r, Sequence = sequence r\<rparr>" "code = MsgPrepare \<or> code = MsgCommit \<Longrightarrow> checkMessage code (sub_View sub) c = Some None"
proof -
  show v: "sub_View sub = \<lparr>Round = round r, Sequence = sequence r\<rparr>" using assms by (auto simp: awaits_def Subject_of_def split: option.splits)
  show "checkMessage code (sub_View sub) c = Some None" if "code = MsgPrepare \<or> code = MsgCommit"
    using assms that by (auto simp: awaits_def checkMessage_def currentView_def v View_Cmp_def MsgCommit_def MsgPrepare_def MsgRoundChange_def)
qed

text \<open>A prepare or commit message for another subject changes nothing.\<close>

lemma other_subject:
  assumes "awaits c sub p A" and "decodeSubject B (Msg m) \<noteq> Some sub"
  shows "\<exists>err. handlePrepare B m src c = Some (c, err)" "\<exists>err. handleCommit B m src c = Some (c, err)"
  using assms
  by (auto simp: handlePrepare_def handleCommit_def awaits_def checkMessage_def currentView_def verifySubject_def split: option.splits)

lemma awaits_prepare:
  assumes "awaits c sub p A"
  shows "\<exists>c' err. handlePrepare B m src c = Some (c', err) \<and> awaits c' sub p A \<and> sameSet c c'"
proof (cases "decodeSubject B (Msg m) = Some sub")
  case True
  obtain r where r: "current c = Some r" using assms by (auto simp: awaits_def)
  then have sub: "Subject_of r = Some sub" using assms by (auto simp: awaits_def)
  let ?r = "r\<lparr>Prepares := fst (ms_Add m (Prepares r))\<rparr>"
  let ?c1 = "c\<lparr>current := Some ?r\<rparr>" and ?c2 = "setState StatePrepared (c\<lparr>current := Some (LockHash ?r)\<rparr>)"
  have l: "Subject_of (LockHash ?r) = Some sub" "Proposal_of (LockHash ?r) = Proposal_of r" "Commits (LockHash ?r) = Commits r" "sequence (LockHash ?r) = sequence r"
    using sub by (auto simp: LockHash_def Proposal_of_def split: option.splits)
  have 1: "awaits ?c1 sub p A" "sameSet c ?c1" using assms r by (auto simp: awaits_def Proposal_of_def intro: sameSet_round [OF r])
  have 2: "awaits ?c2 sub p A" "sameSet c ?c2" using assms r l
    by (auto simp: awaits_def setState_def emit_def Let_def intro: sameSet_round [OF r])
  have "sendCommit B ?c2 = broadcast B (newMessage MsgCommit (encodeSubject B sub)) ?c2" using l(1) by (simp add: sendCommit_def broadcastCommit_def)
  moreover have "\<exists>c'. broadcast B (newMessage MsgCommit (encodeSubject B sub)) ?c2 = Some c' \<and> awaits c' sub p A \<and> sameSet c c'"
    by (rule broadcast_runs [of ?c2 B "newMessage MsgCommit (encodeSubject B sub)"]) (use 2 in \<open>auto\<close>)
  ultimately have s: "\<exists>c'. sendCommit B ?c2 = Some c' \<and> awaits c' sub p A \<and> sameSet c c'" by simp
  have "\<exists>b. handlePrepare B m src c = (if b then handled_ok (sendCommit B ?c2) else Some (?c1, None))"
    using True working_view(2) [OF assms r, of MsgPrepare] r sub by (auto simp: handlePrepare_def verifySubject_def acceptPrepare_def)
  then show ?thesis using s 1 by (auto simp: handled_ok_def split: if_splits)
next
  case False
  then show ?thesis using other_subject(1) [OF assms False, of src] assms by auto
qed

lemma awaits_request:
  assumes "awaits c sub p A"
  shows "\<exists>c' err. handleRequest B req c = Some (c', err) \<and> awaits c' sub p A \<and> sameSet c c'"
proof -
  obtain r where r: "current c = Some r" using assms by (auto simp: awaits_def)
  let ?c = "c\<lparr>current := Some (r\<lparr>pendingRequest := req\<rparr>)\<rparr>"
  have "awaits ?c sub p A" "sameSet c ?c" using assms r by (auto simp: awaits_def Proposal_of_def intro: sameSet_round [OF r])
  moreover have "\<exists>err. handleRequest B req c = Some (c, err) \<or> handleRequest B req c = Some (?c, err)"
    using assms r by (auto simp: awaits_def handleRequest_def checkRequestMsg_def handled_ok_def split: option.splits)
  ultimately show ?thesis using assms sameSet_refl by blast
qed

text \<open>One more commit message: a decision if it completes a quorum.\<close>

lemma commit_decides:
  assumes "current c = Some r" and "Subject_of r = Some sub" and "Proposal_of r = Some p" and "self_address c \<in> set (validators (valSet c))"
    and "q \<le> int (length (messages (Commits r)))"
  shows "\<exists>c'. commit B (c\<lparr>current := Some (LockHash r)\<rparr>) = Some c' \<and> decided B q sub p c'"
proof -
  obtain pp where pp: "Preprepare_of r = Some pp" "p = pp_Proposal pp" using assms(3) by (auto simp: Proposal_of_def)
  let ?r = "r\<lparr>lockedHash := p_Hash p\<rparr>" and ?v = "\<lparr>Round = round r, Sequence = sequence r\<rparr>" and ?sl = "committedSeals r"
  let ?d = "emit (CommitProposal ?v p ?sl) (setState StateCommitted (c\<lparr>current := Some ?r\<rparr>))"
  have sub: "sub = \<lparr>sub_View = ?v, Digest = p_Hash p\<rparr>" using assms(2) pp by (auto simp: Subject_of_def)
  have run: "commit B (c\<lparr>current := Some (LockHash r)\<rparr>) = (if Commit B p ?sl then Some ?d else sendNextRoundChange B (?d\<lparr>current := Some (UnlockHash ?r)\<rparr>))"
    using pp by (simp add: commit_def LockHash_def Proposal_of_def committedSeals_def Let_def)
  have len: "q \<le> int (length ?sl)" using assms(5) by (simp add: committedSeals_def)
  show ?thesis
  proof (cases "Commit B p ?sl")
    case True
    have "decided B q sub p ?d" unfolding decided_def using True len assms(2,4) sub
      by (auto simp: emit_def setState_def Let_def intro!: exI [of _ ?sl])
    then show ?thesis using run True by simp
  next
    case False
    let ?w = "\<lparr>Round = round r + 1, Sequence = sequence r\<rparr>" and ?e = "?d\<lparr>current := Some (UnlockHash ?r)\<rparr>"
    obtain c1 where c1: "catchUpRound B ?w ?e = Some c1" "current c1 = Some (newRoundState ?w (valSet c) 0 None (pendingRequest r))" "waitingForRoundChange c1"
      "state c1 = StateCommitted" "valSet c1 = valSet c" "self_address c1 = self_address c" "CommitProposal ?v p ?sl \<in> set (effects c1)"
      by (auto simp: catchUpRound_def updateRoundState_def UnlockHash_def IsHashLocked_def newRoundChangeTimer_def emit_def setState_def Let_def)
    have d1: "decided B q sub p c1" unfolding decided_def using c1 False len assms(4) sub
      by (auto simp: newRoundState_def intro!: exI [of _ ?sl])
    let ?m = "newMessage MsgRoundChange (encodeSubject B \<lparr>sub_View = ?w, Digest = 0\<rparr>)"
    have "sendNextRoundChange B ?e = broadcast B ?m c1"
      using c1(1,2) by (simp add: sendNextRoundChange_def sendRoundChange_def currentView_def UnlockHash_def newRoundState_def)
    moreover have "\<exists>c'. broadcast B ?m c1 = Some c' \<and> decided B q sub p c'"
      by (rule broadcast_runs [of c1 B ?m]) (use c1(2) d1 in \<open>auto simp: decided_def emit_def\<close>)
    ultimately show ?thesis using run False by simp
  qed
qed

lemma decided_steady:
  assumes "decided B q sub p c" and "steady c c'"
  shows "decided B q sub p c'"
proof -
  obtain r sl where r: "current c = Some r" "CommitProposal (sub_View sub) p sl \<in> set (effects c)" "q \<le> int (length sl)"
    "if Commit B p sl then Subject_of r = Some sub \<and> lockedHash r = Digest sub
     else waitingForRoundChange c \<and> sequence r = Sequence (sub_View sub) \<and> round r = Round (sub_View sub) + 1 \<and> lockedHash r = 0"
    using assms(1) unfolding decided_def by blast
  obtain r' where r': "current c' = Some r'" "round r' = round r" "sequence r' = sequence r" "Preprepare_of r' = Preprepare_of r" "lockedHash r' = lockedHash r"
    using assms(2) r(1) unfolding steady_def by auto
  have f: "state c' = state c" "valSet c' = valSet c" "self_address c' = self_address c" "waitingForRoundChange c' = waitingForRoundChange c"
    "CommitProposal (sub_View sub) p sl \<in> set (effects c')"
    using assms(2) r(2) unfolding steady_def by auto
  have "Subject_of r' = Subject_of r" unfolding Subject_of_def r'(2-4) by (rule refl)
  then show ?thesis unfolding decided_def f(1-4) using assms(1) r(3,4) r' f(5) by (metis decided_def)
qed

lemma decided_emit: "decided B q sub p c \<Longrightarrow> decided B q sub p (emit e c)"
  by (rule decided_steady [OF _ steady_emit [OF steady_refl]]) (auto simp: decided_def)

lemma commit_valSet:
  assumes "commit B c = Some c'"
  shows "valSet c' = valSet c"
  using assms
  by (auto simp: commit_def bind_Some_iff setState_def emit_def Let_def sendNextRoundChange_def sendRoundChange_def catchUpRound_def updateRoundState_def
      newRoundChangeTimer_def split: if_splits option.splits dest!: broadcast_fields(3))

lemma awaits_commit:
  assumes "awaits c sub p A" and "int (card A) < QuorumSize c" and "Code m = MsgCommit"
    and A'_def: "A' = A \<union> vote B (validators (valSet c)) sub m"
  shows "\<exists>c' err. handleCommit B m src c = Some (c', err)
     \<and> (if QuorumSize c \<le> int (card A') then decided B (QuorumSize c) sub p c' \<and> valSet c' = valSet c else awaits c' sub p A' \<and> sameSet c c')"
proof (cases "decodeSubject B (Msg m) = Some sub")
  case True
  obtain r where r: "current c = Some r" "Subject_of r = Some sub" "Proposal_of r = Some p" "validators (ms_valSet (Commits r)) = validators (valSet c)"
      "distinct (map fst (messages (Commits r)))" "fst ` set (messages (Commits r)) = A"
    and st: "\<not> waitingForRoundChange c" "state c = StatePreprepared \<or> state c = StatePrepared" "self_address c \<in> set (validators (valSet c))"
    using assms(1) by (auto simp: awaits_def)
  let ?ms = "fst (ms_Add m (Commits r))"
  let ?r = "r\<lparr>Commits := ?ms\<rparr>" let ?c1 = "c\<lparr>current := Some ?r\<rparr>"
  have ms: "ms_valSet ?ms = ms_valSet (Commits r)" "distinct (map fst (messages ?ms))" "fst ` set (messages ?ms) = A'"
    using r(4-6) True assms(3) by (auto simp: A'_def vote_def ms_Add_def distinct_update dom_update)
  have len: "ms_Size ?ms = int (card A')" using ms(2,3) by (metis distinct_card length_map set_map ms_Size_def)
  have q: "sameSet c ?c1" by (rule sameSet_round [OF r(1), of _ ?r]) simp_all
  have run: "handleCommit B m src c =
      (if QuorumSize c \<le> int (card A') then handled_ok (commit B (?c1\<lparr>current := Some (LockHash ?r)\<rparr>)) else Some (?c1, None))"
    using True working_view(2) [OF assms(1) r(1), of MsgCommit] r(1,2) st(2) len q
    by (auto simp: handleCommit_def verifySubject_def acceptCommit_def sameSet_def)
  show ?thesis
  proof (cases "QuorumSize c \<le> int (card A')")
    case quorum: True
    obtain c2 where c2: "commit B (?c1\<lparr>current := Some (LockHash ?r)\<rparr>) = Some c2" "decided B (QuorumSize c) sub p c2"
      using commit_decides [of ?c1 ?r sub p "QuorumSize c" B] r(2,3) st(3) quorum len by (auto simp: Proposal_of_def ms_Size_def)
    moreover have "valSet c2 = valSet c" using commit_valSet [OF c2(1)] by simp
    ultimately show ?thesis using run quorum by (auto simp: handled_ok_def)
  next
    case False
    have "awaits ?c1 sub p A'" using r st ms by (auto simp: awaits_def Proposal_of_def)
    then show ?thesis using run False q by simp
  qed
next
  case False
  then have "A' = A" by (simp add: A'_def vote_def)
  then show ?thesis using other_subject(2) [OF assms(1) False, of src] assms(1,2) by auto
qed

lemma awaits_event:
  assumes "awaits c sub p A" and "int (card A) < QuorumSize c" and "viewEvent B (validators (valSet c)) ev"
  defines "A' \<equiv> A \<union> votes B (validators (valSet c)) sub ev"
  shows "\<exists>c'. handleEvent B ev c = Some c'
     \<and> (if QuorumSize c \<le> int (card A') then decided B (QuorumSize c) sub p c' \<and> valSet c' = valSet c else awaits c' sub p A' \<and> sameSet c c')"
proof -
  let ?Q = "\<lambda>V c'. if QuorumSize c \<le> int (card (A \<union> V)) then decided B (QuorumSize c) sub p c' \<and> valSet c' = valSet c
    else awaits c' sub p (A \<union> V) \<and> sameSet c c'"
  have e: "?Q V (emit e c')" if "?Q V c'" for V c' e
    using that decided_emit by (cases "QuorumSize c \<le> int (card (A \<union> V))") simp_all
  have h: "\<exists>c' err. handleCheckedMsg B m src c = Some (c', err) \<and> ?Q (vote B (validators (valSet c)) sub m) c'" if m: "inView m" for m src
    using m
  proof (rule handleCheckedMsg_inView)
    assume "Code m = MsgPrepare"
    then have "vote B (validators (valSet c)) sub m = {}" by (simp add: vote_def)
    then show "\<exists>c' err. handlePrepare B m src c = Some (c', err) \<and> ?Q (vote B (validators (valSet c)) sub m) c'"
      using awaits_prepare [OF assms(1), of B m src] assms(2) by auto
  next
    assume "Code m = MsgCommit"
    then show "\<exists>c' err. handleCommit B m src c = Some (c', err) \<and> ?Q (vote B (validators (valSet c)) sub m) c'"
      using awaits_commit [OF assms(1,2) _ refl, of m B src] by simp
  next
    assume "Code m \<noteq> MsgCommit"
    then have "vote B (validators (valSet c)) sub m = {}" by (simp add: vote_def)
    then show "?Q (vote B (validators (valSet c)) sub m) c" using assms(1,2) by simp
  qed (rule e)
  have "\<exists>c' err. handleRequest B req c = Some (c', err) \<and> ?Q {} c'" for req
    using awaits_request [OF assms(1), of B req] assms(2) by auto
  moreover have "self_address c \<in> set (validators (valSet c))" "?Q {} c" using assms(1,2) by (simp_all add: awaits_def)
  ultimately show ?thesis unfolding A'_def using h e by (intro handleEvent_inView [where Q = ?Q] assms(3)) blast+
qed

text \<open>C7: Once the commit messages of a quorum of validators for the proposal it is working on have come in, a validator has decided it: the block is handed to the
  backend, in its view and with the seals of a quorum. The messages may come from the network, signed by validators of the sequence, or out of the backlog, in
  any order and among any requests, prepare messages, commit messages for other subjects or from others and messages that cannot be read; what is left out
  are proposals, round changes, timeouts and new blocks. Nothing on the way panics. If the backend takes the block, then at the end the
  validator is still in the view, committed and locked on the block; if it refuses it, the lock is gone and the validator asks for the next round.\<close>

theorem commit_quorum_decides:
  assumes "awaits c sub p A" and "int (card A) < QuorumSize c" and "\<forall>ev \<in> set evs. viewEvent B (validators (valSet c)) ev"
    and "QuorumSize c \<le> int (card (A \<union> (\<Union>ev \<in> set evs. votes B (validators (valSet c)) sub ev)))"
  shows "\<exists>c' r sl. handleEvents B evs c = Some c' \<and> state c' = StateCommitted \<and> current c' = Some r
    \<and> CommitProposal (sub_View sub) p sl \<in> set (effects c') \<and> QuorumSize c \<le> int (length sl)
    \<and> (if Commit B p sl then Subject_of r = Some sub \<and> lockedHash r = Digest sub
       else waitingForRoundChange c' \<and> sequence r = Sequence (sub_View sub) \<and> round r = Round (sub_View sub) + 1 \<and> lockedHash r = 0)"
proof -
  have "\<exists>c'. handleEvents B evs c = Some c' \<and> decided B (QuorumSize c) sub p c'"
    using assms
  proof (induction evs arbitrary: c A)
    case (Cons ev evs)
    let ?A = "A \<union> votes B (validators (valSet c)) sub ev"
    obtain c1 where c1: "handleEvent B ev c = Some c1"
      "if QuorumSize c \<le> int (card ?A) then decided B (QuorumSize c) sub p c1 \<and> valSet c1 = valSet c else awaits c1 sub p ?A \<and> sameSet c c1"
      using awaits_event [OF Cons.prems(1,2), of B ev] Cons.prems(3) by auto
    show ?case
    proof (cases "QuorumSize c \<le> int (card ?A)")
      case True
      then have d: "decided B (QuorumSize c) sub p c1" "valSet c1 = valSet c" using c1(2) by simp_all
      then obtain c2 where "handleEvents B evs c1 = Some c2" "steady c1 c2"
        using committed_events [of c1 evs B] Cons.prems(3) by (auto simp: decided_def)
      then show ?thesis using c1(1) decided_steady [OF d(1)] by auto
    next
      case False
      then have a: "awaits c1 sub p ?A" "valSet c1 = valSet c" "QuorumSize c1 = QuorumSize c" using c1(2) by (simp_all add: sameSet_def)
      then show ?thesis using c1(1) Cons.IH [OF a(1)] Cons.prems(3,4) False by (auto simp: Un_assoc)
    qed
  qed simp
  then show ?thesis unfolding decided_def by blast
qed

end
