(* ===== verification/IBFTRuns.thy ===== *)
theory IBFTRuns
  imports IBFTProgress
begin

text \<open>
  Runs of the istanbul network on a small backend: four validators of which one is faulty decide a block; and what happens when a validator
  answers a proposal of an earlier view.
\<close>

section \<open>A backend\<close>

text \<open>Encodings that decode again: numbers as strokes, words as numbers.\<close>

definition encInt :: "int \<Rightarrow> string" where
  "encInt i = (if i < 0 then CHR ''-'' else CHR ''+'') # replicate (nat \<bar>i\<bar>) (CHR ''1'') @ ''.''"

definition decInt :: "string \<Rightarrow> int \<times> string" where
  "decInt s = (let n = length (takeWhile (\<lambda>c. c = CHR ''1'') (tl s)) in (if hd s = CHR ''-'' then - int n else int n, drop (Suc n) (tl s)))"

lemma decInt_encInt: "decInt (encInt i @ s) = (i, s)"
proof -
  have "takeWhile (\<lambda>c. c = CHR ''1'') (replicate n (CHR ''1'') @ CHR ''.'' # s) = replicate n (CHR ''1'')" for n
    by (induction n) simp_all
  then show ?thesis by (auto simp: decInt_def encInt_def Let_def)
qed

definition encSubject :: "Subject \<Rightarrow> string" where
  "encSubject s = encInt (Round (sub_View s)) @ encInt (Sequence (sub_View s)) @ encInt (uint (Digest s))"

definition decSubject :: "string \<Rightarrow> Subject option" where
  "decSubject str = (let (r, s1) = decInt str; (n, s2) = decInt s1; (d, s3) = decInt s2
     in Some \<lparr>sub_View = \<lparr>Round = r, Sequence = n\<rparr>, Digest = word_of_int d\<rparr>)"

definition encPreprepare :: "Preprepare \<Rightarrow> string" where
  "encPreprepare pp = encInt (Round (pp_View pp)) @ encInt (Sequence (pp_View pp)) @ encInt (p_Number (pp_Proposal pp))
     @ encInt (uint (p_Hash (pp_Proposal pp))) @ encInt (uint (p_ParentHash (pp_Proposal pp)))"

definition decPreprepare :: "string \<Rightarrow> Preprepare option" where
  "decPreprepare str = (let (r, s1) = decInt str; (n, s2) = decInt s1; (k, s3) = decInt s2; (h, s4) = decInt s3; (ph, s5) = decInt s4
     in Some \<lparr>pp_View = \<lparr>Round = r, Sequence = n\<rparr>, pp_Proposal = \<lparr>p_Number = k, p_Hash = word_of_int h, p_ParentHash = word_of_int ph\<rparr>\<rparr>)"

lemma decSubject_encSubject: "decSubject (encSubject s) = Some s"
  using decInt_encInt [of "uint (Digest s)" "[]"] by (simp add: decSubject_def encSubject_def decInt_encInt)

definition toPayload :: "Message \<Rightarrow> string" where
  "toPayload m = char_of (uint (Code m)) # char_of (uint (msg_Address m)) # Msg m"

definition fromPayload :: "string \<Rightarrow> ibftError + Message" where
  "fromPayload s = (case s of x # y # m \<Rightarrow> Inr \<lparr>Code = of_char x, Msg = m, msg_Address = of_char y, Signature = [], CommittedSeal = []\<rparr>
     | _ \<Rightarrow> Inl ErrInvalidMessage)"

definition exPolicy :: ProposerPolicy where
  "exPolicy = \<lparr>Id = 0, By = \<lambda>a b. a < b\<rparr>"

text \<open>The chain has a block of number nought, and a block of hash 6 is known to be bad.\<close>

definition exBackend :: Backend where
  "exBackend = \<lparr>LastProposal = (Some \<lparr>p_Number = 0, p_Hash = 4, p_ParentHash = 0\<rparr>, 0), Validators = \<lambda>_. Some (NewSet [7, 8, 9, 10] exPolicy),
     ParentValidators = \<lambda>p. if p_ParentHash p = 0 then Some (NewSet [7, 8, 9, 10] exPolicy) else None, GetProposer = \<lambda>_. 0,
     HasPropsal = \<lambda>h n. h = 4 \<and> n = 0, HasBadProposal = \<lambda>h. h = 6, Verify = \<lambda>p. if p_Hash p = 0 then Some ErrInvalidMessage else None,
     Commit = \<lambda>p _. p_Hash p \<noteq> 6, Sign = Some, IsQBFTConsensusAt = \<lambda>_. False, encodePreprepare = encPreprepare, encodeSubject = encSubject,
     decodePreprepare = decPreprepare, decodeSubject = decSubject, PayloadNoSig = Msg, Payload = toPayload, FromPayload = \<lambda>_. fromPayload\<rparr>"

definition exProtocol :: protocol where
  "exProtocol = \<lparr>dec = decSubject, vals = \<lambda>_. [7, 8, 9, 10], ceilBlock = 0, bad = {6}\<rparr>"

lemma exBackend_good: "goodBackend exProtocol exBackend"
  by (simp add: goodBackend_def exBackend_def exProtocol_def decSubject_encSubject NewSet_def exPolicy_def SortValidators_def Let_def)

section \<open>Running the network\<close>

fun runNet :: "address list \<Rightarrow> Backend \<Rightarrow> (address \<times> event) list \<Rightarrow> network \<Rightarrow> network option" where
  "runNet honest B [] net = Some net"
| "runNet honest B ((a, ev) # steps) net =
     (if a \<in> set honest \<and> deliverable honest net a B ev
      then (case handleEvent B ev (net a) of None \<Rightarrow> None | Some c \<Rightarrow> runNet honest B steps (net(a := c))) else None)"

lemma runNet_networks: "networks N honest net \<Longrightarrow> goodBackend N B \<Longrightarrow> runNet honest B steps net = Some net' \<Longrightarrow> networks N honest net'"
proof (induction steps arbitrary: net)
  case (Cons s steps)
  then show ?case by (cases s) (auto split: if_splits option.splits intro: networks.event)
qed simp

definition exStart :: network where
  "exStart a = newCore (Some 0) a exPolicy"

lemma exStart_networks: "networks exProtocol honest exStart"
  by (rule networks.started) (auto simp: exStart_def exProtocol_def)

definition exProposal :: Proposal where
  "exProposal = \<lparr>p_Number = 1, p_Hash = 5, p_ParentHash = 4\<rparr>"

definition exView :: View where
  "exView = \<lparr>Round = 0, Sequence = 1\<rparr>"

text \<open>A message of a validator, as it comes in.\<close>

definition from_sender :: "u64 \<Rightarrow> address \<Rightarrow> string \<Rightarrow> event" where
  "from_sender code a m = MessageEvent 0 (toPayload \<lparr>Code = code, Msg = m, msg_Address = a, Signature = [], CommittedSeal = []\<rparr>)"

definition exSteps :: "(address \<times> event) list" where
  "exSteps =
     (let sub = encSubject \<lparr>sub_View = exView, Digest = 5\<rparr>; pp = encPreprepare \<lparr>pp_View = exView, pp_Proposal = exProposal\<rparr>; all = [7, 8, 9] in
      [(a, Start). a \<leftarrow> all] @ [(7, RequestEvent (Some exProposal))] @ [(a, from_sender MsgPreprepare 7 pp). a \<leftarrow> all]
      @ [(a, from_sender MsgPrepare b sub). a \<leftarrow> all, b \<leftarrow> all] @ [(a, from_sender MsgCommit b sub). a \<leftarrow> all, b \<leftarrow> all])"

definition decisions :: "core \<Rightarrow> (View \<times> Proposal) list" where
  "decisions c = concat (map (\<lambda>e. case e of CommitProposal v p sl \<Rightarrow> [(v, p)] | _ \<Rightarrow> []) (effects c))"

lemma decisions_effects: "(v, p) \<in> set (decisions c) \<Longrightarrow> \<exists>sl. CommitProposal v p sl \<in> set (effects c)"
  by (auto simp: decisions_def split: effect.splits)

lemma exRun: "map_option (\<lambda>net. map (\<lambda>a. decisions (net a)) [7, 8, 9]) (runNet [7, 8, 9] exBackend exSteps exStart)
    = Some [[(exView, exProposal)], [(exView, exProposal)], [(exView, exProposal)]]"
  by code_simp

lemma exRun_decided:
  obtains net sl sl' where "networks exProtocol [7, 8, 9] net" "CommitProposal exView exProposal sl \<in> set (effects (net 7))"
    "CommitProposal exView exProposal sl' \<in> set (effects (net 8))"
proof -
  obtain net where net: "runNet [7, 8, 9] exBackend exSteps exStart = Some net" "decisions (net 7) = [(exView, exProposal)]" "decisions (net 8) = [(exView, exProposal)]"
    using exRun by auto
  show ?thesis
    using that runNet_networks [OF exStart_networks exBackend_good net(1)] decisions_effects [of exView exProposal "net 7"]
      decisions_effects [of exView exProposal "net 8"] net(2,3) by auto
qed

theorem ibft_agreement_witness:
  "\<exists>net sl sl'. networks exProtocol [7, 8, 9] net \<and> CommitProposal exView exProposal sl \<in> set (effects (net 7))
     \<and> CommitProposal exView exProposal sl' \<in> set (effects (net 8))
     \<and> (\<forall>q sl''. CommitProposal exView q sl'' \<in> set (effects (net 9)) \<and> p_Hash q \<noteq> 6 \<longrightarrow> p_Hash q = p_Hash exProposal)"
proof -
  obtain net sl sl' where n: "networks exProtocol [7, 8, 9] net" "CommitProposal exView exProposal sl \<in> set (effects (net 7))"
      "CommitProposal exView exProposal sl' \<in> set (effects (net 8))" by (rule exRun_decided)
  have "p_Hash exProposal = p_Hash q" if "CommitProposal exView q sl'' \<in> set (effects (net 9))" "p_Hash q \<noteq> 6" for q sl''
    by (rule ibft_agreement [OF n(1) _ _ n(2) that(1)]) (use that(2) in \<open>simp_all add: exProtocol_def exView_def exProposal_def\<close>)
  then show ?thesis using n by metis
qed

section \<open>Proposals of earlier views\<close>

text \<open>C21: A validator that is working on a proposal and gets a proposal of an earlier view, for a block it already has, answers with a commit message
  for that block; the seal it puts on the message is not for that block but for the proposal it is working on, which nobody has prepared yet.\<close>

theorem old_proposal_seals_current:
  assumes "current c = Some r" and "Preprepare_of r = Some cur" and "decodePreprepare B (Msg msg) = Some pp"
    and "View_Cmp (pp_View pp) \<lparr>Round = round r, Sequence = sequence r\<rparr> < 0"
    and "ParentValidators B (pp_Proposal pp) = Some vs"
    and "IsProposer src (CalcProposer (GetProposer B (word_of_int (p_Number (pp_Proposal pp)) - 1)) (word_of_int (Round (pp_View pp))) (vs_Copy vs))"
    and "HasPropsal B (p_Hash (pp_Proposal pp)) (p_Number (pp_Proposal pp))" and "\<forall>x. Sign B x \<noteq> None"
  shows "\<exists>m. handlePreprepare B msg src c = Some (emit (Broadcast m) c, None) \<and> Code m = MsgCommit
     \<and> Msg m = encodeSubject B \<lparr>sub_View = pp_View pp, Digest = p_Hash (pp_Proposal pp)\<rparr>
     \<and> Some (CommittedSeal m) = Sign B (PrepareCommittedSeal (p_Hash (pp_Proposal cur)))"
proof -
  have "checkMessage MsgPreprepare (pp_View pp) c = Some (Some ErrOldMessage)"
    using assms(1,4) by (simp add: checkMessage_def currentView_def MsgPreprepare_def MsgRoundChange_def)
  then have "handlePreprepare B msg src c = handled_ok (sendCommitForOldBlock B (pp_View pp) (p_Hash (pp_Proposal pp)) c)"
    using assms(3,5-7) by (simp add: handlePreprepare_def oldPreprepare_def)
  moreover obtain seal where seal: "Sign B (PrepareCommittedSeal (p_Hash (pp_Proposal cur))) = Some seal" using assms(8) by blast
  let ?m = "\<lparr>Code = MsgCommit, Msg = encodeSubject B \<lparr>sub_View = pp_View pp, Digest = p_Hash (pp_Proposal pp)\<rparr>, msg_Address = self_address c, Signature = [],
    CommittedSeal = seal\<rparr>"
  obtain s where s: "Sign B (PayloadNoSig B ?m) = Some s" using assms(8) by blast
  have "sendCommitForOldBlock B (pp_View pp) (p_Hash (pp_Proposal pp)) c = Some (emit (Broadcast (?m\<lparr>Signature := s\<rparr>)) c)"
    using assms(1,2) seal s by (simp add: sendCommitForOldBlock_def broadcastCommit_def broadcast_def finalizeMessage_def newMessage_def Proposal_of_def)
  ultimately show ?thesis using seal by (intro exI [of _ "?m\<lparr>Signature := s\<rparr>"]) (simp add: handled_ok_def)
qed

text \<open>Validator 8 has taken the proposal for block one and is then sent the proposal of the block of number nought again.\<close>

definition exWorking :: core where
  "exWorking = (exStart 8)\<lparr>valSet := NewSet [7, 8, 9, 10] exPolicy, state := StatePreprepared,
     current := Some (newRoundState exView (NewSet [7, 8, 9, 10] exPolicy) 0 (Some \<lparr>pp_View = exView, pp_Proposal = exProposal\<rparr>) None)\<rparr>"

definition exOld :: Preprepare where
  "exOld = \<lparr>pp_View = \<lparr>Round = 0, Sequence = 0\<rparr>, pp_Proposal = \<lparr>p_Number = 0, p_Hash = 4, p_ParentHash = 0\<rparr>\<rparr>"

definition exOldMsg :: Message where
  "exOldMsg = \<lparr>Code = MsgPreprepare, Msg = encPreprepare exOld, msg_Address = 7, Signature = [], CommittedSeal = []\<rparr>"

theorem old_proposal_seals_current_witness:
  "\<exists>m. handlePreprepare exBackend exOldMsg 7 exWorking = Some (emit (Broadcast m) exWorking, None) \<and> Code m = MsgCommit
     \<and> Msg m = encSubject \<lparr>sub_View = \<lparr>Round = 0, Sequence = 0\<rparr>, Digest = 4\<rparr> \<and> CommittedSeal m = PrepareCommittedSeal 5"
proof -
  have "decPreprepare (Msg exOldMsg) = Some exOld" by code_simp
  moreover have "IsProposer 7 (CalcProposer 0 0 (vs_Copy (NewSet [7, 8, 9, 10] exPolicy)))" by code_simp
  ultimately show ?thesis
    using old_proposal_seals_current [of exWorking "newRoundState exView (NewSet [7, 8, 9, 10] exPolicy) 0 (Some \<lparr>pp_View = exView, pp_Proposal = exProposal\<rparr>) None"
        "\<lparr>pp_View = exView, pp_Proposal = exProposal\<rparr>" exBackend exOldMsg exOld "NewSet [7, 8, 9, 10] exPolicy" 7]
    by (simp add: exWorking_def exBackend_def newRoundState_def exView_def exOld_def View_Cmp_def exProposal_def)
qed

section \<open>A quorum\<close>

definition exCommit :: "address \<Rightarrow> Message" where
  "exCommit a = \<lparr>Code = MsgCommit, Msg = encSubject \<lparr>sub_View = exView, Digest = 5\<rparr>, msg_Address = a, Signature = [], CommittedSeal = []\<rparr>"

definition exEvents :: "event list" where
  "exEvents = (let sub = encSubject \<lparr>sub_View = exView, Digest = 5\<rparr> in
     [from_sender MsgPrepare 9 sub, from_sender MsgCommit 10 sub, RequestEvent None, BacklogEvent (exCommit 7) 7,
      from_sender MsgCommit 9 (encSubject \<lparr>sub_View = exView, Digest = 6\<rparr>), from_sender MsgCommit 9 sub, from_sender MsgCommit 8 sub])"

theorem commit_quorum_decides_witness:
  "\<exists>c' r sl. handleEvents exBackend exEvents exWorking = Some c' \<and> state c' = StateCommitted \<and> current c' = Some r \<and> lockedHash r = 5
     \<and> CommitProposal exView exProposal sl \<in> set (effects c') \<and> 3 \<le> length sl"
proof -
  let ?sub = "\<lparr>sub_View = exView, Digest = 5\<rparr>"
  have v: "validators (NewSet [7, 8, 9, 10] exPolicy) = [7, 8, 9, 10]" by code_simp
  have "awaits exWorking ?sub exProposal {}"
    by (simp add: awaits_def exWorking_def newRoundState_def newMessageSet_def exStart_def newCore_def Subject_of_def Proposal_of_def exView_def exProposal_def v)
  moreover have q: "QuorumSize exWorking = 3" and w: "validators (valSet exWorking) = [7, 8, 9, 10]"
    by (simp_all add: exWorking_def QuorumSize_def newRoundState_def exStart_def newCore_def exView_def ceil2Nby3_def Size_def v)
  moreover have "\<forall>ev \<in> set exEvents. viewEvent exBackend [7, 8, 9, 10] ev" by code_simp
  moreover have "card (\<Union>ev \<in> set exEvents. votes exBackend [7, 8, 9, 10] ?sub ev) = 4" by code_simp
  ultimately obtain c' r sl where "handleEvents exBackend exEvents exWorking = Some c'" "state c' = StateCommitted" "current c' = Some r"
    "CommitProposal exView exProposal sl \<in> set (effects c')" "3 \<le> int (length sl)" "Commit exBackend exProposal sl \<longrightarrow> lockedHash r = 5"
    using commit_quorum_decides [of exWorking ?sub exProposal "{}" exEvents exBackend] by (auto split: if_splits)
  moreover have "Commit exBackend exProposal sl" by (simp add: exBackend_def exProposal_def)
  ultimately show ?thesis by auto
qed

end
