(* ===== verification/ChainPools.thy ===== *)
theory ChainPools
  imports Supply
begin

text \<open>
  The part of \<open>writeBlockWithState\<close> of core/blockchain.go that turns what the transactions of a block left
  in the pools of the state database into the stakers, validators and active miners stored with
  the block, and the choice of the next validators from them. The pools of the parent block are
  arguments: reading and writing the database is not modelled.
\<close>

section \<open>Definitions\<close>

definition commitDeposit :: "PledgedToken \<Rightarrow> Staker list \<Rightarrow> Staker list" where
  "commitDeposit v pool =
     (if pt_Flag v then AddStaker (pt_Address v) (pt_Amount v) pool
      else fst (RemoveStaker (pt_Address v) (pt_Amount v) pool))"

definition commitPledge :: "PledgedToken \<Rightarrow> Validator list \<Rightarrow> Validator list" where
  "commitPledge v pool =
     (if pt_Flag v then AddValidator (pt_Address v) (pt_Amount v) pool
      else fst (RemoveValidator (pt_Address v) (pt_Amount v) pool))"

text \<open>The error of a removal is dropped.\<close>

definition removeMiner :: "address \<Rightarrow> ActiveMiner list \<Rightarrow> ActiveMiner list" where
  "removeMiner a l = (case RemoveActiveAddr a l of Inr l' \<Rightarrow> l' | Inl _ \<Rightarrow> l)"

text \<open>Every thirty blocks, the miners not heard of for more than 119 blocks go. The difference of the
  block numbers wraps.\<close>

definition dropInactive :: "u64 \<Rightarrow> ActiveMiner list \<Rightarrow> ActiveMiner list" where
  "dropInactive n miners =
     (if n mod 30 = 9 \<and> n > 30
      then fold removeMiner (map am_Address (filter (\<lambda>v. n - am_Height v > 119) miners)) miners
      else miners)"

definition EnsureEffectiveMiners :: "keccak \<Rightarrow> Validator list \<Rightarrow> ActiveMiner list \<Rightarrow> ActiveMiner list" where
  "EnsureEffectiveMiners k vl al =
     (let invalidAddr = map am_Address (filter (\<lambda>v. \<not> Validator_Exist vl (am_Address v)) al);
          al' = map (\<lambda>v. if Validator_Exist vl (am_Address v)
                       then v\<lparr>am_Balance := Validator_StakeBalance k vl (am_Address v)\<rparr> else v) al
      in fold removeMiner invalidAddr al')"

text \<open>The stakers and validators of the block, and the state with its pools emptied.\<close>

definition commitPools :: "u64 \<Rightarrow> Staker list \<Rightarrow> Validator list \<Rightarrow> StateDB \<Rightarrow> Staker list \<times> Validator list \<times> StateDB" where
  "commitPools n exchangerPool validatorPool s =
     (let exchangerPool' = fold commitDeposit (ExchangerTokenPool s) exchangerPool;
          validatorPool' = fold commitPledge (PledgedTokenPool s) validatorPool;
          miners = EnsureEffectiveMiners (hasher s) validatorPool' (dropInactive n (ActiveMinersPool s))
      in (exchangerPool', validatorPool',
          s\<lparr>ExchangerTokenPool := [], PledgedTokenPool := [], ActiveMinersPool := miners\<rparr>))"

definition Random11ValidatorFromPool ::
  "((int \<times> int) list \<Rightarrow> (int \<times> int) list) \<Rightarrow> keccak \<Rightarrow> ActiveMiner list \<Rightarrow> hash \<Rightarrow> Validator list panics" where
  "Random11ValidatorFromPool order k activeMiners headerHash =
     do { validators \<leftarrow> Miner_ValidatorByDistanceAndWeight order k activeMiners (Miner_ConvertToBigInt activeMiners) 11 headerHash;
          Some (fold (\<lambda>addr l. AddValidator addr (Miner_StakeBalance k activeMiners addr) l) validators []) }"

definition RandomNValidatorFromEleven ::
  "((int \<times> int) list \<Rightarrow> (int \<times> int) list) \<Rightarrow> keccak \<Rightarrow> int \<Rightarrow> Validator list \<Rightarrow> hash \<Rightarrow> address list panics" where
  "RandomNValidatorFromEleven order k amount elevenValidator parentHash =
     Validator_ValidatorByDistanceAndWeight order k elevenValidator (Validator_ConvertToBigInt elevenValidator) amount parentHash"

section \<open>Lemmas\<close>

subsection \<open>Active miners\<close>

lemma removeMiner_filter: "distinct (map am_Address l) \<Longrightarrow> removeMiner a l = filter (\<lambda>m. am_Address m \<noteq> a) l"
proof (cases "find_first (\<lambda>v. am_Address v = a) l")
  case None
  then have "\<forall>m \<in> set l. am_Address m \<noteq> a" by (auto simp: find_first_None)
  then show ?thesis using None by (simp add: removeMiner_def RemoveActiveAddr_def Miner_GetIndex_def)
next
  case (Some p)
  assume d: "distinct (map am_Address l)"
  obtain i v where p: "p = (i, v)" by force
  obtain us vs where l: "l = us @ v # vs" "take i l = us" "drop (Suc i) l = vs" "am_Address v = a"
    using Some p by (auto elim: find_first_split)
  have "\<forall>m \<in> set us \<union> set vs. am_Address m \<noteq> a" using d unfolding l(1) l(4) [symmetric] by (auto simp: image_iff)
  then have "filter (\<lambda>m. am_Address m \<noteq> a) l = us @ vs" unfolding l(1) using l(4) by (simp add: filter_id_conv)
  then show ?thesis using Some p l(2,3) by (simp add: removeMiner_def RemoveActiveAddr_def Miner_GetIndex_def)
qed

lemma removeMiners_filter:
  "distinct (map am_Address l) \<Longrightarrow> fold removeMiner as l = filter (\<lambda>m. am_Address m \<notin> set as) l"
proof (induction as arbitrary: l)
  case (Cons a as)
  have "distinct (map am_Address (filter (\<lambda>m. am_Address m \<noteq> a) l))" using Cons.prems by (simp add: distinct_map_filter)
  then show ?case using Cons by (simp add: removeMiner_filter)
qed simp

subsection \<open>Pledges\<close>

definition event :: "PledgedToken \<Rightarrow> address \<times> int \<times> bool" where
  "event t = (pt_Address t, pt_Amount t, pt_Flag t)"

lemma commitPledges_events:
  "fold commitPledge ts l = fold (\<lambda>(a, v, dep). if dep then AddValidator a v else (\<lambda>l. fst (RemoveValidator a v l))) (map event ts) l"
  by (induction ts arbitrary: l) (simp_all add: commitPledge_def event_def)

lemma Validator_stakes: "distinct (map v_Addr l) \<Longrightarrow> Validator_StakeBalance k l = stake_of v_Addr v_Balance l"
  by (rule ext) (rule Validator_StakeBalance_distinct)

lemma commitPledges_booked:
  assumes "distinct (map v_Addr l)" and "covered (Validator_StakeBalance k l) (map event ts)"
  shows "Validator_StakeBalance k (fold commitPledge ts l) = booked (Validator_StakeBalance k l) (map event ts)"
    and "distinct (map v_Addr (fold commitPledge ts l))"
proof -
  note b = pledges.bookings [OF assms(1) assms(2) [unfolded Validator_stakes [OF assms(1)]], folded commitPledges_events]
  then show d: "distinct (map v_Addr (fold commitPledge ts l))" by simp
  show "Validator_StakeBalance k (fold commitPledge ts l) = booked (Validator_StakeBalance k l) (map event ts)"
    using b by (simp add: Validator_stakes [OF d] Validator_stakes [OF assms(1)])
qed

lemma pledged_PledgeToken: "GetPledgedBalance b (PledgeToken a v s) = GetPledgedBalance b s + (if b = a then v else 0)"
  by (auto simp: getter_acct acct_PledgeToken nilz_def)

lemma pledged_CancelPledgedToken:
  assumes "CancelPledgedToken a v s = Some s'"
  shows "GetPledgedBalance b s' = GetPledgedBalance b s - (if b = a then v else 0)"
    and "PledgedTokenPool s' = PledgedTokenPool s @ [\<lparr>pt_Address = a, pt_Amount = v, pt_Flag = False\<rparr>]"
proof -
  show "GetPledgedBalance b s' = GetPledgedBalance b s - (if b = a then v else 0)"
    using acct_CancelPledgedToken [OF assms] nil_add_value by (fastforce simp: getter_acct)
  have g: "PledgedTokenPool (GetOrNewStateObject a s) = PledgedTokenPool s" "PledgedTokenPool (modify a f s) = PledgedTokenPool s"
    "PledgedTokenPool (journal_append e s) = PledgedTokenPool s" for f e s
    by (auto simp: GetOrNewStateObject_def createObject_def setStateObject_def modify_def journal_append_def Let_def split: option.split)
  show "PledgedTokenPool s' = PledgedTokenPool s @ [\<lparr>pt_Address = a, pt_Amount = v, pt_Flag = False\<rparr>]"
    using assms by (auto simp: CancelPledgedToken_def Let_def bind_Some_iff g touch_dead o_SetBalance_def o_SubPledgedBalance_def
        o_SetPledgedBalance_def split: if_splits option.splits Option.bind_splits)
qed


text \<open>A block as far as pledges go: transactions that pledge and cancel, as the handlers accept them, and
  others that touch neither the pledges nor their pool.\<close>

inductive pledge_block :: "StateDB \<Rightarrow> (address \<times> int \<times> bool) list \<Rightarrow> StateDB \<Rightarrow> bool" where
  block_done: "pledge_block s [] s"
| block_pledge: "handlePledge a v s = Some (t, None) \<Longrightarrow> pledge_block t evs u \<Longrightarrow> pledge_block s ((a, v, True) # evs) u"
| block_cancel: "handleCancelPledge a v s = Some (t, None) \<Longrightarrow> 0 \<le> v \<Longrightarrow> pledge_block t evs u \<Longrightarrow> pledge_block s ((a, v, False) # evs) u"
| block_other: "PledgedTokenPool t = PledgedTokenPool s \<Longrightarrow> (\<And>a. GetPledgedBalance a t = GetPledgedBalance a s) \<Longrightarrow>
    pledge_block t evs u \<Longrightarrow> pledge_block s evs u"

lemma pledge_block_booked:
  assumes "pledge_block s evs u"
  shows "map event (PledgedTokenPool u) = map event (PledgedTokenPool s) @ evs"
    and "(\<lambda>a. GetPledgedBalance a u) = booked (\<lambda>a. GetPledgedBalance a s) evs"
    and "covered (\<lambda>a. GetPledgedBalance a s) evs"
proof -
  have "map event (PledgedTokenPool u) = map event (PledgedTokenPool s) @ evs
    \<and> (\<lambda>a. GetPledgedBalance a u) = booked (\<lambda>a. GetPledgedBalance a s) evs \<and> covered (\<lambda>a. GetPledgedBalance a s) evs"
    using assms
  proof induction
    case (block_done s)
    then show ?case by (simp add: booked_def)
  next
    case (block_pledge a v s t evs u)
    have t: "t = PledgeToken a v s" using block_pledge(1) by (auto simp: handlePledge_def handler_ok)
    have "(\<lambda>b. GetPledgedBalance b t) = (\<lambda>b. GetPledgedBalance b s)(a := GetPledgedBalance a s + v)"
      by (auto simp: t pledged_PledgeToken)
    then show ?case using block_pledge.IH by (simp add: t pledge_pool event_def booked_def)
  next
    case (block_cancel a v s t evs u)
    have c: "CancelPledgedToken a v s = Some t" "v \<le> GetPledgedBalance a s"
      using block_cancel(1) by (auto simp: handleCancelPledge_def handler_ok VerifyPledgedBalance_def)
    have "(\<lambda>b. GetPledgedBalance b t) = (\<lambda>b. GetPledgedBalance b s)(a := GetPledgedBalance a s - v)"
      by (auto simp: pledged_CancelPledgedToken [OF c(1)])
    then show ?case using block_cancel.IH c(2) block_cancel(2) by (simp add: pledged_CancelPledgedToken [OF c(1)] event_def booked_def)
  next
    case (block_other t s evs u)
    then show ?case by simp
  qed
  then show "map event (PledgedTokenPool u) = map event (PledgedTokenPool s) @ evs"
    and "(\<lambda>a. GetPledgedBalance a u) = booked (\<lambda>a. GetPledgedBalance a s) evs"
    and "covered (\<lambda>a. GetPledgedBalance a s) evs" by simp_all
qed

lemma rich_pool: "PledgedTokenPool richState = []"
  by (simp add: richState_def AddBalance_def touch_dead o_SetBalance_def modify_def journal_append_def GetOrNewStateObject_def createObject_def
      setStateObject_def New_def Let_def split: option.split)

section \<open>Properties\<close>

text \<open>C24: The validators' stakes follow the pledges: if, when a block starts, the pool of pledges is empty and every
  account's stake in the list of validators is its pledge, then after any pledges and cancellations of
  the block that were not reverted the committed list again gives every account its pledge, with one
  entry per account.\<close>

theorem validators_follow_pledges:
  assumes "pledge_block s evs s'" and "PledgedTokenPool s = []" and "distinct (map v_Addr validatorPool)"
    and "\<forall>a. Validator_StakeBalance k validatorPool a = GetPledgedBalance a s"
    and "commitPools n exchangerPool validatorPool s' = (exchangerPool', validatorPool', s'')"
  shows "(\<forall>a. Validator_StakeBalance k validatorPool' a = GetPledgedBalance a s'') \<and> distinct (map v_Addr validatorPool')
    \<and> PledgedTokenPool s'' = []"
proof -
  have v: "validatorPool' = fold commitPledge (PledgedTokenPool s') validatorPool" and "PledgedTokenPool s'' = []"
    and s'': "acct s'' = acct s'"
    using assms(5) by (auto simp: commitPools_def Let_def acct_bookkeeping)
  have st: "Validator_StakeBalance k validatorPool = (\<lambda>a. GetPledgedBalance a s)" using assms(4) by auto
  have evs: "map event (PledgedTokenPool s') = evs" using pledge_block_booked(1) [OF assms(1)] assms(2) by simp
  note c = commitPledges_booked [OF assms(3), of k "PledgedTokenPool s'", unfolded evs st, OF pledge_block_booked(3) [OF assms(1)]]
  have "Validator_StakeBalance k validatorPool' a = GetPledgedBalance a s'" for a
    using c(1) pledge_block_booked(2) [OF assms(1)] unfolding v by (metis (no_types))
  then show ?thesis using c(2) v \<open>PledgedTokenPool s'' = []\<close> s'' by (simp add: getter_acct)
qed

text \<open>C33: A pledge can be had for nothing. The sender of a pledge transaction chooses its recipient; when the recipient's
  code, or a precompiled contract, fails, the call is reverted: every account, the sender's balance and pledge
  included, is as before. But the pool of pledges is not journaled and keeps the entry, so that the next commit
  adds the whole amount to the sender's stake as a validator.\<close>

theorem reverted_pledge_becomes_stake:
  assumes "reach s" and "sandboxed E" and "\<not> NoRecursion E" and "depth E \<le> CallCreateDepth"
    and "length input > 10" and "take 10 input = ''wormholes:''" and "unmarshal E (drop 10 input) = Some w" and "w_Type w = 9"
    and "100000 * ERB \<le> v" and "v \<le> GetBalance caller s"
    and "runRecipient E caller addr input gas v (PledgeToken caller v (fst (Snapshot s))) = Some (s2, ret, g2, Some e)"
    and "PledgedTokenPool s2 = PledgedTokenPool (PledgeToken caller v (fst (Snapshot s)))"
    and "PledgedTokenPool s = []" and "distinct (map v_Addr validatorPool)"
  shows "\<exists>s' g. Call E caller addr input gas v s = Some (s', ret, g, Some e)
     \<and> (\<forall>a. GetBalance a s' = GetBalance a s \<and> wealth s' a = wealth s a)
     \<and> Validator_StakeBalance k (fst (snd (commitPools n exchangerPool validatorPool s'))) caller
         = Validator_StakeBalance k validatorPool caller + v"
proof -
  obtain s' g where s': "Call E caller addr input gas v s = Some (s', ret, g, Some e)" "core s' = core s"
    "PledgedTokenPool s' = PledgedTokenPool s @ [\<lparr>pt_Address = caller, pt_Amount = v, pt_Flag = True\<rparr>]"
    using phantom_pledge [OF reach_wf [OF assms(1)] assms(2-12)] by blast
  have "fst (snd (commitPools n exchangerPool validatorPool s')) = AddValidator caller v validatorPool"
    by (simp add: commitPools_def Let_def s'(3) assms(13) commitPledge_def)
  moreover have "Validator_StakeBalance k (AddValidator caller v validatorPool) caller = Validator_StakeBalance k validatorPool caller + v"
    using validators.add_stake [of caller v validatorPool caller]
    by (simp add: Validator_stakes [OF assms(14)] Validator_stakes [OF validators.add_distinct [OF assms(14)]])
  ultimately show ?thesis using s'(1) core_getters(1) [OF s'(2)] core_wealth [OF s'(2)] by auto
qed

text \<open>The active miners are kept to the validators: of a list with one entry per address,
  exactly the miners that are validators remain, in their order, each with its present stake as its balance.\<close>

theorem EnsureEffectiveMiners_spec:
  assumes "distinct (map am_Address al)"
  shows "EnsureEffectiveMiners k vl al =
    map (\<lambda>m. m\<lparr>am_Balance := Validator_StakeBalance k vl (am_Address m)\<rparr>) (filter (\<lambda>m. Validator_Exist vl (am_Address m)) al)"
proof -
  let ?up = "\<lambda>v. if Validator_Exist vl (am_Address v) then v\<lparr>am_Balance := Validator_StakeBalance k vl (am_Address v)\<rparr> else v"
  have ad: "am_Address (?up m) = am_Address m" for m by simp
  have "map am_Address (map ?up al) = map am_Address al" by simp
  then have "distinct (map am_Address (map ?up al))" using assms by (simp only:)
  then have "EnsureEffectiveMiners k vl al
      = filter (\<lambda>m. am_Address m \<notin> set (map am_Address (filter (\<lambda>v. \<not> Validator_Exist vl (am_Address v)) al))) (map ?up al)"
    unfolding EnsureEffectiveMiners_def Let_def by (rule removeMiners_filter)
  also have "\<dots> = map ?up (filter (\<lambda>m. am_Address m \<notin> set (map am_Address (filter (\<lambda>v. \<not> Validator_Exist vl (am_Address v)) al))) al)"
    unfolding filter_map comp_def ad ..
  also have "filter (\<lambda>m. am_Address m \<notin> set (map am_Address (filter (\<lambda>v. \<not> Validator_Exist vl (am_Address v)) al))) al
      = filter (\<lambda>m. Validator_Exist vl (am_Address m)) al"
    by (rule filter_cong) auto
  finally show ?thesis by (simp cong: map_cong)
qed

theorem EnsureEffectiveMiners_spec_witness:
  "distinct (map am_Address [NewActiveMiner 1 5 3, NewActiveMiner 2 6 4])
   \<and> EnsureEffectiveMiners (\<lambda>_. 0) [NewValidator 2 9] [NewActiveMiner 1 5 3, NewActiveMiner 2 6 4] = [NewActiveMiner 2 9 4]"
  using EnsureEffectiveMiners_spec [of "[NewActiveMiner 1 5 3, NewActiveMiner 2 6 4]" "\<lambda>_. 0" "[NewValidator 2 9]"]
  by (simp add: NewActiveMiner_def NewValidator_def)

theorem validators_follow_pledges_witness:
  "let s' = PledgeToken 9 (150000 * ERB) richState in
   Validator_StakeBalance (\<lambda>_. 0) (fst (snd (commitPools 7 [] [] s'))) 9 = 150000 * ERB \<and> GetPledgedBalance 9 s' = 150000 * ERB"
proof -
  let ?s' = "PledgeToken 9 (150000 * ERB) richState" and ?z = "New Map.empty (\<lambda>_ _. 0) (\<lambda>_. []) (\<lambda>_. 0)"
  have z: "acct ?z a = zeroAccount (\<lambda>_. 0)" for a by (simp add: acct_def New_def getStateObject_def getDeletedStateObject_def)
  have p: "GetPledgedBalance a richState = 0" for a by (simp add: richState_def getter_acct z)
  have "handlePledge 9 (150000 * ERB) richState = Some (?s', None)"
    using ex_rich(2) by (simp add: handlePledge_def handler_def fail_if_def ok_def CanTransfer_def ERB_def)
  then have b: "pledge_block richState [(9, 150000 * ERB, True)] ?s'" by (rule block_pledge [OF _ block_done])
  obtain e' v' s'' where c: "commitPools 7 [] [] ?s' = (e', v', s'')" by (cases "commitPools 7 [] [] ?s'") auto
  have "acct s'' = acct ?s'" using c by (auto simp: commitPools_def Let_def)
  then have "GetPledgedBalance a s'' = GetPledgedBalance a ?s'" for a by (simp add: getter_acct)
  then show ?thesis
    using validators_follow_pledges [OF b rich_pool, of "[]" "\<lambda>_. 0" 7 "[]" e' v' s''] c p by (simp add: pledged_PledgeToken)
qed

theorem reverted_pledge_becomes_stake_witness:
  "\<exists>s' g. Call (exEvm (exWormholes\<lparr>w_Type := 9\<rparr>)) 9 6 exInput 21000 (150000 * ERB) richState = Some (s', [], g, Some ''malformed point'')
     \<and> GetBalance 9 s' = 200000 * ERB \<and> Validator_StakeBalance (\<lambda>_. 0) (fst (snd (commitPools 7 [] [] s'))) 9 = 150000 * ERB"
proof -
  let ?E = "exEvm (exWormholes\<lparr>w_Type := 9\<rparr>)" and ?p = "PledgeToken 9 (150000 * ERB) (fst (Snapshot richState))"
  have r: "runRecipient ?E 9 6 exInput 21000 (150000 * ERB) ?p = Some (?p, [], 0, Some ''malformed point'')"
    by (simp add: runRecipient_def exEvm_def)
  have h: "\<not> NoRecursion ?E" "depth ?E \<le> CallCreateDepth" "length exInput > 10" "take 10 exInput = ''wormholes:''"
    "unmarshal ?E (drop 10 exInput) = Some (exWormholes\<lparr>w_Type := 9\<rparr>)" "w_Type (exWormholes\<lparr>w_Type := 9\<rparr>) = 9"
    "100000 * ERB \<le> 150000 * ERB" "150000 * ERB \<le> GetBalance 9 richState"
    by (simp_all add: exEvm_def CallCreateDepth_def exInput_def ERB_def ex_rich(2))
  from reverted_pledge_becomes_stake [OF ex_rich(1) ex_sandboxed h r refl rich_pool, of "[]" "\<lambda>_. 0" 7 "[]"] show ?thesis using ex_rich(2) by auto
qed

end
