(* ===== verification/IBFTEngine.thy ===== *)
theory IBFTEngine
  imports ChainPools IBFT "HOL-Library.Multiset"
begin

text \<open>
  consensus/istanbul/ibft/engine/engine.go with core/types/istanbul.go, and the parts of consensus/istanbul/backend that choose the validators for them: what a
  header of the chain has to carry, who wrote and who sealed it, how it is prepared, sealed and finalised.

  Signatures, hashes of encoded headers and the RLP encoding of the extra data are parameters, fields of the record \<open>engine\<close>; so is the root of the tries. The network
  uses this engine for every block, so the choice of the other engine by block number is left out. Logging is left out.
\<close>

section \<open>Definitions\<close>

subsection \<open>Headers and their extra data\<close>

record Header =
  ParentHash :: hash
  UncleHash :: hash
  Coinbase :: address
  Root :: hash
  TxHash :: hash
  ReceiptHash :: hash
  Bloom :: string
  Difficulty :: "int option"
  h_Number :: "int option"
  GasLimit :: u64
  GasUsed :: u64
  Time :: u64
  Extra :: string
  MixDigest :: hash
  h_Nonce :: u64
  BaseFee :: "int option"

record IstanbulExtra =
  ex_Validators :: "address list"
  ex_Seal :: string
  ex_CommittedSeal :: "string list"
  BeneficiaryAddr :: "address list"

datatype engineError =
    ErrUnknownBlock | ErrFutureBlock | ErrInvalidExtraDataFormat | ErrInvalidIstanbulHeaderExtra | ErrDecodeExtra | ErrInvalidNonce | ErrInvalidMixDigest
  | ErrInvalidUncleHash | ErrInvalidDifficulty | ErrUnknownAncestor | ErrInvalidTimestamp | ErrUnauthorized | ErrEmptyCommittedSeals | ErrInvalidCommittedSeals
  | ErrInvalidSignature | ErrSignature | ErrMismatchTxhashes | ErrBlacklistedHash | ErrInvalidVote

record engine =
  decodeExtra :: "string \<Rightarrow> IstanbulExtra option"
  encodeExtra :: "IstanbulExtra \<Rightarrow> string"
  rlpHash :: "Header option \<Rightarrow> hash"
  QBFTFilteredHeader :: "Header \<Rightarrow> Header option"
  GetSignatureAddress :: "string \<Rightarrow> string \<Rightarrow> address option"
  sign :: "string \<Rightarrow> string option"
  IntermediateRoot :: "StateDB \<Rightarrow> StateDB \<times> hash"
  nilUncleHash :: hash
  signer :: address
  BlockPeriod :: u64
  proposerPolicy :: ProposerPolicy

record chain =
  GetHeader :: "hash \<Rightarrow> u64 \<Rightarrow> Header option"
  GetHeaderByNumber :: "u64 \<Rightarrow> Header option"
  adjustedTimeNow :: u64
  timeNow :: u64

definition IstanbulDigest :: hash where
  "IstanbulDigest = 0x63746963616c2062797a616e74696e65206661756c7420746f6c6572616e6365"

definition IstanbulExtraVanity :: nat where "IstanbulExtraVanity = 32"

definition ExtractIstanbulExtra :: "engine \<Rightarrow> Header \<Rightarrow> engineError + IstanbulExtra" where
  "ExtractIstanbulExtra E h =
     (if length (Extra h) < IstanbulExtraVanity then Inl ErrInvalidIstanbulHeaderExtra
      else case decodeExtra E (drop IstanbulExtraVanity (Extra h)) of None \<Rightarrow> Inl ErrDecodeExtra | Some ex \<Rightarrow> Inr ex)"

definition IstanbulFilteredHeader :: "engine \<Rightarrow> Header \<Rightarrow> bool \<Rightarrow> Header option" where
  "IstanbulFilteredHeader E h keepSeal =
     (case ExtractIstanbulExtra E h of Inl e \<Rightarrow> None
      | Inr ex \<Rightarrow>
          let ex1 = (if \<not> keepSeal then ex\<lparr>ex_Seal := []\<rparr> else ex); ex2 = ex1\<lparr>ex_CommittedSeal := []\<rparr> in
          Some (h\<lparr>Extra := take IstanbulExtraVanity (Extra h) @ encodeExtra E ex2\<rparr>))"

definition FilteredHeader :: "engine \<Rightarrow> Header \<Rightarrow> Header option" where
  "FilteredHeader E h =
     (case ExtractIstanbulExtra E h of Inl e \<Rightarrow> QBFTFilteredHeader E h | Inr ex \<Rightarrow> IstanbulFilteredHeader E h True)"

definition Header_Hash :: "engine \<Rightarrow> Header \<Rightarrow> hash" where
  "Header_Hash E h =
     (if MixDigest h = IstanbulDigest then (case FilteredHeader E h of Some f \<Rightarrow> rlpHash E (Some f) | None \<Rightarrow> rlpHash E (Some h))
      else rlpHash E (Some h))"

definition sigHash :: "engine \<Rightarrow> Header \<Rightarrow> hash" where
  "sigHash E h = rlpHash E (IstanbulFilteredHeader E h False)"

subsection \<open>Who wrote and sealed a header\<close>

definition Author :: "engine \<Rightarrow> Header \<Rightarrow> engineError + address" where
  "Author E h =
     (case ExtractIstanbulExtra E h of Inl e \<Rightarrow> Inl e
      | Inr ex \<Rightarrow> case GetSignatureAddress E (Hash_Bytes (sigHash E h)) (ex_Seal ex) of None \<Rightarrow> Inl ErrSignature | Some a \<Rightarrow> Inr a)"

fun recoverAll :: "engine \<Rightarrow> string \<Rightarrow> string list \<Rightarrow> engineError + address list" where
  "recoverAll E proposalSeal [] = Inr []"
| "recoverAll E proposalSeal (s # ss) =
     (case GetSignatureAddress E proposalSeal s of None \<Rightarrow> Inl ErrInvalidSignature
      | Some a \<Rightarrow> case recoverAll E proposalSeal ss of Inl e \<Rightarrow> Inl e | Inr as \<Rightarrow> Inr (a # as))"

definition Signers :: "engine \<Rightarrow> Header \<Rightarrow> engineError + address list" where
  "Signers E h = (case ExtractIstanbulExtra E h of Inl e \<Rightarrow> Inl e | Inr ex \<Rightarrow> recoverAll E (PrepareCommittedSeal (Header_Hash E h)) (ex_CommittedSeal ex))"

subsection \<open>Verification\<close>

text \<open>A panic is \<open>None\<close>, an accepted header is \<open>Some None\<close>.\<close>

type_synonym verdict = "engineError option panics"

definition verifySigner :: "engine \<Rightarrow> Header \<Rightarrow> defaultSet \<Rightarrow> verdict" where
  "verifySigner E h vs =
     do { n \<leftarrow> h_Number h;
          Some (if (word_of_int n :: u64) = 0 then Some ErrUnknownBlock
                else case Author E h of Inl e \<Rightarrow> Some e
                | Inr a \<Rightarrow> if snd (GetByAddress a vs) = None then Some ErrUnauthorized else None) }"

text \<open>The committers one by one: each must be among the validators that are left.\<close>

fun countSeals :: "address list \<Rightarrow> defaultSet \<Rightarrow> int \<Rightarrow> int option" where
  "countSeals [] cpy validSeal = Some validSeal"
| "countSeals (a # as) cpy validSeal = (case vs_RemoveValidator a cpy of (cpy', True) \<Rightarrow> countSeals as cpy' (validSeal + 1) | (_, False) \<Rightarrow> None)"

definition verifyCommittedSeals :: "engine \<Rightarrow> Header \<Rightarrow> defaultSet \<Rightarrow> verdict" where
  "verifyCommittedSeals E h vs =
     do { n \<leftarrow> h_Number h;
          Some (if (word_of_int n :: u64) = 0 then None
                else case ExtractIstanbulExtra E h of Inl e \<Rightarrow> Some e
                | Inr ex \<Rightarrow>
                    if ex_CommittedSeal ex = [] then Some ErrEmptyCommittedSeals
                    else case Signers E h of Inl e \<Rightarrow> Some e
                    | Inr committers \<Rightarrow>
                        (case countSeals committers (vs_Copy vs) 0 of
                           None \<Rightarrow> Some ErrInvalidCommittedSeals
                         | Some validSeal \<Rightarrow> if validSeal \<le> F vs then Some ErrInvalidCommittedSeals else None)) }"

definition verifyCascadingFields :: "engine \<Rightarrow> chain \<Rightarrow> Header \<Rightarrow> defaultSet panics \<Rightarrow> Header list \<Rightarrow> verdict" where
  "verifyCascadingFields E ch h vso parents =
     do { n \<leftarrow> h_Number h;
          let number = (word_of_int n :: u64);
          if number = 0 then Some None
          else case (if parents \<noteq> [] then Some (last parents) else GetHeader ch (ParentHash h) (number - 1)) of
            None \<Rightarrow> Some (Some ErrUnknownAncestor)
          | Some p \<Rightarrow>
              do { pn \<leftarrow> h_Number p;
                   if (word_of_int pn :: u64) \<noteq> number - 1 \<or> Header_Hash E p \<noteq> ParentHash h then Some (Some ErrUnknownAncestor)
                   else if Time p + BlockPeriod E > Time h then Some (Some ErrInvalidTimestamp)
                   else do { vs \<leftarrow> vso;
                             err \<leftarrow> verifySigner E h vs;
                             case err of Some e \<Rightarrow> Some (Some e) | None \<Rightarrow> verifyCommittedSeals E h vs } } }"

definition verifyHeader :: "engine \<Rightarrow> chain \<Rightarrow> Header \<Rightarrow> Header list \<Rightarrow> defaultSet panics \<Rightarrow> verdict" where
  "verifyHeader E ch h parents vso =
     (if h_Number h = None then Some (Some ErrUnknownBlock)
      else if Time h > adjustedTimeNow ch then Some (Some ErrFutureBlock)
      else case ExtractIstanbulExtra E h of Inl e \<Rightarrow> Some (Some ErrInvalidExtraDataFormat)
      | Inr ex \<Rightarrow>
          if h_Nonce h \<noteq> 0 \<and> h_Nonce h \<noteq> 0xffffffffffffffff \<and> h_Nonce h \<noteq> 0 then Some (Some ErrInvalidNonce)
          else if MixDigest h \<noteq> IstanbulDigest then Some (Some ErrInvalidMixDigest)
          else if UncleHash h \<noteq> nilUncleHash E then Some (Some ErrInvalidUncleHash)
          else if Difficulty h = None \<or> Difficulty h \<noteq> Some 1 then Some (Some ErrInvalidDifficulty)
          else verifyCascadingFields E ch h vso parents)"

text \<open>A block, with the hashes of its transactions and uncles.\<close>

record Block =
  b_Header :: Header
  DeriveSha :: hash
  CalcUncleHash :: hash

definition VerifyBlockProposal :: "engine \<Rightarrow> chain \<Rightarrow> Block \<Rightarrow> defaultSet panics \<Rightarrow> verdict" where
  "VerifyBlockProposal E ch b vso =
     (if DeriveSha b \<noteq> TxHash (b_Header b) then Some (Some ErrMismatchTxhashes)
      else if CalcUncleHash b \<noteq> nilUncleHash E then Some (Some ErrInvalidUncleHash)
      else do { err \<leftarrow> verifyHeader E ch (b_Header b) [] vso;
                Some (if err = None \<or> err = Some ErrEmptyCommittedSeals then None else err) })"

definition VerifySeal :: "engine \<Rightarrow> Header \<Rightarrow> defaultSet \<Rightarrow> verdict" where
  "VerifySeal E h vs =
     do { n \<leftarrow> h_Number h;
          if (word_of_int n :: u64) = 0 then Some (Some ErrUnknownBlock)
          else do { d \<leftarrow> Difficulty h; if d \<noteq> 1 then Some (Some ErrInvalidDifficulty) else verifySigner E h vs } }"

subsection \<open>Making headers\<close>

definition prepareExtra :: "engine \<Rightarrow> Header \<Rightarrow> address list \<Rightarrow> address list \<Rightarrow> string" where
  "prepareExtra E h vals benifitedAddr =
     (let extra = (if length (Extra h) < IstanbulExtraVanity then Extra h @ replicate (IstanbulExtraVanity - length (Extra h)) (CHR 0x00) else Extra h) in
      take IstanbulExtraVanity extra
      @ encodeExtra E \<lparr>ex_Validators = vals, ex_Seal = [], ex_CommittedSeal = [], BeneficiaryAddr = benifitedAddr\<rparr>)"

definition writeSeal :: "engine \<Rightarrow> Header \<Rightarrow> string \<Rightarrow> engineError + Header" where
  "writeSeal E h sl =
     (if length sl mod IstanbulExtraSeal \<noteq> 0 then Inl ErrInvalidSignature
      else case ExtractIstanbulExtra E h of Inl e \<Rightarrow> Inl e
      | Inr ex \<Rightarrow> Inr (h\<lparr>Extra := take IstanbulExtraVanity (Extra h) @ encodeExtra E (ex\<lparr>ex_Seal := sl\<rparr>)\<rparr>))"

definition writeCommittedSeals :: "engine \<Rightarrow> Header \<Rightarrow> string list \<Rightarrow> engineError + Header" where
  "writeCommittedSeals E h seals =
     (if seals = [] then Inl ErrInvalidCommittedSeals
      else if \<exists>s \<in> set seals. length s \<noteq> IstanbulExtraSeal then Inl ErrInvalidCommittedSeals
      else case ExtractIstanbulExtra E h of Inl e \<Rightarrow> Inl e
      | Inr ex \<Rightarrow> Inr (h\<lparr>Extra := take IstanbulExtraVanity (Extra h) @ encodeExtra E (ex\<lparr>ex_CommittedSeal := seals\<rparr>)\<rparr>))"

definition updateBlock :: "engine \<Rightarrow> Header \<Rightarrow> engineError + Header" where
  "updateBlock E h = (case sign E (Hash_Bytes (sigHash E h)) of None \<Rightarrow> Inl ErrSignature | Some sl \<Rightarrow> writeSeal E h sl)"

definition eng_Seal :: "engine \<Rightarrow> chain \<Rightarrow> Header \<Rightarrow> defaultSet \<Rightarrow> (engineError + Header) panics" where
  "eng_Seal E ch h vs =
     do { n \<leftarrow> h_Number h;
          Some (if snd (GetByAddress (signer E) vs) = None then Inl ErrUnauthorized
                else if GetHeader ch (ParentHash h) ((word_of_int n :: u64) - 1) = None then Inl ErrUnknownAncestor
                else updateBlock E h) }"

text \<open>What \<open>Prepare\<close> reads of the chain: the pools at the current block and the hash of its header.\<close>

record poolsAt =
  at_stakers :: "Staker list"
  at_miners :: "ActiveMiner list"
  at_hash :: hash
  at_order :: "(int \<times> int) list \<Rightarrow> (int \<times> int) list"
  at_keccak :: keccak

definition benifited :: "poolsAt \<Rightarrow> address \<Rightarrow> address list panics" where
  "benifited ps coinbase =
     do { stakers \<leftarrow> Staker_ValidatorByDistanceAndWeight (at_order ps) (at_keccak ps) (at_stakers ps) (map (\<lambda>st. Address_Big (st_Addr st)) (at_stakers ps)) 4 (at_hash ps);
          eleven \<leftarrow> Random11ValidatorFromPool (at_order ps) (at_keccak ps) (at_miners ps) (at_hash ps);
          vals \<leftarrow> RandomNValidatorFromEleven (at_order ps) (at_keccak ps) 6 eleven (at_hash ps);
          Some (stakers @ vals @ [coinbase]) }"

definition elevenSet :: "engine \<Rightarrow> poolsAt \<Rightarrow> defaultSet panics" where
  "elevenSet E ps =
     do { eleven \<leftarrow> Random11ValidatorFromPool (at_order ps) (at_keccak ps) (at_miners ps) (at_hash ps);
          Some (NewSet (Validator_ConvertToAddress eleven) (proposerPolicy E)) }"

text \<open>One round of the exchange sort: the smallest address goes to the front.\<close>

fun exchangeMin :: "address \<Rightarrow> address list \<Rightarrow> address \<times> address list" where
  "exchangeMin x [] = (x, [])"
| "exchangeMin x (y # ys) =
     (if x > y then (case exchangeMin y ys of (m, r) \<Rightarrow> (m, x # r)) else (case exchangeMin x ys of (m, r) \<Rightarrow> (m, y # r)))"

lemma length_exchangeMin [simp]: "length (snd (exchangeMin x ys)) = length ys"
  by (induction x ys rule: exchangeMin.induct) (auto split: prod.splits)

function SortedAddresses :: "address list \<Rightarrow> address list" where
  "SortedAddresses [] = []"
| "SortedAddresses (x # xs) = fst (exchangeMin x xs) # SortedAddresses (snd (exchangeMin x xs))"
  by pat_completeness auto
termination by (relation "measure length") simp_all

definition eng_Prepare :: "engine \<Rightarrow> chain \<Rightarrow> poolsAt \<Rightarrow> Header \<Rightarrow> defaultSet \<Rightarrow> (engineError + Header) panics" where
  "eng_Prepare E ch ps h vs =
     do { n \<leftarrow> h_Number h;
          let h1 = h\<lparr>h_Nonce := 0, MixDigest := IstanbulDigest\<rparr>;
          case GetHeader ch (ParentHash h1) ((word_of_int n :: u64) - 1) of
            None \<Rightarrow> Some (Inl ErrUnknownAncestor)
          | Some parent \<Rightarrow>
              do { let h2 = h1\<lparr>Difficulty := Some 1\<rparr>;
                   addrs \<leftarrow> benifited ps (Coinbase h2);
                   let h3 = h2\<lparr>Extra := prepareExtra E h2 (SortedAddresses (validators vs)) addrs\<rparr>;
                   let t = Time parent + BlockPeriod E;
                   Some (Inr (h3\<lparr>Time := (if t < timeNow ch then timeNow ch else t)\<rparr>)) } }"

definition eng_Finalize :: "engine \<Rightarrow> Header \<Rightarrow> StateDB \<Rightarrow> (Header \<times> StateDB) panics" where
  "eng_Finalize E h s =
     (case ExtractIstanbulExtra E h of Inl e \<Rightarrow> Some (h, s)
      | Inr ex \<Rightarrow>
          do { n \<leftarrow> h_Number h;
               s1 \<leftarrow> CreateNFTByOfficial16 (BeneficiaryAddr ex) n s;
               case IntermediateRoot E s1 of (s2, root) \<Rightarrow> Some (h\<lparr>Root := root, UncleHash := nilUncleHash E\<rparr>, s2) })"

definition WriteVote :: "Header \<Rightarrow> address \<Rightarrow> bool \<Rightarrow> Header" where
  "WriteVote h candidate authorize = h\<lparr>Coinbase := candidate, h_Nonce := (if authorize then 0xffffffffffffffff else 0)\<rparr>"

definition ReadVote :: "Header \<Rightarrow> engineError + (address \<times> bool)" where
  "ReadVote h =
     (if h_Nonce h = 0xffffffffffffffff then Inr (Coinbase h, True)
      else if h_Nonce h = 0 then Inr (Coinbase h, False) else Inl ErrInvalidVote)"

subsection \<open>The backend\<close>

text \<open>The header of a block is checked against the validators that it names itself.\<close>

definition sb_verifyHeader :: "engine \<Rightarrow> chain \<Rightarrow> Header \<Rightarrow> Header list \<Rightarrow> verdict" where
  "sb_verifyHeader E ch h parents =
     do { n \<leftarrow> h_Number h;
          if n = 0 then do { genesis \<leftarrow> GetHeaderByNumber ch 0; verifyHeader E ch genesis [] None }
          else case ExtractIstanbulExtra E h of Inl e \<Rightarrow> Some (Some e)
          | Inr ex \<Rightarrow> verifyHeader E ch h parents (Some (NewSet (ex_Validators ex) (proposerPolicy E))) }"

fun sb_verifyAll :: "engine \<Rightarrow> chain \<Rightarrow> Header list \<Rightarrow> bool \<Rightarrow> Header list \<Rightarrow> engineError option list panics" where
  "sb_verifyAll E ch seen errored [] = Some []"
| "sb_verifyAll E ch seen errored (h # hs) =
     do { err \<leftarrow> (if errored then Some (Some ErrUnknownAncestor) else sb_verifyHeader E ch h seen);
          rest \<leftarrow> sb_verifyAll E ch (seen @ [h]) (errored \<or> err \<noteq> None) hs;
          Some (err # rest) }"

definition sb_VerifyHeaders :: "engine \<Rightarrow> chain \<Rightarrow> Header list \<Rightarrow> engineError option list panics" where
  "sb_VerifyHeaders E ch headers = sb_verifyAll E ch [] False headers"

definition sb_Verify :: "engine \<Rightarrow> chain \<Rightarrow> poolsAt \<Rightarrow> (hash \<Rightarrow> bool) \<Rightarrow> Block \<Rightarrow> verdict" where
  "sb_Verify E ch ps hasBad b =
     (if hasBad (Header_Hash E (b_Header b)) then Some (Some ErrBlacklistedHash)
      else do { vs \<leftarrow> elevenSet E ps; VerifyBlockProposal E ch b (Some vs) })"

definition sb_VerifySeal :: "engine \<Rightarrow> poolsAt \<Rightarrow> Header \<Rightarrow> verdict" where
  "sb_VerifySeal E ps h =
     do { n \<leftarrow> h_Number h;
          if (word_of_int n :: u64) = 0 then Some (Some ErrUnknownBlock) else do { vs \<leftarrow> elevenSet E ps; VerifySeal E h vs } }"

definition sb_Prepare :: "engine \<Rightarrow> chain \<Rightarrow> poolsAt \<Rightarrow> Header \<Rightarrow> (engineError + Header) panics" where
  "sb_Prepare E ch ps h = do { vs \<leftarrow> elevenSet E ps; eng_Prepare E ch ps h vs }"

definition sb_Seal :: "engine \<Rightarrow> chain \<Rightarrow> Header \<Rightarrow> (engineError + Header) panics" where
  "sb_Seal E ch h =
     (case ExtractIstanbulExtra E h of Inl e \<Rightarrow> Some (Inl e)
      | Inr ex \<Rightarrow> eng_Seal E ch h (NewSet (ex_Validators ex) (proposerPolicy E)))"

section \<open>Lemmas\<close>

lemma exchangeMin_mset: "add_mset (fst (exchangeMin x ys)) (mset (snd (exchangeMin x ys))) = add_mset x (mset ys)"
  by (induction x ys rule: exchangeMin.induct) (auto split: prod.splits)

lemma exchangeMin_le: "fst (exchangeMin x ys) \<le> x \<and> (\<forall>y \<in> set ys. fst (exchangeMin x ys) \<le> y)"
  by (induction x ys rule: exchangeMin.induct) (auto split: prod.splits simp: not_less)

lemma mset_SortedAddresses [simp]: "mset (SortedAddresses l) = mset l"
  by (induction l rule: SortedAddresses.induct) (simp_all add: exchangeMin_mset)

lemma set_SortedAddresses [simp]: "set (SortedAddresses l) = set l"
  by (metis mset_SortedAddresses set_mset_mset)

lemma sorted_SortedAddresses: "sorted (SortedAddresses l)"
proof (induction l rule: SortedAddresses.induct)
  case (2 x xs)
  have "set (snd (exchangeMin x xs)) \<subseteq> insert x (set xs)"
    using exchangeMin_mset [of x xs] by (metis insert_subset set_mset_add_mset_insert set_mset_mset subset_insertI)
  then show ?case using 2 exchangeMin_le [of x xs] by auto
qed simp

lemma mset_insertBy [simp]: "mset (insertBy before a l) = add_mset a (mset l)"
  by (induction l) auto

lemma mset_NewSet [simp]: "mset (validators (NewSet l pol)) = mset l"
proof -
  have "mset (foldr (insertBy before) l []) = mset l" for before by (induction l) simp_all
  then show ?thesis by (simp add: NewSet_def SortValidators_def Let_def)
qed

lemma Size_NewSet [simp]: "Size (NewSet l pol) = length l"
  by (metis Size_def mset_NewSet size_mset)

subsection \<open>Seals\<close>

lemma countSeals_iff: "countSeals cs vs k = (if mset cs \<subseteq># mset (validators vs) then Some (k + int (length cs)) else None)"
proof (induction cs arbitrary: vs k)
  case (Cons a cs)
  show ?case
  proof (cases "a \<in> set (validators vs)")
    case True
    then have "mset (a # cs) \<subseteq># mset (validators vs) \<longleftrightarrow> mset cs \<subseteq># mset (remove1 a (validators vs))"
      by (simp add: insert_subset_eq_iff)
    then show ?thesis using Cons True by (simp add: vs_RemoveValidator_def)
  next
    case False
    then have "\<not> mset (a # cs) \<subseteq># mset (validators vs)" by (metis in_multiset_in_set list.set_intros(1) mset_subset_eqD)
    then show ?thesis using False by (simp add: vs_RemoveValidator_def)
  qed
qed simp

lemma vs_Copy_mset [simp]: "mset (validators (vs_Copy vs)) = mset (validators vs)"
  by (simp add: vs_Copy_def)

lemma committedSeals_ok:
  assumes "h_Number h = Some n" and "(word_of_int n :: u64) \<noteq> 0" and "ExtractIstanbulExtra E h = Inr ex" and "ex_CommittedSeal ex \<noteq> []"
    and "Signers E h = Inr committers" and "mset committers \<subseteq># mset (validators vs)" and "F vs < int (length committers)"
  shows "verifyCommittedSeals E h vs = Some None"
  using assms by (simp add: verifyCommittedSeals_def countSeals_iff)

text \<open>C23: The committed seals of a header are accepted exactly if there are any, each is a signature of the hash by a validator, no validator is counted twice, and there are more
  of them than \<open>F\<close>, the number of validators that may be faulty: not a quorum of two thirds, but one more than a third at most.\<close>

theorem verifyCommittedSeals_iff:
  assumes "h_Number h = Some n" and "(word_of_int n :: u64) \<noteq> 0"
  shows "verifyCommittedSeals E h vs = Some None \<longleftrightarrow>
     (\<exists>ex committers. ExtractIstanbulExtra E h = Inr ex \<and> ex_CommittedSeal ex \<noteq> [] \<and> Signers E h = Inr committers
        \<and> mset committers \<subseteq># mset (validators vs) \<and> F vs < int (length committers))"
  using assms by (auto simp: verifyCommittedSeals_def countSeals_iff split: sum.splits if_splits)

subsection \<open>Extra data\<close>

text \<open>The encoded extra data can be read again.\<close>

definition lawful :: "engine \<Rightarrow> bool" where
  "lawful E \<longleftrightarrow> (\<forall>ex. decodeExtra E (encodeExtra E ex) = Some ex)"

definition withExtra :: "engine \<Rightarrow> Header \<Rightarrow> string \<Rightarrow> IstanbulExtra \<Rightarrow> Header" where
  "withExtra E h v ex = h\<lparr>Extra := v @ encodeExtra E ex\<rparr>"

lemma withExtra_fields [simp]:
  "h_Number (withExtra E h v ex) = h_Number h" "ParentHash (withExtra E h v ex) = ParentHash h" "UncleHash (withExtra E h v ex) = UncleHash h"
  "Time (withExtra E h v ex) = Time h" "MixDigest (withExtra E h v ex) = MixDigest h" "h_Nonce (withExtra E h v ex) = h_Nonce h"
  "Difficulty (withExtra E h v ex) = Difficulty h"
  by (simp_all add: withExtra_def)

lemma Extract_withExtra:
  assumes "lawful E" and "length v = IstanbulExtraVanity"
  shows "ExtractIstanbulExtra E (withExtra E h v ex) = Inr ex"
  using assms by (simp add: ExtractIstanbulExtra_def withExtra_def lawful_def)

lemma filtered_withExtra:
  assumes "lawful E" and "length v = IstanbulExtraVanity"
  shows "IstanbulFilteredHeader E (withExtra E h v ex) keep =
      Some (withExtra E h v (ex\<lparr>ex_Seal := (if keep then ex_Seal ex else []), ex_CommittedSeal := []\<rparr>))"
  using assms by (simp add: IstanbulFilteredHeader_def Extract_withExtra Let_def) (simp add: withExtra_def)

text \<open>The seals are not part of what is signed, and the committed seals not of what is hashed.\<close>

lemma sigHash_withExtra:
  assumes "lawful E" and "length v = IstanbulExtraVanity"
  shows "sigHash E (withExtra E h v (ex\<lparr>ex_Seal := sl, ex_CommittedSeal := seals\<rparr>)) = sigHash E (withExtra E h v (ex\<lparr>ex_Seal := [], ex_CommittedSeal := []\<rparr>))"
  by (simp add: sigHash_def filtered_withExtra [OF assms])

lemma Hash_withExtra:
  assumes "lawful E" and "length v = IstanbulExtraVanity" and "MixDigest h = IstanbulDigest"
  shows "Header_Hash E (withExtra E h v (ex\<lparr>ex_CommittedSeal := seals\<rparr>)) = Header_Hash E (withExtra E h v (ex\<lparr>ex_CommittedSeal := []\<rparr>))"
  using assms(3) by (simp add: Header_Hash_def FilteredHeader_def filtered_withExtra [OF assms(1,2)] Extract_withExtra [OF assms(1,2)])

text \<open>A header with a seal of one of the validators it names and with enough committed seals of them passes.\<close>

lemma recoverAll_map: "\<forall>a \<in> set as. GetSignatureAddress E d (sig a d) = Some a \<Longrightarrow> recoverAll E d (map (\<lambda>a. sig a d) as) = Inr as"
  by (induction as) simp_all

definition fieldsOk :: "engine \<Rightarrow> chain \<Rightarrow> Header \<Rightarrow> bool" where
  "fieldsOk E ch h \<longleftrightarrow> (\<exists>n p pn. h_Number h = Some n \<and> (word_of_int n :: u64) \<noteq> 0 \<and> Time h \<le> adjustedTimeNow ch \<and> h_Nonce h = 0 \<and> MixDigest h = IstanbulDigest
     \<and> UncleHash h = nilUncleHash E \<and> Difficulty h = Some 1 \<and> GetHeader ch (ParentHash h) (word_of_int n - 1) = Some p \<and> h_Number p = Some pn
     \<and> (word_of_int pn :: u64) = word_of_int n - 1 \<and> Header_Hash E p = ParentHash h \<and> Time p + BlockPeriod E \<le> Time h)"

lemma sealed_accepted:
  assumes "lawful E" and "length v = IstanbulExtraVanity" and "fieldsOk E ch h" and "a \<in> set vals" and "committers \<noteq> []"
    and "mset committers \<subseteq># mset vals" and "F (NewSet vals (proposerPolicy E)) < int (length committers)"
    and "ex_Validators ex = vals" and "GetSignatureAddress E (Hash_Bytes (sigHash E (withExtra E h v (ex\<lparr>ex_Seal := [], ex_CommittedSeal := []\<rparr>)))) (ex_Seal ex) = Some a"
    and "\<forall>a \<in> set committers. GetSignatureAddress E d (sig a d) = Some a" and "d = PrepareCommittedSeal (Header_Hash E (withExtra E h v (ex\<lparr>ex_CommittedSeal := []\<rparr>)))"
  shows "sb_verifyHeader E ch (withExtra E h v (ex\<lparr>ex_CommittedSeal := map (\<lambda>a. sig a d) committers\<rparr>)) [] = Some None"
proof -
  let ?h = "withExtra E h v (ex\<lparr>ex_CommittedSeal := map (\<lambda>a. sig a d) committers\<rparr>)" and ?vs = "NewSet vals (proposerPolicy E)"
  obtain n p pn where f: "h_Number h = Some n" "(word_of_int n :: u64) \<noteq> 0" "Time h \<le> adjustedTimeNow ch" "h_Nonce h = 0" "MixDigest h = IstanbulDigest"
      "UncleHash h = nilUncleHash E" "Difficulty h = Some 1" "GetHeader ch (ParentHash h) (word_of_int n - 1) = Some p" "h_Number p = Some pn"
      "(word_of_int pn :: u64) = word_of_int n - 1" "Header_Hash E p = ParentHash h" "Time p + BlockPeriod E \<le> Time h"
    using assms(3) by (auto simp: fieldsOk_def)
  have ext: "ExtractIstanbulExtra E ?h = Inr (ex\<lparr>ex_CommittedSeal := map (\<lambda>a. sig a d) committers\<rparr>)" by (rule Extract_withExtra [OF assms(1,2)])
  have "sigHash E ?h = sigHash E (withExtra E h v (ex\<lparr>ex_Seal := [], ex_CommittedSeal := []\<rparr>))"
    using sigHash_withExtra [OF assms(1,2), where ex = ex and sl = "ex_Seal ex"] by simp
  then have "Author E ?h = Inr a" using ext assms(9) by (simp add: Author_def)
  moreover have "a \<in> set (validators ?vs)" using assms(4) by (simp add: NewSet_validators)
  ultimately have signer: "verifySigner E ?h ?vs = Some None" using f(1,2) by (simp add: verifySigner_def GetByAddress_def)
  have "PrepareCommittedSeal (Header_Hash E ?h) = d" unfolding assms(11) by (subst Hash_withExtra [OF assms(1,2) f(5)]) (rule refl)
  then have "Signers E ?h = Inr committers" using ext recoverAll_map [of committers E d sig] assms(10) by (simp add: Signers_def)
  then have seals: "verifyCommittedSeals E ?h ?vs = Some None"
    using f(1,2) assms(5-7) by (intro committedSeals_ok [OF _ _ ext]) simp_all
  have "n \<noteq> 0" using f(2) by auto
  then show ?thesis using f ext signer seals assms(8)
    by (simp add: sb_verifyHeader_def verifyHeader_def verifyCascadingFields_def not_less)
qed

subsection \<open>Blocks of validators\<close>

lemma prepareExtra_withExtra:
  obtains v where "length v = IstanbulExtraVanity"
    "h\<lparr>Extra := prepareExtra E h vals addrs\<rparr> = withExtra E h v \<lparr>ex_Validators = vals, ex_Seal = [], ex_CommittedSeal = [], BeneficiaryAddr = addrs\<rparr>"
  by (rule that [of "take IstanbulExtraVanity (if length (Extra h) < IstanbulExtraVanity
        then Extra h @ replicate (IstanbulExtraVanity - length (Extra h)) (CHR 0x00) else Extra h)"])
    (simp_all add: prepareExtra_def withExtra_def Let_def)

lemma writeSeal_withExtra:
  assumes "lawful E" and "length v = IstanbulExtraVanity" and "length sl = IstanbulExtraSeal"
  shows "writeSeal E (withExtra E h v ex) sl = Inr (withExtra E h v (ex\<lparr>ex_Seal := sl\<rparr>))"
  using assms by (simp add: writeSeal_def Extract_withExtra) (simp add: withExtra_def)

lemma writeCommittedSeals_withExtra:
  assumes "lawful E" and "length v = IstanbulExtraVanity" and "seals \<noteq> []" and "\<forall>s \<in> set seals. length s = IstanbulExtraSeal"
  shows "writeCommittedSeals E (withExtra E h v ex) seals = Inr (withExtra E h v (ex\<lparr>ex_CommittedSeal := seals\<rparr>))"
  using assms by (simp add: writeCommittedSeals_def Extract_withExtra) (simp add: withExtra_def)

text \<open>What of the chain the rules for a header rely on: a header is found under its own number and hash.\<close>

definition chainOk :: "engine \<Rightarrow> chain \<Rightarrow> bool" where
  "chainOk E ch \<longleftrightarrow> (\<forall>hs n p. GetHeader ch hs n = Some p \<longrightarrow> Header_Hash E p = hs \<and> h_Number p = Some (uint n))"

text \<open>What the miner fills in while it executes the transactions, and when the block is put together.\<close>

definition filledIn :: "Header \<Rightarrow> u64 \<Rightarrow> hash \<Rightarrow> hash \<Rightarrow> string \<Rightarrow> Header" where
  "filledIn h gas txs receipts bloom = h\<lparr>GasUsed := gas, TxHash := txs, ReceiptHash := receipts, Bloom := bloom\<rparr>"

lemma sb_Prepare_cases:
  assumes "sb_Prepare E ch ps h = Some (Inr h1)"
  obtains vals addrs v n p where "elevenSet E ps \<noteq> None" "vals = SortedAddresses (validators (the (elevenSet E ps)))" "h_Number h = Some n"
    "GetHeader ch (ParentHash h) ((word_of_int n :: u64) - 1) = Some p" "length v = IstanbulExtraVanity"
    "h1 = withExtra E (h\<lparr>h_Nonce := 0, MixDigest := IstanbulDigest, Difficulty := Some 1,
       Time := (if Time p + BlockPeriod E < timeNow ch then timeNow ch else Time p + BlockPeriod E)\<rparr>) v
       \<lparr>ex_Validators = vals, ex_Seal = [], ex_CommittedSeal = [], BeneficiaryAddr = addrs\<rparr>"
proof -
  obtain vs n p addrs where x: "elevenSet E ps = Some vs" "h_Number h = Some n" "GetHeader ch (ParentHash h) ((word_of_int n :: u64) - 1) = Some p"
      "h1 = h\<lparr>h_Nonce := 0, MixDigest := IstanbulDigest, Difficulty := Some 1,
        Extra := prepareExtra E (h\<lparr>h_Nonce := 0, MixDigest := IstanbulDigest, Difficulty := Some 1\<rparr>) (SortedAddresses (validators vs)) addrs,
        Time := (if Time p + BlockPeriod E < timeNow ch then timeNow ch else Time p + BlockPeriod E)\<rparr>"
    using assms by (auto simp: sb_Prepare_def eng_Prepare_def bind_Some_iff Let_def split: option.splits)
  let ?h = "h\<lparr>h_Nonce := 0, MixDigest := IstanbulDigest, Difficulty := Some 1\<rparr>"
  obtain v where v: "length v = IstanbulExtraVanity" "?h\<lparr>Extra := prepareExtra E ?h (SortedAddresses (validators vs)) addrs\<rparr> =
      withExtra E ?h v \<lparr>ex_Validators = SortedAddresses (validators vs), ex_Seal = [], ex_CommittedSeal = [], BeneficiaryAddr = addrs\<rparr>"
    by (rule prepareExtra_withExtra)
  have "prepareExtra E ?h (SortedAddresses (validators vs)) addrs =
      v @ encodeExtra E \<lparr>ex_Validators = SortedAddresses (validators vs), ex_Seal = [], ex_CommittedSeal = [], BeneficiaryAddr = addrs\<rparr>"
    using arg_cong [OF v(2), of Extra] by (simp add: withExtra_def)
  then show ?thesis using x v(1) by (intro that [of "SortedAddresses (validators vs)" n p v addrs]) (simp_all add: withExtra_def)
qed

lemma Finalize_withExtra:
  assumes "lawful E" and "length v = IstanbulExtraVanity" and "eng_Finalize E (withExtra E h v ex) s = Some (h2, s')"
  shows "\<exists>root s1. CreateNFTByOfficial16 (BeneficiaryAddr ex) (the (h_Number h)) s = Some s1 \<and> s' = fst (IntermediateRoot E s1)
    \<and> h2 = withExtra E (h\<lparr>Root := root, UncleHash := nilUncleHash E\<rparr>) v ex"
proof -
  obtain root s1 where "CreateNFTByOfficial16 (BeneficiaryAddr ex) (the (h_Number h)) s = Some s1" "s' = fst (IntermediateRoot E s1)"
      "h2 = (withExtra E h v ex)\<lparr>Root := root, UncleHash := nilUncleHash E\<rparr>"
    using assms(3) by (auto simp: eng_Finalize_def Extract_withExtra [OF assms(1,2)] bind_Some_iff case_prod_beta)
  then show ?thesis by (intro exI [of _ root] exI [of _ s1]) (simp add: withExtra_def)
qed

text \<open>C15: A block that a validator prepares, finalises and seals, and that more than \<open>F\<close> validators seal as well, passes the verification of its header: the time, the
  parent, the author and the committed seals are all found again in the header.\<close>

theorem validator_blocks_verify:
  assumes "lawful E" and "chainOk E ch" and "sb_Prepare E ch ps h = Some (Inr h1)" and "eng_Finalize E (filledIn h1 gas txs receipts bloom) s = Some (h2, s')"
    and "sb_Seal E ch h2 = Some (Inr h3)" and "d = PrepareCommittedSeal (Header_Hash E h3)" and "writeCommittedSeals E h3 (map (\<lambda>a. sig a d) committers) = Inr h4"
    and "\<forall>x a. length (sig a x) = IstanbulExtraSeal" and "\<forall>a \<in> insert (signer E) (set committers). \<forall>x. GetSignatureAddress E x (sig a x) = Some a"
    and "\<forall>x. sign E x = Some (sig (signer E) x)" and "elevenSet E ps = Some vs" and "mset committers \<subseteq># mset (validators vs)" and "F vs < int (length committers)"
    and "\<exists>n. h_Number h = Some n \<and> (word_of_int n :: u64) \<noteq> 0" and "Time h1 \<le> adjustedTimeNow ch"
  shows "sb_verifyHeader E ch h4 [] = Some None"
proof -
  obtain vals addrs v n p where x: "vals = SortedAddresses (validators vs)" "h_Number h = Some n"
      "GetHeader ch (ParentHash h) ((word_of_int n :: u64) - 1) = Some p" "length v = IstanbulExtraVanity"
      "h1 = withExtra E (h\<lparr>h_Nonce := 0, MixDigest := IstanbulDigest, Difficulty := Some 1,
         Time := (if Time p + BlockPeriod E < timeNow ch then timeNow ch else Time p + BlockPeriod E)\<rparr>) v
         \<lparr>ex_Validators = vals, ex_Seal = [], ex_CommittedSeal = [], BeneficiaryAddr = addrs\<rparr>"
    using sb_Prepare_cases [OF assms(3)] assms(11) by (metis option.sel)
  let ?ex = "\<lparr>ex_Validators = vals, ex_Seal = [], ex_CommittedSeal = [], BeneficiaryAddr = addrs\<rparr>"
  let ?h1 = "filledIn (h\<lparr>h_Nonce := 0, MixDigest := IstanbulDigest, Difficulty := Some 1,
         Time := (if Time p + BlockPeriod E < timeNow ch then timeNow ch else Time p + BlockPeriod E)\<rparr>) gas txs receipts bloom"
  have "filledIn h1 gas txs receipts bloom = withExtra E ?h1 v ?ex" by (simp add: x(5) filledIn_def withExtra_def)
  then obtain root where h2: "h2 = withExtra E (?h1\<lparr>Root := root, UncleHash := nilUncleHash E\<rparr>) v ?ex"
    using assms(4) Finalize_withExtra [OF assms(1) x(4)] by metis
  define hd0 where "hd0 = ?h1\<lparr>Root := root, UncleHash := nilUncleHash E\<rparr>"
  note h2 = h2 [folded hd0_def]
  define sl where "sl = sig (signer E) (Hash_Bytes (sigHash E h2))"
  have h3: "h3 = withExtra E hd0 v (?ex\<lparr>ex_Seal := sl\<rparr>)" and mem: "signer E \<in> set vals"
    using assms(5,8,10) by (auto simp: sb_Seal_def h2 Extract_withExtra [OF assms(1) x(4)] eng_Seal_def updateBlock_def sl_def NewSet_validators
        writeSeal_withExtra [OF assms(1) x(4)] bind_Some_iff split: if_splits)
  have ne: "committers \<noteq> []" using assms(7) by (auto simp: writeCommittedSeals_def)
  have h4: "h4 = withExtra E hd0 v (?ex\<lparr>ex_Seal := sl, ex_CommittedSeal := map (\<lambda>a. sig a d) committers\<rparr>)"
    using assms(7,8) ne unfolding h3 by (subst (asm) writeCommittedSeals_withExtra [OF assms(1) x(4)]) simp_all
  have t1: "Time h1 = Time hd0" by (simp add: x(5) hd0_def filledIn_def)
  have p: "h_Number p = Some (uint ((word_of_int n :: u64) - 1))" "Header_Hash E p = ParentHash h" using assms(2) x(3) unfolding chainOk_def by blast+
  have ok: "fieldsOk E ch hd0"
    using x(2,3) p assms(14,15) t1 by (auto simp: fieldsOk_def hd0_def filledIn_def not_less intro: less_imp_le)
  have sz: "F (NewSet vals (proposerPolicy E)) = F vs" unfolding F_def Size_NewSet x(1) by (metis Size_def mset_SortedAddresses size_mset)
  have "sb_verifyHeader E ch (withExtra E hd0 v ((?ex\<lparr>ex_Seal := sl\<rparr>)\<lparr>ex_CommittedSeal := map (\<lambda>a. sig a d) committers\<rparr>)) [] = Some None"
  proof (rule sealed_accepted [OF assms(1) x(4) ok mem ne])
    show "GetSignatureAddress E (Hash_Bytes (sigHash E (withExtra E hd0 v (?ex\<lparr>ex_Seal := sl, ex_Seal := [], ex_CommittedSeal := []\<rparr>)))) (ex_Seal (?ex\<lparr>ex_Seal := sl\<rparr>)) = Some (signer E)"
      using assms(9) by (simp add: sl_def h2)
  qed (use assms(6,9,12,13) x(1) sz h3 in simp_all)
  then show ?thesis by (simp add: h4)
qed

subsection \<open>Blocks of anybody\<close>

text \<open>C4: The header of a block is verified against the validators it names itself. Whoever has a key can therefore extend the chain without being a validator: on any known parent, a header
  that names just that key as the validators, signed and sealed with it alone, is accepted; and the beneficiaries it names, any list of addresses, are
  the ones that the official NFTs of the block are created for.\<close>

theorem anybody_extends_the_chain:
  assumes "lawful E" and "fieldsOk E ch h" and "\<forall>x. GetSignatureAddress E x (sig x) = Some a"
  shows "\<exists>x. sb_verifyHeader E ch (h\<lparr>Extra := x\<rparr>) [] = Some None
     \<and> (\<forall>s h2 s'. eng_Finalize E (h\<lparr>Extra := x\<rparr>) s = Some (h2, s') \<longrightarrow>
          (\<exists>s1. CreateNFTByOfficial16 owners (the (h_Number h)) s = Some s1 \<and> s' = fst (IntermediateRoot E s1)))"
proof -
  define v :: string where "v = replicate IstanbulExtraVanity (CHR 0x00)"
  have v: "length v = IstanbulExtraVanity" by (simp add: v_def)
  define ex0 where "ex0 = \<lparr>ex_Validators = [a], ex_Seal = [], ex_CommittedSeal = [], BeneficiaryAddr = owners\<rparr>"
  define ex where "ex = ex0\<lparr>ex_Seal := sig (Hash_Bytes (sigHash E (withExtra E h v ex0)))\<rparr>"
  define d where "d = PrepareCommittedSeal (Header_Hash E (withExtra E h v (ex\<lparr>ex_CommittedSeal := []\<rparr>)))"
  let ?ex = "ex\<lparr>ex_CommittedSeal := map (\<lambda>b. sig d) [a]\<rparr>"
  have "sb_verifyHeader E ch (withExtra E h v ?ex) [] = Some None"
  proof (rule sealed_accepted [OF assms(1) v assms(2), where a = a and vals = "[a]" and d = d and sig = "\<lambda>b. sig" and committers = "[a]"])
    show "F (NewSet [a] (proposerPolicy E)) < int (length [a])" by (simp add: F_def)
    show "GetSignatureAddress E (Hash_Bytes (sigHash E (withExtra E h v (ex\<lparr>ex_Seal := [], ex_CommittedSeal := []\<rparr>)))) (ex_Seal ex) = Some a"
      using assms(3) by (simp add: ex_def ex0_def)
  qed (use assms(3) in \<open>simp_all add: ex_def ex0_def d_def\<close>)
  moreover have "\<exists>s1. CreateNFTByOfficial16 owners (the (h_Number h)) s = Some s1 \<and> s' = fst (IntermediateRoot E s1)"
    if "eng_Finalize E (withExtra E h v ?ex) s = Some (h2, s')" for s h2 s'
    using Finalize_withExtra [OF assms(1) v that] by (auto simp: ex_def ex0_def)
  ultimately show ?thesis unfolding withExtra_def by blast
qed

end
