(* ===== verification/EngineRuns.thy ===== *)
theory EngineRuns
  imports IBFTRuns IBFTEngine
begin

text \<open>
  An engine with a concrete encoding of the extra data, and concrete blocks that go through it.
\<close>

section \<open>An engine\<close>

definition encStr :: "string \<Rightarrow> string" where
  "encStr s = encInt (int (length s)) @ s"

definition decStr :: "string \<Rightarrow> string \<times> string" where
  "decStr s = (let (n, s1) = decInt s in (take (nat n) s1, drop (nat n) s1))"

definition encList :: "('a \<Rightarrow> string) \<Rightarrow> 'a list \<Rightarrow> string" where
  "encList f xs = encInt (int (length xs)) @ concat (map f xs)"

fun decN :: "(string \<Rightarrow> 'a \<times> string) \<Rightarrow> nat \<Rightarrow> string \<Rightarrow> 'a list \<times> string" where
  "decN f 0 s = ([], s)"
| "decN f (Suc n) s = (let (x, s1) = f s; (xs, s2) = decN f n s1 in (x # xs, s2))"

definition decList :: "(string \<Rightarrow> 'a \<times> string) \<Rightarrow> string \<Rightarrow> 'a list \<times> string" where
  "decList f s = (let (n, s1) = decInt s in decN f (nat n) s1)"

definition encAddress :: "address \<Rightarrow> string" where
  "encAddress a = encInt (uint a)"

definition decAddress :: "string \<Rightarrow> address \<times> string" where
  "decAddress s = (let (n, s1) = decInt s in (word_of_int n, s1))"

definition encExtra :: "IstanbulExtra \<Rightarrow> string" where
  "encExtra ex = encList encAddress (ex_Validators ex) @ encStr (ex_Seal ex) @ encList encStr (ex_CommittedSeal ex) @ encList encAddress (BeneficiaryAddr ex)"

definition decExtra :: "string \<Rightarrow> IstanbulExtra option" where
  "decExtra s = (let (vs, s1) = decList decAddress s; (sl, s2) = decStr s1; (seals, s3) = decList decStr s2; (bs, s4) = decList decAddress s3
     in Some \<lparr>ex_Validators = vs, ex_Seal = sl, ex_CommittedSeal = seals, BeneficiaryAddr = bs\<rparr>)"

lemma decN_concat: "\<forall>x s. f (g x @ s) = (x, s) \<Longrightarrow> decN f (length xs) (concat (map g xs) @ s) = (xs, s)"
  by (induction xs) simp_all

lemma codecs:
  "decStr (encStr x @ s) = (x, s)" "decAddress (encAddress a @ s) = (a, s)"
  by (simp_all add: decStr_def encStr_def decAddress_def encAddress_def decInt_encInt)

lemma decList_encList: "\<forall>x s. f (g x @ s) = (x, s) \<Longrightarrow> decList f (encList g xs @ s) = (xs, s)"
  by (simp add: decList_def encList_def decInt_encInt decN_concat)

lemma decExtra_encExtra: "decExtra (encExtra ex) = Some ex"
proof -
  have "decList decAddress (encList encAddress xs) = (xs, [])" for xs
    using decList_encList [of decAddress encAddress xs "[]"] by (simp add: codecs)
  then show ?thesis by (simp add: decExtra_def encExtra_def decList_encList codecs)
qed

definition hisSig :: "address \<Rightarrow> string \<Rightarrow> string" where
  "hisSig a x = char_of (uint a) # replicate 64 (CHR 0x00)"

definition exEngine :: engine where
  "exEngine = \<lparr>decodeExtra = decExtra, encodeExtra = encExtra, rlpHash = \<lambda>_. 77, QBFTFilteredHeader = \<lambda>_. None,
     GetSignatureAddress = \<lambda>x s. Some (of_char (hd s)), sign = \<lambda>x. Some (hisSig 7 x), IntermediateRoot = \<lambda>s. (s, 0), nilUncleHash = 0,
     signer = 7, BlockPeriod = 5, proposerPolicy = exPolicy\<rparr>"

definition exHeader :: "int \<Rightarrow> Header" where
  "exHeader n = \<lparr>ParentHash = 77, UncleHash = 0, Coinbase = 7, Root = 0, TxHash = 0, ReceiptHash = 0, Bloom = [], Difficulty = Some 1, h_Number = Some n,
     GasLimit = 0, GasUsed = 0, Time = 20, Extra = [], MixDigest = IstanbulDigest, h_Nonce = 0, BaseFee = None\<rparr>"

definition exChain :: chain where
  "exChain = \<lparr>GetHeader = \<lambda>h n. if h = 77 \<and> n = 0 then Some (exHeader 0) else None, GetHeaderByNumber = \<lambda>n. if n = 0 then Some (exHeader 0) else None,
     adjustedTimeNow = 1000, timeNow = 100\<rparr>"

definition exPools :: poolsAt where
  "exPools = \<lparr>at_stakers = [], at_miners = [NewActiveMiner 7 5 0], at_hash = 3, at_order = id, at_keccak = \<lambda>_. 0\<rparr>"

lemma exEngine_fields [simp]:
  "nilUncleHash exEngine = 0" "BlockPeriod exEngine = 5" "IntermediateRoot exEngine s = (s, 0)" "signer exEngine = 7" "sign exEngine x = Some (hisSig 7 x)"
  "proposerPolicy exEngine = exPolicy" "length (hisSig a x) = IstanbulExtraSeal"
  by (simp_all add: exEngine_def hisSig_def IstanbulExtraSeal_def)

lemma hisSig_recovers: "GetSignatureAddress exEngine x (hisSig 7 x) = Some 7" "GetSignatureAddress exEngine x (hisSig 9 x) = Some 9"
proof -
  have "of_char (char_of (7 :: int)) = (7 :: address)" "of_char (char_of (9 :: int)) = (9 :: address)" by code_simp+
  then show "GetSignatureAddress exEngine x (hisSig 7 x) = Some 7" "GetSignatureAddress exEngine x (hisSig 9 x) = Some 9" by (simp_all add: exEngine_def hisSig_def)
qed

lemma exEngine_lawful: "lawful exEngine"
  by (simp add: lawful_def exEngine_def decExtra_encExtra)

lemma exHash [simp]: "Header_Hash exEngine h = 77"
  by (simp add: Header_Hash_def exEngine_def split: option.splits)

lemma exChain_ok: "chainOk exEngine exChain"
  by (simp add: chainOk_def exChain_def exHeader_def)

section \<open>Anybody\<close>

theorem anybody_extends_the_chain_witness:
  "\<exists>x. sb_verifyHeader exEngine exChain ((exHeader 1)\<lparr>Time := 30, Extra := x\<rparr>) [] = Some None
     \<and> (\<forall>s h2 s'. eng_Finalize exEngine ((exHeader 1)\<lparr>Time := 30, Extra := x\<rparr>) s = Some (h2, s') \<longrightarrow>
          (\<exists>s1. CreateNFTByOfficial16 [9, 9, 9] 1 s = Some s1 \<and> s' = s1))"
proof -
  have "fieldsOk exEngine exChain ((exHeader 1)\<lparr>Time := 30\<rparr>)"
    by (simp add: fieldsOk_def exHeader_def exChain_def)
  then show ?thesis
    using anybody_extends_the_chain [OF exEngine_lawful, of exChain "(exHeader 1)\<lparr>Time := 30\<rparr>" "hisSig 9" 9 "[9, 9, 9]"]
    by (simp add: hisSig_recovers exHeader_def)
qed

section \<open>A validator\<close>

lemma exEleven: "map_option validators (elevenSet exEngine exPools) = Some [7]" "benifited exPools 7 = Some [7, 7]"
proof -
  have one: "select_by_weight id stake 5 [v] k h = Some (map BigToAddress (take (nat k) [v]))" for stake v k h
    by (cases "nat k") (simp_all add: select_by_weight_def distance_weight_def big_Div_def rankByWordCount_def Let_def)
  have b: "BigToAddress (Address_Big 7) = 7" using BigToAddress_nat [of 7] by (simp add: Address_Big_def)
  have e: "Random11ValidatorFromPool id (\<lambda>_. 0) [NewActiveMiner 7 5 0] 3 = Some [NewValidator 7 5]"
    by (simp add: Random11ValidatorFromPool_def Miner_ValidatorByDistanceAndWeight_def Miner_TotalStakeBalance_def Miner_ConvertToBigInt_def NewActiveMiner_def one b
        AddValidator_def ValidatorList_Sort_def)
  show "map_option validators (elevenSet exEngine exPools) = Some [7]"
    by (simp add: elevenSet_def exPools_def e Validator_ConvertToAddress_def NewValidator_def NewSet_def SortValidators_def)
  show "benifited exPools 7 = Some [7, 7]"
    by (simp add: benifited_def exPools_def e RandomNValidatorFromEleven_def Validator_ValidatorByDistanceAndWeight_def Validator_TotalStakeBalance_def
        Validator_ConvertToBigInt_def NewValidator_def one b Staker_ValidatorByDistanceAndWeight_def select_by_weight_def [of id _ _ "[]"] rankByWordCount_def)
qed

definition exPrepared :: Header where
  "exPrepared = (exHeader 1)\<lparr>Time := 100, Extra := prepareExtra exEngine (exHeader 1) [7] [7, 7]\<rparr>"

definition exMined :: StateDB where
  "exMined = New Map.empty (\<lambda>_ _. 0) (\<lambda>_. []) (\<lambda>_. 0)"

lemma exPrepare: "sb_Prepare exEngine exChain exPools (exHeader 1) = Some (Inr exPrepared)"
proof -
  obtain vs where vs: "elevenSet exEngine exPools = Some vs" "validators vs = [7]" using exEleven(1) by auto
  show ?thesis
    by (simp add: sb_Prepare_def vs eng_Prepare_def exEleven(2) exPrepared_def exHeader_def exChain_def Let_def)
qed

theorem validator_blocks_verify_witness:
  "\<exists>h2 s' h3 h4. eng_Finalize exEngine (filledIn exPrepared 21000 1 2 []) exMined = Some (h2, s') \<and> sb_Seal exEngine exChain h2 = Some (Inr h3)
     \<and> writeCommittedSeals exEngine h3 [hisSig 7 (PrepareCommittedSeal (Header_Hash exEngine h3))] = Inr h4
     \<and> sb_verifyHeader exEngine exChain h4 [] = Some None"
proof -
  let ?ex = "\<lparr>ex_Validators = [7], ex_Seal = [], ex_CommittedSeal = [], BeneficiaryAddr = [7, 7]\<rparr>"
  let ?h = "(exHeader 1)\<lparr>Time := 100, GasUsed := 21000, TxHash := 1, ReceiptHash := 2, Bloom := []\<rparr>"
  obtain v where v: "length v = IstanbulExtraVanity" "(exHeader 1)\<lparr>Extra := prepareExtra exEngine (exHeader 1) [7] [7, 7]\<rparr> = withExtra exEngine (exHeader 1) v ?ex"
    by (rule prepareExtra_withExtra)
  note law = exEngine_lawful v(1)
  have "prepareExtra exEngine (exHeader 1) [7] [7, 7] = v @ encodeExtra exEngine ?ex" using arg_cong [OF v(2), of Extra] by (simp add: withExtra_def)
  then have f: "filledIn exPrepared 21000 1 2 [] = withExtra exEngine ?h v ?ex" by (simp add: filledIn_def exPrepared_def withExtra_def)
  let ?h2 = "(withExtra exEngine ?h v ?ex)\<lparr>Root := 0, UncleHash := 0\<rparr>"
  have h2: "?h2 = withExtra exEngine (?h\<lparr>Root := 0, UncleHash := 0\<rparr>) v ?ex" by (simp add: withExtra_def)
  have "GetInjectedInfo [] a = None" for a by (simp add: GetInjectedInfo_def)
  then have "CreateNFTByOfficial16 [7, 7] 1 exMined = Some exMined"
    by (simp add: CreateNFTByOfficial16_def createOfficial_def mintOfficial_def PopAddress_def exMined_def New_def Let_def)
  then have fin: "eng_Finalize exEngine (filledIn exPrepared 21000 1 2 []) exMined = Some (?h2, exMined)"
    by (simp add: f eng_Finalize_def Extract_withExtra [OF law] exHeader_def)
  let ?sl = "hisSig 7 (Hash_Bytes (sigHash exEngine ?h2))"
  let ?h3 = "withExtra exEngine (?h\<lparr>Root := 0, UncleHash := 0\<rparr>) v (?ex\<lparr>ex_Seal := ?sl\<rparr>)"
  have seal: "sb_Seal exEngine exChain ?h2 = Some (Inr ?h3)"
    unfolding h2 by (simp add: sb_Seal_def Extract_withExtra [OF law] eng_Seal_def exHeader_def exChain_def updateBlock_def writeSeal_withExtra [OF law]
        GetByAddress_def NewSet_def SortValidators_def)
  let ?seals = "[hisSig 7 (PrepareCommittedSeal (Header_Hash exEngine ?h3))]"
  have com: "writeCommittedSeals exEngine ?h3 ?seals = Inr (withExtra exEngine (?h\<lparr>Root := 0, UncleHash := 0\<rparr>) v (?ex\<lparr>ex_Seal := ?sl, ex_CommittedSeal := ?seals\<rparr>))"
    by (rule writeCommittedSeals_withExtra [OF law]) simp_all
  obtain vs where vs: "elevenSet exEngine exPools = Some vs" "validators vs = [7]" using exEleven(1) by auto
  have "F vs = 0" using vs(2) by (simp add: F_def Size_def)
  then have "sb_verifyHeader exEngine exChain (withExtra exEngine (?h\<lparr>Root := 0, UncleHash := 0\<rparr>) v (?ex\<lparr>ex_Seal := ?sl, ex_CommittedSeal := ?seals\<rparr>)) [] = Some None"
    using com vs by (intro validator_blocks_verify [OF exEngine_lawful exChain_ok exPrepare fin seal refl, where committers = "[7]" and sig = hisSig and vs = vs])
      (simp_all add: hisSig_recovers exHeader_def exPrepared_def exChain_def)
  then show ?thesis using fin seal com by blast
qed

section \<open>Two seals of four\<close>

definition exSealed :: Header where
  "exSealed = withExtra exEngine (exHeader 1) (replicate 32 (CHR 0x00))
     \<lparr>ex_Validators = [7, 8, 9, 10], ex_Seal = [], ex_CommittedSeal = [hisSig 7 [], hisSig 9 []], BeneficiaryAddr = []\<rparr>"

theorem verifyCommittedSeals_iff_witness:
  "verifyCommittedSeals exEngine exSealed (NewSet [7, 8, 9, 10] exPolicy) = Some None \<and> verifyCommittedSeals exEngine exSealed (NewSet [7, 8, 10] exPolicy) \<noteq> Some None"
proof -
  have law: "length (replicate 32 (CHR 0x00)) = IstanbulExtraVanity" by (simp add: IstanbulExtraVanity_def)
  note e = Extract_withExtra [OF exEngine_lawful law]
  have s: "Signers exEngine exSealed = Inr [7, 9]"
    using hisSig_recovers by (simp add: Signers_def exSealed_def e) (simp add: hisSig_def)
  have n: "h_Number exSealed = Some 1" by (simp add: exSealed_def exHeader_def)
  have "mset (validators (NewSet [7, 8, 9, 10] exPolicy)) = {#7, 8, 9, 10#}" "mset (validators (NewSet [7, 8, 10] exPolicy)) = {#7, 8, 10#}" by simp_all
  then show ?thesis
    using verifyCommittedSeals_iff [OF n, of exEngine "NewSet [7, 8, 9, 10] exPolicy"] verifyCommittedSeals_iff [OF n, of exEngine "NewSet [7, 8, 10] exPolicy"]
    by (simp add: s) (simp add: exSealed_def e F_def insert_subset_eq_iff)
qed

end
