(* ===== verification/Rlp.thy ===== *)
theory Rlp
  imports GoCommon
begin

text \<open>
  rlp/encode.go and rlp/raw.go: the encoding buffer, in which the headers of lists are kept apart until the sizes of the lists are known, and the functions
  that split encoded data. The reflection that picks a writer for a Go type is not modelled; values are the byte strings, numbers and lists it comes down to.
\<close>

section \<open>Definitions\<close>

unbundle bit_operations_syntax

subsection \<open>encode.go\<close>

datatype rlpValue = RlpBytes "byte list" | RlpUint u64 | RlpList "rlpValue list"

text \<open>The last bytes of a number, the most significant one first.\<close>

definition be :: "nat \<Rightarrow> u64 \<Rightarrow> byte list" where
  "be n i = map (\<lambda>k. ucast (drop_bit (8 * k) i)) (rev [0..<n])"

definition putint :: "u64 \<Rightarrow> byte list" where
  "putint i =
     (if i < 0x100 then be 1 i else if i < 0x10000 then be 2 i else if i < 0x1000000 then be 3 i else if i < 0x100000000 then be 4 i
      else if i < 0x10000000000 then be 5 i else if i < 0x1000000000000 then be 6 i else if i < 0x100000000000000 then be 7 i else be 8 i)"

function intsize :: "u64 \<Rightarrow> nat" where
  "intsize i = (if drop_bit 8 i = 0 then 1 else 1 + intsize (drop_bit 8 i))"
  by auto

lemma unat_drop_byte: "unat (drop_bit 8 i :: u64) = unat i div 256"
  by (simp add: drop_bit_eq_div unat_div)

lemma intsize_termination: "drop_bit 8 i \<noteq> (0 :: u64) \<Longrightarrow> unat (drop_bit 8 i) < unat i"
proof -
  assume "drop_bit 8 i \<noteq> (0 :: u64)"
  then have "i \<noteq> 0" by auto
  then have "0 < unat i" by (simp add: unat_gt_0)
  then show ?thesis by (simp add: unat_drop_byte)
qed

termination intsize
  by (relation "measure unat") (simp_all add: intsize_termination)

declare intsize.simps [simp del]

definition headsize :: "u64 \<Rightarrow> nat" where
  "headsize sz = (if sz < 56 then 1 else 1 + intsize sz)"

definition puthead :: "byte \<Rightarrow> byte \<Rightarrow> u64 \<Rightarrow> byte list" where
  "puthead smalltag largetag sz =
     (if sz < 56 then [smalltag + ucast sz] else (largetag + of_nat (length (putint sz))) # putint sz)"

record listhead =
  offset :: nat
  lh_size :: nat

record encbuf =
  str :: "byte list"
  lheads :: "listhead list"
  lhsize :: nat

definition emptybuf :: encbuf where
  "emptybuf = \<lparr>str = [], lheads = [], lhsize = 0\<rparr>"

definition encodeStringHeader :: "nat \<Rightarrow> encbuf \<Rightarrow> encbuf" where
  "encodeStringHeader sz w =
     (if sz < 56 then w\<lparr>str := str w @ [0x80 + of_nat sz]\<rparr>
      else let bs = putint (of_nat sz) in w\<lparr>str := str w @ (0xB7 + of_nat (length bs)) # bs\<rparr>)"

definition encodeString :: "byte list \<Rightarrow> encbuf \<Rightarrow> encbuf" where
  "encodeString b w =
     (if length b = 1 \<and> hd b \<le> 0x7F then w\<lparr>str := str w @ [hd b]\<rparr>
      else let w1 = encodeStringHeader (length b) w in w1\<lparr>str := str w1 @ b\<rparr>)"

definition encodeUint :: "u64 \<Rightarrow> encbuf \<Rightarrow> encbuf" where
  "encodeUint i w =
     (if i = 0 then w\<lparr>str := str w @ [0x80]\<rparr>
      else if i < 128 then w\<lparr>str := str w @ [ucast i]\<rparr>
      else let s = putint i in w\<lparr>str := str w @ (0x80 + of_nat (length s)) # s\<rparr>)"

definition buf_size :: "encbuf \<Rightarrow> nat" where
  "buf_size w = length (str w) + lhsize w"

text \<open>While a list is open, its header holds the sum of header sizes at its beginning.\<close>

definition buf_list :: "encbuf \<Rightarrow> nat \<times> encbuf" where
  "buf_list w = (length (lheads w), w\<lparr>lheads := lheads w @ [\<lparr>offset = length (str w), lh_size = lhsize w\<rparr>]\<rparr>)"

definition listEnd :: "nat \<Rightarrow> encbuf \<Rightarrow> encbuf" where
  "listEnd index w =
     (let lh = lheads w ! index; sz = buf_size w - offset lh - lh_size lh in
      w\<lparr>lheads := (lheads w)[index := lh\<lparr>lh_size := sz\<rparr>],
        lhsize := (if sz < 56 then lhsize w + 1 else lhsize w + (1 + intsize (of_nat sz)))\<rparr>)"

text \<open>The headers and the strings between them are copied to an array of the whole size; a header that does not fit panics, and so does a position outside the string.\<close>

fun copyPieces :: "nat \<Rightarrow> byte list \<Rightarrow> byte list \<Rightarrow> nat \<Rightarrow> listhead list \<Rightarrow> byte list panics" where
  "copyPieces n s out strpos [] = Some (let all = take n (out @ drop strpos s) in all @ replicate (n - length all) 0)"
| "copyPieces n s out strpos (h # hs) =
     (let piece = take (n - length out) (take (offset h - strpos) (drop strpos s)); enc = puthead 0xC0 0xF7 (of_nat (lh_size h)) in
      if strpos \<le> offset h \<and> offset h \<le> length s \<and> length out + length piece + length enc \<le> n then copyPieces n s (out @ piece @ enc) (strpos + length piece) hs else None)"

definition toBytes :: "encbuf \<Rightarrow> byte list panics" where
  "toBytes w = copyPieces (buf_size w) (str w) [] 0 (lheads w)"

text \<open>The writers of byte strings, numbers, and slices or structs.\<close>

fun writeValue :: "rlpValue \<Rightarrow> encbuf \<Rightarrow> encbuf" and writeValues :: "rlpValue list \<Rightarrow> encbuf \<Rightarrow> encbuf" where
  "writeValue (RlpBytes b) w = encodeString b w"
| "writeValue (RlpUint i) w = encodeUint i w"
| "writeValue (RlpList vs) w = (let (lh, w1) = buf_list w in listEnd lh (writeValues vs w1))"
| "writeValues [] w = w"
| "writeValues (v # vs) w = writeValues vs (writeValue v w)"

definition EncodeToBytes :: "rlpValue \<Rightarrow> byte list panics" where
  "EncodeToBytes v = toBytes (writeValue v emptybuf)"

subsection \<open>raw.go\<close>

definition ListSize :: "u64 \<Rightarrow> u64" where
  "ListSize contentSize = of_nat (headsize contentSize) + contentSize"

definition IntSize :: "u64 \<Rightarrow> nat" where
  "IntSize x = (if x < 0x80 then 1 else 1 + intsize x)"

datatype Kind = Byte | String | List

datatype rlpError = ErrUnexpectedEOF | ErrCanonSize | ErrValueTooLarge | ErrExpectedString | ErrExpectedList | ErrCanonInt | errUintOverflow

definition readSize :: "byte list \<Rightarrow> byte \<Rightarrow> rlpError + u64" where
  "readSize b slen =
     (if unat slen > length b then Inl ErrUnexpectedEOF
      else let s = (if 1 \<le> slen \<and> slen \<le> 8 then foldl (\<lambda>s x. push_bit 8 s OR ucast x) 0 (take (unat slen) b) else 0) in
        if s < 56 \<or> hd b = 0 then Inl ErrCanonSize else Inr s)"

text \<open>The kind, the size of the tag and the size of the content, before the latter is compared with what is there.\<close>

definition readTag :: "byte \<Rightarrow> byte list \<Rightarrow> rlpError + (Kind \<times> u64 \<times> u64)" where
  "readTag b rest =
     (if b < 0x80 then Inr (Byte, 0, 1)
      else if b < 0xB8 then
        (if b - 0x80 = 1 \<and> rest \<noteq> [] \<and> hd rest < 128 then Inl ErrCanonSize else Inr (String, 1, ucast (b - 0x80)))
      else if b < 0xC0 then
        (case readSize rest (b - 0xB7) of Inl e \<Rightarrow> Inl e | Inr cs \<Rightarrow> Inr (String, ucast (b - 0xB7) + 1, cs))
      else if b < 0xF8 then Inr (List, 1, ucast (b - 0xC0))
      else (case readSize rest (b - 0xF7) of Inl e \<Rightarrow> Inl e | Inr cs \<Rightarrow> Inr (List, ucast (b - 0xF7) + 1, cs)))"

definition readKind :: "byte list \<Rightarrow> rlpError + (Kind \<times> u64 \<times> u64)" where
  "readKind buf =
     (case buf of [] \<Rightarrow> Inl ErrUnexpectedEOF
      | b # rest \<Rightarrow> case readTag b rest of Inl e \<Rightarrow> Inl e
          | Inr (k, tagsize, contentsize) \<Rightarrow>
              if contentsize > of_nat (length buf) - tagsize then Inl ErrValueTooLarge else Inr (k, tagsize, contentsize))"

definition Split :: "byte list \<Rightarrow> rlpError + (Kind \<times> byte list \<times> byte list)" where
  "Split b = (case readKind b of Inl e \<Rightarrow> Inl e
     | Inr (k, ts, cs) \<Rightarrow> Inr (k, take (unat cs) (drop (unat ts) b), drop (unat (ts + cs)) b))"

definition SplitString :: "byte list \<Rightarrow> rlpError + (byte list \<times> byte list)" where
  "SplitString b = (case Split b of Inl e \<Rightarrow> Inl e | Inr (k, content, rest) \<Rightarrow> if k = List then Inl ErrExpectedString else Inr (content, rest))"

definition SplitUint64 :: "byte list \<Rightarrow> rlpError + (u64 \<times> byte list)" where
  "SplitUint64 b =
     (case SplitString b of Inl e \<Rightarrow> Inl e
      | Inr (content, rest) \<Rightarrow>
          if length content = 0 then Inr (0, rest)
          else if length content = 1 then (if hd content = 0 then Inl ErrCanonInt else Inr (ucast (hd content), rest))
          else if length content > 8 then Inl errUintOverflow
          else case readSize content (of_nat (length content)) of Inl e \<Rightarrow> Inl ErrCanonInt | Inr x \<Rightarrow> Inr (x, rest))"

definition SplitList :: "byte list \<Rightarrow> rlpError + (byte list \<times> byte list)" where
  "SplitList b = (case Split b of Inl e \<Rightarrow> Inl e | Inr (k, content, rest) \<Rightarrow> if k \<noteq> List then Inl ErrExpectedList else Inr (content, rest))"

definition AppendUint64 :: "byte list \<Rightarrow> u64 \<Rightarrow> byte list" where
  "AppendUint64 b i =
     (if i = 0 then b @ [0x80] else if i < 128 then b @ [ucast i]
      else if i < 0x100 then b @ 0x81 # be 1 i else if i < 0x10000 then b @ 0x82 # be 2 i else if i < 0x1000000 then b @ 0x83 # be 3 i
      else if i < 0x100000000 then b @ 0x84 # be 4 i else if i < 0x10000000000 then b @ 0x85 # be 5 i
      else if i < 0x1000000000000 then b @ 0x86 # be 6 i else if i < 0x100000000000000 then b @ 0x87 # be 7 i else b @ 0x88 # be 8 i)"

section \<open>Bytes of numbers\<close>

abbreviation horner :: "u64 \<Rightarrow> byte list \<Rightarrow> u64" where
  "horner \<equiv> foldl (\<lambda>s x. push_bit 8 s OR ucast x)"

lemma length_be [simp]: "length (be n i) = n"
  by (simp add: be_def)

lemma be_0 [simp]: "be 0 i = []"
  by (simp add: be_def)

lemma be_Suc: "be (Suc n) i = ucast (drop_bit (8 * n) i) # be n i"
  by (simp add: be_def)

lemma horner_be: "horner s (be n i) = push_bit (8 * n) s OR take_bit (8 * n) i"
proof (induction n arbitrary: s)
  case 0
  then show ?case by (simp add: be_def)
next
  case (Suc n)
  have "push_bit (8 * n) (push_bit 8 s OR ucast (ucast (drop_bit (8 * n) i) :: byte)) OR take_bit (8 * n) i = push_bit (8 * Suc n) s OR take_bit (8 * Suc n) i"
    by (rule bit_word_eqI) (auto simp: bit_or_iff bit_push_bit_iff bit_take_bit_iff bit_ucast_iff bit_drop_bit_eq nat_less_le not_le le_diff_conv2 add.commute)
  then show ?case using Suc by (simp add: be_Suc)
qed

lemma be_horner:
  assumes "length bs \<le> 8"
  shows "be (length bs) (horner s bs) = bs"
  using assms
proof (induction bs arbitrary: s rule: rev_induct)
  case (snoc b bs)
  have "be (Suc n) (push_bit 8 x OR ucast (b :: byte)) = be n x @ [b]" if "n < 8" for n x
    using that
  proof (induction n)
    case 0
    show ?case by (simp add: be_Suc) (rule bit_word_eqI, auto simp: bit_or_iff bit_push_bit_iff bit_ucast_iff)
  next
    case (Suc n)
    have "ucast (drop_bit (8 * Suc n) (push_bit 8 x OR ucast b :: u64)) = (ucast (drop_bit (8 * n) x) :: byte)"
      using Suc.prems by (intro bit_word_eqI) (auto simp: bit_or_iff bit_push_bit_iff bit_ucast_iff bit_drop_bit_eq dest: bit_imp_le_length)
    then show ?case using Suc by (simp add: be_Suc)
  qed
  then show ?case using snoc by simp
qed simp

text \<open>The number of bytes is the least that holds the number.\<close>

lemma intsize_eq: "unat i < 256 ^ Suc n \<Longrightarrow> n = 0 \<or> 256 ^ n \<le> unat i \<Longrightarrow> intsize i = Suc n"
proof (induction n arbitrary: i)
  case 0
  then have "unat (drop_bit 8 i) = 0" by (simp add: unat_drop_byte)
  then show ?case by (subst intsize.simps) (simp add: unat_eq_zero)
next
  case (Suc n)
  have d: "unat (drop_bit 8 i) < 256 ^ Suc n" "256 ^ n \<le> unat (drop_bit 8 i)"
    using Suc.prems by (simp_all add: unat_drop_byte less_mult_imp_div_less less_eq_div_iff_mult_less_eq mult.commute)
  then have "drop_bit 8 i \<noteq> 0" by (metis not_one_le_zero one_le_power one_le_numeral order_trans unat_0)
  then show ?case using Suc.IH [OF d(1)] d(2) by (subst intsize.simps) simp
qed

lemma intsize_range:
  obtains n where "n < 8" "intsize i = Suc n" "unat i < 256 ^ Suc n" "n = 0 \<or> 256 ^ n \<le> unat i"
proof -
  define n where "n = (LEAST n. unat i < 256 ^ Suc n)"
  have "unat i < 2 ^ 64" using unsigned_less [of i] by simp
  then have m: "unat i < 256 ^ Suc 7" by simp
  have lt: "unat i < 256 ^ Suc n" unfolding n_def by (rule LeastI [of "\<lambda>n. unat i < 256 ^ Suc n", OF m])
  have "n \<le> 7" unfolding n_def by (rule Least_le [of "\<lambda>n. unat i < 256 ^ Suc n", OF m])
  moreover have "n = 0 \<or> 256 ^ n \<le> unat i"
  proof (cases n)
    case (Suc k)
    then have "\<not> unat i < 256 ^ Suc k" unfolding n_def using not_less_Least [of k "\<lambda>n. unat i < 256 ^ Suc n"] by simp
    then show ?thesis using Suc by simp
  qed simp
  ultimately show ?thesis using that [of n] lt intsize_eq [OF lt] by simp
qed

lemma be_two: "be (Suc (Suc 0)) i = be 2 i"
  by (simp add: numeral_2_eq_2)

lemma putint_be: "putint i = be (intsize i) i"
proof -
  obtain n where n: "n < 8" "intsize i = Suc n" "unat i < 256 ^ Suc n" "n = 0 \<or> 256 ^ n \<le> unat i" by (rule intsize_range)
  have "n = 0 \<or> n = 1 \<or> n = 2 \<or> n = 3 \<or> n = 4 \<or> n = 5 \<or> n = 6 \<or> n = 7" using n(1) by auto
  then show ?thesis using n(2-4) by (elim disjE) (simp_all add: putint_def word_less_nat_alt be_two)
qed

lemma length_putint [simp]: "length (putint i) = intsize i"
  by (simp add: putint_be)

lemma intsize_le: "1 \<le> intsize i" "intsize i \<le> 8"
  by (rule intsize_range [of i], simp)+

lemma unat_take_bit: "unat (take_bit n (i :: u64)) = unat i mod 2 ^ n"
  by (subst unsigned_take_bit_eq) (rule take_bit_eq_mod)

lemma horner_putint: "horner 0 (putint i) = i"
proof -
  obtain n where n: "intsize i = Suc n" "unat i < 256 ^ Suc n" by (rule intsize_range)
  have "(2 :: nat) ^ (8 * Suc n) = 256 ^ Suc n" by (simp add: power_add power_mult)
  then have "unat (take_bit (8 * Suc n) i) = unat i" using n(2) by (simp only: unat_take_bit mod_less)
  then have "take_bit (8 * Suc n) i = i" by (simp only: word_unat_eq_iff)
  then show ?thesis using n(1) by (simp add: putint_be horner_be)
qed

lemma hd_putint: "i \<noteq> 0 \<Longrightarrow> hd (putint i) \<noteq> 0"
proof -
  assume "i \<noteq> 0"
  obtain n where n: "n < 8" "intsize i = Suc n" "unat i < 256 ^ Suc n" "n = 0 \<or> 256 ^ n \<le> unat i" by (rule intsize_range)
  have "0 < unat i" using \<open>i \<noteq> 0\<close> by (simp add: unat_gt_0)
  then have "0 < unat i div 256 ^ n" using n(4) by (auto simp: div_greater_zero_iff)
  moreover have "unat i div 256 ^ n < 256" using n(3) by (simp add: less_mult_imp_div_less mult.commute)
  moreover have "unat (ucast (drop_bit (8 * n) i) :: byte) = unat i div 256 ^ n mod 256"
    by (simp add: unsigned_ucast_eq unat_drop_bit_eq take_bit_nat_def drop_bit_nat_def power_mult)
  ultimately have "unat (ucast (drop_bit (8 * n) i) :: byte) \<noteq> 0" by simp
  then show ?thesis by (auto simp: putint_be n(2) be_Suc)
qed

section \<open>The encoding\<close>

text \<open>What the encoding is, value by value.\<close>

definition rlp_string :: "byte list \<Rightarrow> byte list" where
  "rlp_string b = (if length b = 1 \<and> hd b \<le> 0x7F then b else puthead 0x80 0xB7 (of_nat (length b)) @ b)"

definition rlp_list :: "byte list \<Rightarrow> byte list" where
  "rlp_list c = puthead 0xC0 0xF7 (of_nat (length c)) @ c"

fun rlp :: "rlpValue \<Rightarrow> byte list" and rlps :: "rlpValue list \<Rightarrow> byte list" where
  "rlp (RlpBytes b) = rlp_string b"
| "rlp (RlpUint i) = rlp_string (if i = 0 then [] else putint i)"
| "rlp (RlpList vs) = rlp_list (rlps vs)"
| "rlps [] = []"
| "rlps (v # vs) = rlp v @ rlps vs"

text \<open>The buffer after a value was written: the strings, the headers relative to the start of the value, and their total size.\<close>

fun strOf :: "rlpValue \<Rightarrow> byte list" and strsOf :: "rlpValue list \<Rightarrow> byte list" where
  "strOf (RlpBytes b) = rlp (RlpBytes b)"
| "strOf (RlpUint i) = rlp (RlpUint i)"
| "strOf (RlpList vs) = strsOf vs"
| "strsOf [] = []"
| "strsOf (v # vs) = strOf v @ strsOf vs"

definition moveHead :: "nat \<Rightarrow> listhead \<Rightarrow> listhead" where
  "moveHead n h = h\<lparr>offset := n + offset h\<rparr>"

fun headsOf :: "rlpValue \<Rightarrow> listhead list" and headssOf :: "rlpValue list \<Rightarrow> listhead list" where
  "headsOf (RlpBytes b) = []"
| "headsOf (RlpUint i) = []"
| "headsOf (RlpList vs) = \<lparr>offset = 0, lh_size = length (rlps vs)\<rparr> # headssOf vs"
| "headssOf [] = []"
| "headssOf (v # vs) = headsOf v @ map (moveHead (length (strOf v))) (headssOf vs)"

definition writes :: "byte list \<Rightarrow> listhead list \<Rightarrow> nat \<Rightarrow> encbuf \<Rightarrow> encbuf" where
  "writes s hs n w = w\<lparr>str := str w @ s, lheads := lheads w @ map (moveHead (length (str w))) hs, lhsize := lhsize w + n\<rparr>"

lemma moveHead_moveHead [simp]: "moveHead m (moveHead n h) = moveHead (m + n) h"
  by (simp add: moveHead_def add.assoc)

lemma moveHead_0 [simp]: "moveHead 0 = (\<lambda>h. h)"
  by (simp add: moveHead_def fun_eq_iff)

lemma writes_writes: "writes s' hs' n' (writes s hs n w) = writes (s @ s') (hs @ map (moveHead (length s)) hs') (n + n') w"
  by (simp add: writes_def comp_def add.assoc)

lemma length_puthead: "length (puthead a b n) = headsize n"
  by (simp add: puthead_def headsize_def)

lemma u64_of_nat: "n < 2 ^ 64 \<Longrightarrow> unat (of_nat n :: u64) = n" "n < 2 ^ 64 \<Longrightarrow> ucast (of_nat n :: u64) = (of_nat n :: byte)"
  by (simp_all add: unat_of_nat unsigned_of_nat take_bit_nat_eq_self)

lemma encodeString_writes: "length b < 2 ^ 64 \<Longrightarrow> encodeString b w = writes (rlp_string b) [] 0 w"
proof -
  assume n: "length b < 2 ^ 64"
  have lt: "(of_nat (length b) :: u64) < 56 \<longleftrightarrow> length b < 56" using u64_of_nat(1) [OF n] by (simp add: word_less_nat_alt)
  have "length b = 1 \<Longrightarrow> [hd b] = b" by (cases b) auto
  then show ?thesis
    by (auto simp: encodeString_def encodeStringHeader_def rlp_string_def writes_def puthead_def lt Let_def u64_of_nat(2) [OF n])
qed

lemma small_byte: "i < 128 \<Longrightarrow> putint i = [ucast i] \<and> (ucast i :: byte) \<le> 0x7F" for i :: u64
  by (auto simp: putint_def be_def word_less_nat_alt word_le_nat_alt unsigned_ucast_eq take_bit_nat_eq_self)

lemma encodeUint_writes: "encodeUint i w = writes (rlp (RlpUint i)) [] 0 w"
proof -
  have "puthead 0x80 0xB7 (of_nat (intsize i)) = [0x80 + of_nat (intsize i)]" for i
    using intsize_le [of i] by (simp add: puthead_def word_less_nat_alt u64_of_nat)
  moreover have "\<not> hd (putint i) \<le> 0x7F" if i: "128 \<le> i" "intsize i = 1"
  proof -
    have "unat i < 256" by (rule intsize_range [of i]) (use i(2) in simp)
    then have "unat (ucast i :: byte) = unat i" by (simp add: unsigned_ucast_eq take_bit_nat_eq_self)
    then show ?thesis using i by (simp add: putint_be be_Suc word_le_nat_alt)
  qed
  moreover have "i < 128 \<Longrightarrow> intsize i = 1" using small_byte [of i] length_putint [of i] by simp
  moreover have "puthead 0x80 0xB7 0 = [0x80]" by (simp add: puthead_def)
  ultimately show ?thesis using small_byte [of i]
    by (auto simp: encodeUint_def rlp_string_def writes_def Let_def not_less)
qed

lemma length_strOf_le: "length (strOf v) \<le> length (rlp v)" "length (strsOf vs) \<le> length (rlps vs)"
  by (induction v and vs rule: strOf_strsOf.induct) (auto simp: rlp_list_def)

text \<open>While the list is written its header stands open; closing it puts in the size of the content.\<close>

lemma writeValue_writes:
  "length (rlp v) < 2 ^ 64 \<Longrightarrow> writeValue v w = writes (strOf v) (headsOf v) (length (rlp v) - length (strOf v)) w"
  "length (rlps vs) < 2 ^ 64 \<Longrightarrow> writeValues vs w = writes (strsOf vs) (headssOf vs) (length (rlps vs) - length (strsOf vs)) w"
proof (induction v and vs arbitrary: w and w rule: strOf_strsOf.induct)
  case (1 b)
  then have "length b < 2 ^ 64" by (simp add: rlp_string_def split: if_splits)
  then show ?case by (simp add: encodeString_writes)
next
  case (2 i)
  show ?case by (simp add: encodeUint_writes del: rlp.simps)
next
  case (3 vs)
  define n where "n = length (rlps vs)"
  have n: "n < 2 ^ 64" using "3.prems" by (simp add: rlp_list_def n_def)
  define w1 where "w1 = snd (buf_list w)"
  have w1: "buf_list w = (length (lheads w), w1)" by (simp add: w1_def buf_list_def)
  have r: "writeValues vs w1 = writes (strsOf vs) (headssOf vs) (n - length (strsOf vs)) w1" using "3.IH" n by (simp add: n_def)
  have le: "length (strsOf vs) \<le> n" using length_strOf_le(2) by (simp add: n_def)
  have hs: "headsize (of_nat n) = (if n < 56 then 1 else 1 + intsize (of_nat n))"
    using n by (simp add: headsize_def word_less_nat_alt u64_of_nat)
  have "listEnd (length (lheads w)) (writeValues vs w1) = writes (strsOf vs) (headsOf (RlpList vs)) (headsize (of_nat n) + n - length (strsOf vs)) w"
    using le hs unfolding r by (simp add: listEnd_def writes_def w1_def buf_list_def buf_size_def moveHead_def nth_append n_def list_update_append Let_def Suc_diff_le ac_simps)
  then show ?case using w1 by (simp add: rlp_list_def length_puthead n_def)
next
  case 4
  show ?case by (simp add: writes_def)
next
  case (5 v vs)
  have le: "length (strOf v) \<le> length (rlp v)" "length (strsOf vs) \<le> length (rlps vs)" by (rule length_strOf_le)+
  show ?case using "5.IH" "5.prems" le by (simp add: writes_writes)
qed

text \<open>The pieces in their order, and that they make up the encoding.\<close>

fun pieces :: "byte list \<Rightarrow> nat \<Rightarrow> listhead list \<Rightarrow> byte list" where
  "pieces s p [] = drop p s"
| "pieces s p (h # hs) = take (offset h - p) (drop p s) @ puthead 0xC0 0xF7 (of_nat (lh_size h)) @ pieces s (offset h) hs"

lemma pieces_skip:
  assumes "p \<le> q" and "q \<le> length s" and "\<forall>h \<in> set hs. q \<le> offset h"
  shows "pieces s p hs = take (q - p) (drop p s) @ pieces s q hs"
proof (cases hs)
  case Nil
  then show ?thesis using assms(1) by simp (metis append_take_drop_id drop_drop le_add_diff_inverse2)
next
  case (Cons h hs')
  then have "offset h - p = (q - p) + (offset h - q)" using assms(1,3) by simp
  then have "take (offset h - p) (drop p s) = take (q - p) (drop p s) @ take (offset h - q) (drop q s)"
    using assms(1) by (simp only: take_add drop_drop le_add_diff_inverse2)
  then show ?thesis using Cons by simp
qed

lemma offsets: "\<forall>h \<in> set (headsOf v). offset h \<le> length (strOf v)" "\<forall>h \<in> set (headssOf vs). offset h \<le> length (strsOf vs)"
  by (induction v and vs rule: strOf_strsOf.induct) (auto simp: moveHead_def)

lemma pieces_value:
  "\<forall>h \<in> set hs. length pre + length (strOf v) \<le> offset h \<Longrightarrow>
     pieces (pre @ strOf v @ post) (length pre) (map (moveHead (length pre)) (headsOf v) @ hs)
     = rlp v @ pieces (pre @ strOf v @ post) (length pre + length (strOf v)) hs"
  "\<forall>h \<in> set hs. length pre + length (strsOf vs) \<le> offset h \<Longrightarrow>
     pieces (pre @ strsOf vs @ post) (length pre) (map (moveHead (length pre)) (headssOf vs) @ hs)
     = rlps vs @ pieces (pre @ strsOf vs @ post) (length pre + length (strsOf vs)) hs"
proof (induction v and vs arbitrary: pre post hs and pre post hs rule: strOf_strsOf.induct)
  case (1 b)
  then show ?case using pieces_skip [of "length pre" "length pre + length (rlp_string b)" "pre @ rlp_string b @ post" hs] by simp
next
  case (2 i)
  define b where "b = rlp (RlpUint i)"
  have "strOf (RlpUint i) = b" by (simp add: b_def)
  then show ?case using pieces_skip [of "length pre" "length pre + length b" "pre @ b @ post" hs] "2.prems" by (simp add: b_def [symmetric] del: rlp.simps strOf.simps)
next
  case (3 vs)
  then show ?case by (simp add: moveHead_def [of "length pre" "\<lparr>offset = 0, lh_size = n\<rparr>" for n] rlp_list_def)
next
  case 4
  show ?case by simp
next
  case (5 v vs)
  have o: "\<forall>h \<in> set (map (moveHead (length pre + length (strOf v))) (headssOf vs) @ hs). length pre + length (strOf v) \<le> offset h"
    using "5.prems" by (auto simp: moveHead_def)
  have "pieces (pre @ strOf v @ (strsOf vs @ post)) (length pre) (map (moveHead (length pre)) (headsOf v) @ (map (moveHead (length pre + length (strOf v))) (headssOf vs) @ hs))
      = rlp v @ pieces (pre @ strOf v @ (strsOf vs @ post)) (length pre + length (strOf v)) (map (moveHead (length pre + length (strOf v))) (headssOf vs) @ hs)"
    by (rule "5.IH"(1) [OF o])
  also have "pieces (pre @ strOf v @ (strsOf vs @ post)) (length pre + length (strOf v)) (map (moveHead (length pre + length (strOf v))) (headssOf vs) @ hs)
      = rlps vs @ pieces (pre @ strOf v @ (strsOf vs @ post)) (length pre + length (strOf v) + length (strsOf vs)) hs"
    using "5.IH"(2) [of hs "pre @ strOf v" post] "5.prems" by (simp add: add.assoc)
  finally show ?case by (simp add: comp_def add.assoc)
qed

lemma copyPieces_pieces:
  assumes "length out + length (pieces s p hs) = n" and "p \<le> length s" and "sorted (p # map offset hs)" and "\<forall>h \<in> set hs. offset h \<le> length s"
  shows "copyPieces n s out p hs = Some (out @ pieces s p hs)"
  using assms
proof (induction hs arbitrary: out p)
  case (Cons h hs)
  let ?piece = "take (offset h - p) (drop p s)" and ?enc = "puthead 0xC0 0xF7 (of_nat (lh_size h))"
  have l: "length ?piece = offset h - p" "p + (offset h - p) = offset h" using Cons.prems(2-4) by auto
  have fit: "length out + length ?piece + length ?enc \<le> n" using Cons.prems(1) by simp
  then have "take (n - length out) ?piece = ?piece" by (intro take_all) simp
  note fit = fit this
  have "copyPieces n s (out @ ?piece @ ?enc) (offset h) hs = Some ((out @ ?piece @ ?enc) @ pieces s (offset h) hs)"
    using Cons.prems by (intro Cons.IH) auto
  then show ?case using fit l Cons.prems(3,4) by (simp add: Let_def)
qed simp

lemma sorted_offsets: "sorted (map offset (headsOf v))" "sorted (map offset (headssOf vs))"
proof (induction v and vs rule: strOf_strsOf.induct)
  case (5 v vs)
  have "sorted (map offset (map (moveHead n) l))" if "sorted (map offset l)" for n l
    using that by (induction l) (auto simp: moveHead_def)
  then show ?case using 5 offsets(1) [of v] by (fastforce simp: sorted_append moveHead_def)
qed auto

text \<open>C16: The encoding buffer writes the strings of a value and keeps the headers of its lists apart until their sizes are known; what it gives at the end is the
  encoding of the value, every list with its header in front, and the array made for it is exactly filled.\<close>

theorem EncodeToBytes_rlp:
  assumes "length (rlp v) < 2 ^ 64"
  shows "EncodeToBytes v = Some (rlp v)"
proof -
  have w: "writeValue v emptybuf = \<lparr>str = strOf v, lheads = headsOf v, lhsize = length (rlp v) - length (strOf v)\<rparr>"
    using writeValue_writes(1) [OF assms] by (simp add: writes_def emptybuf_def)
  have p: "pieces (strOf v) 0 (headsOf v) = rlp v"
    using pieces_value(1) [of "[]" "[]" v "[]"] by simp
  have "copyPieces (length (rlp v)) (strOf v) [] 0 (headsOf v) = Some ([] @ pieces (strOf v) 0 (headsOf v))"
    using p offsets(1) [of v] sorted_offsets(1) [of v] by (intro copyPieces_pieces) simp_all
  then show ?thesis using p length_strOf_le(1) [of v] by (simp add: EncodeToBytes_def toBytes_def w buf_size_def)
qed

theorem EncodeToBytes_rlp_witness:
  "EncodeToBytes (RlpList [RlpUint 1024, RlpList [RlpBytes [7], RlpBytes [0x80]], RlpBytes []])
     = Some [0xC8, 0x82, 0x04, 0x00, 0xC3, 0x07, 0x81, 0x80, 0x80]"
proof -
  have "rlp (RlpList [RlpUint 1024, RlpList [RlpBytes [7], RlpBytes [0x80]], RlpBytes []]) = [0xC8, 0x82, 0x04, 0x00, 0xC3, 0x07, 0x81, 0x80, 0x80]"
    by code_simp
  then show ?thesis using EncodeToBytes_rlp [of "RlpList [RlpUint 1024, RlpList [RlpBytes [7], RlpBytes [0x80]], RlpBytes []]"] by simp
qed

section \<open>Splitting\<close>

lemma byte_tags:
  fixes n :: nat
  assumes "n < 56"
  shows "(0x80 + of_nat n :: byte) - 0x80 = of_nat n" "\<not> (0x80 + of_nat n :: byte) < 0x80" "(0x80 + of_nat n :: byte) < 0xB8"
    "(0xC0 + of_nat n :: byte) - 0xC0 = of_nat n" "\<not> (0xC0 + of_nat n :: byte) < 0xC0" "(0xC0 + of_nat n :: byte) < 0xF8"
proof -
  have u: "unat (0x80 + of_nat n :: byte) = 128 + n" "unat (0xC0 + of_nat n :: byte) = 192 + n"
    using assms by (simp_all add: unat_word_ariths(1) unat_of_nat take_bit_nat_eq_self)
  show "(0x80 + of_nat n :: byte) - 0x80 = of_nat n" "(0xC0 + of_nat n :: byte) - 0xC0 = of_nat n" by simp_all
  show "\<not> (0x80 + of_nat n :: byte) < 0x80" "(0x80 + of_nat n :: byte) < 0xB8" "\<not> (0xC0 + of_nat n :: byte) < 0xC0" "(0xC0 + of_nat n :: byte) < 0xF8"
    using u assms by (simp_all only: word_less_nat_alt) simp_all
qed

lemma byte_large_tags:
  fixes n :: nat
  assumes "1 \<le> n" and "n \<le> 8"
  shows "(0xB7 + of_nat n :: byte) - 0xB7 = of_nat n" "\<not> (0xB7 + of_nat n :: byte) < 0x80" "\<not> (0xB7 + of_nat n :: byte) < 0xB8" "(0xB7 + of_nat n :: byte) < 0xC0"
    "(0xF7 + of_nat n :: byte) - 0xF7 = of_nat n" "\<not> (0xF7 + of_nat n :: byte) < 0xF8"
proof -
  have u: "unat (0xB7 + of_nat n :: byte) = 183 + n" "unat (0xF7 + of_nat n :: byte) = 247 + n"
    using assms by (simp_all add: unat_word_ariths(1) unat_of_nat take_bit_nat_eq_self)
  show "(0xB7 + of_nat n :: byte) - 0xB7 = of_nat n" "(0xF7 + of_nat n :: byte) - 0xF7 = of_nat n" by simp_all
  show "\<not> (0xB7 + of_nat n :: byte) < 0x80" "\<not> (0xB7 + of_nat n :: byte) < 0xB8" "(0xB7 + of_nat n :: byte) < 0xC0" "\<not> (0xF7 + of_nat n :: byte) < 0xF8"
    using u assms by (simp_all only: word_less_nat_alt) simp_all
qed

lemma readSize_putint:
  assumes "56 \<le> i"
  shows "readSize (putint i @ rest) (of_nat (intsize i)) = Inr i"
proof -
  have u: "unat (of_nat (intsize i) :: byte) = intsize i" using intsize_le [of i] by (simp add: unat_of_nat take_bit_nat_eq_self)
  have r: "1 \<le> (of_nat (intsize i) :: byte)" "(of_nat (intsize i) :: byte) \<le> 8" using u intsize_le [of i] by (simp_all add: word_le_nat_alt)
  have "i \<noteq> 0" using assms by auto
  moreover have "putint i \<noteq> []" using intsize_le(1) [of i] length_putint [of i] by force
  ultimately have "hd (putint i @ rest) \<noteq> 0" using hd_putint by simp
  then show ?thesis using assms u r by (simp add: readSize_def Let_def horner_putint not_less)
qed

lemma readSize_inverse:
  assumes "readSize b slen = Inr s" and "1 \<le> unat slen" and "unat slen \<le> 8"
  shows "take (unat slen) b = putint s \<and> intsize s = unat slen \<and> 56 \<le> s \<and> unat slen \<le> length b"
proof -
  obtain n where n: "unat slen = Suc n" using assms(2) by (cases "unat slen") auto
  define bs where "bs = take (Suc n) b"
  have "1 \<le> slen" "slen \<le> 8" using assms(2,3) by (simp_all add: word_le_nat_alt)
  then have s: "s = horner 0 bs" "56 \<le> s" "hd b \<noteq> 0" "Suc n \<le> length b"
    using assms(1) n by (auto simp: readSize_def Let_def bs_def split: if_splits)
  have l: "length bs = Suc n" using s(4) by (simp add: bs_def)
  have be: "be (Suc n) s = bs" using be_horner [of bs 0] l assms(3) n by (simp add: s(1))
  have "take_bit (8 * Suc n) s = s" using horner_be [of 0 "Suc n" s] by (simp add: be s(1) [symmetric])
  then have "unat s = unat s mod 2 ^ (8 * Suc n)" using unat_take_bit [of "8 * Suc n" s] by simp
  then have "unat s < 2 ^ (8 * Suc n)" by (metis mod_less_divisor zero_less_numeral zero_less_power)
  moreover have "(2 :: nat) ^ (8 * Suc n) = 256 ^ Suc n" by (simp add: power_add power_mult)
  ultimately have hi: "unat s < 256 ^ Suc n" by (simp only:)
  have "hd bs = hd b" using s(4) by (cases b) (simp_all add: bs_def)
  then have "(ucast (drop_bit (8 * n) s) :: byte) \<noteq> 0" using s(3) be [symmetric] by (simp add: be_Suc)
  then have "drop_bit (8 * n) s \<noteq> 0" by auto
  moreover have "unat (drop_bit (8 * n) s) = unat s div 256 ^ n" by (simp add: unat_drop_bit_eq drop_bit_nat_def power_mult)
  ultimately have "unat s div 256 ^ n \<noteq> 0" by (metis unat_eq_zero)
  then have "256 ^ n \<le> unat s" by (metis div_less not_le)
  then have "intsize s = Suc n" using intsize_eq [OF hi] by simp
  then show ?thesis using be s n by (simp add: putint_be bs_def)
qed

text \<open>The part of a value that its tag announces.\<close>

lemma Split_tag:
  assumes "readTag b rest = Inr (k, of_nat t, of_nat n)" and "length (b # rest) < 2 ^ 64" and "n < 2 ^ 64" and "t \<le> length (b # rest)"
  shows "Split (b # rest) = (if t + n \<le> length (b # rest) then Inr (k, take n (drop t (b # rest)), drop (t + n) (b # rest)) else Inl ErrValueTooLarge)"
proof -
  have d: "of_nat (length (b # rest)) - of_nat t = (of_nat (length (b # rest) - t) :: u64)" using assms(4) by (simp only: of_nat_diff)
  have "(of_nat n :: u64) > of_nat (length (b # rest) - t) \<longleftrightarrow> n > length (b # rest) - t"
    using assms(2,3) by (simp add: word_less_nat_alt u64_of_nat)
  moreover have "unat (of_nat t + of_nat n :: u64) = t + n" if "t + n \<le> length (b # rest)" using that assms(2) u64_of_nat(1) [of "t + n"] by simp
  ultimately show ?thesis using assms d u64_of_nat(1) [of n] u64_of_nat(1) [of t]
    by (auto simp: Split_def readKind_def simp del: length_Cons)
qed

definition kindOf :: "byte list \<Rightarrow> Kind" where
  "kindOf c = (if length c = 1 \<and> hd c \<le> 0x7F then Byte else String)"

lemma byte_less_iff: "\<not> x \<le> 0x7F \<longleftrightarrow> \<not> x < 128" for x :: byte
  by (auto simp: word_less_nat_alt word_le_nat_alt)

lemma Split_string:
  assumes "length (rlp_string c @ rest) < 2 ^ 64"
  shows "Split (rlp_string c @ rest) = Inr (kindOf c, c, rest)"
proof (cases "length c = 1 \<and> hd c \<le> 0x7F")
  case True
  then obtain x where x: "c = [x]" "x \<le> 0x7F" by (cases c) auto
  then have "x < 0x80" using byte_less_iff by blast
  then have "readTag x rest = Inr (Byte, of_nat 0, of_nat 1)" by (simp add: readTag_def)
  from Split_tag [OF this] show ?thesis using assms True x by (simp add: rlp_string_def kindOf_def)
next
  case False
  then have e: "rlp_string c = puthead 0x80 0xB7 (of_nat (length c)) @ c" "kindOf c = String" by (auto simp: rlp_string_def kindOf_def)
  have len: "length c < 2 ^ 64" using assms e by simp
  show ?thesis
  proof (cases "length c < 56")
    case True
    have p: "puthead 0x80 0xB7 (of_nat (length c)) = [0x80 + of_nat (length c)]"
      using True by (simp add: puthead_def word_less_nat_alt u64_of_nat)
    have "(of_nat (length c) :: byte) = 1 \<longleftrightarrow> length c = 1"
      using True by (simp add: word_unat_eq_iff unat_of_nat take_bit_nat_eq_self)
    then have "\<not> ((of_nat (length c) :: byte) = 1 \<and> c @ rest \<noteq> [] \<and> hd (c @ rest) < 128)"
      using False byte_less_iff by (cases c) auto
    moreover have "ucast (of_nat (length c) :: byte) = (of_nat (length c) :: u64)" using True by (simp add: unsigned_of_nat take_bit_nat_eq_self)
    ultimately have "readTag (0x80 + of_nat (length c)) (c @ rest) = Inr (String, of_nat 1, of_nat (length c))"
      using byte_tags(1-3) [OF True] by (simp add: readTag_def)
    from Split_tag [OF this] show ?thesis using assms e p len by simp
  next
    case False
    let ?n = "of_nat (length c) :: u64"
    have n: "56 \<le> ?n" "\<not> ?n < 56" using False len by (simp_all add: word_less_nat_alt word_le_nat_alt u64_of_nat)
    have p: "puthead 0x80 0xB7 ?n = (0xB7 + of_nat (intsize ?n)) # putint ?n" using n by (simp add: puthead_def)
    have "ucast (of_nat (intsize ?n) :: byte) + 1 = (of_nat (Suc (intsize ?n)) :: u64)"
      using intsize_le [of ?n] by (simp add: unsigned_of_nat take_bit_nat_eq_self)
    then have "readTag (0xB7 + of_nat (intsize ?n)) (putint ?n @ c @ rest) = Inr (String, of_nat (Suc (intsize ?n)), of_nat (length c))"
      using byte_large_tags(1-4) [OF intsize_le(1,2) [of ?n]] readSize_putint [OF n(1), of "c @ rest"] by (simp add: readTag_def)
    from Split_tag [OF this] show ?thesis using assms e p len by simp
  qed
qed

lemma Split_list:
  assumes "length (rlp_list c @ rest) < 2 ^ 64"
  shows "Split (rlp_list c @ rest) = Inr (List, c, rest)"
proof -
  have len: "length c < 2 ^ 64" using assms by (simp add: rlp_list_def)
  show ?thesis
  proof (cases "length c < 56")
    case True
    have p: "puthead 0xC0 0xF7 (of_nat (length c)) = [0xC0 + of_nat (length c)]"
      using True by (simp add: puthead_def word_less_nat_alt u64_of_nat)
    have "\<not> (0xC0 + of_nat (length c) :: byte) < 0x80" "\<not> (0xC0 + of_nat (length c) :: byte) < 0xB8"
      using byte_tags(5) [OF True] by (auto simp: word_less_nat_alt)
    moreover have "ucast (of_nat (length c) :: byte) = (of_nat (length c) :: u64)" using True by (simp add: unsigned_of_nat take_bit_nat_eq_self)
    ultimately have "readTag (0xC0 + of_nat (length c)) (c @ rest) = Inr (List, of_nat 1, of_nat (length c))"
      using byte_tags(4-6) [OF True] by (simp add: readTag_def)
    from Split_tag [OF this] show ?thesis using assms p len by (simp add: rlp_list_def)
  next
    case False
    let ?n = "of_nat (length c) :: u64" and ?b = "0xF7 + of_nat (intsize (of_nat (length c))) :: byte"
    have n: "56 \<le> ?n" "\<not> ?n < 56" using False len by (simp_all add: word_less_nat_alt word_le_nat_alt u64_of_nat)
    have p: "puthead 0xC0 0xF7 ?n = ?b # putint ?n" using n by (simp add: puthead_def)
    note tags = byte_large_tags(5,6) [OF intsize_le(1,2) [of ?n]]
    have "\<not> ?b < 0x80" "\<not> ?b < 0xB8" "\<not> ?b < 0xC0" using tags(2) by (auto simp: word_less_nat_alt)
    moreover have "ucast (of_nat (intsize ?n) :: byte) + 1 = (of_nat (Suc (intsize ?n)) :: u64)"
      using intsize_le [of ?n] by (simp add: unsigned_of_nat take_bit_nat_eq_self)
    ultimately have "readTag ?b (putint ?n @ c @ rest) = Inr (List, of_nat (Suc (intsize ?n)), of_nat (length c))"
      using tags readSize_putint [OF n(1), of "c @ rest"] by (simp add: readTag_def)
    from Split_tag [OF this] show ?thesis using assms p len by (simp add: rlp_list_def)
  qed
qed

text \<open>What splits is an encoding: the tags with their sizes are the ones the encoder writes.\<close>

lemma readTag_small:
  assumes "readTag b rest = Inr (k, ts, cs)" and "b < 0xB8 \<or> 0xC0 \<le> b \<and> b < 0xF8"
  shows "(k = Byte \<and> b < 0x80 \<and> ts = of_nat 0 \<and> cs = of_nat 1)
    \<or> (\<exists>n < 56. ts = of_nat 1 \<and> cs = of_nat n \<and> (k = String \<and> b = 0x80 + of_nat n \<and> \<not> (n = 1 \<and> rest \<noteq> [] \<and> hd rest < 128) \<or> k = List \<and> b = 0xC0 + of_nat n))"
proof (cases "b < 0x80")
  case True
  then show ?thesis using assms by (simp add: readTag_def)
next
  case False
  define base :: byte where "base = (if b < 0xB8 then 0x80 else 0xC0)"
  define n where "n = unat (b - base)"
  have b: "b = base + of_nat n" by (simp add: n_def)
  have le: "unat base \<le> unat b" using False assms(2) by (auto simp: base_def word_less_nat_alt word_le_nat_alt)
  then have "n = unat b - unat base" by (simp add: n_def unat_sub word_le_nat_alt)
  then have "n < 56" using False assms(2) by (auto simp: base_def word_less_nat_alt word_le_nat_alt split: if_splits)
  moreover have "ucast (b - base) = (of_nat n :: u64)" unfolding n_def by (simp only: of_nat_unat)
  moreover have "b - base = 1 \<longleftrightarrow> n = 1" unfolding n_def by (simp add: word_unat_eq_iff)
  ultimately have n: "n < 56" "ucast (b - base) = (of_nat n :: u64)" "b - base = 1 \<longleftrightarrow> n = 1" by blast+
  show ?thesis
  proof (cases "b < 0xB8")
    case True
    then have "\<not> (n = 1 \<and> rest \<noteq> [] \<and> hd rest < 128)" "k = String" "ts = 1" "cs = of_nat n"
      using assms(1) False n(2,3) by (simp_all only: readTag_def base_def if_True if_False split: if_splits) simp_all
    then show ?thesis using n(1) b True by (intro disjI2 exI [of _ n]) (simp add: base_def)
  next
    case nb: False
    then have "0xC0 \<le> b" "b < 0xF8" using assms(2) by blast+
    moreover have "\<not> b < 0xC0" using \<open>0xC0 \<le> b\<close> by simp
    ultimately have "k = List" "ts = 1" "cs = of_nat n"
      using assms(1) False nb n(2) by (simp_all only: readTag_def base_def if_True if_False) simp_all
    then show ?thesis using n(1) b nb by (intro disjI2 exI [of _ n]) (simp add: base_def)
  qed
qed

lemma readTag_large:
  assumes "readTag b rest = Inr (k, ts, cs)" and "\<not> (b < 0xB8 \<or> 0xC0 \<le> b \<and> b < 0xF8)"
  shows "take (intsize cs) rest = putint cs \<and> intsize cs \<le> length rest \<and> 56 \<le> cs \<and> ts = of_nat (Suc (intsize cs))
    \<and> (k = String \<and> b = 0xB7 + of_nat (intsize cs) \<or> k = List \<and> b = 0xF7 + of_nat (intsize cs))"
proof -
  define base :: byte where "base = (if b < 0xC0 then 0xB7 else 0xF7)"
  have nb: "\<not> b < 0x80" using assms(2) by (auto simp: word_less_nat_alt)
  have k: "k = (if b < 0xC0 then String else List)" and r: "readSize rest (b - base) = Inr cs" and ts: "ts = ucast (b - base) + 1"
    using assms nb by (auto simp: readTag_def base_def not_less split: if_splits sum.splits)
  have "unat base \<le> unat b" using assms(2) by (auto simp: base_def word_less_nat_alt word_le_nat_alt)
  then have u: "unat (b - base) = unat b - unat base" by (simp add: unat_sub word_le_nat_alt)
  have "unat b < 256" using unsigned_less [of b] by simp
  then have "1 \<le> unat (b - base)" "unat (b - base) \<le> 8"
    using u assms(2) by (auto simp: base_def word_less_nat_alt word_le_nat_alt split: if_splits)
  note s = readSize_inverse [OF r this]
  have "of_nat (unat (b - base)) = b - base" by simp
  then have b: "b - base = of_nat (intsize cs)" using s by simp
  have "of_nat (unat (b - base)) = (ucast (b - base) :: u64)" by (rule of_nat_unat)
  then have "ucast (b - base) + 1 = (of_nat (Suc (intsize cs)) :: u64)" using s by simp
  then show ?thesis using s k ts b by (auto simp: base_def diff_eq_eq add.commute split: if_splits)
qed

text \<open>C17: Splitting undoes the encoding and accepts nothing else: of data shorter than \<open>2 ^ 64\<close> bytes a string or a list is split off exactly if the data starts with the
  encoding of that string or list, with the shortest possible header. In particular no two different values have encodings that split alike, and no value has two.\<close>

theorem Split_iff:
  assumes "length b < 2 ^ 64"
  shows "Split b = Inr (k, c, rest) \<longleftrightarrow> (if k = List then b = rlp_list c @ rest else k = kindOf c \<and> b = rlp_string c @ rest)"
proof
  assume "if k = List then b = rlp_list c @ rest else k = kindOf c \<and> b = rlp_string c @ rest"
  then show "Split b = Inr (k, c, rest)" using assms Split_list [of c rest] Split_string [of c rest] by (simp split: if_splits)
next
  assume s: "Split b = Inr (k, c, rest)"
  then obtain x tl where b: "b = x # tl" by (cases b) (auto simp: Split_def readKind_def)
  obtain ts cs where tag: "readTag x tl = Inr (k, ts, cs)" using s b by (auto simp: Split_def readKind_def split: sum.splits prod.splits if_splits)
  show "if k = List then b = rlp_list c @ rest else k = kindOf c \<and> b = rlp_string c @ rest"
  proof (cases "x < 0xB8 \<or> 0xC0 \<le> x \<and> x < 0xF8")
    case True
    from readTag_small [OF tag True] show ?thesis
    proof (elim disjE conjE exE)
      assume t: "k = Byte" "x < 0x80" "ts = of_nat 0" "cs = of_nat 1"
      then show ?thesis using Split_tag [OF tag [unfolded t]] s b assms byte_less_iff [of x]
        by (auto simp: rlp_string_def kindOf_def)
    next
      fix n assume t: "n < 56" "ts = of_nat 1" "cs = of_nat n" and str: "k = String" "x = 0x80 + of_nat n" "\<not> (n = 1 \<and> tl \<noteq> [] \<and> hd tl < 128)"
      have c: "n \<le> length tl" "c = take n tl" "rest = drop n tl"
        using Split_tag [OF tag [unfolded t(2,3)]] s b assms t(1) by (auto split: if_splits)
      then have l: "length c = n" "tl = c @ rest" by auto
      have "\<not> (length c = 1 \<and> hd c \<le> 0x7F)" using str(3) l byte_less_iff by (cases c) auto
      then show ?thesis using str b l t(1)
        by (auto simp: kindOf_def rlp_string_def puthead_def word_less_nat_alt u64_of_nat)
    next
      fix n assume t: "n < 56" "ts = of_nat 1" "cs = of_nat n" and lst: "k = List" "x = 0xC0 + of_nat n"
      have c: "n \<le> length tl" "c = take n tl" "rest = drop n tl"
        using Split_tag [OF tag [unfolded t(2,3)]] s b assms t(1) by (auto split: if_splits)
      then have l: "length c = n" "tl = c @ rest" by auto
      then show ?thesis using lst b t(1) by (auto simp: rlp_list_def puthead_def word_less_nat_alt u64_of_nat)
    qed
  next
    case False
    define n m where "n = unat cs" and "m = intsize cs"
    note t = readTag_large [OF tag False, folded m_def]
    have cs: "cs = of_nat n" by (simp add: n_def)
    have n: "n < 2 ^ 64" "56 \<le> n" using unsigned_less [of cs] t by (simp_all add: n_def word_le_nat_alt)
    have tag': "readTag x tl = Inr (k, of_nat (Suc m), of_nat n)" using tag t cs by simp
    have c: "Suc m + n \<le> Suc (length tl)" "c = take n (drop m tl)" "rest = drop (m + n) tl"
      using Split_tag [OF tag'] s b assms n(1) t by (auto split: if_splits)
    then have "rest = drop n (drop m tl)" by (simp add: add.commute)
    then have "tl = take m tl @ c @ rest" unfolding c(2) by (simp only: append_take_drop_id)
    then have l: "length c = n" "tl = putint cs @ c @ rest" using t c(1,2) by simp_all
    have "\<not> length c = 1" "\<not> cs < 56" using l(1) n(2) t by auto
    then show ?thesis using t b l cs by (auto simp: rlp_list_def rlp_string_def kindOf_def puthead_def m_def)
  qed
qed

theorem Split_iff_witness:
  "Split [0xC3, 0x07, 0x81, 0x80, 0x2A] = Inr (List, [0x07, 0x81, 0x80], [0x2A]) \<and> Split [0x81, 0x07] \<noteq> Inr (String, [0x07], [])"
proof -
  have "rlp_list [0x07, 0x81, 0x80] = [0xC3, 0x07, 0x81, 0x80]" "rlp_string [0x07] = [0x07]" by code_simp+
  then show ?thesis
    using Split_iff [of "[0xC3, 0x07, 0x81, 0x80, 0x2A]" List "[0x07, 0x81, 0x80]" "[0x2A]"] Split_iff [of "[0x81, 0x07]" String "[0x07]" "[]"] by simp
qed

text \<open>Numbers go through as well.\<close>

lemma AppendUint64_rlp: "AppendUint64 b i = b @ rlp (RlpUint i)"
proof -
  have "AppendUint64 b i = b @ str (encodeUint i emptybuf)"
    by (simp add: AppendUint64_def encodeUint_def emptybuf_def putint_def)
  then show ?thesis by (simp add: encodeUint_writes writes_def emptybuf_def del: rlp.simps)
qed

lemma SplitUint64_rlp:
  assumes "length rest < 2 ^ 63"
  shows "SplitUint64 (rlp (RlpUint i) @ rest) = Inr (i, rest)"
proof -
  let ?c = "if i = 0 then [] else putint i"
  have "length (rlp_string ?c) \<le> 9 + length ?c" using intsize_le(2) by (simp add: rlp_string_def puthead_def)
  moreover have "length ?c \<le> 8" using intsize_le(2) by simp
  ultimately have "length (rlp_string ?c @ rest) < 2 ^ 64" using assms by (simp del: length_putint)
  then have s: "SplitString (rlp (RlpUint i) @ rest) = Inr (?c, rest)"
    by (simp add: SplitString_def Split_string kindOf_def)
  obtain n where n: "n < 8" "intsize i = Suc n" "unat i < 256 ^ Suc n" "n = 0 \<or> 256 ^ n \<le> unat i" by (rule intsize_range)
  show ?thesis
  proof (cases "n = 0")
    case True
    then have "unat (ucast (ucast i :: byte) :: u64) = unat i" using n(3) by (simp add: unsigned_ucast_eq take_bit_nat_eq_self unat_take_bit)
    then have "ucast (ucast i :: byte) = i" by (simp only: word_unat_eq_iff)
    then show ?thesis using s True n(2) hd_putint [of i] by (simp add: SplitUint64_def putint_be be_Suc)
  next
    case False
    have "(256 :: nat) ^ 1 \<le> 256 ^ n" using False by (intro power_increasing) auto
    then have "56 \<le> i" "i \<noteq> 0" using n(4) False by (auto simp: word_le_nat_alt)
    moreover have "putint i \<noteq> []" using n(2) length_putint [of i] by force
    ultimately show ?thesis using s False n(1,2) readSize_putint [of i "[]"] by (simp add: SplitUint64_def)
  qed
qed

text \<open>The sizes computed beforehand are those of the encodings.\<close>

lemma sizes_of_encodings:
  "length (rlp (RlpUint i)) = IntSize i" "ListSize (of_nat (length c)) = of_nat (length (rlp_list c))"
proof -
  show "length (rlp (RlpUint i)) = IntSize i"
  proof (cases "i < 128")
    case True
    then show ?thesis using small_byte [OF True] by (simp add: rlp_string_def IntSize_def puthead_def)
  next
    case False
    then have "i \<noteq> 0" by auto
    have "encodeUint i emptybuf = emptybuf\<lparr>str := (0x80 + of_nat (intsize i)) # putint i\<rparr>" using False \<open>i \<noteq> 0\<close> by (simp add: encodeUint_def emptybuf_def)
    then have "rlp (RlpUint i) = (0x80 + of_nat (intsize i)) # putint i" using encodeUint_writes [of i emptybuf] by (simp add: writes_def emptybuf_def del: rlp.simps)
    then show ?thesis using False by (simp add: IntSize_def del: rlp.simps)
  qed
  show "ListSize (of_nat (length c)) = of_nat (length (rlp_list c))" by (simp add: ListSize_def rlp_list_def length_puthead)
qed

end
