(* ===== verification/Trie.thy ===== *)
theory Trie
  imports GoCommon "HOL-Library.Monad_Syntax"
begin

text \<open>
  trie/trie.go and trie/encoding.go: the tries that the state is kept in, with their keys as nibbles, and the encodings of the keys.

  The database that stored nodes are loaded from is an argument, a function from hashes; a node that is not there is an error. Insertion, deletion and lookup load
  nodes while they go down, and with an arbitrary database they need not come to an end; they are partial functions in the option type, where \<open>None\<close> is a
  panic or a run without end. The flags of nodes, which only serve the caching of hashes, are left out.
\<close>

section \<open>Definitions\<close>

subsection \<open>encoding.go\<close>

unbundle bit_operations_syntax

definition hasTerm :: "byte list \<Rightarrow> bool" where
  "hasTerm s = (s \<noteq> [] \<and> last s = 16)"

fun decodeNibbles :: "byte list \<Rightarrow> byte list" where
  "decodeNibbles (x # y # r) = (push_bit 4 x OR y) # decodeNibbles r"
| "decodeNibbles r = []"

definition hexToCompact :: "byte list \<Rightarrow> byte list" where
  "hexToCompact hex =
     (let terminator = (if hasTerm hex then 1 else 0) :: byte; hex1 = (if hasTerm hex then butlast hex else hex); flag = push_bit 5 terminator in
      if odd (length hex1) then (flag OR push_bit 4 1 OR hd hex1) # decodeNibbles (tl hex1)
      else flag # decodeNibbles hex1)"

definition keybytesToHex :: "byte list \<Rightarrow> byte list" where
  "keybytesToHex str = concat (map (\<lambda>b. [b div 16, b mod 16]) str) @ [16]"

text \<open>The compact key written over the key it is read from.\<close>

function inPlaceLoop :: "byte list \<Rightarrow> nat \<Rightarrow> nat \<Rightarrow> nat \<Rightarrow> byte list" where
  "inPlaceLoop hex hexLen bi ni =
     (if ni < hexLen then inPlaceLoop (hex[bi := push_bit 4 (hex ! ni) OR hex ! (ni + 1)]) hexLen (bi + 1) (ni + 2) else hex)"
  by pat_completeness auto

termination
  by (relation "measure (\<lambda>(hex, hexLen, bi, ni). hexLen - ni)") auto

declare inPlaceLoop.simps [simp del]

definition hexToCompactInPlace :: "byte list \<Rightarrow> (byte list \<times> nat) panics" where
  "hexToCompactInPlace hex =
     (let hexLen = (if hasTerm hex then length hex - 1 else length hex); firstByte = (if hasTerm hex then push_bit 5 1 else 0) in
      if hex = [] then None
      else if odd hexLen then Some ((inPlaceLoop hex hexLen 1 1)[0 := firstByte OR push_bit 4 1 OR hd hex], hexLen div 2 + 1)
      else Some ((inPlaceLoop hex hexLen 1 0)[0 := firstByte], hexLen div 2 + 1))"

definition compactToHex :: "byte list \<Rightarrow> byte list" where
  "compactToHex compact =
     (if compact = [] then compact
      else let base = keybytesToHex compact; base1 = (if hd base < 2 then butlast base else base) in
        drop (unat (2 - (hd base1 AND 1))) base1)"

definition hexToKeybytes :: "byte list \<Rightarrow> byte list panics" where
  "hexToKeybytes hex =
     (let hex1 = (if hasTerm hex then butlast hex else hex) in if odd (length hex1) then None else Some (decodeNibbles hex1))"

fun prefixLen :: "byte list \<Rightarrow> byte list \<Rightarrow> nat" where
  "prefixLen (x # xs) (y # ys) = (if x = y then Suc (prefixLen xs ys) else 0)"
| "prefixLen _ _ = 0"

subsection \<open>trie.go\<close>

datatype node = NilNode | ValueNode "byte list" | ShortNode "byte list" node | FullNode "node list" | HashNode hash

datatype trieError = MissingNodeError hash "byte list"

type_synonym nodeDB = "hash \<Rightarrow> node option"

definition resolveHash :: "nodeDB \<Rightarrow> hash \<Rightarrow> byte list \<Rightarrow> trieError + node" where
  "resolveHash db h prefix = (case db h of Some n \<Rightarrow> Inr n | None \<Rightarrow> Inl (MissingNodeError h prefix))"

definition resolve :: "nodeDB \<Rightarrow> node \<Rightarrow> byte list \<Rightarrow> trieError + node" where
  "resolve db n prefix = (case n of HashNode h \<Rightarrow> resolveHash db h prefix | _ \<Rightarrow> Inr n)"

text \<open>The value, the node with what was loaded, whether anything was loaded, and the error.\<close>

partial_function (option) tryGet ::
  "nodeDB \<Rightarrow> node \<Rightarrow> byte list \<Rightarrow> nat \<Rightarrow> (byte list option \<times> node \<times> bool \<times> trieError option) option" where
  "tryGet db orig key pos =
     (case orig of
        NilNode \<Rightarrow> Some (None, NilNode, False, None)
      | ValueNode v \<Rightarrow> Some (Some v, ValueNode v, False, None)
      | ShortNode k child \<Rightarrow>
          (if length key < pos + length k \<or> k \<noteq> take (length k) (drop pos key) then Some (None, ShortNode k child, False, None)
           else do { (value, newnode, didResolve, err) \<leftarrow> tryGet db child key (pos + length k);
                     Some (value, if err = None \<and> didResolve then ShortNode k newnode else ShortNode k child, didResolve, err) })
      | FullNode cs \<Rightarrow>
          (if pos < length key \<and> unat (key ! pos) < length cs
           then do { (value, newnode, didResolve, err) \<leftarrow> tryGet db (cs ! unat (key ! pos)) key (pos + 1);
                     Some (value, if err = None \<and> didResolve then FullNode (cs[unat (key ! pos) := newnode]) else FullNode cs, didResolve, err) }
           else None)
      | HashNode h \<Rightarrow>
          (case resolveHash db h (take pos key) of
             Inl e \<Rightarrow> Some (None, HashNode h, True, Some e)
           | Inr child \<Rightarrow> do { (value, newnode, _, err) \<leftarrow> tryGet db child key pos; Some (value, newnode, True, err) }))"

text \<open>Whether the node changed, the node, and the error.\<close>

definition branchOf :: "byte \<Rightarrow> node \<Rightarrow> byte \<Rightarrow> node \<Rightarrow> node panics" where
  "branchOf x c1 y c2 = (if unat x < 17 \<and> unat y < 17 then Some (FullNode ((replicate 17 NilNode)[unat x := c1, unat y := c2])) else None)"

partial_function (option) trie_insert ::
  "nodeDB \<Rightarrow> node \<Rightarrow> byte list \<Rightarrow> byte list \<Rightarrow> node \<Rightarrow> (bool \<times> node \<times> trieError option) option" where
  "trie_insert db n prefix key value =
     (if key = [] then
        (case n of ValueNode v \<Rightarrow> (case value of ValueNode w \<Rightarrow> Some (v \<noteq> w, value, None) | _ \<Rightarrow> None) | _ \<Rightarrow> Some (True, value, None))
      else case n of
        ShortNode k child \<Rightarrow>
          (if prefixLen key k = length k
           then do { (dirty, nn, err) \<leftarrow> trie_insert db child (prefix @ take (length k) key) (drop (length k) key) value;
                     Some (if \<not> dirty \<or> err \<noteq> None then (False, n, err) else (True, ShortNode k nn, None)) }
           else if length key \<le> prefixLen key k then None
           else do { (_, c1, err1) \<leftarrow> trie_insert db NilNode (prefix @ take (prefixLen key k + 1) k) (drop (prefixLen key k + 1) k) child;
                     if err1 \<noteq> None then Some (False, NilNode, err1)
                     else do { (_, c2, err2) \<leftarrow> trie_insert db NilNode (prefix @ take (prefixLen key k + 1) key) (drop (prefixLen key k + 1) key) value;
                               if err2 \<noteq> None then Some (False, NilNode, err2)
                               else do { branch \<leftarrow> branchOf (k ! prefixLen key k) c1 (key ! prefixLen key k) c2;
                                         Some (True, if prefixLen key k = 0 then branch else ShortNode (take (prefixLen key k) key) branch, None) } } })
      | FullNode cs \<Rightarrow>
          (if unat (hd key) < length cs
           then do { (dirty, nn, err) \<leftarrow> trie_insert db (cs ! unat (hd key)) (prefix @ [hd key]) (tl key) value;
                     Some (if \<not> dirty \<or> err \<noteq> None then (False, n, err) else (True, FullNode (cs[unat (hd key) := nn]), None)) }
           else None)
      | NilNode \<Rightarrow> Some (True, ShortNode key value, None)
      | HashNode h \<Rightarrow>
          (case resolveHash db h prefix of
             Inl e \<Rightarrow> Some (False, NilNode, Some e)
           | Inr rn \<Rightarrow> do { (dirty, nn, err) \<leftarrow> trie_insert db rn prefix key value;
                            Some (if \<not> dirty \<or> err \<noteq> None then (False, rn, err) else (True, nn, None)) })
      | ValueNode v \<Rightarrow> None)"

text \<open>A full node from which a child was removed: if one is left, the node becomes a short one.\<close>

definition reduceFull :: "nodeDB \<Rightarrow> byte list \<Rightarrow> node list \<Rightarrow> bool \<times> node \<times> trieError option" where
  "reduceFull db prefix cs =
     (case filter (\<lambda>i. cs ! i \<noteq> NilNode) [0..<length cs] of
        [pos] \<Rightarrow>
          if pos \<noteq> 16 then
            (case resolve db (cs ! pos) prefix of
               Inl e \<Rightarrow> (False, NilNode, Some e)
             | Inr (ShortNode k v) \<Rightarrow> (True, ShortNode (of_nat pos # k) v, None)
             | Inr _ \<Rightarrow> (True, ShortNode [of_nat pos] (cs ! pos), None))
          else (True, ShortNode [of_nat pos] (cs ! pos), None)
      | _ \<Rightarrow> (True, FullNode cs, None))"

partial_function (option) trie_delete :: "nodeDB \<Rightarrow> node \<Rightarrow> byte list \<Rightarrow> byte list \<Rightarrow> (bool \<times> node \<times> trieError option) option" where
  "trie_delete db n prefix key =
     (case n of
        ShortNode k child \<Rightarrow>
          (if prefixLen key k < length k then Some (False, n, None)
           else if prefixLen key k = length key then Some (True, NilNode, None)
           else do { (dirty, nn, err) \<leftarrow> trie_delete db child (prefix @ take (length k) key) (drop (length k) key);
                     Some (if \<not> dirty \<or> err \<noteq> None then (False, n, err)
                           else case nn of ShortNode k2 v2 \<Rightarrow> (True, ShortNode (k @ k2) v2, None) | _ \<Rightarrow> (True, ShortNode k nn, None)) })
      | FullNode cs \<Rightarrow>
          (if key \<noteq> [] \<and> unat (hd key) < length cs
           then do { (dirty, nn, err) \<leftarrow> trie_delete db (cs ! unat (hd key)) (prefix @ [hd key]) (tl key);
                     Some (if \<not> dirty \<or> err \<noteq> None then (False, n, err)
                           else if nn \<noteq> NilNode then (True, FullNode (cs[unat (hd key) := nn]), None)
                           else reduceFull db prefix (cs[unat (hd key) := nn])) }
           else None)
      | ValueNode v \<Rightarrow> Some (True, NilNode, None)
      | NilNode \<Rightarrow> Some (False, NilNode, None)
      | HashNode h \<Rightarrow>
          (case resolveHash db h prefix of
             Inl e \<Rightarrow> Some (False, NilNode, Some e)
           | Inr rn \<Rightarrow> do { (dirty, nn, err) \<leftarrow> trie_delete db rn prefix key;
                            Some (if \<not> dirty \<or> err \<noteq> None then (False, rn, err) else (True, nn, None)) }))"

record Trie =
  root :: node
  unhashed :: nat

definition emptyRoot :: hash where
  "emptyRoot = 0x56e81f171bcc55a6ff8345e692c0f86e5b48e01b996cadc001622fb5e363b421"

text \<open>\<open>New\<close>; the database is never nil here.\<close>

definition trie_New :: "hash \<Rightarrow> nodeDB \<Rightarrow> trieError + Trie" where
  "trie_New h db =
     (if h \<noteq> 0 \<and> h \<noteq> emptyRoot
      then (case resolveHash db h [] of Inl e \<Rightarrow> Inl e | Inr rootnode \<Rightarrow> Inr \<lparr>root = rootnode, unhashed = 0\<rparr>)
      else Inr \<lparr>root = NilNode, unhashed = 0\<rparr>)"

definition TryGet :: "nodeDB \<Rightarrow> byte list \<Rightarrow> Trie \<Rightarrow> (Trie \<times> byte list option \<times> trieError option) option" where
  "TryGet db key t =
     do { (value, newroot, didResolve, err) \<leftarrow> tryGet db (root t) (keybytesToHex key) 0;
          Some (if err = None \<and> didResolve then t\<lparr>root := newroot\<rparr> else t, value, err) }"

definition TryDelete :: "nodeDB \<Rightarrow> byte list \<Rightarrow> Trie \<Rightarrow> (Trie \<times> trieError option) option" where
  "TryDelete db key t =
     do { let t1 = t\<lparr>unhashed := unhashed t + 1\<rparr>;
          (_, n, err) \<leftarrow> trie_delete db (root t1) [] (keybytesToHex key);
          Some (if err = None then t1\<lparr>root := n\<rparr> else t1, err) }"

definition TryUpdate :: "nodeDB \<Rightarrow> byte list \<Rightarrow> byte list \<Rightarrow> Trie \<Rightarrow> (Trie \<times> trieError option) option" where
  "TryUpdate db key value t =
     do { let t1 = t\<lparr>unhashed := unhashed t + 1\<rparr>;
          (_, n, err) \<leftarrow> (if value \<noteq> [] then trie_insert db (root t1) [] (keybytesToHex key) (ValueNode value) else trie_delete db (root t1) [] (keybytesToHex key));
          Some (if err = None then t1\<lparr>root := n\<rparr> else t1, err) }"

section \<open>Contents and form of a trie\<close>

text \<open>What a trie holds: the keys that lead to a value, whether the nodes on the way are loaded or not.\<close>

inductive holds :: "nodeDB \<Rightarrow> node \<Rightarrow> byte list \<Rightarrow> byte list \<Rightarrow> bool" for db where
  holds_value: "holds db (ValueNode v) [] v"
| holds_short: "holds db n k v \<Longrightarrow> holds db (ShortNode p n) (p @ k) v"
| holds_full: "unat x < length cs \<Longrightarrow> holds db (cs ! unat x) k v \<Longrightarrow> holds db (FullNode cs) (x # k) v"
| holds_hash: "db h = Some n \<Longrightarrow> holds db n k v \<Longrightarrow> holds db (HashNode h) k v"

inductive_simps holds_simps [simp]:
  "holds db NilNode k v"
  "holds db (ValueNode w) k v"
  "holds db (ShortNode p n) k v"
  "holds db (FullNode cs) k v"
  "holds db (HashNode h) k v"

text \<open>The form of keys: nibbles, and 16 at the end only.\<close>

fun terminated :: "byte list \<Rightarrow> bool" where
  "terminated [] = False"
| "terminated (x # xs) = (if xs = [] then x = 16 else x < 16 \<and> terminated xs)"

definition branching :: "nodeDB \<Rightarrow> node \<Rightarrow> bool" where
  "branching db n = (case n of FullNode cs \<Rightarrow> True | HashNode h \<Rightarrow> (case db h of Some (FullNode cs) \<Rightarrow> True | _ \<Rightarrow> False) | _ \<Rightarrow> False)"

text \<open>
  The minimal form of a trie that is not empty: a short node ends in a value or leads to a full node, a full node has at least two children, and every hash is in
  the database, where it stands for a node that is not itself a hash.
\<close>

inductive wfNode :: "nodeDB \<Rightarrow> node \<Rightarrow> bool" for db where
  wf_leaf: "terminated k \<Longrightarrow> v \<noteq> [] \<Longrightarrow> wfNode db (ShortNode k (ValueNode v))"
| wf_ext: "p \<noteq> [] \<Longrightarrow> \<forall>x \<in> set p. x < 16 \<Longrightarrow> wfNode db n \<Longrightarrow> branching db n \<Longrightarrow> wfNode db (ShortNode p n)"
| wf_full: "length cs = 17 \<Longrightarrow> (\<And>i. i < 16 \<Longrightarrow> cs ! i \<noteq> NilNode \<Longrightarrow> wfNode db (cs ! i)) \<Longrightarrow>
    cs ! 16 = NilNode \<or> (\<exists>v. v \<noteq> [] \<and> cs ! 16 = ValueNode v) \<Longrightarrow>
    i < 17 \<Longrightarrow> j < 17 \<Longrightarrow> i \<noteq> j \<Longrightarrow> cs ! i \<noteq> NilNode \<Longrightarrow> cs ! j \<noteq> NilNode \<Longrightarrow> wfNode db (FullNode cs)"
| wf_hash: "db h = Some n \<Longrightarrow> \<forall>h'. n \<noteq> HashNode h' \<Longrightarrow> wfNode db n \<Longrightarrow> wfNode db (HashNode h)"

inductive_simps wfNode_simps:
  "wfNode db NilNode"
  "wfNode db (ValueNode w)"
  "wfNode db (ShortNode p n)"
  "wfNode db (FullNode cs)"
  "wfNode db (HashNode h)"

lemma branching_Short [simp]: "\<not> branching db (ShortNode p n)" "\<not> branching db NilNode" "\<not> branching db (ValueNode v)" "branching db (FullNode cs)"
  by (simp_all add: branching_def)

lemma branching_Hash: "db h = Some n \<Longrightarrow> \<forall>h'. n \<noteq> HashNode h' \<Longrightarrow> branching db (HashNode h) = branching db n"
  by (auto simp: branching_def split: node.splits)

lemma wfNode_not_Nil [simp]: "\<not> wfNode db NilNode" "\<not> wfNode db (ValueNode v)"
  by (simp_all add: wfNode_simps)

definition updates :: "nodeDB \<Rightarrow> node \<Rightarrow> byte list \<Rightarrow> byte list option \<Rightarrow> node \<Rightarrow> bool" where
  "updates db n key w n' = (\<forall>k v. holds db n' k v = (if k = key then w = Some v else holds db n k v))"

subsection \<open>Keys\<close>

lemma terminated_append: "ys \<noteq> [] \<Longrightarrow> terminated (xs @ ys) = ((\<forall>x \<in> set xs. x < 16) \<and> terminated ys)"
  by (induction xs) auto

lemma terminated_appendI: "\<forall>x \<in> set xs. x < 16 \<Longrightarrow> terminated ys \<Longrightarrow> terminated (xs @ ys)"
  by (induction xs) auto

lemma terminated_nonempty [dest]: "terminated xs \<Longrightarrow> xs \<noteq> []"
  by auto

lemma terminated_not_nibbles: "terminated xs \<Longrightarrow> \<exists>x \<in> set xs. \<not> x < 16"
  by (induction xs rule: terminated.induct) (auto split: if_splits)

lemma terminated_prefix: "terminated xs \<Longrightarrow> terminated (xs @ ys) \<Longrightarrow> ys = []"
  using terminated_append [of ys xs] terminated_not_nibbles by blast

lemma terminated_split:
  assumes "terminated (p @ x # r)"
  shows "\<forall>y \<in> set p. y < 16" "x < 17" "r = [] \<Longrightarrow> x = 16" "r \<noteq> [] \<Longrightarrow> x < 16 \<and> terminated r"
  using assms by (auto simp: terminated_append word_less_nat_alt split: if_splits)

lemma prefixLen_split:
  "\<exists>p r s. key = p @ r \<and> k = p @ s \<and> prefixLen key k = length p \<and> (r = [] \<or> s = [] \<or> hd r \<noteq> hd s)"
proof (induction key k rule: prefixLen.induct)
  case (1 x xs y ys)
  show ?case
  proof (cases "x = y")
    case True
    with 1 obtain p r s where *: "xs = p @ r" "ys = p @ s" "prefixLen xs ys = length p" "r = [] \<or> s = [] \<or> hd r \<noteq> hd s" by blast
    show ?thesis by (rule exI [of _ "x # p"], rule exI [of _ r], rule exI [of _ s]) (use * True in simp)
  next
    case False
    show ?thesis by (rule exI [of _ "[]"], rule exI [of _ "x # xs"], rule exI [of _ "y # ys"]) (simp add: False)
  qed
qed auto

lemma prefixLen_append [simp]: "prefixLen (p @ r) (p @ s) = length p + prefixLen r s"
  by (induction p) auto

lemma prefixLen_self [simp]: "prefixLen (p @ r) p = length p"
  using prefixLen_append [of p r "[]"] by (cases r) auto

lemma unat_less: "x < y \<longleftrightarrow> unat x < unat (y :: byte)"
  by (simp add: word_less_nat_alt)

lemma unat_eq_unat: "unat x = unat y \<longleftrightarrow> x = (y :: byte)"
  by (simp add: word_unat_eq_iff)

lemma unat_16: "unat x = 16 \<longleftrightarrow> x = (16 :: byte)"
  by (auto simp: word_unat_eq_iff)

lemma nibble_cases: "unat (x :: byte) < 17 \<longleftrightarrow> unat x < 16 \<or> x = 16"
  using unat_16 [of x] by linarith

subsection \<open>Contents\<close>

lemma holds_functional: "holds db n k v \<Longrightarrow> holds db n k w \<Longrightarrow> v = w"
  by (induction arbitrary: w rule: holds.induct) auto

lemma wfNode_contents: "wfNode db n \<Longrightarrow> holds db n k v \<Longrightarrow> terminated k \<and> v \<noteq> []"
proof (induction arbitrary: k v rule: wfNode.induct)
  case (wf_full cs i j)
  then obtain x k' where x: "k = x # k'" "unat x < 17" "holds db (cs ! unat x) k' v" by auto
  show ?case
  proof (cases "unat x = 16")
    case True
    then have "x = 16" by (simp add: unat_16)
    with x wf_full(3) show ?thesis by auto
  next
    case False
    with x(2) have "unat x < 16" by simp
    with wf_full.IH [of "unat x" k' v] x(3) have "terminated k' \<and> v \<noteq> []" by fastforce
    with \<open>unat x < 16\<close> x(1) show ?thesis by (auto simp: word_less_nat_alt)
  qed
qed (auto intro: terminated_appendI)

lemma updates_same: "holds db n key v \<Longrightarrow> updates db n key (Some v) n" "\<nexists>v. holds db n key v \<Longrightarrow> updates db n key None n"
  using holds_functional by (auto simp: updates_def)

lemma updates_short: "updates db n key w n' \<Longrightarrow> updates db (ShortNode p n) (p @ key) w (ShortNode p n')"
  by (auto simp: updates_def)

lemma updates_full:
  assumes "unat x < length cs" "updates db (cs ! unat x) key w n'"
  shows "updates db (FullNode cs) (x # key) w (FullNode (cs[unat x := n']))"
  using assms by (auto simp: updates_def nth_list_update unat_eq_unat)

lemma updates_hash: "db h = Some n \<Longrightarrow> updates db n key w n' \<Longrightarrow> updates db (HashNode h) key w n'"
  by (auto simp: updates_def)

subsection \<open>Insertion\<close>

lemma insert_Nil: "trie_insert db NilNode prefix r c = Some (True, if r = [] then c else ShortNode r c, None)"
  by (simp add: trie_insert.simps)

lemma holds_at: "holds db (if r = [] then c else ShortNode r c) k v \<longleftrightarrow> (\<exists>k'. k = r @ k' \<and> holds db c k' v)"
  by auto

definition slotOk :: "nodeDB \<Rightarrow> byte \<Rightarrow> node \<Rightarrow> bool" where
  "slotOk db x n = (n = NilNode \<or> (if x = 16 then \<exists>v. v \<noteq> [] \<and> n = ValueNode v else wfNode db n))"

lemma slotOk_Nil [simp]: "slotOk db x NilNode"
  by (simp add: slotOk_def)

lemma wfNode_full_slots:
  "wfNode db (FullNode cs) \<longleftrightarrow> length cs = 17 \<and> (\<forall>x. unat x < 17 \<longrightarrow> slotOk db x (cs ! unat x)) \<and>
    (\<exists>x y :: byte. unat x < 17 \<and> unat y < 17 \<and> x \<noteq> y \<and> cs ! unat x \<noteq> NilNode \<and> cs ! unat y \<noteq> NilNode)" (is "?l = ?r")
proof
  assume ?l
  then obtain i j where *: "length cs = 17" "\<And>i. i < 16 \<Longrightarrow> cs ! i \<noteq> NilNode \<Longrightarrow> wfNode db (cs ! i)"
      "cs ! 16 = NilNode \<or> (\<exists>v. v \<noteq> [] \<and> cs ! 16 = ValueNode v)"
      "i < 17" "j < 17" "i \<noteq> j" "cs ! i \<noteq> NilNode" "cs ! j \<noteq> NilNode"
    by (auto simp: wfNode_simps)
  have "unat (of_nat i :: byte) = i" "unat (of_nat j :: byte) = j" using *(4,5) by (simp_all add: unat_of_nat)
  then have "\<exists>x y :: byte. unat x < 17 \<and> unat y < 17 \<and> x \<noteq> y \<and> cs ! unat x \<noteq> NilNode \<and> cs ! unat y \<noteq> NilNode"
    using *(4-8) by metis
  moreover have "slotOk db x (cs ! unat x)" if "unat x < 17" for x
    using that *(2,3) by (auto simp: slotOk_def nibble_cases)
  ultimately show ?r using *(1) by blast
next
  assume ?r
  then obtain x y :: byte where *: "length cs = 17" "\<And>x. unat x < 17 \<Longrightarrow> slotOk db x (cs ! unat x)"
      "unat x < 17" "unat y < 17" "x \<noteq> y" "cs ! unat x \<noteq> NilNode" "cs ! unat y \<noteq> NilNode" by blast
  have "wfNode db (cs ! i)" if "i < 16" "cs ! i \<noteq> NilNode" for i
  proof -
    have "unat (of_nat i :: byte) = i" using that(1) by (simp add: unat_of_nat)
    with *(2) [of "of_nat i"] that show ?thesis by (auto simp: slotOk_def split: if_splits)
  qed
  moreover have "cs ! 16 = NilNode \<or> (\<exists>v. v \<noteq> [] \<and> cs ! 16 = ValueNode v)"
    using *(2) [of 16] by (simp add: slotOk_def)
  ultimately show ?l using *(1,3-7) by (blast intro: wf_full dest: iffD1 [OF unat_eq_unat])
qed

lemma wfNode_fullI:
  fixes x y :: byte
  assumes "length cs = 17" "\<And>z. unat z < 17 \<Longrightarrow> slotOk db z (cs ! unat z)"
    "unat x < 17" "unat y < 17" "x \<noteq> y" "cs ! unat x \<noteq> NilNode" "cs ! unat y \<noteq> NilNode"
  shows "wfNode db (FullNode cs)"
  using assms unfolding wfNode_full_slots by blast

lemma wfNode_full_update:
  assumes "wfNode db (FullNode cs)" "slotOk db x n" "n \<noteq> NilNode" "unat x < 17"
  shows "wfNode db (FullNode (cs[unat x := n]))"
proof -
  obtain a b :: byte where *: "length cs = 17" "\<And>x. unat x < 17 \<Longrightarrow> slotOk db x (cs ! unat x)"
      "unat a < 17" "unat b < 17" "a \<noteq> b" "cs ! unat a \<noteq> NilNode" "cs ! unat b \<noteq> NilNode"
    using assms(1) unfolding wfNode_full_slots by blast
  show ?thesis
    using * assms(2-4) by (intro wfNode_fullI [of _ _ a b]) (auto simp: nth_list_update unat_eq_unat)
qed

lemma slot_leaf: "terminated (x # s) \<Longrightarrow> v \<noteq> [] \<Longrightarrow> slotOk db x (if s = [] then ValueNode v else ShortNode s (ValueNode v))"
  by (auto simp: slotOk_def intro: wf_leaf split: if_splits)

lemma slot_ext:
  "x < 16 \<Longrightarrow> \<forall>y \<in> set s. y < 16 \<Longrightarrow> wfNode db c \<Longrightarrow> branching db c \<Longrightarrow> slotOk db x (if s = [] then c else ShortNode s c)"
  by (auto simp: slotOk_def intro: wf_ext)

definition split_at :: "byte list \<Rightarrow> byte \<Rightarrow> node \<Rightarrow> byte \<Rightarrow> node \<Rightarrow> node" where
  "split_at p x c1 y c2 =
     (if p = [] then FullNode ((replicate 17 NilNode)[unat x := c1, unat y := c2])
      else ShortNode p (FullNode ((replicate 17 NilNode)[unat x := c1, unat y := c2])))"

lemma insert_splits:
  assumes "x \<noteq> y" "unat x < 17" "unat y < 17"
  shows "trie_insert db (ShortNode (p @ x # s) c) prefix (p @ y # r) value =
    Some (True, split_at p x (if s = [] then c else ShortNode s c) y (if r = [] then value else ShortNode r value), None)"
  using assms by (subst trie_insert.simps) (simp add: insert_Nil branchOf_def split_at_def)

lemma holds_branch:
  assumes "x \<noteq> y" "unat x < 17" "unat y < 17"
  shows "holds db (split_at p x c1 y c2) k v \<longleftrightarrow>
    (\<exists>k'. k = p @ x # k' \<and> holds db c1 k' v \<or> k = p @ y # k' \<and> holds db c2 k' v)"
  using assms by (auto simp: split_at_def nth_list_update unat_eq_unat split: if_splits)

lemma wf_split_at:
  assumes "x \<noteq> y" "unat x < 17" "unat y < 17" "\<forall>z \<in> set p. z < 16" "slotOk db x c1" "c1 \<noteq> NilNode" "slotOk db y c2" "c2 \<noteq> NilNode"
  shows "wfNode db (split_at p x c1 y c2)"
proof -
  let ?cs = "(replicate 17 NilNode)[unat x := c1, unat y := c2]"
  have "slotOk db z (?cs ! unat z)" if "unat z < 17" for z
    using assms that by (cases "z = x"; cases "z = y") (simp_all add: nth_list_update unat_eq_unat slotOk_def)
  moreover have "?cs ! unat x \<noteq> NilNode" "?cs ! unat y \<noteq> NilNode"
    using assms by (simp_all add: nth_list_update unat_eq_unat)
  ultimately have "wfNode db (FullNode ?cs)"
    using assms(1-3) by (intro wfNode_fullI [of _ _ x y]) simp_all
  with assms(4) show ?thesis by (auto simp: split_at_def branching_def intro: wf_ext)
qed

definition inserted :: "nodeDB \<Rightarrow> node \<Rightarrow> byte list \<Rightarrow> byte list \<Rightarrow> byte list \<Rightarrow> bool \<Rightarrow> node \<Rightarrow> bool" where
  "inserted db n prefix key value dirty n' =
     (trie_insert db n prefix key (ValueNode value) = Some (dirty, n', None) \<and> updates db n key (Some value) n' \<and> (\<not> dirty \<longrightarrow> holds db n key value))"

lemma inserted_split:
  assumes "x \<noteq> y" "unat x < 17" "unat y < 17"
  shows "inserted db (ShortNode (p @ x # s) c) prefix (p @ y # r) value True
    (split_at p x (if s = [] then c else ShortNode s c) y (if r = [] then ValueNode value else ShortNode r (ValueNode value)))"
  using assms unfolding inserted_def insert_splits [OF assms] updates_def holds_branch [OF assms] holds_at by auto

lemma inserted_short:
  assumes "inserted db n (prefix @ p) key value dirty n'" "p \<noteq> []"
  shows "inserted db (ShortNode p n) prefix (p @ key) value dirty (if dirty then ShortNode p n' else ShortNode p n)"
  using assms by (auto simp: inserted_def trie_insert.simps [of db "ShortNode p n"] intro: updates_short updates_same)

lemma inserted_full:
  assumes "inserted db (cs ! unat x) (prefix @ [x]) key value dirty n'" "unat x < length cs"
  shows "inserted db (FullNode cs) prefix (x # key) value dirty (if dirty then FullNode (cs[unat x := n']) else FullNode cs)"
  using assms by (auto simp: inserted_def trie_insert.simps [of db "FullNode cs"] intro: updates_full updates_same)

lemma inserted_hash:
  assumes "inserted db n prefix key value dirty n'" "db h = Some n" "key \<noteq> []"
  shows "inserted db (HashNode h) prefix key value dirty (if dirty then n' else n)"
  using assms by (auto simp: inserted_def trie_insert.simps [of db "HashNode h"] resolveHash_def intro: updates_hash updates_same)

lemma inserted_Nil: "inserted db NilNode prefix r value True (if r = [] then ValueNode value else ShortNode r (ValueNode value))"
  by (auto simp: inserted_def insert_Nil updates_def)

lemma inserted_Value: "inserted db (ValueNode v) prefix [] value (v \<noteq> value) (ValueNode value)"
  by (auto simp: inserted_def trie_insert.simps updates_def)

lemma diverge:
  assumes "terminated key" "terminated k \<or> (\<forall>x \<in> set k. x < 16)"
  shows "(\<exists>r. key = k @ r) \<or> (\<exists>p x s y r. k = p @ x # s \<and> key = p @ y # r \<and> x \<noteq> y \<and> unat x < 17 \<and> unat y < 17)"
proof -
  obtain p r s where *: "key = p @ r" "k = p @ s" "r = [] \<or> s = [] \<or> hd r \<noteq> hd s" using prefixLen_split by blast
  show ?thesis
  proof (cases "s = []")
    case False
    have r: "r \<noteq> []"
    proof
      assume "r = []"
      with * assms(1) have p: "terminated p" by simp
      then have "\<not> (\<forall>x \<in> set k. x < 16)" using *(2) terminated_not_nibbles by fastforce
      with assms(2) *(2) p False show False using terminated_prefix by blast
    qed
    obtain x s' where x: "s = x # s'" using False by (cases s) auto
    obtain y r' where y: "r = y # r'" using r by (cases r) auto
    have "y < 17" using assms(1) *(1) y terminated_split(2) by blast
    moreover have "x < 17" using assms(2) *(2) x terminated_split(2) [of p x s'] by (auto simp: word_less_nat_alt)
    ultimately show ?thesis using * x y by (auto simp: word_less_nat_alt)
  qed (use * in auto)
qed

lemma insert_slot:
  assumes "slotOk db x n" "terminated (x # r)" "value \<noteq> []"
    and "wfNode db n \<Longrightarrow> terminated r \<Longrightarrow> \<exists>dirty n'. inserted db n prefix r value dirty n' \<and> wfNode db n' \<and> (branching db n \<longrightarrow> branching db n')"
  shows "\<exists>dirty n'. inserted db n prefix r value dirty n' \<and> slotOk db x n' \<and> n' \<noteq> NilNode"
proof (cases "n = NilNode")
  case True
  then show ?thesis using inserted_Nil slot_leaf [OF assms(2,3)] by (metis node.distinct(1,3))
next
  case False
  show ?thesis
  proof (cases "x = 16")
    case True
    with assms(1,2) False obtain v where "n = ValueNode v" "r = []" by (auto simp: slotOk_def split: if_splits)
    then show ?thesis using inserted_Value [of db v prefix "value"] assms(3) True unfolding slotOk_def by (metis node.distinct(1))
  next
    case x: False
    with assms(1,2) False have "wfNode db n" "terminated r" by (auto simp: slotOk_def split: if_splits)
    with assms(4) obtain dirty n' where "inserted db n prefix r value dirty n'" "wfNode db n'" by blast
    with x show ?thesis unfolding slotOk_def by (metis wfNode_not_Nil)
  qed
qed

lemma insert_wf:
  assumes "wfNode db n" "terminated key" "value \<noteq> []"
  shows "\<exists>dirty n'. inserted db n prefix key value dirty n' \<and> wfNode db n' \<and> (branching db n \<longrightarrow> branching db n')"
  using assms(1,2)
proof (induction arbitrary: key prefix rule: wfNode.induct)
  case (wf_leaf k v)
  consider r where "key = k @ r" | p x s y r where "k = p @ x # s" "key = p @ y # r" "x \<noteq> y" "unat x < 17" "unat y < 17"
    using diverge [OF wf_leaf(3)] wf_leaf(1) by blast
  then show ?case
  proof cases
    case 1
    then have "key = k @ []" "k \<noteq> []" using wf_leaf terminated_prefix by auto
    then show ?thesis using inserted_short [OF inserted_Value, of k db v prefix "value"] wf_leaf(1,2) assms(3)
      by (auto intro: wfNode.wf_leaf simp: branching_def split: if_splits)
  next
    case 2
    have "slotOk db x (if s = [] then ValueNode v else ShortNode s (ValueNode v))"
      "slotOk db y (if r = [] then ValueNode value else ShortNode r (ValueNode value))" "\<forall>z \<in> set p. z < 16"
      using wf_leaf 2 assms(3) terminated_append [of "x # s" p] terminated_append [of "y # r" p] by (blast intro: slot_leaf)+
    with 2 have "wfNode db (split_at p x (if s = [] then ValueNode v else ShortNode s (ValueNode v)) y (if r = [] then ValueNode value else ShortNode r (ValueNode value)))"
      by (intro wf_split_at) auto
    then show ?thesis using inserted_split [OF 2(3-5), of db p s "ValueNode v" prefix r "value"] 2(1,2) branching_Short(1) by blast
  qed
next
  case (wf_ext p0 n)
  consider r where "key = p0 @ r" | p x s y r where "p0 = p @ x # s" "key = p @ y # r" "x \<noteq> y" "unat x < 17" "unat y < 17"
    using diverge [OF wf_ext.prems] wf_ext(2) by blast
  then show ?case
  proof cases
    case 1
    then have "r \<noteq> []" using wf_ext.prems wf_ext(2) terminated_not_nibbles [of key] by auto
    then have "terminated r" using wf_ext.prems 1 terminated_append by blast
    with wf_ext.IH [of r "prefix @ p0"] wf_ext(4) obtain dirty n' where "inserted db n (prefix @ p0) r value dirty n'" "wfNode db n'" "branching db n'" by blast
    then have "inserted db (ShortNode p0 n) prefix key value dirty (if dirty then ShortNode p0 n' else ShortNode p0 n)"
      "wfNode db (if dirty then ShortNode p0 n' else ShortNode p0 n)"
      using inserted_short wf_ext(1-4) 1 by (auto intro: wfNode.wf_ext)
    then show ?thesis using branching_Short by blast
  next
    case 2
    have "slotOk db x (if s = [] then n else ShortNode s n)" "\<forall>z \<in> set p. z < 16" "n \<noteq> NilNode"
      using slot_ext [of x s db n] wf_ext(2-4) 2(1) by auto
    moreover have "slotOk db y (if r = [] then ValueNode value else ShortNode r (ValueNode value))"
      using slot_leaf wf_ext.prems 2(2) assms(3) terminated_append [of "y # r" p] by blast
    ultimately have "wfNode db (split_at p x (if s = [] then n else ShortNode s n) y (if r = [] then ValueNode value else ShortNode r (ValueNode value)))"
      using 2(3-5) by (intro wf_split_at) auto
    then show ?thesis using inserted_split [OF 2(3-5), of db p s n prefix r "value"] 2(1,2) branching_Short(1) by blast
  qed
next
  case (wf_full cs i j)
  then have wf: "wfNode db (FullNode cs)" by (blast intro: wfNode.wf_full)
  obtain x r where x: "key = x # r" "unat x < 17" using wf_full.prems terminated_split(2) [of "[]"] by (cases key) (auto simp: word_less_nat_alt)
  then have "slotOk db x (cs ! unat x)" using wf unfolding wfNode_full_slots by blast
  then have "\<exists>dirty n'. inserted db (cs ! unat x) (prefix @ [x]) r value dirty n' \<and> slotOk db x n' \<and> n' \<noteq> NilNode"
  proof (rule insert_slot)
    assume *: "wfNode db (cs ! unat x)" "terminated r"
    then have "unat x < 16" using x wf_full.prems by (auto simp: word_less_nat_alt split: if_splits)
    with wf_full.IH * show "\<exists>dirty n'. inserted db (cs ! unat x) (prefix @ [x]) r value dirty n' \<and> wfNode db n' \<and> (branching db (cs ! unat x) \<longrightarrow> branching db n')"
      by (metis wfNode_not_Nil(1))
  qed (use x wf_full.prems assms(3) in auto)
  then obtain dirty n' where "inserted db (cs ! unat x) (prefix @ [x]) r value dirty n'" "slotOk db x n'" "n' \<noteq> NilNode" by blast
  then have "inserted db (FullNode cs) prefix key value dirty (if dirty then FullNode (cs[unat x := n']) else FullNode cs)"
    "wfNode db (if dirty then FullNode (cs[unat x := n']) else FullNode cs)"
    "branching db (if dirty then FullNode (cs[unat x := n']) else FullNode cs)"
    using inserted_full wf wfNode_full_update [OF wf, of x n'] x wf_full(1) by auto
  then show ?case by blast
next
  case (wf_hash h n)
  then obtain dirty n' where "inserted db n prefix key value dirty n'" "wfNode db n'" "branching db n \<longrightarrow> branching db n'" by blast
  then have "inserted db (HashNode h) prefix key value dirty (if dirty then n' else n)"
    "wfNode db (if dirty then n' else n)" "branching db (HashNode h) \<longrightarrow> branching db (if dirty then n' else n)"
    using inserted_hash [of db n prefix key "value" dirty n' h] branching_Hash [of db h n] wf_hash.hyps wf_hash.prems by auto
  then show ?case by blast
qed

subsection \<open>Deletion\<close>

definition deleted :: "nodeDB \<Rightarrow> node \<Rightarrow> byte list \<Rightarrow> byte list \<Rightarrow> bool \<Rightarrow> node \<Rightarrow> bool" where
  "deleted db n prefix key dirty n' =
     (trie_delete db n prefix key = Some (dirty, n', None) \<and> updates db n key None n' \<and> (\<not> dirty \<longrightarrow> (\<nexists>v. holds db n key v)))"

lemma deleted_diverging: "x \<noteq> y \<Longrightarrow> deleted db (ShortNode (p @ x # s) n) prefix (p @ y # r) False (ShortNode (p @ x # s) n)"
  by (auto simp: deleted_def trie_delete.simps intro: updates_same)

lemma deleted_leaf: "deleted db (ShortNode k (ValueNode v)) prefix k True NilNode"
  using prefixLen_self [of k "[]"] by (auto simp: deleted_def trie_delete.simps updates_def)

definition mergeShort :: "byte list \<Rightarrow> node \<Rightarrow> node" where
  "mergeShort p n = (case n of ShortNode k v \<Rightarrow> ShortNode (p @ k) v | _ \<Rightarrow> ShortNode p n)"

lemma holds_mergeShort [simp]: "holds db (mergeShort p n) k v = holds db (ShortNode p n) k v"
  by (auto simp: mergeShort_def split: node.splits)

lemma deleted_short:
  assumes "deleted db n (prefix @ p) key dirty n'" "key \<noteq> []"
  shows "deleted db (ShortNode p n) prefix (p @ key) dirty (if dirty then mergeShort p n' else ShortNode p n)"
proof -
  have "updates db (ShortNode p n) (p @ key) None (mergeShort p n')" if "updates db n key None n'"
    using updates_short [OF that, of p] by (simp add: updates_def)
  with assms show ?thesis
    by (auto simp: deleted_def mergeShort_def trie_delete.simps [of db "ShortNode p n"] intro: updates_same split: node.splits)
qed

lemma deleted_hash:
  assumes "deleted db n prefix key dirty n'" "db h = Some n"
  shows "deleted db (HashNode h) prefix key dirty (if dirty then n' else n)"
  using assms by (auto simp: deleted_def trie_delete.simps [of db "HashNode h"] resolveHash_def intro: updates_hash updates_same)

lemma deleted_Nil: "deleted db NilNode prefix key False NilNode"
  by (simp add: deleted_def trie_delete.simps updates_def)

lemma deleted_Value: "deleted db (ValueNode v) prefix [] True NilNode"
  by (simp add: deleted_def trie_delete.simps updates_def)

lemma deleted_full:
  assumes "deleted db (cs ! unat x) (prefix @ [x]) key dirty n'" "unat x < length cs"
    and "dirty \<Longrightarrow> n' = NilNode \<Longrightarrow> reduceFull db prefix (cs[unat x := NilNode]) = (True, m, None) \<and> (\<forall>k v. holds db m k v = holds db (FullNode (cs[unat x := NilNode])) k v)"
  shows "deleted db (FullNode cs) prefix (x # key) dirty (if \<not> dirty then FullNode cs else if n' = NilNode then m else FullNode (cs[unat x := n']))"
proof -
  have *: "trie_delete db (cs ! unat x) (prefix @ [x]) key = Some (dirty, n', None)" "updates db (cs ! unat x) key None n'"
      "\<not> dirty \<longrightarrow> (\<nexists>v. holds db (cs ! unat x) key v)" using assms(1) by (auto simp: deleted_def)
  have u: "updates db (FullNode cs) (x # key) None (FullNode (cs[unat x := n']))" by (rule updates_full) fact+
  have t: "trie_delete db (FullNode cs) prefix (x # key) =
      Some (if \<not> dirty then (False, FullNode cs, None) else if n' \<noteq> NilNode then (True, FullNode (cs[unat x := n']), None) else reduceFull db prefix (cs[unat x := n']))"
    using *(1) assms(2) by (simp add: trie_delete.simps [of db "FullNode cs"])
  show ?thesis
  proof (cases dirty)
    case False
    with * t show ?thesis by (auto simp: deleted_def intro: updates_same)
  next
    case True
    with u t assms(3) show ?thesis by (cases "n' = NilNode") (auto simp: deleted_def updates_def)
  qed
qed

lemma wf_mergeShort:
  assumes "wfNode db n" "p \<noteq> []" "\<forall>x \<in> set p. x < 16" "\<forall>h. n \<noteq> HashNode h"
  shows "wfNode db (mergeShort p n)"
  using assms(1)
proof cases
  case (wf_leaf k v)
  with assms show ?thesis by (auto simp: mergeShort_def intro: wfNode.wf_leaf terminated_appendI)
next
  case (wf_ext q m)
  with assms show ?thesis by (auto simp: mergeShort_def intro!: wfNode.wf_ext)
next
  case (wf_full cs)
  with assms show ?thesis by (auto simp: mergeShort_def intro!: wfNode.wf_ext)
qed (use assms(4) in auto)

lemma single_slot:
  assumes "length cs = 17" "filter (\<lambda>i. cs ! i \<noteq> NilNode) [0..<length cs] = [pos]"
  shows "pos < 17" "cs ! pos \<noteq> NilNode" "\<And>i. i < 17 \<Longrightarrow> i \<noteq> pos \<Longrightarrow> cs ! i = NilNode"
proof -
  have "set (filter (\<lambda>i. cs ! i \<noteq> NilNode) [0..<length cs]) = {pos}" using assms(2) by simp
  then have *: "i < 17 \<and> cs ! i \<noteq> NilNode \<longleftrightarrow> i = pos" for i using assms(1) by auto
  then show "pos < 17" "cs ! pos \<noteq> NilNode" "\<And>i. i < 17 \<Longrightarrow> i \<noteq> pos \<Longrightarrow> cs ! i = NilNode" by blast+
qed

lemma holds_single:
  assumes "length cs = 17" "unat x < 17" "\<And>i. i < 17 \<Longrightarrow> i \<noteq> unat x \<Longrightarrow> cs ! i = NilNode"
  shows "holds db (FullNode cs) k v = (\<exists>k'. k = x # k' \<and> holds db (cs ! unat x) k' v)"
proof -
  have "y = x" if "unat y < 17" "holds db (cs ! unat y) k' v" for y k'
    using that assms(3) [of "unat y"] by (cases "unat y = unat x") (auto simp: unat_eq_unat)
  then show ?thesis using assms(1,2) by auto
qed

lemma resolve_wf:
  assumes "wfNode db n"
  shows "\<exists>m. resolve db n prefix = Inr m \<and> wfNode db m \<and> (\<forall>k v. holds db m k v = holds db n k v) \<and> (\<forall>h. m \<noteq> HashNode h) \<and>
    ((\<exists>cs. m = FullNode cs) \<longrightarrow> branching db n)"
  using assms
proof cases
  case (wf_hash h m)
  then show ?thesis by (auto simp: resolve_def resolveHash_def branching_def)
qed (use assms in \<open>auto simp: resolve_def\<close>)

lemma reduce_wf:
  assumes "length cs = 17" "\<And>x. unat x < 17 \<Longrightarrow> slotOk db x (cs ! unat x)" "unat (a :: byte) < 17" "cs ! unat a \<noteq> NilNode"
  shows "\<exists>m. reduceFull db prefix cs = (True, m, None) \<and> (\<forall>k v. holds db m k v = holds db (FullNode cs) k v) \<and> wfNode db m \<and> (\<forall>h. m \<noteq> HashNode h)"
proof -
  let ?f = "filter (\<lambda>i. cs ! i \<noteq> NilNode) [0..<length cs]"
  have "unat a \<in> set ?f" using assms(1,3,4) by simp
  then consider pos where "?f = [pos]" | i j r where "?f = i # j # r" by (cases ?f rule: remdups_adj.cases) auto
  then show ?thesis
  proof cases
    case 1
    note single = single_slot [OF assms(1) 1]
    define x :: byte where "x = of_nat pos"
    have x: "unat x = pos" using single(1) by (simp add: x_def unat_of_nat)
    have h: "holds db (FullNode cs) k v = (\<exists>k'. k = x # k' \<and> holds db (cs ! pos) k' v)" for k v
      using holds_single [OF assms(1), of x] single x by simp
    have ok: "slotOk db x (cs ! pos)" using assms(2) [of x] single(1) x by simp
    show ?thesis
    proof (cases "pos = 16")
      case True
      then have "x = 16" using x unat_16 by metis
      with ok single(2) True obtain v where "v \<noteq> []" "cs ! 16 = ValueNode v" by (auto simp: slotOk_def)
      then show ?thesis using 1 True h \<open>x = 16\<close> by (auto simp: reduceFull_def intro: wf_leaf)
    next
      case False
      then have x16: "x \<noteq> 16" "x < 16" using x single(1) unat_16 [of x] by (auto simp: word_less_nat_alt)
      with ok single(2) have wf: "wfNode db (cs ! pos)" by (simp add: slotOk_def)
      from resolve_wf [OF this] obtain m where m: "resolve db (cs ! pos) prefix = Inr m" "wfNode db m"
        "\<And>k v. holds db m k v = holds db (cs ! pos) k v" "\<forall>h. m \<noteq> HashNode h" "(\<exists>cs. m = FullNode cs) \<longrightarrow> branching db (cs ! pos)" by blast
      show ?thesis
      proof (cases m)
        case (ShortNode k v)
        have "wfNode db (mergeShort [x] m)" using m(2,4) x16 by (intro wf_mergeShort) auto
        then have "wfNode db (ShortNode (x # k) v)" by (simp add: mergeShort_def ShortNode)
        moreover have "holds db (ShortNode (x # k) v) k' w = holds db (FullNode cs) k' w" for k' w
          using h m(3) ShortNode by (auto simp flip: m(3))
        ultimately show ?thesis using 1 False m(1) ShortNode by (auto simp: reduceFull_def x_def)
      next
        case (FullNode ds)
        then have "wfNode db (ShortNode [x] (cs ! pos))" using m(5) wf x16 by (intro wf_ext) auto
        then show ?thesis using 1 False m(1) FullNode h by (auto simp: reduceFull_def simp flip: x_def)
      qed (use m in auto)
    qed
  next
    case 2
    have "distinct ?f" by simp
    then have "i \<noteq> j" using 2 by simp
    moreover have "i \<in> set ?f" "j \<in> set ?f" using 2 by simp_all
    moreover have "unat (of_nat i :: byte) = i" "unat (of_nat j :: byte) = j" using calculation assms(1) by (auto simp: unat_of_nat)
    ultimately have "wfNode db (FullNode cs)" using assms(1,2) by (intro wfNode_fullI [of _ _ "of_nat i" "of_nat j"]) auto
    then show ?thesis using 2 by (auto simp: reduceFull_def)
  qed
qed

lemma delete_slot:
  assumes "slotOk db x n" "terminated (x # r)"
    and "wfNode db n \<Longrightarrow> terminated r \<Longrightarrow> \<exists>dirty n'. deleted db n prefix r dirty n' \<and> (n' = NilNode \<or> wfNode db n')"
  shows "\<exists>dirty n'. deleted db n prefix r dirty n' \<and> slotOk db x n'"
proof (cases "n = NilNode")
  case True
  then show ?thesis using deleted_Nil unfolding slotOk_def by blast
next
  case False
  show ?thesis
  proof (cases "x = 16")
    case True
    with assms(1,2) False obtain v where "n = ValueNode v" "r = []" by (auto simp: slotOk_def split: if_splits)
    then show ?thesis using deleted_Value unfolding slotOk_def by blast
  next
    case x: False
    with assms(1,2) False have "wfNode db n" "terminated r" by (auto simp: slotOk_def split: if_splits)
    with assms(3) obtain dirty n' where "deleted db n prefix r dirty n'" "n' = NilNode \<or> wfNode db n'" by blast
    with x show ?thesis unfolding slotOk_def by auto
  qed
qed

lemma delete_full:
  assumes wf: "wfNode db (FullNode cs)" and d: "deleted db (cs ! unat x) (prefix @ [x]) r dirty n'" and ok: "slotOk db x n'" and x: "unat x < 17"
  shows "\<exists>m. deleted db (FullNode cs) prefix (x # r) dirty m \<and> wfNode db m \<and> (\<forall>h. m \<noteq> HashNode h)"
proof -
  obtain a b :: byte where *: "length cs = 17" "\<And>z. unat z < 17 \<Longrightarrow> slotOk db z (cs ! unat z)"
      "unat a < 17" "unat b < 17" "a \<noteq> b" "cs ! unat a \<noteq> NilNode" "cs ! unat b \<noteq> NilNode"
    using wf unfolding wfNode_full_slots by blast
  define c where "c = (if x = a then b else a)"
  have c: "unat c < 17" "cs[unat x := NilNode] ! unat c \<noteq> NilNode" using * by (auto simp: c_def nth_list_update unat_eq_unat)
  have "slotOk db z (cs[unat x := NilNode] ! unat z)" if "unat z < 17" for z
    using *(1) *(2) [OF that] that by (cases "z = x") (simp_all add: nth_list_update unat_eq_unat)
  then obtain m where m: "reduceFull db prefix (cs[unat x := NilNode]) = (True, m, None)"
      "\<forall>k v. holds db m k v = holds db (FullNode (cs[unat x := NilNode])) k v" "wfNode db m" "\<forall>h. m \<noteq> HashNode h"
    using reduce_wf [of "cs[unat x := NilNode]" db c prefix] c *(1) by auto
  have "wfNode db (if \<not> dirty then FullNode cs else if n' = NilNode then m else FullNode (cs[unat x := n']))"
    using wf m(3) wfNode_full_update [OF wf ok _ x] by simp
  moreover have "deleted db (FullNode cs) prefix (x # r) dirty (if \<not> dirty then FullNode cs else if n' = NilNode then m else FullNode (cs[unat x := n']))"
    using m *(1) x by (intro deleted_full [OF d]) auto
  moreover have "\<forall>h. (if \<not> dirty then FullNode cs else if n' = NilNode then m else FullNode (cs[unat x := n'])) \<noteq> HashNode h"
    using m(4) by simp
  ultimately show ?thesis by blast
qed

lemma delete_wf:
  assumes "wfNode db n" "terminated key"
  shows "\<exists>dirty n'. deleted db n prefix key dirty n' \<and> (n' = NilNode \<or> wfNode db n') \<and> (branching db n \<longrightarrow> n' \<noteq> NilNode) \<and> (dirty \<longrightarrow> (\<forall>h. n' \<noteq> HashNode h))"
  using assms
proof (induction arbitrary: key prefix rule: wfNode.induct)
  case (wf_leaf k v)
  consider r where "key = k @ r" | p x s y r where "k = p @ x # s" "key = p @ y # r" "x \<noteq> y"
    using diverge [OF wf_leaf(3)] wf_leaf(1) by blast
  then show ?case
  proof cases
    case 1
    then have "key = k" using wf_leaf terminated_prefix by auto
    then show ?thesis using deleted_leaf branching_Short(1) by blast
  next
    case 2
    have "wfNode db (ShortNode k (ValueNode v))" using wf_leaf by (blast intro: wfNode.wf_leaf)
    then show ?thesis using deleted_diverging [OF 2(3), of db p s "ValueNode v" prefix r] 2(1,2) branching_Short(1) by blast
  qed
next
  case (wf_ext p0 n)
  have wf: "wfNode db (ShortNode p0 n)" using wf_ext by (blast intro: wfNode.wf_ext)
  consider r where "key = p0 @ r" | p x s y r where "p0 = p @ x # s" "key = p @ y # r" "x \<noteq> y"
    using diverge [OF wf_ext.prems] wf_ext(2) by blast
  then show ?case
  proof cases
    case 1
    then have "r \<noteq> []" using wf_ext.prems wf_ext(2) terminated_not_nibbles [of key] by auto
    then have "terminated r" using wf_ext.prems 1 terminated_append by blast
    with wf_ext.IH [of r "prefix @ p0"] wf_ext(4) obtain dirty n' where n': "deleted db n (prefix @ p0) r dirty n'" "wfNode db n'" "dirty \<longrightarrow> (\<forall>h. n' \<noteq> HashNode h)" by blast
    have "wfNode db (if dirty then mergeShort p0 n' else ShortNode p0 n)" using n' wf wf_mergeShort [OF n'(2) wf_ext(1,2)] by simp
    moreover have "\<forall>h. (if dirty then mergeShort p0 n' else ShortNode p0 n) \<noteq> HashNode h" by (auto simp: mergeShort_def split: node.splits)
    ultimately show ?thesis using deleted_short [OF n'(1) \<open>r \<noteq> []\<close>] 1 branching_Short(1) by blast
  next
    case 2
    then show ?thesis using deleted_diverging [OF 2(3), of db p s n prefix r] wf branching_Short(1) by blast
  qed
next
  case (wf_full cs i j)
  then have wf: "wfNode db (FullNode cs)" by (blast intro: wfNode.wf_full)
  obtain x r where x: "key = x # r" "unat x < 17" using wf_full.prems terminated_split(2) [of "[]"] by (cases key) (auto simp: word_less_nat_alt)
  then have "slotOk db x (cs ! unat x)" using wf unfolding wfNode_full_slots by blast
  then have "\<exists>dirty n'. deleted db (cs ! unat x) (prefix @ [x]) r dirty n' \<and> slotOk db x n'"
  proof (rule delete_slot)
    assume *: "wfNode db (cs ! unat x)" "terminated r"
    then have "unat x < 16" using x wf_full.prems by (auto simp: word_less_nat_alt split: if_splits)
    with wf_full.IH * show "\<exists>dirty n'. deleted db (cs ! unat x) (prefix @ [x]) r dirty n' \<and> (n' = NilNode \<or> wfNode db n')"
      by (metis wfNode_not_Nil(1))
  qed (use x wf_full.prems in auto)
  then show ?case using delete_full [OF wf, of x prefix r] x by (metis wfNode_not_Nil(1))
next
  case (wf_hash h n)
  then obtain dirty n' where "deleted db n prefix key dirty n'" "n' = NilNode \<or> wfNode db n'" "branching db n \<longrightarrow> n' \<noteq> NilNode" "dirty \<longrightarrow> (\<forall>h. n' \<noteq> HashNode h)" by blast
  then have "deleted db (HashNode h) prefix key dirty (if dirty then n' else n)"
    "(if dirty then n' else n) = NilNode \<or> wfNode db (if dirty then n' else n)"
    "branching db (HashNode h) \<longrightarrow> (if dirty then n' else n) \<noteq> NilNode" "dirty \<longrightarrow> (\<forall>h. (if dirty then n' else n) \<noteq> HashNode h)"
    using deleted_hash [of db n prefix key dirty n' h] branching_Hash [of db h n] wf_hash.hyps by auto
  then show ?case by blast
qed

subsection \<open>Lookup\<close>

definition got :: "nodeDB \<Rightarrow> node \<Rightarrow> byte list \<Rightarrow> nat \<Rightarrow> bool \<Rightarrow> node \<Rightarrow> bool" where
  "got db n key pos res n' =
     (\<exists>w. tryGet db n key pos = Some (w, n', res, None) \<and> (\<forall>v. w = Some v \<longleftrightarrow> holds db n (drop pos key) v) \<and> (\<forall>k v. holds db n' k v = holds db n k v))"

lemma got_Nil: "got db NilNode key pos False NilNode"
  by (simp add: got_def tryGet.simps)

lemma got_Value: "drop pos key = [] \<Longrightarrow> got db (ValueNode v) key pos False (ValueNode v)"
  by (auto simp: got_def tryGet.simps)

lemma got_short:
  assumes "got db n key (pos + length p) res n'" "drop pos key = p @ r" "r \<noteq> []"
  shows "got db (ShortNode p n) key pos res (if res then ShortNode p n' else ShortNode p n)"
proof -
  have "length (drop pos key) = length p + length r" using assms(2) by simp
  then have "\<not> length key < pos + length p" using assms(3) by (cases r) auto
  moreover have "drop (pos + length p) key = r" using assms(2) by (metis add.commute append_eq_conv_conj drop_drop)
  ultimately show ?thesis using assms(1,2) unfolding got_def by (auto simp: tryGet.simps [of db "ShortNode p n"])
qed

lemma got_diverging:
  assumes "drop pos key = p @ y # r" "x \<noteq> y"
  shows "got db (ShortNode (p @ x # s) n) key pos False (ShortNode (p @ x # s) n)"
  using assms by (auto simp: got_def tryGet.simps)

lemma got_full:
  assumes "got db (cs ! unat x) key (pos + 1) res n'" "drop pos key = x # r" "unat x < length cs"
  shows "got db (FullNode cs) key pos res (if res then FullNode (cs[unat x := n']) else FullNode cs)"
proof -
  have *: "pos < length key" using assms(2) by (metis drop_all linorder_not_less list.distinct(1))
  have "key ! pos = x" "drop (Suc pos) key = r" using assms(2) Cons_nth_drop_Suc [OF *] by auto
  moreover have "holds db (FullNode (cs[unat x := n'])) k v = holds db (FullNode cs) k v" if "\<forall>k v. holds db n' k v = holds db (cs ! unat x) k v" for k v
    using that assms(3) by (auto simp: nth_list_update unat_eq_unat split: if_splits)
  ultimately show ?thesis using assms * unfolding got_def by (auto simp: tryGet.simps [of db "FullNode cs"] simp del: holds_simps(4)) auto
qed

lemma got_hash: "got db n key pos res n' \<Longrightarrow> db h = Some n \<Longrightarrow> got db (HashNode h) key pos True n'"
  by (auto simp: got_def tryGet.simps [of db "HashNode h"] resolveHash_def)

lemma get_wf:
  assumes "wfNode db n" "terminated (drop pos key)"
  shows "\<exists>res n'. got db n key pos res n' \<and> wfNode db n' \<and> (branching db n \<longrightarrow> branching db n')"
  using assms
proof (induction arbitrary: pos rule: wfNode.induct)
  case (wf_leaf k v)
  have wf: "wfNode db (ShortNode k (ValueNode v))" using wf_leaf by (blast intro: wfNode.wf_leaf)
  consider r where "drop pos key = k @ r" | p x s y r where "k = p @ x # s" "drop pos key = p @ y # r" "x \<noteq> y"
    using diverge [OF wf_leaf(3)] wf_leaf(1) by blast
  then show ?case
  proof cases
    case 1
    then have *: "drop pos key = k" using wf_leaf terminated_prefix by auto
    then have "length key - pos = length k" "k \<noteq> []" using wf_leaf(1) by auto
    then have "\<not> length key < pos + length k" "drop (pos + length k) key = []" by (cases k, auto)+
    then have "got db (ShortNode k (ValueNode v)) key pos False (ShortNode k (ValueNode v))"
      using * by (auto simp: got_def tryGet.simps)
    with wf show ?thesis by blast
  next
    case 2
    then show ?thesis using got_diverging [OF 2(2,3), of db s "ValueNode v"] wf by blast
  qed
next
  case (wf_ext p0 n)
  have wf: "wfNode db (ShortNode p0 n)" using wf_ext by (blast intro: wfNode.wf_ext)
  consider r where "drop pos key = p0 @ r" | p x s y r where "p0 = p @ x # s" "drop pos key = p @ y # r" "x \<noteq> y"
    using diverge [OF wf_ext.prems] wf_ext(2) by blast
  then show ?case
  proof cases
    case 1
    then have "r \<noteq> []" using wf_ext.prems wf_ext(2) terminated_not_nibbles [of "drop pos key"] by auto
    then have "terminated r" using wf_ext.prems 1 terminated_append by metis
    moreover have "drop (pos + length p0) key = r" using 1 by (metis add.commute append_eq_conv_conj drop_drop)
    ultimately obtain res n' where n': "got db n key (pos + length p0) res n'" "wfNode db n'" "branching db n'"
      using wf_ext.IH [of "pos + length p0"] wf_ext(4) by blast
    have "wfNode db (if res then ShortNode p0 n' else ShortNode p0 n)" using n' wf wf_ext(1,2) by (auto intro: wfNode.wf_ext)
    then show ?thesis using got_short [OF n'(1) 1 \<open>r \<noteq> []\<close>] branching_Short(1) by blast
  next
    case 2
    then show ?thesis using got_diverging [OF 2(2,3), of db s n] wf by blast
  qed
next
  case (wf_full cs i j)
  then have wf: "wfNode db (FullNode cs)" by (blast intro: wfNode.wf_full)
  obtain x r where x: "drop pos key = x # r" "unat x < 17"
    using wf_full.prems terminated_split(2) [of "[]"] by (cases "drop pos key") (auto simp: word_less_nat_alt)
  then have r: "drop (pos + 1) key = r" by (metis add.commute drop_drop drop0 drop_Suc_Cons One_nat_def)
  have ok: "slotOk db x (cs ! unat x)" using x wf unfolding wfNode_full_slots by blast
  have "\<exists>res n'. got db (cs ! unat x) key (pos + 1) res n' \<and> slotOk db x n' \<and> (cs ! unat x \<noteq> NilNode \<longrightarrow> n' \<noteq> NilNode)"
  proof (cases "x = 16 \<or> cs ! unat x = NilNode")
    case True
    then show ?thesis
    proof (cases "cs ! unat x = NilNode")
      case False
      then have "r = []" "\<exists>v. cs ! unat x = ValueNode v" using ok True x(1) wf_full.prems by (auto simp: slotOk_def split: if_splits)
      then show ?thesis using got_Value r ok by metis
    qed (use got_Nil ok in force)
  next
    case False
    then have "terminated r" "unat x < 16" using x wf_full.prems by (auto simp: word_less_nat_alt split: if_splits)
    with wf_full.IH [of "unat x" "pos + 1"] False r obtain res n' where "got db (cs ! unat x) key (pos + 1) res n'" "wfNode db n'" by blast
    then show ?thesis using False by (metis slotOk_def wfNode_not_Nil(1))
  qed
  then obtain res n' where n': "got db (cs ! unat x) key (pos + 1) res n'" "slotOk db x n'" "cs ! unat x \<noteq> NilNode \<longrightarrow> n' \<noteq> NilNode" by blast
  have "n' = NilNode \<Longrightarrow> cs[unat x := n'] = cs" using n'(3) by (metis list_update_id)
  then have "wfNode db (if res then FullNode (cs[unat x := n']) else FullNode cs)"
    using wf wfNode_full_update [OF wf n'(2) _ x(2)] by (cases "n' = NilNode") auto
  then show ?case using got_full [OF n'(1) x(1)] x(2) wf_full(1) by (metis branching_Short(4))
next
  case (wf_hash h n)
  then obtain res n' where "got db n key pos res n'" "wfNode db n'" "branching db n \<longrightarrow> branching db n'" by blast
  then show ?case using got_hash branching_Hash [of db h n] wf_hash.hyps by blast
qed

subsection \<open>Keys of bytes\<close>

lemma nibbles_of_byte: "b div 16 < (16 :: byte)" "b mod 16 < (16 :: byte)"
proof -
  have "unat b < 256" using unsigned_less [of b, where ?'a = nat] by simp
  then show "b div 16 < (16 :: byte)" "b mod 16 < (16 :: byte)" by (simp_all add: word_less_nat_alt unat_div unat_mod)
qed

lemma keybytesToHex_terminated: "terminated (keybytesToHex key)"
  unfolding keybytesToHex_def by (rule terminated_appendI) (auto simp: nibbles_of_byte)

lemma nibbles_join: "push_bit 4 (b div 16) OR (b mod 16) = (b :: byte)"
proof -
  have "b div 16 = drop_bit 4 b" "b mod 16 = take_bit 4 b" by (simp_all add: drop_bit_eq_div take_bit_eq_mod)
  then show ?thesis using bits_ident [of 4 b] by (simp add: disjunctive_add bit_simps)
qed

lemma nibble_join:
  assumes "x < (16 :: byte)" "y < 16"
  shows "(push_bit 4 x OR y) div 16 = x" "(push_bit 4 x OR y) mod 16 = y"
proof -
  have x: "take_bit 4 x = x" and y: "take_bit 4 y = y" using assms by (simp_all add: take_bit_eq_mod word_less_nat_alt word_unat_eq_iff unat_mod)
  have "bit x n \<longrightarrow> n < 4" "bit y n \<longrightarrow> n < 4" for n
    using x y bit_take_bit_iff [of 4 x n] bit_take_bit_iff [of 4 y n] by auto
  then have "drop_bit 4 (push_bit 4 x OR y) = x" "take_bit 4 (push_bit 4 x OR y) = y"
    by (auto intro!: bit_word_eqI simp: bit_simps) (metis le_add1 le_add2 linorder_not_less)+
  then show "(push_bit 4 x OR y) div 16 = x" "(push_bit 4 x OR y) mod 16 = y"
    using drop_bit_eq_div [of 4 "push_bit 4 x OR y"] take_bit_eq_mod [of 4 "push_bit 4 x OR y"] by simp_all
qed

lemma decodeNibbles_hex: "decodeNibbles (concat (map (\<lambda>b. [b div 16, b mod 16]) str)) = str"
  by (induction str) (auto simp: nibbles_join)

lemma hex_even: "even (length (concat (map (\<lambda>b. [b div 16, b mod 16]) str)))"
  by (induction str) auto

lemma hexToKeybytes_keybytesToHex: "hexToKeybytes (keybytesToHex key) = Some key"
  by (simp add: hexToKeybytes_def keybytesToHex_def hasTerm_def decodeNibbles_hex hex_even)

lemma keybytesToHex_inj: "keybytesToHex a = keybytesToHex b \<longleftrightarrow> a = b"
  using hexToKeybytes_keybytesToHex by (metis option.inject)

end
