(* ===== verification/TrieMap.thy ===== *)
theory TrieMap
  imports Trie
begin

text \<open>
  What the tries promise: a store of keys and values (a locale, interpreted on the operations of trie/trie.go with any database), and that the tree depends on what
  it holds only, so that equal contents have equal roots. The compact form of keys, in which they are hashed and stored, is read back unchanged, and written in place
  it is the same.
\<close>

section \<open>A store of keys and values\<close>

fun puts :: "(byte list \<Rightarrow> byte list \<Rightarrow> 't \<Rightarrow> ('t \<times> 'e option) option) \<Rightarrow> (byte list \<times> byte list) list \<Rightarrow> 't \<Rightarrow> 't option" where
  "puts put [] t = Some t"
| "puts put ((k, v) # ops) t = (case put k v t of Some (t', None) \<Rightarrow> puts put ops t' | _ \<Rightarrow> None)"

fun applied :: "(byte list \<times> byte list) list \<Rightarrow> (byte list \<rightharpoonup> byte list) \<Rightarrow> (byte list \<rightharpoonup> byte list)" where
  "applied [] m = m"
| "applied ((k, v) # ops) m = applied ops (m(k := if v = [] then None else Some v))"

locale key_value_store =
  fixes ok :: "'t \<Rightarrow> bool" and contents :: "'t \<Rightarrow> byte list \<Rightarrow> byte list option"
    and get :: "byte list \<Rightarrow> 't \<Rightarrow> ('t \<times> byte list option \<times> 'e option) option"
    and put :: "byte list \<Rightarrow> byte list \<Rightarrow> 't \<Rightarrow> ('t \<times> 'e option) option"
    and remove :: "byte list \<Rightarrow> 't \<Rightarrow> ('t \<times> 'e option) option"
  assumes get_law: "ok t \<Longrightarrow> \<exists>t'. get k t = Some (t', contents t k, None) \<and> ok t' \<and> contents t' = contents t"
    and put_law: "ok t \<Longrightarrow> \<exists>t'. put k v t = Some (t', None) \<and> ok t' \<and> contents t' = (contents t)(k := if v = [] then None else Some v)"
    and remove_law: "ok t \<Longrightarrow> \<exists>t'. remove k t = Some (t', None) \<and> ok t' \<and> contents t' = (contents t)(k := None)"
begin

lemma puts_contents: "ok t \<Longrightarrow> \<exists>t'. puts put ops t = Some t' \<and> ok t' \<and> contents t' = applied ops (contents t)"
proof (induction ops arbitrary: t)
  case (Cons op ops)
  obtain k v where op: "op = (k, v)" by (cases op)
  obtain t1 where t1: "put k v t = Some (t1, None)" "ok t1" "contents t1 = (contents t)(k := if v = [] then None else Some v)"
    using put_law [OF Cons.prems] by blast
  from Cons.IH [OF t1(2)] show ?case unfolding op puts.simps applied.simps t1(1,3) option.case prod.case .
qed auto

lemma get_after_puts: "ok t \<Longrightarrow> \<exists>t1 t2. puts put ops t = Some t1 \<and> get k t1 = Some (t2, applied ops (contents t) k, None)"
  using puts_contents [of t ops] get_law by metis

lemma remove_after_put:
  assumes "ok t" "contents t k = None"
  shows "\<exists>t1 t2. put k v t = Some (t1, None) \<and> remove k t1 = Some (t2, None) \<and> contents t2 = contents t"
proof -
  obtain t1 where "put k v t = Some (t1, None)" "ok t1" "contents t1 = (contents t)(k := if v = [] then None else Some v)"
    using put_law [OF assms(1)] by blast
  moreover obtain t2 where "remove k t1 = Some (t2, None)" "contents t2 = (contents t1)(k := None)"
    using remove_law [OF calculation(2)] by blast
  ultimately show ?thesis using assms(2) by auto
qed

end

section \<open>The trie as a map\<close>

definition contents :: "nodeDB \<Rightarrow> Trie \<Rightarrow> byte list \<Rightarrow> byte list option" where
  "contents db t key = (if \<exists>v. holds db (root t) (keybytesToHex key) v then Some (THE v. holds db (root t) (keybytesToHex key) v) else None)"

definition trieOk :: "nodeDB \<Rightarrow> Trie \<Rightarrow> bool" where
  "trieOk db t = ((root t = NilNode \<or> wfNode db (root t)) \<and> (\<forall>k v. holds db (root t) k v \<longrightarrow> k \<in> range keybytesToHex))"

lemma contents_iff: "contents db t key = Some v \<longleftrightarrow> holds db (root t) (keybytesToHex key) v"
proof
  show "contents db t key = Some v \<Longrightarrow> holds db (root t) (keybytesToHex key) v"
    unfolding contents_def using holds_functional by (metis (mono_tags, lifting) option.discI option.inject theI)
  show "holds db (root t) (keybytesToHex key) v \<Longrightarrow> contents db t key = Some v"
    unfolding contents_def using holds_functional by (auto intro!: the_equality)
qed

lemma contents_cong: "(\<And>k v. holds db (root t') k v = holds db (root t) k v) \<Longrightarrow> contents db t' = contents db t"
proof -
  assume "\<And>k v. holds db (root t') k v = holds db (root t) k v"
  then have "holds db (root t') = holds db (root t)" by (intro ext) simp
  then show ?thesis by (intro ext) (simp only: contents_def)
qed

lemma updates_contents:
  assumes "updates db (root t) (keybytesToHex key) w (root t')" "trieOk db t" "root t' = NilNode \<or> wfNode db (root t')"
  shows "trieOk db t' \<and> contents db t' = (contents db t)(key := w)"
proof -
  have "contents db t' k = Some v \<longleftrightarrow> ((contents db t)(key := w)) k = Some v" for k v
    using assms(1) by (simp add: contents_iff updates_def keybytesToHex_inj)
  then have "contents db t' k = ((contents db t)(key := w)) k" for k by (metis option.exhaust)
  moreover have "trieOk db t'" using assms unfolding trieOk_def updates_def by (metis rangeI)
  ultimately show ?thesis by auto
qed

lemma delete_root:
  assumes "trieOk db t"
  shows "\<exists>d n. trie_delete db (root t) [] (keybytesToHex key) = Some (d, n, None) \<and> updates db (root t) (keybytesToHex key) None n \<and> (n = NilNode \<or> wfNode db n)"
proof (cases "root t = NilNode")
  case True
  then show ?thesis using deleted_Nil [of db "[]"] unfolding deleted_def by metis
next
  case False
  then have "wfNode db (root t)" using assms by (simp add: trieOk_def)
  then show ?thesis using delete_wf [OF _ keybytesToHex_terminated, of db "root t" "[]" key] unfolding deleted_def by metis
qed

lemma insert_root:
  assumes "trieOk db t" "v \<noteq> []"
  shows "\<exists>d n. trie_insert db (root t) [] (keybytesToHex key) (ValueNode v) = Some (d, n, None) \<and> updates db (root t) (keybytesToHex key) (Some v) n \<and> wfNode db n"
proof (cases "root t = NilNode")
  case True
  have "keybytesToHex key \<noteq> []" using keybytesToHex_terminated by auto
  then show ?thesis using inserted_Nil [of db "[]" "keybytesToHex key" v] wf_leaf [OF keybytesToHex_terminated assms(2), of db key] True
    unfolding inserted_def by auto
next
  case False
  then have "wfNode db (root t)" using assms by (simp add: trieOk_def)
  then show ?thesis using insert_wf [OF _ keybytesToHex_terminated assms(2), of db "root t" "[]" key] unfolding inserted_def by metis
qed

lemma trieOk_unhashed [simp]: "trieOk db (t\<lparr>unhashed := u\<rparr>) = trieOk db t" "contents db (t\<lparr>unhashed := u\<rparr>) = contents db t"
  by (simp_all add: trieOk_def contents_def fun_eq_iff)

lemma new_root_ok:
  assumes "updates db (root t) (keybytesToHex key) w n" "trieOk db t" "n = NilNode \<or> wfNode db n"
  shows "trieOk db (t\<lparr>unhashed := u, root := n\<rparr>)" "contents db (t\<lparr>unhashed := u, root := n\<rparr>) = (contents db t)(key := w)"
  using updates_contents [of db t key w "t\<lparr>unhashed := u, root := n\<rparr>"] assms by simp_all

lemma TryDelete_ok:
  assumes "trieOk db t"
  shows "\<exists>t'. TryDelete db key t = Some (t', None) \<and> trieOk db t' \<and> contents db t' = (contents db t)(key := None)"
proof -
  obtain d n where n: "trie_delete db (root t) [] (keybytesToHex key) = Some (d, n, None)" "updates db (root t) (keybytesToHex key) None n" "n = NilNode \<or> wfNode db n"
    using delete_root [OF assms] by blast
  show ?thesis using new_root_ok [OF n(2) assms n(3)] n(1) by (simp add: TryDelete_def Let_def)
qed

lemma TryUpdate_ok:
  assumes "trieOk db t"
  shows "\<exists>t'. TryUpdate db key v t = Some (t', None) \<and> trieOk db t' \<and> contents db t' = (contents db t)(key := if v = [] then None else Some v)"
proof (cases "v = []")
  case True
  then have "TryUpdate db key v t = TryDelete db key t" by (simp add: TryUpdate_def TryDelete_def)
  with TryDelete_ok [OF assms] True show ?thesis by simp
next
  case False
  obtain d n where n: "trie_insert db (root t) [] (keybytesToHex key) (ValueNode v) = Some (d, n, None)" "updates db (root t) (keybytesToHex key) (Some v) n" "wfNode db n"
    using insert_root [OF assms False] by blast
  show ?thesis using new_root_ok [OF n(2) assms disjI2 [OF n(3)]] n(1) False by (simp add: TryUpdate_def Let_def)
qed

lemma TryGet_ok:
  assumes "trieOk db t"
  shows "\<exists>t'. TryGet db key t = Some (t', contents db t key, None) \<and> trieOk db t' \<and> contents db t' = contents db t"
proof -
  have "\<exists>res n'. got db (root t) (keybytesToHex key) 0 res n' \<and> (n' = NilNode \<or> wfNode db n')"
    using assms got_Nil get_wf [of db "root t" 0 "keybytesToHex key"] keybytesToHex_terminated unfolding trieOk_def by (metis drop0)
  then obtain res n' w where *: "tryGet db (root t) (keybytesToHex key) 0 = Some (w, n', res, None)" "\<And>v. w = Some v \<longleftrightarrow> contents db t key = Some v"
      "\<And>k v. holds db n' k v = holds db (root t) k v" "n' = NilNode \<or> wfNode db n'"
    unfolding got_def contents_iff by auto
  have "w = contents db t key" using *(2) by (metis option.exhaust)
  moreover have "trieOk db (t\<lparr>root := n'\<rparr>)" "contents db (t\<lparr>root := n'\<rparr>) = contents db t"
    using *(3,4) assms by (auto simp: trieOk_def intro: contents_cong)
  ultimately show ?thesis using *(1) assms by (cases res) (auto simp: TryGet_def)
qed

interpretation trie_store: key_value_store "trieOk db" "contents db" "TryGet db" "TryUpdate db" "TryDelete db" for db
  by unfold_locales (rule TryGet_ok TryUpdate_ok TryDelete_ok, assumption)+

lemma New_ok:
  assumes "trie_New h db = Inr t" "h \<noteq> 0 \<and> h \<noteq> emptyRoot \<longrightarrow> trieOk db \<lparr>root = HashNode h, unhashed = 0\<rparr>"
  shows "trieOk db t" "h = 0 \<or> h = emptyRoot \<Longrightarrow> contents db t = Map.empty"
    "h \<noteq> 0 \<Longrightarrow> h \<noteq> emptyRoot \<Longrightarrow> contents db t = contents db \<lparr>root = HashNode h, unhashed = 0\<rparr>"
proof -
  have "trieOk db t \<and> (h = 0 \<or> h = emptyRoot \<longrightarrow> contents db t = Map.empty) \<and>
    (h \<noteq> 0 \<and> h \<noteq> emptyRoot \<longrightarrow> contents db t = contents db \<lparr>root = HashNode h, unhashed = 0\<rparr>)"
  proof (cases "h \<noteq> 0 \<and> h \<noteq> emptyRoot")
    case True
    then obtain n where n: "db h = Some n" "t = \<lparr>root = n, unhashed = 0\<rparr>"
      using assms(1) by (auto simp: trie_New_def resolveHash_def split: option.splits)
    have "contents db t = contents db \<lparr>root = HashNode h, unhashed = 0\<rparr>" using n by (intro contents_cong) simp
    moreover have "trieOk db t" using assms(2) True n by (simp add: trieOk_def wfNode_simps)
    ultimately show ?thesis using True by simp
  next
    case False
    then have "t = \<lparr>root = NilNode, unhashed = 0\<rparr>" using assms(1) by (auto simp: trie_New_def)
    then show ?thesis using False by (auto simp: trieOk_def contents_def)
  qed
  then show "trieOk db t" "h = 0 \<or> h = emptyRoot \<Longrightarrow> contents db t = Map.empty"
    "h \<noteq> 0 \<Longrightarrow> h \<noteq> emptyRoot \<Longrightarrow> contents db t = contents db \<lparr>root = HashNode h, unhashed = 0\<rparr>" by blast+
qed

section \<open>Equal contents, equal trees\<close>

fun loaded :: "node \<Rightarrow> bool" where
  "loaded (HashNode h) = False"
| "loaded (ShortNode p n) = loaded n"
| "loaded (FullNode cs) = (\<forall>c \<in> set cs. loaded c)"
| "loaded n = True"

lemma wfNode_nonempty: "wfNode db n \<Longrightarrow> \<exists>k v. holds db n k v"
proof (induction rule: wfNode.induct)
  case (wf_full cs i j)
  then have wf: "wfNode db (FullNode cs)" by (blast intro: wfNode.wf_full)
  have i: "unat (of_nat i :: byte) = i" using wf_full by (simp add: unat_of_nat)
  have "\<exists>k v. holds db (cs ! i) k v"
  proof (cases "i < 16")
    case False
    with wf_full have "i = 16" by simp
    then show ?thesis using wf_full.hyps holds_value by metis
  qed (use wf_full in blast)
  then obtain k v where "holds db (cs ! i) k v" by blast
  then have "holds db (FullNode cs) (of_nat i # k) v" using i wf_full.hyps by (intro holds_full) auto
  then show ?case by blast
qed (blast intro: holds.intros)+

lemma slot_nonempty: "slotOk db x n \<Longrightarrow> n \<noteq> NilNode \<Longrightarrow> \<exists>k v. holds db n k v"
  unfolding slotOk_def using wfNode_nonempty holds_value by metis

lemma full_forks:
  assumes "wfNode db (FullNode cs)"
  shows "\<exists>x y k l v w. x \<noteq> y \<and> holds db (FullNode cs) (x # k) v \<and> holds db (FullNode cs) (y # l) w"
proof -
  obtain a b :: byte where *: "length cs = 17" "\<And>z. unat z < 17 \<Longrightarrow> slotOk db z (cs ! unat z)"
      "unat a < 17" "unat b < 17" "a \<noteq> b" "cs ! unat a \<noteq> NilNode" "cs ! unat b \<noteq> NilNode"
    using assms unfolding wfNode_full_slots by blast
  obtain k v l w where "holds db (cs ! unat a) k v" "holds db (cs ! unat b) l w"
    using slot_nonempty [OF *(2)] * by metis
  then have "holds db (FullNode cs) (a # k) v" "holds db (FullNode cs) (b # l) w" using * by (auto intro: holds_full)
  with *(5) show ?thesis by blast
qed

lemma forked_prefix: "p @ x # a = q @ c \<Longrightarrow> p @ y # b = q @ d \<Longrightarrow> x \<noteq> y \<Longrightarrow> \<exists>r. p = q @ r"
  by (auto simp: append_eq_append_conv2 Cons_eq_append_conv)

text \<open>The three forms of a loaded trie and the keys each has.\<close>

lemma loaded_cases:
  assumes "wfNode db n" "loaded n"
  obtains k v where "n = ShortNode k (ValueNode v)"
  | p cs where "n = ShortNode p (FullNode cs)" "wfNode db (FullNode cs)" "p \<noteq> []"
  | cs where "n = FullNode cs"
  using assms by (cases rule: wfNode.cases) (auto simp: branching_def split: node.splits)

lemma canonical:
  assumes "wfNode db n" "wfNode db n'" "loaded n" "loaded n'" "\<And>k v. holds db n k v = holds db n' k v"
  shows "n = n'"
  using assms
proof (induction arbitrary: n' rule: wfNode.induct)
  case (wf_leaf k v)
  have one: "k1 = k" if "holds db n' k1 v1" for k1 v1 using wf_leaf.prems(4) [of k1 v1] that by auto
  from wf_leaf.prems(1,3) show ?case
  proof (cases rule: loaded_cases)
    case (1 k' v')
    then show ?thesis using wf_leaf.prems(4) [of k v] by auto
  next
    case (2 p cs)
    obtain x y a b u w where "x \<noteq> y" "holds db (FullNode cs) (x # a) u" "holds db (FullNode cs) (y # b) w" using full_forks [OF 2(2)] by blast
    moreover have "p @ x # a = k" "p @ y # b = k" using one 2(1) calculation(2,3) holds_short by blast+
    ultimately show ?thesis by auto
  next
    case (3 cs)
    obtain x y a b u w where "x \<noteq> y" "holds db (FullNode cs) (x # a) u" "holds db (FullNode cs) (y # b) w" using full_forks wf_leaf.prems(1) 3 by blast
    moreover have "x # a = k" "y # b = k" using one 3 calculation(2,3) by blast+
    ultimately show ?thesis by auto
  qed
next
  case (wf_ext p n)
  obtain cs where n: "n = FullNode cs" using wf_ext.hyps(4) wf_ext.prems(2) by (auto simp: branching_def split: node.splits)
  obtain x y k l v w where xy: "x \<noteq> y" "holds db n (x # k) v" "holds db n (y # l) w" using full_forks [of db cs] wf_ext(3) n by blast
  then have keys: "holds db n' (p @ x # k) v" "holds db n' (p @ y # l) w" using wf_ext.prems(4) holds_short by blast+
  from wf_ext.prems(1,3) show ?case
  proof (cases rule: loaded_cases)
    case (1 k' v')
    then show ?thesis using keys xy(1) by auto
  next
    case (2 q ds)
    obtain x' y' k' l' v' w' where xy': "x' \<noteq> y'" "holds db (FullNode ds) (x' # k') v'" "holds db (FullNode ds) (y' # l') w'"
      using full_forks [OF 2(2)] by blast
    then have keys': "holds db (ShortNode p n) (q @ x' # k') v'" "holds db (ShortNode p n) (q @ y' # l') w'"
      using wf_ext.prems(4) holds_short 2(1) by blast+
    obtain c where c: "p @ x # k = q @ c" using keys(1) unfolding 2(1) holds_simps(3) by blast
    obtain d where d: "p @ y # l = q @ d" using keys(2) unfolding 2(1) holds_simps(3) by blast
    obtain r where r: "p = q @ r" using forked_prefix [OF c d xy(1)] by blast
    obtain c' where c': "q @ x' # k' = p @ c'" using keys'(1) unfolding holds_simps(3) by blast
    obtain d' where d': "q @ y' # l' = p @ d'" using keys'(2) unfolding holds_simps(3) by blast
    obtain r' where "q = p @ r'" using forked_prefix [OF c' d' xy'(1)] by blast
    with r have pq: "p = q" by simp
    have "holds db n k v = holds db (FullNode ds) k v" for k v
      using wf_ext.prems(4) [of "p @ k" v] 2(1) pq by (simp del: holds_simps(4))
    then have "n = FullNode ds" using wf_ext.IH [of "FullNode ds"] 2 wf_ext.prems(2,3) by simp
    with 2 pq show ?thesis by simp
  next
    case (3 ds)
    obtain x' y' k' l' v' w' where xy': "x' \<noteq> y'" "holds db n' (x' # k') v'" "holds db n' (y' # l') w'"
      using full_forks wf_ext.prems(1) 3 by blast
    then have "holds db (ShortNode p n) (x' # k') v'" "holds db (ShortNode p n) (y' # l') w'" using wf_ext.prems(4) by simp_all
    then show ?thesis using xy'(1) wf_ext(1) by (auto simp: Cons_eq_append_conv simp del: holds_simps(4))
  qed
next
  case (wf_full cs i j)
  then have wf: "wfNode db (FullNode cs)" by (blast intro: wfNode.wf_full)
  then obtain x y k l v w where xy: "x \<noteq> y" "holds db n' (x # k) v" "holds db n' (y # l) w" using full_forks wf_full.prems(4) by blast
  obtain ds where n': "n' = FullNode ds"
    using wf_full.prems(1,3) by (cases rule: loaded_cases) (use xy in \<open>auto simp: Cons_eq_append_conv\<close>)
  have len: "length ds = 17" "length cs = 17" using wf_full.prems(1) n' wf_full(1) by (auto simp: wfNode_full_slots)
  have "cs ! i = ds ! i" if i: "i < 17" for i
  proof -
    have x: "unat (of_nat i :: byte) = i" using i by (simp add: unat_of_nat)
    have same: "holds db (cs ! i) k v = holds db (ds ! i) k v" for k v
      using wf_full.prems(4) [of "of_nat i # k" v] len i x n' by simp
    have ok: "slotOk db (of_nat i) (cs ! i)" "slotOk db (of_nat i) (ds ! i)"
      using wf wf_full.prems(1) n' x i by (metis wfNode_full_slots)+
    have l: "loaded (cs ! i)" "loaded (ds ! i)" using wf_full.prems(2,3) n' len i by auto
    show ?thesis
    proof (cases "cs ! i = NilNode \<or> ds ! i = NilNode")
      case True
      then show ?thesis using slot_nonempty [OF ok(1)] slot_nonempty [OF ok(2)] same by (metis holds_simps(1))
    next
      case False
      show ?thesis
      proof (cases "i = 16")
        case True
        then obtain a b where "cs ! i = ValueNode a" "ds ! i = ValueNode b" using ok False by (auto simp: slotOk_def)
        then show ?thesis using same [of "[]" a] by simp
      next
        case i16: False
        then have "of_nat i \<noteq> (16 :: byte)" "i < 16" using x i unat_16 by auto
        then have "wfNode db (ds ! i)" using ok(2) False by (simp add: slotOk_def)
        then show ?thesis using wf_full.IH [of i "ds ! i"] False same l \<open>i < 16\<close> by blast
      qed
    qed
  qed
  then show ?case using n' len by (auto intro: nth_equalityI)
qed simp

lemma wfNode_loaded: "wfNode db n \<Longrightarrow> db = Map.empty \<Longrightarrow> loaded n"
proof (induction rule: wfNode.induct)
  case (wf_full cs i j)
  have "loaded (cs ! k)" if "k < length cs" for k
  proof (cases "k < 16 \<and> cs ! k \<noteq> NilNode")
    case False
    then have "cs ! k = NilNode \<or> k = 16" using that wf_full.hyps(1) by auto
    then show ?thesis using wf_full.hyps(3) by auto
  qed (use wf_full in blast)
  then show ?case by (auto simp: in_set_conv_nth)
qed auto

definition emptyTrie :: Trie where
  "emptyTrie = \<lparr>root = NilNode, unhashed = 0\<rparr>"

lemma emptyTrie_ok: "trieOk db emptyTrie" "contents db emptyTrie = Map.empty"
  by (auto simp: trieOk_def emptyTrie_def contents_def)

lemma same_contents_same_root:
  assumes "trieOk Map.empty t" "trieOk Map.empty t'"
  shows "root t = root t' \<longleftrightarrow> contents Map.empty t = contents Map.empty t'"
proof
  assume "contents Map.empty t = contents Map.empty t'"
  then have "holds Map.empty (root t) (keybytesToHex key) v = holds Map.empty (root t') (keybytesToHex key) v" for key v
    by (simp flip: contents_iff)
  then have same: "holds Map.empty (root t) k v = holds Map.empty (root t') k v" for k v
    using assms unfolding trieOk_def by blast
  show "root t = root t'"
  proof (cases "root t = NilNode \<or> root t' = NilNode")
    case True
    then have "\<not> wfNode Map.empty (root t)" "\<not> wfNode Map.empty (root t')"
      using same wfNode_nonempty [of Map.empty "root t"] wfNode_nonempty [of Map.empty "root t'"] by auto
    then show ?thesis using assms by (simp add: trieOk_def)
  next
    case False
    then have "wfNode Map.empty (root t)" "wfNode Map.empty (root t')" using assms by (auto simp: trieOk_def)
    then show ?thesis using canonical [OF _ _ _ _ same] wfNode_loaded by blast
  qed
qed (intro ext, simp only: contents_def)

section \<open>Compact keys\<close>

lemma decodeNibbles_even:
  assumes "even (length hex)" "\<forall>x \<in> set hex. x < 16"
  shows "concat (map (\<lambda>b. [b div 16, b mod 16]) (decodeNibbles hex)) = hex"
  using assms
proof (induction hex rule: decodeNibbles.induct)
  case (1 x y r)
  have "(push_bit 4 x OR y) div 16 = x" "(push_bit 4 x OR y) mod 16 = y" using 1 nibble_join by auto
  with 1 show ?case by simp
qed auto

definition hexKey :: "byte list \<Rightarrow> bool" where
  "hexKey hex = (terminated hex \<or> (\<forall>x \<in> set hex. x < 16))"

lemma hexKey_body:
  assumes "hexKey hex"
  shows "\<exists>body. (\<forall>x \<in> set body. x < 16) \<and> (hasTerm hex \<and> hex = body @ [16] \<or> \<not> hasTerm hex \<and> hex = body)"
proof (cases "hasTerm hex")
  case True
  then obtain body where hex: "hex = body @ [16]" unfolding hasTerm_def by (metis append_butlast_last_id)
  with assms have "terminated hex" unfolding hexKey_def by auto
  with hex have "\<forall>x \<in> set body. x < 16" using terminated_append [of "[16]" body] by simp
  with hex True show ?thesis by blast
next
  case False
  have "last hex = 16" if "terminated hex" using that by (induction hex rule: terminated.induct) (auto split: if_splits)
  with False assms show ?thesis by (auto simp: hexKey_def hasTerm_def)
qed

lemma first_byte: "32 OR (16 OR x) = 48 OR (x :: byte)"
  by (simp add: or.assoc [symmetric])

lemma hex_of_compact:
  assumes "hexKey hex"
  shows "compactToHex (hexToCompact hex) = hex"
proof -
  obtain body where b: "\<forall>x \<in> set body. x < 16" "hasTerm hex \<and> hex = body @ [16] \<or> \<not> hasTerm hex \<and> hex = body"
    using hexKey_body [OF assms] by blast
  have strip: "(if hasTerm hex then butlast hex else hex) = body" using b(2) by auto
  show ?thesis
  proof (cases "odd (length body)")
    case True
    then obtain h t where ht: "body = h # t" by (cases body) auto
    have h: "h < 16" "\<forall>x \<in> set t. x < 16" "even (length t)" using b(1) ht True by auto
    have f: "(48 OR h) div 16 = 3" "(48 OR h) mod 16 = h" "(16 OR h) div 16 = 1" "(16 OR h) mod 16 = h"
      using nibble_join [of 3 h] nibble_join [of 1 h] h(1) by simp_all
    show ?thesis
    proof (cases "hasTerm hex")
      case t: True
      have "hexToCompact hex = (48 OR h) # decodeNibbles t" using t strip True ht by (simp add: hexToCompact_def Let_def first_byte)
      then show ?thesis using f decodeNibbles_even [OF h(3,2)] b(2) t ht by (simp add: compactToHex_def keybytesToHex_def Let_def)
    next
      case t: False
      have "hexToCompact hex = (16 OR h) # decodeNibbles t" using t strip True ht by (simp add: hexToCompact_def Let_def)
      then show ?thesis using f decodeNibbles_even [OF h(3,2)] b(2) t ht by (simp add: compactToHex_def keybytesToHex_def Let_def butlast_append)
    qed
  next
    case False
    then have "hexToCompact hex = (if hasTerm hex then 32 else 0) # decodeNibbles body"
      using strip by (auto simp: hexToCompact_def Let_def)
    then show ?thesis using decodeNibbles_even [OF _ b(1)] False b(2) by (cases "hasTerm hex") (simp_all add: compactToHex_def keybytesToHex_def Let_def butlast_append)
  qed
qed

lemma decodeNibbles_length: "length (decodeNibbles r) = length r div 2"
  by (induction r rule: decodeNibbles.induct) auto

lemma inPlaceLoop_decodes:
  assumes "bi \<le> ni + 1" "ni + 2 * m \<le> length hex"
  shows "length (inPlaceLoop hex (ni + 2 * m) bi ni) = length hex \<and>
    take (bi + m) (inPlaceLoop hex (ni + 2 * m) bi ni) = take bi hex @ decodeNibbles (take (2 * m) (drop ni hex))"
  using assms
proof (induction m arbitrary: hex bi ni)
  case 0
  then show ?case by (simp add: inPlaceLoop.simps)
next
  case (Suc m)
  let ?b = "push_bit 4 (hex ! ni) OR hex ! (ni + 1)"
  let ?hex = "hex[bi := ?b]"
  have d: "drop ni hex = hex ! ni # hex ! (ni + 1) # drop (ni + 2) hex"
    using Suc.prems(2) by (simp add: Cons_nth_drop_Suc)
  have "inPlaceLoop hex (ni + 2 * Suc m) bi ni = inPlaceLoop ?hex (ni + 2 + 2 * m) (bi + 1) (ni + 2)"
    by (subst inPlaceLoop.simps) simp
  moreover have "length (inPlaceLoop ?hex (ni + 2 + 2 * m) (bi + 1) (ni + 2)) = length ?hex \<and>
      take (bi + 1 + m) (inPlaceLoop ?hex (ni + 2 + 2 * m) (bi + 1) (ni + 2)) = take (bi + 1) ?hex @ decodeNibbles (take (2 * m) (drop (ni + 2) ?hex))"
    using Suc.prems by (intro Suc.IH) simp_all
  moreover have "take (bi + 1) ?hex = take bi hex @ [?b]" using Suc.prems by (simp add: take_Suc_conv_app_nth)
  moreover have "drop (ni + 2) ?hex = drop (ni + 2) hex" using Suc.prems(1) by simp
  ultimately show ?case using d by simp
qed

lemma in_place_compact:
  assumes "hex \<noteq> []"
  shows "\<exists>r. hexToCompactInPlace hex = Some (r, length (hexToCompact hex)) \<and> length r = length hex \<and> take (length (hexToCompact hex)) r = hexToCompact hex"
proof -
  define body where "body = (if hasTerm hex then butlast hex else hex)"
  have len: "length body = (if hasTerm hex then length hex - 1 else length hex)" by (simp add: body_def)
  have body: "take k (drop j hex) = take k (drop j body)" if "j + k \<le> length body" for j k
  proof -
    have "body = take (length body) hex" by (auto simp: body_def butlast_conv_take)
    then have "take (k + j) body = take (k + j) hex" using that by (metis add.commute min.absorb1 take_take)
    then show ?thesis by (simp add: take_drop)
  qed
  define fb :: byte where "fb = (if hasTerm hex then push_bit 5 1 else 0)"
  have upd: "take (Suc m) (r[0 := b]) = b # xs" if "take (Suc m) r = take (Suc 0) hex @ xs" "length r = length hex" for m r b xs
    using that assms by (cases r; cases hex) auto
  show ?thesis
  proof (cases "odd (length body)")
    case True
    then obtain m where m: "length body = 1 + 2 * m" by (metis oddE add.commute)
    then obtain h t where ht: "body = h # t" by (cases body) auto
    have hd: "hd hex = h" using ht assms unfolding body_def by (cases hex) (auto split: if_splits)
    let ?r = "(inPlaceLoop hex (length body) 1 1)[0 := fb OR push_bit 4 1 OR hd hex]"
    have c: "hexToCompact hex = (fb OR push_bit 4 1 OR hd hex) # decodeNibbles t"
      using True ht hd by (simp add: hexToCompact_def Let_def fb_def flip: body_def)
    have "hexToCompactInPlace hex = Some (?r, length body div 2 + 1)"
      using True assms by (simp add: hexToCompactInPlace_def Let_def fb_def len)
    moreover have "length (hexToCompact hex) = length body div 2 + 1" using c ht m by (simp add: decodeNibbles_length)
    moreover have "take (Suc m) ?r = hexToCompact hex" "length ?r = length hex"
      unfolding c using inPlaceLoop_decodes [of 1 1 m hex] m len body [of 1 "2 * m"] ht by (auto intro: upd split: if_splits)
    ultimately show ?thesis using m by auto
  next
    case False
    then obtain m where m: "length body = 2 * m" by (auto elim: evenE)
    let ?r = "(inPlaceLoop hex (length body) 1 0)[0 := fb]"
    have c: "hexToCompact hex = fb # decodeNibbles body"
      using False by (simp add: hexToCompact_def Let_def fb_def flip: body_def)
    have "hexToCompactInPlace hex = Some (?r, length body div 2 + 1)"
      using False assms by (simp add: hexToCompactInPlace_def Let_def fb_def len)
    moreover have "length (hexToCompact hex) = length body div 2 + 1" using c by (simp add: decodeNibbles_length)
    moreover have "take (Suc m) ?r = hexToCompact hex" "length ?r = length hex"
      unfolding c using inPlaceLoop_decodes [of 1 0 m hex] m len body [of 0 "2 * m"] by (auto intro: upd split: if_splits)
    ultimately show ?thesis using m by auto
  qed
qed

section \<open>Properties\<close>

text \<open>C5: A trie is a map from keys to values, whatever part of it is still to be loaded from the database. On a trie in minimal form whose hashes the database knows,
  lookup, update and deletion return without an error or a panic: lookup gives the value of the key, if it has one, and changes nothing but what is loaded; an update
  changes the value of its key and no other, where the empty value removes the key, and so does deletion. Each leaves a trie in minimal form.
\<close>

theorem trie_refines_map:
  assumes "trieOk db t"
  shows "(\<exists>t'. TryGet db key t = Some (t', contents db t key, None) \<and> trieOk db t' \<and> contents db t' = contents db t) \<and>
    (\<exists>t'. TryUpdate db key v t = Some (t', None) \<and> trieOk db t' \<and> contents db t' = (contents db t)(key := if v = [] then None else Some v)) \<and>
    (\<exists>t'. TryDelete db key t = Some (t', None) \<and> trieOk db t' \<and> contents db t' = (contents db t)(key := None))"
  by (intro conjI trie_store.get_law trie_store.put_law trie_store.remove_law assms)

definition exNode :: node where
  "exNode = FullNode ((replicate 17 NilNode)[1 := ShortNode [2, 16] (ValueNode [7]), 3 := ShortNode [4, 16] (ValueNode [8])])"

definition exTrie :: Trie where
  "exTrie = \<lparr>root = HashNode 1, unhashed = 0\<rparr>"

lemma exNode_split: "exNode = split_at [] 1 (ShortNode [2, 16] (ValueNode [7])) 3 (ShortNode [4, 16] (ValueNode [8]))"
  by (simp add: exNode_def split_at_def)

lemma exNode_holds: "holds db exNode k v \<longleftrightarrow> k = [1, 2, 16] \<and> v = [7] \<or> k = [3, 4, 16] \<and> v = [8]"
  unfolding exNode_split by (subst holds_branch) auto

lemma exTrie_ok: "trieOk [1 \<mapsto> exNode] exTrie"
proof -
  have "wfNode [1 \<mapsto> exNode] exNode"
    unfolding exNode_split by (rule wf_split_at) (auto simp: slotOk_def intro!: wf_leaf)
  then have "wfNode [1 \<mapsto> exNode] (HashNode 1)" by (rule wf_hash [rotated 2]) (auto simp: exNode_def)
  moreover have "[1, 2, 16] = keybytesToHex [0x12]" "[3, 4, 16] = keybytesToHex [0x34]" by (simp_all add: keybytesToHex_def)
  ultimately show ?thesis by (auto simp: trieOk_def exTrie_def exNode_holds)
qed

theorem trie_refines_map_witness:
  "trieOk [1 \<mapsto> exNode] exTrie \<and>
   (\<exists>t'. TryGet [1 \<mapsto> exNode] [0x34] exTrie = Some (t', Some [8], None)) \<and>
   (\<exists>t'. TryUpdate [1 \<mapsto> exNode] [0x12] [9] exTrie = Some (t', None) \<and> contents [1 \<mapsto> exNode] t' [0x12] = Some [9] \<and> contents [1 \<mapsto> exNode] t' [0x34] = Some [8]) \<and>
   (\<exists>t'. TryDelete [1 \<mapsto> exNode] [0x12] exTrie = Some (t', None) \<and> contents [1 \<mapsto> exNode] t' [0x12] = None \<and> contents [1 \<mapsto> exNode] t' [0x34] = Some [8])"
proof -
  have "contents [1 \<mapsto> exNode] exTrie [0x34] = Some [8]"
    unfolding contents_iff by (simp add: exTrie_def exNode_holds keybytesToHex_def)
  then show ?thesis
    using trie_refines_map [OF exTrie_ok, of "[0x34]"] trie_refines_map [OF exTrie_ok, of "[0x12]" "[9]"] exTrie_ok by fastforce
qed

text \<open>C6: The tree depends on what it holds only. Two sequences of updates of an empty trie, in any order and with any values overwritten or removed on the way, run to
  the end, and give the same tree exactly when they leave the same keys with the same values. The root hash, a function of the tree, is therefore the same at every node that
  reaches the same state.
\<close>

theorem trie_determined_by_contents:
  "\<exists>t t'. puts (TryUpdate Map.empty) ops emptyTrie = Some t \<and> puts (TryUpdate Map.empty) ops' emptyTrie = Some t' \<and>
    (root t = root t' \<longleftrightarrow> applied ops Map.empty = applied ops' Map.empty)"
  using trie_store.puts_contents [OF emptyTrie_ok(1)] same_contents_same_root emptyTrie_ok(2) by metis

text \<open>C18: The compact form of a key, in which short nodes are hashed and stored, loses nothing: a sequence of nibbles, with the terminator or without, is read back
  as it was. The routine that writes the compact form over the key it reads does not overwrite nibbles that it still needs: it gives the same bytes and the same length.
\<close>

theorem compact_keys:
  assumes "hexKey hex"
  shows "compactToHex (hexToCompact hex) = hex \<and>
    (hex \<noteq> [] \<longrightarrow> (\<exists>r. hexToCompactInPlace hex = Some (r, length (hexToCompact hex)) \<and> take (length (hexToCompact hex)) r = hexToCompact hex))"
  using hex_of_compact [OF assms] in_place_compact by blast

theorem compact_keys_witness:
  "hexKey [15, 1, 12, 11, 8, 16] \<and> hexToCompact [15, 1, 12, 11, 8, 16] = [0x3f, 0x1c, 0xb8] \<and> compactToHex [0x3f, 0x1c, 0xb8] = [15, 1, 12, 11, 8, 16]"
proof -
  have *: "hexKey [15, 1, 12, 11, 8, 16]" by (simp add: hexKey_def)
  have c: "hexToCompact [15, 1, 12, 11, 8, 16] = [0x3f, 0x1c, 0xb8]" by (simp add: hexToCompact_def hasTerm_def Let_def)
  show ?thesis using compact_keys [OF *] * c by simp
qed

end
