(* ===== verification/Spec2Isabelle.thy ===== *)
theory Spec2Isabelle
  imports StateTransition JumpDest EngineRuns Rlp TrieMap
begin

text \<open>
  \<^bold>\<open>The Wormholes node.\<close> Wormholes is an Ethereum node in Go whose accounts can be NFTs, pledge
  tokens to become validators and run exchanges. This development models its state database, its
  transactions with the virtual machine that runs contracts, the pools of validators that blocks leave behind, the consensus among
  validators on the next block, and the tries and the encoding under them, and
  proves what makes them correct, or shows where they are not.

  \<^bold>\<open>The parts and how they interact.\<close> A message is checked and buys its gas (src/core/state_transition.go), then reaches
  \<open>EVM.Call\<close> or \<open>EVM.Create\<close> (src/core/vm/evm.go). A payload that
  starts with \<open>wormholes:\<close> is decoded and dispatched on its type by \<open>EVM.HandleNFT\<close>; the trades among the types
  are implemented in src/core/evm.go. The code of contracts is run by
  the interpreter (interpreter.go with its jump tables, operations and gas functions), which may call and create contracts again. All of them act on
  the state database (src/core/state/statedb.go),
  which keeps accounts as state objects (state_object.go), records every change in a journal (journal.go) so that a
  failed call can be reverted, and merges and splits the NFTs minted officially. What blocks need
  beyond the accounts, the mint counters and the pools of exchanged NFTs, pledges, deposits, miners and votes, are lists in the
  state database that are not journaled; when a block is written (src/core/blockchain.go), pledges
  and deposits become the stakes from which the next validators are drawn (src/core/types). The validators of a block
  (src/consensus/istanbul/validator) agree on it by the messages of the istanbul protocol (src/consensus/istanbul/ibft/core): the proposer of a round sends a proposal, the others prepare and
  commit it, and a round that fails is changed. The engine (ibft/engine and backend) prepares and seals the header of a proposal, puts the seals of those who committed into its
  extra data, and verifies the headers that other nodes send. Accounts and storage are kept in tries (src/trie), whose nodes, like headers and messages, are encoded by src/rlp.

  \<^bold>\<open>Theories.\<close> Each holds the definitions that model its part, with the names of the source, then
  the lemmas on them, then its properties (the theorems whose text starts with a claim id).

  \<^item> \<open>Prelude\<close>: the fact collections \<open>lookup_simps\<close> and \<open>undo_intros\<close>, loops over lists in the option
    type, first-match search and update.
  \<^item> \<open>GoCommon\<close>: src/common (addresses, their bytes, hexadecimal and checksummed spelling, parsing) and the functions of
    \<open>strings\<close> and \<open>math/big\<close> the code uses. A Go panic is \<open>None\<close>.
  \<^item> \<open>NFTTypes\<close>: src/core/types/nfttypes.go, the pools of exchanged and of injected NFTs and the payloads of
    transactions.
  \<^item> \<open>StakePools\<close>: stake_account.go, validator_account.go and active_miner_pool.go. The locales \<open>stake_pool\<close> and \<open>staking_pool\<close> are
    the contract of a list of stakes under deposits and withdrawals; stakers and validators interpret both.
  \<^item> \<open>AccessList\<close>, \<open>StateObject\<close>, \<open>StateDB\<close>: src/core/state/access_list.go, state_object.go with its storage layers and setters, and the
    record of the state database with the journal, all journaled setters, lookup, creation, snapshots and finalisation.
  \<^item> \<open>StateRevert\<close>: the locale \<open>undo_log\<close>, a log of changes whose entries can be undone one by one, with the closure of undoable
    operations under sequence, choice and loops; the journal interprets it, and every setter is undoable.
  \<^item> \<open>NFTTree\<close>, \<open>NFTOwners\<close>: merging sixteen (or 256) sibling NFTs into their parent, splitting, and lookup of the owner
    through the parents. Owners are a function of the map \<open>nodes\<close> from addresses to owner and level; merging keeps all
    owners, a transfer changes exactly the NFTs below the address, and the merge recursion ends within the fuel.
  \<^item> \<open>NFTState\<close>: minting, approvals, exchange for currency, pledges, exchangers and votes.
  \<^item> \<open>Accounts\<close>: the state database refines a map from addresses to accounts (\<open>acct\<close>): every getter reads a field and every
    operation updates one entry. The locale \<open>ledger\<close> gives what purchases do to balances and their sum; it is interpreted
    on the free balances and on the whole wealth with pledges and deposits.
  \<^item> \<open>StateOps\<close>: all operations as one datatype, calls nested over them, the reachable states, and the revert theorem.
  \<^item> \<open>Market\<close>: src/core/evm.go, every trade as its validation followed by its settlement.
  \<^item> \<open>Evm\<close>: \<open>HandleNFT\<close>, one definition per transaction type, and \<open>Call\<close> over any interpreter that keeps to the operations of the state
    database (\<open>sandboxed\<close>).
  \<^item> \<open>Supply\<close>: the sum of all money under every transaction type, and the repeated exchange of an NFT.
  \<^item> \<open>ChainPools\<close>: the commit of the pools when a block is written and the choice of validators.
  \<^item> \<open>ChainConfig\<close>: src/params/config.go, the fork blocks, the rules at a block and the check of their order.
  \<^item> \<open>VM\<close>, \<open>VMGas\<close>, \<open>VMCalls\<close>, \<open>Instructions\<close>, \<open>JumpTable\<close>, \<open>Interpreter\<close>: src/core/vm. Stack, memory and jump analysis; gas and memory size functions;
    the other calls and the creation of contracts; every operation; the jump tables of all releases; the loop.
  \<^item> \<open>VMFacts\<close>, \<open>Execution\<close>: what every operation and gas function keeps, collected into an invariant of the jump tables, from which follow
    that runs end, make no gas and keep to the operations of the state database. The locale \<open>code_call\<close> is the contract of the four kinds of calls, each of which
    interprets it.
  \<^item> \<open>JumpDest\<close>: the jump analysis against the instructions of the code as an inductive relation.
  \<^item> \<open>StateTransition\<close>: src/core/state_transition.go and gaspool.go, from the checks of a message to the payment of its fee.
  \<^item> \<open>Validators\<close>: validator sets, the proposer of a round and the quorum. The locale \<open>quorum_system\<close> is what a vote needs of quorums; the validators of the
    istanbul network interpret it.
  \<^item> \<open>IBFT\<close>: the state of a validator as the record \<open>core\<close>, one definition per handler of ibft/core; what a handler sends, commits or starts a timer for is
    appended to \<open>effects\<close>.
  \<^item> \<open>IBFTAgreement\<close>, \<open>IBFTProgress\<close>, \<open>IBFTRuns\<close>: the network as the inductive relation \<open>networks\<close>, in which any event comes to any validator and faulty
    validators send what they like; agreement from an invariant of each validator; the turns of proposers and the decision on a quorum; a run of four validators.
  \<^item> \<open>IBFTEngine\<close>, \<open>EngineRuns\<close>: headers with their extra data, preparing, finalising, sealing and verifying them, and an engine of four validators.
  \<^item> \<open>Rlp\<close>: the encoding buffer of rlp/encode.go against the encoding as a function, and the splitting of rlp/raw.go.
  \<^item> \<open>Trie\<close>, \<open>TrieMap\<close>: trie/encoding.go and trie/trie.go, where nodes are loaded from a database as they are met. What a trie holds is the relation \<open>holds\<close>, its minimal
    form the relation \<open>wfNode\<close>. The locale \<open>key_value_store\<close> is the contract of a store; tries interpret it with any database.

  \<^bold>\<open>What the theorems show.\<close> A transfer gives the new owner exactly the NFTs below the address. A failed call restores every
  account, whatever its code did. Code ends, makes no gas, and jumps only to instructions. A message pays for the gas it used, and the gas of a block
  adds up. A sale needs the consent of both sides, moves exactly the price and keeps the sum of all
  money. Failed transactions change nothing. Stakes follow pledges as long as no pledge is reverted. Validators
  never decide different blocks of the same sequence, leaving aside blocks that one of them reports as bad or refuses, while less than a third are faulty, the correct ones agree on the validators
  and none of them is stopped or answers a proposal of an earlier view; each gets its turn to propose, and a quorum of commits decides. A trie is a map, and
  equal maps are equal trees. The encoding buffer writes the encoding, and splitting accepts nothing else. Several theorems state what the
  code does where that is not what it should do: a reverted pledge becomes stake, an exchange can be repeated, offers can be replayed and
  outlive their expiry, a matched sale ignores the merge level the buyer signed, opening an exchanger twice destroys a deposit, a merge can reach a level that lookup does
  not, fee and royalty may exceed the price, emptiness is never detected, a contract can take any NFT minted by a user, three bytes of code
  panic, a liveness transaction creates coins, the header of a block is verified against the validators it names itself, and a validator asked about an old block seals the one it is working on.

  \<^bold>\<open>Conventions.\<close> Addresses are 160-bit words, hashes 256-bit words, \<open>uint8\<close>, \<open>uint32\<close> and \<open>uint64\<close> words of their
  width that wrap; \<open>big.Int\<close> is \<open>int\<close>, a \<open>*big.Int\<close> that may be nil \<open>int option\<close>. A method with a pointer receiver takes the
  state database last and returns it updated; \<open>panics\<close> is the option type, errors are strings in the left of a sum. State
  objects live in the map \<open>stateObjects\<close> of the database, so that two references to an object are one entry.

  \<^bold>\<open>Bounds.\<close> The merge recursion takes fuel 42 (22 for the 256-ary one): a merge shortens the address by one
  (two) of its 40 digits, and the locale \<open>merge_routine\<close> shows that the fuel is never used up. The search for the store address ends at the depth limit of the
  source. The interpreter takes one more than its gas as fuel, for the turns of the loop and the nested runs alike: every turn that goes on takes gas, and a
  call is given less than its caller has left, so the fuel is never used up (\<open>interpreter_terminates\<close>). The
  operations of tries are partial functions, since a database may be circular; on tries in minimal form they are shown to return.

  \<^bold>\<open>Parameters.\<close> The Keccak hash, recovery of a signer from a signature, JSON decoding, the precompiled
  contracts, the imported 256-bit arithmetic, the growth of Go slices, the tries and the code database under the state, the iteration order of Go maps, the encoding and
  signing of consensus messages, the headers of the chain, the clock, and the node database of tries are arguments or fields; the theorems on headers assume that encoded extra data can be decoded again (\<open>lawful\<close>), and agreement assumes of the backend of each
  validator what \<open>goodBackend\<close> lists: subjects decode again, verified blocks have a hash that is not zero, validators are those of the sequence, only the blocks of the set \<open>bad\<close> are reported as bad or refused, and
  QBFT is not enabled.

  \<^bold>\<open>Not modelled.\<close> Hashing and commit of tries and databases, which change caches and disks but not what a trie holds; copies of a state database; tracing and cancellation of a run; extra EIPs chosen by a
  flag; the loop over the transactions of a block, whose receipts and logs go to the database; the transaction pool, driven by timers and channels; block import and reorganisation; the alternative consensus engines (QBFT, clique,
  ethash) and the snapshots of votes; the mapping of Go types to encoders by reflection and the streaming decoder of RLP; networking, RPC and the command
  line tools, which are input and output.
\<close>

end
